(* ===== verification/Prelude.thy ===== *)
theory Prelude
  imports Main "HOL-Library.Word"
begin

text \<open>
  Shared vocabulary of the development: the machine integers of the Rust sources
  (\<open>u64\<close> stack words, \<open>u32\<close> codes), Rust's signed arithmetic on 64-bit words (wrapping,
  overflow test, \<open>checked_div\<close>), decimal printing, and the generic list lemmas the component
  theories share. A \<open>Vec\<close> used as a stack is a list with the bottom first, so pushing appends
  and popping reads \<open>last\<close>.
\<close>

unbundle bit_operations_syntax

type_synonym u64 = "64 word"
type_synonym u32 = "32 word"

named_theorems vec_simps
named_theorems exec_defs
named_theorems frame_simps

section \<open>Stacks as vectors\<close>

definition vpush :: "'a list \<Rightarrow> 'a \<Rightarrow> 'a list" where
  "vpush xs x = xs @ [x]"

definition vpop :: "'a list \<Rightarrow> ('a \<times> 'a list) option" where
  "vpop xs = (if xs = [] then None else Some (last xs, butlast xs))"

definition vget :: "'a list \<Rightarrow> nat \<Rightarrow> 'a option" where
  "vget xs i = (if i < length xs then Some (xs ! i) else None)"

lemma vpop_vpush [simp, vec_simps]: "vpop (vpush xs x) = Some (x, xs)"
  by (simp add: vpop_def vpush_def)

lemma vpop_Nil [simp, vec_simps]: "vpop [] = None"
  by (simp add: vpop_def)

lemma vpop_snoc [simp, vec_simps]: "vpop (xs @ [x]) = Some (x, xs)"
  by (simp add: vpop_def)

lemma vpop_snoc2 [simp, vec_simps]: "vpop (xs @ [x, y]) = Some (y, xs @ [x])"
  using vpop_snoc [of "xs @ [x]" y] by simp

lemma length_vpush [simp, vec_simps]: "length (vpush xs x) = Suc (length xs)"
  by (simp add: vpush_def)

lemma vget_Some [simp, vec_simps]: "i < length xs \<Longrightarrow> vget xs i = Some (xs ! i)"
  by (simp add: vget_def)

lemma vget_None [simp, vec_simps]: "\<not> i < length xs \<Longrightarrow> vget xs i = None"
  by (simp add: vget_def)

lemma vget_vpush [vec_simps]: "vget (vpush xs x) i = (if i = length xs then Some x else vget xs i)"
  by (auto simp: vget_def vpush_def nth_append)

lemma vget_eq_Some_iff: "vget xs i = Some x \<longleftrightarrow> i < length xs \<and> xs ! i = x"
  by (auto simp: vget_def)

lemma take_vpush [simp, vec_simps]: "n \<le> length xs \<Longrightarrow> take n (vpush xs x) = take n xs"
  by (simp add: vpush_def)

lemma length_pop_le: "vpop xs = Some (x, ys) \<Longrightarrow> length ys < length xs"
  by (auto simp: vpop_def split: if_splits)

section \<open>Signed 64-bit arithmetic as Rust has it\<close>

definition i64_in_range :: "int \<Rightarrow> bool" where
  "i64_in_range i \<longleftrightarrow> - (2 ^ 63) \<le> i \<and> i < 2 ^ 63"

definition trunc_div :: "int \<Rightarrow> int \<Rightarrow> int" where
  "trunc_div a b = sgn a * sgn b * (\<bar>a\<bar> div \<bar>b\<bar>)"

text \<open>Rust's \<open>i64::checked_div\<close>: \<open>None\<close> on a zero divisor and on \<open>i64::MIN / -1\<close>.\<close>

definition i64_checked_div :: "u64 \<Rightarrow> u64 \<Rightarrow> u64 option" where
  "i64_checked_div a b =
     (if sint b = 0 then None
      else if sint a = - (2 ^ 63) \<and> sint b = - 1 then None
      else Some (word_of_int (trunc_div (sint a) (sint b))))"

lemma sint_u64_bounds: "- (2 ^ 63) \<le> sint (w :: u64)" "sint (w :: u64) < 2 ^ 63"
  using sint_greater_eq [of w] sint_less [of w] by simp_all

lemma i64_in_range_sint [simp]: "i64_in_range (sint (w :: u64))"
  using sint_u64_bounds [of w] by (simp add: i64_in_range_def)

lemma sint_of_int_in_range: "i64_in_range i \<Longrightarrow> sint (word_of_int i :: u64) = i"
  by (simp add: i64_in_range_def sint_sbintrunc' signed_take_bit_int_eq_self)

lemma i64_checked_div_None_iff:
  "i64_checked_div a b = None \<longleftrightarrow> sint b = 0 \<or> (sint a = - (2 ^ 63) \<and> sint b = - 1)"
  by (auto simp: i64_checked_div_def)

definition bool_u64 :: "bool \<Rightarrow> u64" where
  "bool_u64 b = (if b then 1 else 0)"

lemma bool_u64_eq_0 [simp]: "bool_u64 b = 0 \<longleftrightarrow> \<not> b"
  by (simp add: bool_u64_def)

lemma bool_u64_eq_1 [simp]: "bool_u64 b = 1 \<longleftrightarrow> b"
  by (simp add: bool_u64_def)

section \<open>Decimal printing\<close>

definition digit_char :: "nat \<Rightarrow> char" where
  "digit_char d = char_of (48 + d)"

fun show_nat :: "nat \<Rightarrow> string" where
  "show_nat n = (if n < 10 then [digit_char n] else show_nat (n div 10) @ [digit_char (n mod 10)])"

declare show_nat.simps [simp del]

definition show_int :: "int \<Rightarrow> string" where
  "show_int i = (if i < 0 then CHR ''-'' # show_nat (nat (- i)) else show_nat (nat i))"

lemma show_nat_nonempty [simp]: "show_nat n \<noteq> []"
  by (subst show_nat.simps) simp

section \<open>Joining and searching lists\<close>

fun join :: "'a list \<Rightarrow> 'a list list \<Rightarrow> 'a list" where
  "join sep [] = []"
| "join sep [x] = x"
| "join sep (x # y # ys) = x @ sep @ join sep (y # ys)"

lemma join_Cons: "xs \<noteq> [] \<Longrightarrow> join sep (x # xs) = x @ sep @ join sep xs"
  by (cases xs) simp_all

fun find_pos :: "('a \<Rightarrow> bool) \<Rightarrow> 'a list \<Rightarrow> nat option" where
  "find_pos P [] = None"
| "find_pos P (x # xs) = (if P x then Some 0 else map_option Suc (find_pos P xs))"

lemma find_pos_Some: "find_pos P xs = Some i \<Longrightarrow> i < length xs \<and> P (xs ! i)"
  by (induction xs arbitrary: i) (auto split: if_splits)

lemma find_pos_None_iff: "find_pos P xs = None \<longleftrightarrow> (\<forall>x \<in> set xs. \<not> P x)"
  by (induction xs) auto

end
