(* ===== verification/Rust_Str.thy ===== *)
theory Rust_Str
  imports Prelude
begin

text \<open>
  Rust's strings as the SOL sources use them. A \<open>String\<close> is a byte string in UTF-8 (type
  \<open>string\<close>); a \<open>Vec<char>\<close> or a traversal by \<open>chars()\<close> is a list of code points (type
  \<open>ustr\<close>). The theory models \<open>char::encode_utf8\<close>, the validation of
  \<open>String::from_utf8\<close> with its error, the character classes the lexer asks for, \<open>trim\<close>,
  \<open>str::parse\<close> for unsigned integers, and \<open>str::split\<close>. The Unicode tables behind
  \<open>is_alphabetic\<close> and \<open>is_numeric\<close> outside ASCII are data of the standard library: they are a
  parameter (\<open>ucd\<close>).
\<close>

type_synonym ustr = "nat list"

definition cps :: "string \<Rightarrow> ustr" where
  "cps s = map of_char s"

section \<open>UTF-8\<close>

definition scalar_value :: "nat \<Rightarrow> bool" where
  "scalar_value c \<longleftrightarrow> c < 0xD800 \<or> (0xE000 \<le> c \<and> c < 0x110000)"

definition utf8_encode :: "nat \<Rightarrow> nat list" where
  "utf8_encode c =
     (if c < 0x80 then [c]
      else if c < 0x800 then [0xC0 + c div 64, 0x80 + c mod 64]
      else if c < 0x10000 then [0xE0 + c div 4096, 0x80 + c div 64 mod 64, 0x80 + c mod 64]
      else [0xF0 + c div 262144, 0x80 + c div 4096 mod 64, 0x80 + c div 64 mod 64, 0x80 + c mod 64])"

definition utf8 :: "ustr \<Rightarrow> string" where
  "utf8 cs = map char_of (concat (map utf8_encode cs))"

text \<open>
  One step of the standard library's validation: the code point and the rest of the bytes, or the
  error length (\<open>None\<close> where the input ends inside a sequence).
\<close>

definition cont :: "nat \<Rightarrow> bool" where
  "cont b \<longleftrightarrow> 0x80 \<le> b \<and> b < 0xC0"

definition second_ok :: "nat \<Rightarrow> nat \<Rightarrow> bool" where
  "second_ok b0 b1 =
     (if b0 = 0xE0 then 0xA0 \<le> b1 \<and> b1 \<le> 0xBF
      else if b0 = 0xED then 0x80 \<le> b1 \<and> b1 \<le> 0x9F
      else if b0 = 0xF0 then 0x90 \<le> b1 \<and> b1 \<le> 0xBF
      else if b0 = 0xF4 then 0x80 \<le> b1 \<and> b1 \<le> 0x8F
      else cont b1)"

fun utf8_step :: "nat \<Rightarrow> nat list \<Rightarrow> nat option + (nat \<times> nat list)" where
  "utf8_step b0 bs =
     (if b0 < 0x80 then Inr (b0, bs)
      else if 0xC2 \<le> b0 \<and> b0 \<le> 0xDF then
        (case bs of [] \<Rightarrow> Inl None
         | b1 # r \<Rightarrow> if cont b1 then Inr ((b0 - 0xC0) * 64 + (b1 - 0x80), r) else Inl (Some 1))
      else if 0xE0 \<le> b0 \<and> b0 \<le> 0xEF then
        (case bs of [] \<Rightarrow> Inl None
         | b1 # r \<Rightarrow>
             if \<not> second_ok b0 b1 then Inl (Some 1)
             else (case r of [] \<Rightarrow> Inl None
                   | b2 # r' \<Rightarrow>
                       if cont b2
                       then Inr ((b0 - 0xE0) * 4096 + (b1 - 0x80) * 64 + (b2 - 0x80), r')
                       else Inl (Some 2)))
      else if 0xF0 \<le> b0 \<and> b0 \<le> 0xF4 then
        (case bs of [] \<Rightarrow> Inl None
         | b1 # r \<Rightarrow>
             if \<not> second_ok b0 b1 then Inl (Some 1)
             else (case r of [] \<Rightarrow> Inl None
                   | b2 # r' \<Rightarrow>
                       if \<not> cont b2 then Inl (Some 2)
                       else (case r' of [] \<Rightarrow> Inl None
                             | b3 # r'' \<Rightarrow>
                                 if cont b3
                                 then Inr ((b0 - 0xF0) * 262144 + (b1 - 0x80) * 4096
                                           + (b2 - 0x80) * 64 + (b3 - 0x80), r'')
                                 else Inl (Some 3))))
      else Inl (Some 1))"

declare utf8_step.simps [simp del]

lemma utf8_step_shorter: "utf8_step b bs = Inr (c, r) \<Longrightarrow> length r \<le> length bs"
  by (auto simp: utf8_step.simps split: if_splits list.splits)

text \<open>The whole string: its code points, or \<open>(valid_up_to, error_len)\<close>.\<close>

function utf8_decode :: "nat \<Rightarrow> nat list \<Rightarrow> (nat \<times> nat option) + ustr" where
  "utf8_decode n [] = Inr []"
| "utf8_decode n (b # bs) =
     (case utf8_step b bs of
        Inl e \<Rightarrow> Inl (n, e)
      | Inr (c, r) \<Rightarrow>
          (case utf8_decode (n + (Suc (length bs) - length r)) r of
             Inl e \<Rightarrow> Inl e
           | Inr cs \<Rightarrow> Inr (c # cs)))"
  by pat_completeness auto
termination
  by (relation "measure (\<lambda>(n, bs). length bs)") (auto dest!: utf8_step_shorter)

definition from_utf8 :: "string \<Rightarrow> (nat \<times> nat option) + ustr" where
  "from_utf8 s = utf8_decode 0 (map of_char s)"

text \<open>\<open>chars()\<close> of a \<open>String\<close> (whose bytes are valid).\<close>

definition chars :: "string \<Rightarrow> ustr" where
  "chars s = (case from_utf8 s of Inl _ \<Rightarrow> [] | Inr cs \<Rightarrow> cs)"

text \<open>\<open>Display\<close> of \<open>FromUtf8Error\<close>.\<close>

definition utf8_error_display :: "nat \<times> nat option \<Rightarrow> string" where
  "utf8_error_display e =
     (case snd e of
        Some l \<Rightarrow> ''invalid utf-8 sequence of '' @ show_nat l @ '' bytes from index '' @ show_nat (fst e)
      | None \<Rightarrow> ''incomplete utf-8 byte sequence from index '' @ show_nat (fst e))"

lemma of_char_char_of_lt: "c < 256 \<Longrightarrow> of_char (char_of c :: char) = (c :: nat)"
  by (simp add: of_char_of take_bit_nat_def)

lemma utf8_encode_bytes: "scalar_value c \<Longrightarrow> b \<in> set (utf8_encode c) \<Longrightarrow> b < 256"
  by (auto simp: utf8_encode_def scalar_value_def split: if_splits)

lemma split_64:
  obtains h m l where "c = 4096 * h + 64 * m + l" "m < 64" "l < (64 :: nat)"
    "c div 64 mod 64 = m" "c mod 64 = l" "c div 4096 = h"
proof -
  define q where "q = c div 64"
  have c: "c = 64 * q + c mod 64" by (simp add: q_def)
  have q: "q = 64 * (q div 64) + q mod 64" by simp
  have d: "c div 4096 = q div 64" by (simp add: q_def div_mult2_eq [symmetric])
  show ?thesis
  proof (rule that [of "q div 64" "q mod 64" "c mod 64"])
    show "c = 4096 * (q div 64) + 64 * (q mod 64) + c mod 64" using c q by linarith
    show "c div 64 mod 64 = q mod 64" by (simp only: q_def)
    show "c div 4096 = q div 64" by (rule d)
  qed simp_all
qed

lemma utf8_step_2:
  assumes "0x80 \<le> c" "c < 0x800"
  shows "\<exists>b bs. utf8_encode c = b # bs \<and> utf8_step b (bs @ r) = Inr (c, r)"
proof -
  have "c div 64 * 64 + c mod 64 = c" by simp
  moreover have "2 \<le> c div 64" "c div 64 < 32" using assms by simp_all
  ultimately show ?thesis using assms by (simp add: utf8_encode_def utf8_step.simps cont_def)
qed

lemma utf8_step_3:
  assumes "0x800 \<le> c" "c < 0x10000" "scalar_value c"
  shows "\<exists>b bs. utf8_encode c = b # bs \<and> utf8_step b (bs @ r) = Inr (c, r)"
proof -
  obtain h m l where c: "c = 4096 * h + 64 * m + l" "m < 64" "l < 64"
      "c div 64 mod 64 = m" "c mod 64 = l" "c div 4096 = h"
    by (rule split_64)
  have h: "h < 16" using assms(2) c(1) by simp
  have ok: "second_ok (0xE0 + h) (0x80 + m)"
    using assms c(1-3) h by (auto simp: second_ok_def cont_def scalar_value_def)
  show ?thesis
    using assms(1,2) c h ok by (simp add: utf8_encode_def utf8_step.simps cont_def)
qed

lemma utf8_step_4:
  assumes "0x10000 \<le> c" "c < 0x110000"
  shows "\<exists>b bs. utf8_encode c = b # bs \<and> utf8_step b (bs @ r) = Inr (c, r)"
proof -
  obtain h m l where c: "c = 4096 * h + 64 * m + l" "m < 64" "l < 64"
      "c div 64 mod 64 = m" "c mod 64 = l" "c div 4096 = h"
    by (rule split_64)
  define k where "k = h div 64"
  define n where "n = h mod 64"
  have h: "h = 64 * k + n" "n < 64" by (simp_all add: k_def n_def)
  have k: "c div 262144 = k"
    unfolding k_def c(6) [symmetric] by (simp add: div_mult2_eq [symmetric])
  have n: "c div 4096 mod 64 = n" by (simp only: n_def c(6))
  have kb: "k \<le> 4" using assms(2) c(1) h by simp
  have ok: "second_ok (0xF0 + k) (0x80 + n)"
    using assms c(1-3) h kb by (auto simp: second_ok_def cont_def)
  show ?thesis
    using assms c h k n kb ok by (simp add: utf8_encode_def utf8_step.simps cont_def)
qed

lemma utf8_step_encode:
  assumes "scalar_value c"
  shows "\<exists>b bs. utf8_encode c = b # bs \<and> utf8_step b (bs @ r) = Inr (c, r)"
proof -
  consider "c < 0x80" | "0x80 \<le> c" "c < 0x800" | "0x800 \<le> c" "c < 0x10000" | "0x10000 \<le> c" "c < 0x110000"
    using assms by (fastforce simp: scalar_value_def)
  then show ?thesis
  proof cases
    case 1 then show ?thesis by (simp add: utf8_encode_def utf8_step.simps)
  qed (use assms utf8_step_2 utf8_step_3 utf8_step_4 in blast)+
qed

lemma utf8_decode_encode:
  assumes "\<forall>c \<in> set cs. scalar_value c"
  shows "utf8_decode n (concat (map utf8_encode cs)) = Inr cs"
  using assms
proof (induction cs arbitrary: n)
  case (Cons c cs)
  obtain b bs where b: "utf8_encode c = b # bs"
      "utf8_step b (bs @ concat (map utf8_encode cs)) = Inr (c, concat (map utf8_encode cs))"
    using Cons.prems utf8_step_encode by force
  with Cons show ?case by simp
qed simp

text \<open>Collecting characters into a \<open>String\<close> and walking it by \<open>chars()\<close> gives them back.\<close>

lemma from_utf8_utf8:
  assumes "\<forall>c \<in> set cs. scalar_value c"
  shows "from_utf8 (utf8 cs) = Inr cs"
proof -
  have "\<forall>b \<in> set (concat (map utf8_encode cs)). b < 256"
    using assms by (auto intro: utf8_encode_bytes)
  then have "map of_char (utf8 cs) = concat (map utf8_encode cs)"
    unfolding utf8_def map_map by (intro map_idI) (auto simp: of_char_char_of_lt)
  with assms show ?thesis by (simp add: from_utf8_def utf8_decode_encode)
qed

lemma chars_utf8: "\<forall>c \<in> set cs. scalar_value c \<Longrightarrow> chars (utf8 cs) = cs"
  by (simp add: chars_def from_utf8_utf8)

section \<open>Character classes\<close>

record ucd =
  u_alphabetic :: "nat \<Rightarrow> bool"
  u_numeric :: "nat \<Rightarrow> bool"

definition is_ascii_digit :: "nat \<Rightarrow> bool" where
  "is_ascii_digit c \<longleftrightarrow> 48 \<le> c \<and> c \<le> 57"

definition is_ascii_alpha :: "nat \<Rightarrow> bool" where
  "is_ascii_alpha c \<longleftrightarrow> (65 \<le> c \<and> c \<le> 90) \<or> (97 \<le> c \<and> c \<le> 122)"

definition is_alphabetic :: "ucd \<Rightarrow> nat \<Rightarrow> bool" where
  "is_alphabetic u c = (if c < 128 then is_ascii_alpha c else u_alphabetic u c)"

definition is_numeric :: "ucd \<Rightarrow> nat \<Rightarrow> bool" where
  "is_numeric u c = (if c < 128 then is_ascii_digit c else u_numeric u c)"

definition is_alphanumeric :: "ucd \<Rightarrow> nat \<Rightarrow> bool" where
  "is_alphanumeric u c = (is_alphabetic u c \<or> is_numeric u c)"

text \<open>The \<open>White_Space\<close> property, complete.\<close>

definition is_whitespace :: "nat \<Rightarrow> bool" where
  "is_whitespace c \<longleftrightarrow>
     (9 \<le> c \<and> c \<le> 13) \<or> c = 32 \<or> c = 0x85 \<or> c = 0xA0 \<or> c = 0x1680 \<or>
     (0x2000 \<le> c \<and> c \<le> 0x200A) \<or> c = 0x2028 \<or> c = 0x2029 \<or> c = 0x202F \<or>
     c = 0x205F \<or> c = 0x3000"

definition trim_start :: "ustr \<Rightarrow> ustr" where
  "trim_start s = dropWhile is_whitespace s"

definition trim :: "ustr \<Rightarrow> ustr" where
  "trim s = rev (dropWhile is_whitespace (rev (trim_start s)))"

section \<open>Parsing unsigned decimals\<close>

text \<open>
  \<open>from_str_radix(10)\<close> of an unsigned type with the given maximum: an optional \<open>+\<close>, then at
  least one ASCII digit; anything else, and overflow, is an error.
\<close>

definition digits_val :: "ustr \<Rightarrow> nat" where
  "digits_val ds = foldl (\<lambda>n d. 10 * n + (d - 48)) 0 ds"

definition parse_unsigned :: "nat \<Rightarrow> ustr \<Rightarrow> nat option" where
  "parse_unsigned mx s =
     (let ds = (case s of c # r \<Rightarrow> if c = 43 then r else s | [] \<Rightarrow> [])
      in if ds = [] \<or> \<not> list_all is_ascii_digit ds then None
         else if digits_val ds \<le> mx then Some (digits_val ds) else None)"

section \<open>Splitting\<close>

text \<open>\<open>str::split\<close> on a non-empty separator, as \<open>ListSplit\<close> uses it.\<close>

definition is_prefix :: "'a list \<Rightarrow> 'a list \<Rightarrow> bool" where
  "is_prefix p s \<longleftrightarrow> length p \<le> length s \<and> take (length p) s = p"

function split_aux :: "'a list \<Rightarrow> 'a list \<Rightarrow> 'a list \<Rightarrow> 'a list list" where
  "split_aux sep acc [] = [acc]"
| "split_aux sep acc (c # cs) =
     (if sep \<noteq> [] \<and> is_prefix sep (c # cs)
      then acc # split_aux sep [] (drop (length sep) (c # cs))
      else split_aux sep (acc @ [c]) cs)"
  by pat_completeness auto
termination
  by (relation "measure (\<lambda>(sep, acc, s). length s)") (auto simp: neq_Nil_conv)

definition str_split :: "'a list \<Rightarrow> 'a list \<Rightarrow> 'a list list" where
  "str_split sep s = split_aux sep [] s"

lemma is_prefix_drop: "is_prefix p s \<Longrightarrow> p @ drop (length p) s = s"
  unfolding is_prefix_def by (metis append_take_drop_id)

lemma split_aux_nonempty [simp]: "split_aux sep acc s \<noteq> []"
  by (induction sep acc s rule: split_aux.induct) auto

lemma join_split_aux: "join sep (split_aux sep acc s) = acc @ s"
proof (induction sep acc s rule: split_aux.induct)
  case (2 sep acc c cs)
  show ?case
  proof (cases "sep \<noteq> [] \<and> is_prefix sep (c # cs)")
    case True
    then show ?thesis
      using 2 is_prefix_drop [of sep "c # cs"] by (simp add: join_Cons)
  next
    case False
    with 2 show ?thesis by auto
  qed
qed simp

lemma join_str_split: "join sep (str_split sep s) = s"
  by (simp add: str_split_def join_split_aux)

end
