(* ===== verification/Float64.thy ===== *)
theory Float64
  imports Rust_Str
begin

text \<open>
  Rust's \<open>f64\<close> (and the widening of \<open>f32\<close>) on bit patterns, as the SOL machine stores
  floats: IEEE 754 binary64 with rounding to nearest, ties to even. Finite values are
  \<open>(-1)^s * m * 2^e\<close> with an integer \<open>m\<close>; every operation computes the exact result and
  rounds once. The sign and payload of a NaN result are unspecified in Rust; the model returns
  the canonical quiet NaN.
\<close>

function bitlen :: "int \<Rightarrow> int" where
  "bitlen n = (if n \<le> 0 then 0 else 1 + bitlen (n div 2))"
  by pat_completeness auto
termination by (relation "measure nat") auto

declare bitlen.simps [simp del]

definition f64_nan :: u64 where "f64_nan = 0x7FF8000000000000"

definition f_sign :: "u64 \<Rightarrow> bool" where
  "f_sign w \<longleftrightarrow> 2 ^ 63 \<le> uint w"

definition f_mag :: "u64 \<Rightarrow> int" where
  "f_mag w = uint w mod 2 ^ 63"

definition f_exp :: "u64 \<Rightarrow> int" where
  "f_exp w = f_mag w div 2 ^ 52"

definition f_frac :: "u64 \<Rightarrow> int" where
  "f_frac w = f_mag w mod 2 ^ 52"

definition f_is_nan :: "u64 \<Rightarrow> bool" where
  "f_is_nan w \<longleftrightarrow> f_exp w = 2047 \<and> f_frac w \<noteq> 0"

definition f_is_inf :: "u64 \<Rightarrow> bool" where
  "f_is_inf w \<longleftrightarrow> f_exp w = 2047 \<and> f_frac w = 0"

definition f_mant :: "u64 \<Rightarrow> int" where
  "f_mant w = (if f_exp w = 0 then f_frac w else f_frac w + 2 ^ 52)"

definition f_scale :: "u64 \<Rightarrow> int" where
  "f_scale w = (if f_exp w = 0 then - 1074 else f_exp w - 1075)"

definition f_pack :: "bool \<Rightarrow> int \<Rightarrow> u64" where
  "f_pack s mag = word_of_int ((if s then 2 ^ 63 else 0) + mag)"

definition f_inf :: "bool \<Rightarrow> u64" where
  "f_inf s = f_pack s (2047 * 2 ^ 52)"

text \<open>Round the exact value \<open>(-1)^s * m * 2^e\<close>.\<close>

definition round_half_even :: "int \<Rightarrow> nat \<Rightarrow> int" where
  "round_half_even m k =
     (let q = m div 2 ^ k; r = m mod 2 ^ k; h = 2 ^ (k - 1)
      in if k = 0 then m
         else if h < r \<or> (r = h \<and> odd q) then q + 1 else q)"

definition f_round :: "bool \<Rightarrow> int \<Rightarrow> int \<Rightarrow> u64" where
  "f_round s m e =
     (if m = 0 then f_pack s 0
      else let x = max (e + bitlen m - 53) (- 1074);
               mant = (if x \<le> e then m * 2 ^ nat (e - x) else round_half_even m (nat (x - e)));
               mag = (x + 1074) * 2 ^ 52 + mant
           in if mag < 2047 * 2 ^ 52 then f_pack s mag else f_inf s)"

text \<open>Round \<open>(-1)^s * (n / d) * 2^e\<close>: 66 quotient bits and a sticky bit decide the rounding.\<close>

definition f_ratio :: "bool \<Rightarrow> int \<Rightarrow> int \<Rightarrow> int \<Rightarrow> u64" where
  "f_ratio s n d e =
     (if n = 0 then f_pack s 0
      else let k = nat (66 + bitlen d - bitlen n);
               q = n * 2 ^ k div d; r = n * 2 ^ k mod d
           in f_round s (2 * q + (if r = 0 then 0 else 1)) (e - int k - 1))"

definition f64_neg :: "u64 \<Rightarrow> u64" where
  "f64_neg w = f_pack (\<not> f_sign w) (f_mag w)"

definition f64_add :: "u64 \<Rightarrow> u64 \<Rightarrow> u64" where
  "f64_add a b =
     (if f_is_nan a \<or> f_is_nan b then f64_nan
      else if f_is_inf a then (if f_is_inf b \<and> f_sign a \<noteq> f_sign b then f64_nan else a)
      else if f_is_inf b then b
      else let e = min (f_scale a) (f_scale b);
               v = (\<lambda>w. (if f_sign w then - 1 else 1) * (f_mant w * 2 ^ nat (f_scale w - e)));
               t = v a + v b
           in if t = 0 then f_pack (f_sign a \<and> f_sign b) 0
              else f_round (t < 0) \<bar>t\<bar> e)"

definition f64_sub :: "u64 \<Rightarrow> u64 \<Rightarrow> u64" where
  "f64_sub a b = (if f_is_nan b then f64_nan else f64_add a (f64_neg b))"

definition f64_mul :: "u64 \<Rightarrow> u64 \<Rightarrow> u64" where
  "f64_mul a b =
     (let s = (f_sign a \<noteq> f_sign b) in
      if f_is_nan a \<or> f_is_nan b then f64_nan
      else if f_is_inf a then (if f_mag b = 0 then f64_nan else f_inf s)
      else if f_is_inf b then (if f_mag a = 0 then f64_nan else f_inf s)
      else f_round s (f_mant a * f_mant b) (f_scale a + f_scale b))"

definition f64_div :: "u64 \<Rightarrow> u64 \<Rightarrow> u64" where
  "f64_div a b =
     (let s = (f_sign a \<noteq> f_sign b) in
      if f_is_nan a \<or> f_is_nan b then f64_nan
      else if f_is_inf a then (if f_is_inf b then f64_nan else f_inf s)
      else if f_is_inf b then f_pack s 0
      else if f_mag b = 0 then (if f_mag a = 0 then f64_nan else f_inf s)
      else f_ratio s (f_mant a) (f_mant b) (f_scale a - f_scale b))"

text \<open>Comparisons: the magnitude bits of a non-NaN order its absolute value; both zeros are equal.\<close>

definition f_key :: "u64 \<Rightarrow> int" where
  "f_key w = (if f_sign w then - f_mag w else f_mag w)"

definition f64_eq :: "u64 \<Rightarrow> u64 \<Rightarrow> bool" where
  "f64_eq a b \<longleftrightarrow> \<not> f_is_nan a \<and> \<not> f_is_nan b \<and> f_key a = f_key b"

definition f64_lt :: "u64 \<Rightarrow> u64 \<Rightarrow> bool" where
  "f64_lt a b \<longleftrightarrow> \<not> f_is_nan a \<and> \<not> f_is_nan b \<and> f_key a < f_key b"

definition f64_le :: "u64 \<Rightarrow> u64 \<Rightarrow> bool" where
  "f64_le a b \<longleftrightarrow> \<not> f_is_nan a \<and> \<not> f_is_nan b \<and> f_key a \<le> f_key b"

text \<open>\<open>f32\<close> to \<open>f64\<close> (\<open>v as f64\<close>), exact.\<close>

definition f64_of_f32 :: "u32 \<Rightarrow> u64" where
  "f64_of_f32 w =
     (let s = (2 ^ 31 \<le> uint w); mag = uint w mod 2 ^ 31;
          ex = mag div 2 ^ 23; fr = mag mod 2 ^ 23
      in if ex = 255 then (if fr = 0 then f_inf s else f64_nan)
         else if ex = 0 then f_round s fr (- 149)
         else f_round s (fr + 2 ^ 23) (ex - 150))"

text \<open>\<open>str::parse::<f64>\<close> of \<open>digits . digits\<close>, the only form the lexer passes.\<close>

definition parse_f64 :: "ustr \<Rightarrow> u64" where
  "parse_f64 s =
     (let i = takeWhile (\<lambda>c. c \<noteq> 46) s; f = drop (Suc (length i)) s
      in f_ratio False (int (digits_val (i @ f))) (10 ^ length f) 0)"

lemma f64_trichotomy:
  "\<not> f_is_nan a \<Longrightarrow> \<not> f_is_nan b \<Longrightarrow> f64_lt a b \<or> f64_eq a b \<or> f64_lt b a"
  by (auto simp: f64_lt_def f64_eq_def)

lemma f64_le_iff: "f64_le a b \<longleftrightarrow> f64_lt a b \<or> f64_eq a b"
  by (auto simp: f64_le_def f64_lt_def f64_eq_def)

lemma f64_nan_unordered: "f_is_nan a \<Longrightarrow> \<not> f64_lt a b \<and> \<not> f64_eq a b \<and> \<not> f64_le a b"
  by (simp add: f64_lt_def f64_eq_def f64_le_def)

end
