(* ===== verification/Sol_Ast.thy ===== *)
theory Sol_Ast
  imports Float64
begin

text \<open>
  The data the SOL pipeline passes on (\<open>sol/lexer.rs\<close>, \<open>sol/parser.rs\<close>, \<open>sol/util.rs\<close>): tokens
  and token kinds, types with \<open>type_eq\<close>, and the abstract syntax. Identifiers and string literals
  are UTF-8 byte strings, characters are code points, floats are bit patterns, and an \<open>i128\<close> is an
  \<open>int\<close> kept in range by the lexer. A \<open>HashMap\<close> inside a node is an association list with distinct
  keys, whose order no consumer depends on.
\<close>

section \<open>Tokens\<close>

text \<open>
  The payload-free variants of \<open>Token\<close> and \<open>TokenKind\<close> are shared: the keywords (\<open>kw\<close>) and the
  punctuation (\<open>punct\<close>).
\<close>

datatype kw =
    For | In | As | Func | If | Else | Import | While | Struct
  | Enum | Let | KwReturn | KwTrue | KwFalse | Try | Catch | KwRethrow

datatype punct =
    LParen | RParen | LSquare | RSquare | LCurly | RCurly
  | Dot | Comma | Colon | ColonColon | Semi | Arrow
  | Eq | Bang | BangEq | MoreThan | LessThan | MoreEq | LessEq | EqEq
  | Plus | Dash | Star | Slash | Ampersand | AmpAmp | Pipe | PipePipe
  | LShift | RShift | Caret | Tilde

datatype token =
    TkIdent string | TkKw kw
  | TkInteger int | TkFloat u64 | TkChar nat | TkString string
  | Tk punct

datatype token_kind =
    KIdent | KKw kw | KInteger | KFloat | KChar | KString | K punct

primrec get_kind :: "token \<Rightarrow> token_kind" where
  "get_kind (TkIdent _) = KIdent"
| "get_kind (TkKw k) = KKw k"
| "get_kind (TkInteger _) = KInteger"
| "get_kind (TkFloat _) = KFloat"
| "get_kind (TkChar _) = KChar"
| "get_kind (TkString _) = KString"
| "get_kind (Tk p) = K p"

section \<open>Types\<close>

datatype ty =
    TyVoid | TyInteger | TyFloat | TyString | TyChar | TyBool
  | TyTuple "ty list"
  | TyArray "int option" ty
  | TyList | TyMap
  | TyIdent string
  | TyFunction "ty list" ty

datatype type_mismatch = ArraySize | Inequal

text \<open>
  \<open>type_eq\<close>: the first argument is matched, the second is taken apart inside each branch, as in
  the source; the element-wise comparisons run over \<open>zip\<close>, so they stop with the shorter list.
\<close>

fun type_eq :: "ty \<Rightarrow> ty \<Rightarrow> type_mismatch + unit"
and any_mismatch :: "ty list \<Rightarrow> ty list \<Rightarrow> bool" where
  "type_eq (TyIdent vlhs) rhs =
     (case rhs of TyIdent vrhs \<Rightarrow> if vlhs = vrhs then Inr () else Inl Inequal | _ \<Rightarrow> Inl Inequal)"
| "type_eq (TyArray size_lhs inner_lhs) rhs =
     (case rhs of
        TyArray size_rhs inner_rhs \<Rightarrow>
          if type_eq inner_lhs inner_rhs = Inr ()
          then (if size_lhs = size_rhs then Inr () else Inl ArraySize)
          else Inl Inequal
      | _ \<Rightarrow> Inl Inequal)"
| "type_eq (TyTuple types_lhs) rhs =
     (case rhs of
        TyTuple types_rhs \<Rightarrow> if any_mismatch types_lhs types_rhs then Inl Inequal else Inr ()
      | _ \<Rightarrow> Inl Inequal)"
| "type_eq (TyFunction params_lhs ret_lhs) rhs =
     (case rhs of
        TyFunction params_rhs ret_rhs \<Rightarrow>
          if (ret_lhs = TyVoid) \<noteq> (ret_rhs = TyVoid) then Inl Inequal
          else if any_mismatch params_lhs params_rhs then Inl Inequal else Inr ()
      | _ \<Rightarrow> Inl Inequal)"
| "type_eq TyInteger rhs = (if rhs = TyInteger then Inr () else Inl Inequal)"
| "type_eq TyFloat rhs = (if rhs = TyFloat then Inr () else Inl Inequal)"
| "type_eq TyString rhs = (if rhs = TyString then Inr () else Inl Inequal)"
| "type_eq TyChar rhs = (if rhs = TyChar then Inr () else Inl Inequal)"
| "type_eq TyBool rhs = (if rhs = TyBool then Inr () else Inl Inequal)"
| "type_eq TyVoid rhs = (if rhs = TyVoid then Inr () else Inl Inequal)"
| "type_eq TyList rhs = (if rhs = TyList then Inr () else Inl Inequal)"
| "type_eq TyMap rhs = (if rhs = TyMap then Inr () else Inl Inequal)"
| "any_mismatch (l # ls) (r # rs) = (type_eq l r \<noteq> Inr () \<or> any_mismatch ls rs)"
| "any_mismatch _ _ = False"

abbreviation types_match :: "ty \<Rightarrow> ty \<Rightarrow> bool" where
  "types_match a b \<equiv> type_eq a b = Inr ()"

lemma any_mismatch_refl: "\<forall>t \<in> set ts. types_match t t \<Longrightarrow> \<not> any_mismatch ts ts"
  by (induction ts) auto

lemma type_eq_refl [simp]: "types_match t t"
proof (induction t)
  case (TyTuple ts)
  then show ?case using any_mismatch_refl by auto
next
  case (TyFunction ts t)
  then show ?case using any_mismatch_refl by auto
qed auto

lemma any_mismatch_sym:
  "\<forall>t \<in> set ts. \<forall>u. types_match t u = types_match u t \<Longrightarrow> any_mismatch ts us = any_mismatch us ts"
proof (induction ts arbitrary: us)
  case Nil
  then show ?case by (cases us) simp_all
next
  case (Cons t ts)
  then show ?case by (cases us) auto
qed

lemma type_eq_sym: "types_match t u = types_match u t"
proof (induction t arbitrary: u)
  case (TyTuple ts)
  then have "any_mismatch ts us = any_mismatch us ts" for us
    using any_mismatch_sym [of ts us] by blast
  then show ?case by (cases u) simp_all
next
  case (TyFunction ts t)
  then have "any_mismatch ts us = any_mismatch us ts" for us
    using any_mismatch_sym [of ts us] by blast
  then show ?case by (cases u) auto
next
  case (TyArray n t)
  then show ?case by (cases u) (auto split: if_splits)
next
  case (TyIdent x)
  then show ?case by (cases u) auto
qed (case_tac u; simp)+

text \<open>Types other than tuples and functions match only themselves.\<close>

fun nominal :: "ty \<Rightarrow> bool" where
  "nominal (TyTuple _) = False"
| "nominal (TyFunction _ _) = False"
| "nominal (TyArray _ t) = nominal t"
| "nominal _ = True"

text \<open>Except for tuples and functions, whose components are compared only as far as the shorter
  list goes, two types match exactly when they are equal.\<close>

lemma type_eq_nominal: "nominal t \<Longrightarrow> types_match t u \<longleftrightarrow> t = u"
  by (induction t arbitrary: u rule: nominal.induct) (auto split: ty.splits if_splits)

lemma type_eq_nominal_witness:
  "types_match (TyArray (Some 3) (TyIdent ''a'')) (TyArray (Some 3) (TyIdent ''b''))
    \<longleftrightarrow> TyArray (Some 3) (TyIdent ''a'') = TyArray (Some 3) (TyIdent ''b'')"
  by (rule type_eq_nominal) simp

text \<open>Type matching is reflexive and symmetric, but not transitive.\<close>

lemma types_match_tolerance:
  "types_match t t \<and> types_match t u = types_match u t
    \<and> types_match (TyTuple [TyInteger]) (TyTuple [])
    \<and> types_match (TyTuple []) (TyTuple [TyBool])
    \<and> (types_match (TyTuple [TyInteger]) (TyTuple [TyBool]) \<longleftrightarrow> False)"
  using type_eq_sym [of t u] by simp

section \<open>Abstract syntax\<close>

datatype ast =
    DeclFunc string "(string \<times> ty) list" ty ast nat
  | DeclVar string ty "ast option"
  | DeclStruct string "(string \<times> ty) list"
  | DeclEnum string "(string \<times> int) list"
  | Block "ast list" nat
  | StmtImport "string list" "string option"
  | StmtIf ast ast "ast option"
  | StmtWhile ast ast
  | StmtFor string ast ast
  | StmtTry ast "(string \<times> ast) list"
  | StmtRethrow
  | ExprAssign string ast
  | ExprBinary ast ast token
  | ExprUnary ast token
  | ExprFuncCall string "ast list"
  | ExprMemAcc ast string
  | ExprEnumVar string string
  | ExprArrAcc ast ast
  | ExprReturn "ast option"
  | ExprInteger int
  | ExprFloat u64
  | ExprString string
  | ExprChar nat
  | ExprBool bool
  | ExprUndefined
  | ExprVar string
  | ExprStructInit string "(string \<times> ast) list"
  | ExprArrayInit "ast list"
  | ExprList "ast list"
  | ExprMap "(string \<times> ast) list"

type_synonym sol_program = "ast list"

text \<open>\<open>scope: usize::MAX\<close>, the value a node has until the analyzer fills the scope in.\<close>

definition usize_max :: nat where
  "usize_max = 2 ^ 64 - 1"

text \<open>\<open>HashMap::insert\<close> on the association lists of the nodes.\<close>

fun hm_insert :: "'k \<Rightarrow> 'v \<Rightarrow> ('k \<times> 'v) list \<Rightarrow> ('k \<times> 'v) list" where
  "hm_insert k v [] = [(k, v)]"
| "hm_insert k v ((k', v') # m) = (if k = k' then (k, v) # m else (k', v') # hm_insert k v m)"

lemma map_of_hm_insert: "map_of (hm_insert k v m) = (map_of m)(k \<mapsto> v)"
  by (induction m) (auto simp: fun_eq_iff)

lemma set_keys_hm_insert: "fst ` set (hm_insert k v m) = insert k (fst ` set m)"
  by (induction k v m rule: hm_insert.induct) (simp_all add: insert_commute)

lemma distinct_hm_insert: "distinct (map fst m) \<Longrightarrow> distinct (map fst (hm_insert k v m))"
  by (induction k v m rule: hm_insert.induct) (simp_all add: set_keys_hm_insert)

end
