(* ===== verification/Sol_Inst.thy ===== *)
theory Sol_Inst
  imports Sol_Ast
begin

text \<open>
  The instruction set of the SOL machine (\<open>enum Inst\<close> of \<open>sol/bytecode.rs\<close>), shared by the code
  generator and the machine. Local slots are \<open>isize\<close>, addresses and counts \<open>usize\<close>. The source's
  one enum of about ninety variants is split along its own groups of operand-less opcodes:
  arithmetic and logic (\<open>Alu\<close>), output (\<open>Print\<close>), and the list and map opcodes (\<open>Coll\<close>).
\<close>

datatype alu_op =
    IntAdd | IntSub | IntMul | IntDiv
  | IntEq | IntNeq | IntGt | IntLt | IntGte | IntLte
  | FloatAdd | FloatSub | FloatMul | FloatDiv
  | FloatEq | FloatNeq | FloatGt | FloatLt | FloatGte | FloatLte
  | CharEq | CharNeq | CharGt | CharLt | CharGte | CharLte
  | LogOr | LogAnd | LogNot
  | BitXor | BitAnd | BitOr | BitNeg | BitLShift | BitRShift

datatype print_op = PrintInt | PrintFloat | PrintChar | PrintString

datatype coll_op =
    ListLen | ListGet | ListPush | ListContains | ListJoin | ListSplit
  | MapGet | MapSet | MapHas | MapKeys | MapLen | MapDel
  | ListGetList | MapGetMap

datatype inst =
    PushConst ast
  | StoreLocal int
  | LoadLocal int
  | Pop
  | Dup
  | Alu alu_op
  | NewStruct nat | GetField nat | SetField nat
  | NewArray | ArrayLen | GetElem | SetElem
  | ConcatStr | EqStr
  | Jump nat | JumpFalse nat
  | Call nat nat
  | Ret | RetVal
  | Print print_op
  | RemoteCall | RemoteCallStream
  | TryEnter nat | TryExit
  | LoadErrorKind | LoadErrorCause | LoadErrorRetryHint | Rethrow
  | LoadLastConfidence
  | PushList nat | PushMap nat
  | Coll coll_op

end
