(* ===== verification/Sol_Vm_State.thy ===== *)
theory Sol_Vm_State
  imports Sol_Inst
begin

text \<open>
  The SOL virtual machine (\<open>sol/vm.rs\<close>) with the host interface of \<open>sol/dispatcher.rs\<close>.

  The machine's operand stack and its locals share one vector of 64-bit words, bottom first; the
  heap is a vector of objects addressed by index. \<open>call_stack\<close> and \<open>try_handlers\<close> are stacks with
  the newest entry first. Everything the source makes observable outside the machine is recorded
  in \<open>effects\<close>, oldest first: what \<open>println!\<close> writes, each remote call, each chunk passed to an
  attached observer. The dispatcher is code outside the machine: a function of the effects so far
  and the call, hence any deterministic or stateful host.

  A Rust panic and the exhaustion of the native stack are outcomes of their own (\<open>crash\<close>). The
  flag \<open>ovf\<close> of \<open>exec\<close>, \<open>step\<close> and \<open>run\<close> is the build profile: with overflow checks (the
  workspace's \<open>dev\<close> profile) signed overflow and an over-wide shift panic, without them
  (\<open>release\<close>) they wrap.
\<close>

section \<open>State\<close>

datatype heap_object =
    HString string
  | HStruct "u64 list"
  | HArray "u64 list"
  | HList "u64 list"
  | HMap "(string \<times> u64) list"

record frame =
  return_ptr :: nat
  old_fp :: nat

record try_handler =
  catch_pc :: nat
  fp_at_enter :: nat
  stack_len_at_enter :: nat

record remote_call_error =
  err_kind :: nat
  err_peer :: string
  err_method :: string
  err_cause :: string

definition local_error :: "string \<Rightarrow> string \<Rightarrow> string \<Rightarrow> remote_call_error" where
  "local_error peer mthd cause =
     \<lparr>err_kind = 0, err_peer = peer, err_method = mthd, err_cause = cause\<rparr>"

datatype effect =
    OutInt int | OutFloat u64 | OutChar nat | OutString string
  | Called string string string
  | CalledStream string string string
  | Chunk string

record dispatcher =
  remote_call :: "effect list \<Rightarrow> string \<Rightarrow> string \<Rightarrow> string \<Rightarrow> remote_call_error + string"
  remote_call_stream ::
    "effect list \<Rightarrow> string \<Rightarrow> string \<Rightarrow> string \<Rightarrow> (remote_call_error + string) \<times> string list"

text \<open>The trait's default \<open>remote_call_stream\<close>: the whole body as a single chunk.\<close>

definition default_stream ::
  "(effect list \<Rightarrow> string \<Rightarrow> string \<Rightarrow> string \<Rightarrow> remote_call_error + string) \<Rightarrow>
   effect list \<Rightarrow> string \<Rightarrow> string \<Rightarrow> string \<Rightarrow> (remote_call_error + string) \<times> string list" where
  "default_stream rc es peer mthd arg =
     (case rc es peer mthd arg of
        Inl e \<Rightarrow> (Inl e, [])
      | Inr body \<Rightarrow> (Inr body, [body]))"

record vm =
  stack :: "u64 list"
  heap :: "heap_object list"
  call_stack :: "frame list"
  inst_ptr :: nat
  fp :: nat
  vm_program :: "inst list"
  is_done :: bool
  fuel :: nat
  steps_taken :: nat
  flow_name :: "string option"
  fuel_exhausted_steps :: "nat option"
  vm_dispatcher :: "dispatcher option"
  last_error :: "remote_call_error option"
  try_handlers :: "try_handler list"
  chunk_observer :: bool
  last_confidence :: u32
  last_confidence_cell :: "(effect list \<Rightarrow> u32) option"
  vm_fault :: "string option"
  effects :: "effect list"

definition DEFAULT_MAX_STEPS :: nat where "DEFAULT_MAX_STEPS = 100000"
definition MAX_STEPS_CEILING :: nat where "MAX_STEPS_CEILING = 10000000"
definition VM_ERROR_SENTINEL :: u64 where "VM_ERROR_SENTINEL = - 1"

definition vm_new :: vm where
  "vm_new =
     \<lparr>stack = [], heap = [], call_stack = [], inst_ptr = 0, fp = 0, vm_program = [],
      is_done = False, fuel = DEFAULT_MAX_STEPS, steps_taken = 0, flow_name = None,
      fuel_exhausted_steps = None, vm_dispatcher = None, last_error = None, try_handlers = [],
      chunk_observer = False, last_confidence = 0x3F800000, last_confidence_cell = None,
      vm_fault = None, effects = []\<rparr>"

definition vm_from :: "inst list \<Rightarrow> vm" where
  "vm_from p = vm_new\<lparr>vm_program := p\<rparr>"

definition with_fuel :: "nat \<Rightarrow> vm \<Rightarrow> vm" where
  "with_fuel n s = s\<lparr>fuel := max (min n MAX_STEPS_CEILING) 1\<rparr>"

definition with_dispatcher :: "dispatcher \<Rightarrow> vm \<Rightarrow> vm" where
  "with_dispatcher d s = s\<lparr>vm_dispatcher := Some d\<rparr>"

text \<open>\<open>heap_string\<close>: what the flow runner reads the result of a flow with.\<close>

definition heap_string :: "vm \<Rightarrow> u64 \<Rightarrow> string option" where
  "heap_string s idx =
     (case vget (heap s) (unat idx) of Some (HString t) \<Rightarrow> Some t | _ \<Rightarrow> None)"

section \<open>Outcomes and the primitive operations\<close>

datatype crash = Panicked string | NativeStackOverflow

text \<open>How a handler leaves: at the end of the \<open>match\<close>, by \<open>return\<close>, or by a crash.\<close>

datatype flow = Fall | Return "u64 option" | Crash crash

definition record_fault :: "string \<Rightarrow> vm \<Rightarrow> vm" where
  "record_fault cause s = (if vm_fault s = None then s\<lparr>vm_fault := Some cause\<rparr> else s)"

definition push :: "u64 \<Rightarrow> vm \<Rightarrow> vm" where
  "push v s = s\<lparr>stack := vpush (stack s) v\<rparr>"

definition pop :: "vm \<Rightarrow> u64 \<times> vm" where
  "pop s =
     (case vpop (stack s) of
        Some (v, st) \<Rightarrow> (v, s\<lparr>stack := st\<rparr>)
      | None \<Rightarrow> (0, record_fault ''stack underflow'' s))"

fun pop_n :: "nat \<Rightarrow> vm \<Rightarrow> u64 list \<times> vm" where
  "pop_n 0 s = ([], s)"
| "pop_n (Suc n) s =
     (case pop s of (v, s1) \<Rightarrow> case pop_n n s1 of (vs, s2) \<Rightarrow> (vs @ [v], s2))"

definition push_obj :: "heap_object \<Rightarrow> vm \<Rightarrow> vm" where
  "push_obj obj s = push (of_nat (length (heap s))) (s\<lparr>heap := vpush (heap s) obj\<rparr>)"

definition hget :: "vm \<Rightarrow> u64 \<Rightarrow> heap_object option" where
  "hget s r = vget (heap s) (unat r)"

definition hstring_or_empty :: "vm \<Rightarrow> u64 \<Rightarrow> string" where
  "hstring_or_empty s r = (case hget s r of Some (HString t) \<Rightarrow> t | _ \<Rightarrow> [])"

definition show_usize :: "u64 \<Rightarrow> string" where
  "show_usize w = show_nat (unat w)"

definition ALLOC_CEILING :: nat where "ALLOC_CEILING = 16777216"

definition alloc_budget :: "vm \<Rightarrow> nat" where
  "alloc_budget s = min (fuel s) ALLOC_CEILING"

definition check_alloc :: "nat \<Rightarrow> string \<Rightarrow> vm \<Rightarrow> bool \<times> vm" where
  "check_alloc requested what s =
     (if alloc_budget s < requested
      then (False, record_fault (what @ '': requested '' @ show_nat requested @
                     '' elements exceeds allocation budget '' @ show_nat (alloc_budget s)) s)
      else (True, s))"

definition flow_label :: "vm \<Rightarrow> string" where
  "flow_label s = (case flow_name s of Some n \<Rightarrow> n | None \<Rightarrow> ''<sol_vm>'')"

definition raise_malformed :: "string \<Rightarrow> vm \<Rightarrow> vm \<times> u64 option" where
  "raise_malformed cause s =
     (s\<lparr>is_done := True,
        last_error := Some (local_error ''<sol_vm>'' (flow_label s) (''malformed bytecode: '' @ cause))\<rparr>,
      Some VM_ERROR_SENTINEL)"

definition try_dispatch_error :: "vm \<Rightarrow> vm \<times> u64 option" where
  "try_dispatch_error s =
     (case try_handlers s of
        [] \<Rightarrow> (s\<lparr>is_done := True\<rparr>, Some VM_ERROR_SENTINEL)
      | h # hs \<Rightarrow>
          (s\<lparr>try_handlers := hs, fp := fp_at_enter h,
             stack := take (stack_len_at_enter h) (stack s), inst_ptr := catch_pc h\<rparr>, None))"

definition classified_error_kind :: "remote_call_error \<Rightarrow> string" where
  "classified_error_kind e =
     (if err_kind e \<in> {2, 15} then ''timeout''
      else if err_kind e \<in> {1, 3, 0} then ''mesh_error''
      else if err_kind e \<in> {6, 16, 19} then ''policy_denied''
      else ''responder_error'')"

text \<open>
  \<open>heap_display\<close> follows references; a chain of references that returns to itself makes it recurse
  without end. A chain longer than the heap revisits an object, so the depth \<open>length h + 1\<close>
  decides whether the recursion ends, and \<open>None\<close> stands for the recursion that does not.
  How deep a recursion that ends may go on the native stack is not modelled.
\<close>

fun heap_disp :: "nat \<Rightarrow> heap_object list \<Rightarrow> u64 \<Rightarrow> string option" where
  "heap_disp 0 h r = None"
| "heap_disp (Suc n) h r =
     (case vget h (unat r) of
        Some (HString t) \<Rightarrow> Some t
      | Some (HList items) \<Rightarrow> map_option (join ''|'') (those (map (heap_disp n h) items))
      | Some (HMap pairs) \<Rightarrow>
          map_option (join '';'')
            (those (map (\<lambda>(k, v). map_option (\<lambda>d. k @ ''='' @ d) (heap_disp n h v)) pairs))
      | _ \<Rightarrow> Some [])"

definition heap_display :: "heap_object list \<Rightarrow> u64 \<Rightarrow> string option" where
  "heap_display h r = heap_disp (Suc (length h)) h r"

text \<open>\<open>items.iter().any(...)\<close>: stops at the first match.\<close>

fun any_display :: "heap_object list \<Rightarrow> string \<Rightarrow> u64 list \<Rightarrow> bool option" where
  "any_display h needle [] = Some False"
| "any_display h needle (r # rs) =
     (case heap_display h r of
        None \<Rightarrow> None
      | Some d \<Rightarrow> if d = needle then Some True else any_display h needle rs)"

end
