(* ===== verification/Sol_Vm.thy ===== *)
theory Sol_Vm
  imports Sol_Vm_State
begin

text \<open>
  The instruction handlers of \<open>VM::step\<close> in the order of the source's \<open>match\<close>, the step itself
  and the run loop (\<open>sol/vm.rs\<close>).
\<close>

section \<open>Data transport and storage\<close>

text \<open>The word a constant denotes; a string constant is first put on the heap.\<close>

definition const_bits :: "ast \<Rightarrow> vm \<Rightarrow> u64 \<times> vm" where
  "const_bits node s =
     (case node of
        ExprInteger v \<Rightarrow> (word_of_int v, s)
      | ExprFloat v \<Rightarrow> (v, s)
      | ExprChar v \<Rightarrow> (of_nat v, s)
      | ExprBool v \<Rightarrow> (bool_u64 v, s)
      | ExprUndefined \<Rightarrow> (0, s)
      | ExprString t \<Rightarrow> (of_nat (length (heap s)), s\<lparr>heap := vpush (heap s) (HString t)\<rparr>)
      | _ \<Rightarrow> (0, record_fault ''invalid constant AST node passed to PushConst'' s))"

definition exec_push_const :: "ast \<Rightarrow> vm \<Rightarrow> vm \<times> flow" where
  "exec_push_const node s = (case const_bits node s of (bits, s1) \<Rightarrow> (push bits s1, Fall))"

text \<open>\<open>(self.fp as isize + offset) as usize\<close>; \<open>None\<close> is the overflow panic.\<close>

definition slot_addr :: "bool \<Rightarrow> vm \<Rightarrow> int \<Rightarrow> u64 option" where
  "slot_addr ovf s offset =
     (let i = sint (of_nat (fp s) :: u64) + offset
      in if ovf \<and> \<not> i64_in_range i then None else Some (word_of_int i))"

definition exec_load_local :: "bool \<Rightarrow> int \<Rightarrow> vm \<Rightarrow> vm \<times> flow" where
  "exec_load_local ovf offset s =
     (case slot_addr ovf s offset of
        None \<Rightarrow> (s, Crash (Panicked ''attempt to add with overflow''))
      | Some idx \<Rightarrow>
          (case vget (stack s) (unat idx) of
             Some v \<Rightarrow> (push v s, Fall)
           | None \<Rightarrow>
               (record_fault (''LoadLocal: slot '' @ show_usize idx @ '' out of range (stack len ''
                  @ show_nat (length (stack s)) @ '')'') s, Fall)))"

definition exec_store_local :: "bool \<Rightarrow> int \<Rightarrow> vm \<Rightarrow> vm \<times> flow" where
  "exec_store_local ovf offset s =
     (case pop s of (v, s1) \<Rightarrow>
        case slot_addr ovf s1 offset of
          None \<Rightarrow> (s1, Crash (Panicked ''attempt to add with overflow''))
        | Some idx \<Rightarrow>
            (let needed = min (Suc (unat idx)) (2 ^ 64 - 1);
                 grow_by = needed - length (stack s1)
             in case check_alloc grow_by ''StoreLocal stack growth'' s1 of
                  (False, s2) \<Rightarrow> (s2, Fall)
                | (True, s2) \<Rightarrow>
                    (let st = stack s2 @ replicate grow_by 0
                     in if unat idx < length st
                        then (s2\<lparr>stack := st[unat idx := v]\<rparr>, Fall)
                        else (s2\<lparr>stack := st\<rparr>, Crash (Panicked ''index out of bounds'')))))"

definition exec_dup :: "vm \<Rightarrow> vm \<times> flow" where
  "exec_dup s =
     (if stack s = [] then (record_fault ''Dup on empty stack'' s, Fall)
      else (push (last (stack s)) s, Fall))"

section \<open>Arithmetic, comparison and logic\<close>

text \<open>Every binary opcode pops \<open>b\<close>, then \<open>a\<close>.\<close>

definition pop2 :: "vm \<Rightarrow> u64 \<times> u64 \<times> vm" where
  "pop2 s = (case pop s of (b, s1) \<Rightarrow> case pop s1 of (a, s2) \<Rightarrow> (a, b, s2))"

definition bin_op :: "(u64 \<Rightarrow> u64 \<Rightarrow> u64) \<Rightarrow> vm \<Rightarrow> vm \<times> flow" where
  "bin_op f s = (case pop2 s of (a, b, s1) \<Rightarrow> (push (f a b) s1, Fall))"

text \<open>\<open>IntAdd\<close>, \<open>IntSub\<close>, \<open>IntMul\<close>: on \<open>i64\<close>, with the profile's overflow behaviour.\<close>

definition int_arith :: "bool \<Rightarrow> string \<Rightarrow> (int \<Rightarrow> int \<Rightarrow> int) \<Rightarrow> vm \<Rightarrow> vm \<times> flow" where
  "int_arith ovf what f s =
     (case pop2 s of (a, b, s1) \<Rightarrow>
        let r = f (sint a) (sint b)
        in if ovf \<and> \<not> i64_in_range r
           then (s1, Crash (Panicked (''attempt to '' @ what @ '' with overflow'')))
           else (push (word_of_int r) s1, Fall))"

definition int_div :: "vm \<Rightarrow> vm \<times> flow" where
  "int_div s =
     (case pop2 s of (a, b, s1) \<Rightarrow>
        case i64_checked_div a b of
          Some q \<Rightarrow> (push q s1, Fall)
        | None \<Rightarrow>
            (record_fault (''IntDiv: division error ('' @ show_int (sint a) @ '' / ''
               @ show_int (sint b) @ '')'') s1, Fall))"

definition int_cmp :: "(int \<Rightarrow> int \<Rightarrow> bool) \<Rightarrow> vm \<Rightarrow> vm \<times> flow" where
  "int_cmp r = bin_op (\<lambda>a b. bool_u64 (r (sint a) (sint b)))"

definition float_cmp :: "(u64 \<Rightarrow> u64 \<Rightarrow> bool) \<Rightarrow> vm \<Rightarrow> vm \<times> flow" where
  "float_cmp r = bin_op (\<lambda>a b. bool_u64 (r a b))"

definition char_cmp :: "(u64 \<Rightarrow> u64 \<Rightarrow> bool) \<Rightarrow> vm \<Rightarrow> vm \<times> flow" where
  "char_cmp r = bin_op (\<lambda>a b. bool_u64 (r a b))"

definition un_op :: "(u64 \<Rightarrow> u64) \<Rightarrow> vm \<Rightarrow> vm \<times> flow" where
  "un_op f s = (case pop s of (a, s1) \<Rightarrow> (push (f a) s1, Fall))"

text \<open>\<open>a << b\<close> and \<open>a >> b\<close> on \<open>u64\<close>: a shift of 64 or more panics or is masked.\<close>

definition bit_shift :: "bool \<Rightarrow> string \<Rightarrow> (nat \<Rightarrow> u64 \<Rightarrow> u64) \<Rightarrow> vm \<Rightarrow> vm \<times> flow" where
  "bit_shift ovf what f s =
     (case pop2 s of (a, b, s1) \<Rightarrow>
        if ovf \<and> 64 \<le> b
        then (s1, Crash (Panicked (''attempt to shift '' @ what @ '' with overflow'')))
        else (push (f (unat (b AND 63)) a) s1, Fall))"

primrec exec_alu :: "bool \<Rightarrow> alu_op \<Rightarrow> vm \<Rightarrow> vm \<times> flow" where
  "exec_alu ovf IntAdd = int_arith ovf ''add'' (+)"
| "exec_alu ovf IntSub = int_arith ovf ''subtract'' (-)"
| "exec_alu ovf IntMul = int_arith ovf ''multiply'' (*)"
| "exec_alu ovf IntDiv = int_div"
| "exec_alu ovf IntEq = int_cmp (=)"
| "exec_alu ovf IntNeq = int_cmp (\<noteq>)"
| "exec_alu ovf IntGt = int_cmp (>)"
| "exec_alu ovf IntGte = int_cmp (\<ge>)"
| "exec_alu ovf IntLt = int_cmp (<)"
| "exec_alu ovf IntLte = int_cmp (\<le>)"
| "exec_alu ovf FloatAdd = bin_op f64_add"
| "exec_alu ovf FloatSub = bin_op f64_sub"
| "exec_alu ovf FloatMul = bin_op f64_mul"
| "exec_alu ovf FloatDiv = bin_op f64_div"
| "exec_alu ovf FloatEq = float_cmp f64_eq"
| "exec_alu ovf FloatNeq = float_cmp (\<lambda>a b. \<not> f64_eq a b)"
| "exec_alu ovf FloatGt = float_cmp (\<lambda>a b. f64_lt b a)"
| "exec_alu ovf FloatGte = float_cmp (\<lambda>a b. f64_le b a)"
| "exec_alu ovf FloatLt = float_cmp f64_lt"
| "exec_alu ovf FloatLte = float_cmp f64_le"
| "exec_alu ovf CharEq = char_cmp (=)"
| "exec_alu ovf CharNeq = char_cmp (\<noteq>)"
| "exec_alu ovf CharGt = char_cmp (>)"
| "exec_alu ovf CharGte = char_cmp (\<ge>)"
| "exec_alu ovf CharLt = char_cmp (<)"
| "exec_alu ovf CharLte = char_cmp (\<le>)"
| "exec_alu ovf LogOr = bin_op (\<lambda>a b. bool_u64 (a = 1 \<or> b = 1))"
| "exec_alu ovf LogAnd = bin_op (\<lambda>a b. bool_u64 (a = 1 \<and> b = 1))"
| "exec_alu ovf LogNot = un_op (\<lambda>a. bool_u64 (a = 0))"
| "exec_alu ovf BitXor = bin_op (XOR)"
| "exec_alu ovf BitAnd = bin_op (AND)"
| "exec_alu ovf BitOr = bin_op (OR)"
| "exec_alu ovf BitNeg = un_op NOT"
| "exec_alu ovf BitLShift = bit_shift ovf ''left'' push_bit"
| "exec_alu ovf BitRShift = bit_shift ovf ''right'' drop_bit"

section \<open>Structs, arrays and strings on the heap\<close>

definition exec_new_struct :: "nat \<Rightarrow> vm \<Rightarrow> vm \<times> flow" where
  "exec_new_struct flds s =
     (case check_alloc flds ''NewStruct'' s of
        (False, s1) \<Rightarrow> (s1, Fall)
      | (True, s1) \<Rightarrow>
          (case pop_n flds s1 of (elements, s2) \<Rightarrow> (push_obj (HStruct elements) s2, Fall)))"

definition exec_get_field :: "nat \<Rightarrow> vm \<Rightarrow> vm \<times> flow" where
  "exec_get_field idx s =
     (case pop s of (struct_ref, s1) \<Rightarrow>
        case hget s1 struct_ref of
          Some (HStruct flds) \<Rightarrow>
            (case vget flds idx of
               Some v \<Rightarrow> (push v s1, Fall)
             | None \<Rightarrow>
                 (record_fault (''GetField: field index '' @ show_nat idx @ '' out of range'') s1, Fall))
        | _ \<Rightarrow>
            (record_fault (''GetField: heap ref '' @ show_usize struct_ref @ '' is not a struct'') s1,
             Fall))"

definition exec_set_field :: "nat \<Rightarrow> vm \<Rightarrow> vm \<times> flow" where
  "exec_set_field idx s =
     (case pop s of (struct_ref, s1) \<Rightarrow>
      case pop s1 of (v, s2) \<Rightarrow>
        case hget s2 struct_ref of
          Some (HStruct flds) \<Rightarrow>
            (if idx < length flds
             then (push v (s2\<lparr>heap := (heap s2)[unat struct_ref := HStruct (flds[idx := v])]\<rparr>), Fall)
             else (record_fault (''SetField: field index '' @ show_nat idx @ '' out of range'') s2, Fall))
        | _ \<Rightarrow>
            (record_fault (''SetField: heap ref '' @ show_usize struct_ref @ '' is not a struct'') s2,
             Fall))"

definition exec_new_array :: "vm \<Rightarrow> vm \<times> flow" where
  "exec_new_array s =
     (case pop s of (sz, s1) \<Rightarrow>
        case check_alloc (unat sz) ''NewArray'' s1 of
          (False, s2) \<Rightarrow> (s2, Fall)
        | (True, s2) \<Rightarrow> (push_obj (HArray (replicate (unat sz) 0)) s2, Fall))"

definition exec_array_len :: "vm \<Rightarrow> vm \<times> flow" where
  "exec_array_len s =
     (case pop s of (arr_ref, s1) \<Rightarrow>
        case hget s1 arr_ref of
          Some (HArray items) \<Rightarrow> (push (of_nat (length items)) s1, Fall)
        | _ \<Rightarrow>
            (record_fault (''ArrayLen: heap ref '' @ show_usize arr_ref @ '' is not an array'') s1, Fall))"

definition exec_get_elem :: "vm \<Rightarrow> vm \<times> flow" where
  "exec_get_elem s =
     (case pop s of (idx, s1) \<Rightarrow>
      case pop s1 of (arr_ref, s2) \<Rightarrow>
        case hget s2 arr_ref of
          Some (HArray items) \<Rightarrow>
            (case vget items (unat idx) of
               Some v \<Rightarrow> (push v s2, Fall)
             | None \<Rightarrow>
                 (record_fault (''GetElem: index '' @ show_usize idx @ '' out of bounds (len ''
                    @ show_nat (length items) @ '')'') s2, Fall))
        | _ \<Rightarrow>
            (record_fault (''GetElem: heap ref '' @ show_usize arr_ref @ '' is not an array'') s2, Fall))"

definition exec_set_elem :: "vm \<Rightarrow> vm \<times> flow" where
  "exec_set_elem s =
     (case pop s of (v, s1) \<Rightarrow>
      case pop s1 of (idx, s2) \<Rightarrow>
      case pop s2 of (arr_ref, s3) \<Rightarrow>
        case hget s3 arr_ref of
          Some (HArray items) \<Rightarrow>
            (if unat idx < length items
             then (push v (s3\<lparr>heap := (heap s3)[unat arr_ref := HArray (items[unat idx := v])]\<rparr>), Fall)
             else (record_fault (''SetElem: index '' @ show_usize idx @ '' out of bounds (len ''
                     @ show_nat (length items) @ '')'') s3, Fall))
        | _ \<Rightarrow>
            (record_fault (''SetElem: heap ref '' @ show_usize arr_ref @ '' is not an array'') s3, Fall))"

definition exec_concat_str :: "vm \<Rightarrow> vm \<times> flow" where
  "exec_concat_str s =
     (case pop2 s of (idx1, idx2, s1) \<Rightarrow>
        case (hget s1 idx1, hget s1 idx2) of
          (Some (HString t1), Some (HString t2)) \<Rightarrow> (push_obj (HString (t1 @ t2)) s1, Fall)
        | _ \<Rightarrow>
            (record_fault (''ConcatStr: heap refs '' @ show_usize idx1 @ ''/'' @ show_usize idx2
               @ '' are not both strings'') s1, Fall))"

definition exec_eq_str :: "vm \<Rightarrow> vm \<times> flow" where
  "exec_eq_str s =
     (case pop2 s of (idx1, idx2, s1) \<Rightarrow>
        case (hget s1 idx1, hget s1 idx2) of
          (Some (HString t1), Some (HString t2)) \<Rightarrow> (push (bool_u64 (t1 = t2)) s1, Fall)
        | _ \<Rightarrow>
            (record_fault (''EqStr: heap refs '' @ show_usize idx1 @ ''/'' @ show_usize idx2
               @ '' are not both strings'') s1, Fall))"

section \<open>Control flow\<close>

definition exec_jump_false :: "nat \<Rightarrow> vm \<Rightarrow> vm \<times> flow" where
  "exec_jump_false target s =
     (case pop s of (v, s1) \<Rightarrow> (if v = 0 then s1\<lparr>inst_ptr := target\<rparr> else s1, Fall))"

definition exec_call :: "nat \<Rightarrow> nat \<Rightarrow> vm \<Rightarrow> vm \<times> flow" where
  "exec_call target arg_count s =
     (if arg_count \<le> length (stack s)
      then (s\<lparr>call_stack := \<lparr>return_ptr = inst_ptr s, old_fp = fp s\<rparr> # call_stack s,
              fp := length (stack s) - arg_count, inst_ptr := target\<rparr>, Fall)
      else (record_fault (''Call: arg_count '' @ show_nat arg_count @ '' exceeds stack depth ''
              @ show_nat (length (stack s))) s, Fall))"

definition leave_frame :: "frame \<Rightarrow> frame list \<Rightarrow> vm \<Rightarrow> vm" where
  "leave_frame f fs s =
     s\<lparr>call_stack := fs, stack := take (fp s) (stack s), fp := old_fp f, inst_ptr := return_ptr f\<rparr>"

definition exec_ret :: "vm \<Rightarrow> vm \<times> flow" where
  "exec_ret s =
     (case call_stack s of
        f # fs \<Rightarrow> (push 0 (leave_frame f fs s), Fall)
      | [] \<Rightarrow>
          (case pop (s\<lparr>is_done := True\<rparr>) of (v, s1) \<Rightarrow>
             case vm_fault s1 of
               Some cause \<Rightarrow>
                 (case raise_malformed cause (s1\<lparr>vm_fault := None\<rparr>) of (s2, r) \<Rightarrow> (s2, Return r))
             | None \<Rightarrow> (s1, Return (Some v))))"

definition exec_ret_val :: "vm \<Rightarrow> vm \<times> flow" where
  "exec_ret_val s =
     (case pop s of (v, s1) \<Rightarrow>
        case call_stack s1 of
          f # fs \<Rightarrow> (push v (leave_frame f fs s1), Fall)
        | [] \<Rightarrow>
            (case vm_fault s1 of
               Some cause \<Rightarrow>
                 (case raise_malformed cause (s1\<lparr>is_done := True, vm_fault := None\<rparr>) of
                    (s2, r) \<Rightarrow> (s2, Return r))
             | None \<Rightarrow> (s1\<lparr>is_done := True\<rparr>, Return (Some v))))"

section \<open>Output\<close>

definition emit :: "effect \<Rightarrow> vm \<Rightarrow> vm" where
  "emit e s = s\<lparr>effects := effects s @ [e]\<rparr>"

text \<open>\<open>char::from_u32\<close> of the low 32 bits.\<close>

primrec exec_print :: "print_op \<Rightarrow> vm \<Rightarrow> vm \<times> flow" where
  "exec_print PrintInt s = (case pop s of (v, s1) \<Rightarrow> (push 0 (emit (OutInt (sint v)) s1), Fall))"
| "exec_print PrintFloat s = (case pop s of (v, s1) \<Rightarrow> (push 0 (emit (OutFloat v) s1), Fall))"
| "exec_print PrintChar s =
     (case pop s of (v, s1) \<Rightarrow>
        let c = unat v mod 2 ^ 32
        in (push 0 (if scalar_value c then emit (OutChar c) s1 else s1), Fall))"
| "exec_print PrintString s =
     (case pop s of (r, s1) \<Rightarrow>
        (push 0 (case hget s1 r of
                   Some (HString t) \<Rightarrow> emit (OutString t) s1
                 | _ \<Rightarrow> record_fault (''PrintString: heap ref '' @ show_usize r @ '' is not a string'') s1),
         Fall))"

section \<open>Remote calls\<close>

definition fail_local :: "string \<Rightarrow> string \<Rightarrow> string \<Rightarrow> vm \<Rightarrow> vm \<times> flow" where
  "fail_local peer mthd cause s =
     (s\<lparr>last_error := Some (local_error peer mthd cause), is_done := True\<rparr>,
      Return (Some VM_ERROR_SENTINEL))"

text \<open>A response that is not UTF-8 is replaced by a description of itself.\<close>

definition response_text :: "string \<Rightarrow> string" where
  "response_text body =
     (case from_utf8 body of
        Inr _ \<Rightarrow> body
      | Inl e \<Rightarrow> ''<binary response: '' @ show_nat (length body) @ '' bytes; ''
                 @ utf8_error_display e @ ''>'')"

text \<open>The \<open>Err\<close> arm: remember the error and hand it to the nearest handler.\<close>

definition raise_error :: "remote_call_error \<Rightarrow> vm \<Rightarrow> vm \<times> flow" where
  "raise_error e s =
     (case try_dispatch_error (s\<lparr>last_error := Some e\<rparr>) of
        (s1, Some sentinel) \<Rightarrow> (s1, Return (Some sentinel))
      | (s1, None) \<Rightarrow> (s1, Fall))"

definition finish_call :: "remote_call_error + string \<Rightarrow> vm \<Rightarrow> vm \<times> flow" where
  "finish_call result s =
     (case result of
        Inr body \<Rightarrow> ((push_obj (HString (response_text body)) s)\<lparr>last_error := None\<rparr>, Fall)
      | Inl e \<Rightarrow> raise_error e s)"

definition exec_remote_call :: "vm \<Rightarrow> vm \<times> flow" where
  "exec_remote_call s =
     (case pop s of (arg_ref, s1) \<Rightarrow>
      case pop s1 of (method_ref, s2) \<Rightarrow>
      case pop s2 of (peer_ref, s3) \<Rightarrow>
        case hget s3 arg_ref of
          Some (HString arg) \<Rightarrow>
            (case hget s3 method_ref of
               Some (HString mthd) \<Rightarrow>
                 (case hget s3 peer_ref of
                    Some (HString peer) \<Rightarrow>
                      (case vm_dispatcher s3 of
                         None \<Rightarrow> fail_local peer mthd ''no RemoteCallDispatcher attached to VM'' s3
                       | Some d \<Rightarrow>
                           finish_call (remote_call d (effects s3) peer mthd arg)
                             (emit (Called peer mthd arg) s3))
                  | _ \<Rightarrow> fail_local ''<unresolved>'' mthd
                           ''remote_call: peer is not a heap string'' s3)
             | _ \<Rightarrow> fail_local ''<unresolved>'' ''<unresolved>''
                      ''remote_call: method is not a heap string'' s3)
        | _ \<Rightarrow> fail_local ''<unresolved>'' ''<unresolved>''
                 ''remote_call: arg is not a heap string'' s3)"

definition observe_chunks :: "string list \<Rightarrow> vm \<Rightarrow> vm" where
  "observe_chunks cs s =
     (if chunk_observer s then s\<lparr>effects := effects s @ map Chunk cs\<rparr> else s)"

definition exec_remote_call_stream :: "vm \<Rightarrow> vm \<times> flow" where
  "exec_remote_call_stream s =
     (case pop s of (arg_ref, s1) \<Rightarrow>
      case pop s1 of (method_ref, s2) \<Rightarrow>
      case pop s2 of (peer_ref, s3) \<Rightarrow>
        case hget s3 arg_ref of
          Some (HString arg) \<Rightarrow>
            (case hget s3 method_ref of
               Some (HString mthd) \<Rightarrow>
                 (case hget s3 peer_ref of
                    Some (HString peer) \<Rightarrow>
                      (case vm_dispatcher s3 of
                         None \<Rightarrow> fail_local peer mthd ''no RemoteCallDispatcher attached to VM'' s3
                       | Some d \<Rightarrow>
                           (case remote_call_stream d (effects s3) peer mthd arg of
                              (result, chunks) \<Rightarrow>
                                finish_call result
                                  (observe_chunks chunks (emit (CalledStream peer mthd arg) s3))))
                  | _ \<Rightarrow> fail_local ''<unresolved>'' mthd
                           ''remote_call_stream: peer is not a heap string'' s3)
             | _ \<Rightarrow> fail_local ''<unresolved>'' ''<unresolved>''
                      ''remote_call_stream: method is not a heap string'' s3)
        | _ \<Rightarrow> fail_local ''<unresolved>'' ''<unresolved>''
                 ''remote_call_stream: arg is not a heap string'' s3)"

section \<open>Try, catch and the error accessors\<close>

definition exec_try_enter :: "nat \<Rightarrow> vm \<Rightarrow> vm \<times> flow" where
  "exec_try_enter target s =
     (s\<lparr>try_handlers := \<lparr>catch_pc = target, fp_at_enter = fp s,
                          stack_len_at_enter = length (stack s)\<rparr> # try_handlers s\<rparr>, Fall)"

definition exec_try_exit :: "vm \<Rightarrow> vm \<times> flow" where
  "exec_try_exit s = (s\<lparr>try_handlers := drop 1 (try_handlers s)\<rparr>, Fall)"

definition exec_load_error_kind :: "vm \<Rightarrow> vm \<times> flow" where
  "exec_load_error_kind s =
     (push_obj (HString (case last_error s of Some e \<Rightarrow> classified_error_kind e | None \<Rightarrow> [])) s, Fall)"

definition exec_load_error_cause :: "vm \<Rightarrow> vm \<times> flow" where
  "exec_load_error_cause s =
     (push_obj (HString (case last_error s of Some e \<Rightarrow> err_cause e | None \<Rightarrow> [])) s, Fall)"

definition exec_load_last_confidence :: "vm \<Rightarrow> vm \<times> flow" where
  "exec_load_last_confidence s =
     (let v = (case last_confidence_cell s of
                 Some cell \<Rightarrow> cell (effects s)
               | None \<Rightarrow> last_confidence s)
      in (push (f64_of_f32 v) s, Fall))"

definition exec_rethrow :: "vm \<Rightarrow> vm \<times> flow" where
  "exec_rethrow s =
     (case try_dispatch_error s of
        (s1, Some sentinel) \<Rightarrow> (s1, Return (Some sentinel))
      | (s1, None) \<Rightarrow> (s1, Fall))"

section \<open>Lists and maps\<close>

definition exec_push_list :: "nat \<Rightarrow> vm \<Rightarrow> vm \<times> flow" where
  "exec_push_list n s =
     (case check_alloc n ''PushList'' s of
        (False, s1) \<Rightarrow> (s1, Fall)
      | (True, s1) \<Rightarrow> (case pop_n n s1 of (elements, s2) \<Rightarrow> (push_obj (HList elements) s2, Fall)))"

text \<open>The pairs in source order: the last pair is popped first.\<close>

fun pop_pairs :: "nat \<Rightarrow> vm \<Rightarrow> (string \<times> u64) list \<times> vm" where
  "pop_pairs 0 s = ([], s)"
| "pop_pairs (Suc n) s =
     (case pop s of (v, s1) \<Rightarrow>
      case pop s1 of (key_ref, s2) \<Rightarrow>
      case pop_pairs n s2 of (ps, s3) \<Rightarrow> (ps @ [(hstring_or_empty s2 key_ref, v)], s3))"

definition exec_push_map :: "nat \<Rightarrow> vm \<Rightarrow> vm \<times> flow" where
  "exec_push_map n s =
     (case check_alloc n ''PushMap'' s of
        (False, s1) \<Rightarrow> (s1, Fall)
      | (True, s1) \<Rightarrow> (case pop_pairs n s1 of (ps, s2) \<Rightarrow> (push_obj (HMap ps) s2, Fall)))"

text \<open>The elements of a list or array reference; anything else has none.\<close>

definition items_of :: "vm \<Rightarrow> u64 \<Rightarrow> u64 list" where
  "items_of s r =
     (case hget s r of Some (HList items) \<Rightarrow> items | Some (HArray items) \<Rightarrow> items | _ \<Rightarrow> [])"

definition exec_list_len :: "vm \<Rightarrow> vm \<times> flow" where
  "exec_list_len s =
     (case pop s of (lst_ref, s1) \<Rightarrow> (push (of_nat (length (items_of s1 lst_ref))) s1, Fall))"

definition exec_list_get :: "vm \<Rightarrow> vm \<times> flow" where
  "exec_list_get s =
     (case pop s of (idx, s1) \<Rightarrow>
      case pop s1 of (lst_ref, s2) \<Rightarrow>
        let items = items_of s2 lst_ref
        in if sint idx < 0 \<or> length items \<le> unat idx
           then (push_obj (HString []) s2, Fall)
           else (push (items ! unat idx) s2, Fall))"

definition exec_list_push :: "vm \<Rightarrow> vm \<times> flow" where
  "exec_list_push s =
     (case pop s of (v, s1) \<Rightarrow>
      case pop s1 of (lst_ref, s2) \<Rightarrow> (push_obj (HList (items_of s2 lst_ref @ [v])) s2, Fall))"

definition exec_list_contains :: "vm \<Rightarrow> vm \<times> flow" where
  "exec_list_contains s =
     (case pop s of (val_ref, s1) \<Rightarrow>
      case pop s1 of (lst_ref, s2) \<Rightarrow>
        case heap_display (heap s2) val_ref of
          None \<Rightarrow> (s2, Crash NativeStackOverflow)
        | Some needle \<Rightarrow>
            (case any_display (heap s2) needle (items_of s2 lst_ref) of
               None \<Rightarrow> (s2, Crash NativeStackOverflow)
             | Some found \<Rightarrow> (push (bool_u64 found) s2, Fall)))"

definition exec_list_join :: "vm \<Rightarrow> vm \<times> flow" where
  "exec_list_join s =
     (case pop s of (sep_ref, s1) \<Rightarrow>
      case pop s1 of (lst_ref, s2) \<Rightarrow>
        case those (map (heap_display (heap s2)) (items_of s2 lst_ref)) of
          None \<Rightarrow> (s2, Crash NativeStackOverflow)
        | Some parts \<Rightarrow> (push_obj (HString (join (hstring_or_empty s2 sep_ref) parts)) s2, Fall))"

definition push_strings :: "string list \<Rightarrow> vm \<Rightarrow> vm" where
  "push_strings ts s =
     (let n = length (heap s)
      in push_obj (HList (map of_nat [n ..< n + length ts])) (s\<lparr>heap := heap s @ map HString ts\<rparr>))"

definition exec_list_split :: "vm \<Rightarrow> vm \<times> flow" where
  "exec_list_split s =
     (case pop s of (sep_ref, s1) \<Rightarrow>
      case pop s1 of (str_ref, s2) \<Rightarrow>
        let t = hstring_or_empty s2 str_ref; sep = hstring_or_empty s2 sep_ref
        in (push_strings (if sep = [] then [t] else str_split sep t) s2, Fall))"

text \<open>\<open>list_get_list\<close> reads lists only, and its failures leave the handler by \<open>return\<close>.\<close>

definition exec_list_get_list :: "vm \<Rightarrow> vm \<times> flow" where
  "exec_list_get_list s =
     (case pop s of (idx, s1) \<Rightarrow>
      case pop s1 of (lst_ref, s2) \<Rightarrow>
        let fail = (\<lambda>cause. case try_dispatch_error
                      (s2\<lparr>last_error := Some (local_error ''<local>'' ''list_get_list'' cause)\<rparr>) of
                      (s3, r) \<Rightarrow> (s3, Return r));
            element_ref = (case hget s2 lst_ref of
                             Some (HList items) \<Rightarrow>
                               if sint idx < 0 \<or> length items \<le> unat idx then None
                               else Some (items ! unat idx)
                           | _ \<Rightarrow> None)
        in case element_ref of
             None \<Rightarrow> fail (''list_get_list: index '' @ show_int (sint idx)
                           @ '' out of bounds or not a list'')
           | Some elem \<Rightarrow>
               (case hget s2 elem of
                  Some (HList _) \<Rightarrow> (push elem s2, Fall)
                | _ \<Rightarrow> fail (''list_get_list: element at '' @ show_int (sint idx) @ '' is not a list'')))"

definition pairs_of :: "vm \<Rightarrow> u64 \<Rightarrow> (string \<times> u64) list" where
  "pairs_of s r = (case hget s r of Some (HMap ps) \<Rightarrow> ps | _ \<Rightarrow> [])"

definition exec_map_get_map :: "vm \<Rightarrow> vm \<times> flow" where
  "exec_map_get_map s =
     (case pop s of (key_ref, s1) \<Rightarrow>
      case pop s1 of (map_ref, s2) \<Rightarrow>
        let key = hstring_or_empty s2 key_ref;
            fail = (\<lambda>cause. case try_dispatch_error
                      (s2\<lparr>last_error := Some (local_error ''<local>'' ''map_get_map'' cause)\<rparr>) of
                      (s3, r) \<Rightarrow> (s3, Return r))
        in case map_of (pairs_of s2 map_ref) key of
             None \<Rightarrow> fail (''map_get_map: key `'' @ key @ ''` not present'')
           | Some v \<Rightarrow>
               (case hget s2 v of
                  Some (HMap _) \<Rightarrow> (push v s2, Fall)
                | _ \<Rightarrow> fail (''map_get_map: value at `'' @ key @ ''` is not a map'')))"

definition exec_map_get :: "vm \<Rightarrow> vm \<times> flow" where
  "exec_map_get s =
     (case pop s of (key_ref, s1) \<Rightarrow>
      case pop s1 of (map_ref, s2) \<Rightarrow>
        case map_of (pairs_of s2 map_ref) (hstring_or_empty s2 key_ref) of
          Some v \<Rightarrow> (push v s2, Fall)
        | None \<Rightarrow> (push_obj (HString []) s2, Fall))"

text \<open>\<open>MapSet\<close>: the first pair with the key is updated in place, else the pair goes at the end.\<close>

fun set_pair :: "string \<Rightarrow> u64 \<Rightarrow> (string \<times> u64) list \<Rightarrow> (string \<times> u64) list" where
  "set_pair key v [] = [(key, v)]"
| "set_pair key v ((k, w) # ps) = (if k = key then (k, v) # ps else (k, w) # set_pair key v ps)"

definition exec_map_set :: "vm \<Rightarrow> vm \<times> flow" where
  "exec_map_set s =
     (case pop s of (v, s1) \<Rightarrow>
      case pop s1 of (key_ref, s2) \<Rightarrow>
      case pop s2 of (map_ref, s3) \<Rightarrow>
        (push_obj (HMap (set_pair (hstring_or_empty s3 key_ref) v (pairs_of s3 map_ref))) s3, Fall))"

definition exec_map_has :: "vm \<Rightarrow> vm \<times> flow" where
  "exec_map_has s =
     (case pop s of (key_ref, s1) \<Rightarrow>
      case pop s1 of (map_ref, s2) \<Rightarrow>
        (push (bool_u64 (hstring_or_empty s2 key_ref \<in> fst ` set (pairs_of s2 map_ref))) s2, Fall))"

definition exec_map_keys :: "vm \<Rightarrow> vm \<times> flow" where
  "exec_map_keys s =
     (case pop s of (map_ref, s1) \<Rightarrow> (push_strings (map fst (pairs_of s1 map_ref)) s1, Fall))"

definition exec_map_len :: "vm \<Rightarrow> vm \<times> flow" where
  "exec_map_len s =
     (case pop s of (map_ref, s1) \<Rightarrow> (push (of_nat (length (pairs_of s1 map_ref))) s1, Fall))"

definition del_pair :: "string \<Rightarrow> (string \<times> u64) list \<Rightarrow> (string \<times> u64) list" where
  "del_pair key ps = filter (\<lambda>p. fst p \<noteq> key) ps"

definition exec_map_del :: "vm \<Rightarrow> vm \<times> flow" where
  "exec_map_del s =
     (case pop s of (key_ref, s1) \<Rightarrow>
      case pop s1 of (map_ref, s2) \<Rightarrow>
        (push_obj (HMap (del_pair (hstring_or_empty s2 key_ref) (pairs_of s2 map_ref))) s2, Fall))"

primrec exec_coll :: "coll_op \<Rightarrow> vm \<Rightarrow> vm \<times> flow" where
  "exec_coll ListLen = exec_list_len"
| "exec_coll ListGet = exec_list_get"
| "exec_coll ListPush = exec_list_push"
| "exec_coll ListContains = exec_list_contains"
| "exec_coll ListJoin = exec_list_join"
| "exec_coll ListSplit = exec_list_split"
| "exec_coll MapGet = exec_map_get"
| "exec_coll MapSet = exec_map_set"
| "exec_coll MapHas = exec_map_has"
| "exec_coll MapKeys = exec_map_keys"
| "exec_coll MapLen = exec_map_len"
| "exec_coll MapDel = exec_map_del"
| "exec_coll ListGetList = exec_list_get_list"
| "exec_coll MapGetMap = exec_map_get_map"

section \<open>The step and the run\<close>

primrec exec :: "bool \<Rightarrow> inst \<Rightarrow> vm \<Rightarrow> vm \<times> flow" where
  "exec ovf (PushConst node) s = exec_push_const node s"
| "exec ovf (LoadLocal offset) s = exec_load_local ovf offset s"
| "exec ovf (StoreLocal offset) s = exec_store_local ovf offset s"
| "exec ovf Pop s = (snd (pop s), Fall)"
| "exec ovf Dup s = exec_dup s"
| "exec ovf (Alu a) s = exec_alu ovf a s"
| "exec ovf (NewStruct n) s = exec_new_struct n s"
| "exec ovf (GetField i) s = exec_get_field i s"
| "exec ovf (SetField i) s = exec_set_field i s"
| "exec ovf NewArray s = exec_new_array s"
| "exec ovf ArrayLen s = exec_array_len s"
| "exec ovf GetElem s = exec_get_elem s"
| "exec ovf SetElem s = exec_set_elem s"
| "exec ovf ConcatStr s = exec_concat_str s"
| "exec ovf EqStr s = exec_eq_str s"
| "exec ovf (Jump target) s = (s\<lparr>inst_ptr := target\<rparr>, Fall)"
| "exec ovf (JumpFalse target) s = exec_jump_false target s"
| "exec ovf (Call target n) s = exec_call target n s"
| "exec ovf Ret s = exec_ret s"
| "exec ovf RetVal s = exec_ret_val s"
| "exec ovf (Print p) s = exec_print p s"
| "exec ovf RemoteCall s = exec_remote_call s"
| "exec ovf RemoteCallStream s = exec_remote_call_stream s"
| "exec ovf (TryEnter target) s = exec_try_enter target s"
| "exec ovf TryExit s = exec_try_exit s"
| "exec ovf LoadErrorKind s = exec_load_error_kind s"
| "exec ovf LoadErrorCause s = exec_load_error_cause s"
| "exec ovf LoadErrorRetryHint s = (push 0 s, Fall)"
| "exec ovf Rethrow s = exec_rethrow s"
| "exec ovf LoadLastConfidence s = exec_load_last_confidence s"
| "exec ovf (PushList n) s = exec_push_list n s"
| "exec ovf (PushMap n) s = exec_push_map n s"
| "exec ovf (Coll c) s = exec_coll c s"

text \<open>What \<open>step\<close> returns, or the crash it ends in.\<close>

datatype step_result = Next "u64 option" | Abort crash

definition fuel_cause :: "vm \<Rightarrow> string" where
  "fuel_cause s =
     ''sol VM fuel exhausted after '' @ show_nat (steps_taken s) @ '' steps (instruction index ''
     @ show_nat (inst_ptr s) @ '')''"

definition exhaust_fuel :: "vm \<Rightarrow> vm" where
  "exhaust_fuel s =
     s\<lparr>is_done := True, fuel_exhausted_steps := Some (steps_taken s),
       last_error := Some (local_error ''<sol_vm>'' (flow_label s) (fuel_cause s))\<rparr>"

definition fetch :: "vm \<Rightarrow> vm" where
  "fetch s = s\<lparr>fuel := fuel s - 1, steps_taken := min (Suc (steps_taken s)) (2 ^ 64 - 1),
              inst_ptr := Suc (inst_ptr s)\<rparr>"

text \<open>After the \<open>match\<close>: a recorded fault becomes a clean halt.\<close>

definition finish_step :: "vm \<times> flow \<Rightarrow> vm \<times> step_result" where
  "finish_step r =
     (case r of
        (s, Crash c) \<Rightarrow> (s, Abort c)
      | (s, Return v) \<Rightarrow> (s, Next v)
      | (s, Fall) \<Rightarrow>
          (case vm_fault s of
             Some cause \<Rightarrow>
               (case raise_malformed cause (s\<lparr>vm_fault := None\<rparr>) of (s1, v) \<Rightarrow> (s1, Next v))
           | None \<Rightarrow> (s, Next None)))"

definition step :: "bool \<Rightarrow> vm \<Rightarrow> vm \<times> step_result" where
  "step ovf s =
     (if is_done s then (s, Next None)
      else if length (vm_program s) \<le> inst_ptr s then
        (case vpop (stack s) of
           Some (v, st) \<Rightarrow> (s\<lparr>is_done := True, stack := st\<rparr>, Next (Some v))
         | None \<Rightarrow> (s\<lparr>is_done := True\<rparr>, Next (Some 0)))
      else if fuel s = 0 then (exhaust_fuel s, Next (Some VM_ERROR_SENTINEL))
      else finish_step (exec ovf (vm_program s ! inst_ptr s) (fetch s)))"

text \<open>
  \<open>run\<close> loops over \<open>step\<close> until it returns a value; \<open>None\<close> is the loop that never ends.
\<close>

partial_function (option) run :: "bool \<Rightarrow> vm \<Rightarrow> (vm \<times> (crash + u64)) option" where
  "run ovf s =
     (case step ovf s of
        (s', Abort c) \<Rightarrow> Some (s', Inl c)
      | (s', Next (Some v)) \<Rightarrow> Some (s', Inr v)
      | (s', Next None) \<Rightarrow> run ovf s')"

end
