(* ===== verification/Sol_Vm_Frame.thy ===== *)
theory Sol_Vm_Frame
  imports Sol_Vm
begin

text \<open>
  What the instruction handlers of the SOL machine leave alone. \<open>budget\<close> collects the fields no
  handler writes (fuel, step counter, program, host wiring); only \<open>fetch\<close> and \<open>exhaust_fuel\<close>
  write some of them. The heap only grows, except under \<open>SetField\<close> and \<open>SetElem\<close>, which replace
  one object. And without overflow checks no handler panics.
\<close>

section \<open>Fields no handler writes\<close>

definition budget where
  "budget s = (fuel s, steps_taken s, fuel_exhausted_steps s, vm_program s, flow_name s,
               vm_dispatcher s, chunk_observer s, last_confidence_cell s, last_confidence s)"

lemma budget_simps [simp, frame_simps]:
  "budget (push v s) = budget s"
  "budget (record_fault m s) = budget s"
  "budget (snd (pop s)) = budget s"
  "budget (snd (snd (pop2 s))) = budget s"
  "budget (push_obj b s) = budget s"
  "budget (snd (check_alloc n w s)) = budget s"
  "budget (emit e s) = budget s"
  "budget (observe_chunks cs s) = budget s"
  "budget (push_strings ts s) = budget s"
  "budget (leave_frame f fs s) = budget s"
  "budget (fst (try_dispatch_error s)) = budget s"
  "budget (fst (raise_malformed c s)) = budget s"
  "budget (snd (const_bits a s)) = budget s"
  by (auto simp: budget_def push_def record_fault_def pop_def pop2_def push_obj_def check_alloc_def
        emit_def observe_chunks_def push_strings_def leave_frame_def try_dispatch_error_def
        raise_malformed_def const_bits_def Let_def
      split: option.splits prod.splits list.splits ast.splits)

lemma budget_updates [simp, frame_simps]:
  "budget (s\<lparr>stack := st\<rparr>) = budget s"
  "budget (s\<lparr>heap := h\<rparr>) = budget s"
  "budget (s\<lparr>call_stack := cs\<rparr>) = budget s"
  "budget (s\<lparr>inst_ptr := n\<rparr>) = budget s"
  "budget (s\<lparr>fp := n\<rparr>) = budget s"
  "budget (s\<lparr>is_done := d\<rparr>) = budget s"
  "budget (s\<lparr>last_error := e\<rparr>) = budget s"
  "budget (s\<lparr>try_handlers := hs\<rparr>) = budget s"
  "budget (s\<lparr>vm_fault := f\<rparr>) = budget s"
  "budget (s\<lparr>effects := es\<rparr>) = budget s"
  by (simp_all add: budget_def)

lemma budget_pop_n [simp, frame_simps]: "budget (snd (pop_n n s)) = budget s"
  by (induction n arbitrary: s) (simp_all add: case_prod_beta)

lemma budget_pop_pairs [simp, frame_simps]: "budget (snd (pop_pairs n s)) = budget s"
  by (induction n arbitrary: s) (simp_all add: case_prod_beta)

lemma budget_finish_call [simp, frame_simps]: "budget (fst (finish_call r s)) = budget s"
  by (auto simp: finish_call_def raise_error_def case_prod_beta split: sum.splits option.splits)

lemma budget_fail_local [simp, frame_simps]: "budget (fst (fail_local p m c s)) = budget s"
  by (simp add: fail_local_def)

lemmas handler_defs =
  exec_push_const_def exec_load_local_def exec_store_local_def exec_dup_def
  exec_new_struct_def exec_get_field_def exec_set_field_def exec_new_array_def exec_array_len_def
  exec_get_elem_def exec_set_elem_def exec_concat_str_def exec_eq_str_def
  exec_jump_false_def exec_call_def exec_ret_def exec_ret_val_def
  exec_remote_call_def exec_remote_call_stream_def
  exec_try_enter_def exec_try_exit_def exec_load_error_kind_def exec_load_error_cause_def
  exec_load_last_confidence_def exec_rethrow_def exec_push_list_def exec_push_map_def

lemmas coll_defs =
  exec_list_len_def exec_list_get_def exec_list_push_def exec_list_contains_def
  exec_list_join_def exec_list_split_def exec_map_get_def exec_map_set_def exec_map_has_def
  exec_map_keys_def exec_map_len_def exec_map_del_def exec_list_get_list_def exec_map_get_map_def

lemmas alu_defs =
  bin_op_def un_op_def int_arith_def int_div_def int_cmp_def float_cmp_def char_cmp_def bit_shift_def

lemmas obj_splits = option.split heap_object.split if_split bool.split list.split

lemma budget_exec_alu [simp]: "budget (fst (exec_alu ovf a s)) = budget s"
  by (cases a) (simp_all add: alu_defs case_prod_beta Let_def split: obj_splits)

lemma budget_exec_print [simp]: "budget (fst (exec_print p s)) = budget s"
  by (cases p) (simp_all add: case_prod_beta Let_def split: obj_splits)

lemma budget_exec_coll [simp]: "budget (fst (exec_coll c s)) = budget s"
  by (cases c) (simp_all add: coll_defs case_prod_beta Let_def split: obj_splits)

lemma budget_exec [simp]: "budget (fst (exec ovf i s)) = budget s"
  by (cases i) (simp_all add: handler_defs case_prod_beta Let_def split: obj_splits)

lemma exec_frame:
  "fuel (fst (exec ovf i s)) = fuel s"
  "steps_taken (fst (exec ovf i s)) = steps_taken s"
  "vm_program (fst (exec ovf i s)) = vm_program s"
  "fuel_exhausted_steps (fst (exec ovf i s)) = fuel_exhausted_steps s"
  using budget_exec [of ovf i s] by (simp_all add: budget_def)

lemma budget_finish_step [simp]: "budget (fst (finish_step r)) = budget (fst r)"
  by (auto simp: finish_step_def case_prod_beta split: flow.split option.split)

text \<open>Popping from and pushing on a stack whose top is known.\<close>

lemma pop_snoc: "stack s = st @ [a] \<Longrightarrow> pop s = (a, s\<lparr>stack := st\<rparr>)"
  by (simp add: pop_def)

lemma pop2_snoc: "stack s = st @ [a, b] \<Longrightarrow> pop2 s = (a, b, s\<lparr>stack := st\<rparr>)"
  by (simp add: pop2_def pop_def)

lemma push_stack: "push v s = s\<lparr>stack := stack s @ [v]\<rparr>"
  by (simp add: push_def vpush_def)

end
