(* ===== verification/Machine.thy ===== *)
theory Machine
  imports Prelude
begin

text \<open>
  The contract between a machine that pays for every step and the host that runs it: a step of a
  live machine either delivers a result or consumes fuel and leaves the machine live. From the
  contract follow what the host relies on: the run returns, within as many steps as there is fuel,
  and what every step keeps holds at the end.
\<close>

locale fuelled_machine =
  fixes step :: "'s \<Rightarrow> 's \<times> 'r option"
    and fuel_of :: "'s \<Rightarrow> nat"
    and live :: "'s \<Rightarrow> bool"
    and run_of :: "'s \<Rightarrow> ('s \<times> 'r) option"
  assumes consume: "live s \<Longrightarrow> step s = (s', None) \<Longrightarrow> live s' \<and> fuel_of s' < fuel_of s"
    and unfold: "run_of s = (case step s of (s', None) \<Rightarrow> run_of s' | (s', Some r) \<Rightarrow> Some (s', r))"
begin

lemma returns: "live s \<Longrightarrow> \<exists>s' r. run_of s = Some (s', r)"
proof (induction "fuel_of s" arbitrary: s rule: less_induct)
  case less
  obtain s' ro where st: "step s = (s', ro)" by (cases "step s")
  show ?case
  proof (cases ro)
    case None
    with st less.prems have "live s'" "fuel_of s' < fuel_of s" using consume by blast+
    then have "\<exists>s'' r. run_of s' = Some (s'', r)" using less.hyps by blast
    with st None show ?thesis by (subst unfold) simp
  next
    case (Some r)
    with st show ?thesis by (subst unfold) simp
  qed
qed

lemma run_induct [consumes 2, case_names last more]:
  assumes "run_of s = Some (s', r)" and "live s"
    and "\<And>s. live s \<Longrightarrow> step s = (s', Some r) \<Longrightarrow> P s"
    and "\<And>s t. live s \<Longrightarrow> step s = (t, None) \<Longrightarrow> run_of t = Some (s', r) \<Longrightarrow> P t \<Longrightarrow> P s"
  shows "P s"
  using assms(1,2)
proof (induction "fuel_of s" arbitrary: s rule: less_induct)
  case less
  obtain t ro where st: "step s = (t, ro)" by (cases "step s")
  show ?case
  proof (cases ro)
    case None
    with st less.prems have t: "live t" "fuel_of t < fuel_of s" using consume by blast+
    have "run_of t = Some (s', r)"
      using less.prems(1) st None by (subst (asm) unfold) simp
    with t less.hyps assms(4) st None less.prems(2) show ?thesis by blast
  next
    case (Some r')
    with st less.prems have "t = s'" "r' = r" by (subst (asm) unfold; simp)+
    with st Some assms(3) less.prems(2) show ?thesis by blast
  qed
qed

end

text \<open>A machine together with a property of states that every step keeps.\<close>

locale machine_invariant = fuelled_machine +
  fixes inv :: "'a \<Rightarrow> bool"
  assumes inv_step: "live s \<Longrightarrow> inv s \<Longrightarrow> step s = (s', r) \<Longrightarrow> inv s'"
begin

lemma inv_run: "run_of s = Some (s', r) \<Longrightarrow> live s \<Longrightarrow> inv s \<Longrightarrow> inv s'"
  by (induction rule: run_induct) (blast intro: inv_step)+

end

end
