(* ===== verification/Sol_Vm_Props.thy ===== *)
theory Sol_Vm_Props
  imports Sol_Vm_Frame Machine
begin

text \<open>
  Whole-run properties of the SOL machine: it is a fuelled machine (interpretation \<open>sol\<close>), so a
  run on a fresh machine returns, spends exactly the fuel it reports, and, without overflow checks,
  never panics.
\<close>

definition step_obs :: "bool \<Rightarrow> vm \<Rightarrow> vm \<times> (crash + u64) option" where
  "step_obs ovf s =
     (case step ovf s of
        (s', Abort c) \<Rightarrow> (s', Some (Inl c))
      | (s', Next (Some v)) \<Rightarrow> (s', Some (Inr v))
      | (s', Next None) \<Rightarrow> (s', None))"

lemma run_unfold:
  "run ovf s = (case step_obs ovf s of (s', None) \<Rightarrow> run ovf s' | (s', Some r) \<Rightarrow> Some (s', r))"
  by (subst run.simps) (auto simp: step_obs_def split: prod.split step_result.split option.split)

section \<open>A step that returns nothing leaves the machine live\<close>

text \<open>What a handler's outcome says about \<open>is_done\<close>.\<close>

definition keeps_live :: "vm \<Rightarrow> vm \<times> flow \<Rightarrow> bool" where
  "keeps_live s r = (case r of (s', Return (Some _)) \<Rightarrow> True | (s', _) \<Rightarrow> is_done s' = is_done s)"

lemma is_done_simps [simp, frame_simps]:
  "is_done (push v s) = is_done s"
  "is_done (record_fault m s) = is_done s"
  "is_done (snd (pop s)) = is_done s"
  "is_done (snd (snd (pop2 s))) = is_done s"
  "is_done (push_obj b s) = is_done s"
  "is_done (snd (check_alloc n w s)) = is_done s"
  "is_done (emit e s) = is_done s"
  "is_done (observe_chunks cs s) = is_done s"
  "is_done (push_strings ts s) = is_done s"
  "is_done (leave_frame f fs s) = is_done s"
  "is_done (snd (const_bits a s)) = is_done s"
  by (auto simp: push_def record_fault_def pop_def pop2_def push_obj_def check_alloc_def
        emit_def observe_chunks_def push_strings_def leave_frame_def const_bits_def Let_def
      split: option.splits prod.splits list.splits ast.splits)

lemma is_done_pop_n [simp, frame_simps]: "is_done (snd (pop_n n s)) = is_done s"
  by (induction n arbitrary: s) (simp_all add: case_prod_beta)

lemma is_done_pop_pairs [simp, frame_simps]: "is_done (snd (pop_pairs n s)) = is_done s"
  by (induction n arbitrary: s) (simp_all add: case_prod_beta)

lemma try_dispatch_error_live: "snd (try_dispatch_error s) = None \<Longrightarrow> is_done (fst (try_dispatch_error s)) = is_done s"
  by (auto simp: try_dispatch_error_def split: list.splits)

lemma keeps_live_pair:
  "keeps_live s (s', Fall) = (is_done s' = is_done s)"
  "keeps_live s (s', Crash c) = (is_done s' = is_done s)"
  "keeps_live s (s', Return None) = (is_done s' = is_done s)"
  "keeps_live s (s', Return (Some v))"
  by (simp_all add: keeps_live_def)

lemma keeps_live_try:
  "keeps_live s (case try_dispatch_error t of (s1, r) \<Rightarrow> (s1, Return r)) = True" if "is_done t = is_done s"
  using that try_dispatch_error_live [of t] by (auto simp: keeps_live_def split: prod.split option.split)

lemma keeps_live_finish_call: "is_done t = is_done s \<Longrightarrow> keeps_live s (finish_call r t)"
  by (auto simp: finish_call_def raise_error_def keeps_live_def try_dispatch_error_def
      split: sum.splits list.splits prod.split option.split)

lemma keeps_live_exec_alu: "keeps_live s (exec_alu ovf a s)"
  by (cases a) (simp_all add: alu_defs case_prod_beta Let_def keeps_live_pair split: obj_splits)

lemma keeps_live_exec_print: "keeps_live s (exec_print p s)"
  by (cases p) (simp_all add: case_prod_beta Let_def keeps_live_pair split: obj_splits)

lemma keeps_live_exec_coll: "keeps_live s (exec_coll c s)"
  using try_dispatch_error_live
  by (cases c)
    (auto simp: coll_defs case_prod_beta Let_def keeps_live_pair keeps_live_def split: obj_splits)

lemma keeps_live_rethrow: "keeps_live s (exec_rethrow s)"
  by (auto simp: exec_rethrow_def keeps_live_def try_dispatch_error_def split: list.splits)

lemma keeps_live_exec: "keeps_live s (exec ovf i s)"
  by (cases i)
    (simp_all add: handler_defs(1-21) keeps_live_exec_alu keeps_live_exec_print keeps_live_exec_coll
      keeps_live_rethrow keeps_live_finish_call exec_load_error_kind_def exec_load_error_cause_def
      exec_load_last_confidence_def exec_push_list_def exec_push_map_def
      fail_local_def raise_malformed_def case_prod_beta Let_def keeps_live_pair split: obj_splits)

lemma step_live:
  assumes "\<not> is_done s" "step ovf s = (s', Next None)"
  shows "\<not> is_done s' \<and> Suc (fuel s') = fuel s \<and> steps_taken s' = min (Suc (steps_taken s)) (2 ^ 64 - 1)
    \<and> fuel_exhausted_steps s' = fuel_exhausted_steps s"
proof -
  let ?r = "exec ovf (vm_program s ! inst_ptr s) (fetch s)"
  have "fuel s \<noteq> 0" and fin: "finish_step ?r = (s', Next None)"
    using assms by (auto simp: step_def split: if_splits option.splits)
  have "budget s' = budget (fetch s)"
    using fin budget_finish_step [of ?r] by simp
  moreover have "\<not> is_done s'"
    using fin assms(1) keeps_live_exec [of "fetch s" ovf "vm_program s ! inst_ptr s"]
    by (auto simp: finish_step_def keeps_live_def raise_malformed_def fetch_def
        split: prod.splits flow.splits option.splits)
  ultimately show ?thesis
    using \<open>fuel s \<noteq> 0\<close> by (simp add: budget_def fetch_def)
qed

interpretation sol: fuelled_machine "step_obs ovf" fuel "\<lambda>s. \<not> is_done s" "run ovf" for ovf
proof
  fix s s'
  assume "\<not> is_done s" "step_obs ovf s = (s', None)"
  moreover from this have "step ovf s = (s', Next None)"
    by (auto simp: step_obs_def split: prod.splits step_result.splits option.splits)
  ultimately show "\<not> is_done s' \<and> fuel s' < fuel s" using step_live by fastforce
next
  fix s
  show "run ovf s = (case step_obs ovf s of (s', None) \<Rightarrow> run ovf s' | (s', Some r) \<Rightarrow> Some (s', r))"
    by (rule run_unfold)
qed

section \<open>Fuel is spent exactly\<close>

definition fuel_inv :: "nat \<Rightarrow> vm \<Rightarrow> bool" where
  "fuel_inv n s \<longleftrightarrow> steps_taken s + fuel s = n \<and> n < 2 ^ 64 \<and>
     (\<forall>k. fuel_exhausted_steps s = Some k \<longrightarrow> k = n \<and> fuel s = 0)"

lemma step_fuel_inv:
  assumes "fuel_inv n s" "step ovf s = (s', r)"
  shows "fuel_inv n s'"
proof -
  let ?r = "exec ovf (vm_program s ! inst_ptr s) (fetch s)"
  have b: "budget (fst (finish_step ?r)) = budget (fetch s)" by simp
  show ?thesis
    using assms b
    by (auto simp: step_def fuel_inv_def exhaust_fuel_def budget_def fetch_def
        split: if_splits option.splits)
qed

lemma step_obs_fst: "step_obs ovf s = (s', r) \<Longrightarrow> \<exists>q. step ovf s = (s', q)"
  by (auto simp: step_obs_def split: prod.splits step_result.splits option.splits)

interpretation sol_fuel: machine_invariant "step_obs ovf" fuel "\<lambda>s. \<not> is_done s" "run ovf" "fuel_inv n" for ovf n
  by unfold_locales (use step_fuel_inv step_obs_fst in blast)

lemma step_obs_exhausted:
  assumes "step_obs ovf s = (s', Some r)" "fuel_exhausted_steps s = None"
    and "fuel_exhausted_steps s' = Some k"
  shows "r = Inr VM_ERROR_SENTINEL"
proof -
  let ?r = "exec ovf (vm_program s ! inst_ptr s) (fetch s)"
  have b: "fuel_exhausted_steps (fst (finish_step ?r)) = fuel_exhausted_steps s"
    using budget_finish_step [of ?r] exec_frame(4) [of ovf "vm_program s ! inst_ptr s" "fetch s"]
    unfolding budget_def by (simp add: fetch_def)
  show ?thesis
    using assms b
    by (auto simp: step_obs_def step_def exhaust_fuel_def
        split: prod.splits step_result.splits option.splits if_splits)
qed

lemma run_exhausted_sentinel:
  assumes "run ovf s = Some (s', r)" "\<not> is_done s"
    and "fuel_exhausted_steps s = None" "fuel_exhausted_steps s' = Some k"
  shows "r = Inr VM_ERROR_SENTINEL"
  using assms(1,2,3)
proof (induction rule: sol.run_induct)
  case (last s)
  then show ?case using step_obs_exhausted assms(4) by blast
next
  case (more s t)
  have "step ovf s = (t, Next None)"
    using more(2) by (auto simp: step_obs_def split: prod.splits step_result.splits option.splits)
  with more step_live show ?case by auto
qed

section \<open>No panic in a release build\<close>

lemma nat_grow_simps [simp]:
  "(a :: nat) - b \<le> Suc (a + c)" "a - b \<le> a + c" "Suc (a - b) \<le> Suc (a + c)"
  by arith+

lemma length_stack_simps [simp]:
  "length (stack (push v s)) = Suc (length (stack s))"
  "length (stack (record_fault m s)) = length (stack s)"
  "length (stack (snd (pop s))) = length (stack s) - 1"
  "length (stack (push_obj b s)) = Suc (length (stack s))"
  "length (stack (snd (check_alloc n w s))) = length (stack s)"
  "length (stack (emit e s)) = length (stack s)"
  "length (stack (observe_chunks cs s)) = length (stack s)"
  "length (stack (push_strings ts s)) = Suc (length (stack s))"
  "length (stack (leave_frame f fs s)) = min (length (stack s)) (fp s)"
  "length (stack (snd (const_bits a s))) = length (stack s)"
  by (auto simp: push_def record_fault_def pop_def push_obj_def check_alloc_def vpop_def
        emit_def observe_chunks_def push_strings_def leave_frame_def const_bits_def Let_def
      split: option.splits prod.splits list.splits ast.splits if_splits)

lemma length_stack_pop2 [simp]: "length (stack (snd (snd (pop2 s)))) = length (stack s) - 2"
  by (simp add: pop2_def case_prod_beta)

lemma length_stack_pop_n [simp]: "length (stack (snd (pop_n n s))) = length (stack s) - n"
  by (induction n arbitrary: s) (simp_all add: case_prod_beta)

lemma length_stack_pop_pairs [simp]: "length (stack (snd (pop_pairs n s))) = length (stack s) - 2 * n"
  by (induction n arbitrary: s) (simp_all add: case_prod_beta)

lemma length_stack_try: "length (stack (fst (try_dispatch_error s))) \<le> length (stack s)"
  by (auto simp: try_dispatch_error_def split: list.splits)

lemma length_stack_try_le: "length (stack t) \<le> n \<Longrightarrow> length (stack (fst (try_dispatch_error t))) \<le> n"
  using length_stack_try le_trans by blast

lemma stack_raise_malformed [simp]: "stack (fst (raise_malformed c s)) = stack s"
  by (simp add: raise_malformed_def)

lemma length_stack_finish_call: "length (stack (fst (finish_call r s))) \<le> Suc (length (stack s))"
  by (auto simp: finish_call_def raise_error_def case_prod_beta split: sum.splits option.splits
      intro!: length_stack_try_le)

definition small_growth :: "vm \<Rightarrow> vm \<times> flow \<Rightarrow> bool" where
  "small_growth s r \<longleftrightarrow> length (stack (fst r)) \<le> Suc (length (stack s) + ALLOC_CEILING)"

lemma small_growth_alu: "small_growth s (exec_alu ovf a s)"
  by (cases a) (simp_all add: alu_defs case_prod_beta Let_def small_growth_def split: obj_splits)

lemma small_growth_print: "small_growth s (exec_print p s)"
  by (cases p) (simp_all add: case_prod_beta Let_def small_growth_def split: obj_splits)

lemma small_growth_coll: "small_growth s (exec_coll c s)"
  by (cases c)
    (auto simp: coll_defs case_prod_beta Let_def small_growth_def
      split: obj_splits intro!: length_stack_try_le)

lemma budgeted_growth: "\<not> min f c < g \<Longrightarrow> a - Suc 0 + g \<le> Suc (a + c)" for a :: nat
  by arith

lemma small_growth_store: "small_growth s (exec_store_local ovf n s)"
  by (auto simp: exec_store_local_def case_prod_beta Let_def small_growth_def check_alloc_def
      alloc_budget_def intro: budgeted_growth split: obj_splits)

lemma small_growth_remote:
  "small_growth s (exec_remote_call s)" "small_growth s (exec_remote_call_stream s)"
  by (auto simp: exec_remote_call_def exec_remote_call_stream_def fail_local_def case_prod_beta
      small_growth_def split: obj_splits
      intro!: length_stack_finish_call [THEN le_trans])

lemma small_growth_rest:
  "small_growth s (exec_ret s)" "small_growth s (exec_ret_val s)" "small_growth s (exec_rethrow s)"
  "small_growth s (exec_push_list n s)" "small_growth s (exec_push_map n s)"
  "small_growth s (exec_new_struct n s)"
  by (auto simp: exec_ret_def exec_ret_val_def exec_rethrow_def exec_push_list_def
      exec_push_map_def exec_new_struct_def case_prod_beta small_growth_def
      split: obj_splits intro!: length_stack_try_le)

lemma small_growth_exec: "small_growth s (exec ovf i s)"
  by (cases i)
    (simp_all add: small_growth_alu small_growth_print small_growth_coll small_growth_store
      small_growth_remote small_growth_rest,
     simp_all add: handler_defs small_growth_def case_prod_beta Let_def split: obj_splits)

definition no_panic :: "vm \<times> flow \<Rightarrow> bool" where
  "no_panic r \<longleftrightarrow> (\<forall>m. snd r \<noteq> Crash (Panicked m))"

lemma no_panic_pair [simp]:
  "no_panic (s, Fall)" "no_panic (s, Return v)" "no_panic (s, Crash NativeStackOverflow)"
  by (simp_all add: no_panic_def)

lemma no_panic_finish_call [simp]: "no_panic (finish_call r s)"
  by (auto simp: finish_call_def raise_error_def case_prod_beta split: sum.splits option.splits)

lemma slot_addr_release [simp]: "slot_addr False s n \<noteq> None"
  by (simp add: slot_addr_def Let_def)

lemma no_panic_alu: "no_panic (exec_alu False a s)"
  by (cases a) (simp_all add: alu_defs case_prod_beta Let_def split: obj_splits)

lemma no_panic_print: "no_panic (exec_print p s)"
  by (cases p) (simp_all add: case_prod_beta Let_def split: obj_splits)

lemma no_panic_coll: "no_panic (exec_coll c s)"
  by (cases c) (simp_all add: coll_defs case_prod_beta Let_def split: obj_splits)

text \<open>
  \<open>StoreLocal\<close> at slot \<open>usize::MAX\<close>: \<open>saturating_add\<close> makes the required length one too small,
  but the growth is then far over the allocation budget, so the store is refused.
\<close>

lemma no_panic_store:
  assumes "length (stack s) < 2 ^ 63"
  shows "no_panic (exec_store_local False n s)"
proof -
  obtain v s1 where p: "pop s = (v, s1)" by (cases "pop s")
  have len: "length (stack s1) < 2 ^ 63" using assms length_stack_simps(3) [of s] p by simp
  obtain idx where idx: "slot_addr False s1 n = Some idx" using slot_addr_release by blast
  have ub: "unat idx \<le> 2 ^ 64 - 1" using unsigned_less [of idx, where ?'a = nat] by simp
  show ?thesis
  proof (cases "unat idx = 2 ^ 64 - 1")
    case True
    then have "ALLOC_CEILING < min (Suc (unat idx)) (2 ^ 64 - 1) - length (stack s1)"
      using len by (simp add: ALLOC_CEILING_def)
    then show ?thesis
      using p idx
      by (simp add: exec_store_local_def check_alloc_def alloc_budget_def Let_def min_less_iff_disj)
  next
    case False
    with ub have "min (Suc (unat idx)) (2 ^ 64 - 1) = Suc (unat idx)" by simp
    then show ?thesis
      using p idx by (auto simp: exec_store_local_def check_alloc_def alloc_budget_def Let_def)
  qed
qed

lemma no_panic_exec:
  assumes "length (stack s) < 2 ^ 63"
  shows "no_panic (exec False i s)"
  using no_panic_store [OF assms]
  by (cases i)
    (simp_all add: no_panic_alu no_panic_print no_panic_coll,
     simp_all add: handler_defs(1-2,4-) fail_local_def case_prod_beta Let_def split: obj_splits)

definition stack_inv :: "vm \<Rightarrow> bool" where
  "stack_inv s \<longleftrightarrow> length (stack s) + fuel s * (ALLOC_CEILING + 1) < 2 ^ 63"

lemma step_stack_inv:
  assumes "stack_inv s" "step ovf s = (s', r)"
  shows "stack_inv s'"
proof -
  let ?e = "exec ovf (vm_program s ! inst_ptr s) (fetch s)"
  have b: "fuel (fst (finish_step ?e)) = fuel s - 1"
    using budget_finish_step [of ?e] exec_frame(1) [of ovf "vm_program s ! inst_ptr s" "fetch s"]
    unfolding budget_def by (simp add: fetch_def)
  have st: "stack (fst (finish_step r)) = stack (fst r)" for r
    by (auto simp: finish_step_def raise_malformed_def split: prod.split flow.split option.split)
  have g: "length (stack (fst (finish_step ?e))) \<le> Suc (length (stack s) + ALLOC_CEILING)"
    using small_growth_exec [of "fetch s" ovf "vm_program s ! inst_ptr s"]
    by (simp add: st small_growth_def fetch_def)
  show ?thesis
  proof (cases "\<not> is_done s \<and> inst_ptr s < length (vm_program s) \<and> fuel s \<noteq> 0")
    case True
    then have s': "s' = fst (finish_step ?e)" using assms(2) by (simp add: step_def)
    obtain f where f: "fuel s = Suc f" using True by (cases "fuel s") auto
    show ?thesis using assms(1) b g by (simp add: stack_inv_def s' f)
  next
    case False
    then show ?thesis
      using assms
      by (auto simp: step_def stack_inv_def exhaust_fuel_def dest!: length_pop_le split: if_splits option.splits)
  qed
qed

interpretation sol_stack: machine_invariant "step_obs ovf" fuel "\<lambda>s. \<not> is_done s" "run ovf" stack_inv for ovf
  by unfold_locales (use step_stack_inv step_obs_fst in blast)

lemma step_obs_no_panic:
  assumes "stack_inv s" "step_obs False s = (s', Some (Inl c))"
  shows "c = NativeStackOverflow"
proof -
  have "length (stack (fetch s)) < 2 ^ 63" using assms(1) by (simp add: stack_inv_def fetch_def)
  then have np: "exec False i (fetch s) \<noteq> (t, Crash (Panicked m))" for i t m
    using no_panic_exec [of "fetch s" i] by (auto simp: no_panic_def)
  show ?thesis
    using assms(2) np
    by (cases c) (auto simp: step_obs_def step_def finish_step_def raise_malformed_def
        split: prod.splits step_result.splits option.splits if_splits flow.splits)
qed

lemma run_no_panic:
  assumes "run False s = Some (s', Inl c)" "\<not> is_done s" "stack_inv s"
  shows "c = NativeStackOverflow"
  using assms
proof (induction rule: sol.run_induct)
  case (last s)
  then show ?case using step_obs_no_panic by blast
next
  case (more s t)
  then show ?case using step_stack_inv step_obs_fst by blast
qed

section \<open>The overflow of the native stack\<close>

text \<open>Only two instructions follow references, and only a display that does not end overflows the stack.\<close>

definition follows_references :: "inst \<Rightarrow> bool" where
  "follows_references i \<longleftrightarrow> i = Coll ListContains \<or> i = Coll ListJoin"

definition overflow_explained :: "inst \<Rightarrow> vm \<times> flow \<Rightarrow> bool" where
  "overflow_explained i r \<longleftrightarrow> (snd r = Crash NativeStackOverflow \<longrightarrow>
     follows_references i \<and> (\<exists>q. heap_display (heap (fst r)) q = None))"

lemma overflow_explained_pair [simp]:
  "overflow_explained i (s, Fall)" "overflow_explained i (s, Return v)" "overflow_explained i (s, Crash (Panicked m))"
  by (simp_all add: overflow_explained_def)

lemma overflow_explained_finish_call [simp]: "overflow_explained i (finish_call r s)"
  by (auto simp: finish_call_def raise_error_def case_prod_beta split: sum.splits option.splits)

lemma any_display_None: "any_display h needle rs = None \<Longrightarrow> \<exists>q. heap_display h q = None"
  by (induction rs) (auto split: option.splits if_splits)

lemma those_None: "those (map f xs) = None \<Longrightarrow> \<exists>x. f x = None"
  by (induction xs) (auto split: option.splits)

lemma overflow_explained_coll: "overflow_explained (Coll c) (exec_coll c s)"
  by (cases c)
    (auto simp: coll_defs case_prod_beta Let_def overflow_explained_def follows_references_def
      dest: any_display_None those_None split: obj_splits)

lemma overflow_explained_alu: "overflow_explained i (exec_alu ovf a s)"
  by (cases a) (simp_all add: alu_defs case_prod_beta Let_def split: obj_splits)

lemma overflow_explained_print: "overflow_explained i (exec_print p s)"
  by (cases p) (simp_all add: case_prod_beta Let_def split: obj_splits)

lemma overflow_explained_exec: "overflow_explained i (exec ovf i s)"
  by (cases i)
    (simp_all add: overflow_explained_alu overflow_explained_print overflow_explained_coll,
     simp_all add: handler_defs fail_local_def case_prod_beta Let_def split: obj_splits)

lemma step_obs_overflow:
  assumes "step_obs ovf s = (s', Some (Inl NativeStackOverflow))"
  shows "list_ex follows_references (vm_program s') \<and> (\<exists>q. heap_display (heap s') q = None)"
proof -
  let ?i = "vm_program s ! inst_ptr s"
  have live: "inst_ptr s < length (vm_program s)" and e: "exec ovf ?i (fetch s) = (s', Crash NativeStackOverflow)"
    using assms by (auto simp: step_obs_def step_def finish_step_def raise_malformed_def
        split: prod.splits step_result.splits option.splits if_splits flow.splits)
  have "vm_program s' = vm_program s" using exec_frame(3) [of ovf ?i "fetch s"] e by (simp add: fetch_def)
  moreover have "follows_references ?i \<and> (\<exists>q. heap_display (heap s') q = None)"
    using overflow_explained_exec [of ?i ovf "fetch s"] e by (simp add: overflow_explained_def)
  ultimately show ?thesis using live by (auto simp: list_ex_iff)
qed

lemma run_overflow:
  assumes "run ovf s = Some (s', Inl NativeStackOverflow)" "\<not> is_done s"
  shows "list_ex follows_references (vm_program s') \<and> (\<exists>q. heap_display (heap s') q = None)"
  using assms by (induction rule: sol.run_induct) (use step_obs_overflow in blast)+

section \<open>Properties\<close>

text \<open>A run returns: on every machine that is not done, whatever its program, \<open>run\<close> ends with a
  value or a crash of the host process. The fuel check is what makes it so.\<close>

lemma run_returns: "\<not> is_done s \<Longrightarrow> \<exists>s' r. run ovf s = Some (s', r)"
  by (rule sol.returns)

definition spin :: "inst list" where "spin = [Jump 0]"

lemma run_returns_witness: "\<exists>s' r. run True (vm_from spin) = Some (s', r)"
  by (rule run_returns) (simp add: vm_from_def vm_new_def)

text \<open>C37. The step budget is exact: steps taken and fuel left add up to the fuel given, clamped to
  1 .. 10^7, and a run reported as exhausted has taken exactly that many steps and returns the
  sentinel.\<close>

lemma run_spends_fuel:
  assumes "run ovf (with_fuel n (vm_from code)) = Some (s', r)"
  shows "steps_taken s' + fuel s' = max (min n MAX_STEPS_CEILING) 1
    \<and> (\<forall>k. fuel_exhausted_steps s' = Some k \<longrightarrow>
        k = max (min n MAX_STEPS_CEILING) 1 \<and> fuel s' = 0 \<and> r = Inr VM_ERROR_SENTINEL)"
proof -
  let ?s = "with_fuel n (vm_from code)" and ?n = "max (min n MAX_STEPS_CEILING) 1"
  have live: "\<not> is_done ?s" and init: "fuel_inv ?n ?s" and none: "fuel_exhausted_steps ?s = None"
    by (simp_all add: with_fuel_def vm_from_def vm_new_def fuel_inv_def MAX_STEPS_CEILING_def)
  show ?thesis
    using sol_fuel.inv_run [OF assms live init] run_exhausted_sentinel [OF assms live none]
    by (auto simp: fuel_inv_def)
qed

lemma run_spin: "fuel s = n \<Longrightarrow> \<not> is_done s \<Longrightarrow> vm_program s = spin \<Longrightarrow> inst_ptr s = 0 \<Longrightarrow> vm_fault s = None \<Longrightarrow>
  \<exists>s'. run ovf s = Some (s', Inr VM_ERROR_SENTINEL) \<and> fuel_exhausted_steps s' \<noteq> None"
proof (induction n arbitrary: s)
  case 0
  then show ?case by (subst run.simps) (simp add: step_def spin_def exhaust_fuel_def)
next
  case (Suc n)
  let ?t = "fetch s\<lparr>inst_ptr := 0\<rparr>"
  have "step ovf s = (?t, Next None)"
    using Suc.prems by (simp add: step_def spin_def finish_step_def) (simp add: fetch_def)
  moreover have "\<exists>s'. run ovf ?t = Some (s', Inr VM_ERROR_SENTINEL) \<and> fuel_exhausted_steps s' \<noteq> None"
    using Suc.prems by (intro Suc.IH) (simp_all add: fetch_def)
  ultimately show ?case by (subst run.simps) simp
qed

lemma run_spends_fuel_witness:
  "\<exists>s'. run True (with_fuel 50 (vm_from spin)) = Some (s', Inr VM_ERROR_SENTINEL)
    \<and> steps_taken s' = 50 \<and> fuel_exhausted_steps s' = Some 50"
proof -
  obtain s' where s': "run True (with_fuel 50 (vm_from spin)) = Some (s', Inr VM_ERROR_SENTINEL)"
    "fuel_exhausted_steps s' \<noteq> None"
    using run_spin [of "with_fuel 50 (vm_from spin)" 50 True]
    by (auto simp: with_fuel_def vm_from_def vm_new_def MAX_STEPS_CEILING_def)
  then show ?thesis
    using run_spends_fuel [OF s'(1)] by (auto simp: MAX_STEPS_CEILING_def)
qed

text \<open>C29. Whatever the bytecode, a run without overflow checks never panics; the only crash of the
  host left is the unbounded recursion of \<open>heap_display\<close>.\<close>

lemma release_run_no_panic: "run False (with_fuel n (vm_from code)) \<noteq> Some (s', Inl (Panicked m))"
proof
  assume "run False (with_fuel n (vm_from code)) = Some (s', Inl (Panicked m))"
  moreover have "\<not> is_done (with_fuel n (vm_from code))" "stack_inv (with_fuel n (vm_from code))"
    by (simp_all add: with_fuel_def vm_from_def vm_new_def stack_inv_def ALLOC_CEILING_def MAX_STEPS_CEILING_def)
  ultimately show False using run_no_panic by blast
qed

text \<open>Running a machine that is already done never returns: \<open>run\<close> loops on a step that does nothing.\<close>

lemma run_done_diverges: "is_done s \<Longrightarrow> run ovf s = None"
proof (rule ccontr)
  assume d: "is_done s" and "run ovf s \<noteq> None"
  then obtain res where "run ovf s = Some res" by blast
  then have "\<not> is_done s"
  proof (rule run.raw_induct [where P = "\<lambda>ovf s res. \<not> is_done s", rotated])
    fix f ovf s res
    assume IH: "\<And>ovf s res. f ovf s = Some res \<Longrightarrow> \<not> is_done s"
      and eq: "(case step ovf s of (s', Abort c) \<Rightarrow> Some (s', Inl c)
        | (s', Next (Some v)) \<Rightarrow> Some (s', Inr v) | (s', Next None) \<Rightarrow> f ovf s') = Some res"
    show "\<not> is_done s" 
    proof
      assume d: "is_done s"
      with eq have "f ovf s = Some res" by (simp add: step_def)
      from IH [OF this] d show False by simp
    qed
  qed
  with d show False by simp
qed

lemma run_done_diverges_witness: "run True ((vm_from [])\<lparr>is_done := True\<rparr>) = None"
  by (rule run_done_diverges) simp

end
