(* ===== verification/Sol_Heap.thy ===== *)
theory Sol_Heap
  imports Sol_Vm_Props
begin

text \<open>
  The collections and the remote calls of the machine seen from the language: the map builtins obey
  the laws of a finite map (locale \<open>key_value\<close>, interpreted on the machine's pair lists), lists and
  maps are never changed in place, \<open>list_join\<close> undoes \<open>list_split\<close>, and a failed remote call ends
  in the nearest handler.
\<close>

section \<open>Maps\<close>

text \<open>What a client of a key-value store relies on.\<close>

locale key_value =
  fixes look :: "'m \<Rightarrow> 'k \<Rightarrow> 'v option"
    and put :: "'k \<Rightarrow> 'v \<Rightarrow> 'm \<Rightarrow> 'm"
    and del :: "'k \<Rightarrow> 'm \<Rightarrow> 'm"
  assumes look_put: "look (put k v m) = (look m)(k \<mapsto> v)"
    and look_del: "look (del k m) = (look m)(k := None)"
begin

lemma look_put_same: "look (put k v m) k = Some v"
  by (simp add: look_put)

lemma look_del_put: "look (del k (put k v m)) = (look m)(k := None)"
  by (simp add: look_put look_del)

lemma put_twice: "look (put k w (put k v m)) = look (put k w m)"
  by (simp add: look_put)

lemma put_commute: "k \<noteq> l \<Longrightarrow> look (put k v (put l w m)) = look (put l w (put k v m))"
  by (simp add: look_put fun_upd_twist)

end

text \<open>A store that also lists its keys.\<close>

locale keyed_store = key_value +
  fixes keys :: "'a \<Rightarrow> 'b list"
  assumes keys_look: "set (keys m) = dom (look m)"
begin

lemma keys_put: "set (keys (put k v m)) = insert k (set (keys m))"
  by (simp add: keys_look look_put)

lemma keys_del: "set (keys (del k m)) = set (keys m) - {k}"
  by (auto simp: keys_look look_del)

end

lemma map_of_set_pair: "map_of (set_pair k v ps) = (map_of ps)(k \<mapsto> v)"
  by (induction ps) auto

lemma map_of_del_pair: "map_of (del_pair k ps) = (map_of ps)(k := None)"
  by (induction ps) (auto simp: del_pair_def)

interpretation pairs: keyed_store map_of set_pair del_pair "map fst"
  by unfold_locales (simp_all add: map_of_set_pair map_of_del_pair dom_map_of_conv_image_fst)

text \<open>Updating keeps the keys distinct and in place; a new key goes at the end.\<close>

lemma keys_set_pair:
  "map fst (set_pair k v ps) = (if k \<in> fst ` set ps then map fst ps else map fst ps @ [k])"
  by (induction ps) (auto, force)

section \<open>The heap grows at its end\<close>

lemma heap_pop [simp, frame_simps]:
  "heap (snd (pop s)) = heap s" "heap (push v s) = heap s" "heap (record_fault m s) = heap s"
  "heap (fst (try_dispatch_error s)) = heap s" "heap (push_obj b s) = heap s @ [b]"
  by (auto simp: pop_def push_def record_fault_def try_dispatch_error_def push_obj_def vpush_def
      split: option.splits list.splits)

lemma heap_push_strings [simp]: "\<exists>obs. heap (push_strings ts s) = heap s @ obs"
  by (simp add: push_strings_def Let_def)

definition extends_heap :: "vm \<Rightarrow> vm \<times> flow \<Rightarrow> bool" where
  "extends_heap s r \<longleftrightarrow> (\<exists>obs. heap (fst r) = heap s @ obs)"

lemma extends_heap_coll: "extends_heap s (exec_coll c s)"
  by (cases c)
    (simp_all add: coll_defs extends_heap_def case_prod_beta Let_def push_strings_def split: obj_splits)


text \<open>A new object is at the reference pushed for it, as long as references fit in 64 bits.\<close>

lemma push_obj_snoc:
  assumes "length (heap s) < 2 ^ 64"
  obtains r where "push_obj b s = s\<lparr>heap := heap s @ [b], stack := stack s @ [r]\<rparr>"
    "unat r = length (heap s)"
proof
  show "push_obj b s = s\<lparr>heap := heap s @ [b], stack := stack s @ [of_nat (length (heap s))]\<rparr>"
    by (simp add: push_obj_def push_def vpush_def)
  show "unat (of_nat (length (heap s)) :: u64) = length (heap s)"
    using assms by (simp add: unsigned_of_nat take_bit_nat_eq_self)
qed

lemma hget_append: "hget s r = Some b \<Longrightarrow> heap t = heap s @ obs \<Longrightarrow> hget t r = Some b"
  by (auto simp: hget_def vget_def nth_append split: if_splits)

text \<open>\<open>map_set(m, k, v)\<close>: the result is a new map that agrees with \<open>m\<close> except at \<open>k\<close>, where it
  has \<open>v\<close>; an existing key keeps its position, a new key goes last; every object there was is
  still there.\<close>

lemma map_set_spec:
  assumes "stack s = st @ [m, k, v]" "hget s k = Some (HString key)" "length (heap s) < 2 ^ 64"
  obtains s' m' where "exec ovf (Coll MapSet) s = (s', Fall)" "stack s' = st @ [m']"
    "map_of (pairs_of s' m') = (map_of (pairs_of s m))(key \<mapsto> v)"
    "map fst (pairs_of s' m') = (if key \<in> fst ` set (pairs_of s m) then map fst (pairs_of s m)
      else map fst (pairs_of s m) @ [key])"
    "\<forall>r b. hget s r = Some b \<longrightarrow> hget s' r = Some b"
proof -
  let ?t = "s\<lparr>stack := st\<rparr>" and ?ps = "set_pair key v (pairs_of s m)"
  have key: "hstring_or_empty ?t k = key" and ps: "pairs_of ?t m = pairs_of s m"
    using assms(2) by (simp_all add: hstring_or_empty_def pairs_of_def hget_def)
  obtain r where r: "push_obj (HMap ?ps) ?t = ?t\<lparr>heap := heap ?t @ [HMap ?ps], stack := st @ [r]\<rparr>"
    "unat r = length (heap ?t)"
    using push_obj_snoc [of ?t "HMap ?ps"] assms(3) by auto
  let ?u = "?t\<lparr>heap := heap ?t @ [HMap ?ps], stack := st @ [r]\<rparr>"
  have "pairs_of ?u r = ?ps" using r(2) by (simp add: pairs_of_def hget_def vget_def)
  moreover have "exec ovf (Coll MapSet) s = (?u, Fall)"
    using assms(1) key ps r
    by (simp add: exec_map_set_def pop_snoc [of _ "st @ [m, k]"] pop_snoc [of _ "st @ [m]"] pop_snoc [of _ st])
  moreover have "hget ?u q = Some b" if "hget s q = Some b" for q b
    using that hget_append [of s q b ?u] by simp
  ultimately show ?thesis
    using that [of ?u r] by (simp add: map_of_set_pair keys_set_pair)
qed


definition map_machine :: vm where
  "map_machine = (vm_from [])\<lparr>heap := [HMap [], HString ''k''], stack := [0, 1, 7]\<rparr>"

lemma map_set_spec_witness:
  "\<exists>s' m'. exec True (Coll MapSet) map_machine = (s', Fall) \<and> stack s' = [m']
      \<and> map_of (pairs_of s' m') ''k'' = Some 7"
proof -
  have "stack map_machine = [] @ [0, 1, 7]" "hget map_machine 1 = Some (HString ''k'')"
    "length (heap map_machine) < 2 ^ 64"
    by (simp_all add: map_machine_def hget_def vget_def)
  then show ?thesis
    by (rule map_set_spec [where ovf = True]) (intro exI conjI, assumption, simp, simp)
qed

section \<open>Splitting and joining\<close>

lemma those_map_Some: "\<forall>x \<in> set xs. f x = Some (g x) \<Longrightarrow> those (map f xs) = Some (map g xs)"
  by (induction xs) simp_all

lemma heap_display_string: "hget s r = Some (HString t) \<Longrightarrow> heap_display (heap s) r = Some t"
  by (simp add: heap_display_def hget_def)

lemma push_strings_snoc:
  assumes "length (heap s) + length ts < 2 ^ 64"
  obtains r rs where "stack (push_strings ts s) = stack s @ [r]" "hget (push_strings ts s) r = Some (HList rs)"
    "map (hget (push_strings ts s)) rs = map (Some \<circ> HString) ts"
    "\<And>q b. hget s q = Some b \<Longrightarrow> hget (push_strings ts s) q = Some b"
proof
  let ?n = "length (heap s)" and ?u = "push_strings ts s"
  let ?r = "of_nat (?n + length ts) :: u64" and ?rs = "map of_nat [?n ..< ?n + length ts] :: u64 list"
  have heap: "heap ?u = heap s @ map HString ts @ [HList ?rs]"
    by (simp add: push_strings_def Let_def)
  have small: "unat (of_nat i :: u64) = i" if "i \<le> ?n + length ts" for i
    using assms that by (simp add: unsigned_of_nat take_bit_nat_eq_self)
  show "stack ?u = stack s @ [?r]"
    by (simp add: push_strings_def Let_def push_obj_def push_def vpush_def)
  show "hget ?u ?r = Some (HList ?rs)"
    using small [of "?n + length ts"] by (simp add: hget_def vget_def heap nth_append)
  show "map (hget ?u) ?rs = map (Some \<circ> HString) ts"
  proof (rule nth_equalityI)
    fix i assume "i < length (map (hget ?u) ?rs)"
    then have i: "i < length ts" by simp
    then have "unat (of_nat (?n + i) :: u64) = ?n + i" by (intro small) simp
    with i show "map (hget ?u) ?rs ! i = map (Some \<circ> HString) ts ! i"
      by (simp add: hget_def vget_def heap nth_append del: of_nat_add)
  qed simp
  show "hget ?u q = Some b" if "hget s q = Some b" for q b
    using that hget_append [OF that, of ?u] heap by simp
qed

lemma those_hget:
  "map (hget s) rs = map (Some \<circ> HString) ts \<Longrightarrow> those (map (heap_display (heap s)) rs) = Some ts"
  by (induction rs arbitrary: ts) (auto simp: heap_display_string Cons_eq_map_conv)

text \<open>Splitting a string at a non-empty separator and joining the parts with it gives the string
  back.\<close>

lemma split_join:
  assumes "stack s = st @ [t, p]" "hget s t = Some (HString str)" "hget s p = Some (HString sep)"
    and "sep \<noteq> []" "length (heap s) + length (str_split sep str) < 2 ^ 63"
  obtains s1 l s2 j where "exec ovf (Coll ListSplit) s = (s1, Fall)" "stack s1 = st @ [l]"
    "exec ovf (Coll ListJoin) (push p s1) = (s2, Fall)" "stack s2 = st @ [j]"
    "hget s2 j = Some (HString str)"
proof -
  let ?t = "s\<lparr>stack := st\<rparr>" and ?ts = "str_split sep str"
  let ?s1 = "push_strings ?ts ?t"
  have strs: "hstring_or_empty ?t t = str" "hstring_or_empty ?t p = sep"
    using assms(2,3) by (simp_all add: hstring_or_empty_def hget_def)
  have len: "length (heap ?t) + length ?ts < 2 ^ 64" using assms(5) by simp
  obtain l rs where l: "stack ?s1 = stack ?t @ [l]" "hget ?s1 l = Some (HList rs)"
    "map (hget ?s1) rs = map (Some \<circ> HString) ?ts" "\<And>q b. hget ?t q = Some b \<Longrightarrow> hget ?s1 q = Some b"
    using push_strings_snoc [OF len] by blast
  have split: "exec ovf (Coll ListSplit) s = (?s1, Fall)"
    using assms(1,4) strs by (simp add: exec_list_split_def pop_snoc [of _ "st @ [t]"] pop_snoc [of _ st])
  let ?v = "?s1\<lparr>stack := st\<rparr>"
  have p: "hstring_or_empty ?v p = sep"
    using l(4) [of p] assms(3) by (simp add: hstring_or_empty_def hget_def)
  have items: "items_of ?v l = rs" using l(2) by (simp add: items_of_def hget_def)
  have parts: "those (map (heap_display (heap ?v)) rs) = Some ?ts" using those_hget [OF l(3)] by simp
  have heap: "length (heap ?v) < 2 ^ 64"
    using assms(5) by (simp add: push_strings_def Let_def)
  obtain j where j: "push_obj (HString str) ?v = ?v\<lparr>heap := heap ?v @ [HString str], stack := st @ [j]\<rparr>"
    "unat j = length (heap ?v)"
    using push_obj_snoc [OF heap] by auto
  have "stack (push p ?s1) = st @ [l, p]" using l(1) by (simp add: push_stack)
  then have "exec ovf (Coll ListJoin) (push p ?s1) = (push_obj (HString (join sep ?ts)) ?v, Fall)"
    using items parts p
    by (simp add: exec_list_join_def pop_snoc [of _ "st @ [l]"] pop_snoc [of _ st] push_stack)
  then have "exec ovf (Coll ListJoin) (push p ?s1) = (?v\<lparr>heap := heap ?v @ [HString str], stack := st @ [j]\<rparr>, Fall)"
    using j(1) by (simp add: join_str_split)
  moreover have "hget (?v\<lparr>heap := heap ?v @ [HString str], stack := st @ [j]\<rparr>) j = Some (HString str)"
    using j(2) by (simp add: hget_def vget_def)
  ultimately show ?thesis
    using split l(1) that [of ?s1 l _ j] by simp
qed

lemma split_join_witness:
  "\<exists>s1 l s2 j. exec True (Coll ListSplit)
        ((vm_from [])\<lparr>heap := [HString ''a,b'', HString '',''], stack := [0, 1]\<rparr>) = (s1, Fall)
      \<and> exec True (Coll ListJoin) (push 1 s1) = (s2, Fall) \<and> stack s2 = [j]
      \<and> hget s2 j = Some (HString ''a,b'')"
  by (rule split_join [where s = "(vm_from [])\<lparr>heap := [HString ''a,b'', HString '',''], stack := [0, 1]\<rparr>"
        and st = "[]" and t = 0 and p = 1 and str = "''a,b''" and sep = "'',''" and ovf = True])
    (auto simp: hget_def vget_def str_split_def split_aux.simps is_prefix_def)

section \<open>Remote calls\<close>

definition call_args :: "vm \<Rightarrow> u64 list \<Rightarrow> string \<Rightarrow> string \<Rightarrow> string \<Rightarrow> bool" where
  "call_args s st peer mthd arg \<longleftrightarrow>
     (\<exists>p m a. stack s = st @ [p, m, a] \<and> hget s p = Some (HString peer) \<and>
        hget s m = Some (HString mthd) \<and> hget s a = Some (HString arg))"

lemma exec_remote_call_args:
  assumes "call_args s st peer mthd arg" "vm_dispatcher s = Some d"
  shows "exec_remote_call s = finish_call (remote_call d (effects s) peer mthd arg)
    (emit (Called peer mthd arg) (s\<lparr>stack := st\<rparr>))"
proof -
  obtain p m a where st: "stack s = st @ [p, m, a]" "hget s p = Some (HString peer)"
    "hget s m = Some (HString mthd)" "hget s a = Some (HString arg)"
    using assms(1) by (auto simp: call_args_def)
  then show ?thesis
    using assms(2)
    by (simp add: exec_remote_call_def pop_snoc [of _ "st @ [p, m]"] pop_snoc [of _ "st @ [p]"]
        pop_snoc [of _ st] hget_def)
qed

text \<open>A remote call that fails: the call is made once, its error is remembered, and control goes to
  the innermost handler with the stack and frame pointer of its \<open>try\<close>; without one the machine
  halts with the error sentinel.\<close>

lemma remote_call_fails:
  assumes "call_args s st peer mthd arg" "vm_dispatcher s = Some d"
    and "remote_call d (effects s) peer mthd arg = Inl e"
  obtains s' where "effects s' = effects s @ [Called peer mthd arg]" "last_error s' = Some e"
    "heap s' = heap s"
    "case try_handlers s of
       [] \<Rightarrow> exec ovf RemoteCall s = (s', Return (Some VM_ERROR_SENTINEL)) \<and> is_done s'
     | h # hs \<Rightarrow> exec ovf RemoteCall s = (s', Fall) \<and> inst_ptr s' = catch_pc h \<and> fp s' = fp_at_enter h
         \<and> stack s' = take (stack_len_at_enter h) st \<and> try_handlers s' = hs"
  using assms exec_remote_call_args [OF assms(1,2)]
  by (cases "try_handlers s")
    (auto simp: finish_call_def raise_error_def try_dispatch_error_def emit_def)

definition refusal :: remote_call_error where
  "refusal = \<lparr>err_kind = 6, err_peer = ''p'', err_method = ''m'', err_cause = ''denied''\<rparr>"

definition refusing :: dispatcher where
  "refusing = \<lparr>remote_call = (\<lambda>_ _ _ _. Inl refusal), remote_call_stream = default_stream (\<lambda>_ _ _ _. Inl refusal)\<rparr>"

lemma remote_call_fails_witness:
  "\<exists>s'. exec True RemoteCall (with_dispatcher refusing
        ((vm_from [])\<lparr>heap := [HString ''p''], stack := [0, 0, 0]\<rparr>)) = (s', Return (Some VM_ERROR_SENTINEL))
      \<and> last_error s' = Some refusal"
  by (rule remote_call_fails [where ovf = True and st = "[]" and d = refusing and e = refusal
        and peer = "''p''" and mthd = "''p''" and arg = "''p''"
        and s = "with_dispatcher refusing ((vm_from [])\<lparr>heap := [HString ''p''], stack := [0, 0, 0]\<rparr>)"])
    (auto simp: call_args_def hget_def vget_def with_dispatcher_def refusing_def vm_from_def vm_new_def)

section \<open>Properties\<close>

text \<open>Lists and maps are values: no list or map instruction changes an object of the heap, it only
  appends new ones.\<close>

lemma collections_persistent:
  assumes "hget s r = Some b"
  shows "hget (fst (exec ovf (Coll c) s)) r = Some b"
  using extends_heap_coll [of s c] hget_append [OF assms] by (auto simp: extends_heap_def)

lemma collections_persistent_witness: "hget (fst (exec True (Coll MapSet) map_machine)) 0 = Some (HMap [])"
  by (rule collections_persistent) (simp add: map_machine_def hget_def vget_def)

end
