(* ===== verification/Sol_Symbol.thy ===== *)
theory Sol_Symbol
  imports Sol_Ast
begin

text \<open>
  The symbol tables the analyzer builds and the code generator reads (\<open>Symbol\<close>, \<open>TypeTable\<close> of
  \<open>sol/analyzer.rs\<close>). A table is a \<open>HashMap\<close> from names to symbols, written as an association list
  with distinct names; \<open>Box\<close> is transparent.
\<close>

datatype symbol =
    SymVariable ty
  | SymEnum "(string \<times> int) list"
  | SymStruct "(string \<times> ty) list"

type_synonym type_table = "(string \<times> symbol) list"

text \<open>The types of the variables in the tables that bind a name, in the order of the tables.\<close>

definition variable_type :: "string \<Rightarrow> type_table \<Rightarrow> ty option" where
  "variable_type name table =
     (case map_of table name of Some (SymVariable kind) \<Rightarrow> Some kind | _ \<Rightarrow> None)"

fun first_variable_type :: "string \<Rightarrow> type_table list \<Rightarrow> ty option" where
  "first_variable_type name [] = None"
| "first_variable_type name (t # ts) =
     (case variable_type name t of Some kind \<Rightarrow> Some kind | None \<Rightarrow> first_variable_type name ts)"

definition last_variable_type :: "string \<Rightarrow> type_table list \<Rightarrow> ty option" where
  "last_variable_type name tables = first_variable_type name (rev tables)"

section \<open>Children of a node are smaller\<close>

lemma size_elem: "x \<in> set xs \<Longrightarrow> size x \<le> size_list size xs"
  by (rule size_list_estimation') auto

lemma size_snd: "(k, x) \<in> set ps \<Longrightarrow> size x \<le> size_list (size_prod (\<lambda>_. 0) size) ps"
  by (rule size_list_estimation' [of "(k, x)"]) auto

end
