(* ===== verification/Sol_Bytecode.thy ===== *)
theory Sol_Bytecode
  imports Sol_Symbol Sol_Inst "HOL-Library.List_Lexorder" "HOL-Library.Char_ord"
begin

text \<open>
  The code generator (\<open>Codegen\<close> of \<open>sol/bytecode.rs\<close>). Its state is the record \<open>codegen\<close>, to which
  the instruction vector \<open>insts\<close> that the source passes along is added. A piece of generation is a
  \<open>code\<close>: a function from the state to the next state, or to the message of a panic. The source's
  one \<open>match\<close> over the syntax is cut into one definition per kind of node (\<open>gen_if\<close>, \<open>gen_for\<close>, \<dots>),
  which take the generators of the node's children; \<open>compile\<close> ties them together.
\<close>

section \<open>State\<close>

record codegen =
  type_tables :: "type_table list"
  locals :: "string \<Rightarrow> (nat \<times> ty) option"
  next_slot :: nat
  active_scopes :: "(string \<times> ty) list list"
  fn_addrs :: "string \<Rightarrow> nat option"
  fn_returns :: "string \<Rightarrow> ty option"
  struct_layouts :: "string \<Rightarrow> (string \<times> ty) list option"
  for_loop_counter :: nat
  pending_calls :: "(nat \<times> string) list"
  insts :: "inst list"

definition codegen_from :: "type_table list \<Rightarrow> codegen" where
  "codegen_from tables =
     \<lparr>type_tables = tables, locals = Map.empty, next_slot = 0, active_scopes = [],
      fn_addrs = Map.empty, fn_returns = Map.empty, struct_layouts = Map.empty,
      for_loop_counter = 0, pending_calls = [], insts = []\<rparr>"

type_synonym code = "codegen \<Rightarrow> string + codegen"

fun seq :: "code list \<Rightarrow> code" where
  "seq [] g = Inr g"
| "seq (c # cs) g = (case c g of Inl e \<Rightarrow> Inl e | Inr g' \<Rightarrow> seq cs g')"

definition push_inst :: "inst \<Rightarrow> code" where
  "push_inst i g = Inr (g\<lparr>insts := vpush (insts g) i\<rparr>)"

definition push_insts :: "inst list \<Rightarrow> code" where
  "push_insts is g = Inr (g\<lparr>insts := insts g @ is\<rparr>)"

definition modify :: "(codegen \<Rightarrow> codegen) \<Rightarrow> code" where
  "modify f g = Inr (f g)"

text \<open>\<open>let idx = insts.len()\<close>, and a read of the state.\<close>

definition here :: "(nat \<Rightarrow> code) \<Rightarrow> code" where
  "here f g = f (length (insts g)) g"

definition asks :: "(codegen \<Rightarrow> 'a) \<Rightarrow> ('a \<Rightarrow> code) \<Rightarrow> code" where
  "asks r f g = f (r g) g"

definition patch :: "nat \<Rightarrow> inst \<Rightarrow> code" where
  "patch idx i g = Inr (g\<lparr>insts := (insts g)[idx := i]\<rparr>)"

section \<open>Scopes and locals\<close>

definition scope_from :: "codegen \<Rightarrow> nat \<Rightarrow> (string \<times> ty) list" where
  "scope_from g scope_id =
     (if scope_id < length (type_tables g)
      then List.map_filter
             (\<lambda>(name, symb). case symb of SymVariable kind \<Rightarrow> Some (name, kind) | _ \<Rightarrow> None)
             (type_tables g ! scope_id)
      else [])"

definition push_scope :: "nat \<Rightarrow> code" where
  "push_scope scope_id = modify (\<lambda>g.
     if scope_id < length (type_tables g)
     then g\<lparr>active_scopes := vpush (active_scopes g) (scope_from g scope_id)\<rparr> else g)"

definition pop_scope :: "nat \<Rightarrow> code" where
  "pop_scope scope_id = modify (\<lambda>g.
     if scope_id < length (type_tables g)
     then g\<lparr>active_scopes := (case vpop (active_scopes g) of Some (_, ss) \<Rightarrow> ss | None \<Rightarrow> [])\<rparr> else g)"

definition new_local :: "string \<Rightarrow> ty \<Rightarrow> codegen \<Rightarrow> codegen" where
  "new_local name kind g =
     g\<lparr>locals := (locals g)(name \<mapsto> (next_slot g, kind)), next_slot := Suc (next_slot g)\<rparr>"

definition get_or_create_local :: "string \<Rightarrow> ty \<Rightarrow> codegen \<Rightarrow> int \<times> codegen" where
  "get_or_create_local name kind g =
     (case locals g name of
        Some (slot, _) \<Rightarrow> (int slot, g)
      | None \<Rightarrow> (int (next_slot g), new_local name kind g))"

definition find_local_offset :: "string \<Rightarrow> codegen \<Rightarrow> int \<times> codegen" where
  "find_local_offset name g =
     (case locals g name of
        Some (slot, _) \<Rightarrow> (int slot, g)
      | None \<Rightarrow>
          (let resolved_type = (case last_variable_type name (type_tables g) of
                                  Some kind \<Rightarrow> kind | None \<Rightarrow> TyInteger)
           in (int (next_slot g), new_local name resolved_type g)))"

text \<open>\<open>locals.retain(|_, (slot, _)| *slot < saved_next); next_slot = saved_next\<close>\<close>

definition drop_locals :: "nat \<Rightarrow> code" where
  "drop_locals saved_next = modify (\<lambda>g.
     g\<lparr>locals := (\<lambda>n. case locals g n of
                    Some (slot, kind) \<Rightarrow> if slot < saved_next then Some (slot, kind) else None
                  | None \<Rightarrow> None),
       next_slot := saved_next\<rparr>)"

text \<open>\<open>insts.push(Inst::StoreLocal(self.find_local_offset(name)))\<close> and its relatives.\<close>

definition declare_local :: "string \<Rightarrow> ty \<Rightarrow> code" where
  "declare_local name kind = modify (\<lambda>g. snd (get_or_create_local name kind g))"

definition load_var :: "string \<Rightarrow> code" where
  "load_var name g = (case find_local_offset name g of (offset, g') \<Rightarrow> push_inst (LoadLocal offset) g')"

definition store_var :: "string \<Rightarrow> code" where
  "store_var name g = (case find_local_offset name g of (offset, g') \<Rightarrow> push_inst (StoreLocal offset) g')"

section \<open>Types of expressions\<close>

definition field_type :: "codegen \<Rightarrow> ty \<Rightarrow> string \<Rightarrow> ty option" where
  "field_type g lhs_type member =
     (case lhs_type of
        TyIdent struct_name \<Rightarrow>
          (case struct_layouts g struct_name of Some layout \<Rightarrow> map_of layout member | None \<Rightarrow> None)
      | _ \<Rightarrow> None)"

definition call_type :: "codegen \<Rightarrow> string \<Rightarrow> ty" where
  "call_type g name =
     (if name = ''remote_call'' then TyString
      else if name = ''remote_call_stream'' then TyString
      else if name = ''error_kind'' \<or> name = ''error_cause'' then TyString
      else if name = ''error_retry_hint'' then TyInteger
      else if name = ''last_confidence'' then TyFloat
      else if name \<in> {''list_len'', ''map_len''} then TyInteger
      else if name \<in> {''list_get'', ''list_join'', ''map_get''} then TyString
      else if name \<in> {''list_contains'', ''map_has''} then TyBool
      else if name \<in> {''list_push'', ''list_split'', ''map_keys'', ''list_get_list''} then TyList
      else if name \<in> {''map_set'', ''map_del'', ''map_get_map''} then TyMap
      else (case fn_returns g name of Some kind \<Rightarrow> kind | None \<Rightarrow> TyInteger))"

fun infer_type :: "codegen \<Rightarrow> ast \<Rightarrow> ty" where
  "infer_type g (ExprInteger _) = TyInteger"
| "infer_type g (ExprFloat _) = TyFloat"
| "infer_type g (ExprChar _) = TyChar"
| "infer_type g (ExprString _) = TyString"
| "infer_type g (ExprBool _) = TyBool"
| "infer_type g (ExprVar name) =
     (case locals g name of
        Some (_, kind) \<Rightarrow> kind
      | None \<Rightarrow>
          (case first_variable_type name (type_tables g) of Some kind \<Rightarrow> kind | None \<Rightarrow> TyInteger))"
| "infer_type g (ExprMemAcc lhs member) =
     (case field_type g (infer_type g lhs) member of Some kind \<Rightarrow> kind | None \<Rightarrow> TyInteger)"
| "infer_type g (ExprBinary lhs rhs _) =
     (let lt = infer_type g lhs; rt = infer_type g rhs
      in if lt = TyFloat then TyFloat else if rt = TyFloat then TyFloat else lt)"
| "infer_type g (ExprUnary child _) = infer_type g child"
| "infer_type g (ExprArrAcc lhs _) =
     (case infer_type g lhs of TyArray _ inner \<Rightarrow> inner | _ \<Rightarrow> TyInteger)"
| "infer_type g (ExprFuncCall name _) = call_type g name"
| "infer_type g _ = TyInteger"

definition display_type :: "codegen \<Rightarrow> ast \<Rightarrow> ty" where
  "display_type g node =
     (case node of
        ExprBinary _ _ op \<Rightarrow>
          (if get_kind op \<in> {K EqEq, K BangEq, K MoreThan, K LessThan, K MoreEq, K LessEq,
                              K PipePipe, K AmpAmp}
           then TyInteger else infer_type g node)
      | ExprUnary _ op \<Rightarrow> (if get_kind op = K Bang then TyInteger else infer_type g node)
      | _ \<Rightarrow> infer_type g node)"

section \<open>Operators\<close>

text \<open>The instructions \<open>emit_binary_op\<close> appends, by the type of the operands.\<close>

definition float_op :: "token_kind \<Rightarrow> inst list" where
  "float_op k =
     (case k of
        K p \<Rightarrow>
          (case p of
             Plus \<Rightarrow> [Alu FloatAdd] | Dash \<Rightarrow> [Alu FloatSub] | Star \<Rightarrow> [Alu FloatMul]
           | Slash \<Rightarrow> [Alu FloatDiv] | EqEq \<Rightarrow> [Alu FloatEq] | BangEq \<Rightarrow> [Alu FloatNeq]
           | MoreThan \<Rightarrow> [Alu FloatGt] | LessThan \<Rightarrow> [Alu FloatLt]
           | MoreEq \<Rightarrow> [Alu FloatGte] | LessEq \<Rightarrow> [Alu FloatLte]
           | _ \<Rightarrow> [])
      | _ \<Rightarrow> [])"

definition char_op :: "token_kind \<Rightarrow> inst list" where
  "char_op k =
     (case k of
        K p \<Rightarrow>
          (case p of
             EqEq \<Rightarrow> [Alu CharEq] | BangEq \<Rightarrow> [Alu CharNeq] | MoreThan \<Rightarrow> [Alu CharGt]
           | LessThan \<Rightarrow> [Alu CharLt] | MoreEq \<Rightarrow> [Alu CharGte] | LessEq \<Rightarrow> [Alu CharLte]
           | _ \<Rightarrow> [])
      | _ \<Rightarrow> [])"

definition string_op :: "token_kind \<Rightarrow> inst list" where
  "string_op k =
     (case k of
        K p \<Rightarrow>
          (case p of
             Plus \<Rightarrow> [ConcatStr] | EqEq \<Rightarrow> [EqStr] | BangEq \<Rightarrow> [EqStr, Alu LogNot] | _ \<Rightarrow> [])
      | _ \<Rightarrow> [])"

definition int_op :: "token_kind \<Rightarrow> inst list" where
  "int_op k =
     (case k of
        K p \<Rightarrow>
          (case p of
             Plus \<Rightarrow> [Alu IntAdd] | Dash \<Rightarrow> [Alu IntSub] | Star \<Rightarrow> [Alu IntMul]
           | Slash \<Rightarrow> [Alu IntDiv] | EqEq \<Rightarrow> [Alu IntEq] | BangEq \<Rightarrow> [Alu IntNeq]
           | MoreThan \<Rightarrow> [Alu IntGt] | LessThan \<Rightarrow> [Alu IntLt]
           | MoreEq \<Rightarrow> [Alu IntGte] | LessEq \<Rightarrow> [Alu IntLte]
           | PipePipe \<Rightarrow> [Alu LogOr] | AmpAmp \<Rightarrow> [Alu LogAnd]
           | Caret \<Rightarrow> [Alu BitXor] | Ampersand \<Rightarrow> [Alu BitAnd] | Pipe \<Rightarrow> [Alu BitOr]
           | LShift \<Rightarrow> [Alu BitLShift] | RShift \<Rightarrow> [Alu BitRShift]
           | _ \<Rightarrow> [])
      | _ \<Rightarrow> [])"

definition emit_binary_op :: "token \<Rightarrow> ty \<Rightarrow> code" where
  "emit_binary_op op kind =
     push_insts (case kind of
              TyFloat \<Rightarrow> float_op (get_kind op)
            | TyChar \<Rightarrow> char_op (get_kind op)
            | TyString \<Rightarrow> string_op (get_kind op)
            | _ \<Rightarrow> int_op (get_kind op))"

section \<open>Statements\<close>

definition gen_decl_var :: "string \<Rightarrow> ty \<Rightarrow> code option \<Rightarrow> code" where
  "gen_decl_var name kind init =
     (case init of
        Some c \<Rightarrow> seq [c, declare_local name kind, store_var name]
      | None \<Rightarrow> declare_local name kind)"

definition gen_assign :: "string \<Rightarrow> code \<Rightarrow> code" where
  "gen_assign name c = seq [c, push_inst Dup, store_var name]"

text \<open>The statements of a block, each with \<open>is_expression_node\<close>: the value of an expression is dropped.\<close>

definition gen_stmts :: "(bool \<times> code) list \<Rightarrow> code" where
  "gen_stmts cs = seq (map (\<lambda>(is_expr, c). if is_expr then seq [c, push_inst Pop] else c) cs)"

definition gen_block :: "(bool \<times> code) list \<Rightarrow> nat \<Rightarrow> code" where
  "gen_block cs scope_id =
     seq [push_scope scope_id,
          asks next_slot (\<lambda>saved_next. seq [gen_stmts cs, drop_locals saved_next]),
          pop_scope scope_id]"

definition gen_if :: "code \<Rightarrow> code \<Rightarrow> code option \<Rightarrow> code" where
  "gen_if condition body alt =
     seq [condition,
          here (\<lambda>jump_false_idx. seq
            [push_inst (JumpFalse 0),
             body,
             (case alt of
                Some else_branch \<Rightarrow>
                  here (\<lambda>jump_end_idx. seq
                    [push_inst (Jump 0),
                     here (\<lambda>else_start. patch jump_false_idx (JumpFalse else_start)),
                     else_branch,
                     here (\<lambda>end_idx. patch jump_end_idx (Jump end_idx))])
              | None \<Rightarrow> here (\<lambda>end_idx. patch jump_false_idx (JumpFalse end_idx)))])]"

definition gen_while :: "code \<Rightarrow> code \<Rightarrow> code" where
  "gen_while condition body =
     here (\<lambda>loop_start. seq
       [condition,
        here (\<lambda>jump_false_idx. seq
          [push_inst (JumpFalse 0),
           body,
           push_inst (Jump loop_start),
           here (\<lambda>loop_end. patch jump_false_idx (JumpFalse loop_end))])])"

definition for_ops :: "ty \<Rightarrow> inst \<times> inst \<times> ty" where
  "for_ops array_type =
     (case array_type of
        TyArray _ inner \<Rightarrow> (ArrayLen, GetElem, inner)
      | TyList \<Rightarrow> (Coll ListLen, Coll ListGet, TyString)
      | _ \<Rightarrow> (ArrayLen, GetElem, TyInteger))"

definition gen_for :: "string \<Rightarrow> ast \<Rightarrow> code \<Rightarrow> code \<Rightarrow> code" where
  "gen_for elem_name array array_code body =
     asks next_slot (\<lambda>saved_next.
     asks (\<lambda>g. for_ops (infer_type g array)) (\<lambda>(len_op, get_op, elem_type).
     asks for_loop_counter (\<lambda>counter.
       let arr_slot = ''__for_arr_'' @ show_nat counter;
           idx_slot = ''__for_idx_'' @ show_nat counter;
           len_slot = ''__for_len_'' @ show_nat counter
       in seq
         [declare_local elem_name elem_type,
          modify (\<lambda>g. g\<lparr>for_loop_counter := Suc (for_loop_counter g)\<rparr>),
          array_code, declare_local arr_slot TyInteger, store_var arr_slot,
          load_var arr_slot, push_inst len_op, declare_local len_slot TyInteger, store_var len_slot,
          push_inst (PushConst (ExprInteger 0)), declare_local idx_slot TyInteger, store_var idx_slot,
          here (\<lambda>loop_start. seq
            [load_var idx_slot, load_var len_slot, push_inst (Alu IntLt),
             here (\<lambda>jump_false_idx. seq
               [push_inst (JumpFalse 0),
                load_var arr_slot, load_var idx_slot, push_inst get_op, store_var elem_name,
                body,
                load_var idx_slot, push_inst (PushConst (ExprInteger 1)), push_inst (Alu IntAdd), store_var idx_slot,
                push_inst (Jump loop_start),
                here (\<lambda>loop_end. patch jump_false_idx (JumpFalse loop_end))])]),
          drop_locals saved_next])))"

text \<open>
  The catch clauses of a \<open>try\<close>, with the indices of the jumps to the end so far; the tail receives
  all of them.
\<close>

fun gen_catches :: "(string \<times> code) list \<Rightarrow> nat list \<Rightarrow> (nat list \<Rightarrow> code) \<Rightarrow> code" where
  "gen_catches [] jump_to_end tail = tail jump_to_end"
| "gen_catches ((kind, catch_body) # catches) jump_to_end tail =
     (if kind = ''any''
      then seq [catch_body,
                here (\<lambda>j. seq [push_inst (Jump 0), gen_catches catches (jump_to_end @ [j]) tail])]
      else seq [push_inst (PushConst (ExprString kind)), push_inst LoadErrorKind, push_inst EqStr,
                here (\<lambda>jump_skip_idx. seq
                  [push_inst (JumpFalse 0),
                   catch_body,
                   here (\<lambda>j. seq
                     [push_inst (Jump 0),
                      here (\<lambda>skip_pc. patch jump_skip_idx (JumpFalse skip_pc)),
                      gen_catches catches (jump_to_end @ [j]) tail])])])"

definition gen_try :: "code \<Rightarrow> (string \<times> code) list \<Rightarrow> code" where
  "gen_try body catches =
     here (\<lambda>try_enter_idx. seq
       [push_inst (TryEnter 0),
        body,
        push_inst TryExit,
        here (\<lambda>jump_to_end_after_body. seq
          [push_inst (Jump 0),
           here (\<lambda>dispatch_pc. patch try_enter_idx (TryEnter dispatch_pc)),
           gen_catches catches [jump_to_end_after_body] (\<lambda>jump_to_end_indices. seq
             [push_inst Rethrow,
              here (\<lambda>end_pc. seq (map (\<lambda>idx. patch idx (Jump end_pc)) jump_to_end_indices))])])])"

section \<open>Expressions\<close>

definition field_index :: "codegen \<Rightarrow> ty \<Rightarrow> string \<Rightarrow> nat" where
  "field_index g obj_type member =
     (case obj_type of
        TyIdent struct_name \<Rightarrow>
          (case struct_layouts g struct_name of
             Some layout \<Rightarrow>
               (case find_pos (\<lambda>p. fst p = member) layout of Some pos \<Rightarrow> pos | None \<Rightarrow> 0)
           | None \<Rightarrow> 0)
      | _ \<Rightarrow> 0)"

definition gen_elem_assign :: "code \<Rightarrow> code \<Rightarrow> code \<Rightarrow> code" where
  "gen_elem_assign arr index rhs = seq [arr, index, rhs, push_inst SetElem]"

definition gen_member_assign :: "ast \<Rightarrow> code \<Rightarrow> string \<Rightarrow> code \<Rightarrow> code" where
  "gen_member_assign obj obj_code member rhs =
     seq [rhs,
          push_inst Dup,
          asks (\<lambda>g. infer_type g obj) (\<lambda>obj_type. seq
            [obj_code,
             asks (\<lambda>g. field_index g obj_type member) (\<lambda>field_idx. push_inst (SetField field_idx))])]"

definition bad_assignment :: code where
  "bad_assignment g = Inl ''Compile Error: Invalid left-hand side assignment target.''"

definition gen_binary :: "ast \<Rightarrow> code \<Rightarrow> ast \<Rightarrow> code \<Rightarrow> token \<Rightarrow> code" where
  "gen_binary lhs lhs_code rhs rhs_code op =
     seq [lhs_code, rhs_code,
          asks (\<lambda>g. infer_type g (ExprBinary lhs rhs op)) (\<lambda>kind. emit_binary_op op kind)]"

definition gen_unary :: "ast \<Rightarrow> code \<Rightarrow> token \<Rightarrow> code" where
  "gen_unary child child_code op =
     seq [child_code,
          (if get_kind op = K Bang then push_inst (Alu LogNot)
           else if get_kind op = K Tilde then push_inst (Alu BitNeg)
           else if get_kind op = K Dash then
             asks (\<lambda>g. infer_type g child) (\<lambda>kind.
               if kind = TyFloat
               then push_insts [PushConst (ExprFloat 0xBFF0000000000000), Alu FloatMul]
               else push_insts [PushConst (ExprInteger (- 1)), Alu IntMul])
           else seq [])]"

definition gen_func :: "string \<Rightarrow> (string \<times> ty) list \<Rightarrow> ty \<Rightarrow> code \<Rightarrow> nat \<Rightarrow> code" where
  "gen_func name params ret body scope_id =
     here (\<lambda>jump_over_idx. seq
       [push_inst (Jump 0),
        here (\<lambda>func_entry. modify (\<lambda>g. g\<lparr>fn_addrs := (fn_addrs g)(name \<mapsto> func_entry),
                                           fn_returns := (fn_returns g)(name \<mapsto> ret)\<rparr>)),
        modify (\<lambda>g. g\<lparr>locals := Map.empty, next_slot := 0\<rparr>),
        modify (\<lambda>g. fold (\<lambda>(param_name, param_type). new_local param_name param_type) params g),
        push_scope scope_id,
        body,
        push_inst Ret,
        pop_scope scope_id,
        here (\<lambda>end_idx. patch jump_over_idx (Jump end_idx))])"

definition print_inst :: "ty \<Rightarrow> inst" where
  "print_inst kind =
     (case kind of
        TyInteger \<Rightarrow> Print PrintInt
      | TyBool \<Rightarrow> Print PrintInt
      | TyFloat \<Rightarrow> Print PrintFloat
      | TyChar \<Rightarrow> Print PrintChar
      | TyString \<Rightarrow> Print PrintString
      | _ \<Rightarrow> Print PrintInt)"

definition coll_builtin :: "string \<Rightarrow> coll_op option" where
  "coll_builtin = map_of
     [(''list_len'', ListLen), (''list_get'', ListGet), (''list_get_list'', ListGetList),
      (''list_push'', ListPush), (''list_contains'', ListContains), (''list_join'', ListJoin),
      (''list_split'', ListSplit), (''map_get'', MapGet), (''map_get_map'', MapGetMap),
      (''map_set'', MapSet), (''map_has'', MapHas), (''map_keys'', MapKeys), (''map_len'', MapLen),
      (''map_del'', MapDel)]"

text \<open>A call of a function without an address yet is emitted with address 0 and remembered.\<close>

definition gen_user_call :: "string \<Rightarrow> code list \<Rightarrow> code" where
  "gen_user_call name args =
     asks (\<lambda>g. fn_addrs g name) (\<lambda>target.
       case target of
         Some target_address \<Rightarrow> seq [seq args, push_inst (Call target_address (length args))]
       | None \<Rightarrow>
           seq [seq args,
                here (\<lambda>inst_idx. seq
                  [push_inst (Call 0 (length args)),
                   modify (\<lambda>g. g\<lparr>pending_calls := vpush (pending_calls g) (inst_idx, name)\<rparr>)])])"

definition gen_call :: "string \<Rightarrow> ast list \<Rightarrow> code list \<Rightarrow> code" where
  "gen_call name args arg_codes =
     (if name = ''print'' \<and> args \<noteq> []
      then seq [hd arg_codes, asks (\<lambda>g. display_type g (hd args)) (\<lambda>kind. push_inst (print_inst kind))]
      else if name = ''remote_call'' then seq [seq arg_codes, push_inst RemoteCall]
      else if name = ''remote_call_stream'' then seq [seq arg_codes, push_inst RemoteCallStream]
      else if name = ''error_kind'' then push_inst LoadErrorKind
      else if name = ''error_cause'' then push_inst LoadErrorCause
      else if name = ''error_retry_hint'' then push_inst LoadErrorRetryHint
      else if name = ''last_confidence'' then push_inst LoadLastConfidence
      else (case coll_builtin name of
              Some op \<Rightarrow> seq [seq arg_codes, push_inst (Coll op)]
            | None \<Rightarrow> gen_user_call name arg_codes))"

definition gen_return :: "code option \<Rightarrow> code" where
  "gen_return val =
     (case val of Some c \<Rightarrow> seq [c, push_inst RetVal] | None \<Rightarrow> push_inst Ret)"

definition gen_struct_init :: "string \<Rightarrow> (string \<times> code) list \<Rightarrow> code" where
  "gen_struct_init name fields_code =
     asks (\<lambda>g. struct_layouts g name) (\<lambda>layout_of.
       case layout_of of
         Some layout \<Rightarrow>
           seq [seq (map (\<lambda>(f_name, _). case map_of fields_code f_name of
                              Some c \<Rightarrow> c | None \<Rightarrow> push_inst (PushConst ExprUndefined)) layout),
                push_inst (NewStruct (length layout))]
       | None \<Rightarrow> push_inst (NewStruct 0))"

definition gen_mem_acc :: "ast \<Rightarrow> code \<Rightarrow> string \<Rightarrow> code" where
  "gen_mem_acc lhs lhs_code member =
     asks (\<lambda>g. infer_type g lhs) (\<lambda>lhs_type. seq
       [lhs_code, asks (\<lambda>g. field_index g lhs_type member) (\<lambda>field_idx. push_inst (GetField field_idx))])"

definition gen_array_init :: "code list \<Rightarrow> code" where
  "gen_array_init vals =
     seq [push_inst (PushConst (ExprInteger (int (length vals)))), push_inst NewArray,
          seq (map (\<lambda>(i, c). seq [push_inst Dup, push_inst (PushConst (ExprInteger (int i))), c,
                                 push_inst SetElem, push_inst Pop])
                 (enumerate 0 vals))]"

definition gen_map :: "(string \<times> code) list \<Rightarrow> code" where
  "gen_map pairs =
     seq [seq (map (\<lambda>(key, c). seq [push_inst (PushConst (ExprString key)), c]) pairs),
          push_inst (PushMap (length pairs))]"

definition variant_hash :: "string \<Rightarrow> int" where
  "variant_hash var = int (case chars var of c # _ \<Rightarrow> c | [] \<Rightarrow> 65) mod 10"

section \<open>The traversal\<close>

primrec is_expression_node :: "ast \<Rightarrow> bool" where
  "is_expression_node (ExprBinary _ _ _) = True"
| "is_expression_node (ExprUnary _ _) = True"
| "is_expression_node (ExprFuncCall _ _) = True"
| "is_expression_node (ExprMemAcc _ _) = True"
| "is_expression_node (ExprArrAcc _ _) = True"
| "is_expression_node (ExprInteger _) = True"
| "is_expression_node (ExprFloat _) = True"
| "is_expression_node (ExprString _) = True"
| "is_expression_node (ExprChar _) = True"
| "is_expression_node (ExprBool _) = True"
| "is_expression_node (ExprVar _) = True"
| "is_expression_node (ExprStructInit _ _) = True"
| "is_expression_node (ExprArrayInit _) = True"
| "is_expression_node (ExprList _) = True"
| "is_expression_node (ExprMap _) = True"
| "is_expression_node (ExprEnumVar _ _) = True"
| "is_expression_node (ExprReturn _) = True"
| "is_expression_node ExprUndefined = True"
| "is_expression_node (DeclFunc _ _ _ _ _) = False"
| "is_expression_node (DeclVar _ _ _) = False"
| "is_expression_node (DeclStruct _ _) = False"
| "is_expression_node (DeclEnum _ _) = False"
| "is_expression_node (Block _ _) = False"
| "is_expression_node (StmtImport _ _) = False"
| "is_expression_node (StmtIf _ _ _) = False"
| "is_expression_node (StmtWhile _ _) = False"
| "is_expression_node (StmtFor _ _ _) = False"
| "is_expression_node (StmtTry _ _) = False"
| "is_expression_node StmtRethrow = False"
| "is_expression_node (ExprAssign _ _) = False"

function compile :: "ast \<Rightarrow> code" where
  "compile (ExprInteger v) = push_inst (PushConst (ExprInteger v))"
| "compile (ExprFloat v) = push_inst (PushConst (ExprFloat v))"
| "compile (ExprChar v) = push_inst (PushConst (ExprChar v))"
| "compile (ExprString v) = push_inst (PushConst (ExprString v))"
| "compile (ExprBool v) = push_inst (PushConst (ExprBool v))"
| "compile ExprUndefined = push_inst (PushConst ExprUndefined)"
| "compile (ExprVar name) = load_var name"
| "compile (DeclVar name kind init) = gen_decl_var name kind (map_option compile init)"
| "compile (ExprAssign var_name v) = gen_assign var_name (compile v)"
| "compile (Block stmts scope_id) =
     gen_block (map (\<lambda>stmt. (is_expression_node stmt, compile stmt)) stmts) scope_id"
| "compile (StmtIf condition body alt) =
     gen_if (compile condition) (compile body) (map_option compile alt)"
| "compile (StmtWhile condition body) = gen_while (compile condition) (compile body)"
| "compile (StmtFor elem_name array body) = gen_for elem_name array (compile array) (compile body)"
| "compile (StmtTry body catches) =
     gen_try (compile body) (map (\<lambda>(kind, catch_body). (kind, compile catch_body)) catches)"
| "compile StmtRethrow = push_inst Rethrow"
| "compile (ExprBinary lhs rhs op) =
     (if get_kind op = K Eq
      then (case lhs of
              ExprVar name \<Rightarrow> gen_assign name (compile rhs)
            | ExprArrAcc arr index \<Rightarrow> gen_elem_assign (compile arr) (compile index) (compile rhs)
            | ExprMemAcc obj member \<Rightarrow> gen_member_assign obj (compile obj) member (compile rhs)
            | _ \<Rightarrow> bad_assignment)
      else gen_binary lhs (compile lhs) rhs (compile rhs) op)"
| "compile (ExprUnary child op) = gen_unary child (compile child) op"
| "compile (DeclFunc name params ret body scope_id) = gen_func name params ret (compile body) scope_id"
| "compile (ExprFuncCall name args) = gen_call name args (map compile args)"
| "compile (ExprReturn val) = gen_return (map_option compile val)"
| "compile (ExprStructInit name flds) =
     gen_struct_init name (map (\<lambda>(f_name, v). (f_name, compile v)) flds)"
| "compile (ExprMemAcc lhs member) = gen_mem_acc lhs (compile lhs) member"
| "compile (ExprArrayInit vals) = gen_array_init (map compile vals)"
| "compile (ExprList elements) =
     seq [seq (map compile elements), push_inst (PushList (length elements))]"
| "compile (ExprMap pairs) = gen_map (map (\<lambda>(key, v). (key, compile v)) pairs)"
| "compile (ExprArrAcc lhs index) = seq [compile lhs, compile index, push_inst GetElem]"
| "compile (ExprEnumVar name var) = push_inst (PushConst (ExprInteger (variant_hash var)))"
| "compile (DeclStruct name flds) = seq []"
| "compile (DeclEnum name variants) = seq []"
| "compile (StmtImport path alias) = seq []"
  by pat_completeness auto

termination compile
  by (relation "measure size")
    (auto simp: less_Suc_eq_le intro: size_elem size_snd trans_le_add1)

text \<open>Pass over the top level: struct layouts first, then the nodes, the pending calls, the call of \<open>start\<close>.\<close>

definition struct_layout :: "ast \<Rightarrow> codegen \<Rightarrow> codegen" where
  "struct_layout node g =
     (case node of
        DeclStruct name flds \<Rightarrow>
          g\<lparr>struct_layouts := (struct_layouts g)(name \<mapsto> sort_key fst flds)\<rparr>
      | _ \<Rightarrow> g)"

definition resolve_call :: "(string \<Rightarrow> nat option) \<Rightarrow> nat \<times> string \<Rightarrow> inst list \<Rightarrow> inst list" where
  "resolve_call fns p is =
     (case fns (snd p) of
        Some addr \<Rightarrow>
          (case is ! fst p of Call _ count \<Rightarrow> is[fst p := Call addr count] | _ \<Rightarrow> is)
      | None \<Rightarrow> is)"

definition gen_bcode :: "sol_program \<Rightarrow> codegen \<Rightarrow> string + inst list" where
  "gen_bcode prog g =
     (case gen_stmts (map (\<lambda>node. (is_expression_node node, compile node)) prog)
             (fold struct_layout prog g) of
        Inl e \<Rightarrow> Inl e
      | Inr g' \<Rightarrow>
          (let is = fold (resolve_call (fn_addrs g')) (pending_calls g') (insts g')
           in Inr (case fn_addrs g' ''start'' of
                     Some start_addr \<Rightarrow> is @ [Call start_addr 0] | None \<Rightarrow> is)))"

end
