(* ===== verification/Sol_Bytecode_Wf.thy ===== *)
theory Sol_Bytecode_Wf
  imports Sol_Bytecode
begin

text \<open>
  What every piece of code generation does to the instruction vector: it appends, it writes over its
  own placeholders only, and each jump, call and handler address it leaves behind lies within the
  code. The rules of \<open>wf_intros\<close> follow the combinators, so the lemma of a generator is a search
  over them.
\<close>

named_theorems wf_intros

declare seq.simps [simp del]

text \<open>The address an instruction may send the program counter to.\<close>

fun target_of :: "inst \<Rightarrow> nat option" where
  "target_of (Jump t) = Some t"
| "target_of (JumpFalse t) = Some t"
| "target_of (Call t _) = Some t"
| "target_of (TryEnter t) = Some t"
| "target_of _ = None"

definition targets_le :: "nat \<Rightarrow> inst list \<Rightarrow> bool" where
  "targets_le n is \<longleftrightarrow> (\<forall>i \<in> set is. \<forall>t. target_of i = Some t \<longrightarrow> t \<le> n)"

definition addresses_ok :: "codegen \<Rightarrow> bool" where
  "addresses_ok g \<longleftrightarrow>
     targets_le (length (insts g)) (insts g) \<and>
     (\<forall>f a. fn_addrs g f = Some a \<longrightarrow> a \<le> length (insts g)) \<and>
     (\<forall>p \<in> set (pending_calls g). fst p < length (insts g))"

text \<open>
  \<open>wf_code k m c\<close>: run with at least \<open>m\<close> instructions emitted, \<open>c\<close> keeps the first \<open>k\<close> of them and
  never shortens the vector; addresses stay within it.
\<close>

definition wf_code :: "nat \<Rightarrow> nat \<Rightarrow> code \<Rightarrow> bool" where
  "wf_code k m c \<longleftrightarrow>
     (\<forall>g g'. m \<le> length (insts g) \<longrightarrow> c g = Inr g' \<longrightarrow>
        length (insts g) \<le> length (insts g') \<and> take k (insts g') = take k (insts g) \<and>
        (addresses_ok g \<longrightarrow> addresses_ok g'))"

lemma targets_le_mono: "targets_le n is \<Longrightarrow> n \<le> m \<Longrightarrow> targets_le m is"
  by (fastforce simp: targets_le_def)

lemma targets_le_append [simp]: "targets_le n (xs @ ys) \<longleftrightarrow> targets_le n xs \<and> targets_le n ys"
  by (auto simp: targets_le_def)

lemma targets_le_update: "targets_le n is \<Longrightarrow> \<forall>t. target_of i = Some t \<longrightarrow> t \<le> n \<Longrightarrow> targets_le n (is[j := i])"
  by (auto simp: targets_le_def dest!: set_update_subset_insert [THEN subsetD])

lemma wf_Nil [wf_intros]: "wf_code k m (seq [])"
  by (simp add: wf_code_def seq.simps)

lemma wf_Cons [wf_intros]:
  assumes "wf_code k m c" "wf_code k m (seq cs)"
  shows "wf_code k m (seq (c # cs))"
  unfolding wf_code_def
proof (intro allI impI)
  fix g g'
  assume m: "m \<le> length (insts g)" and run: "seq (c # cs) g = Inr g'"
  then obtain h where h: "c g = Inr h" "seq cs h = Inr g'" by (auto simp: seq.simps split: sum.splits)
  with assms(1) m have 1: "length (insts g) \<le> length (insts h)" "take k (insts h) = take k (insts g)"
    "addresses_ok g \<longrightarrow> addresses_ok h"
    unfolding wf_code_def by blast+
  with assms(2) m h have 2: "length (insts h) \<le> length (insts g')" "take k (insts g') = take k (insts h)"
    "addresses_ok h \<longrightarrow> addresses_ok g'"
    unfolding wf_code_def using le_trans by blast+
  from 1 2 show "length (insts g) \<le> length (insts g') \<and> take k (insts g') = take k (insts g) \<and>
      (addresses_ok g \<longrightarrow> addresses_ok g')"
    by auto
qed

lemma wf_seq: "(\<And>c. c \<in> set cs \<Longrightarrow> wf_code k m c) \<Longrightarrow> wf_code k m (seq cs)"
  by (induction cs) (auto intro: wf_Nil wf_Cons)

lemma wf_push_insts [wf_intros]:
  assumes "k \<le> m" "\<forall>i \<in> set is. \<forall>t. target_of i = Some t \<longrightarrow> t \<le> m"
  shows "wf_code k m (push_insts is)"
  unfolding wf_code_def push_insts_def
proof (intro allI impI)
  fix g g' :: codegen
  assume m: "m \<le> length (insts g)" and g': "Inr (g\<lparr>insts := insts g @ is\<rparr>) = Inr g'"
  have "targets_le (length (insts g')) is"
    using assms(2) m g' by (fastforce simp: targets_le_def)
  then have "addresses_ok g \<longrightarrow> addresses_ok g'"
    using g' by (force simp: addresses_ok_def intro: targets_le_mono)
  then show "length (insts g) \<le> length (insts g') \<and> take k (insts g') = take k (insts g) \<and>
      (addresses_ok g \<longrightarrow> addresses_ok g')"
    using assms(1) m g' by auto
qed

lemma push_inst_push_insts: "push_inst i = push_insts [i]"
  by (simp add: fun_eq_iff push_inst_def push_insts_def vpush_def)

lemma wf_push_inst [wf_intros]:
  "k \<le> m \<Longrightarrow> \<forall>t. target_of i = Some t \<longrightarrow> t \<le> m \<Longrightarrow> wf_code k m (push_inst i)"
  unfolding push_inst_push_insts by (rule wf_push_insts) auto

lemma wf_patch [wf_intros]:
  assumes "k \<le> idx" "k \<le> m" "\<forall>t. target_of i = Some t \<longrightarrow> t \<le> m"
  shows "wf_code k m (patch idx i)"
  using assms
  by (auto simp: wf_code_def patch_def addresses_ok_def intro!: targets_le_update)

lemma wf_here [wf_intros]: "(\<And>n. m \<le> n \<Longrightarrow> wf_code k n (f n)) \<Longrightarrow> wf_code k m (here f)"
  unfolding wf_code_def here_def by blast

lemma wf_asks [wf_intros]: "(\<And>g. wf_code k m (f (r g))) \<Longrightarrow> wf_code k m (asks r f)"
  unfolding wf_code_def asks_def by blast

text \<open>A change of the state that concerns neither the instructions nor the addresses.\<close>

lemma wf_modify:
  assumes "\<And>g. insts (f g) = insts g" "\<And>g. fn_addrs (f g) = fn_addrs g"
    "\<And>g. pending_calls (f g) = pending_calls g"
  shows "wf_code k m (modify f)"
  by (simp add: wf_code_def modify_def addresses_ok_def assms)

lemma new_local_frame [simp]:
  "insts (new_local n t g) = insts g" "fn_addrs (new_local n t g) = fn_addrs g"
  "pending_calls (new_local n t g) = pending_calls g"
  by (simp_all add: new_local_def)

lemma get_or_create_frame [simp]:
  "insts (snd (get_or_create_local n t g)) = insts g"
  "fn_addrs (snd (get_or_create_local n t g)) = fn_addrs g"
  "pending_calls (snd (get_or_create_local n t g)) = pending_calls g"
  by (simp_all add: get_or_create_local_def split: option.split)

lemma find_local_frame [simp]:
  "insts (snd (find_local_offset n g)) = insts g"
  "fn_addrs (snd (find_local_offset n g)) = fn_addrs g"
  "pending_calls (snd (find_local_offset n g)) = pending_calls g"
  by (simp_all add: find_local_offset_def Let_def split: option.split)

lemma fold_new_local_frame [simp]:
  "insts (fold (\<lambda>(n, t). new_local n t) ps g) = insts g"
  "fn_addrs (fold (\<lambda>(n, t). new_local n t) ps g) = fn_addrs g"
  "pending_calls (fold (\<lambda>(n, t). new_local n t) ps g) = pending_calls g"
  by (induction ps arbitrary: g) auto

lemma wf_state [wf_intros]:
  "wf_code k m (push_scope i)" "wf_code k m (pop_scope i)" "wf_code k m (drop_locals n)"
  "wf_code k m (declare_local x t)"
  "wf_code k m (modify (for_loop_counter_update h))"
  "wf_code k m (modify (\<lambda>g. g\<lparr>for_loop_counter := Suc (for_loop_counter g)\<rparr>))"
  "wf_code k m (modify (\<lambda>g. g\<lparr>locals := Map.empty, next_slot := 0\<rparr>))"
  "wf_code k m (modify (\<lambda>g. fold (\<lambda>(n, t). new_local n t) ps g))"
  by (auto simp: push_scope_def pop_scope_def drop_locals_def declare_local_def intro!: wf_modify)

lemma wf_prepare:
  assumes "\<And>x. wf_code k m (f x)" "\<And>g. insts (snd (r g)) = insts g"
    "\<And>g. addresses_ok (snd (r g)) = addresses_ok g"
  shows "wf_code k m (\<lambda>g. case r g of (x, h) \<Rightarrow> f x h)"
  unfolding wf_code_def
proof (intro allI impI)
  fix g g'
  assume m: "m \<le> length (insts g)" and run: "(case r g of (x, h) \<Rightarrow> f x h) = Inr g'"
  obtain x h where h: "r g = (x, h)" by (cases "r g")
  with assms(2,3) [of g] have "insts h = insts g" "addresses_ok h = addresses_ok g" by simp_all
  moreover have "length (insts h) \<le> length (insts g') \<and> take k (insts g') = take k (insts h) \<and>
      (addresses_ok h \<longrightarrow> addresses_ok g')"
    using calculation m run h assms(1) [of x, unfolded wf_code_def, rule_format, of h g'] by simp
  ultimately show "length (insts g) \<le> length (insts g') \<and>
      take k (insts g') = take k (insts g) \<and> (addresses_ok g \<longrightarrow> addresses_ok g')"
    by simp
qed

lemma wf_var [wf_intros]:
  assumes "k \<le> m" shows "wf_code k m (load_var x)" "wf_code k m (store_var x)"
  unfolding load_var_def [abs_def] store_var_def [abs_def]
  using assms by (auto intro!: wf_prepare wf_push_inst simp: addresses_ok_def)

section \<open>The generators\<close>

lemma punct_op_targets:
  "i \<in> set (float_op (K p)) \<Longrightarrow> target_of i = None" "i \<in> set (char_op (K p)) \<Longrightarrow> target_of i = None"
  "i \<in> set (string_op (K p)) \<Longrightarrow> target_of i = None" "i \<in> set (int_op (K p)) \<Longrightarrow> target_of i = None"
  by (cases p; auto simp: float_op_def char_op_def string_op_def int_op_def)+

lemma op_targets:
  "i \<in> set (float_op k) \<Longrightarrow> target_of i = None" "i \<in> set (char_op k) \<Longrightarrow> target_of i = None"
  "i \<in> set (string_op k) \<Longrightarrow> target_of i = None" "i \<in> set (int_op k) \<Longrightarrow> target_of i = None"
  using punct_op_targets
  by (cases k; simp add: float_op_def char_op_def string_op_def int_op_def)+

lemma wf_emit_binary_op [wf_intros]: "k \<le> m \<Longrightarrow> wf_code k m (emit_binary_op op t)"
  unfolding emit_binary_op_def by (rule wf_push_insts) (auto dest: op_targets split: ty.splits)

text \<open>Children are well formed from every position on.\<close>

definition wfc :: "code \<Rightarrow> bool" where
  "wfc c \<longleftrightarrow> (\<forall>k m. k \<le> m \<longrightarrow> wf_code k m c)"

lemma wfcD [wf_intros]: "wfc c \<Longrightarrow> k \<le> m \<Longrightarrow> wf_code k m c"
  by (simp add: wfc_def)

lemma wfcI: "(\<And>k m. k \<le> m \<Longrightarrow> wf_code k m c) \<Longrightarrow> wfc c"
  by (simp add: wfc_def)

lemma wfc_seq: "(\<And>c. c \<in> set cs \<Longrightarrow> wfc c) \<Longrightarrow> wfc (seq cs)"
  by (rule wfcI, rule wf_seq) (simp add: wfcD)

lemma wfc_stmts: "(\<And>e c. (e, c) \<in> set cs \<Longrightarrow> wfc c) \<Longrightarrow> wfc (gen_stmts cs)"
  unfolding gen_stmts_def
  by (rule wfc_seq) (auto intro!: wfcI simp: wf_intros)

lemma wfc_block: "(\<And>e c. (e, c) \<in> set cs \<Longrightarrow> wfc c) \<Longrightarrow> wfc (gen_block cs i)"
  using wfc_stmts by (intro wfcI) (simp add: gen_block_def wf_intros)

lemma wfc_decl_var: "(\<And>c. init = Some c \<Longrightarrow> wfc c) \<Longrightarrow> wfc (gen_decl_var x t init)"
  by (rule wfcI) (cases init; simp add: gen_decl_var_def wf_intros)

lemma wfc_assign: "wfc c \<Longrightarrow> wfc (gen_assign x c)"
  by (rule wfcI) (simp add: gen_assign_def wf_intros)

lemma wfc_if:
  assumes "wfc c" "wfc b" "\<And>e. alt = Some e \<Longrightarrow> wfc e"
  shows "wfc (gen_if c b alt)"
  using assms by (intro wfcI) (cases alt; simp add: gen_if_def wf_intros)

lemma wfc_while: "wfc c \<Longrightarrow> wfc b \<Longrightarrow> wfc (gen_while c b)"
  by (rule wfcI) (simp add: gen_while_def wf_intros)

lemma for_ops_targets [simp]:
  "target_of (fst (for_ops t)) = None" "target_of (fst (snd (for_ops t))) = None"
  by (simp_all add: for_ops_def split: ty.split)

lemma wfc_for: "wfc a \<Longrightarrow> wfc b \<Longrightarrow> wfc (gen_for x arr a b)"
  by (rule wfcI) (simp add: gen_for_def Let_def case_prod_unfold wf_intros)

lemma wf_catches:
  assumes "k \<le> m" "\<And>x c. (x, c) \<in> set cs \<Longrightarrow> wfc c" "\<forall>j \<in> set js. k \<le> j"
    and "\<And>js' n. m \<le> n \<Longrightarrow> \<forall>j \<in> set js'. k \<le> j \<Longrightarrow> wf_code k n (tail js')"
  shows "wf_code k m (gen_catches cs js tail)"
  using assms
proof (induction cs arbitrary: m js)
  case Nil
  then show ?case by simp
next
  case (Cons p cs)
  obtain kind c where p: "p = (kind, c)" by (cases p)
  have rest: "wf_code k n (gen_catches cs (js @ [j]) tail)" if "m \<le> n" "k \<le> j" for n j
    using Cons.prems that by (intro Cons.IH) auto
  have "wfc c" using Cons.prems(2) [of kind c] p by simp
  with Cons.prems(1) rest show ?case by (simp add: p wf_intros)
qed

lemma wfc_try:
  assumes "wfc b" "\<And>x c. (x, c) \<in> set cs \<Longrightarrow> wfc c"
  shows "wfc (gen_try b cs)"
proof (rule wfcI)
  fix k m :: nat assume "k \<le> m"
  have tail: "wf_code k n (seq [push_inst Rethrow, here (\<lambda>e. seq (map (\<lambda>i. patch i (Jump e)) js))])"
    if "k \<le> n" "\<forall>j \<in> set js. k \<le> j" for n js
    using that by (auto simp: wf_intros intro!: wf_seq wf_here wf_patch wf_Cons wf_Nil wf_push_inst)
  have catches: "wf_code k n (gen_catches cs [j] (\<lambda>js. seq [push_inst Rethrow,
      here (\<lambda>e. seq (map (\<lambda>i. patch i (Jump e)) js))]))" if "k \<le> n" "k \<le> j" for n j
    using that by (intro wf_catches) (auto intro: assms(2) tail)
  show "wf_code k m (gen_try b cs)"
    using \<open>k \<le> m\<close> assms(1) catches by (simp add: gen_try_def wf_intros)
qed

lemma wfc_elem_assign: "wfc a \<Longrightarrow> wfc i \<Longrightarrow> wfc r \<Longrightarrow> wfc (gen_elem_assign a i r)"
  by (rule wfcI) (simp add: gen_elem_assign_def wf_intros)

lemma wfc_member_assign: "wfc c \<Longrightarrow> wfc r \<Longrightarrow> wfc (gen_member_assign obj c x r)"
  by (rule wfcI) (simp add: gen_member_assign_def wf_intros)

lemma wfc_bad_assignment: "wfc bad_assignment"
  by (simp add: wfc_def wf_code_def bad_assignment_def)

lemma wfc_binary: "wfc c \<Longrightarrow> wfc d \<Longrightarrow> wfc (gen_binary l c r d op)"
  by (rule wfcI) (simp add: gen_binary_def wf_intros)

lemma wfc_unary: "wfc c \<Longrightarrow> wfc (gen_unary e c op)"
  by (rule wfcI) (simp add: gen_unary_def wf_intros)

lemma wf_enter_func [wf_intros]:
  "e \<le> m \<Longrightarrow> wf_code k m (modify (\<lambda>g. g\<lparr>fn_addrs := (fn_addrs g)(x \<mapsto> e), fn_returns := r g\<rparr>))"
  by (simp add: wf_code_def modify_def addresses_ok_def)

lemma wfc_func: "wfc b \<Longrightarrow> wfc (gen_func x ps t b i)"
  by (rule wfcI) (simp add: gen_func_def wf_intros)

lemma print_inst_target [simp]: "target_of (print_inst t) = None"
  by (simp add: print_inst_def split: ty.split)

text \<open>A known function's address lies in the code; an unknown one is remembered with its position.\<close>

lemma wf_known_call:
  assumes "\<And>c. c \<in> set args \<Longrightarrow> wfc c" "k \<le> m"
  shows "wf_code k m (gen_user_call x args)"
  unfolding wf_code_def
proof (intro allI impI)
  fix g g'
  assume m: "m \<le> length (insts g)" and run: "gen_user_call x args g = Inr g'"
  have args: "wf_code k n (seq args)" if "k \<le> n" for n
    using assms(1) that by (intro wf_seq) (simp add: wfcD)
  show "length (insts g) \<le> length (insts g') \<and> take k (insts g') = take k (insts g) \<and>
      (addresses_ok g \<longrightarrow> addresses_ok g')"
  proof (cases "fn_addrs g x")
    case None
    have "wf_code k m (here (\<lambda>i. seq [push_inst (Call 0 n),
        modify (\<lambda>g. g\<lparr>pending_calls := vpush (pending_calls g) (i, x)\<rparr>)]))" for n
      using assms(2)
      by (auto simp: wf_code_def here_def push_inst_def modify_def addresses_ok_def vpush_def targets_le_def seq.simps)
        (meson le_SucI)+
    with args [OF assms(2)]
    have "wf_code k m (seq [seq args, here (\<lambda>i. seq [push_inst (Call 0 (length args)),
        modify (\<lambda>g. g\<lparr>pending_calls := vpush (pending_calls g) (i, x)\<rparr>)])])"
      by (intro wf_Cons wf_Nil)
    with m run None show ?thesis by (simp add: wf_code_def gen_user_call_def asks_def)
  next
    case (Some a)
    show ?thesis
    proof (cases "addresses_ok g")
      case True
      with Some have a: "a \<le> length (insts g)" by (auto simp: addresses_ok_def)
      have kg: "k \<le> length (insts g)" using assms(2) m by simp
      have wf: "wf_code k (length (insts g)) (seq [seq args, push_inst (Call a (length args))])"
        using a args [OF kg] kg by (simp add: wf_intros)
      have "seq [seq args, push_inst (Call a (length args))] g = Inr g'"
        using run Some by (simp add: gen_user_call_def asks_def)
      with wf [unfolded wf_code_def, rule_format, of g g'] show ?thesis by simp
    next
      case False
      obtain h where h: "seq args g = Inr h" "g' = h\<lparr>insts := insts h @ [Call a (length args)]\<rparr>"
        using run Some
        by (auto simp: gen_user_call_def asks_def push_inst_def vpush_def seq.simps split: sum.splits)
      with args [OF assms(2)] m have "length (insts g) \<le> length (insts h)" "take k (insts h) = take k (insts g)"
        unfolding wf_code_def by blast+
      with h False assms(2) m show ?thesis by simp
    qed
  qed
qed

lemma coll_builtin_target [simp]: "target_of (Coll op) = None"
  by simp

lemma wfc_call:
  assumes "\<And>c. c \<in> set cs \<Longrightarrow> wfc c" "length cs = length args"
  shows "wfc (gen_call x args cs)"
proof (rule wfcI)
  fix k m :: nat assume km: "k \<le> m"
  have s: "wf_code k m (seq cs)" using assms(1) km by (intro wf_seq) (simp add: wfcD)
  have hd: "args \<noteq> [] \<Longrightarrow> wf_code k m (hd cs)"
    using assms km by (cases cs) (auto simp: wfcD)
  show "wf_code k m (gen_call x args cs)"
    using km s hd wf_known_call [OF assms(1) km]
    by (simp add: gen_call_def wf_intros split: option.split)
qed

lemma wfc_return: "(\<And>c. v = Some c \<Longrightarrow> wfc c) \<Longrightarrow> wfc (gen_return v)"
  by (rule wfcI) (cases v; simp add: gen_return_def wf_intros)

lemma wfc_struct_init:
  assumes "\<And>x c. (x, c) \<in> set cs \<Longrightarrow> wfc c"
  shows "wfc (gen_struct_init s cs)"
proof (rule wfcI)
  fix k m :: nat assume km: "k \<le> m"
  have "wfc (case map_of cs x of Some c \<Rightarrow> c | None \<Rightarrow> push_inst (PushConst ExprUndefined))" for x
    using assms by (auto split: option.split dest: map_of_SomeD intro!: wfcI simp: wf_intros)
  then have "wf_code k m (seq (map (\<lambda>(x, _). case map_of cs x of Some c \<Rightarrow> c
      | None \<Rightarrow> push_inst (PushConst ExprUndefined)) layout))" for layout :: "(string \<times> ty) list"
    using km by (intro wf_seq) (auto simp: wfcD)
  then show "wf_code k m (gen_struct_init s cs)"
    using km by (simp add: gen_struct_init_def wf_intros split: option.split)
qed

lemma wfc_mem_acc: "wfc c \<Longrightarrow> wfc (gen_mem_acc e c x)"
  by (rule wfcI) (simp add: gen_mem_acc_def wf_intros)

lemma wfc_array_init:
  assumes "\<And>c. c \<in> set cs \<Longrightarrow> wfc c" shows "wfc (gen_array_init cs)"
proof (rule wfcI)
  fix k m :: nat assume km: "k \<le> m"
  have "wf_code k m (seq (map (\<lambda>(i, c). seq [push_inst Dup, push_inst (PushConst (ExprInteger (int i))), c,
      push_inst SetElem, push_inst Pop]) (enumerate 0 cs)))"
    using km assms by (intro wf_seq) (auto simp: wf_intros in_set_enumerate_eq)
  then show "wf_code k m (gen_array_init cs)" using km by (simp add: gen_array_init_def wf_intros)
qed

lemma wfc_map:
  assumes "\<And>x c. (x, c) \<in> set cs \<Longrightarrow> wfc c" shows "wfc (gen_map cs)"
proof (rule wfcI)
  fix k m :: nat assume km: "k \<le> m"
  have "wf_code k m (seq (map (\<lambda>(key, c). seq [push_inst (PushConst (ExprString key)), c]) cs))"
    using km assms by (intro wf_seq) (auto simp: wf_intros)
  then show "wf_code k m (gen_map cs)" using km by (simp add: gen_map_def wf_intros)
qed

section \<open>Every node\<close>

lemma wfc_push_inst [simp]: "target_of i = None \<Longrightarrow> wfc (push_inst i)"
  by (rule wfcI) (simp add: wf_intros)

lemma wfc_load_var: "wfc (load_var x)"
  by (rule wfcI) (simp add: wf_intros)

lemma wfc_compile: "wfc (compile node)"
proof (induction node rule: compile.induct)
  case (16 lhs rhs op)
  show ?case
  proof (cases "get_kind op = K Eq")
    case True
    with 16 show ?thesis
      by (cases lhs) (auto intro!: wfc_assign wfc_elem_assign wfc_member_assign wfc_bad_assignment)
  next
    case False
    have "wfc (compile lhs)" "wfc (compile rhs)" using 16 False by blast+
    with False show ?thesis by (simp add: wfc_binary)
  qed
qed (auto intro!: wfc_load_var wfc_decl_var wfc_assign wfc_block wfc_if wfc_while wfc_for wfc_try wfc_unary
    wfc_func wfc_call wfc_return wfc_struct_init wfc_mem_acc wfc_array_init wfc_map wfc_seq)

lemma compile_appends:
  assumes "compile node g = Inr g'"
  obtains c where "insts g' = insts g @ c"
proof
  have "wf_code (length (insts g)) (length (insts g)) (compile node)"
    using wfc_compile by (simp add: wfc_def)
  with assms have "take (length (insts g)) (insts g') = insts g"
    unfolding wf_code_def by fastforce
  then show "insts g' = insts g @ drop (length (insts g)) (insts g')"
    by (metis append_take_drop_id)
qed

section \<open>The whole program\<close>

lemma struct_layouts_frame [simp]:
  "insts (fold struct_layout prog g) = insts g" "fn_addrs (fold struct_layout prog g) = fn_addrs g"
  "pending_calls (fold struct_layout prog g) = pending_calls g"
  by (induction prog arbitrary: g) (simp_all add: struct_layout_def split: ast.split)

lemma length_resolve_calls [simp]: "length (fold (resolve_call fns) ps is) = length is"
  by (induction ps arbitrary: "is")
    (simp_all add: resolve_call_def split: option.split inst.split)

lemma targets_resolve_calls:
  assumes "targets_le n is" "\<And>f a. fns f = Some a \<Longrightarrow> a \<le> n"
  shows "targets_le n (fold (resolve_call fns) ps is)"
  using assms(1)
proof (induction ps arbitrary: "is")
  case (Cons p ps)
  have "targets_le n (resolve_call fns p is)"
    using Cons.prems assms(2)
    by (auto simp: resolve_call_def split: option.split inst.split intro!: targets_le_update)
  then show ?case by (simp add: Cons.IH)
qed simp

lemma compiled_targets_le:
  assumes "gen_bcode prog (codegen_from tables) = Inr is"
  shows "targets_le (length is) is"
proof -
  let ?g = "fold struct_layout prog (codegen_from tables)"
  obtain g' where run: "gen_stmts (map (\<lambda>node. (is_expression_node node, compile node)) prog) ?g = Inr g'"
    and final: "is = fold (resolve_call (fn_addrs g')) (pending_calls g') (insts g') @
      (case fn_addrs g' ''start'' of Some a \<Rightarrow> [Call a 0] | None \<Rightarrow> [])"
    using assms by (auto simp: gen_bcode_def Let_def split: sum.splits option.splits)
  have "wfc (gen_stmts (map (\<lambda>node. (is_expression_node node, compile node)) prog))"
    by (rule wfc_stmts) (auto simp: wfc_compile)
  moreover have "addresses_ok ?g"
    by (simp add: addresses_ok_def) (simp add: codegen_from_def targets_le_def)
  ultimately have ok: "addresses_ok g'"
    using run unfolding wfc_def wf_code_def by blast
  then have "targets_le (length (insts g')) (fold (resolve_call (fn_addrs g')) (pending_calls g') (insts g'))"
    by (auto simp: addresses_ok_def intro!: targets_resolve_calls)
  with ok show ?thesis
    by (auto simp: final addresses_ok_def targets_le_def le_SucI split: option.splits)
qed

section \<open>Properties\<close>

text \<open>Every address in generated code is an instruction of it or its end.\<close>

lemma gen_bcode_targets_le:
  "gen_bcode prog (codegen_from tables) = Inr code \<Longrightarrow> i \<in> set code \<Longrightarrow> target_of i = Some t \<Longrightarrow> t \<le> length code"
  using compiled_targets_le by (auto simp: targets_le_def)

definition start_only :: sol_program where
  "start_only = [DeclFunc ''start'' [] TyInteger (Block [ExprReturn (Some (ExprInteger 7))] 1) 0]"

lemma gen_bcode_targets_le_witness:
  "\<exists>code. gen_bcode start_only (codegen_from []) = Inr code \<and> Jump 5 \<in> set code \<and> 5 \<le> length code"
proof -
  have code: "gen_bcode start_only (codegen_from [])
      = Inr [Jump 5, PushConst (ExprInteger 7), RetVal, Pop, Ret, Call 1 0]"
    by code_simp
  from gen_bcode_targets_le [OF this, of "Jump 5" 5] code show ?thesis by simp
qed

text \<open>Compiling a node only appends: the code emitted before it is left as it was.\<close>

lemma compile_keeps_prefix:
  "compile node g = Inr g' \<Longrightarrow> take (length (insts g)) (insts g') = insts g"
  using compile_appends by (metis append_eq_conv_conj)

lemma compile_keeps_prefix_witness:
  "\<exists>g'. compile (ExprInteger 7) ((codegen_from [])\<lparr>insts := [Dup]\<rparr>) = Inr g' \<and> take 1 (insts g') = [Dup]"
  using compile_keeps_prefix [of "ExprInteger 7" "(codegen_from [])\<lparr>insts := [Dup]\<rparr>"]
  by (simp add: push_inst_def vpush_def)

end
