(* ===== verification/Sol_Expr_Correct.thy ===== *)
theory Sol_Expr_Correct
  imports Sol_Bytecode_Wf Sol_Vm_Props
begin

text \<open>
  Correctness of the code generator on integer and boolean expressions. The specification \<open>eval\<close>
  knows nothing of the machine: it computes over the mathematical integers and truth values, and is
  undefined where an intermediate result leaves the \<open>i64\<close> range or a divisor is zero. Where it is
  defined, the generated code, run by the machine, pushes the value, in as many steps as there are
  instructions, and changes nothing else.
\<close>

section \<open>The meaning of expressions\<close>

datatype val = IntV int | BoolV bool

definition in_range :: "int \<Rightarrow> val option" where
  "in_range i = (if i64_in_range i then Some (IntV i) else None)"

text \<open>Operators on two integers, and on two truth values.\<close>

definition int_binop :: "punct \<Rightarrow> int \<Rightarrow> int \<Rightarrow> val option" where
  "int_binop p x y =
     (case p of
        Plus \<Rightarrow> in_range (x + y)
      | Dash \<Rightarrow> in_range (x - y)
      | Star \<Rightarrow> in_range (x * y)
      | Slash \<Rightarrow> if y = 0 then None else in_range (trunc_div x y)
      | EqEq \<Rightarrow> Some (BoolV (x = y))
      | BangEq \<Rightarrow> Some (BoolV (x \<noteq> y))
      | MoreThan \<Rightarrow> Some (BoolV (x > y))
      | LessThan \<Rightarrow> Some (BoolV (x < y))
      | MoreEq \<Rightarrow> Some (BoolV (x \<ge> y))
      | LessEq \<Rightarrow> Some (BoolV (x \<le> y))
      | Caret \<Rightarrow> in_range (x XOR y)
      | Ampersand \<Rightarrow> in_range (x AND y)
      | Pipe \<Rightarrow> in_range (x OR y)
      | _ \<Rightarrow> None)"

definition bool_binop :: "punct \<Rightarrow> bool \<Rightarrow> bool \<Rightarrow> val option" where
  "bool_binop p x y =
     (case p of
        PipePipe \<Rightarrow> Some (BoolV (x \<or> y))
      | AmpAmp \<Rightarrow> Some (BoolV (x \<and> y))
      | EqEq \<Rightarrow> Some (BoolV (x = y))
      | BangEq \<Rightarrow> Some (BoolV (x \<noteq> y))
      | _ \<Rightarrow> None)"

definition binop :: "token \<Rightarrow> val \<Rightarrow> val \<Rightarrow> val option" where
  "binop op v w =
     (case op of
        Tk p \<Rightarrow>
          (case (v, w) of
             (IntV x, IntV y) \<Rightarrow> int_binop p x y
           | (BoolV x, BoolV y) \<Rightarrow> bool_binop p x y
           | _ \<Rightarrow> None)
      | _ \<Rightarrow> None)"

definition unop :: "token \<Rightarrow> val \<Rightarrow> val option" where
  "unop op v =
     (case (op, v) of
        (Tk Dash, IntV x) \<Rightarrow> in_range (- x)
      | (Tk Tilde, IntV x) \<Rightarrow> in_range (NOT x)
      | (Tk Bang, BoolV b) \<Rightarrow> Some (BoolV (\<not> b))
      | _ \<Rightarrow> None)"

fun eval :: "(string \<Rightarrow> val option) \<Rightarrow> ast \<Rightarrow> val option" where
  "eval \<rho> (ExprInteger i) = in_range i"
| "eval \<rho> (ExprBool b) = Some (BoolV b)"
| "eval \<rho> (ExprVar x) = \<rho> x"
| "eval \<rho> (ExprUnary e op) = (case eval \<rho> e of Some v \<Rightarrow> unop op v | None \<Rightarrow> None)"
| "eval \<rho> (ExprBinary l r op) =
     (case (eval \<rho> l, eval \<rho> r) of (Some v, Some w) \<Rightarrow> binop op v w | _ \<Rightarrow> None)"
| "eval \<rho> _ = None"

section \<open>The code of an expression\<close>

fun unop_code :: "token \<Rightarrow> inst list" where
  "unop_code (Tk Bang) = [Alu LogNot]"
| "unop_code (Tk Tilde) = [Alu BitNeg]"
| "unop_code (Tk Dash) = [PushConst (ExprInteger (- 1)), Alu IntMul]"
| "unop_code _ = []"

fun expr_code :: "(string \<Rightarrow> (nat \<times> ty) option) \<Rightarrow> ast \<Rightarrow> inst list" where
  "expr_code L (ExprInteger i) = [PushConst (ExprInteger i)]"
| "expr_code L (ExprBool b) = [PushConst (ExprBool b)]"
| "expr_code L (ExprVar x) = [LoadLocal (case L x of Some (slot, _) \<Rightarrow> int slot | None \<Rightarrow> 0)]"
| "expr_code L (ExprUnary e op) = expr_code L e @ unop_code op"
| "expr_code L (ExprBinary l r op) = expr_code L l @ expr_code L r @ int_op (get_kind op)"
| "expr_code L _ = []"

text \<open>
  The expressions meant: literals in range, the variables of \<open>V\<close>, and the operators of \<open>binop\<close> and
  \<open>unop\<close>.
\<close>

fun core_expr :: "string set \<Rightarrow> ast \<Rightarrow> bool" where
  "core_expr V (ExprInteger i) = i64_in_range i"
| "core_expr V (ExprBool b) = True"
| "core_expr V (ExprVar x) = (x \<in> V)"
| "core_expr V (ExprUnary e op) = (op \<in> {Tk Dash, Tk Tilde, Tk Bang} \<and> core_expr V e)"
| "core_expr V (ExprBinary l r op) =
     (op \<in> {Tk Plus, Tk Dash, Tk Star, Tk Slash, Tk EqEq, Tk BangEq, Tk MoreThan, Tk LessThan,
             Tk MoreEq, Tk LessEq, Tk Caret, Tk Ampersand, Tk Pipe, Tk PipePipe, Tk AmpAmp} \<and>
      core_expr V l \<and> core_expr V r)"
| "core_expr V _ = False"

lemma core_expr_mono: "core_expr V e \<Longrightarrow> V \<subseteq> W \<Longrightarrow> core_expr W e"
  by (induction e) auto

text \<open>The locals are of type \<open>int\<close> or \<open>bool\<close>.\<close>

definition typed_locals :: "(string \<Rightarrow> (nat \<times> ty) option) \<Rightarrow> bool" where
  "typed_locals L \<longleftrightarrow> (\<forall>x slot t. L x = Some (slot, t) \<longrightarrow> t = TyInteger \<or> t = TyBool)"

lemma infer_core:
  "core_expr (dom (locals g)) e \<Longrightarrow> typed_locals (locals g) \<Longrightarrow>
    infer_type g e = TyInteger \<or> infer_type g e = TyBool"
  by (induction e) (fastforce simp: typed_locals_def Let_def)+

lemma seq_Cons: "c g = Inr h \<Longrightarrow> seq (c # cs) g = seq cs h"
  by (simp add: seq.simps)

lemma push_insts_Inr: "push_insts is g = Inr (g\<lparr>insts := insts g @ is\<rparr>)"
  by (simp add: push_insts_def)

lemma unop_cases:
  assumes "unop op v = Some w"
  obtains (neg) x where "op = Tk Dash" "v = IntV x" "w = IntV (- x)" "i64_in_range (- x)"
    | (inv) x where "op = Tk Tilde" "v = IntV x" "w = IntV (NOT x)" "i64_in_range (NOT x)"
    | (nott) b where "op = Tk Bang" "v = BoolV b" "w = BoolV (\<not> b)"
proof (cases op)
  case (Tk p)
  then show ?thesis
    using assms that by (cases p; cases v) (auto simp: unop_def in_range_def split: if_splits)
qed (use assms in \<open>simp_all add: unop_def\<close>)

lemma compile_expr:
  assumes "core_expr (dom (locals g)) e" "typed_locals (locals g)"
  shows "compile e g = Inr (g\<lparr>insts := insts g @ expr_code (locals g) e\<rparr>)"
  using assms
proof (induction e arbitrary: g)
  case (ExprUnary e op)
  let ?h = "g\<lparr>insts := insts g @ expr_code (locals g) e\<rparr>"
  have c: "compile e g = Inr ?h" using ExprUnary by simp
  have t: "infer_type ?h e \<noteq> TyFloat"
    using infer_core [of ?h e] ExprUnary.prems by auto
  from ExprUnary.prems(1) have "op = Tk Dash \<or> op = Tk Tilde \<or> op = Tk Bang" by simp
  then show ?case
    using c t by (elim disjE)
      (simp_all add: gen_unary_def seq.simps push_inst_def vpush_def push_insts_def asks_def)
next
  case (ExprBinary l r op)
  let ?h = "g\<lparr>insts := insts g @ expr_code (locals g) l\<rparr>"
  let ?k = "g\<lparr>insts := insts g @ expr_code (locals g) l @ expr_code (locals g) r\<rparr>"
  have l: "compile l g = Inr ?h" using ExprBinary by simp
  have r: "compile r ?h = Inr ?k" using ExprBinary.IH(2) [of ?h] ExprBinary.prems by simp
  have "infer_type ?k (ExprBinary l r op) = TyInteger \<or> infer_type ?k (ExprBinary l r op) = TyBool"
    using infer_core [of ?k "ExprBinary l r op"] ExprBinary.prems by simp
  then have "emit_binary_op op (infer_type ?k (ExprBinary l r op)) = push_insts (int_op (get_kind op))"
    by (auto simp: emit_binary_op_def)
  moreover have "get_kind op \<noteq> K Eq" using ExprBinary.prems(1) by auto
  ultimately show ?case
    using l r by (simp add: gen_binary_def seq.simps asks_def push_insts_Inr)
qed (auto simp: push_inst_def vpush_def load_var_def find_local_offset_def)

lemma int_binop_core:
  "int_binop p x y = Some u \<Longrightarrow> p \<in> {Plus, Dash, Star, Slash, EqEq, BangEq, MoreThan, LessThan,
     MoreEq, LessEq, Caret, Ampersand, Pipe}"
  by (cases p) (auto simp: int_binop_def)

lemma bool_binop_core: "bool_binop p x y = Some u \<Longrightarrow> p \<in> {PipePipe, AmpAmp, EqEq, BangEq}"
  by (cases p) (auto simp: bool_binop_def)

lemma eval_core: "eval \<rho> e = Some v \<Longrightarrow> core_expr (dom \<rho>) e"
proof (induction e arbitrary: v)
  case (ExprUnary e op)
  then obtain w where "eval \<rho> e = Some w" "unop op w = Some v" by (auto split: option.splits)
  with ExprUnary.IH show ?case by (auto elim: unop_cases)
next
  case (ExprBinary l r op)
  then show ?case
    by (fastforce simp: binop_def dest: int_binop_core bool_binop_core
        split: option.splits token.splits val.splits)
qed (auto simp: in_range_def split: if_splits)

section \<open>Several steps\<close>

fun steps :: "bool \<Rightarrow> nat \<Rightarrow> vm \<Rightarrow> vm option" where
  "steps ovf 0 s = Some s"
| "steps ovf (Suc n) s = (case step ovf s of (t, Next None) \<Rightarrow> steps ovf n t | _ \<Rightarrow> None)"

lemma steps_add: "steps ovf m s = Some t \<Longrightarrow> steps ovf (m + n) s = steps ovf n t"
  by (induction m arbitrary: s) (auto split: prod.splits step_result.splits option.splits)

lemma steps_one_iff: "steps ovf 1 s = Some t \<longleftrightarrow> step ovf s = (t, Next None)"
  by (auto split: prod.splits step_result.splits option.splits)

declare steps.simps(2) [simp del]

lemma run_steps: "steps ovf n s = Some t \<Longrightarrow> run ovf s = run ovf t"
proof (induction n arbitrary: s)
  case (Suc n)
  then obtain u where "step ovf s = (u, Next None)" "steps ovf n u = Some t"
    by (auto simp: steps.simps(2) split: prod.splits step_result.splits option.splits)
  with Suc.IH show ?case by (subst run.simps) simp
qed simp

text \<open>The state after \<open>n\<close> steps that left only the operand stack changed.\<close>

definition settle :: "nat \<Rightarrow> u64 list \<Rightarrow> vm \<Rightarrow> vm" where
  "settle n st s =
     s\<lparr>stack := st, inst_ptr := inst_ptr s + n, fuel := fuel s - n,
       steps_taken := (if n = 0 then steps_taken s else min (steps_taken s + n) (2 ^ 64 - 1))\<rparr>"

lemma min_min_add: "min (min a k + n) k = min (a + n) k" for k :: nat
  by (simp add: min_def)

lemma settle_settle [simp]: "settle n st' (settle m st s) = settle (m + n) st' s"
  by (cases "m = 0"; cases "n = 0") (simp_all add: settle_def min_min_add add.assoc)

lemma settle_simps [simp]:
  "stack (settle n st s) = st" "fp (settle n st s) = fp s" "vm_program (settle n st s) = vm_program s"
  "inst_ptr (settle n st s) = inst_ptr s + n" "fuel (settle n st s) = fuel s - n"
  "is_done (settle n st s) = is_done s" "vm_fault (settle n st s) = vm_fault s"
  by (simp_all add: settle_def)

fun code_at :: "inst list \<Rightarrow> nat \<Rightarrow> inst list \<Rightarrow> bool" where
  "code_at p i [] = True"
| "code_at p i (x # c) = (i < length p \<and> p ! i = x \<and> code_at p (Suc i) c)"

lemma code_at_append: "code_at p i (a @ b) \<longleftrightarrow> code_at p i a \<and> code_at p (i + length a) b"
  by (induction a arbitrary: i) auto

lemma code_at_middle: "code_at (pre @ c @ post) (length pre) c"
proof (induction c arbitrary: pre)
  case (Cons x c)
  from Cons [of "pre @ [x]"] show ?case by simp
qed simp

definition ready :: "vm \<Rightarrow> bool" where
  "ready s \<longleftrightarrow> \<not> is_done s \<and> vm_fault s = None"

lemma ready_settle [simp]: "ready (settle n st s) = ready s"
  by (simp add: ready_def)

lemma step_settle:
  assumes "ready s" "code_at (vm_program s) (inst_ptr s) [i]" "0 < fuel s"
    and "exec ovf i (fetch s) = ((fetch s)\<lparr>stack := st\<rparr>, Fall)"
  shows "step ovf s = (settle 1 st s, Next None)"
  using assms
  by (simp add: step_def ready_def finish_step_def fetch_def settle_def)

lemma steps_one:
  assumes "ready s" "code_at (vm_program s) (inst_ptr s) [i]" "0 < fuel s"
    and "exec ovf i (fetch s) = ((fetch s)\<lparr>stack := st\<rparr>, Fall)"
  shows "steps ovf 1 s = Some (settle 1 st s)"
  using step_settle [OF assms] by (simp only: steps_one_iff)

lemma fetch_simps [simp]: "stack (fetch s) = stack s" "fp (fetch s) = fp s" "heap (fetch s) = heap s"
  by (simp_all add: fetch_def)

section \<open>Values on the machine\<close>

primrec enc :: "val \<Rightarrow> u64" where
  "enc (IntV i) = word_of_int i"
| "enc (BoolV b) = bool_u64 b"

primrec val_ok :: "val \<Rightarrow> bool" where
  "val_ok (IntV i) = i64_in_range i"
| "val_ok (BoolV b) = True"

lemma in_range_ok: "in_range i = Some v \<Longrightarrow> v = IntV i \<and> i64_in_range i"
  by (simp add: in_range_def split: if_splits)

lemma bin_op_snoc: "stack s = st @ [a, b] \<Longrightarrow> bin_op f s = (s\<lparr>stack := st @ [f a b]\<rparr>, Fall)"
  by (simp add: bin_op_def pop2_snoc push_stack)

lemma un_op_snoc: "stack s = st @ [a] \<Longrightarrow> un_op f s = (s\<lparr>stack := st @ [f a]\<rparr>, Fall)"
  by (simp add: un_op_def pop_snoc push_stack)

lemma int_arith_snoc:
  assumes "stack s = st @ [enc (IntV x), enc (IntV y)]" "i64_in_range x" "i64_in_range y"
    and "i64_in_range (f x y)"
  shows "int_arith ovf what f s = (s\<lparr>stack := st @ [enc (IntV (f x y))]\<rparr>, Fall)"
  using assms by (simp add: int_arith_def pop2_snoc push_stack sint_of_int_in_range Let_def)

lemma int_div_snoc:
  assumes "stack s = st @ [enc (IntV x), enc (IntV y)]" "i64_in_range x" "i64_in_range y"
    and "y \<noteq> 0" "i64_in_range (trunc_div x y)"
  shows "int_div s = (s\<lparr>stack := st @ [enc (IntV (trunc_div x y))]\<rparr>, Fall)"
proof -
  have "\<not> (x = - (2 ^ 63) \<and> y = - 1)"
    using assms(5) by (auto simp: trunc_div_def i64_in_range_def)
  with assms(2,3,4) have "i64_checked_div (enc (IntV x)) (enc (IntV y)) = Some (word_of_int (trunc_div x y))"
    unfolding i64_checked_div_def by (auto simp: sint_of_int_in_range)
  with assms(1) show ?thesis by (simp add: int_div_def pop2_snoc push_stack)
qed

lemma int_cmp_snoc:
  assumes "stack s = st @ [enc (IntV x), enc (IntV y)]" "i64_in_range x" "i64_in_range y"
  shows "int_cmp r s = (s\<lparr>stack := st @ [enc (BoolV (r x y))]\<rparr>, Fall)"
  using assms by (simp add: int_cmp_def bin_op_snoc sint_of_int_in_range)

lemma sint_bool_u64 [simp]: "sint (bool_u64 b) = of_bool b"
  by (simp add: bool_u64_def)

lemma int_cmp_bool_snoc:
  assumes "stack s = st @ [enc (BoolV x), enc (BoolV y)]"
  shows "int_cmp (=) s = (s\<lparr>stack := st @ [enc (BoolV (x = y))]\<rparr>, Fall)"
    and "int_cmp (\<noteq>) s = (s\<lparr>stack := st @ [enc (BoolV (x \<noteq> y))]\<rparr>, Fall)"
  using assms by (simp_all add: int_cmp_def bin_op_snoc)

text \<open>The instruction of a binary operator computes its meaning.\<close>

definition computes :: "bool \<Rightarrow> inst list \<Rightarrow> val \<Rightarrow> val \<Rightarrow> val \<Rightarrow> bool" where
  "computes ovf c v w u \<longleftrightarrow>
     (\<exists>a. c = [Alu a] \<and>
       (\<forall>s st. stack s = st @ [enc v, enc w] \<longrightarrow> exec_alu ovf a s = (s\<lparr>stack := st @ [enc u]\<rparr>, Fall)))"

lemma word_of_int_bitwise:
  "(word_of_int x :: u64) XOR word_of_int y = word_of_int (x XOR y)"
  "(word_of_int x :: u64) AND word_of_int y = word_of_int (x AND y)"
  "(word_of_int x :: u64) OR word_of_int y = word_of_int (x OR y)"
  by (simp_all add: of_int_and_eq of_int_or_eq of_int_xor_eq)

lemma int_binop_computes:
  assumes "int_binop p x y = Some u" "i64_in_range x" "i64_in_range y"
  shows "computes ovf (int_op (K p)) (IntV x) (IntV y) u"
  using assms
  by (cases p)
    (auto simp: int_binop_def computes_def int_op_def word_of_int_bitwise
      dest!: in_range_ok split: if_splits
      intro!: int_arith_snoc [where f = "(+)", simplified]
        int_arith_snoc [where f = "(-)", simplified] int_arith_snoc [where f = "(*)", simplified]
        int_div_snoc [simplified] int_cmp_snoc [simplified] bin_op_snoc [THEN trans])

lemma bool_binop_computes:
  "bool_binop p x y = Some u \<Longrightarrow> computes ovf (int_op (K p)) (BoolV x) (BoolV y) u"
  by (cases p) (auto simp: bool_binop_def computes_def int_op_def bin_op_snoc int_cmp_bool_snoc [simplified])

lemma binop_computes:
  assumes "binop op v w = Some u" "val_ok v" "val_ok w"
  shows "computes ovf (int_op (get_kind op)) v w u"
  using assms int_binop_computes bool_binop_computes
  by (auto simp: binop_def split: token.splits val.splits)

lemma int_binop_ok: "int_binop p x y = Some u \<Longrightarrow> val_ok u"
  by (cases p) (auto simp: int_binop_def dest!: in_range_ok split: if_splits)

lemma bool_binop_ok: "bool_binop p x y = Some u \<Longrightarrow> val_ok u"
  by (cases p) (auto simp: bool_binop_def)

lemma binop_ok: "binop op v w = Some u \<Longrightarrow> val_ok u"
  using int_binop_ok bool_binop_ok by (auto simp: binop_def split: token.splits val.splits)

section \<open>Running the code\<close>

text \<open>
  The variables with a value lie on the stack of the frame at their slots, in range and encoded.
\<close>

definition env_at :: "(string \<Rightarrow> (nat \<times> ty) option) \<Rightarrow> vm \<Rightarrow> (string \<Rightarrow> val option) \<Rightarrow> bool" where
  "env_at L s \<rho> \<longleftrightarrow>
     (\<forall>x v. \<rho> x = Some v \<longrightarrow> val_ok v \<and>
        (\<exists>slot t. L x = Some (slot, t) \<and> fp s + slot < length (stack s) \<and> fp s + slot < 2 ^ 63 \<and> stack s ! (fp s + slot) = enc v))"

lemma env_at_settle: "env_at L s \<rho> \<Longrightarrow> env_at L (settle n (stack s @ ws) s) \<rho>"
  by (fastforce simp: env_at_def nth_append)

lemma eval_ok: "eval \<rho> e = Some v \<Longrightarrow> env_at L s \<rho> \<Longrightarrow> val_ok v"
proof (induction e arbitrary: v)
  case (ExprUnary e op)
  then obtain w where "unop op w = Some v" by (auto split: option.splits)
  then show ?case by (cases rule: unop_cases) (auto simp: i64_in_range_def not_int_def unop_def dest!: in_range_ok)
next
  case (ExprBinary l r op)
  then show ?case by (auto split: option.splits intro: binop_ok)
qed (auto simp: env_at_def in_range_def split: if_splits)

lemma const_step:
  assumes "ready s" "code_at (vm_program s) (inst_ptr s) [PushConst node]" "0 < fuel s"
    and "\<And>t. const_bits node t = (w, t)"
  shows "steps ovf 1 s = Some (settle 1 (stack s @ [w]) s)"
  using assms by (intro steps_one) (auto simp: exec_push_const_def push_stack)

lemma slot_addr_small:
  assumes "fp s + slot < 2 ^ 63"
  shows "slot_addr ovf s (int slot) = Some (of_nat (fp s + slot))"
proof -
  have "sint (word_of_int (int (fp s)) :: u64) = int (fp s)"
    using assms by (intro sint_of_int_in_range) (simp add: i64_in_range_def)
  moreover have "i64_in_range (int (fp s) + int slot)"
    using assms by (simp add: i64_in_range_def)
  ultimately show ?thesis by (simp add: slot_addr_def)
qed

lemma load_step:
  assumes "ready s" "code_at (vm_program s) (inst_ptr s) [LoadLocal (int slot)]" "0 < fuel s"
    and "fp s + slot < length (stack s)" "fp s + slot < 2 ^ 63"
  shows "steps ovf 1 s = Some (settle 1 (stack s @ [stack s ! (fp s + slot)]) s)"
proof (rule steps_one [OF assms(1-3)])
  have "slot_addr ovf (fetch s) (int slot) = Some (of_nat (fp s + slot))"
    using slot_addr_small [of "fetch s"] assms(5) by simp
  moreover have "unat (of_nat (fp s + slot) :: u64) = fp s + slot"
    using assms(5) by (simp add: unat_of_nat del: of_nat_add)
  ultimately show "exec ovf (LoadLocal (int slot)) (fetch s)
      = ((fetch s)\<lparr>stack := stack s @ [stack s ! (fp s + slot)]\<rparr>, Fall)"
    using assms(4) by (simp add: exec_load_local_def push_stack)
qed

lemma binop_step:
  assumes "ready s" "code_at (vm_program s) (inst_ptr s) (int_op (get_kind op))" "0 < fuel s"
    and "stack s = st @ [enc v, enc w]" "computes ovf (int_op (get_kind op)) v w u"
  shows "steps ovf 1 s = Some (settle 1 (st @ [enc u]) s)"
proof -
  obtain a where a: "int_op (get_kind op) = [Alu a]"
    and e: "\<And>s st. stack s = st @ [enc v, enc w] \<Longrightarrow> exec_alu ovf a s = (s\<lparr>stack := st @ [enc u]\<rparr>, Fall)"
    using assms(5) by (auto simp: computes_def)
  show ?thesis
    using assms(1-4) a e [of "fetch s" st] by (intro steps_one) auto
qed

lemma unop_steps:
  assumes "ready s" "code_at (vm_program s) (inst_ptr s) (unop_code op)"
    "length (unop_code op) \<le> fuel s" "stack s = st @ [enc v]" "unop op v = Some w" "val_ok v"
  shows "steps ovf (length (unop_code op)) s = Some (settle (length (unop_code op)) (st @ [enc w]) s)"
  using assms(5)
proof (cases rule: unop_cases)
  case (neg x)
  let ?t = "settle 1 (st @ [enc v, - 1]) s"
  have "steps ovf 1 s = Some ?t"
    using const_step [of s "ExprInteger (- 1)" "- 1" ovf] assms neg by (simp add: const_bits_def)
  moreover have "steps ovf 1 ?t = Some (settle 1 (st @ [enc w]) ?t)"
    using assms neg int_arith_snoc [of "fetch ?t" st x "- 1" "(*)" ovf "''multiply''"]
    by (intro steps_one [where i = "Alu IntMul"]) (simp_all add: i64_in_range_def)
  ultimately show ?thesis
    using neg steps_add [of ovf 1 s ?t 1] by simp
next
  case (inv x)
  have "steps ovf 1 s = Some (settle 1 (st @ [enc w]) s)"
    using assms inv un_op_snoc [of "fetch s" st "enc v" NOT]
    by (intro steps_one [where i = "Alu BitNeg"]) (simp_all add: of_int_not_eq)
  then show ?thesis using inv by simp
next
  case (nott b)
  have "steps ovf 1 s = Some (settle 1 (st @ [enc w]) s)"
    using assms nott un_op_snoc [of "fetch s" st "enc v" "\<lambda>a. bool_u64 (a = 0)"]
    by (intro steps_one [where i = "Alu LogNot"]) simp_all
  then show ?thesis using nott by simp
qed

lemma exec_expr:
  assumes "eval \<rho> e = Some v" "env_at L s \<rho>" "ready s"
    and "code_at (vm_program s) (inst_ptr s) (expr_code L e)" "length (expr_code L e) \<le> fuel s"
  shows "steps ovf (length (expr_code L e)) s
    = Some (settle (length (expr_code L e)) (stack s @ [enc v]) s)"
  using assms
proof (induction e arbitrary: v s)
  case (ExprUnary e op)
  obtain w where w: "eval \<rho> e = Some w" "unop op w = Some v"
    using ExprUnary.prems(1) by (auto split: option.splits)
  let ?n = "length (expr_code L e)"
  let ?t = "settle ?n (stack s @ [enc w]) s"
  have "steps ovf ?n s = Some ?t"
    using ExprUnary w by (intro ExprUnary.IH) (auto simp: code_at_append)
  moreover have "steps ovf (length (unop_code op)) ?t = Some (settle (length (unop_code op)) (stack s @ [enc v]) ?t)"
    using ExprUnary.prems w eval_ok by (intro unop_steps) (auto simp: code_at_append)
  ultimately show ?case using steps_add by simp
next
  case (ExprBinary l r op)
  obtain x y where xy: "eval \<rho> l = Some x" "eval \<rho> r = Some y" "binop op x y = Some v"
    using ExprBinary.prems(1) by (auto split: option.splits)
  let ?m = "length (expr_code L l)" and ?n = "length (expr_code L r)"
  let ?t = "settle ?m (stack s @ [enc x]) s"
  let ?u = "settle ?n (stack ?t @ [enc y]) ?t"
  have comp: "computes ovf (int_op (get_kind op)) x y v"
    using xy ExprBinary.prems(2) eval_ok by (intro binop_computes) blast+
  then have one: "length (int_op (get_kind op)) = 1" by (auto simp: computes_def)
  have 1: "steps ovf ?m s = Some ?t"
    using ExprBinary.prems xy by (intro ExprBinary.IH(1)) (auto simp: code_at_append)
  have 2: "steps ovf ?n ?t = Some ?u"
    using ExprBinary.prems xy one
    by (intro ExprBinary.IH(2)) (auto simp: code_at_append env_at_settle)
  have 3: "steps ovf 1 ?u = Some (settle 1 (stack s @ [enc v]) ?u)"
    using ExprBinary.prems one comp
    by (intro binop_step [where v = x and w = y]) (auto simp: code_at_append add.assoc)
  have "steps ovf (?m + (?n + 1)) s = Some (settle 1 (stack s @ [enc v]) ?u)"
    by (simp only: steps_add [OF 1] steps_add [OF 2] 3)
  moreover have "length (expr_code L (ExprBinary l r op)) = ?m + (?n + 1)" using one by simp
  ultimately show ?case by simp
next
  case (ExprVar x)
  then obtain slot t where "L x = Some (slot, t)" "fp s + slot < length (stack s)" "fp s + slot < 2 ^ 63"
    "stack s ! (fp s + slot) = enc v"
    by (fastforce simp: env_at_def)
  with ExprVar show ?case using load_step [of s slot ovf] by simp
next
  case (ExprInteger i)
  then show ?case
    using const_step [of s "ExprInteger i" "enc v" ovf]
    by (auto simp: const_bits_def dest!: in_range_ok)
next
  case (ExprBool b)
  then show ?case
    using const_step [of s "ExprBool b" "enc v" ovf] by (auto simp: const_bits_def)
qed auto

end
