(* ===== verification/Sol_Stmt_Correct.thy ===== *)
theory Sol_Stmt_Correct
  imports Sol_Expr_Correct
begin

text \<open>
  Correctness of the code generator on a core of SOL's statements: initialised declarations,
  assignments, \<open>if\<close>, \<open>while\<close>, blocks and \<open>return\<close>, over the expressions of \<open>Sol_Expr_Correct\<close>. The
  specification is a big-step semantics on environments. For a program whose \<open>start\<close> is in the core
  and returns a value, the generated code, run with enough fuel, halts with that value.
\<close>

section \<open>The meaning of statements\<close>

datatype outcome = Normal "string \<Rightarrow> val option" | Returned val

inductive big :: "ast \<Rightarrow> (string \<Rightarrow> val option) \<Rightarrow> outcome \<Rightarrow> bool"
  and bigs :: "ast list \<Rightarrow> (string \<Rightarrow> val option) \<Rightarrow> outcome \<Rightarrow> bool" where
  Decl: "eval \<rho> e = Some v \<Longrightarrow> \<rho> x = None \<Longrightarrow> big (DeclVar x t (Some e)) \<rho> (Normal (\<rho>(x \<mapsto> v)))"
| Assign: "eval \<rho> e = Some v \<Longrightarrow> \<rho> x = Some w \<Longrightarrow>
    big (ExprBinary (ExprVar x) e (Tk Eq)) \<rho> (Normal (\<rho>(x \<mapsto> v)))"
| Return: "eval \<rho> e = Some v \<Longrightarrow> big (ExprReturn (Some e)) \<rho> (Returned v)"
| IfTrue: "eval \<rho> c = Some (BoolV True) \<Longrightarrow> big b \<rho> r \<Longrightarrow> big (StmtIf c b alt) \<rho> r"
| IfFalse: "eval \<rho> c = Some (BoolV False) \<Longrightarrow> big e \<rho> r \<Longrightarrow> big (StmtIf c b (Some e)) \<rho> r"
| IfNone: "eval \<rho> c = Some (BoolV False) \<Longrightarrow> big (StmtIf c b None) \<rho> (Normal \<rho>)"
| WhileFalse: "eval \<rho> c = Some (BoolV False) \<Longrightarrow> big (StmtWhile c b) \<rho> (Normal \<rho>)"
| WhileTrue: "eval \<rho> c = Some (BoolV True) \<Longrightarrow> big b \<rho> (Normal \<rho>') \<Longrightarrow>
    big (StmtWhile c b) \<rho>' r \<Longrightarrow> big (StmtWhile c b) \<rho> r"
| WhileReturn: "eval \<rho> c = Some (BoolV True) \<Longrightarrow> big b \<rho> (Returned v) \<Longrightarrow>
    big (StmtWhile c b) \<rho> (Returned v)"
| BlockNormal: "bigs ss \<rho> (Normal \<rho>') \<Longrightarrow> big (Block ss i) \<rho> (Normal (\<rho>' |` dom \<rho>))"
| BlockReturn: "bigs ss \<rho> (Returned v) \<Longrightarrow> big (Block ss i) \<rho> (Returned v)"
| Nil: "bigs [] \<rho> (Normal \<rho>)"
| Cons: "big s \<rho> (Normal \<rho>') \<Longrightarrow> bigs ss \<rho>' r \<Longrightarrow> bigs (s # ss) \<rho> r"
| ConsReturn: "big s \<rho> (Returned v) \<Longrightarrow> bigs (s # ss) \<rho> (Returned v)"

inductive_cases big_DeclE: "big (DeclVar x t (Some e)) \<rho> r"
inductive_cases big_WhileE: "big (StmtWhile c b) \<rho> r"
inductive_simps big_Return_iff: "big (ExprReturn (Some e)) \<rho> r"
inductive_simps bigs_Nil_iff: "bigs [] \<rho> r"

section \<open>The statements meant, and their code\<close>

text \<open>\<open>core V s\<close>: \<open>s\<close> is in the core over the declared variables \<open>V\<close>; the result adds its own.\<close>

primrec is_block :: "ast option \<Rightarrow> bool" where
  "is_block None = True"
| "is_block (Some s) = (case s of Block _ _ \<Rightarrow> True | _ \<Rightarrow> False)"

fun core :: "string set \<Rightarrow> ast \<Rightarrow> string set option" and cores :: "string set \<Rightarrow> ast list \<Rightarrow> bool" where
  "core V (DeclVar x t init) =
     (case init of
        Some e \<Rightarrow>
          if core_expr V e \<and> x \<notin> V \<and> (t = TyInteger \<or> t = TyBool) then Some (insert x V) else None
      | None \<Rightarrow> None)"
| "core V (ExprBinary l e op) =
     (case l of
        ExprVar x \<Rightarrow> if op = Tk Eq \<and> x \<in> V \<and> core_expr V e then Some V else None
      | _ \<Rightarrow> None)"
| "core V (ExprReturn val) =
     (case val of Some e \<Rightarrow> if core_expr V e then Some V else None | None \<Rightarrow> None)"
| "core V (StmtIf c b alt) =
     (if core_expr V c \<and> is_block (Some b) \<and> is_block alt \<and> core V b = Some V \<and>
         (case alt of Some e \<Rightarrow> core V e = Some V | None \<Rightarrow> True)
      then Some V else None)"
| "core V (StmtWhile c b) =
     (if core_expr V c \<and> is_block (Some b) \<and> core V b = Some V then Some V else None)"
| "core V (Block b i) = (if cores V b then Some V else None)"
| "core V _ = None"
| "cores V [] = True"
| "cores V (s # ss) = (case core V s of Some W \<Rightarrow> cores W ss | None \<Rightarrow> False)"

type_synonym layout = "(string \<Rightarrow> (nat \<times> ty) option) \<times> nat"

definition slot_of :: "(string \<Rightarrow> (nat \<times> ty) option) \<Rightarrow> string \<Rightarrow> int" where
  "slot_of L x = (case L x of Some (slot, _) \<Rightarrow> int slot | None \<Rightarrow> 0)"

text \<open>The layout of the locals after a statement.\<close>

definition layout_after :: "layout \<Rightarrow> ast \<Rightarrow> layout" where
  "layout_after l s =
     (case s of DeclVar x t _ \<Rightarrow> ((fst l)(x \<mapsto> (snd l, t)), Suc (snd l)) | _ \<Rightarrow> l)"

text \<open>The code of a statement that starts at address \<open>i\<close>, with the \<open>Pop\<close> after an expression.\<close>

fun stmt_code :: "layout \<Rightarrow> nat \<Rightarrow> ast \<Rightarrow> inst list"
  and stmts_code :: "layout \<Rightarrow> nat \<Rightarrow> ast list \<Rightarrow> inst list" where
  "stmt_code l i (DeclVar x t init) =
     (case init of Some e \<Rightarrow> expr_code (fst l) e @ [StoreLocal (int (snd l))] | None \<Rightarrow> [])"
| "stmt_code l i (ExprBinary lhs e op) =
     expr_code (fst l) e @
       [Dup, StoreLocal (case lhs of ExprVar x \<Rightarrow> slot_of (fst l) x | _ \<Rightarrow> 0), Pop]"
| "stmt_code l i (ExprReturn val) =
     (case val of Some e \<Rightarrow> expr_code (fst l) e @ [RetVal, Pop] | None \<Rightarrow> [])"
| "stmt_code l i (StmtIf c b alt) =
     (let cc = expr_code (fst l) c; bc = stmt_code l (i + length cc + 1) b;
          m = i + length cc + 1 + length bc
      in case alt of
           None \<Rightarrow> cc @ [JumpFalse m] @ bc
         | Some e \<Rightarrow>
             (let ec = stmt_code l (m + 1) e
              in cc @ [JumpFalse (m + 1)] @ bc @ [Jump (m + 1 + length ec)] @ ec))"
| "stmt_code l i (StmtWhile c b) =
     (let cc = expr_code (fst l) c; bc = stmt_code l (i + length cc + 1) b
      in cc @ [JumpFalse (i + length cc + 1 + length bc + 1)] @ bc @ [Jump i])"
| "stmt_code l i (Block b _) = stmts_code l i b"
| "stmt_code l i _ = []"
| "stmts_code l i [] = []"
| "stmts_code l i (s # ss) =
     (let c = stmt_code l i s in c @ stmts_code (layout_after l s) (i + length c) ss)"

text \<open>A layout: slots below the next one, no slot twice, types \<open>int\<close> or \<open>bool\<close>.\<close>

definition lay :: "layout \<Rightarrow> bool" where
  "lay l \<longleftrightarrow>
     typed_locals (fst l) \<and>
     (\<forall>x slot t. fst l x = Some (slot, t) \<longrightarrow> slot < snd l) \<and>
     (\<forall>x y slot t u. fst l x = Some (slot, t) \<longrightarrow> fst l y = Some (slot, u) \<longrightarrow> x = y)"

lemma lay_declare: "lay (L, n) \<Longrightarrow> t = TyInteger \<or> t = TyBool \<Longrightarrow> lay (L(x \<mapsto> (n, t)), Suc n)"
  by (auto simp: lay_def typed_locals_def less_SucI split: if_splits) blast+

section \<open>The generator produces this code\<close>

definition stmt_gen :: "ast \<Rightarrow> code" where
  "stmt_gen s = (if is_expression_node s then seq [compile s, push_inst Pop] else compile s)"

definition extended :: "codegen \<Rightarrow> inst list \<Rightarrow> layout \<Rightarrow> codegen" where
  "extended g c l = g\<lparr>insts := insts g @ c, locals := fst l, next_slot := snd l\<rparr>"

lemma extended_simps [simp]:
  "insts (extended g c l) = insts g @ c" "locals (extended g c l) = fst l"
  "next_slot (extended g c l) = snd l" "type_tables (extended g c l) = type_tables g"
  "extended (extended g c l) d m = extended g (c @ d) m"
  by (simp_all add: extended_def)

lemma gen_stmts_seq: "gen_stmts (map (\<lambda>s. (is_expression_node s, compile s)) ss) = seq (map stmt_gen ss)"
  by (auto simp: gen_stmts_def stmt_gen_def comp_def intro!: arg_cong [where f = seq])

text \<open>Leaving a block drops the locals it added.\<close>

definition grown :: "layout \<Rightarrow> layout \<Rightarrow> bool" where
  "grown l m \<longleftrightarrow>
     (\<forall>x. fst m x = fst l x \<or> (fst l x = None \<and> (\<exists>slot t. fst m x = Some (slot, t) \<and> snd l \<le> slot)))"

lemma grown_refl [simp]: "grown l l"
  by (simp add: grown_def)

lemma grown_declare: "grown l (M, n) \<Longrightarrow> M x = None \<Longrightarrow> snd l \<le> n \<Longrightarrow> grown l (M(x \<mapsto> (n, t)), k)"
  unfolding grown_def by (auto dest: spec [of _ x])

lemma drop_locals_grown:
  assumes "lay l" "grown l (locals g, m)"
  shows "drop_locals (snd l) g = Inr (g\<lparr>locals := fst l, next_slot := snd l\<rparr>)"
proof -
  have slots: "fst l x = Some (slot, t) \<Longrightarrow> slot < snd l" for x slot t
    using assms(1) by (auto simp: lay_def)
  have "(case locals g x of Some (slot, t) \<Rightarrow> if slot < snd l then Some (slot, t) else None
      | None \<Rightarrow> None) = fst l x" for x
  proof -
    have "locals g x = fst l x \<or>
        (fst l x = None \<and> (\<exists>slot t. locals g x = Some (slot, t) \<and> snd l \<le> slot))"
      using assms(2) by (simp add: grown_def)
    then show ?thesis
    proof
      assume "locals g x = fst l x"
      then show ?thesis by (cases "fst l x") (auto dest: slots)
    qed auto
  qed
  then show ?thesis by (simp add: drop_locals_def modify_def)
qed

lemma dom_layout_after: "core V s = Some W \<Longrightarrow> V = dom (fst l) \<Longrightarrow> W = dom (fst (layout_after l s))"
  by (cases s) (auto simp: layout_after_def split: option.splits if_splits ast.splits)

lemma lay_layout_after: "core V s = Some W \<Longrightarrow> lay l \<Longrightarrow> lay (layout_after l s)"
  by (cases s; cases l) (auto simp: layout_after_def lay_declare split: option.splits if_splits)

lemma unbound_None: "\<forall>a b. m x \<noteq> Some (a, b) \<Longrightarrow> m x = None"
  by (cases "m x") auto

lemma grown_layout_after:
  "core (dom (fst m)) s = Some W \<Longrightarrow> grown l m \<Longrightarrow> snd l \<le> snd m \<Longrightarrow>
    grown l (layout_after m s) \<and> snd l \<le> snd (layout_after m s)"
  by (cases s; cases m)
    (auto simp: layout_after_def intro!: grown_declare unbound_None split: option.splits if_splits)

fun layout_afters :: "layout \<Rightarrow> ast list \<Rightarrow> layout" where
  "layout_afters l [] = l"
| "layout_afters l (s # ss) = layout_afters (layout_after l s) ss"

lemma grown_layout_afters:
  "cores (dom (fst m)) ss \<Longrightarrow> grown l m \<Longrightarrow> snd l \<le> snd m \<Longrightarrow> grown l (layout_afters m ss)"
proof (induction ss arbitrary: m)
  case (Cons s ss)
  then obtain W where W: "core (dom (fst m)) s = Some W" "cores W ss" by (auto split: option.splits)
  with Cons.prems grown_layout_after [OF W(1), of l] dom_layout_after [OF W(1) refl]
  show ?case by (auto intro!: Cons.IH)
qed simp

lemma core_expr_compile:
  assumes "core_expr (dom (fst l)) e" "lay l" "locals g = fst l" "next_slot g = snd l"
  shows "compile e g = Inr (extended g (expr_code (fst l) e) l)"
  using compile_expr [of g e] assms by (simp add: lay_def extended_def)

lemma push_inst_extended: "push_inst i (extended g c l) = Inr (extended g (c @ [i]) l)"
  by (simp add: push_inst_def vpush_def extended_def)

lemma store_var_extended:
  "fst l x = Some (slot, t) \<Longrightarrow>
    store_var x (extended g c l) = Inr (extended g (c @ [StoreLocal (int slot)]) l)"
  by (simp add: store_var_def find_local_offset_def push_inst_extended)

lemma patch_extended:
  "k = length (insts g) + j \<Longrightarrow> patch k i (extended g c l) = Inr (extended g (c[j := i]) l)"
  by (simp add: patch_def extended_def list_update_append)

lemma new_local_extended:
  "new_local x t (extended g c l) = extended g c ((fst l)(x \<mapsto> (snd l, t)), Suc (snd l))"
  by (simp add: new_local_def extended_def)

lemmas gen_simps = seq.simps here_def asks_def push_inst_extended patch_extended

lemma seq_stmts:
  assumes "\<And>s l g V W. s \<in> set ss \<Longrightarrow> core V s = Some W \<Longrightarrow> V = dom (fst l) \<Longrightarrow> lay l \<Longrightarrow>
      stmt_gen s (extended g [] l) = Inr (extended g (stmt_code l (length (insts g)) s) (layout_after l s))"
    and "cores (dom (fst l)) ss" "lay l"
  shows "seq (map stmt_gen ss) (extended g [] l)
    = Inr (extended g (stmts_code l (length (insts g)) ss) (layout_afters l ss))"
  using assms
proof (induction ss arbitrary: l g)
  case (Cons s ss)
  obtain W where W: "core (dom (fst l)) s = Some W" "cores W ss"
    using Cons.prems(2) by (auto split: option.splits)
  let ?c = "stmt_code l (length (insts g)) s"
  let ?g = "extended g ?c (layout_after l s)"
  have "stmt_gen s (extended g [] l) = Inr ?g"
    using Cons.prems(1) [of s] W(1) Cons.prems(3) by simp
  moreover have "seq (map stmt_gen ss) (extended ?g [] (layout_after l s))
      = Inr (extended ?g (stmts_code (layout_after l s) (length (insts ?g)) ss)
          (layout_afters (layout_after l s) ss))"
    using Cons.prems W dom_layout_after [OF W(1) refl] lay_layout_after [OF W(1)]
    by (intro Cons.IH) auto
  ultimately show ?case by (simp add: seq.simps Let_def)
qed (simp add: seq.simps)

lemma scopes_balanced:
  obtains h where "push_scope i (extended g [] l) = Inr (extended h [] l)" "insts h = insts g"
    "\<And>c. pop_scope i (extended h c l) = Inr (extended g c l)"
proof
  define h where "h = (if i < length (type_tables g)
      then g\<lparr>active_scopes := vpush (active_scopes g) (scope_from g i)\<rparr> else g)"
  show "push_scope i (extended g [] l) = Inr (extended h [] l)"
    by (simp add: push_scope_def modify_def h_def extended_def scope_from_def)
  show "insts h = insts g" by (simp add: h_def)
  show "pop_scope i (extended h c l) = Inr (extended g c l)" for c
    by (simp add: pop_scope_def modify_def h_def extended_def)
qed

lemma block_extended:
  assumes "\<And>s l g V W. s \<in> set ss \<Longrightarrow> core V s = Some W \<Longrightarrow> V = dom (fst l) \<Longrightarrow> lay l \<Longrightarrow>
      stmt_gen s (extended g [] l) = Inr (extended g (stmt_code l (length (insts g)) s) (layout_after l s))"
    and "cores (dom (fst l)) ss" "lay l"
  shows "compile (Block ss i) (extended g [] l) = Inr (extended g (stmts_code l (length (insts g)) ss) l)"
proof -
  obtain h where h: "push_scope i (extended g [] l) = Inr (extended h [] l)" "insts h = insts g"
    "\<And>c. pop_scope i (extended h c l) = Inr (extended g c l)"
    using scopes_balanced by blast
  let ?m = "layout_afters l ss"
  have run: "gen_stmts (map (\<lambda>s. (is_expression_node s, compile s)) ss) (extended h [] l)
      = Inr (extended h (stmts_code l (length (insts g)) ss) ?m)"
    unfolding gen_stmts_seq using seq_stmts [OF assms, where g = h] h(2) by simp
  have "drop_locals (snd l) (extended h c ?m) = Inr (extended h c l)" for c
    using drop_locals_grown [of l "extended h c ?m"] assms(3) grown_layout_afters [OF assms(2)]
    by (simp add: extended_def) (simp add: grown_def)
  with h run show ?thesis by (simp add: gen_block_def seq.simps asks_def)
qed

text \<open>Every core statement compiles, and to \<open>stmt_code\<close>.\<close>

lemma compile_stmt:
  assumes "core V s = Some W" "V = dom (fst l)" "lay l"
  shows "stmt_gen s (extended g [] l) = Inr (extended g (stmt_code l (length (insts g)) s) (layout_after l s))"
  using assms
proof (induction s arbitrary: V W l g rule: measure_induct_rule [where f = size])
  case (less s)
  have ex: "compile e (extended g c l) = Inr (extended g (c @ expr_code (fst l) e) l)"
    if "core_expr V e" for e c g
    using core_expr_compile [of l e "extended g c l"] that less.prems by (simp add: extended_def)
  have block: "compile b (extended g c l)
      = Inr (extended g (c @ stmt_code l (length (insts g) + length c) b) l)"
    if bl: "is_block (Some b)" and co: "core V b = Some V" and "size b < size s" for b c g
  proof -
    obtain ss i where b: "b = Block ss i" using bl by (cases b) auto
    have "cores V ss" using co b by (auto split: if_splits)
    moreover have "size t < size s" if "t \<in> set ss" for t
      using size_elem [OF that] \<open>size b < size s\<close> b by simp
    ultimately show ?thesis
      using block_extended [of ss l i "extended g c l"] less b by simp
  qed
  show ?case
  proof (cases s)
    case (DeclVar x t init)
    with less.prems obtain e where e: "init = Some e" "core_expr V e" "x \<notin> V"
      by (auto split: option.splits if_splits)
    then have "fst l x = None" using less.prems(2) by (auto intro: unbound_None)
    with e DeclVar show ?thesis
      by (simp add: stmt_gen_def gen_decl_var_def seq.simps ex declare_local_def modify_def
          get_or_create_local_def layout_after_def store_var_extended new_local_extended)
  next
    case (ExprBinary lhs e op)
    with less.prems obtain x where x: "lhs = ExprVar x" "op = Tk Eq" "x \<in> V" "core_expr V e"
      by (auto split: ast.splits if_splits)
    then obtain slot t where "fst l x = Some (slot, t)" using less.prems(2) by auto
    with x ExprBinary show ?thesis
      by (simp add: stmt_gen_def gen_assign_def gen_simps ex store_var_extended slot_of_def
          layout_after_def)
  next
    case (ExprReturn v)
    with less.prems show ?thesis
      by (auto simp: stmt_gen_def gen_return_def gen_simps ex layout_after_def split: option.splits if_splits)
  next
    case (StmtIf c b alt)
    with less.prems show ?thesis
      by (cases alt)
        (auto simp: stmt_gen_def gen_if_def gen_simps ex block layout_after_def Let_def
          list_update_append add.assoc split: if_splits)
  next
    case (StmtWhile c b)
    with less.prems show ?thesis
      by (auto simp: stmt_gen_def gen_while_def gen_simps ex block layout_after_def Let_def
          list_update_append add.assoc split: if_splits)
  next
    case (Block ss i)
    with less.prems have "cores V ss" "W = V" by (auto split: if_splits)
    moreover have "size t < size s" if "t \<in> set ss" for t
      using size_elem [OF that] Block by simp
    ultimately have "compile (Block ss i) (extended g [] l)
        = Inr (extended g (stmts_code l (length (insts g)) ss) l)"
      using less by (intro block_extended) blast+
    with Block show ?thesis by (simp add: stmt_gen_def layout_after_def)
  qed (use less.prems in simp_all)
qed

section \<open>The machine runs the code\<close>

text \<open>The state after \<open>k\<close> steps that changed the operand stack and the program counter only.\<close>

definition moved :: "nat \<Rightarrow> nat \<Rightarrow> u64 list \<Rightarrow> vm \<Rightarrow> vm" where
  "moved pc k st s = (settle k st s)\<lparr>inst_ptr := pc\<rparr>"

lemma moved_moved [simp]: "moved pc' k' st' (moved pc k st s) = moved pc' (k + k') st' s"
  by (cases "k = 0"; cases "k' = 0") (simp_all add: moved_def settle_def min_min_add add.assoc)

lemma moved_simps [simp]:
  "stack (moved pc k st s) = st" "fp (moved pc k st s) = fp s" "vm_program (moved pc k st s) = vm_program s"
  "inst_ptr (moved pc k st s) = pc" "fuel (moved pc k st s) = fuel s - k"
  "ready (moved pc k st s) = ready s" "call_stack (moved pc k st s) = call_stack s"
  by (simp_all add: moved_def ready_def) (simp_all add: settle_def)

lemma moved_0: "moved (inst_ptr s) 0 (stack s) s = s"
  by (simp add: moved_def settle_def)

lemma settle_moved: "settle k st s = moved (inst_ptr s + k) k st s"
  by (simp add: moved_def settle_def)

lemma steps_moved:
  assumes "ready s" "inst_ptr s < length (vm_program s)" "vm_program s ! inst_ptr s = i" "0 < fuel s"
    and "exec ovf i (fetch s) = ((fetch s)\<lparr>stack := st, inst_ptr := pc\<rparr>, Fall)"
  shows "steps ovf 1 s = Some (moved pc 1 st s)"
  unfolding steps_one_iff using assms
  by (simp add: step_def ready_def finish_step_def) (simp add: fetch_def moved_def settle_def)

lemma steps_trans: "steps ovf k s = Some t \<Longrightarrow> steps ovf m t = Some u \<Longrightarrow> steps ovf (k + m) s = Some u"
  by (simp add: steps_add)

lemma inst_ptr_fetch [simp]: "inst_ptr (fetch s) = Suc (inst_ptr s)"
  by (simp add: fetch_def)

text \<open>One step for each instruction of the fragment, at program counter \<open>pc\<close>.\<close>

lemma jump_step:
  assumes "ready s" "code_at (vm_program s) (inst_ptr s) [Jump t]" "0 < fuel s"
  shows "steps ovf 1 s = Some (moved t 1 (stack s) s)"
  using assms by (intro steps_moved) auto

lemma jump_false_step:
  assumes "ready s" "code_at (vm_program s) (inst_ptr s) [JumpFalse t]" "0 < fuel s"
    and "stack s = st @ [enc (BoolV b)]"
  shows "steps ovf 1 s = Some (moved (if b then Suc (inst_ptr s) else t) 1 st s)"
  using assms pop_snoc [of "fetch s" st "enc (BoolV b)"]
  by (intro steps_moved [where i = "JumpFalse t"]) (auto simp: exec_jump_false_def)

lemma dup_step:
  assumes "ready s" "code_at (vm_program s) (inst_ptr s) [Dup]" "0 < fuel s" "stack s = st @ [w]"
  shows "steps ovf 1 s = Some (moved (Suc (inst_ptr s)) 1 (st @ [w, w]) s)"
  using assms by (intro steps_moved [where i = Dup]) (auto simp: exec_dup_def push_stack)

lemma pop_step:
  assumes "ready s" "code_at (vm_program s) (inst_ptr s) [Pop]" "0 < fuel s" "stack s = st @ [w]"
  shows "steps ovf 1 s = Some (moved (Suc (inst_ptr s)) 1 st s)"
  using assms pop_snoc [of "fetch s" st w] by (intro steps_moved [where i = Pop]) auto

text \<open>Storing the top of the stack in a slot that exists or comes next on the stack.\<close>

definition put :: "u64 list \<Rightarrow> nat \<Rightarrow> u64 \<Rightarrow> u64 list" where
  "put st i w = (if i < length st then st[i := w] else st @ [w])"

lemma store_step:
  assumes "ready s" "code_at (vm_program s) (inst_ptr s) [StoreLocal (int slot)]" "1 < fuel s"
    and st: "stack s = st @ [w]" and i: "fp s + slot \<le> length st" "fp s + slot < 2 ^ 63"
  shows "steps ovf 1 s = Some (moved (Suc (inst_ptr s)) 1 (put st (fp s + slot) w) s)"
proof (rule steps_moved [where i = "StoreLocal (int slot)"])
  let ?t = "(fetch s)\<lparr>stack := st\<rparr>"
  have pop: "pop (fetch s) = (w, ?t)" using st by (simp add: pop_snoc)
  have "unat (of_nat (fp s + slot) :: u64) = fp s + slot"
    using i(2) by (simp add: unat_of_nat del: of_nat_add)
  then obtain a where idx: "slot_addr ovf ?t (int slot) = Some a" and un: "unat a = fp s + slot"
    using slot_addr_small [of ?t slot ovf] i(2) by simp
  have need: "min (Suc (fp s + slot)) (2 ^ 64 - 1) = Suc (fp s + slot)" using i(2) by simp
  have grow: "Suc (fp s + slot) - length st \<le> alloc_budget ?t"
    using i(1) assms(3) by (auto simp: alloc_budget_def ALLOC_CEILING_def fetch_def)
  show "exec ovf (StoreLocal (int slot)) (fetch s)
      = ((fetch s)\<lparr>stack := put st (fp s + slot) w, inst_ptr := Suc (inst_ptr s)\<rparr>, Fall)"
  proof (cases "fp s + slot < length st")
    case True
    then show ?thesis
      by (simp add: exec_store_local_def pop idx un need check_alloc_def Let_def put_def)
  next
    case False
    with i(1) have eq: "fp s + slot = length st" by simp
    with grow have "\<not> alloc_budget ?t < Suc 0" by simp
    moreover have "min (length st) (2 ^ 64 - 2) = length st" using eq i(2) by simp
    ultimately show ?thesis using eq
      by (simp add: exec_store_local_def pop idx un check_alloc_def Let_def put_def)
  qed
qed (use assms in auto)

section \<open>Environments on the stack\<close>

definition holds :: "layout \<Rightarrow> (string \<Rightarrow> val option) \<Rightarrow> nat \<Rightarrow> u64 list \<Rightarrow> bool" where
  "holds l \<rho> f st \<longleftrightarrow>
     f + snd l \<le> length st \<and> dom \<rho> = dom (fst l) \<and>
     (\<forall>x v slot t. \<rho> x = Some v \<longrightarrow> fst l x = Some (slot, t) \<longrightarrow> val_ok v \<and> st ! (f + slot) = enc v)"

lemma holds_env_at:
  assumes "holds l \<rho> (fp s) (stack s)" "lay l" "fp s + snd l \<le> 2 ^ 63"
  shows "env_at (fst l) s \<rho>"
  unfolding env_at_def
proof (intro allI impI)
  fix x v
  assume x: "\<rho> x = Some v"
  with assms(1) have "x \<in> dom (fst l)" by (auto simp: holds_def)
  then obtain slot t where s: "fst l x = Some (slot, t)" by auto
  with assms(2) have "slot < snd l" by (auto simp: lay_def)
  with assms x s show "val_ok v \<and> (\<exists>slot t. fst l x = Some (slot, t) \<and> fp s + slot < length (stack s) \<and>
      fp s + slot < 2 ^ 63 \<and> stack s ! (fp s + slot) = enc v)"
    by (force simp: holds_def)
qed

lemma holds_assign:
  assumes "holds l \<rho> f st" "lay l" "fst l x = Some (slot, t)" "val_ok v"
  shows "holds l (\<rho>(x \<mapsto> v)) f (put st (f + slot) (enc v))"
proof -
  have slots: "b < snd l" if "fst l y = Some (b, u)" for y b u using assms(2) that by (auto simp: lay_def)
  have inj: "b \<noteq> slot" if "fst l y = Some (b, u)" "y \<noteq> x" for y b u
    using assms(2,3) that unfolding lay_def by blast
  have "f + slot < length st" using slots [OF assms(3)] assms(1) by (auto simp: holds_def)
  then have "put st (f + slot) (enc v) = st[f + slot := enc v]" by (simp add: put_def)
  with \<open>f + slot < length st\<close> show ?thesis
    using assms inj slots by (auto simp: holds_def nth_list_update)
qed

lemma holds_declare:
  assumes "holds (L, n) \<rho> f st" "lay (L, n)" "L x = None" "val_ok v"
  shows "holds (L(x \<mapsto> (n, t)), Suc n) (\<rho>(x \<mapsto> v)) f (put st (f + n) (enc v))"
proof -
  have slots: "b < n" if "L y = Some (b, u)" for y b u using assms(2) that by (auto simp: lay_def)
  have "b < n \<Longrightarrow> put st (f + n) w ! (f + b) = st ! (f + b)" for b w
    using assms(1) by (auto simp: put_def holds_def nth_append)
  moreover have "put st (f + n) w ! (f + n) = w" "f + Suc n \<le> length (put st (f + n) w)" for w
    using assms(1) by (auto simp: put_def holds_def nth_append)
  ultimately show ?thesis
    using assms slots by (auto simp: holds_def)
qed

lemma holds_restrict:
  assumes "holds m \<rho>' f st" "grown l m" "dom \<rho> = dom (fst l)" "snd l \<le> snd m"
  shows "holds l (\<rho>' |` dom \<rho>) f st"
proof -
  have eq: "fst m x = fst l x" if "x \<in> dom (fst l)" for x
    using assms(2) that unfolding grown_def by (metis domIff)
  then have "dom (fst l) \<subseteq> dom (fst m)" by (metis domIff subsetI)
  then have "dom (\<rho>' |` dom \<rho>) = dom (fst l)"
    using assms(1,3) by (auto simp: holds_def)
  with assms eq show ?thesis
    by (auto simp: holds_def restrict_map_def domIff split: if_splits)
qed

lemma take_put: "f \<le> i \<Longrightarrow> i \<le> length st \<Longrightarrow> take f (put st i w) = take f st"
  by (simp add: put_def)

section \<open>The simulation\<close>

text \<open>
  Where a run of the code of a statement leads: behind the code with the new environment on the
  stack, or to a \<open>RetVal\<close> with the value on top. The frame below \<open>fp\<close> is as before.
\<close>

definition reaches :: "bool \<Rightarrow> nat \<Rightarrow> vm \<Rightarrow> layout \<Rightarrow> nat \<Rightarrow> outcome \<Rightarrow> bool" where
  "reaches ovf k s l exit r \<longleftrightarrow>
     (case r of
        Normal \<rho>' \<Rightarrow>
          \<exists>st. steps ovf k s = Some (moved exit k st s) \<and> holds l \<rho>' (fp s) st \<and>
            take (fp s) st = take (fp s) (stack s)
      | Returned v \<Rightarrow>
          \<exists>st pc. steps ovf k s = Some (moved pc k (st @ [enc v]) s) \<and> fp s \<le> length st \<and>
            take (fp s) st = take (fp s) (stack s) \<and>
            pc < length (vm_program s) \<and> vm_program s ! pc = RetVal)"

definition starts :: "vm \<Rightarrow> layout \<Rightarrow> (string \<Rightarrow> val option) \<Rightarrow> nat \<Rightarrow> inst list \<Rightarrow> nat \<Rightarrow> bool" where
  "starts s l \<rho> i c k \<longleftrightarrow>
     ready s \<and> lay l \<and> inst_ptr s = i \<and> code_at (vm_program s) i c \<and>
     fp s + snd l + length c < 2 ^ 63 \<and> holds l \<rho> (fp s) (stack s) \<and> k < fuel s"

text \<open>The value of an expression, computed at the head of a piece of code.\<close>

lemma expr_steps:
  assumes "starts s l \<rho> i (expr_code (fst l) e @ c) k" "eval \<rho> e = Some v"
    and "length (expr_code (fst l) e) \<le> k"
  shows "steps ovf (length (expr_code (fst l) e)) s
      = Some (moved (i + length (expr_code (fst l) e)) (length (expr_code (fst l) e)) (stack s @ [enc v]) s)"
    and "val_ok v"
proof -
  have env: "env_at (fst l) s \<rho>"
    using assms(1) by (intro holds_env_at) (auto simp: starts_def)
  then show "val_ok v" using eval_ok assms(2) by blast
  show "steps ovf (length (expr_code (fst l) e)) s
      = Some (moved (i + length (expr_code (fst l) e)) (length (expr_code (fst l) e)) (stack s @ [enc v]) s)"
    using exec_expr [OF assms(2) env, of ovf] assms(1,3)
    by (auto simp: starts_def code_at_append settle_moved)
qed

lemma reaches_NormalI:
  "steps ovf k s = Some (moved exit k st s) \<Longrightarrow> holds l \<rho> (fp s) st \<Longrightarrow>
    take (fp s) st = take (fp s) (stack s) \<Longrightarrow> reaches ovf k s l exit (Normal \<rho>)"
  by (auto simp: reaches_def)

lemma reaches_ReturnedI:
  "steps ovf k s = Some (moved pc k (st @ [enc v]) s) \<Longrightarrow> fp s \<le> length st \<Longrightarrow>
    take (fp s) st = take (fp s) (stack s) \<Longrightarrow> pc < length (vm_program s) \<Longrightarrow>
    vm_program s ! pc = RetVal \<Longrightarrow> reaches ovf k s l exit (Returned v)"
  by (auto simp: reaches_def)

lemma reaches_steps:
  assumes "steps ovf k s = Some (moved pc k st s)" "reaches ovf m (moved pc k st s) l exit r"
    and "take (fp s) st = take (fp s) (stack s)"
  shows "reaches ovf (k + m) s l exit r"
  using assms by (cases r) (auto simp: reaches_def steps_add)

definition extra :: "outcome \<Rightarrow> nat" where
  "extra r = (case r of Normal _ \<Rightarrow> 1 | Returned _ \<Rightarrow> 0)"

lemma reaches_jump:
  assumes "reaches ovf k s l exit r" "code_at (vm_program s) exit [Jump t]" "ready s" "k + extra r \<le> fuel s"
  shows "reaches ovf (k + extra r) s l t r"
proof (cases r)
  case (Normal \<rho>)
  with assms(1) obtain st where st: "steps ovf k s = Some (moved exit k st s)" "holds l \<rho> (fp s) st"
    "take (fp s) st = take (fp s) (stack s)" by (auto simp: reaches_def)
  have "steps ovf 1 (moved exit k st s) = Some (moved t 1 st (moved exit k st s))"
    using jump_step [of "moved exit k st s" t ovf] assms(2-4) Normal by (simp add: extra_def)
  from steps_trans [OF st(1) this] have "steps ovf (k + 1) s = Some (moved t (k + 1) st s)" by simp
  with st Normal show ?thesis by (auto simp: extra_def intro: reaches_NormalI)
next
  case (Returned v)
  with assms(1) show ?thesis by (simp add: extra_def reaches_def)
qed

text \<open>The condition of an \<open>if\<close> or a loop, up to the branch taken.\<close>

lemma cond_steps:
  assumes "starts s l \<rho> i (expr_code (fst l) c @ JumpFalse t # rest) k" "eval \<rho> c = Some (BoolV b)"
    and "length (expr_code (fst l) c) < k"
  defines "n \<equiv> length (expr_code (fst l) c) + 1"
  shows "steps ovf n s = Some (moved (if b then i + n else t) n (stack s) s)"
proof -
  let ?t = "moved (i + length (expr_code (fst l) c)) (length (expr_code (fst l) c)) (stack s @ [enc (BoolV b)]) s"
  have "steps ovf (length (expr_code (fst l) c)) s = Some ?t"
    using expr_steps(1) [OF assms(1,2)] assms(3) by simp
  moreover have "steps ovf 1 ?t = Some (moved (if b then Suc (inst_ptr ?t) else t) 1 (stack s) ?t)"
    using assms(1,3) by (intro jump_false_step) (auto simp: starts_def code_at_append)
  ultimately show ?thesis
    using steps_trans unfolding n_def by (cases b) fastforce+
qed

text \<open>The state at the head of a part of the code.\<close>

lemma starts_moved:
  assumes "starts s l \<rho> i c k" "code_at (vm_program s) pc d" "length d \<le> length c" "n + m \<le> k"
  shows "starts (moved pc n (stack s) s) l \<rho> pc d m"
  using assms by (auto simp: starts_def)

definition sim :: "bool \<Rightarrow> layout \<Rightarrow> (string \<Rightarrow> val option) \<Rightarrow> nat \<Rightarrow> inst list \<Rightarrow> layout \<Rightarrow> nat \<Rightarrow> outcome \<Rightarrow> bool"
  where
  "sim ovf l \<rho> i c m exit r \<longleftrightarrow> (\<exists>k. \<forall>s. starts s l \<rho> i c k \<longrightarrow> reaches ovf k s m exit r)"

lemma sim_decl:
  assumes "eval \<rho> e = Some v" "fst l x = None" "lay l"
  shows "sim ovf l \<rho> i (expr_code (fst l) e @ [StoreLocal (int (snd l))])
    ((fst l)(x \<mapsto> (snd l, t)), Suc (snd l)) (i + length (expr_code (fst l) e) + 1) (Normal (\<rho>(x \<mapsto> v)))"
  unfolding sim_def
proof (intro exI allI impI)
  fix s
  let ?n = "length (expr_code (fst l) e)"
  assume s: "starts s l \<rho> i (expr_code (fst l) e @ [StoreLocal (int (snd l))]) (?n + 1)"
  let ?t = "moved (i + ?n) ?n (stack s @ [enc v]) s"
  have 1: "steps ovf ?n s = Some ?t" and ok: "val_ok v" using expr_steps [OF s assms(1)] by simp_all
  have h: "holds l \<rho> (fp s) (stack s)" using s by (simp add: starts_def)
  have 2: "steps ovf 1 ?t = Some (moved (Suc (i + ?n)) 1 (put (stack s) (fp s + snd l) (enc v)) ?t)"
    using s store_step [of ?t "snd l" "stack s" "enc v" ovf] h
    by (auto simp: starts_def code_at_append holds_def)
  have "holds ((fst l)(x \<mapsto> (snd l, t)), Suc (snd l)) (\<rho>(x \<mapsto> v)) (fp s) (put (stack s) (fp s + snd l) (enc v))"
    using holds_declare [of "fst l" "snd l"] h assms ok by simp
  moreover have "take (fp s) (put (stack s) (fp s + snd l) (enc v)) = take (fp s) (stack s)"
    using h by (auto simp: holds_def intro: take_put)
  moreover have "steps ovf (?n + 1) s
      = Some (moved (i + ?n + 1) (?n + 1) (put (stack s) (fp s + snd l) (enc v)) s)"
    using steps_trans [OF 1 2] by simp
  ultimately
  show "reaches ovf (?n + 1) s ((fst l)(x \<mapsto> (snd l, t)), Suc (snd l)) (i + ?n + 1) (Normal (\<rho>(x \<mapsto> v)))"
    by (intro reaches_NormalI)
qed

lemma sim_assign:
  assumes "eval \<rho> e = Some v" "fst l x = Some (slot, t)" "lay l"
  shows "sim ovf l \<rho> i (expr_code (fst l) e @ [Dup, StoreLocal (int slot), Pop])
    l (i + length (expr_code (fst l) e) + 3) (Normal (\<rho>(x \<mapsto> v)))"
  unfolding sim_def
proof (intro exI allI impI)
  fix s
  let ?n = "length (expr_code (fst l) e)"
  assume s: "starts s l \<rho> i (expr_code (fst l) e @ [Dup, StoreLocal (int slot), Pop]) (?n + 3)"
  have h: "holds l \<rho> (fp s) (stack s)" using s by (simp add: starts_def)
  have "slot < snd l" using assms(2,3) by (auto simp: lay_def)
  with h have len: "fp s + slot < length (stack s)" by (simp add: holds_def)
  let ?st = "put (stack s) (fp s + slot) (enc v)"
  let ?t = "moved (i + ?n) ?n (stack s @ [enc v]) s"
  let ?u = "moved (Suc (i + ?n)) 1 (stack s @ [enc v, enc v]) ?t"
  let ?w = "moved (Suc (Suc (i + ?n))) 1 (?st @ [enc v]) ?u"
  have 1: "steps ovf ?n s = Some ?t" and ok: "val_ok v" using expr_steps [OF s assms(1)] by simp_all
  have 2: "steps ovf 1 ?t = Some ?u"
    using s dup_step [of ?t "stack s" "enc v" ovf] by (auto simp: starts_def code_at_append)
  have 3: "steps ovf 1 ?u = Some ?w"
    using s store_step [of ?u slot "stack s @ [enc v]" "enc v" ovf] len \<open>slot < snd l\<close>
    by (auto simp: starts_def code_at_append put_def list_update_append)
  have 4: "steps ovf 1 ?w = Some (moved (i + ?n + 3) 1 ?st ?w)"
    using s pop_step [of ?w ?st "enc v" ovf] by (auto simp: starts_def code_at_append numeral_3_eq_3)
  have "steps ovf (?n + 3) s = Some (moved (i + ?n + 3) (?n + 3) ?st s)"
    using steps_trans [OF 1 steps_trans [OF 2 steps_trans [OF 3 4]]] by (simp add: numeral_3_eq_3)
  moreover have "holds l (\<rho>(x \<mapsto> v)) (fp s) ?st" using holds_assign h assms ok by blast
  ultimately show "reaches ovf (?n + 3) s l (i + ?n + 3) (Normal (\<rho>(x \<mapsto> v)))"
    using len by (intro reaches_NormalI [where st = ?st]) (auto intro: take_put)
qed

lemma sim_return:
  assumes "eval \<rho> e = Some v"
  shows "sim ovf l \<rho> i (expr_code (fst l) e @ [RetVal, Pop]) m exit (Returned v)"
  unfolding sim_def
proof (intro exI allI impI)
  fix s
  let ?n = "length (expr_code (fst l) e)"
  assume s: "starts s l \<rho> i (expr_code (fst l) e @ [RetVal, Pop]) ?n"
  have "steps ovf ?n s = Some (moved (i + ?n) ?n (stack s @ [enc v]) s)"
    using expr_steps [OF s assms] by simp
  with s show "reaches ovf ?n s m exit (Returned v)"
    by (intro reaches_ReturnedI) (auto simp: starts_def code_at_append holds_def)
qed

lemma sim_if:
  assumes "eval \<rho> c = Some (BoolV b)" "sim ovf l \<rho> pc d m exit r"
    and "code_part": "\<And>p. code_at p i (expr_code (fst l) c @ JumpFalse t # rest) \<Longrightarrow> code_at p pc d"
    and "pc = (if b then i + length (expr_code (fst l) c) + 1 else t)" "length d \<le> length rest"
  shows "sim ovf l \<rho> i (expr_code (fst l) c @ JumpFalse t # rest) m exit r"
proof -
  let ?n = "length (expr_code (fst l) c) + 1"
  obtain k where k: "\<And>s. starts s l \<rho> pc d k \<Longrightarrow> reaches ovf k s m exit r"
    using assms(2) by (auto simp: sim_def)
  show ?thesis
    unfolding sim_def
  proof (intro exI allI impI)
    fix s
    assume s: "starts s l \<rho> i (expr_code (fst l) c @ JumpFalse t # rest) (?n + k)"
    have 1: "steps ovf ?n s = Some (moved pc ?n (stack s) s)"
      using cond_steps [OF s assms(1)] assms(4) by (simp add: add.assoc)
    have "starts (moved pc ?n (stack s) s) l \<rho> pc d k"
      using s assms(3,5) by (intro starts_moved [OF s]) (auto simp: starts_def)
    then show "reaches ovf (?n + k) s m exit r"
      using k 1 by (intro reaches_steps) auto
  qed
qed

text \<open>A part whose normal exit is a \<open>Jump\<close>, and a part followed by another.\<close>

lemma sim_then_jump:
  assumes "sim ovf l \<rho> i c m exit r" "\<And>p. code_at p i d \<Longrightarrow> code_at p i c \<and> code_at p exit [Jump t]"
    and "length c \<le> length d"
  shows "sim ovf l \<rho> i d m t r"
proof -
  obtain k where k: "\<And>s. starts s l \<rho> i c k \<Longrightarrow> reaches ovf k s m exit r"
    using assms(1) by (auto simp: sim_def)
  show ?thesis
    unfolding sim_def
  proof (intro exI allI impI)
    fix s assume s: "starts s l \<rho> i d (k + extra r)"
    have "starts s l \<rho> i c k" using s assms(2,3) by (auto simp: starts_def)
    then have "reaches ovf k s m exit r" by (rule k)
    with s assms(2) show "reaches ovf (k + extra r) s m t r"
      by (intro reaches_jump) (auto simp: starts_def)
  qed
qed

lemma sim_then:
  assumes "sim ovf l \<rho> i c m j (Normal \<rho>')" "sim ovf m \<rho>' j d n exit r"
    and "\<And>p. code_at p i e \<Longrightarrow> code_at p i c \<and> code_at p j d"
    and "length c \<le> length e" "snd m + length d \<le> snd l + length e" "lay m"
  shows "sim ovf l \<rho> i e n exit r"
proof -
  obtain k where k: "\<And>s. starts s l \<rho> i c k \<Longrightarrow> reaches ovf k s m j (Normal \<rho>')"
    using assms(1) by (auto simp: sim_def)
  obtain k' where k': "\<And>s. starts s m \<rho>' j d k' \<Longrightarrow> reaches ovf k' s n exit r"
    using assms(2) by (auto simp: sim_def)
  show ?thesis
    unfolding sim_def
  proof (intro exI allI impI)
    fix s assume s: "starts s l \<rho> i e (k + k')"
    have "starts s l \<rho> i c k" using s assms(3,4) by (auto simp: starts_def)
    then obtain st where st: "steps ovf k s = Some (moved j k st s)" "holds m \<rho>' (fp s) st"
      "take (fp s) st = take (fp s) (stack s)"
      using k by (auto simp: reaches_def)
    have "starts (moved j k st s) m \<rho>' j d k'"
      using s st assms(3,5,6) by (auto simp: starts_def)
    with st show "reaches ovf (k + k') s n exit r"
      using k' reaches_steps by blast
  qed
qed

lemma sim_returned:
  assumes "sim ovf l \<rho> i c m j (Returned v)"
    and "\<And>p. code_at p i e \<Longrightarrow> code_at p i c" "length c \<le> length e"
  shows "sim ovf l \<rho> i e n exit (Returned v)"
proof -
  obtain k where k: "\<And>s. starts s l \<rho> i c k \<Longrightarrow> reaches ovf k s m j (Returned v)"
    using assms(1) by (auto simp: sim_def)
  have "reaches ovf k s n exit (Returned v)" if "starts s l \<rho> i e k" for s
  proof -
    have "starts s l \<rho> i c k" using that assms(2,3) by (auto simp: starts_def)
    from k [OF this] show ?thesis by (simp add: reaches_def)
  qed
  then show ?thesis unfolding sim_def by blast
qed

lemma layout_after_block: "is_block (Some b) \<Longrightarrow> layout_after l b = l"
  by (cases b) (simp_all add: layout_after_def)

lemma next_slot_bound: "core V s = Some W \<Longrightarrow> snd (layout_after l s) \<le> snd l + length (stmt_code l i s)"
  by (cases s) (auto simp: layout_after_def split: option.splits)

lemma snd_layout_after: "snd l \<le> snd (layout_after l s)"
  by (cases s) (auto simp: layout_after_def)

lemma snd_layout_afters: "snd l \<le> snd (layout_afters l ss)"
proof (induction ss arbitrary: l)
  case (Cons s ss)
  from snd_layout_after Cons.IH show ?case by (simp only: layout_afters.simps) (rule le_trans)
qed simp

lemma sim_block:
  assumes "sim ovf l \<rho> i c (layout_afters l ss) exit (Normal \<rho>')" "cores (dom (fst l)) ss"
  shows "sim ovf l \<rho> i c l exit (Normal (\<rho>' |` dom \<rho>))"
proof -
  obtain k where k: "\<And>s. starts s l \<rho> i c k \<Longrightarrow> reaches ovf k s (layout_afters l ss) exit (Normal \<rho>')"
    using assms(1) by (auto simp: sim_def)
  have g: "grown l (layout_afters l ss)" using grown_layout_afters [OF assms(2)] by simp
  have "reaches ovf k s l exit (Normal (\<rho>' |` dom \<rho>))" if s: "starts s l \<rho> i c k" for s
  proof -
    obtain st where st: "steps ovf k s = Some (moved exit k st s)" "holds (layout_afters l ss) \<rho>' (fp s) st"
      "take (fp s) st = take (fp s) (stack s)"
      using k [OF s] by (auto simp: reaches_def)
    moreover have "dom \<rho> = dom (fst l)" using s by (simp add: starts_def holds_def)
    ultimately show ?thesis
      using holds_restrict [OF st(2) g _ snd_layout_afters] by (intro reaches_NormalI)
  qed
  then show ?thesis unfolding sim_def by blast
qed

lemma sim_nil: "sim ovf l \<rho> i [] l i (Normal \<rho>)"
  unfolding sim_def
proof (intro exI allI impI)
  fix s assume s: "starts s l \<rho> i [] 0"
  then have "steps ovf 0 s = Some (moved i 0 (stack s) s)" using moved_0 [of s] by (auto simp: starts_def)
  with s show "reaches ovf 0 s l i (Normal \<rho>)" by (intro reaches_NormalI) (auto simp: starts_def)
qed

lemma simulation:
  "big s \<rho> r \<Longrightarrow> core (dom (fst l)) s = Some W \<Longrightarrow> lay l \<Longrightarrow>
    sim ovf l \<rho> i (stmt_code l i s) (layout_after l s) (i + length (stmt_code l i s)) r"
  "bigs ss \<rho> r \<Longrightarrow> cores (dom (fst l)) ss \<Longrightarrow> lay l \<Longrightarrow>
    sim ovf l \<rho> i (stmts_code l i ss) (layout_afters l ss) (i + length (stmts_code l i ss)) r"
proof (induction arbitrary: l W i and l i rule: big_bigs.inducts)
  case (Decl \<rho> e v x t)
  then have "fst l x = None" by (auto intro: unbound_None split: if_splits)
  with Decl show ?case using sim_decl [of \<rho> e v l x ovf i t] by (simp add: layout_after_def)
next
  case (Assign \<rho> e v x w)
  then obtain slot t where "fst l x = Some (slot, t)" by (auto split: if_splits)
  with Assign show ?case
    using sim_assign [of \<rho> e v l x slot t ovf i] by (simp add: layout_after_def slot_of_def numeral_3_eq_3)
next
  case (Return \<rho> e v)
  then show ?case using sim_return by simp
next
  case (IfTrue \<rho> c b r alt)
  from IfTrue.prems have b: "is_block (Some b)" "core (dom (fst l)) b = Some (dom (fst l))"
    by (auto split: if_splits)
  let ?n = "length (expr_code (fst l) c)"
  let ?bc = "stmt_code l (i + ?n + 1) b"
  have body: "sim ovf l \<rho> (i + ?n + 1) ?bc l (i + ?n + 1 + length ?bc) r"
    using IfTrue.IH [OF b(2) IfTrue.prems(2), of "i + ?n + 1"] layout_after_block [OF b(1)] by simp
  show ?case
  proof (cases alt)
    case None
    have "sim ovf l \<rho> i (expr_code (fst l) c @ JumpFalse (i + ?n + 1 + length ?bc) # ?bc) l
        (i + ?n + 1 + length ?bc) r"
      using body by (intro sim_if [OF IfTrue.hyps(1)]) (auto simp: code_at_append)
    with None show ?thesis by (simp add: Let_def layout_after_def add.assoc)
  next
    case (Some e)
    let ?m = "i + ?n + 1 + length ?bc"
    let ?ec = "stmt_code l (?m + 1) e"
    have "sim ovf l \<rho> (i + ?n + 1) (?bc @ [Jump (?m + 1 + length ?ec)]) l (?m + 1 + length ?ec) r"
      using body by (rule sim_then_jump) (auto simp: code_at_append)
    then have "sim ovf l \<rho> i (expr_code (fst l) c @ JumpFalse (?m + 1) # ?bc @ Jump (?m + 1 + length ?ec) # ?ec)
        l (?m + 1 + length ?ec) r"
      by (rule sim_if [OF IfTrue.hyps(1)]) (auto simp: code_at_append)
    with Some show ?thesis by (simp add: Let_def layout_after_def add.assoc)
  qed
next
  case (IfFalse \<rho> c e r b)
  from IfFalse.prems have e: "is_block (Some e)" "core (dom (fst l)) e = Some (dom (fst l))"
    by (auto split: if_splits)
  let ?n = "length (expr_code (fst l) c)"
  let ?bc = "stmt_code l (i + ?n + 1) b"
  let ?m = "i + ?n + 1 + length ?bc"
  let ?ec = "stmt_code l (?m + 1) e"
  have "sim ovf l \<rho> (?m + 1) ?ec l (?m + 1 + length ?ec) r"
    using IfFalse.IH [OF e(2) IfFalse.prems(2), of "?m + 1"] layout_after_block [OF e(1)] by simp
  then have "sim ovf l \<rho> i (expr_code (fst l) c @ JumpFalse (?m + 1) # ?bc @ Jump (?m + 1 + length ?ec) # ?ec)
      l (?m + 1 + length ?ec) r"
    by (intro sim_if [OF IfFalse.hyps(1)]) (auto simp: code_at_append add.assoc)
  then show ?case by (simp add: Let_def layout_after_def add.assoc)
next
  case (IfNone \<rho> c b)
  let ?n = "length (expr_code (fst l) c)"
  let ?bc = "stmt_code l (i + ?n + 1) b"
  have "sim ovf l \<rho> i (expr_code (fst l) c @ JumpFalse (i + ?n + 1 + length ?bc) # ?bc) l
      (i + ?n + 1 + length ?bc) (Normal \<rho>)"
    by (rule sim_if [OF IfNone(1) sim_nil]) auto
  then show ?case by (simp add: Let_def layout_after_def add.assoc)
next
  case (WhileFalse \<rho> c b)
  let ?n = "length (expr_code (fst l) c)"
  let ?bc = "stmt_code l (i + ?n + 1) b"
  have "sim ovf l \<rho> i (expr_code (fst l) c @ JumpFalse (i + ?n + 1 + length ?bc + 1) # ?bc @ [Jump i]) l
      (i + ?n + 1 + length ?bc + 1) (Normal \<rho>)"
    by (rule sim_if [OF WhileFalse(1) sim_nil]) auto
  then show ?case by (simp add: Let_def layout_after_def add.assoc)
next
  case (WhileTrue \<rho> c b \<rho>' r)
  from WhileTrue.prems have b: "is_block (Some b)" "core (dom (fst l)) b = Some (dom (fst l))"
    by (auto split: if_splits)
  let ?n = "length (expr_code (fst l) c)"
  let ?bc = "stmt_code l (i + ?n + 1) b"
  let ?all = "expr_code (fst l) c @ JumpFalse (i + ?n + 1 + length ?bc + 1) # ?bc @ [Jump i]"
  have "sim ovf l \<rho> (i + ?n + 1) ?bc l (i + ?n + 1 + length ?bc) (Normal \<rho>')"
    using WhileTrue.IH(1) [OF b(2) WhileTrue.prems(2), of "i + ?n + 1"] layout_after_block [OF b(1)] by simp
  then have "sim ovf l \<rho> (i + ?n + 1) (?bc @ [Jump i]) l i (Normal \<rho>')"
    by (rule sim_then_jump) (auto simp: code_at_append)
  then have once: "sim ovf l \<rho> i ?all l i (Normal \<rho>')"
    by (rule sim_if [OF WhileTrue.hyps(1)]) (auto simp: code_at_append)
  have code: "stmt_code l i (StmtWhile c b) = ?all" by (simp add: Let_def)
  have "sim ovf l \<rho>' i ?all l (i + length ?all) r"
    using WhileTrue.IH(2) [OF WhileTrue.prems, of i] unfolding code by (simp add: layout_after_def)
  with once have "sim ovf l \<rho> i ?all l (i + length ?all) r"
    by (rule sim_then) (use WhileTrue.prems(2) in auto)
  then show ?case unfolding code by (simp add: layout_after_def)
next
  case (WhileReturn \<rho> c b v)
  from WhileReturn.prems have b: "is_block (Some b)" "core (dom (fst l)) b = Some (dom (fst l))"
    by (auto split: if_splits)
  let ?n = "length (expr_code (fst l) c)"
  let ?bc = "stmt_code l (i + ?n + 1) b"
  have "sim ovf l \<rho> (i + ?n + 1) ?bc l (i + ?n + 1 + length ?bc) (Returned v)"
    using WhileReturn.IH [OF b(2) WhileReturn.prems(2), of "i + ?n + 1"] layout_after_block [OF b(1)] by simp
  then have "sim ovf l \<rho> i (expr_code (fst l) c @ JumpFalse (i + ?n + 1 + length ?bc + 1) # ?bc @ [Jump i]) l
      (i + ?n + 1 + length ?bc) (Returned v)"
    by (rule sim_if [OF WhileReturn.hyps(1)]) (auto simp: code_at_append)
  then show ?case by (rule sim_returned) (auto simp: Let_def)
next
  case (BlockNormal ss \<rho> \<rho>' j)
  then have c: "cores (dom (fst l)) ss" by (auto split: if_splits)
  from sim_block [OF BlockNormal.IH [OF c BlockNormal.prems(2)] c]
  show ?case by (simp add: layout_after_def)
next
  case (BlockReturn ss \<rho> v j)
  then have "cores (dom (fst l)) ss" by (auto split: if_splits)
  with BlockReturn.IH [of l i] BlockReturn.prems(2)
  have "sim ovf l \<rho> i (stmts_code l i ss) (layout_afters l ss) (i + length (stmts_code l i ss)) (Returned v)"
    by blast
  then show ?case by (rule sim_returned) auto
next
  case (Nil \<rho>)
  then show ?case by (simp add: sim_nil)
next
  case (Cons s \<rho> \<rho>' ss r)
  then obtain W where W: "core (dom (fst l)) s = Some W" "cores W ss" by (auto split: option.splits)
  let ?c = "stmt_code l i s" and ?m = "layout_after l s"
  have W': "W = dom (fst ?m)" using dom_layout_after [OF W(1) refl] .
  have lay: "lay ?m" using lay_layout_after [OF W(1) Cons.prems(2)] .
  have 1: "sim ovf l \<rho> i ?c ?m (i + length ?c) (Normal \<rho>')"
    using Cons.IH(1) [OF W(1) Cons.prems(2)] .
  have 2: "sim ovf ?m \<rho>' (i + length ?c) (stmts_code ?m (i + length ?c) ss) (layout_afters ?m ss)
      (i + length ?c + length (stmts_code ?m (i + length ?c) ss)) r"
    using Cons.IH(2) [of ?m "i + length ?c"] W W' lay by blast
  have "sim ovf l \<rho> i (?c @ stmts_code ?m (i + length ?c) ss) (layout_afters ?m ss)
      (i + length ?c + length (stmts_code ?m (i + length ?c) ss)) r"
    using next_slot_bound [OF W(1), of l i] lay by (intro sim_then [OF 1 2]) (auto simp: code_at_append)
  then show ?case by (simp add: Let_def add.assoc)
next
  case (ConsReturn s \<rho> v ss)
  then obtain W where W: "core (dom (fst l)) s = Some W" by (auto split: option.splits)
  from ConsReturn.IH [OF W ConsReturn.prems(2), of i] show ?case
    by (rule sim_returned) (auto simp: Let_def code_at_append)
qed

section \<open>The whole program\<close>

definition start_program :: "ty \<Rightarrow> ast list \<Rightarrow> nat \<Rightarrow> nat \<Rightarrow> sol_program" where
  "start_program t body i j = [DeclFunc ''start'' [] t (Block body i) j]"

definition start_code :: "ast list \<Rightarrow> inst list" where
  "start_code body =
     (let bc = stmts_code (Map.empty, 0) 1 body
      in Jump (length bc + 2) # bc @ [Ret, Call 1 0])"

lemma lay_empty: "lay (Map.empty, n)"
  by (simp add: lay_def typed_locals_def)

lemma gen_start:
  assumes "cores {} body"
  shows "gen_bcode (start_program t body i j) (codegen_from tables) = Inr (start_code body)"
proof -
  let ?l = "(Map.empty, 0) :: layout"
  define g where "g = (codegen_from tables)\<lparr>insts := [Jump 0], fn_addrs := [''start'' \<mapsto> 1],
    fn_returns := [''start'' \<mapsto> t]\<rparr>"
  obtain h where h: "push_scope j (extended g [] ?l) = Inr (extended h [] ?l)" "insts h = insts g"
    "\<And>c. pop_scope j (extended h c ?l) = Inr (extended g c ?l)"
    using scopes_balanced by blast
  have g: "g = extended g [] ?l" by (simp add: g_def extended_def codegen_from_def)
  have ln: "length (insts h) = 1" using h(2) by (simp add: g_def)
  have body: "compile (Block body i) (extended h [] ?l)
      = Inr (extended h (stmts_code ?l (length (insts h)) body) ?l)"
    using assms compile_stmt by (intro block_extended) (auto simp: lay_empty)
  let ?bc = "stmts_code ?l 1 body"
  have "compile (DeclFunc ''start'' [] t (Block body i) j) (codegen_from tables)
      = seq [push_scope j, compile (Block body i), push_inst Ret, pop_scope j,
          here (\<lambda>e. patch 0 (Jump e))] g"
    by (simp add: gen_func_def seq.simps here_def push_inst_def modify_def vpush_def codegen_from_def g_def)
  also have "\<dots> = seq [push_scope j, compile (Block body i), push_inst Ret, pop_scope j,
          here (\<lambda>e. patch 0 (Jump e))] (extended g [] ?l)"
    by (subst g) (rule refl)
  also have "\<dots> = here (\<lambda>e. patch 0 (Jump e)) (extended g (?bc @ [Ret]) ?l)"
    using h(1,3) body ln
    by (simp only: seq.simps sum.case push_inst_extended) (simp add: seq.simps split: sum.split)
  also have "\<dots> = Inr (extended g (?bc @ [Ret]) ?l \<lparr>insts := Jump (length ?bc + 2) # ?bc @ [Ret]\<rparr>)"
    by (simp add: here_def patch_def extended_def g_def)
  finally have "compile (DeclFunc ''start'' [] t (Block body i) j) (codegen_from tables)
      = Inr (extended g (?bc @ [Ret]) ?l \<lparr>insts := Jump (length ?bc + 2) # ?bc @ [Ret]\<rparr>)" .
  then show ?thesis
    by (simp add: gen_bcode_def gen_stmts_def start_program_def struct_layout_def seq.simps Let_def
        start_code_def) (simp add: extended_def g_def codegen_from_def)
qed

lemma step_run: "step ovf s = (t, Next None) \<Longrightarrow> run ovf s = run ovf t"
  by (subst run.simps) simp

text \<open>From the start of the machine to the first instruction of the body: a jump and the call.\<close>

definition in_start :: "inst list \<Rightarrow> nat \<Rightarrow> vm" where
  "in_start code f =
     (vm_from code)\<lparr>fuel := f - 2, steps_taken := 2, inst_ptr := 1,
       call_stack := [\<lparr>return_ptr = length code, old_fp = 0\<rparr>]\<rparr>"

lemma run_start:
  assumes "2 < f"
  shows "run ovf ((vm_from (start_code body))\<lparr>fuel := f\<rparr>) = run ovf (in_start (start_code body) f)"
proof -
  let ?bc = "stmts_code (Map.empty, 0) 1 body" and ?code = "start_code body"
  let ?s = "(vm_from ?code)\<lparr>fuel := f\<rparr>"
  let ?t = "?s\<lparr>fuel := f - 1, steps_taken := 1, inst_ptr := length ?bc + 2\<rparr>"
  have code: "?code ! 0 = Jump (length ?bc + 2)" "?code ! (length ?bc + 2) = Call 1 0"
    "length ?code = length ?bc + 3"
    by (simp_all add: start_code_def Let_def nth_append)
  have "step ovf ?s = (?t, Next None)"
    using code assms by (simp add: step_def vm_from_def vm_new_def fetch_def finish_step_def)
  moreover have "step ovf ?t = (in_start ?code f, Next None)"
    using code assms
    by (simp add: step_def vm_from_def vm_new_def fetch_def finish_step_def exec_call_def in_start_def)
  ultimately show ?thesis using step_run by metis
qed

text \<open>\<open>RetVal\<close> in \<open>start\<close> ends the run with the value on top of the stack.\<close>

lemma run_return:
  assumes "ready s" "vm_program s ! inst_ptr s = RetVal" "inst_ptr s < length (vm_program s)" "0 < fuel s"
    and "call_stack s = [\<lparr>return_ptr = length (vm_program s), old_fp = 0\<rparr>]" "stack s = st @ [w]" "fp s = 0"
  shows "\<exists>s'. run ovf s = Some (s', Inr w)"
proof -
  let ?t = "(fetch s)\<lparr>stack := [w], call_stack := [], fp := 0, inst_ptr := length (vm_program s)\<rparr>"
  have "exec ovf RetVal (fetch s) = (?t, Fall)"
    using assms pop_snoc [of "fetch s" st w]
    by (simp add: exec_ret_val_def leave_frame_def push_stack fetch_def)
  then have "step ovf s = (?t, Next None)"
    using assms by (simp add: step_def ready_def finish_step_def) (simp add: fetch_def)
  then have "run ovf s = run ovf ?t" by (rule step_run)
  moreover have last: "step ovf ?t = (?t\<lparr>is_done := True, stack := []\<rparr>, Next (Some w))"
    using assms by (simp add: step_def ready_def fetch_def vpop_def)
  have "run ovf ?t = Some (?t\<lparr>is_done := True, stack := []\<rparr>, Inr w)"
    by (subst run.simps) (simp only: last prod.case step_result.case option.case)
  ultimately show ?thesis by auto
qed

lemma run_core_program:
  assumes "bigs body Map.empty (Returned v)" "cores {} body" "length (start_code body) < 2 ^ 63"
  shows "\<exists>n. \<forall>f > n. \<exists>s'. run ovf ((vm_from (start_code body))\<lparr>fuel := f\<rparr>) = Some (s', Inr (enc v))"
proof -
  let ?l = "(Map.empty, 0) :: layout" and ?code = "start_code body"
  let ?bc = "stmts_code ?l 1 body"
  obtain k where k: "\<And>s. starts s ?l Map.empty 1 ?bc k \<Longrightarrow>
      reaches ovf k s (layout_afters ?l body) (1 + length ?bc) (Returned v)"
    using simulation(2) [OF assms(1), of ?l ovf 1] assms(2) by (auto simp: lay_empty sim_def)
  have "\<exists>s'. run ovf ((vm_from ?code)\<lparr>fuel := f\<rparr>) = Some (s', Inr (enc v))" if f: "k + 2 < f" for f
  proof -
    let ?s = "in_start ?code f"
    have s: "vm_program ?s = ?code" "inst_ptr ?s = 1" "fp ?s = 0" "stack ?s = []" "ready ?s"
      "fuel ?s = f - 2" "call_stack ?s = [\<lparr>return_ptr = length ?code, old_fp = 0\<rparr>]"
      by (simp_all add: in_start_def vm_from_def vm_new_def ready_def)
    have "code_at ([Jump (length ?bc + 2)] @ ?bc @ [Ret, Call 1 0]) (length [Jump (length ?bc + 2)]) ?bc"
      by (rule code_at_middle)
    then have "code_at ?code 1 ?bc" by (simp add: start_code_def Let_def)
    then have "starts ?s ?l Map.empty 1 ?bc k"
      using s f assms(3) by (simp add: starts_def lay_empty holds_def start_code_def Let_def)
    from k [OF this] obtain st pc where
      st: "steps ovf k ?s = Some (moved pc k (st @ [enc v]) ?s)" "pc < length ?code" "?code ! pc = RetVal"
      by (auto simp: reaches_def s)
    have "\<exists>s'. run ovf (moved pc k (st @ [enc v]) ?s) = Some (s', Inr (enc v))"
      using st s f by (intro run_return [where st = st]) auto
    then show ?thesis using run_start [of f ovf body] run_steps [OF st(1)] f by simp
  qed
  then show ?thesis by blast
qed

end
