(* ===== verification/Sol_Analyzer.thy ===== *)
theory Sol_Analyzer
  imports Sol_Symbol
begin

text \<open>
  The semantic analyzer (\<open>Analyzer\<close> of \<open>sol/analyzer.rs\<close>): symbol tables in an arena, the stack of
  the open tables, and \<open>check\<close>, which walks the syntax, fills in the \<open>scope\<close> of functions and
  blocks, and yields the type of a node. A panic is a value of \<open>analysis_error\<close>, one constructor per
  \<open>panic!\<close> site; the \<open>None\<close> that the source's \<open>?\<close> passes on is \<open>None\<close> here. As the source updates
  nodes in place, an action returns the updated node along with the type.
\<close>

section \<open>State and errors\<close>

record analyzer =
  tt_arena :: "type_table list"
  tts :: "nat list"
  can_break :: bool
  can_return :: bool
  return_type :: "ty option"

definition analyzer_new :: analyzer where
  "analyzer_new =
     \<lparr>tt_arena = [], tts = [], can_break = False, can_return = False, return_type = None\<rparr>"

datatype analysis_error =
    UnwrapOnNone | IndexOutOfBounds
  | Redefinition string
  | NoReturnOnAllPaths string ty
  | ConditionNotBool ty
  | IterableUnknown | IterableNotList ty
  | AssignBeforeInit string | AssignToNonVariable string
  | MismatchedArithmetic ty token ty | ArithmeticUnsupported token ty
  | MismatchedComparison ty token ty
  | LogicalNeedsBool token | BitwiseNeedsInteger token
  | MismatchedAssignment ty token ty
  | UnsupportedBinary token
  | NegateNonNumber ty | NotUnsupported ty | InvertNonInteger | UnsupportedUnary token
  | WrongArity string nat nat
  | ArgumentMismatch string ty nat ty
  | UndefinedFunction string | CallNonFunction string
  | NotStructValue ty | StructNotFound string | NotAStruct string | NoMember string string
  | EnumNotFound string | NotAnEnum string | NoVariant string string
  | BadIndexType | IndexNonArray
  | IllegalReturn | ReturnMismatch ty ty
  | VariableNotFound string | NotAVariable string
  | NotImplemented ast

type_synonym 'a action = "analyzer \<Rightarrow> analysis_error + ('a \<times> analyzer)"

definition ret :: "'a \<Rightarrow> 'a action" where
  "ret x a = Inr (x, a)"

definition panic :: "analysis_error \<Rightarrow> 'a action" where
  "panic e a = Inl e"

definition and_then :: "'a action \<Rightarrow> ('a \<Rightarrow> 'b action) \<Rightarrow> 'b action" where
  "and_then m k a = (case m a of Inl e \<Rightarrow> Inl e | Inr (x, a') \<Rightarrow> k x a')"

definition get :: "(analyzer \<Rightarrow> 'a) \<Rightarrow> 'a action" where
  "get f a = Inr (f a, a)"

definition update :: "(analyzer \<Rightarrow> analyzer) \<Rightarrow> unit action" where
  "update f a = Inr ((), f a)"

section \<open>Tables\<close>

definition new_table :: "nat action" where
  "new_table a =
     (let n = length (tt_arena a)
      in Inr (n, a\<lparr>tt_arena := vpush (tt_arena a) [], tts := vpush (tts a) n\<rparr>))"

definition pop_table :: "unit action" where
  "pop_table = update (\<lambda>a. a\<lparr>tts := butlast (tts a)\<rparr>)"

definition insert_entry :: "string \<Rightarrow> symbol \<Rightarrow> unit action" where
  "insert_entry name symb a =
     (if tts a = [] then Inl UnwrapOnNone
      else case vget (tt_arena a) (last (tts a)) of
             None \<Rightarrow> Inl IndexOutOfBounds
           | Some table \<Rightarrow>
               (case map_of table name of
                  Some _ \<Rightarrow> Inl (Redefinition name)
                | None \<Rightarrow>
                    Inr ((), a\<lparr>tt_arena := (tt_arena a)[last (tts a) := hm_insert name symb table]\<rparr>)))"

definition add_entry :: "string \<Rightarrow> symbol \<Rightarrow> unit action" where
  "add_entry name symb =
     and_then (get (\<lambda>a. tt_arena a = []))
       (\<lambda>fresh. if fresh then and_then new_table (\<lambda>_. insert_entry name symb)
                else insert_entry name symb)"

fun find_entry :: "type_table list \<Rightarrow> nat list \<Rightarrow> string \<Rightarrow> analysis_error + symbol option" where
  "find_entry arena [] name = Inr None"
| "find_entry arena (i # is) name =
     (case vget arena i of
        None \<Rightarrow> Inl IndexOutOfBounds
      | Some table \<Rightarrow>
          (case map_of table name of
             Some symb \<Rightarrow> Inr (Some symb)
           | None \<Rightarrow> find_entry arena is name))"

definition get_entry :: "string \<Rightarrow> symbol option action" where
  "get_entry name a =
     (case find_entry (tt_arena a) (rev (tts a)) name of
        Inl e \<Rightarrow> Inl e | Inr r \<Rightarrow> Inr (r, a))"

section \<open>Checked children\<close>

text \<open>
  The action \<open>self.check(node)\<close>. \<open>question\<close> is \<open>self.check(child)?\<close>: on \<open>None\<close> the enclosing node,
  rebuilt around the child, is left at once.
\<close>

type_synonym checked = "(ty option \<times> ast) action"

definition question :: "checked \<Rightarrow> (ast \<Rightarrow> ast) \<Rightarrow> (ty \<Rightarrow> ast \<Rightarrow> checked) \<Rightarrow> checked" where
  "question m rebuild k =
     and_then m (\<lambda>(t, node). case t of None \<Rightarrow> ret (None, rebuild node) | Some kind \<Rightarrow> k kind node)"

text \<open>\<open>for arg in args { self.check(arg); }\<close>\<close>

fun check_all :: "checked list \<Rightarrow> ast list action" where
  "check_all [] = ret []"
| "check_all (m # ms) =
     and_then m (\<lambda>(_, node). and_then (check_all ms) (\<lambda>nodes. ret (node # nodes)))"

text \<open>
  \<open>for (i, arg) in \<dots> { let t = self.check(arg)?; \<dots> }\<close>: \<open>bad i t\<close> is the panic of the loop body, if
  any. The result is \<open>None\<close> when \<open>?\<close> left the loop, else the last type.
\<close>

fun check_each :: "(nat \<Rightarrow> ty \<Rightarrow> analysis_error option) \<Rightarrow> nat \<Rightarrow> ty option \<Rightarrow> (ast \<times> checked) list \<Rightarrow>
    (ty option option \<times> ast list) action" where
  "check_each bad i prev [] = ret (Some prev, [])"
| "check_each bad i prev ((node, m) # ms) =
     and_then m (\<lambda>(t, node').
       case t of
         None \<Rightarrow> ret (None, node' # map fst ms)
       | Some kind \<Rightarrow>
           (case bad i kind of
              Some e \<Rightarrow> panic e
            | None \<Rightarrow>
                and_then (check_each bad (Suc i) (Some kind) ms)
                  (\<lambda>(r, nodes). ret (r, node' # nodes))))"

section \<open>Declarations and statements\<close>

fun block_always_returns :: "ast \<Rightarrow> bool" where
  "block_always_returns (Block stmts _) = (\<exists>stmt \<in> set stmts. block_always_returns stmt)"
| "block_always_returns (ExprReturn _) = True"
| "block_always_returns StmtRethrow = True"
| "block_always_returns (StmtIf _ body (Some else_branch)) =
     (block_always_returns body \<and> block_always_returns else_branch)"
| "block_always_returns (StmtTry body catches) =
     (block_always_returns body \<and>
      (\<forall>(_, catch_body) \<in> set catches. block_always_returns catch_body))"
| "block_always_returns _ = False"

fun add_params :: "(string \<times> ty) list \<Rightarrow> unit action" where
  "add_params [] = ret ()"
| "add_params ((pname, kind) # ps) =
     and_then (add_entry pname (SymVariable kind)) (\<lambda>_. add_params ps)"

definition function_type :: "(string \<times> ty) list \<Rightarrow> ty \<Rightarrow> ty" where
  "function_type params rt = TyFunction (map snd params) rt"

text \<open>
  The body of a function, under the declared return type: checked, then required to return on every
  path unless the function is \<open>void\<close>; the flags are restored at the end.
\<close>

definition function_body :: "string \<Rightarrow> ty \<Rightarrow> checked \<Rightarrow> ast action" where
  "function_body name rt body =
     and_then (get can_return) (\<lambda>old_can_return.
     and_then (get return_type) (\<lambda>old_return_type.
     and_then (update (\<lambda>a. a\<lparr>can_return := True, return_type := Some rt\<rparr>)) (\<lambda>_.
     and_then body (\<lambda>(_, body').
       if rt \<noteq> TyVoid \<and> \<not> block_always_returns body' then panic (NoReturnOnAllPaths name rt)
       else
         and_then (update (\<lambda>a. a\<lparr>can_return := old_can_return, return_type := old_return_type\<rparr>))
           (\<lambda>_. ret body')))))"

definition check_func :: "string \<Rightarrow> (string \<times> ty) list \<Rightarrow> ty \<Rightarrow> checked \<Rightarrow> checked" where
  "check_func name params rt body =
     and_then new_table (\<lambda>scope.
     and_then (and_then (add_params params) (\<lambda>_. function_body name rt body)) (\<lambda>body'.
     and_then pop_table (\<lambda>_.
       ret (Some (function_type params rt), DeclFunc name params rt body' scope))))"

definition check_entry :: "string \<Rightarrow> symbol \<Rightarrow> ty \<Rightarrow> ast \<Rightarrow> checked" where
  "check_entry name symb kind node = and_then (add_entry name symb) (\<lambda>_. ret (Some kind, node))"

definition check_block :: "(ast \<times> checked) list \<Rightarrow> nat \<Rightarrow> checked" where
  "check_block stmts scope =
     (if stmts = [] then ret (Some TyVoid, Block [] scope)
      else
        and_then new_table (\<lambda>scope'.
        and_then (check_each (\<lambda>_ _. None) 0 None stmts) (\<lambda>(r, stmts').
          case r of
            None \<Rightarrow> ret (None, Block stmts' scope')
          | Some lst \<Rightarrow> and_then pop_table (\<lambda>_. ret (lst, Block stmts' scope')))))"

definition check_import :: "string list \<Rightarrow> string option \<Rightarrow> checked" where
  "check_import path alias =
     (case alias of
        Some a \<Rightarrow> check_entry a (SymVariable TyVoid) TyVoid (StmtImport path alias)
      | None \<Rightarrow> ret (Some TyVoid, StmtImport path alias))"

definition check_if :: "checked \<Rightarrow> ast \<times> checked \<Rightarrow> (ast \<times> checked) option \<Rightarrow> checked" where
  "check_if condition body alt =
     question condition (\<lambda>c. StmtIf c (fst body) (map_option fst alt)) (\<lambda>cond c.
       if \<not> types_match cond TyBool then panic (ConditionNotBool cond)
       else
         and_then (snd body) (\<lambda>(_, body').
           case alt of
             Some alt_block \<Rightarrow>
               and_then (snd alt_block) (\<lambda>(_, alt'). ret (Some TyVoid, StmtIf c body' (Some alt')))
           | None \<Rightarrow> ret (Some TyVoid, StmtIf c body' None)))"

text \<open>The body of a loop: \<open>can_break\<close> is set around it.\<close>

definition loop_body :: "checked \<Rightarrow> ast action" where
  "loop_body body =
     and_then (get can_break) (\<lambda>old.
     and_then (update (\<lambda>a. a\<lparr>can_break := True\<rparr>)) (\<lambda>_.
     and_then body (\<lambda>(_, body').
     and_then (update (\<lambda>a. a\<lparr>can_break := old\<rparr>)) (\<lambda>_. ret body'))))"

definition check_while :: "checked \<Rightarrow> ast \<times> checked \<Rightarrow> checked" where
  "check_while condition body =
     question condition (\<lambda>c. StmtWhile c (fst body)) (\<lambda>cond c.
       if \<not> types_match cond TyBool then panic (ConditionNotBool cond)
       else and_then (loop_body (snd body)) (\<lambda>body'. ret (Some TyVoid, StmtWhile c body')))"

definition check_for :: "string \<Rightarrow> checked \<Rightarrow> checked \<Rightarrow> checked" where
  "check_for elem_name array body =
     and_then array (\<lambda>(arr_type, array').
       case arr_type of
         None \<Rightarrow> panic IterableUnknown
       | Some kind \<Rightarrow>
           (case (case kind of TyArray _ inner \<Rightarrow> Some inner | TyList \<Rightarrow> Some TyString | _ \<Rightarrow> None) of
              None \<Rightarrow> panic (IterableNotList kind)
            | Some elem_type \<Rightarrow>
                and_then (add_entry elem_name (SymVariable elem_type)) (\<lambda>_.
                and_then (loop_body body) (\<lambda>body'.
                  ret (Some TyVoid, StmtFor elem_name array' body')))))"

definition check_try :: "checked \<Rightarrow> (string \<times> checked) list \<Rightarrow> checked" where
  "check_try body catches =
     and_then body (\<lambda>(_, body').
     and_then (check_all (map snd catches)) (\<lambda>catches'.
       ret (Some TyVoid, StmtTry body' (zip (map fst catches) catches'))))"

section \<open>Expressions\<close>

definition check_assign :: "string \<Rightarrow> checked \<Rightarrow> checked" where
  "check_assign var_name v =
     and_then (get_entry var_name) (\<lambda>entry.
       case entry of
         None \<Rightarrow> panic (AssignBeforeInit var_name)
       | Some (SymVariable var_type) \<Rightarrow>
           question v (ExprAssign var_name) (\<lambda>rhs_type v'.
             if \<not> types_match var_type rhs_type then panic (AssignBeforeInit var_name)
             else ret (Some rhs_type, ExprAssign var_name v'))
       | Some _ \<Rightarrow> panic (AssignToNonVariable var_name))"

text \<open>The type of \<open>lhs op rhs\<close> from the types of the operands, or the panic.\<close>

definition binary_type :: "token \<Rightarrow> ty \<Rightarrow> ty \<Rightarrow> analysis_error + ty" where
  "binary_type op l r =
     (if op \<in> {Tk Plus, Tk Dash, Tk Star, Tk Slash} then
        (if \<not> types_match l r then Inl (MismatchedArithmetic l op r)
         else if l \<in> {TyInteger, TyFloat} then Inr l
         else if l = TyString \<and> op = Tk Plus then Inr TyString
         else Inl (ArithmeticUnsupported op l))
      else if op \<in> {Tk EqEq, Tk BangEq, Tk MoreThan, Tk LessThan, Tk MoreEq, Tk LessEq} then
        (if \<not> types_match l r then Inl (MismatchedComparison l op r) else Inr TyBool)
      else if op \<in> {Tk AmpAmp, Tk PipePipe} then
        (if l \<noteq> TyBool \<or> r \<noteq> TyBool then Inl (LogicalNeedsBool op) else Inr TyBool)
      else if op \<in> {Tk Ampersand, Tk Pipe, Tk Caret, Tk LShift, Tk RShift} then
        (if l \<noteq> TyInteger \<or> r \<noteq> TyInteger then Inl (BitwiseNeedsInteger op) else Inr TyInteger)
      else if op = Tk Eq then
        (if \<not> types_match l r then Inl (MismatchedAssignment l op r) else Inr l)
      else Inl (UnsupportedBinary op))"

definition check_binary :: "checked \<Rightarrow> ast \<times> checked \<Rightarrow> token \<Rightarrow> checked" where
  "check_binary lhs rhs op =
     question lhs (\<lambda>l. ExprBinary l (fst rhs) op) (\<lambda>lhs_type l.
     question (snd rhs) (\<lambda>r. ExprBinary l r op) (\<lambda>rhs_type r.
       case binary_type op lhs_type rhs_type of
         Inl e \<Rightarrow> panic e
       | Inr kind \<Rightarrow> ret (Some kind, ExprBinary l r op)))"

definition unary_type :: "token \<Rightarrow> ty \<Rightarrow> analysis_error + ty" where
  "unary_type op t =
     (if op = Tk Dash then
        (if \<not> types_match t TyInteger \<and> \<not> types_match t TyFloat then Inl (NegateNonNumber t)
         else Inr t)
      else if op = Tk Bang then
        (if \<not> types_match t TyInteger \<and> \<not> types_match t TyFloat \<and> \<not> types_match t TyBool
         then Inl (NotUnsupported t) else Inr t)
      else if op = Tk Tilde then
        (if \<not> types_match t TyInteger then Inl InvertNonInteger else Inr t)
      else Inl (UnsupportedUnary op))"

definition check_unary :: "checked \<Rightarrow> token \<Rightarrow> checked" where
  "check_unary child op =
     question child (\<lambda>c. ExprUnary c op) (\<lambda>child_type c.
       case unary_type op child_type of
         Inl e \<Rightarrow> panic e
       | Inr kind \<Rightarrow> ret (Some kind, ExprUnary c op))"

text \<open>The list and map built-ins: number of arguments and type of the result.\<close>

definition list_builtin :: "string \<Rightarrow> (nat \<times> ty) option" where
  "list_builtin = map_of
     [(''list_len'', (1, TyInteger)), (''list_get'', (2, TyString)), (''list_get_list'', (2, TyList)),
      (''list_push'', (2, TyList)), (''list_contains'', (2, TyBool)), (''list_join'', (2, TyString)),
      (''list_split'', (2, TyList))]"

definition map_builtin :: "string \<Rightarrow> (nat \<times> ty) option" where
  "map_builtin = map_of
     [(''map_get'', (2, TyString)), (''map_get_map'', (2, TyMap)), (''map_set'', (3, TyMap)),
      (''map_has'', (2, TyBool)), (''map_keys'', (1, TyList)), (''map_len'', (1, TyInteger)),
      (''map_del'', (2, TyMap))]"

definition check_builtin :: "string \<Rightarrow> nat \<times> ty \<Rightarrow> checked list \<Rightarrow> checked" where
  "check_builtin name sig args =
     (if length args \<noteq> fst sig then panic (WrongArity name (fst sig) (length args))
      else and_then (check_all args) (\<lambda>args'. ret (Some (snd sig), ExprFuncCall name args')))"

text \<open>The built-ins without arguments.\<close>

definition nullary_builtin :: "string \<Rightarrow> ty option" where
  "nullary_builtin name =
     (if name = ''error_kind'' \<or> name = ''error_cause'' then Some TyString
      else if name = ''error_retry_hint'' then Some TyInteger
      else if name = ''last_confidence'' then Some TyFloat
      else None)"

definition expect_string :: "string \<Rightarrow> nat \<Rightarrow> ty \<Rightarrow> analysis_error option" where
  "expect_string name i t =
     (if types_match t TyString then None else Some (ArgumentMismatch name TyString i t))"

definition check_args :: "string \<Rightarrow> (nat \<Rightarrow> ty \<Rightarrow> analysis_error option) \<Rightarrow> ty \<Rightarrow>
    (ast \<times> checked) list \<Rightarrow> checked" where
  "check_args name bad kind args =
     and_then (check_each bad 0 None args) (\<lambda>(r, args').
       ret (case r of None \<Rightarrow> None | Some _ \<Rightarrow> Some kind, ExprFuncCall name args'))"

definition check_user_call :: "string \<Rightarrow> (ast \<times> checked) list \<Rightarrow> checked" where
  "check_user_call name args =
     and_then (get_entry name) (\<lambda>entry.
       case entry of
         None \<Rightarrow> panic (UndefinedFunction name)
       | Some (SymVariable (TyFunction params rt)) \<Rightarrow>
           (if length args \<noteq> length params then panic (WrongArity name (length params) (length args))
            else check_args name
                   (\<lambda>i t. if types_match t (params ! i) then None
                          else Some (ArgumentMismatch name (params ! i) i t))
                   rt args)
       | Some _ \<Rightarrow> panic (CallNonFunction name))"

definition check_call :: "string \<Rightarrow> (ast \<times> checked) list \<Rightarrow> checked" where
  "check_call name args =
     (if name = ''print'' then check_args name (\<lambda>_ _. None) TyVoid args
      else if name = ''remote_call'' \<or> name = ''remote_call_stream'' then
        (if length args \<noteq> 3 then panic (WrongArity name 3 (length args))
         else check_args name (expect_string name) TyString args)
      else
        (case nullary_builtin name of
           Some kind \<Rightarrow>
             (if args \<noteq> [] then panic (WrongArity name 0 (length args))
              else ret (Some kind, ExprFuncCall name []))
         | None \<Rightarrow>
             (case list_builtin name of
                Some sig \<Rightarrow> check_builtin name sig (map snd args)
              | None \<Rightarrow>
                  (case map_builtin name of
                     Some sig \<Rightarrow> check_builtin name sig (map snd args)
                   | None \<Rightarrow> check_user_call name args))))"

definition check_mem_acc :: "checked \<Rightarrow> string \<Rightarrow> checked" where
  "check_mem_acc lhs member =
     question lhs (\<lambda>l. ExprMemAcc l member) (\<lambda>lhs_type l.
       case lhs_type of
         TyIdent sname \<Rightarrow>
           and_then (get_entry sname) (\<lambda>entry.
             case entry of
               None \<Rightarrow> panic (StructNotFound sname)
             | Some (SymStruct flds) \<Rightarrow>
                 (case map_of flds member of
                    None \<Rightarrow> panic (NoMember sname member)
                  | Some mem_type \<Rightarrow> ret (Some mem_type, ExprMemAcc l member))
             | Some _ \<Rightarrow> panic (NotAStruct sname))
       | _ \<Rightarrow> panic (NotStructValue lhs_type))"

definition check_enum_var :: "string \<Rightarrow> string \<Rightarrow> checked" where
  "check_enum_var name var =
     and_then (get_entry name) (\<lambda>entry.
       case entry of
         None \<Rightarrow> panic (EnumNotFound name)
       | Some (SymEnum variants) \<Rightarrow>
           (case map_of variants var of
              None \<Rightarrow> panic (NoVariant name var)
            | Some _ \<Rightarrow> ret (Some (TyIdent name), ExprEnumVar name var))
       | Some _ \<Rightarrow> panic (NotAnEnum name))"

definition check_arr_acc :: "checked \<Rightarrow> ast \<times> checked \<Rightarrow> checked" where
  "check_arr_acc lhs index =
     question lhs (\<lambda>l. ExprArrAcc l (fst index)) (\<lambda>lhs_type l.
     question (snd index) (\<lambda>i. ExprArrAcc l i) (\<lambda>index_type i.
       if index_type \<notin> {TyInteger, TyFloat} then panic BadIndexType
       else
         (case lhs_type of
            TyArray _ inner \<Rightarrow> ret (Some inner, ExprArrAcc l i)
          | _ \<Rightarrow> panic IndexNonArray)))"

text \<open>The type a \<open>return\<close> produces, against the declared one.\<close>

definition conclude_return :: "ty \<Rightarrow> ast option \<Rightarrow> checked" where
  "conclude_return actual val' =
     and_then (get return_type) (\<lambda>expected.
       case expected of
         Some kind \<Rightarrow>
           (if \<not> types_match actual kind then panic (ReturnMismatch kind actual)
            else ret (Some actual, ExprReturn val'))
       | None \<Rightarrow> ret (Some actual, ExprReturn val'))"

definition check_return :: "checked option \<Rightarrow> checked" where
  "check_return val =
     and_then (get can_return) (\<lambda>allowed.
       if \<not> allowed then panic IllegalReturn
       else
         (case val of
            Some v \<Rightarrow>
              question v (\<lambda>v'. ExprReturn (Some v')) (\<lambda>actual v'. conclude_return actual (Some v'))
          | None \<Rightarrow> conclude_return TyVoid None))"

definition check_var :: "string \<Rightarrow> checked" where
  "check_var name =
     and_then (get_entry name) (\<lambda>entry.
       case entry of
         None \<Rightarrow> panic (VariableNotFound name)
       | Some (SymVariable var_type) \<Rightarrow> ret (Some var_type, ExprVar name)
       | Some _ \<Rightarrow> panic (NotAVariable name))"

section \<open>The traversal\<close>

function check :: "ast \<Rightarrow> checked" where
  "check (DeclFunc name params rt body scope) = check_func name params rt (check body)"
| "check (DeclVar name kind init) =
     check_entry name (SymVariable kind) kind (DeclVar name kind init)"
| "check (DeclStruct name flds) =
     check_entry name (SymStruct flds) (TyIdent name) (DeclStruct name flds)"
| "check (DeclEnum name variants) =
     check_entry name (SymEnum variants) (TyIdent name) (DeclEnum name variants)"
| "check (Block stmts scope) = check_block (map (\<lambda>stmt. (stmt, check stmt)) stmts) scope"
| "check (StmtImport path alias) = check_import path alias"
| "check (StmtIf condition body alt) =
     check_if (check condition) (body, check body) (map_option (\<lambda>e. (e, check e)) alt)"
| "check (StmtWhile condition body) = check_while (check condition) (body, check body)"
| "check (StmtTry body catches) =
     check_try (check body) (map (\<lambda>(kind, catch_body). (kind, check catch_body)) catches)"
| "check StmtRethrow = ret (Some TyVoid, StmtRethrow)"
| "check (StmtFor elem_name array body) = check_for elem_name (check array) (check body)"
| "check (ExprAssign var_name v) = check_assign var_name (check v)"
| "check (ExprBinary lhs rhs op) = check_binary (check lhs) (rhs, check rhs) op"
| "check (ExprUnary child op) = check_unary (check child) op"
| "check (ExprFuncCall name args) = check_call name (map (\<lambda>arg. (arg, check arg)) args)"
| "check (ExprMemAcc lhs member) = check_mem_acc (check lhs) member"
| "check (ExprEnumVar name var) = check_enum_var name var"
| "check (ExprArrAcc lhs index) = check_arr_acc (check lhs) (index, check index)"
| "check (ExprReturn val) = check_return (map_option check val)"
| "check (ExprInteger v) = ret (Some TyInteger, ExprInteger v)"
| "check (ExprFloat v) = ret (Some TyFloat, ExprFloat v)"
| "check (ExprString v) = ret (Some TyString, ExprString v)"
| "check (ExprChar v) = ret (Some TyChar, ExprChar v)"
| "check (ExprBool v) = ret (Some TyBool, ExprBool v)"
| "check (ExprVar name) = check_var name"
| "check (ExprList elements) =
     and_then (check_all (map check elements)) (\<lambda>elements'. ret (Some TyList, ExprList elements'))"
| "check (ExprMap pairs) =
     and_then (check_all (map (\<lambda>(key, v). check v) pairs)) (\<lambda>vals'.
       ret (Some TyMap, ExprMap (zip (map fst pairs) vals')))"
| "check (ExprStructInit name flds) = panic (NotImplemented (ExprStructInit name flds))"
| "check (ExprArrayInit vals) = panic (NotImplemented (ExprArrayInit vals))"
| "check ExprUndefined = panic (NotImplemented ExprUndefined)"
  by pat_completeness auto

termination check
  by (relation "measure size")
    (auto simp: less_Suc_eq_le intro: size_elem size_snd trans_le_add1)

text \<open>Pass 1 registers the top-level functions, pass 2 checks every declaration.\<close>

fun register_functions :: "sol_program \<Rightarrow> unit action" where
  "register_functions [] = ret ()"
| "register_functions (decl # decls) =
     (case decl of
        DeclFunc name params rt _ _ \<Rightarrow>
          and_then (add_entry name (SymVariable (function_type params rt)))
            (\<lambda>_. register_functions decls)
      | _ \<Rightarrow> register_functions decls)"

definition analyze :: "sol_program \<Rightarrow> sol_program action" where
  "analyze prog =
     and_then new_table (\<lambda>_.
     and_then (register_functions prog) (\<lambda>_.
       check_all (map check prog)))"

end
