(* ===== verification/Sol_Analyzer_Props.thy ===== *)
theory Sol_Analyzer_Props
  imports Sol_Analyzer
begin

text \<open>
  The scope discipline of the analyzer. With at least one open table and valid table identifiers
  (\<open>wf_scopes\<close>), checking a node either panics with a message about the program, never with an
  internal \<open>unwrap\<close> or index failure, or yields a type (so the \<open>None\<close> paths of \<open>?\<close> are dead), closes
  every table it opened, restores the flags, and returns the node unchanged up to its scopes.
\<close>

named_theorems keeps_intros

definition internal :: "analysis_error \<Rightarrow> bool" where
  "internal e \<longleftrightarrow> e = UnwrapOnNone \<or> e = IndexOutOfBounds"

lemma internal_simps [simp]:
  "internal UnwrapOnNone" "internal IndexOutOfBounds"
  "\<not> internal (Redefinition x)" "\<not> internal (NoReturnOnAllPaths x t)" "\<not> internal (ConditionNotBool t)"
  "\<not> internal IterableUnknown" "\<not> internal (IterableNotList t)" "\<not> internal (AssignBeforeInit x)"
  "\<not> internal (AssignToNonVariable x)" "\<not> internal (WrongArity x n m)"
  "\<not> internal (ArgumentMismatch x t n u)" "\<not> internal (UndefinedFunction x)"
  "\<not> internal (CallNonFunction x)" "\<not> internal (NotStructValue t)" "\<not> internal (StructNotFound x)"
  "\<not> internal (NotAStruct x)" "\<not> internal (NoMember x y)" "\<not> internal (EnumNotFound x)"
  "\<not> internal (NotAnEnum x)" "\<not> internal (NoVariant x y)" "\<not> internal BadIndexType"
  "\<not> internal IndexNonArray" "\<not> internal IllegalReturn" "\<not> internal (ReturnMismatch t u)"
  "\<not> internal (VariableNotFound x)" "\<not> internal (NotAVariable x)" "\<not> internal (NotImplemented node)"
  by (simp_all add: internal_def)

lemma not_internal_binary: "binary_type op l r = Inl e \<Longrightarrow> \<not> internal e"
  by (auto simp: binary_type_def internal_def split: if_splits)

lemma not_internal_unary: "unary_type op t = Inl e \<Longrightarrow> \<not> internal e"
  by (auto simp: unary_type_def internal_def split: if_splits)

definition wf_scopes :: "analyzer \<Rightarrow> bool" where
  "wf_scopes a \<longleftrightarrow> tts a \<noteq> [] \<and> (\<forall>i \<in> set (tts a). i < length (tt_arena a))"

definition same_scopes :: "analyzer \<Rightarrow> analyzer \<Rightarrow> bool" where
  "same_scopes a a' \<longleftrightarrow>
     tts a' = tts a \<and> can_break a' = can_break a \<and> can_return a' = can_return a \<and>
     return_type a' = return_type a \<and> length (tt_arena a) \<le> length (tt_arena a')"

lemma same_scopes_refl [simp]: "same_scopes a a"
  by (simp add: same_scopes_def)

lemma same_scopes_trans: "same_scopes a b \<Longrightarrow> same_scopes b c \<Longrightarrow> same_scopes a c"
  by (auto simp: same_scopes_def)

lemma wf_same_scopes: "wf_scopes a \<Longrightarrow> same_scopes a a' \<Longrightarrow> wf_scopes a'"
  by (auto simp: wf_scopes_def same_scopes_def)

section \<open>Actions that keep the scopes\<close>

definition keeps :: "'a action \<Rightarrow> ('a \<Rightarrow> bool) \<Rightarrow> bool" where
  "keeps m Q \<longleftrightarrow>
     (\<forall>a. wf_scopes a \<longrightarrow>
        (case m a of Inl e \<Rightarrow> \<not> internal e | Inr (x, a') \<Rightarrow> same_scopes a a' \<and> Q x))"

lemma keepsD:
  assumes "keeps m Q" "wf_scopes a"
  shows "m a = Inl e \<Longrightarrow> \<not> internal e"
    and "m a = Inr (x, a') \<Longrightarrow> same_scopes a a' \<and> wf_scopes a' \<and> Q x"
  using assms wf_same_scopes unfolding keeps_def by fastforce+

lemma keepsI:
  assumes "\<And>a e. wf_scopes a \<Longrightarrow> m a = Inl e \<Longrightarrow> \<not> internal e"
    and "\<And>a x a'. wf_scopes a \<Longrightarrow> m a = Inr (x, a') \<Longrightarrow> same_scopes a a' \<and> Q x"
  shows "keeps m Q"
  unfolding keeps_def
proof (intro allI impI)
  fix a assume "wf_scopes a"
  with assms show "case m a of Inl e \<Rightarrow> \<not> internal e | Inr (x, a') \<Rightarrow> same_scopes a a' \<and> Q x"
    by (cases "m a") auto
qed

lemma keeps_ret [keeps_intros]: "Q x \<Longrightarrow> keeps (ret x) Q"
  by (simp add: keeps_def ret_def)

lemma keeps_panic [keeps_intros]: "\<not> internal e \<Longrightarrow> keeps (panic e) Q"
  by (simp add: keeps_def panic_def)

lemma keeps_then:
  assumes m: "keeps m P" and k: "\<And>x. P x \<Longrightarrow> keeps (k x) Q"
  shows "keeps (and_then m k) Q"
proof (rule keepsI)
  fix a e assume a: "wf_scopes a" "and_then m k a = Inl e"
  show "\<not> internal e"
  proof (cases "m a")
    case (Inr p)
    obtain x b where p: "p = (x, b)" by (cases p)
    with keepsD(2) [OF m a(1)] Inr have "wf_scopes b" "P x" by auto
    with keepsD(1) [OF k] a(2) Inr p show ?thesis by (simp add: and_then_def)
  qed (use a keepsD(1) [OF m] in \<open>simp add: and_then_def\<close>)
next
  fix a y c assume a: "wf_scopes a" "and_then m k a = Inr (y, c)"
  then obtain x b where b: "m a = Inr (x, b)" "k x b = Inr (y, c)"
    by (auto simp: and_then_def split: sum.splits)
  with keepsD(2) [OF m a(1)] have "same_scopes a b" "wf_scopes b" "P x" by auto
  with keepsD(2) [OF k] b(2) show "same_scopes a c \<and> Q y" using same_scopes_trans by blast
qed

lemma keeps_get [keeps_intros]: "keeps (get f) (\<lambda>_. True)"
  by (simp add: keeps_def get_def)

lemma keeps_mono: "keeps m P \<Longrightarrow> (\<And>x. P x \<Longrightarrow> Q x) \<Longrightarrow> keeps m Q"
  unfolding keeps_def by (fastforce split: sum.splits)

lemma keeps_insert_entry: "keeps (insert_entry x s) (\<lambda>_. True)"
  by (rule keepsI) (auto simp: insert_entry_def wf_scopes_def same_scopes_def split: option.splits if_splits)

lemma keeps_add_entry [keeps_intros]: "keeps (add_entry x s) (\<lambda>_. True)"
proof -
  have "add_entry x s a = insert_entry x s a" if "wf_scopes a" for a
    using that by (auto simp: add_entry_def and_then_def get_def wf_scopes_def)
  with keeps_insert_entry show ?thesis unfolding keeps_def by simp
qed

lemma find_entry_ok: "\<forall>i \<in> set is. i < length arena \<Longrightarrow> find_entry arena is x \<noteq> Inl e"
  by (induction "is") (auto split: option.split)

lemma keeps_get_entry [keeps_intros]: "keeps (get_entry x) (\<lambda>_. True)"
proof (rule keepsI)
  fix a e assume "wf_scopes a" "get_entry x a = Inl e"
  then show "\<not> internal e"
    using find_entry_ok [of "rev (tts a)" "tt_arena a" x]
    by (auto simp: wf_scopes_def get_entry_def split: sum.splits)
qed (auto simp: get_entry_def split: sum.splits)

text \<open>An action run inside a fresh table that is closed at the end, or under changed flags.\<close>

lemma keeps_in_table:
  assumes m: "\<And>i. keeps (m i) P"
    and k: "\<And>i x. P x \<Longrightarrow> k i x = and_then pop_table (\<lambda>_. ret (g i x))" "\<And>i x. P x \<Longrightarrow> Q (g i x)"
  shows "keeps (and_then new_table (\<lambda>i. and_then (m i) (k i))) Q"
proof (rule keepsI)
  fix a e assume a: "wf_scopes a" and run: "and_then new_table (\<lambda>i. and_then (m i) (k i)) a = Inl e"
  let ?i = "length (tt_arena a)"
  let ?b = "a\<lparr>tt_arena := vpush (tt_arena a) [], tts := vpush (tts a) ?i\<rparr>"
  have b: "wf_scopes ?b" using a by (auto simp: wf_scopes_def vpush_def)
  have run': "and_then (m ?i) (k ?i) ?b = Inl e"
    using run by (simp add: and_then_def new_table_def Let_def)
  show "\<not> internal e"
  proof (cases "m ?i ?b")
    case (Inl e')
    with run' keepsD(1) [OF m b] show ?thesis by (simp add: and_then_def)
  next
    case (Inr p)
    obtain x d where p: "p = (x, d)" by (cases p)
    with keepsD(2) [OF m b] Inr have "P x" by blast
    with run' Inr p k(1) show ?thesis
      by (simp add: and_then_def pop_table_def update_def ret_def)
  qed
next
  fix a y c assume a: "wf_scopes a" and run: "and_then new_table (\<lambda>i. and_then (m i) (k i)) a = Inr (y, c)"
  let ?i = "length (tt_arena a)"
  let ?b = "a\<lparr>tt_arena := vpush (tt_arena a) [], tts := vpush (tts a) ?i\<rparr>"
  have b: "wf_scopes ?b" using a by (auto simp: wf_scopes_def vpush_def)
  obtain x d where d: "m ?i ?b = Inr (x, d)" "k ?i x d = Inr (y, c)"
    using run by (auto simp: and_then_def new_table_def Let_def split: sum.splits)
  with keepsD(2) [OF m b] have x: "same_scopes ?b d" "P x" by auto
  with k d(2) have "c = d\<lparr>tts := butlast (tts d)\<rparr>" "y = g ?i x"
    by (simp_all add: and_then_def pop_table_def update_def ret_def)
  with x k(2) show "same_scopes a c \<and> Q y" by (auto simp: same_scopes_def vpush_def)
qed

lemma keeps_loop_body:
  assumes "keeps m P" "\<And>t n. P (t, n) \<Longrightarrow> Q n"
  shows "keeps (loop_body m) Q"
proof (rule keepsI)
  fix a e assume a: "wf_scopes a" and run: "loop_body m a = Inl e"
  have "wf_scopes (a\<lparr>can_break := True\<rparr>)" using a by (simp add: wf_scopes_def)
  with keepsD(1) [OF assms(1) this] run show "\<not> internal e"
    by (auto simp: loop_body_def and_then_def get_def update_def ret_def split: sum.splits)
next
  fix a y c assume a: "wf_scopes a" and run: "loop_body m a = Inr (y, c)"
  let ?b = "a\<lparr>can_break := True\<rparr>"
  have b: "wf_scopes ?b" using a by (simp add: wf_scopes_def)
  obtain t d where d: "m ?b = Inr ((t, y), d)" "c = d\<lparr>can_break := can_break a\<rparr>"
    using run by (auto simp: loop_body_def and_then_def get_def update_def ret_def split: sum.splits)
  with keepsD(2) [OF assms(1) b] have "same_scopes ?b d" "P (t, y)" by auto
  with d assms(2) show "same_scopes a c \<and> Q y" by (auto simp: same_scopes_def)
qed

lemma keeps_function_body:
  assumes "keeps m P" "\<And>t n. P (t, n) \<Longrightarrow> Q n"
  shows "keeps (function_body x rt m) Q"
proof (rule keepsI)
  fix a e assume a: "wf_scopes a" and run: "function_body x rt m a = Inl e"
  have "wf_scopes (a\<lparr>can_return := True, return_type := Some rt\<rparr>)" using a by (simp add: wf_scopes_def)
  with keepsD(1) [OF assms(1) this] run show "\<not> internal e"
    by (auto simp: function_body_def and_then_def get_def update_def ret_def panic_def
        split: sum.splits if_splits)
next
  fix a y c assume a: "wf_scopes a" and run: "function_body x rt m a = Inr (y, c)"
  let ?b = "a\<lparr>can_return := True, return_type := Some rt\<rparr>"
  have b: "wf_scopes ?b" using a by (simp add: wf_scopes_def)
  obtain t d where d: "m ?b = Inr ((t, y), d)" "c = d\<lparr>can_return := can_return a, return_type := return_type a\<rparr>"
    using run
    by (auto simp: function_body_def and_then_def get_def update_def ret_def panic_def
        split: sum.splits if_splits)
  with keepsD(2) [OF assms(1) b] have "same_scopes ?b d" "P (t, y)" by auto
  with d assms(2) show "same_scopes a c \<and> Q y" by (auto simp: same_scopes_def)
qed

section \<open>What a checked node looks like\<close>

text \<open>The node with its scopes forgotten.\<close>

primrec erase :: "ast \<Rightarrow> ast" where
  "erase (DeclFunc x ps t b i) = DeclFunc x ps t (erase b) 0"
| "erase (DeclVar x t e) = DeclVar x t (map_option erase e)"
| "erase (DeclStruct x fs) = DeclStruct x fs"
| "erase (DeclEnum x vs) = DeclEnum x vs"
| "erase (Block ss i) = Block (map erase ss) 0"
| "erase (StmtImport p a) = StmtImport p a"
| "erase (StmtIf c b e) = StmtIf (erase c) (erase b) (map_option erase e)"
| "erase (StmtWhile c b) = StmtWhile (erase c) (erase b)"
| "erase (StmtFor x a b) = StmtFor x (erase a) (erase b)"
| "erase (StmtTry b cs) = StmtTry (erase b) (map (map_prod id erase) cs)"
| "erase StmtRethrow = StmtRethrow"
| "erase (ExprAssign x e) = ExprAssign x (erase e)"
| "erase (ExprBinary l r op) = ExprBinary (erase l) (erase r) op"
| "erase (ExprUnary e op) = ExprUnary (erase e) op"
| "erase (ExprFuncCall f es) = ExprFuncCall f (map erase es)"
| "erase (ExprMemAcc e x) = ExprMemAcc (erase e) x"
| "erase (ExprEnumVar x v) = ExprEnumVar x v"
| "erase (ExprArrAcc e i) = ExprArrAcc (erase e) (erase i)"
| "erase (ExprReturn e) = ExprReturn (map_option erase e)"
| "erase (ExprInteger i) = ExprInteger i"
| "erase (ExprFloat f) = ExprFloat f"
| "erase (ExprString s) = ExprString s"
| "erase (ExprChar c) = ExprChar c"
| "erase (ExprBool b) = ExprBool b"
| "erase ExprUndefined = ExprUndefined"
| "erase (ExprVar x) = ExprVar x"
| "erase (ExprStructInit x fs) = ExprStructInit x (map (map_prod id erase) fs)"
| "erase (ExprArrayInit es) = ExprArrayInit (map erase es)"
| "erase (ExprList es) = ExprList (map erase es)"
| "erase (ExprMap ps) = ExprMap (map (map_prod id erase) ps)"

definition typed_as :: "ast \<Rightarrow> ty option \<times> ast \<Rightarrow> bool" where
  "typed_as node r \<longleftrightarrow> fst r \<noteq> None \<and> erase (snd r) = erase node"

abbreviation sound :: "checked \<Rightarrow> ast \<Rightarrow> bool" where
  "sound m node \<equiv> keeps m (typed_as node)"

lemma sound_question:
  assumes "sound m e" "\<And>t n. erase n = erase e \<Longrightarrow> keeps (k t n) Q"
  shows "keeps (question m f k) Q"
  unfolding question_def
  by (rule keeps_then [OF assms(1)]) (auto simp: typed_as_def assms(2))

lemma keeps_check_all:
  "\<forall>node \<in> set nodes. sound (c node) node \<Longrightarrow>
    keeps (check_all (map c nodes)) (\<lambda>nodes'. map erase nodes' = map erase nodes)"
proof (induction nodes)
  case (Cons n ns)
  then have ns: "keeps (check_all (map c ns)) (\<lambda>ns'. map erase ns' = map erase ns)" by simp
  have n: "sound (c n) n" using Cons.prems by simp
  show ?case
  proof (simp only: list.map check_all.simps, rule keeps_then [OF n], clarify)
    fix t n' assume "typed_as n (t, n')"
    then show "keeps (and_then (check_all (map c ns)) (\<lambda>nodes. ret (n' # nodes)))
        (\<lambda>nodes'. map erase nodes' = erase n # map erase ns)"
      by (intro keeps_then [OF ns] keeps_ret) (simp add: typed_as_def)
  qed
qed (simp add: keeps_ret)

lemma keeps_check_each:
  assumes "\<forall>node \<in> set nodes. sound (c node) node" "\<And>i t e. bad i t = Some e \<Longrightarrow> \<not> internal e"
  shows "keeps (check_each bad i prev (map (\<lambda>node. (node, c node)) nodes))
    (\<lambda>r. (\<exists>lst. fst r = Some lst \<and> (prev \<noteq> None \<or> nodes \<noteq> [] \<longrightarrow> lst \<noteq> None)) \<and>
         map erase (snd r) = map erase nodes)"
  using assms(1)
proof (induction nodes arbitrary: i prev)
  case (Cons n ns)
  have n: "sound (c n) n" using Cons.prems by simp
  show ?case
  proof (simp only: list.map check_each.simps, rule keeps_then [OF n], clarify)
    fix t n' assume "typed_as n (t, n')"
    then obtain kind where t: "t = Some kind" and n': "erase n' = erase n" by (auto simp: typed_as_def)
    show "keeps (case t of None \<Rightarrow> ret (None, n' # map fst (map (\<lambda>node. (node, c node)) ns))
        | Some kind \<Rightarrow> (case bad i kind of Some e \<Rightarrow> panic e
            | None \<Rightarrow> and_then (check_each bad (Suc i) (Some kind) (map (\<lambda>node. (node, c node)) ns))
                (\<lambda>(r, nodes). ret (r, n' # nodes))))
      (\<lambda>r. (\<exists>lst. fst r = Some lst \<and> (prev \<noteq> None \<or> n # ns \<noteq> [] \<longrightarrow> lst \<noteq> None)) \<and>
         map erase (snd r) = erase n # map erase ns)"
    proof (cases "bad i kind")
      case None
      have IH: "keeps (check_each bad (Suc i) (Some kind) (map (\<lambda>node. (node, c node)) ns))
        (\<lambda>r. (\<exists>lst. fst r = Some lst \<and> (Some kind \<noteq> None \<or> ns \<noteq> [] \<longrightarrow> lst \<noteq> None)) \<and>
         map erase (snd r) = map erase ns)"
        by (rule Cons.IH) (use Cons.prems in simp)
      show ?thesis
        unfolding t None option.case
        by (rule keeps_then [OF IH]) (auto simp: n' intro!: keeps_ret)
    next
      case (Some e)
      with assms(2) t show ?thesis by (simp add: keeps_panic)
    qed
  qed
qed (simp add: keeps_ret)

section \<open>Each kind of node\<close>

lemma keeps_add_params: "keeps (add_params ps) (\<lambda>_. True)"
  by (induction ps rule: add_params.induct) (auto intro!: keeps_ret keeps_then [OF keeps_add_entry])

lemma sound_func:
  assumes "sound m b"
  shows "sound (check_func x ps t m) (DeclFunc x ps t b i)"
  unfolding check_func_def
proof (rule keeps_in_table)
  show "keeps (and_then (add_params ps) (\<lambda>_. function_body x t m)) (\<lambda>b'. erase b' = erase b)"
    by (rule keeps_then [OF keeps_add_params], rule keeps_function_body [OF assms])
      (simp add: typed_as_def)
qed (auto simp: typed_as_def)

lemma sound_entry: "sound (check_entry x s t n) n"
  unfolding check_entry_def
  by (rule keeps_then [OF keeps_add_entry]) (simp add: keeps_ret typed_as_def)

lemma sound_import: "sound (check_import p a) (StmtImport p a)"
  by (cases a) (simp_all add: check_import_def sound_entry keeps_ret typed_as_def)

lemma sound_block:
  assumes "\<forall>s \<in> set ss. sound (c s) s"
  shows "sound (check_block (map (\<lambda>s. (s, c s)) ss) i) (Block ss j)"
proof (cases "ss = []")
  case True
  then show ?thesis by (simp add: check_block_def keeps_ret typed_as_def)
next
  case False
  have each: "keeps (check_each (\<lambda>_ _. None) 0 None (map (\<lambda>s. (s, c s)) ss))
      (\<lambda>r. (\<exists>t. fst r = Some (Some t)) \<and> map erase (snd r) = map erase ss)"
    by (rule keeps_mono [OF keeps_check_each [OF assms]]) (use False in auto)
  show ?thesis
    unfolding check_block_def using False
    by (simp, intro keeps_in_table [OF each, where g = "\<lambda>i r. (the (fst r), Block (snd r) i)"])
      (auto simp: typed_as_def)
qed

lemma sound_if:
  assumes "sound m c" "sound mb b" "\<And>e. alt = Some e \<Longrightarrow> sound (f e) e"
  shows "sound (check_if m (b, mb) (map_option (\<lambda>e. (e, f e)) alt)) (StmtIf c b alt)"
  unfolding check_if_def
proof (rule sound_question [OF assms(1)])
  fix t c' assume c': "erase c' = erase c"
  show "keeps (if \<not> types_match t TyBool then panic (ConditionNotBool t)
      else and_then (snd (b, mb)) (\<lambda>(_, body').
        case map_option (\<lambda>e. (e, f e)) alt of
          Some alt_block \<Rightarrow> and_then (snd alt_block) (\<lambda>(_, alt'). ret (Some TyVoid, StmtIf c' body' (Some alt')))
        | None \<Rightarrow> ret (Some TyVoid, StmtIf c' body' None))) (typed_as (StmtIf c b alt))"
    using assms c'
    by (cases alt)
      (auto simp: typed_as_def intro!: keeps_panic keeps_then [OF assms(2)] keeps_ret
        keeps_then [OF assms(3)])
qed

lemma sound_while:
  assumes "sound m c" "sound mb b"
  shows "sound (check_while m (b, mb)) (StmtWhile c b)"
  unfolding check_while_def
proof (rule sound_question [OF assms(1)])
  fix t c' assume c': "erase c' = erase c"
  have body: "keeps (loop_body mb) (\<lambda>b'. erase b' = erase b)"
    by (rule keeps_loop_body [OF assms(2)]) (simp add: typed_as_def)
  show "keeps (if \<not> types_match t TyBool then panic (ConditionNotBool t)
      else and_then (loop_body (snd (b, mb))) (\<lambda>body'. ret (Some TyVoid, StmtWhile c' body')))
      (typed_as (StmtWhile c b))"
    using c' by (auto simp: typed_as_def intro!: keeps_panic keeps_then [OF body] keeps_ret)
qed

lemma sound_for:
  assumes "sound m a" "sound mb b"
  shows "sound (check_for x m mb) (StmtFor x a b)"
proof -
  have body: "keeps (loop_body mb) (\<lambda>b'. erase b' = erase b)"
    by (rule keeps_loop_body [OF assms(2)]) (simp add: typed_as_def)
  show ?thesis
    unfolding check_for_def
    by (rule keeps_then [OF assms(1)])
      (auto simp: typed_as_def split: option.split intro!: keeps_panic keeps_then [OF keeps_add_entry]
        keeps_then [OF body] keeps_ret)
qed

lemma map_erase_zip:
  "map erase ns = map (erase \<circ> snd) ps \<Longrightarrow> map (map_prod id erase) (zip (map fst ps) ns) = map (map_prod id erase) ps"
  by (induction ps arbitrary: ns) auto

lemma keeps_check_snds:
  assumes "\<forall>(k, n) \<in> set ps. sound (c n) n"
  shows "keeps (check_all (map (\<lambda>(k, n). c n) ps)) (\<lambda>ns. map erase ns = map (erase \<circ> snd) ps)"
  using keeps_check_all [of "map snd ps" c] assms by (simp add: comp_def case_prod_unfold)

lemma sound_try:
  assumes "sound m b" "\<forall>(k, n) \<in> set cs. sound (c n) n"
  shows "sound (check_try m (map (\<lambda>(k, n). (k, c n)) cs)) (StmtTry b cs)"
proof -
  have eqs: "map snd (map (\<lambda>(k, n). (k, c n)) cs) = map (\<lambda>(k, n). c n) cs"
    "map fst (map (\<lambda>(k, n). (k, c n)) cs) = map fst cs" by auto
  show ?thesis
    unfolding check_try_def eqs
  proof (rule keeps_then [OF assms(1)], clarify)
    fix t b' assume "typed_as b (t, b')"
    then show "keeps (and_then (check_all (map (\<lambda>(k, n). c n) cs))
        (\<lambda>cs'. ret (Some TyVoid, StmtTry b' (zip (map fst cs) cs')))) (typed_as (StmtTry b cs))"
      by (intro keeps_then [OF keeps_check_snds [OF assms(2)]] keeps_ret) (simp add: typed_as_def map_erase_zip)
  qed
qed

lemma sound_assign: "sound m e \<Longrightarrow> sound (check_assign x m) (ExprAssign x e)"
  unfolding check_assign_def
  by (rule keeps_then [OF keeps_get_entry])
    (auto simp: typed_as_def split: option.split symbol.split
      intro!: keeps_panic keeps_ret sound_question [where e = e])

lemma sound_binary:
  assumes "sound m l" "sound mr r"
  shows "sound (check_binary m (r, mr) op) (ExprBinary l r op)"
  unfolding check_binary_def
proof (rule sound_question [OF assms(1)], unfold snd_conv, rule sound_question [OF assms(2)])
  fix t l' u r' assume "erase l' = erase l" "erase r' = erase r"
  then show "keeps (case binary_type op t u of Inl e \<Rightarrow> panic e | Inr k \<Rightarrow> ret (Some k, ExprBinary l' r' op))
      (typed_as (ExprBinary l r op))"
    using not_internal_binary
    by (auto simp: typed_as_def split: sum.split intro!: keeps_panic keeps_ret)
qed

lemma sound_unary: "sound m e \<Longrightarrow> sound (check_unary m op) (ExprUnary e op)"
  unfolding check_unary_def
  using not_internal_unary
  by (auto simp: typed_as_def split: sum.split intro!: sound_question [where e = e] keeps_panic keeps_ret)

lemma sound_args:
  assumes "\<forall>e \<in> set es. sound (c e) e" "\<And>i t e. bad i t = Some e \<Longrightarrow> \<not> internal e"
  shows "sound (check_args f bad t (map (\<lambda>e. (e, c e)) es)) (ExprFuncCall f es)"
  unfolding check_args_def
  by (rule keeps_then [OF keeps_check_each [OF assms]]) (auto simp: typed_as_def intro!: keeps_ret)

lemma sound_builtin:
  assumes "\<forall>e \<in> set es. sound (c e) e"
  shows "sound (check_builtin f sg (map c es)) (ExprFuncCall f es)"
  unfolding check_builtin_def
  by (auto simp: typed_as_def intro!: keeps_panic keeps_then [OF keeps_check_all [OF assms]] keeps_ret)

lemma sound_user_call:
  assumes "\<forall>e \<in> set es. sound (c e) e"
  shows "sound (check_user_call f (map (\<lambda>e. (e, c e)) es)) (ExprFuncCall f es)"
  unfolding check_user_call_def
  by (rule keeps_then [OF keeps_get_entry])
    (auto split: option.split symbol.split ty.split if_splits intro!: keeps_panic sound_args [OF assms])

lemma sound_call:
  assumes "\<forall>e \<in> set es. sound (c e) e"
  shows "sound (check_call f (map (\<lambda>e. (e, c e)) es)) (ExprFuncCall f es)"
proof -
  let ?es = "map (\<lambda>e. (e, c e)) es"
  have snds: "map snd ?es = map c es" by simp
  have print: "sound (check_args g (\<lambda>_ _. None) t ?es) (ExprFuncCall g es)" for g t
    by (rule sound_args [OF assms]) simp
  have remote: "sound (check_args g (expect_string g) t ?es) (ExprFuncCall g es)" for g t
    by (rule sound_args [OF assms]) (auto simp: expect_string_def split: if_splits)
  have builtin: "sound (check_builtin g sg (map c es)) (ExprFuncCall g es)" for g sg
    by (rule sound_builtin [OF assms])
  have user: "sound (check_user_call g ?es) (ExprFuncCall g es)" for g
    by (rule sound_user_call [OF assms])
  have arity: "sound (panic (WrongArity g n m)) e" for g n m e
    by (simp add: keeps_panic)
  have nullary: "sound (ret (Some t, ExprFuncCall g [])) (ExprFuncCall g [])" for g t
    by (simp add: keeps_ret typed_as_def)
  show ?thesis
    unfolding check_call_def snds
    by (simp add: print remote builtin user arity nullary split: option.split)
qed

lemma sound_mem_acc: "sound m e \<Longrightarrow> sound (check_mem_acc m x) (ExprMemAcc e x)"
  unfolding check_mem_acc_def
  by (rule sound_question [where e = e])
    (auto simp: typed_as_def split: ty.split option.split symbol.split
      intro!: keeps_panic keeps_ret keeps_then [OF keeps_get_entry])

lemma sound_enum_var: "sound (check_enum_var x v) (ExprEnumVar x v)"
  unfolding check_enum_var_def
  by (rule keeps_then [OF keeps_get_entry])
    (auto simp: typed_as_def split: option.split symbol.split intro!: keeps_panic keeps_ret)

lemma sound_arr_acc:
  assumes "sound m l" "sound mi i"
  shows "sound (check_arr_acc m (i, mi)) (ExprArrAcc l i)"
  unfolding check_arr_acc_def
proof (rule sound_question [OF assms(1)], unfold snd_conv, rule sound_question [OF assms(2)])
  fix t l' u i' assume "erase l' = erase l" "erase i' = erase i"
  then show "keeps (if u \<notin> {TyInteger, TyFloat} then panic BadIndexType
      else (case t of TyArray _ inner \<Rightarrow> ret (Some inner, ExprArrAcc l' i') | _ \<Rightarrow> panic IndexNonArray))
      (typed_as (ExprArrAcc l i))"
    by (auto simp: typed_as_def split: ty.split intro!: keeps_panic keeps_ret)
qed

lemma keeps_conclude_return:
  assumes "map_option erase w = map_option erase v"
  shows "sound (conclude_return t w) (ExprReturn v)"
  using assms
  by (auto simp: conclude_return_def typed_as_def split: option.split
      intro!: keeps_then [OF keeps_get] keeps_panic keeps_ret)

lemma sound_return:
  assumes "\<And>e. v = Some e \<Longrightarrow> sound (f e) e"
  shows "sound (check_return (map_option f v)) (ExprReturn v)"
proof (cases v)
  case None
  then show ?thesis
    unfolding check_return_def
    by (intro keeps_then [OF keeps_get]) (auto intro!: keeps_panic keeps_conclude_return)
next
  case (Some e)
  have "sound (question (f e) (\<lambda>v'. ExprReturn (Some v')) (\<lambda>t v'. conclude_return t (Some v')))
    (ExprReturn (Some e))"
    by (rule sound_question [OF assms [OF Some]])
      (auto simp: typed_as_def intro!: keeps_conclude_return)
  then show ?thesis
    unfolding check_return_def Some
    by (intro keeps_then [OF keeps_get]) (auto intro!: keeps_panic)
qed

lemma sound_var: "sound (check_var x) (ExprVar x)"
  unfolding check_var_def
  by (rule keeps_then [OF keeps_get_entry])
    (auto simp: typed_as_def split: option.split symbol.split intro!: keeps_panic keeps_ret)

lemma sound_list:
  assumes "\<forall>e \<in> set es. sound (c e) e"
  shows "sound (and_then (check_all (map c es)) (\<lambda>es'. ret (Some TyList, ExprList es'))) (ExprList es)"
  by (rule keeps_then [OF keeps_check_all [OF assms]]) (simp add: keeps_ret typed_as_def)

lemma sound_map:
  assumes "\<forall>(k, v) \<in> set ps. sound (c v) v"
  shows "sound (and_then (check_all (map (\<lambda>(key, v). c v) ps)) (\<lambda>vs. ret (Some TyMap, ExprMap (zip (map fst ps) vs))))
    (ExprMap ps)"
  by (rule keeps_then [OF keeps_check_snds [OF assms]]) (simp add: keeps_ret typed_as_def map_erase_zip)

lemma sound_literal: "sound (ret (Some t, n)) n"
  by (simp add: keeps_ret typed_as_def)

lemma check_sound: "sound (check node) node"
proof (induction node rule: check.induct)
  case (1 x ps t b i)
  then show ?case by (simp add: sound_func)
next
  case (5 ss i)
  then show ?case by (simp add: sound_block)
next
  case (7 c b alt)
  then show ?case by (simp add: sound_if)
next
  case (9 b cs)
  then show ?case by (simp only: check.simps) (rule sound_try; auto)
next
  case (15 f es)
  then show ?case by (simp add: sound_call)
next
  case (19 v)
  then show ?case by (simp add: sound_return)
next
  case (26 es)
  then show ?case by (simp only: check.simps) (rule sound_list; auto)
next
  case (27 ps)
  then show ?case by (simp only: check.simps) (rule sound_map; auto)
qed (simp_all add: sound_entry sound_import sound_while sound_for sound_assign sound_binary
    sound_unary sound_mem_acc sound_enum_var sound_arr_acc sound_var sound_literal keeps_panic)

section \<open>Properties\<close>

lemma keeps_register: "keeps (register_functions prog) (\<lambda>_. True)"
proof (induction prog)
  case Nil
  then show ?case by (simp add: keeps_ret)
next
  case (Cons d ds)
  then show ?case
    by (cases d) (auto intro: keeps_then [OF keeps_add_entry])
qed

lemma keeps_passes:
  "keeps (and_then (register_functions prog) (\<lambda>_. check_all (map check prog)))
    (\<lambda>prog'. map erase prog' = map erase prog)"
  by (rule keeps_then [OF keeps_register]) (simp add: keeps_check_all check_sound)

lemma analyze_passes:
  "analyze prog analyzer_new
     = and_then (register_functions prog) (\<lambda>_. check_all (map check prog)) (analyzer_new\<lparr>tt_arena := [[]], tts := [0]\<rparr>)"
  by (simp add: analyze_def and_then_def new_table_def get_def update_def analyzer_new_def vpush_def ret_def)

lemma analyzed_program:
  "analyze prog analyzer_new = Inr (prog', a) \<Longrightarrow> map erase prog' = map erase prog"
proof -
  assume run: "analyze prog analyzer_new = Inr (prog', a)"
  have wf: "wf_scopes (analyzer_new\<lparr>tt_arena := [[]], tts := [0]\<rparr>)" by (simp add: wf_scopes_def)
  from keepsD(2) [OF keeps_passes wf] run show "map erase prog' = map erase prog"
    unfolding analyze_passes by blast
qed

text \<open>C38. The analyzer is sound about itself: on every program it either stops with a message about the
  program, never on an \<open>unwrap\<close> of nothing or an index out of range, or leaves exactly the global
  table open, the flags as they were, and the program as it was up to the scopes it filled in.\<close>

lemma analyze_sound:
  "case analyze prog analyzer_new of
     Inl e \<Rightarrow> e \<noteq> UnwrapOnNone \<and> e \<noteq> IndexOutOfBounds
   | Inr (prog', a) \<Rightarrow> tts a = [0] \<and> tt_arena a \<noteq> [] \<and> \<not> can_return a \<and> return_type a = None
       \<and> map erase prog' = map erase prog"
proof -
  let ?a = "analyzer_new\<lparr>tt_arena := [[]], tts := [0]\<rparr>"
  let ?m = "and_then (register_functions prog) (\<lambda>_. check_all (map check prog))"
  have start: "analyze prog analyzer_new = ?m ?a" by (rule analyze_passes)
  have wf: "wf_scopes ?a" by (simp add: wf_scopes_def)
  show ?thesis
  proof (cases "?m ?a")
    case (Inl e)
    then show ?thesis
      using keepsD(1) [OF keeps_passes wf] start by (auto simp: internal_def)
  next
    case (Inr p)
    obtain prog' a where p: "p = (prog', a)" by (cases p)
    have "same_scopes ?a a" "map erase prog' = map erase prog"
      using keepsD(2) [OF keeps_passes wf] Inr p by blast+
    then show ?thesis using start Inr p by (auto simp: same_scopes_def analyzer_new_def)
  qed
qed

end
