(* ===== verification/Sol_Pipeline.thy ===== *)
theory Sol_Pipeline
  imports Sol_Stmt_Correct Sol_Analyzer_Props
begin

text \<open>
  The analyzer, the code generator and the machine together. The analyzer hands the code generator
  the program with other scope identifiers; on the core of the language the identifiers do not
  matter, so what the analyzed program computes is what the program means.
\<close>

section \<open>The scope identifiers do not matter\<close>

lemma core_expr_erase [simp]: "core_expr V (erase e) = core_expr V e"
  by (induction e) auto

lemma eval_erase [simp]: "eval \<rho> (erase e) = eval \<rho> e"
  by (induction e) (auto split: option.split)

lemma expr_code_erase [simp]: "expr_code L (erase e) = expr_code L e"
  by (induction e) auto

lemma is_block_erase [simp]: "is_block (Some (erase s)) = is_block (Some s)"
  by (cases s) auto

lemma is_block_map_erase [simp]: "is_block (map_option erase alt) = is_block alt"
  by (cases alt) (simp_all del: is_block.simps(2))

lemma layout_after_erase [simp]: "layout_after l (erase s) = layout_after l s"
  by (cases s) (simp_all add: layout_after_def)

lemma erase_var_simps [simp]:
  "(case erase l of ExprVar x \<Rightarrow> f x | _ \<Rightarrow> c) = (case l of ExprVar x \<Rightarrow> f x | _ \<Rightarrow> c)"
  by (cases l) simp_all

lemma core_erase [simp]:
  "core V (erase s) = core V s" "cores V (map erase ss) = cores V ss"
proof (induction V s and V ss rule: core_cores.induct)
  case (4 V c b alt)
  then show ?case by (cases alt) (simp_all del: is_block.simps)
next
  case (5 V c b)
  then show ?case by (simp del: is_block.simps)
qed (auto split: option.split ast.split)

lemma stmt_code_erase [simp]:
  "stmt_code l i (erase s) = stmt_code l i s" "stmts_code l i (map erase ss) = stmts_code l i ss"
proof (induction l i s and l i ss rule: stmt_code_stmts_code.induct)
  case (4 l i c b alt)
  then show ?case by (cases alt) (simp_all add: Let_def)
qed (auto simp: Let_def split: option.split)

lemma start_code_erase: "map erase b = map erase c \<Longrightarrow> start_code b = start_code c"
  using stmt_code_erase(2) [of _ _ b] stmt_code_erase(2) [of _ _ c] by (simp add: start_code_def)

lemma big_erase:
  "big s \<rho> r \<Longrightarrow> big (erase s) \<rho> r" "bigs ss \<rho> r \<Longrightarrow> bigs (map erase ss) \<rho> r"
  by (induction rule: big_bigs.inducts) (auto intro: big_bigs.intros)

section \<open>Properties\<close>

lemma erase_start_program:
  assumes "map erase prog = map erase (start_program t body i j)"
  obtains body' i' j' where "prog = start_program t body' i' j'" "map erase body' = map erase body"
proof -
  obtain node where node: "prog = [node]" "erase node = DeclFunc ''start'' [] t (Block (map erase body) 0) 0"
    using assms by (auto simp: start_program_def)
  then obtain b j' where b: "node = DeclFunc ''start'' [] t b j'" "erase b = Block (map erase body) 0"
    by (cases node) auto
  then obtain ss i' where "b = Block ss i'" "map erase ss = map erase body"
    by (cases b) auto
  with node(1) b(1) that show thesis by (simp add: start_program_def)
qed

text \<open>The code of an expression computes it: what \<open>compile\<close> emits for an integer or boolean
  expression, placed anywhere in a program and run by a ready machine whose locals hold the
  environment, takes as many steps as it has instructions and leaves the expression's value on top of
  the stack, with everything below untouched.\<close>

theorem expression_code_correct:
  assumes "core_expr (dom (locals g)) e" "typed_locals (locals g)" "eval \<rho> e = Some v"
    and "compile e g = Inr g'" "code = drop (length (insts g)) (insts g')"
    and "code_at (vm_program s) (inst_ptr s) code" "env_at (locals g) s \<rho>" "ready s" "length code \<le> fuel s"
  shows "steps ovf (length code) s = Some (settle (length code) (stack s @ [enc v]) s)"
proof -
  have "code = expr_code (locals g) e" using compile_expr [OF assms(1,2)] assms(4,5) by simp
  then show ?thesis using exec_expr [OF assms(3,7,8)] assms(6,9) by simp
qed

definition sum_machine :: vm where
  "sum_machine = vm_from [PushConst (ExprInteger 2), PushConst (ExprInteger 3), Alu IntAdd]"

lemma expression_code_correct_witness:
  "steps True 3 sum_machine = Some (settle 3 [5] sum_machine)"
proof -
  let ?e = "ExprBinary (ExprInteger 2) (ExprInteger 3) (Tk Plus)" and ?g = "codegen_from []"
  have core: "core_expr (dom (locals ?g)) ?e" "typed_locals (locals ?g)"
    by (simp_all add: i64_in_range_def typed_locals_def codegen_from_def)
  have c: "compile ?e ?g = Inr (?g\<lparr>insts := expr_code (locals ?g) ?e\<rparr>)"
    using compile_expr [OF core] by (simp add: codegen_from_def)
  have "steps True (length (expr_code (locals ?g) ?e)) sum_machine
      = Some (settle (length (expr_code (locals ?g) ?e)) (stack sum_machine @ [enc (IntV 5)]) sum_machine)"
  proof (rule expression_code_correct [OF core _ c])
    show "eval Map.empty ?e = Some (IntV 5)" by (simp add: binop_def int_binop_def in_range_def i64_in_range_def)
  qed (auto simp: sum_machine_def vm_from_def vm_new_def codegen_from_def env_at_def ready_def
      int_op_def DEFAULT_MAX_STEPS_def)
  then show ?thesis by (simp add: int_op_def sum_machine_def vm_from_def vm_new_def numeral_3_eq_3)
qed

lemma core_generates:
  assumes "cores {} body" "analyze (start_program t body i j) analyzer_new = Inr (prog, a)"
  shows "gen_bcode prog (codegen_from (tt_arena a)) = Inr (start_code body)"
proof -
  have "map erase prog = map erase (start_program t body i j)"
    using analyzed_program [OF assms(2)] .
  then obtain body' i' j' where prog: "prog = start_program t body' i' j'"
    and body: "map erase body' = map erase body"
    by (rule erase_start_program)
  have "cores {} body'" using assms(1) body core_erase(2) by metis
  then show ?thesis unfolding prog start_code_erase [OF body, symmetric] by (rule gen_start)
qed

lemma core_pipeline:
  assumes "bigs body Map.empty (Returned v)" "cores {} body" "length (start_code body) < 2 ^ 63"
    and "analyze (start_program t body i j) analyzer_new = Inr (prog, a)"
  shows "\<exists>code n. gen_bcode prog (codegen_from (tt_arena a)) = Inr code
    \<and> (\<forall>f > n. \<exists>s'. run ovf ((vm_from code)\<lparr>fuel := f\<rparr>) = Some (s', Inr (enc v)))"
  using core_generates [OF assms(2,4)] run_core_program [OF assms(1-3)] by blast

text \<open>C4. End to end, on the core of the language: if the body of \<open>start\<close> returns \<open>v\<close> under the
  big-step semantics and the analyzer accepts the program, then the code generated from what the
  analyzer returns, run with enough fuel, in either build, halts with the encoding of \<open>v\<close>.\<close>

theorem pipeline_correct:
  assumes "bigs body Map.empty (Returned v)" "cores {} body" "length (start_code body) < 2 ^ 63"
    and "analyze (start_program t body i j) analyzer_new = Inr (prog, a)"
  shows "\<exists>code n. gen_bcode prog (codegen_from (tt_arena a)) = Inr code
    \<and> (\<forall>f > n. \<exists>s'. run ovf ((vm_from code)\<lparr>fuel := f\<rparr>) = Some (s', Inr (enc v)))"
  by (rule core_pipeline [OF assms])

definition count_body :: "nat \<Rightarrow> ast list" where
  "count_body k =
     [DeclVar ''i'' TyInteger (Some (ExprInteger 0)),
      StmtWhile (ExprBinary (ExprVar ''i'') (ExprInteger 1) (Tk LessThan))
        (Block [ExprBinary (ExprVar ''i'') (ExprBinary (ExprVar ''i'') (ExprInteger 1) (Tk Plus)) (Tk Eq)] k),
      ExprReturn (Some (ExprVar ''i''))]"

lemmas evals = binop_def int_binop_def in_range_def i64_in_range_def

lemma count_body_returns: "bigs (count_body k) Map.empty (Returned (IntV 1))"
proof -
  let ?c = "ExprBinary (ExprVar ''i'') (ExprInteger 1) (Tk LessThan)"
  let ?a = "ExprBinary (ExprVar ''i'') (ExprBinary (ExprVar ''i'') (ExprInteger 1) (Tk Plus)) (Tk Eq)"
  let ?e = "[''i'' \<mapsto> IntV 0]" and ?f = "[''i'' \<mapsto> IntV 1]"
  have "big ?a ?e (Normal (?e(''i'' \<mapsto> IntV 1)))"
    by (rule big_bigs.Assign [where w = "IntV 0"]) (simp_all add: evals)
  then have "bigs [?a] ?e (Normal ?f)" using big_bigs.Cons big_bigs.Nil by fastforce
  then have "big (Block [?a] k) ?e (Normal (?f |` dom ?e))" by (rule big_bigs.BlockNormal)
  then have body: "big (Block [?a] k) ?e (Normal ?f)" by (simp add: restrict_map_insert)
  have w1: "big (StmtWhile ?c (Block [?a] k)) ?f (Normal ?f)" by (rule big_bigs.WhileFalse) (simp add: evals)
  have loop: "big (StmtWhile ?c (Block [?a] k)) ?e (Normal ?f)"
    by (rule big_bigs.WhileTrue [OF _ body w1]) (simp add: evals)
  have decl: "big (DeclVar ''i'' TyInteger (Some (ExprInteger 0))) Map.empty (Normal ?e)"
    by (rule big_bigs.Decl) (simp_all add: evals)
  have ret: "big (ExprReturn (Some (ExprVar ''i''))) ?f (Returned (IntV 1))"
    by (rule big_bigs.Return) (simp add: evals)
  show ?thesis
    unfolding count_body_def
    by (rule big_bigs.Cons [OF decl], rule big_bigs.Cons [OF loop], rule big_bigs.ConsReturn [OF ret])
qed

lemma count_body_accepted: "\<not> isl (analyze (start_program TyInteger (count_body k) i j) analyzer_new)"
  by code_simp

lemma count_body_core: "cores {} (count_body k)"
  by (simp add: count_body_def i64_in_range_def)

lemma count_body_short: "length (start_code (count_body k)) < 2 ^ 63"
  by (simp add: start_code_def count_body_def Let_def int_op_def)

lemma pipeline_correct_witness:
  "\<exists>prog a code n. analyze (start_program TyInteger (count_body 9) 9 9) analyzer_new = Inr (prog, a)
    \<and> gen_bcode prog (codegen_from (tt_arena a)) = Inr code
    \<and> (\<forall>f > n. \<exists>s'. run True ((vm_from code)\<lparr>fuel := f\<rparr>) = Some (s', Inr 1))"
proof -
  obtain prog a where run: "analyze (start_program TyInteger (count_body 9) 9 9) analyzer_new = Inr (prog, a)"
    using count_body_accepted [of 9 9 9] by (cases "analyze (start_program TyInteger (count_body 9) 9 9) analyzer_new") auto
  from pipeline_correct [OF count_body_returns count_body_core count_body_short run, of True] run show ?thesis by auto
qed

end
