(* ===== verification/Sol_Divergences.thy ===== *)
theory Sol_Divergences
  imports Sol_Pipeline
begin

text \<open>
  What the translation to bytecode does to programs the analyzer accepts and that the core of
  \<open>Sol_Stmt_Correct\<close> leaves out: each theorem here is a behaviour of the code that differs from what
  the program says.
\<close>

named_theorems run_evals

declare step_def [run_evals] vm_from_def [run_evals] vm_new_def [run_evals] fetch_def [run_evals]
  finish_step_def [run_evals] exec_push_const_def [run_evals] const_bits_def [run_evals]
  exec_dup_def [run_evals] exec_store_local_def [run_evals] exec_load_local_def [run_evals]
  slot_addr_def [run_evals] pop_def [run_evals] push_def [run_evals] vpush_def [run_evals]
  vget_def [run_evals] vpop_def [run_evals] Let_def [run_evals] DEFAULT_MAX_STEPS_def [run_evals]
  check_alloc_def [run_evals] alloc_budget_def [run_evals] ALLOC_CEILING_def [run_evals]
  record_fault_def [run_evals] raise_malformed_def [run_evals] exec_call_def [run_evals]
  i64_in_range_def [run_evals]

text \<open>\<open>&&\<close> and \<open>||\<close> between comparisons of strings are lost: the code generator takes the type of
  a comparison to be the type of its operands, finds no string instruction for the operator and emits
  none, so both operands stay on the stack and the right one decides.\<close>

lemma string_conjunction_dropped:
  "op = Tk AmpAmp \<or> op = Tk PipePipe \<Longrightarrow>
    compile (ExprBinary (ExprBinary (ExprString a) (ExprString b) (Tk EqEq))
        (ExprBinary (ExprString c) (ExprString d) (Tk EqEq)) op) g
     = Inr (g\<lparr>insts := insts g @ [PushConst (ExprString a), PushConst (ExprString b), EqStr,
         PushConst (ExprString c), PushConst (ExprString d), EqStr]\<rparr>)"
  by (auto simp: gen_binary_def emit_binary_op_def string_op_def push_inst_def push_insts_def asks_def
      seq.simps vpush_def)

lemma string_conjunction_dropped_witness:
  "\<exists>g'. compile (ExprBinary (ExprBinary (ExprString ''a'') (ExprString ''b'') (Tk EqEq))
      (ExprBinary (ExprString ''c'') (ExprString ''c'') (Tk EqEq)) (Tk AmpAmp)) (codegen_from []) = Inr g'
    \<and> insts g' = [PushConst (ExprString ''a''), PushConst (ExprString ''b''), EqStr,
         PushConst (ExprString ''c''), PushConst (ExprString ''c''), EqStr]"
  using string_conjunction_dropped [of "Tk AmpAmp" "''a''" "''b''" "''c''" "''c''" "codegen_from []"]
  by (simp add: codegen_from_def)

text \<open>A variable declared without a value has no place on the stack: the analyzer accepts
  \<open>let x: int; x = 1; return x;\<close>, and the compiled program halts with the error sentinel.\<close>

definition uninit_body :: "ast list" where
  "uninit_body =
     [DeclVar ''x'' TyInteger None,
      ExprBinary (ExprVar ''x'') (ExprInteger 1) (Tk Eq),
      ExprReturn (Some (ExprVar ''x''))]"

lemma uninitialised_variable_halts:
  "\<not> isl (analyze (start_program TyInteger uninit_body 2 1) analyzer_new)
    \<and> (\<exists>code s'. gen_bcode (start_program TyInteger uninit_body 2 1) (codegen_from [[], [], []]) = Inr code
        \<and> run ovf (vm_from code) = Some (s', Inr VM_ERROR_SENTINEL))"
proof
  let ?code = "[Jump 9, PushConst (ExprInteger 1), Dup, StoreLocal 0, Pop, LoadLocal 0, RetVal, Pop, Ret,
    Call 1 0]"
  show "\<not> isl (analyze (start_program TyInteger uninit_body 2 1) analyzer_new)" by code_simp
  have "gen_bcode (start_program TyInteger uninit_body 2 1) (codegen_from [[], [], []]) = Inr ?code"
    by code_simp
  moreover have "\<exists>s'. run ovf (vm_from ?code) = Some (s', Inr VM_ERROR_SENTINEL)"
    by ((subst run.simps, simp add: run_evals)+)
  ultimately show "\<exists>code s'. gen_bcode (start_program TyInteger uninit_body 2 1) (codegen_from [[], [], []]) = Inr code
      \<and> run ovf (vm_from code) = Some (s', Inr VM_ERROR_SENTINEL)" by blast
qed

text \<open>A list that holds its own reference: the only element of the first list on the heap is the integer
  0, which is taken for a reference to that list, so displaying it overflows the native stack.\<close>

definition self_list_body :: "ast list" where
  "self_list_body = [ExprReturn (Some (ExprFuncCall ''list_join'' [ExprList [ExprInteger 0], ExprString '','']))]"

lemma self_list_overflows:
  "\<not> isl (analyze (start_program TyString self_list_body 2 1) analyzer_new)
    \<and> (\<exists>code s'. gen_bcode (start_program TyString self_list_body 2 1) (codegen_from [[], []]) = Inr code
        \<and> run ovf (vm_from code) = Some (s', Inl NativeStackOverflow))"
proof
  let ?code = "[Jump 8, PushConst (ExprInteger 0), PushList 1, PushConst (ExprString '',''), Coll ListJoin,
    RetVal, Pop, Ret, Call 1 0]"
  show "\<not> isl (analyze (start_program TyString self_list_body 2 1) analyzer_new)" by code_simp
  have "gen_bcode (start_program TyString self_list_body 2 1) (codegen_from [[], []]) = Inr ?code"
    by code_simp
  moreover have "\<exists>s'. run ovf (vm_from ?code) = Some (s', Inl NativeStackOverflow)"
    by ((subst run.simps, simp add: run_evals exec_push_list_def exec_list_join_def items_of_def hget_def
          push_obj_def heap_display_def)+)
  ultimately show "\<exists>code s'. gen_bcode (start_program TyString self_list_body 2 1) (codegen_from [[], []]) = Inr code
      \<and> run ovf (vm_from code) = Some (s', Inl NativeStackOverflow)" by blast
qed

text \<open>Two enum variants whose names begin with the same character (or with characters equal modulo
  ten) compile to the same constant.\<close>

lemma variants_collide:
  "variant_hash (utf8 (c # v)) = variant_hash (utf8 (d # w))"
  if "\<forall>x \<in> set (c # v @ d # w). scalar_value x" "c mod 10 = d mod 10"
  using that by (simp add: variant_hash_def chars_utf8) (metis of_nat_mod of_nat_numeral)

lemma variants_collide_witness: "variant_hash (utf8 (cps ''Red'')) = variant_hash (utf8 (cps ''Ready''))"
  using variants_collide [of 82 "[101, 100]" 82 "[101, 97, 100, 121]"]
  by (simp add: cps_def scalar_value_def)

text \<open>The analyzer does not look at the initialiser of a declaration: any expression is accepted
  for a variable of any type.\<close>

lemma initialiser_unchecked:
  "analyze [DeclVar x t (Some e)] analyzer_new
     = Inr ([DeclVar x t (Some e)], analyzer_new\<lparr>tt_arena := [[(x, SymVariable t)]], tts := [0]\<rparr>)"
  by (simp add: analyze_def and_then_def new_table_def get_def update_def analyzer_new_def vpush_def ret_def
      check_entry_def add_entry_def insert_entry_def)

end
