(* ===== verification/Sol_Directives.thy ===== *)
theory Sol_Directives
  imports Sol_Vm_State
begin

text \<open>
  The \<open>#steps\<close> directive at the head of a SOL source and the fuel of a flow (\<open>sol/mod.rs\<close>):
  \<open>strip_steps_directive\<close> and the resolution of \<open>CompiledFlow::max_steps\<close>. A source is a list of code
  points, so the byte offset the source keeps is the part of the list not yet consumed.
\<close>

datatype sol_error =
    FuelExhausted nat
  | BadStepsDirective ustr
  | ParseError string

text \<open>\<open>split_inclusive('\n')\<close>: the first line with its newline, and the rest.\<close>

fun split_line :: "ustr \<Rightarrow> ustr \<times> ustr" where
  "split_line [] = ([], [])"
| "split_line (c # cs) =
     (if c = 10 then ([c], cs) else (case split_line cs of (l, r) \<Rightarrow> (c # l, r)))"

lemma split_line_append: "fst (split_line s) @ snd (split_line s) = s"
  by (induction s) (auto split: prod.split)

lemma split_line_shorter: "s \<noteq> [] \<Longrightarrow> length (snd (split_line s)) < length s"
proof (induction s)
  case (Cons c cs)
  then show ?case by (cases "cs = []") (auto simp: case_prod_beta)
qed simp

definition token_sep :: "nat \<Rightarrow> bool" where
  "token_sep c \<longleftrightarrow> is_whitespace c \<or> c = of_char CHR ''#''"

text \<open>\<open>value_str.split(\<dots>).find(|s| !s.is_empty()).unwrap_or("")\<close>\<close>

definition first_token :: "ustr \<Rightarrow> ustr" where
  "first_token s = takeWhile (\<lambda>c. \<not> token_sep c) (dropWhile token_sep s)"

definition u64_max :: nat where
  "u64_max = 2 ^ 64 - 1"

text \<open>The value of a directive from what follows \<open>#steps\<close> on its line.\<close>

definition directive_value :: "ustr \<Rightarrow> sol_error + nat" where
  "directive_value rest =
     (let tok = first_token (trim rest);
          normalised = filter (\<lambda>c. c \<noteq> of_char CHR ''_'') tok
      in case parse_unsigned u64_max normalised of
           None \<Rightarrow> Inl (BadStepsDirective tok)
         | Some parsed \<Rightarrow> if parsed = 0 then Inl (BadStepsDirective tok) else Inr parsed)"

definition steps_word :: ustr where
  "steps_word = cps ''#steps''"

function strip_from :: "ustr \<Rightarrow> nat option \<Rightarrow> bool \<Rightarrow> sol_error + (ustr \<times> nat option)" where
  "strip_from source directive_fuel directive_seen =
     (if source = [] then Inr ([], directive_fuel)
      else
        (let trimmed = trim_start (fst (split_line source)); after = snd (split_line source)
         in if trimmed = [] then strip_from after directive_fuel directive_seen
            else if is_prefix steps_word trimmed then
              (if directive_seen then Inl (BadStepsDirective (cps ''duplicate #steps directive''))
               else
                 (case directive_value (drop (length steps_word) trimmed) of
                    Inl e \<Rightarrow> Inl e
                  | Inr parsed \<Rightarrow> strip_from after (Some parsed) True))
            else Inr (source, directive_fuel)))"
  by pat_completeness auto
termination
  by (relation "measure (\<lambda>(s, _, _). length s)") (auto simp: split_line_shorter)

declare strip_from.simps [simp del]

definition strip_steps_directive :: "ustr \<Rightarrow> sol_error + (ustr \<times> nat option)" where
  "strip_steps_directive source = strip_from source None False"

definition resolve_max_steps :: "nat option \<Rightarrow> nat \<Rightarrow> nat" where
  "resolve_max_steps directive_fuel default_max_steps =
     (let raw = (case directive_fuel of
                   Some n \<Rightarrow> n
                 | None \<Rightarrow> if default_max_steps = 0 then DEFAULT_MAX_STEPS else default_max_steps)
      in max (min raw MAX_STEPS_CEILING) 1)"

section \<open>What is stripped\<close>

text \<open>The lines before the remainder are blank or directives.\<close>

definition is_directive :: "ustr \<Rightarrow> bool" where
  "is_directive line \<longleftrightarrow> is_prefix steps_word (trim_start line)"

inductive header :: "ustr \<Rightarrow> bool" where
  header_Nil: "header []"
| header_line: "l \<noteq> [] \<Longrightarrow> split_line l = (l, []) \<Longrightarrow> trim_start l = [] \<or> is_directive l \<Longrightarrow> header h \<Longrightarrow>
    header (l @ h)"

lemma strip_from_suffix:
  "strip_from s d seen = Inr (r, d') \<Longrightarrow> \<exists>h. s = h @ r \<and> header h"
proof (induction s d seen rule: strip_from.induct)
  case (1 s d seen)
  show ?case
  proof (cases "s = []")
    case True
    with 1 show ?thesis by (auto simp: strip_from.simps [of "[]"] intro: header_Nil)
  next
    case False
    let ?l = "fst (split_line s)" and ?a = "snd (split_line s)"
    have nl: "?l \<noteq> []" using False by (cases s) (auto split: prod.split)
    have one: "split_line ?l = (?l, [])"
    proof (induction s)
      case (Cons c cs)
      then show ?case by (auto split: prod.split)
    qed simp
    have step: "\<exists>h. s = h @ r \<and> header h"
      if "?a = h @ r" "header h" "trim_start ?l = [] \<or> is_prefix steps_word (trim_start ?l)" for h
    proof (intro exI conjI)
      show "s = (?l @ h) @ r" using split_line_append [of s] that(1) by simp
      show "header (?l @ h)" using header_line [OF nl one _ that(2)] that(3) by (simp add: is_directive_def)
    qed
    show ?thesis
    proof (cases "trim_start ?l = []")
      case True
      with 1 False step show ?thesis by (auto simp: strip_from.simps [of s] Let_def)
    next
      case t: False
      show ?thesis
      proof (cases "is_prefix steps_word (trim_start ?l)")
        case True
        with 1(3) False t obtain n where n: "\<not> seen"
          "directive_value (drop (length steps_word) (trim_start ?l)) = Inr n"
          "strip_from ?a (Some n) True = Inr (r, d')"
          by (auto simp: strip_from.simps [of s] Let_def split: if_splits sum.splits)
        then have "\<exists>h. ?a = h @ r \<and> header h" using 1(2) False t True by blast
        with step True show ?thesis by blast
      next
        case n: False
        with 1 False t have "r = s" by (auto simp: strip_from.simps [of s] Let_def)
        then show ?thesis using header_Nil by (intro exI [of _ "[]"]) simp
      qed
    qed
  qed
qed

section \<open>Printing and parsing a directive\<close>

lemma digits_val_snoc: "digits_val (ds @ [d]) = 10 * digits_val ds + (d - 48)"
  by (simp add: digits_val_def)

lemma of_char_digit: "d < 10 \<Longrightarrow> (of_char (digit_char d) :: nat) = 48 + d"
  by (simp add: digit_char_def of_char_of)

lemma show_nat_digits:
  "digits_val (cps (show_nat n)) = n \<and> list_all is_ascii_digit (cps (show_nat n)) \<and> cps (show_nat n) \<noteq> []"
proof (induction n rule: less_induct)
  case (less n)
  show ?case
  proof (cases "n < 10")
    case True
    then show ?thesis
      by (simp add: show_nat.simps [of n] cps_def of_char_digit digits_val_def is_ascii_digit_def)
  next
    case False
    then have "n div 10 < n" by simp
    with less False show ?thesis
      by (simp add: show_nat.simps [of n] cps_def of_char_digit digits_val_snoc is_ascii_digit_def)
  qed
qed

lemma digit_not_sep: "is_ascii_digit c \<Longrightarrow> \<not> token_sep c \<and> c \<noteq> 95 \<and> \<not> is_whitespace c \<and> c \<noteq> 43 \<and> c \<noteq> 10"
  by (auto simp: is_ascii_digit_def token_sep_def is_whitespace_def)

lemma split_line_no_newline: "10 \<notin> set l \<Longrightarrow> split_line (l @ 10 # s) = (l @ [10], s)"
  by (induction l) auto

lemma takeWhile_digits: "list_all is_ascii_digit ds \<Longrightarrow> takeWhile (\<lambda>c. \<not> token_sep c) ds = ds"
  by (induction ds) (auto dest: digit_not_sep)

lemma trim_digits:
  assumes "list_all is_ascii_digit ds" "ds \<noteq> []"
  shows "trim (32 # ds @ [10]) = ds"
proof -
  have ws: "is_whitespace 32" "is_whitespace 10" by (simp_all add: is_whitespace_def)
  have hd: "\<not> is_whitespace (hd ds)" and lt: "\<not> is_whitespace (last ds)"
    using assms digit_not_sep by (auto simp: list_all_iff)
  have "trim_start (32 # ds @ [10]) = ds @ [10]"
    using ws hd assms(2) by (cases ds) (simp_all add: trim_start_def)
  moreover have "dropWhile is_whitespace (rev ds) = rev ds"
    using lt assms(2) by (cases ds rule: rev_cases) simp_all
  ultimately show ?thesis using ws by (simp add: trim_def)
qed

lemma directive_value_show:
  assumes "0 < n" "n \<le> u64_max"
  shows "directive_value (32 # cps (show_nat n) @ [10]) = Inr n"
proof -
  let ?ds = "cps (show_nat n)"
  have ds: "list_all is_ascii_digit ?ds" "?ds \<noteq> []" "digits_val ?ds = n"
    using show_nat_digits by blast+
  obtain d r where dr: "?ds = d # r" using ds(2) by (cases ?ds) auto
  have d: "\<not> token_sep d" "d \<noteq> 43" using ds(1) dr digit_not_sep by auto
  have tok: "first_token ?ds = ?ds"
    using takeWhile_digits [OF ds(1)] d dr by (simp add: first_token_def)
  have norm: "filter (\<lambda>c. c \<noteq> of_char CHR ''_'') ?ds = ?ds"
    using ds(1) digit_not_sep by (intro filter_True) (auto simp: list_all_iff)
  have "parse_unsigned u64_max ?ds = Some n"
    using ds d assms dr by (simp add: parse_unsigned_def)
  with tok norm trim_digits [OF ds(1,2)] assms(1) show ?thesis
    by (simp add: directive_value_def)
qed

text \<open>A line that ends the header.\<close>

definition opens_source :: "ustr \<Rightarrow> bool" where
  "opens_source s \<longleftrightarrow> trim_start (fst (split_line s)) \<noteq> [] \<and> \<not> is_directive (fst (split_line s))"

lemma strip_from_source: "opens_source s \<Longrightarrow> strip_from s d seen = Inr (s, d)"
  by (cases "s = []") (auto simp: opens_source_def is_directive_def strip_from.simps [of s] trim_start_def Let_def)

lemma strip_printed_line:
  assumes "0 < n" "n \<le> u64_max" "opens_source src"
  shows "strip_steps_directive (steps_word @ 32 # cps (show_nat n) @ 10 # src) = Inr (src, Some n)"
proof -
  let ?ds = "cps (show_nat n)" and ?s = "steps_word @ 32 # cps (show_nat n) @ 10 # src"
  have "10 \<notin> set (steps_word @ 32 # ?ds)"
    using show_nat_digits [of n] digit_not_sep by (auto simp: steps_word_def cps_def list_all_iff)
  then have sp: "split_line ?s = (steps_word @ 32 # ?ds @ [10], src)"
    using split_line_no_newline [of "steps_word @ 32 # ?ds" src] by simp
  have tr: "trim_start (steps_word @ t) = steps_word @ t" for t
    by (simp add: trim_start_def steps_word_def cps_def is_whitespace_def)
  have "is_prefix steps_word (steps_word @ t)" for t by (simp add: is_prefix_def)
  moreover have "steps_word \<noteq> []" by (simp add: steps_word_def cps_def)
  ultimately show ?thesis
    using directive_value_show [OF assms(1,2)] strip_from_source [OF assms(3)]
    by (simp add: strip_steps_directive_def strip_from.simps [of ?s] sp tr)
qed

section \<open>Properties\<close>

text \<open>Printing a step directive in front of a source and stripping it gives the number and the
  source back, for every number a \<open>u64\<close> can hold except zero.\<close>

lemma strip_printed:
  "0 < n \<Longrightarrow> n \<le> u64_max \<Longrightarrow> opens_source src \<Longrightarrow>
    strip_steps_directive (steps_word @ 32 # cps (show_nat n) @ 10 # src) = Inr (src, Some n)"
  by (rule strip_printed_line)

lemma strip_printed_witness:
  "strip_steps_directive (steps_word @ 32 # cps (show_nat 250) @ 10 # cps ''let'') = Inr (cps ''let'', Some 250)"
proof (rule strip_printed)
  show "opens_source (cps ''let'')" by code_simp
qed (simp_all add: u64_max_def)

text \<open>Stripping removes a header of blank and directive lines and nothing else: what is left is a
  suffix of the source.\<close>

lemma strip_removes_header:
  "strip_steps_directive s = Inr (r, d) \<Longrightarrow> \<exists>h. s = h @ r \<and> header h"
  unfolding strip_steps_directive_def by (rule strip_from_suffix)

lemma strip_removes_header_witness:
  "\<exists>h. steps_word @ 32 # cps (show_nat 250) @ 10 # cps ''let'' = h @ cps ''let'' \<and> header h"
proof (rule strip_removes_header, rule strip_printed_line)
  show "opens_source (cps ''let'')" by code_simp
qed (simp_all add: u64_max_def)

text \<open>The budget a compiled flow runs with: between one and the ceiling whatever the directive and
  the configuration say, and exactly what \<open>with_fuel\<close> gives the machine; a directive overrides the
  caller's default, which overrides the built-in one.\<close>

lemma resolved_steps_in_range:
  "1 \<le> resolve_max_steps d n \<and> resolve_max_steps d n \<le> MAX_STEPS_CEILING
    \<and> fuel (with_fuel (resolve_max_steps d n) s) = resolve_max_steps d n
    \<and> resolve_max_steps (Some k) n = max (min k MAX_STEPS_CEILING) 1
    \<and> resolve_max_steps None 0 = DEFAULT_MAX_STEPS"
  by (simp add: resolve_max_steps_def with_fuel_def MAX_STEPS_CEILING_def DEFAULT_MAX_STEPS_def Let_def)

end
