(* ===== verification/Sol_Lexer.thy ===== *)
theory Sol_Lexer
  imports Sol_Ast
begin

text \<open>
  The SOL lexer (\<open>sol/lexer.rs\<close>). The source's cursor (\<open>source\<close>, \<open>index\<close>) is the list of the
  characters from the cursor on; reading past the end, which panics in the source, is a branch of
  the model. \<open>tokens\<close> collects \<open>next_token\<close> until it returns nothing; the source has no bound
  on that loop, so \<open>lex_all\<close> is a partial function whose \<open>None\<close> means that it never returns.
\<close>

abbreviation cp :: "char \<Rightarrow> nat" where
  "cp c \<equiv> of_char c"

datatype lex_step = LexEnd | LexTok token ustr | LexPanic string

section \<open>Trivia\<close>

fun skip_line :: "ustr \<Rightarrow> ustr" where
  "skip_line [] = []"
| "skip_line (c # cs) = (if c \<noteq> 10 then skip_line cs else c # cs)"

text \<open>
  The body of a block comment: the source stops one character before the end when the comment is
  not closed, and leaves that character to be lexed.
\<close>

fun skip_block :: "ustr \<Rightarrow> ustr" where
  "skip_block (a # b # r) =
     (if a = cp CHR ''*'' \<and> b = cp CHR ''/'' then r else skip_block (b # r))"
| "skip_block s = s"

lemma skip_line_le: "length (skip_line s) \<le> length s"
  by (induction s) auto

lemma skip_block_le: "length (skip_block s) \<le> length s"
  by (induction s rule: skip_block.induct) auto

definition skip_ws :: "ustr \<Rightarrow> ustr" where
  "skip_ws s = dropWhile (\<lambda>c. is_whitespace c \<or> c = cp CHR ''_'') s"

lemma skip_ws_le: "length (skip_ws s) \<le> length s"
  by (simp add: skip_ws_def length_dropWhile_le)

function skip_trivia :: "ustr \<Rightarrow> ustr" where
  "skip_trivia s =
     (case skip_ws s of
        a # b # r \<Rightarrow>
          if a = cp CHR ''/'' \<and> b = cp CHR ''/'' then skip_trivia (skip_line r)
          else if a = cp CHR ''/'' \<and> b = cp CHR ''*'' then skip_trivia (skip_block r)
          else a # b # r
      | s' \<Rightarrow> s')"
  by pat_completeness auto
termination
proof (relation "measure length")
  fix s a xs b r
  assume s: "skip_ws s = a # xs" "xs = b # r"
  have "length r < length s" using skip_ws_le [of s] s by simp
  then show "(skip_line r, s) \<in> measure length" "(skip_block r, s) \<in> measure length"
    using skip_line_le [of r] skip_block_le [of r] by simp_all
qed simp

declare skip_trivia.simps [simp del]

section \<open>Identifiers and numbers\<close>

definition ident_char :: "ucd \<Rightarrow> nat \<Rightarrow> bool" where
  "ident_char u c \<longleftrightarrow> is_alphanumeric u c \<or> c = cp CHR ''_''"

definition keyword :: "string \<Rightarrow> token" where
  "keyword buf =
     (if buf = ''for'' then TkKw For
      else if buf = ''in'' then TkKw In
      else if buf = ''as'' then TkKw As
      else if buf = ''function'' then TkKw Func
      else if buf = ''if'' then TkKw If
      else if buf = ''else'' then TkKw Else
      else if buf = ''import'' then TkKw Import
      else if buf = ''while'' then TkKw While
      else if buf = ''struct'' then TkKw Struct
      else if buf = ''enum'' then TkKw Enum
      else if buf = ''let'' then TkKw Let
      else if buf = ''return'' then TkKw KwReturn
      else if buf = ''true'' then TkKw KwTrue
      else if buf = ''false'' then TkKw KwFalse
      else if buf = ''try'' then TkKw Try
      else if buf = ''catch'' then TkKw Catch
      else if buf = ''rethrow'' then TkKw KwRethrow
      else TkIdent buf)"

definition lex_identifier :: "ucd \<Rightarrow> ustr \<Rightarrow> token \<times> ustr" where
  "lex_identifier u s =
     (keyword (utf8 (takeWhile (ident_char u) s)), dropWhile (ident_char u) s)"

text \<open>The digit loop of \<open>number\<close>: digits, and one dot that is followed by a digit.\<close>

fun number_loop :: "bool \<Rightarrow> ustr \<Rightarrow> ustr \<Rightarrow> bool \<times> ustr \<times> ustr" where
  "number_loop is_float buf [] = (is_float, buf, [])"
| "number_loop is_float buf (c # cs) =
     (if is_ascii_digit c then number_loop is_float (buf @ [c]) cs
      else if c = cp CHR ''.'' \<and> \<not> is_float then
        (if cs \<noteq> [] \<and> is_ascii_digit (hd cs) then number_loop True (buf @ [c]) cs
         else (is_float, buf, c # cs))
      else (is_float, buf, c # cs))"

definition i128_max :: nat where
  "i128_max = 2 ^ 127 - 1"

definition number :: "ustr \<Rightarrow> token \<times> ustr" where
  "number s =
     (case number_loop False [] s of
        (is_float, buf, rest) \<Rightarrow>
          (if is_float then (TkFloat (parse_f64 buf), rest)
           else (TkInteger (case parse_unsigned i128_max buf of Some n \<Rightarrow> int n | None \<Rightarrow> 0), rest)))"

section \<open>Operators and punctuation\<close>

text \<open>
  The final \<open>match\<close> of \<open>next_token\<close>: the token and whether a second character is consumed,
  from the current character and a peek at the next one (\<open>get(index + 1)\<close>).
\<close>

definition symbol :: "nat \<Rightarrow> nat option \<Rightarrow> (token \<times> bool) option" where
  "symbol c nx =
     (let two = (\<lambda>d t e. if nx = Some (cp d) then Some (Tk t, True) else e); one = (\<lambda>t. Some (Tk t, False))
      in if c = cp CHR ''('' then one LParen
         else if c = cp CHR '')'' then one RParen
         else if c = cp CHR ''['' then one LSquare
         else if c = cp CHR '']'' then one RSquare
         else if c = cp CHR ''{'' then one LCurly
         else if c = cp CHR ''}'' then one RCurly
         else if c = cp CHR ''.'' then one Dot
         else if c = cp CHR '','' then one Comma
         else if c = cp CHR '':'' then two CHR '':'' ColonColon (one Colon)
         else if c = cp CHR '';'' then one Semi
         else if c = cp CHR ''='' then two CHR ''='' EqEq (one Eq)
         else if c = cp CHR ''>'' then two CHR ''='' MoreEq (two CHR ''>'' RShift (one MoreThan))
         else if c = cp CHR ''<'' then two CHR ''='' LessEq (two CHR ''<'' LShift (one LessThan))
         else if c = cp CHR ''+'' then one Plus
         else if c = cp CHR ''-'' then two CHR ''>'' Arrow (one Dash)
         else if c = cp CHR ''*'' then one Star
         else if c = cp CHR ''/'' then one Slash
         else if c = cp CHR ''!'' then two CHR ''='' BangEq (one Bang)
         else if c = cp CHR ''&'' then two CHR ''&'' AmpAmp (one Ampersand)
         else if c = cp CHR ''|'' then two CHR ''|'' PipePipe (one Pipe)
         else if c = cp CHR ''^'' then one Caret
         else if c = cp CHR ''~'' then one Tilde
         else None)"

definition next_token :: "ucd \<Rightarrow> ustr \<Rightarrow> lex_step" where
  "next_token u s =
     (case skip_trivia s of
        [] \<Rightarrow> LexEnd
      | c # cs \<Rightarrow>
          if is_alphabetic u c then (case lex_identifier u (c # cs) of (t, r) \<Rightarrow> LexTok t r)
          else if c = 39 then
            (case cs of
               [] \<Rightarrow> LexPanic ''index out of bounds''
             | d # _ \<Rightarrow> LexTok (TkChar d) (drop 2 cs))
          else if c = 34 then
            LexTok (TkString (utf8 (takeWhile (\<lambda>d. d \<noteq> 34) cs)))
                   (drop 1 (dropWhile (\<lambda>d. d \<noteq> 34) cs))
          else if is_numeric u c then (case number (c # cs) of (t, r) \<Rightarrow> LexTok t r)
          else (case symbol c (case cs of d # _ \<Rightarrow> Some d | [] \<Rightarrow> None) of
                  None \<Rightarrow> LexPanic ''sol: aborted''
                | Some (t, two) \<Rightarrow> LexTok t (drop (if two then 1 else 0) cs)))"

partial_function (option) lex_all :: "ucd \<Rightarrow> ustr \<Rightarrow> token list \<Rightarrow> (string + token list) option" where
  "lex_all u s acc =
     (case next_token u s of
        LexEnd \<Rightarrow> Some (Inr acc)
      | LexPanic m \<Rightarrow> Some (Inl m)
      | LexTok t r \<Rightarrow> lex_all u r (acc @ [t]))"

definition tokens :: "ucd \<Rightarrow> ustr \<Rightarrow> (string + token list) option" where
  "tokens u s = lex_all u s []"

section \<open>Progress\<close>

lemma skip_trivia_le: "length (skip_trivia s) \<le> length s"
proof (induction s rule: skip_trivia.induct)
  case (1 s)
  show ?case
  proof (cases "skip_ws s")
    case Nil
    then show ?thesis by (simp add: skip_trivia.simps [of s])
  next
    case (Cons a xs)
    have le: "Suc (length xs) \<le> length s" using skip_ws_le [of s] Cons by simp
    show ?thesis
    proof (cases xs)
      case Nil
      with Cons le show ?thesis by (simp add: skip_trivia.simps [of s])
    next
      case (Cons b r)
      with \<open>skip_ws s = a # xs\<close> le 1 skip_line_le [of r] skip_block_le [of r] show ?thesis
        by (fastforce simp: skip_trivia.simps [of s])
    qed
  qed
qed

lemma number_loop_le: "number_loop f buf s = (g, b, r) \<Longrightarrow> length r \<le> length s"
  by (induction f buf s arbitrary: g b r rule: number_loop.induct) (fastforce split: if_splits)+

lemma lex_identifier_shorter:
  assumes "is_alphabetic u c" "lex_identifier u (c # cs) = (t, r)"
  shows "length r < length (c # cs)"
  using assms length_dropWhile_le [of "ident_char u" cs]
  by (auto simp: lex_identifier_def ident_char_def is_alphanumeric_def)

lemma number_shorter:
  assumes "is_ascii_digit c" "number (c # cs) = (t, r)"
  shows "length r < length (c # cs)"
  using assms number_loop_le [of False "[c]" cs]
  by (auto simp: number_def split: prod.splits if_splits) 

text \<open>
  A character that is numeric but not an ASCII digit, and not alphabetic: the lexer enters
  \<open>number\<close> on it and consumes nothing.
\<close>

definition stuck_char :: "ucd \<Rightarrow> nat \<Rightarrow> bool" where
  "stuck_char u c \<longleftrightarrow> is_numeric u c \<and> \<not> is_ascii_digit c \<and> \<not> is_alphabetic u c"

lemma set_skip_trivia: "set (skip_trivia s) \<subseteq> set s"
proof (induction s rule: skip_trivia.induct)
  case (1 s)
  have ws: "set (skip_ws s) \<subseteq> set s" by (auto simp: skip_ws_def dest: set_dropWhileD)
  have line: "set (skip_line r) \<subseteq> set r" for r by (induction r) auto
  have block: "set (skip_block r) \<subseteq> set r" for r by (induction r rule: skip_block.induct) auto
  show ?case
  proof (cases "\<exists>a b r. skip_ws s = a # b # r")
    case True
    then obtain a b r where s: "skip_ws s = a # b # r" by blast
    with 1 ws line [of r] block [of r] show ?thesis
      by (auto simp: skip_trivia.simps [of s]) (blast+)?
  next
    case False
    then have "skip_trivia s = skip_ws s"
      by (auto simp: skip_trivia.simps [of s] split: list.splits)
    with ws show ?thesis by simp
  qed
qed

lemma next_token_progress:
  assumes "next_token u s = LexTok t r" and ok: "\<forall>c \<in> set s. \<not> stuck_char u c"
  shows "length r < length s"
proof -
  have len: "length (skip_trivia s) \<le> length s" by (rule skip_trivia_le)
  from assms(1) obtain c cs where s: "skip_trivia s = c # cs"
    by (auto simp: next_token_def split: list.splits)
  then have c: "\<not> stuck_char u c" using ok set_skip_trivia [of s] by auto
  have "length r < length (c # cs)"
  proof (cases "is_alphabetic u c")
    case True
    with assms(1) s lex_identifier_shorter show ?thesis
      by (auto simp: next_token_def split: prod.splits)
  next
    case alpha: False
    show ?thesis
    proof (cases "c \<noteq> 39 \<and> c \<noteq> 34 \<and> is_numeric u c")
      case True
      with alpha c have "is_ascii_digit c" by (simp add: stuck_char_def)
      with assms(1) s alpha True number_shorter show ?thesis
        by (auto simp: next_token_def split: prod.splits)
    next
      case False
      have "length (drop 1 (dropWhile (\<lambda>d. d \<noteq> 34) cs)) \<le> length cs"
        using length_dropWhile_le [of "\<lambda>d. d \<noteq> 34" cs] by simp
      with assms(1) s alpha False show ?thesis
        by (auto simp: next_token_def split: if_splits list.splits option.splits prod.splits)
    qed
  qed
  with len s show ?thesis by simp
qed

lemma set_number_loop: "number_loop f b s = (g, b', r) \<Longrightarrow> set r \<subseteq> set s"
  by (induction f b s rule: number_loop.induct) (auto split: if_splits)

lemma set_number: "number s = (t, r) \<Longrightarrow> set r \<subseteq> set s"
  by (auto simp: number_def split: prod.splits if_splits dest: set_number_loop)

lemma set_lex_identifier: "lex_identifier u s = (t, r) \<Longrightarrow> set r \<subseteq> set s"
  by (auto simp: lex_identifier_def dest: set_dropWhileD)

lemma set_next_token:
  assumes "next_token u s = LexTok t r"
  shows "set r \<subseteq> set s"
proof -
  from assms obtain c cs where s: "skip_trivia s = c # cs"
    by (auto simp: next_token_def split: list.splits)
  have q: "set (drop 1 (dropWhile (\<lambda>d. d \<noteq> 34) cs)) \<subseteq> set (c # cs)"
    by (auto dest: set_dropWhileD in_set_dropD)
  have d: "set (drop n cs) \<subseteq> set (c # cs)" for n
    by (auto dest: in_set_dropD)
  have "set r \<subseteq> set (c # cs)"
    using assms q d [of 2] d [of 1] d [of 0]
    unfolding next_token_def s
    by (auto split: if_splits list.splits option.splits prod.splits simp del: drop_0
             dest!: set_lex_identifier set_number)
  with s set_skip_trivia [of s] show ?thesis by auto
qed

text \<open>Without such a character the lexer returns, on any text: each token consumes input.\<close>

lemma lex_all_total:
  assumes "\<forall>c \<in> set s. \<not> stuck_char u c"
  shows "\<exists>res. lex_all u s acc = Some res"
  using assms
proof (induction "length s" arbitrary: s acc rule: less_induct)
  case less
  show ?case
  proof (cases "next_token u s")
    case (LexTok t r)
    with less.prems have "length r < length s" "\<forall>c \<in> set r. \<not> stuck_char u c"
      using next_token_progress set_next_token by blast+
    with less.hyps LexTok show ?thesis by (simp add: lex_all.simps [of u s])
  qed (simp_all add: lex_all.simps [of u s])
qed

lemma next_token_stuck:
  assumes "stuck_char u c" "128 \<le> c" "\<not> is_whitespace c"
  shows "next_token u (c # cs) = LexTok (TkInteger 0) (c # cs)"
proof -
  have "skip_ws (c # cs) = c # cs" using assms by (simp add: skip_ws_def)
  then have "skip_trivia (c # cs) = c # cs"
    using assms(2) by (auto simp: skip_trivia.simps [of "c # cs"] split: list.splits)
  moreover have "parse_unsigned i128_max [] = None" by (simp add: parse_unsigned_def)
  ultimately show ?thesis
    using assms by (simp add: next_token_def number_def stuck_char_def)
qed

lemma lex_all_diverges:
  assumes c: "stuck_char u c" "128 \<le> c" "\<not> is_whitespace c"
  shows "lex_all u (c # cs) acc = None"
proof (rule ccontr)
  assume "lex_all u (c # cs) acc \<noteq> None"
  then obtain res where "lex_all u (c # cs) acc = Some res" by blast
  then have "c # cs \<noteq> c # cs"
  proof (rule lex_all.raw_induct [where P = "\<lambda>u' s acc res. u' = u \<longrightarrow> s \<noteq> c # cs", THEN mp, rotated])
    fix f u' s acc res
    assume IH: "\<And>u' s acc res. f u' s acc = Some res \<Longrightarrow> u' = u \<longrightarrow> s \<noteq> c # cs"
      and eq: "(case next_token u' s of LexEnd \<Rightarrow> Some (Inr acc) | LexTok t r \<Rightarrow> f u' r (acc @ [t])
                | LexPanic m \<Rightarrow> Some (Inl m)) = Some res"
    show "u' = u \<longrightarrow> s \<noteq> c # cs"
    proof (intro impI notI)
      assume "u' = u" "s = c # cs"
      with eq next_token_stuck [OF c] have "f u (c # cs) (acc @ [TkInteger 0]) = Some res" by simp
      with IH show False by blast
    qed
  qed simp
  then show False by simp
qed

section \<open>Properties\<close>

text \<open>The lexer returns, tokens or an error, on every source without a character that is numeric but
  neither an ASCII digit nor alphabetic.\<close>

lemma tokens_return: "\<forall>c \<in> set s. \<not> stuck_char u c \<Longrightarrow> \<exists>res. tokens u s = Some res"
  unfolding tokens_def by (rule lex_all_total)

definition ascii_ucd :: ucd where
  "ascii_ucd = \<lparr>u_alphabetic = (\<lambda>_. False), u_numeric = (\<lambda>_. False)\<rparr>"

lemma tokens_return_witness: "\<exists>res. tokens ascii_ucd (cps ''let x = 1;'') = Some res"
  by (rule tokens_return) (simp add: stuck_char_def is_numeric_def ascii_ucd_def)

text \<open>On such a character the lexer never returns: it emits the integer 0 again and again.\<close>

lemma tokens_hang:
  "stuck_char u c \<Longrightarrow> 128 \<le> c \<Longrightarrow> \<not> is_whitespace c \<Longrightarrow> tokens u (c # cs) = None"
  unfolding tokens_def by (rule lex_all_diverges)

definition superscript_ucd :: ucd where
  "superscript_ucd = \<lparr>u_alphabetic = (\<lambda>_. False), u_numeric = (\<lambda>c. c = 0xB2)\<rparr>"

lemma tokens_hang_witness: "tokens superscript_ucd [0xB2] = None"
  by (rule tokens_hang)
    (simp_all add: stuck_char_def is_numeric_def is_alphabetic_def is_ascii_digit_def is_whitespace_def superscript_ucd_def)

end
