(* ===== verification/Sol_Parser.thy ===== *)
theory Sol_Parser
  imports Sol_Ast
begin

text \<open>
  The recursive-descent parser of \<open>parser.rs\<close>. The parser's tokens from its index on are \<open>toks\<close>; every
  panic is a \<open>parse_error\<close>, \<open>OutOfTokens\<close> being the index panic at the end of the input. \<open>debtok\<close>,
  which prints the tokens around an error, indexes up to \<open>r\<close> tokens ahead and so turns an error close
  to the end of the input into that panic. Expression parsers return an \<open>Option\<close> in the code, but
  \<open>primary\<close> panics rather than return \<open>None\<close>, so here they return the node.

  The recursion of the code through \<open>expression\<close>, \<open>statement\<close> and \<open>parse_type\<close> is bounded by a
  fuel, as are the loops; \<open>None\<close> is fuel running out. One more unit than there are tokens is enough
  (\<open>Sol_Parser_Props\<close>), and that is what the entry point \<open>parse\<close> gives. The depth of the native stack
  is not modelled.
\<close>

section \<open>State, errors and the actions every rule is made of\<close>

record parser =
  toks :: "token list"
  can_struct :: bool

datatype parse_error =
    Message string | OutOfTokens | Overflow
  | UnknownDeclaration token | NotAType token | NotACatchKind token
  | NotAMember token | NotAVariant token | NotAMapKey token

type_synonym 'a parse = "parser \<Rightarrow> (parse_error + ('a \<times> parser)) option"

definition p_ret :: "'a \<Rightarrow> 'a parse" where
  "p_ret x s = Some (Inr (x, s))"

definition p_fail :: "parse_error \<Rightarrow> 'a parse" where
  "p_fail e s = Some (Inl e)"

definition p_then :: "'a parse \<Rightarrow> ('a \<Rightarrow> 'b parse) \<Rightarrow> 'b parse" where
  "p_then m k s =
     (case m s of
        None \<Rightarrow> None
      | Some (Inl e) \<Rightarrow> Some (Inl e)
      | Some (Inr (x, s')) \<Rightarrow> k x s')"

text \<open>\<open>debtok(r)\<close> followed by a panic.\<close>

definition panic_near :: "nat \<Rightarrow> parse_error \<Rightarrow> 'a parse" where
  "panic_near r e s = Some (Inl (if r < length (toks s) then e else OutOfTokens))"

definition current :: "token parse" where
  "current s = (case toks s of [] \<Rightarrow> Some (Inl OutOfTokens) | t # _ \<Rightarrow> Some (Inr (t, s)))"

definition advance :: "token parse" where
  "advance s = (case toks s of [] \<Rightarrow> Some (Inl OutOfTokens) | t # ts \<Rightarrow> Some (Inr (t, s\<lparr>toks := ts\<rparr>)))"

definition eat :: "token \<Rightarrow> string \<Rightarrow> unit parse" where
  "eat tk msg =
     p_then current (\<lambda>t. if t \<noteq> tk then panic_near 4 (Message msg)
                         else p_then advance (\<lambda>_. p_ret ()))"

text \<open>\<open>eat\<close> followed by \<open>self.index -= 1\<close>: the token must be there and stays.\<close>

definition expect :: "token \<Rightarrow> string \<Rightarrow> unit parse" where
  "expect tk msg = p_then current (\<lambda>t. if t \<noteq> tk then panic_near 4 (Message msg) else p_ret ())"

definition ident :: "(token \<Rightarrow> string parse) \<Rightarrow> string parse" where
  "ident otherwise =
     p_then current (\<lambda>t. case t of TkIdent name \<Rightarrow> p_then advance (\<lambda>_. p_ret name) | _ \<Rightarrow> otherwise t)"

definition eat_kw :: "string \<Rightarrow> string \<Rightarrow> unit parse" where
  "eat_kw kw' msg =
     p_then current (\<lambda>t. if t = TkIdent kw' then p_then advance (\<lambda>_. p_ret ()) else panic_near 4 (Message msg))"

text \<open>Run with \<open>can_struct\<close> set, and restore it.\<close>

definition with_struct :: "bool \<Rightarrow> 'a parse \<Rightarrow> 'a parse" where
  "with_struct b m s = p_then m (\<lambda>x t. Some (Inr (x, t\<lparr>can_struct := can_struct s\<rparr>))) (s\<lparr>can_struct := b\<rparr>)"

text \<open>\<open>self.tokens.get(self.index)\<close>, and \<open>noob!\<close>.\<close>

definition peek :: "token option parse" where
  "peek s = Some (Inr (case toks s of [] \<Rightarrow> None | t # _ \<Rightarrow> Some t, s))"

definition structs_allowed :: "bool parse" where
  "structs_allowed s = Some (Inr (can_struct s, s))"

text \<open>
  The loops over items separated by commas, up to a closing token. With \<open>noob\<close> the loop also ends at
  the end of the input, without it that is an index panic.
\<close>

fun comma_list :: "nat \<Rightarrow> bool \<Rightarrow> punct \<Rightarrow> 'a parse \<Rightarrow> 'a list \<Rightarrow> 'a list parse" where
  "comma_list 0 noob close item acc = (\<lambda>s. None)"
| "comma_list (Suc n) noob close item acc =
     p_then peek (\<lambda>next.
       if next = None \<and> noob then p_ret acc
       else p_then current (\<lambda>t.
         if t = Tk close then p_ret acc
         else p_then item (\<lambda>x. p_then current (\<lambda>t'.
           if t' = Tk Comma then p_then advance (\<lambda>_. comma_list n noob close item (acc @ [x]))
           else p_ret (acc @ [x])))))"

section \<open>Types\<close>

definition named_type :: "string \<Rightarrow> ty" where
  "named_type ptype =
     (if ptype = ''int'' then TyInteger
      else if ptype = ''float'' then TyFloat
      else if ptype = ''str'' then TyString
      else if ptype = ''char'' then TyChar
      else if ptype = ''bool'' then TyBool
      else if ptype = ''list'' then TyList
      else if ptype = ''map'' then TyMap
      else TyIdent ptype)"

definition array_size :: "int option parse" where
  "array_size =
     p_then current (\<lambda>t.
       if t = Tk RSquare then p_ret None
       else case t of
              TkInteger i \<Rightarrow> p_then advance (\<lambda>_. p_ret (Some i))
            | _ \<Rightarrow> p_fail (Message ''only integers can be used to specify an array size''))"

primrec parse_type :: "nat \<Rightarrow> ty parse" where
  "parse_type 0 = (\<lambda>s. None)"
| "parse_type (Suc n) =
     p_then current (\<lambda>t. case t of
       TkIdent ptype \<Rightarrow> p_then advance (\<lambda>_. p_ret (named_type ptype))
     | _ \<Rightarrow>
         if t = Tk LSquare then
           p_then advance (\<lambda>_.
           p_then array_size (\<lambda>size.
           p_then (eat (Tk RSquare) ''expected `]` after array size'') (\<lambda>_.
           p_then (parse_type n) (\<lambda>inner. p_ret (TyArray size inner)))))
         else if t = Tk LParen then
           p_then advance (\<lambda>_.
           p_then (comma_list n True RParen (parse_type n) []) (\<lambda>types.
           p_then (eat (Tk RParen) ''expected an `)` after tuple type'') (\<lambda>_. p_ret (TyTuple types))))
         else panic_near 4 (NotAType t))"

section \<open>String interpolation\<close>

text \<open>The first \<open>}}\<close>: what is before it and what is after.\<close>

fun find_close :: "ustr \<Rightarrow> (ustr \<times> ustr) option" where
  "find_close (a # b # r) =
     (if a = 125 \<and> b = 125 then Some ([], r)
      else map_option (\<lambda>(body, rest). (a # body, rest)) (find_close (b # r)))"
| "find_close _ = None"

lemma find_close_shorter: "find_close s = Some (body, rest) \<Longrightarrow> length rest < length s"
  by (induction s arbitrary: body rule: find_close.induct) (auto split: if_splits)

fun has_open :: "ustr \<Rightarrow> bool" where
  "has_open (a # b # r) = (a = 123 \<and> b = 123 \<or> has_open (b # r))"
| "has_open _ = False"

definition is_marker :: "ucd \<Rightarrow> ustr \<Rightarrow> bool" where
  "is_marker u name \<longleftrightarrow> name \<noteq> [] \<and> (\<forall>c \<in> set name. is_alphanumeric u c \<or> c = 95)"

definition flush :: "ustr \<Rightarrow> ast list" where
  "flush buf = (if buf = [] then [] else [ExprString (utf8 buf)])"

text \<open>The scan: the text seen since the last marker is in \<open>buf\<close>.\<close>

function chunks_of :: "ucd \<Rightarrow> ustr \<Rightarrow> ustr \<Rightarrow> ast list" where
  "chunks_of u [] buf = flush buf"
| "chunks_of u (a # r) buf =
     (if a = 123 \<and> r \<noteq> [] \<and> hd r = 123 then
        (case find_close (tl r) of
           Some (body, rest) \<Rightarrow>
             if is_marker u (trim body)
             then flush buf @ ExprVar (utf8 (trim body)) # chunks_of u rest []
             else chunks_of u rest (buf @ [123, 123] @ body @ [125, 125])
         | None \<Rightarrow> flush (buf @ a # r))
      else chunks_of u r (buf @ [a]))"
  by pat_completeness auto

termination
  by (relation "measure (\<lambda>(u, s, buf). length s)")
    (auto dest!: find_close_shorter simp: neq_Nil_conv)

text \<open>The chain \<open>a + b + c\<close>, to the left.\<close>

definition concat_chain :: "ast \<Rightarrow> ast list \<Rightarrow> ast" where
  "concat_chain chunk rest = foldl (\<lambda>acc next. ExprBinary acc next (Tk Plus)) chunk rest"

definition expand_string_interpolation :: "ucd \<Rightarrow> string \<Rightarrow> ast" where
  "expand_string_interpolation u raw =
     (if \<not> has_open (chars raw) then ExprString raw
      else case chunks_of u (chars raw) [] of
             [] \<Rightarrow> ExprString []
           | chunk # rest \<Rightarrow> concat_chain chunk rest)"

section \<open>Expressions\<close>

text \<open>\<open>left_rec\<close> and \<open>right_rec\<close>, the two shapes of a precedence level.\<close>

fun left_loop :: "nat \<Rightarrow> punct list \<Rightarrow> ast parse \<Rightarrow> ast \<Rightarrow> ast parse" where
  "left_loop 0 symbols child lhs = (\<lambda>s. None)"
| "left_loop (Suc n) symbols child lhs =
     p_then current (\<lambda>t.
       if t \<in> Tk ` set symbols
       then p_then advance (\<lambda>op. p_then child (\<lambda>rhs. left_loop n symbols child (ExprBinary lhs rhs op)))
       else p_ret lhs)"

definition left_rec :: "nat \<Rightarrow> punct list \<Rightarrow> ast parse \<Rightarrow> ast parse" where
  "left_rec n symbols child = p_then child (left_loop n symbols child)"

definition right_rec :: "punct list \<Rightarrow> ast parse \<Rightarrow> ast parse \<Rightarrow> ast parse" where
  "right_rec symbols parent child =
     p_then parent (\<lambda>lhs. p_then current (\<lambda>t.
       if t \<in> Tk ` set symbols
       then p_then advance (\<lambda>op. p_then child (\<lambda>rhs. p_ret (ExprBinary lhs rhs op)))
       else p_ret lhs))"

text \<open>The sugar forms \<open>delegate goal .. from .. to ..\<close> and \<open>send subject .. body .. from .. to ..\<close>.\<close>

definition coord_call :: "string \<Rightarrow> ast \<Rightarrow> ast" where
  "coord_call mthd arg =
     ExprFuncCall ''remote_call'' [ExprString ''coord'', ExprString mthd, arg]"

definition delegate_sugar :: "ast parse \<Rightarrow> ast parse" where
  "delegate_sugar expression =
     p_then (eat_kw ''goal'' ''expected `goal` after `delegate`'') (\<lambda>_.
     with_struct False
       (p_then expression (\<lambda>goal.
        p_then (eat_kw ''from'' ''expected `from <parent_task_id>` after delegate goal'') (\<lambda>_.
        p_then expression (\<lambda>parent.
        p_then (eat_kw ''to'' ''expected `to <target_subject_id>` after delegate parent'') (\<lambda>_.
        p_then expression (\<lambda>target.
          p_ret (coord_call ''delegate.spawn''
            (concat_chain parent
              [ExprString ''|'', goal, ExprString ''||'', target, ExprString ''|0'']))))))))) "

definition send_sugar :: "ast parse \<Rightarrow> ast parse" where
  "send_sugar expression =
     p_then (eat_kw ''subject'' ''expected `subject` after `send`'') (\<lambda>_.
     with_struct False
       (p_then expression (\<lambda>subject.
        p_then (eat_kw ''body'' ''expected `body <body>` after send subject'') (\<lambda>_.
        p_then expression (\<lambda>body.
        p_then (eat_kw ''from'' ''expected `from <from>` after send body'') (\<lambda>_.
        p_then expression (\<lambda>sender.
        p_then (eat_kw ''to'' ''expected `to <to>` after send from'') (\<lambda>_.
        p_then expression (\<lambda>receiver.
          p_ret (coord_call ''msg.send''
            (concat_chain sender
              [ExprString ''|'', receiver, ExprString ''|'', subject, ExprString ''|'', body,
               ExprString ''|||0|sol_flow''])))))))))))"

definition quoted :: "char \<Rightarrow> string" where
  "quoted c = [CHR 0x27, c, CHR 0x27]"

text \<open>The fields of a struct literal: tokens that are not names are skipped.\<close>

fun struct_fields :: "nat \<Rightarrow> ast parse \<Rightarrow> (string \<times> ast) list \<Rightarrow> (string \<times> ast) list parse" where
  "struct_fields 0 expression acc = (\<lambda>s. None)"
| "struct_fields (Suc n) expression acc =
     p_then current (\<lambda>t.
       if t = Tk RCurly then p_ret acc
       else p_then advance (\<lambda>field.
         case field of
           TkIdent name \<Rightarrow>
             p_then (eat (Tk Colon) (''Expected '' @ quoted CHR '':'' @ '' after field name'')) (\<lambda>_.
             p_then expression (\<lambda>v.
             p_then current (\<lambda>t'.
               p_then (if t' = Tk Comma then p_then advance (\<lambda>_. p_ret ()) else p_ret ()) (\<lambda>_.
                 struct_fields n expression (acc @ [(name, v)])))))
         | _ \<Rightarrow> struct_fields n expression acc))"

text \<open>What follows a name in an expression.\<close>

fun args_loop :: "nat \<Rightarrow> ast parse \<Rightarrow> ast list \<Rightarrow> ast list parse" where
  "args_loop 0 expression acc = (\<lambda>s. None)"
| "args_loop (Suc n) expression acc =
     p_then expression (\<lambda>x. p_then current (\<lambda>t.
       if t = Tk Comma then p_then advance (\<lambda>_. args_loop n expression (acc @ [x]))
       else p_ret (acc @ [x])))"

definition parse_args :: "nat \<Rightarrow> ast parse \<Rightarrow> ast list parse" where
  "parse_args n expression =
     p_then current (\<lambda>t. if t = Tk RParen then p_ret [] else args_loop n expression [])"

definition struct_init :: "nat \<Rightarrow> ast parse \<Rightarrow> string \<Rightarrow> ast parse" where
  "struct_init n expression name =
     p_then (eat (Tk LCurly) (''Expected '' @ quoted CHR ''{'' @ '' for struct initialization'')) (\<lambda>_.
     p_then (struct_fields n expression []) (\<lambda>fields.
     p_then (eat (Tk RCurly) (''Expected '' @ quoted CHR ''}'' @ '' after struct fields'')) (\<lambda>_.
       p_ret (ExprStructInit name fields))))"

definition after_name :: "nat \<Rightarrow> ast parse \<Rightarrow> string \<Rightarrow> ast parse" where
  "after_name n expression name =
     p_then current (\<lambda>t. p_then structs_allowed (\<lambda>allowed.
       if name = ''delegate'' \<and> t = TkIdent ''goal'' then delegate_sugar expression
       else if name = ''send'' \<and> t = TkIdent ''subject'' then send_sugar expression
       else if t = Tk LParen then
         p_then (eat (Tk LParen) (''Expected '' @ quoted CHR ''('' @ '' for function call'')) (\<lambda>_.
         p_then (parse_args n expression) (\<lambda>args.
         p_then (eat (Tk RParen) (''Expected '' @ quoted CHR '')'' @ '' after arguments'')) (\<lambda>_.
           p_ret (ExprFuncCall name args))))
       else if allowed \<and> t = Tk LCurly then struct_init n expression name
       else if t = Tk ColonColon then
         p_then advance (\<lambda>_. p_then advance (\<lambda>v.
           case v of TkIdent var \<Rightarrow> p_ret (ExprEnumVar name var) | _ \<Rightarrow> p_fail (NotAVariant v)))
       else p_ret (ExprVar name)))"

definition parenthesised :: "ast parse \<Rightarrow> ast parse" where
  "parenthesised expression =
     p_then (eat (Tk LParen) (''Expected '' @ quoted CHR ''('')) (\<lambda>_.
     p_then (with_struct True expression) (\<lambda>e.
     p_then (eat (Tk RParen) (''Expected '' @ quoted CHR '')'' @ '' after expression'')) (\<lambda>_.
       p_ret e)))"

definition list_literal :: "nat \<Rightarrow> ast parse \<Rightarrow> ast parse" where
  "list_literal n expression =
     p_then advance (\<lambda>_.
     p_then (comma_list n False RSquare expression []) (\<lambda>elements.
     p_then (eat (Tk RSquare) ''expected `]` to close a list literal'') (\<lambda>_.
       p_ret (ExprList elements))))"

definition map_pair :: "ast parse \<Rightarrow> (string \<times> ast) parse" where
  "map_pair expression =
     p_then advance (\<lambda>key.
       case key of
         TkString k \<Rightarrow>
           p_then (eat (Tk Colon) ''expected `:` between map key and value'') (\<lambda>_.
           p_then expression (\<lambda>v. p_ret (k, v)))
       | _ \<Rightarrow> panic_near 4 (NotAMapKey key))"

definition map_literal :: "nat \<Rightarrow> ast parse \<Rightarrow> ast parse" where
  "map_literal n expression =
     p_then advance (\<lambda>_.
     p_then (comma_list n False RCurly (map_pair expression) []) (\<lambda>pairs.
     p_then (eat (Tk RCurly) ''expected `}` to close a map literal'') (\<lambda>_.
       p_ret (ExprMap pairs))))"

definition literal :: "ast \<Rightarrow> ast parse" where
  "literal node = p_then advance (\<lambda>_. p_ret node)"

definition primary :: "ucd \<Rightarrow> nat \<Rightarrow> ast parse \<Rightarrow> ast parse" where
  "primary u n expression =
     p_then current (\<lambda>t. p_then structs_allowed (\<lambda>allowed.
       case t of
         TkInteger v \<Rightarrow> literal (ExprInteger v)
       | TkFloat v \<Rightarrow> literal (ExprFloat v)
       | TkString v \<Rightarrow> literal (expand_string_interpolation u v)
       | TkChar v \<Rightarrow> literal (ExprChar v)
       | TkIdent name \<Rightarrow> p_then advance (\<lambda>_. after_name n expression name)
       | _ \<Rightarrow>
           if t = TkKw KwTrue then literal (ExprBool True)
           else if t = TkKw KwFalse then literal (ExprBool False)
           else if t = Tk LParen then parenthesised expression
           else if t = Tk LSquare then list_literal n expression
           else if t = Tk LCurly \<and> allowed then map_literal n expression
           else panic_near 8 (Message ''could not parse expression!'')))"

fun postfix_loop :: "nat \<Rightarrow> ast parse \<Rightarrow> ast \<Rightarrow> ast parse" where
  "postfix_loop 0 expression lhs = (\<lambda>s. None)"
| "postfix_loop (Suc n) expression lhs =
     p_then current (\<lambda>t.
       if t = Tk Dot then
         p_then advance (\<lambda>_. p_then advance (\<lambda>m.
           case m of
             TkIdent member \<Rightarrow> postfix_loop n expression (ExprMemAcc lhs member)
           | _ \<Rightarrow> p_fail (NotAMember m)))
       else if t = Tk LSquare then
         p_then advance (\<lambda>_.
         p_then expression (\<lambda>index.
         p_then (eat (Tk RSquare) (''expected '' @ quoted CHR '']'' @ '' to close array index'')) (\<lambda>_.
           postfix_loop n expression (ExprArrAcc lhs index))))
       else p_ret lhs)"

definition postfix :: "ucd \<Rightarrow> nat \<Rightarrow> ast parse \<Rightarrow> ast parse" where
  "postfix u n expression = p_then (primary u n expression) (postfix_loop n expression)"

fun unary :: "nat \<Rightarrow> ast parse \<Rightarrow> ast parse" where
  "unary 0 post = (\<lambda>s. None)"
| "unary (Suc n) post =
     p_then current (\<lambda>t.
       if t \<in> {Tk Bang, Tk Dash, Tk Tilde}
       then p_then advance (\<lambda>op. p_then (unary n post) (\<lambda>child. p_ret (ExprUnary child op)))
       else post)"

definition multiplicative :: "ucd \<Rightarrow> nat \<Rightarrow> ast parse \<Rightarrow> ast parse" where
  "multiplicative u n expression = left_rec n [Star, Slash] (unary (Suc n) (postfix u n expression))"

definition additive :: "ucd \<Rightarrow> nat \<Rightarrow> ast parse \<Rightarrow> ast parse" where
  "additive u n expression = left_rec n [Plus, Dash] (multiplicative u n expression)"

definition shift :: "ucd \<Rightarrow> nat \<Rightarrow> ast parse \<Rightarrow> ast parse" where
  "shift u n expression = left_rec n [LShift, RShift] (additive u n expression)"

definition relational :: "ucd \<Rightarrow> nat \<Rightarrow> ast parse \<Rightarrow> ast parse" where
  "relational u n expression = left_rec n [LessThan, LessEq, MoreThan, MoreEq] (shift u n expression)"

definition equality :: "ucd \<Rightarrow> nat \<Rightarrow> ast parse \<Rightarrow> ast parse" where
  "equality u n expression = left_rec n [EqEq, BangEq] (relational u n expression)"

definition bitwise_and :: "ucd \<Rightarrow> nat \<Rightarrow> ast parse \<Rightarrow> ast parse" where
  "bitwise_and u n expression = left_rec n [Ampersand] (equality u n expression)"

definition bitwise_xor :: "ucd \<Rightarrow> nat \<Rightarrow> ast parse \<Rightarrow> ast parse" where
  "bitwise_xor u n expression = left_rec n [Caret] (bitwise_and u n expression)"

definition bitwise_or :: "ucd \<Rightarrow> nat \<Rightarrow> ast parse \<Rightarrow> ast parse" where
  "bitwise_or u n expression = left_rec n [Pipe] (bitwise_xor u n expression)"

definition logic_and :: "ucd \<Rightarrow> nat \<Rightarrow> ast parse \<Rightarrow> ast parse" where
  "logic_and u n expression = left_rec n [AmpAmp] (bitwise_or u n expression)"

definition logic_or :: "ucd \<Rightarrow> nat \<Rightarrow> ast parse \<Rightarrow> ast parse" where
  "logic_or u n expression = left_rec n [PipePipe] (logic_and u n expression)"

definition assignment :: "ucd \<Rightarrow> nat \<Rightarrow> ast parse \<Rightarrow> ast parse" where
  "assignment u n expression = right_rec [Eq] (logic_or u n expression) expression"

text \<open>\<open>expression\<close> is \<open>assignment\<close>, and \<open>assignment\<close> calls itself on the right of the sign.\<close>

primrec expression :: "ucd \<Rightarrow> nat \<Rightarrow> ast parse" where
  "expression u 0 = (\<lambda>s. None)"
| "expression u (Suc n) = assignment u n (expression u n)"

section \<open>Statements\<close>

definition msg :: "string \<Rightarrow> token \<Rightarrow> 'a parse" where
  "msg m t = p_fail (Message m)"

definition var_decl :: "ucd \<Rightarrow> nat \<Rightarrow> ast parse" where
  "var_decl u n =
     p_then advance (\<lambda>_.
     p_then (ident (msg ''name expected after function keyword'')) (\<lambda>name.
     p_then (eat (Tk Colon) ''expected colon after variable name in a declaration'') (\<lambda>_.
     p_then (parse_type n) (\<lambda>kind.
     p_then current (\<lambda>t.
     p_then (if t = Tk Eq then p_then advance (\<lambda>_. p_then (expression u n) (\<lambda>v. p_ret (Some v)))
             else p_ret None) (\<lambda>v.
     p_then (eat (Tk Semi) ''expected semicolon at the end of a variable declaration'') (\<lambda>_.
       p_ret (DeclVar name kind v))))))))"

text \<open>The dotted path of an import, after its root.\<close>

fun import_path :: "nat \<Rightarrow> string list \<Rightarrow> string list parse" where
  "import_path 0 path = (\<lambda>s. None)"
| "import_path (Suc n) path =
     p_then peek (\<lambda>next.
       if next = None then p_ret path
       else p_then current (\<lambda>t.
        if t = Tk Dot then
          p_then advance (\<lambda>_.
          p_then (ident (msg ''expected an identifier in an import path'')) (\<lambda>part.
            import_path n (path @ [part])))
        else p_ret path))"

definition import_stmt :: "nat \<Rightarrow> ast parse" where
  "import_stmt n =
     p_then advance (\<lambda>_.
     p_then (ident (msg ''expected an identifier in an import path'')) (\<lambda>root.
     p_then (import_path n [root]) (\<lambda>path.
     p_then current (\<lambda>t.
     p_then (if t = TkKw As then
               p_then advance (\<lambda>_.
               p_then (ident (msg ''expected an identifier for import to alias as'')) (\<lambda>a. p_ret (Some a)))
             else p_ret None) (\<lambda>alias.
     p_then (eat (Tk Semi) ''expected semicolon at the end of an import statement'') (\<lambda>_.
       p_ret (StmtImport path alias)))))))"

definition return_stmt :: "ucd \<Rightarrow> nat \<Rightarrow> ast parse" where
  "return_stmt u n =
     p_then advance (\<lambda>_.
     p_then current (\<lambda>t.
     p_then (if t = Tk Semi then p_ret None else p_then (expression u n) (\<lambda>v. p_ret (Some v))) (\<lambda>val.
     p_then (eat (Tk Semi) ''expected semicolon at the end of a return statement'') (\<lambda>_.
       p_ret (ExprReturn val)))))"

text \<open>\<open>block\<close>: statements up to the closing brace, or a single statement.\<close>

fun block_loop :: "nat \<Rightarrow> ast parse \<Rightarrow> ast list \<Rightarrow> ast list parse" where
  "block_loop 0 statement acc = (\<lambda>s. None)"
| "block_loop (Suc n) statement acc =
     p_then peek (\<lambda>next.
       if next = None then p_ret acc
       else p_then current (\<lambda>t.
        if t = Tk RCurly then p_ret acc
        else p_then statement (\<lambda>x. block_loop n statement (acc @ [x]))))"

definition braced :: "nat \<Rightarrow> ast parse \<Rightarrow> ast parse" where
  "braced n statement =
     p_then advance (\<lambda>_.
     p_then (block_loop n statement []) (\<lambda>stmts.
     p_then (eat (Tk RCurly) ''left curly brace is never closed'') (\<lambda>_.
       p_ret (Block stmts usize_max))))"

definition block :: "nat \<Rightarrow> ast parse \<Rightarrow> ast parse" where
  "block n statement =
     p_then current (\<lambda>t. if t = Tk LCurly then braced n statement else statement)"

definition for_stmt :: "ucd \<Rightarrow> nat \<Rightarrow> ast parse \<Rightarrow> ast parse" where
  "for_stmt u n statement =
     p_then advance (\<lambda>_.
     p_then (ident (msg ''variable name expected after `for` keyword'')) (\<lambda>elem_name.
     p_then (eat (TkKw In) ''expected `in` keyword to follow in a for declaration'') (\<lambda>_.
     p_then (with_struct False (expression u n)) (\<lambda>array.
     p_then (expect (Tk LCurly) ''expected `{` after for loop declaration'') (\<lambda>_.
     p_then (block n statement) (\<lambda>body.
       p_ret (StmtFor elem_name array body)))))))"

fun catches_loop :: "nat \<Rightarrow> ast parse \<Rightarrow> (string \<times> ast) list \<Rightarrow> (string \<times> ast) list parse" where
  "catches_loop 0 statement acc = (\<lambda>s. None)"
| "catches_loop (Suc n) statement acc =
     p_then peek (\<lambda>next.
       if next = Some (TkKw Catch) then
         p_then advance (\<lambda>_.
         p_then (ident (\<lambda>other. panic_near 4 (NotACatchKind other))) (\<lambda>kind.
         p_then (expect (Tk LCurly) ''expected `{` after catch kind'') (\<lambda>_.
         p_then (block n statement) (\<lambda>body.
           catches_loop n statement (acc @ [(kind, body)])))))
       else p_ret acc)"

definition try_stmt :: "nat \<Rightarrow> ast parse \<Rightarrow> ast parse" where
  "try_stmt n statement =
     p_then advance (\<lambda>_.
     p_then (expect (Tk LCurly) ''expected `{` after `try`'') (\<lambda>_.
     p_then (block n statement) (\<lambda>body.
     p_then (catches_loop n statement []) (\<lambda>catches.
       if catches = []
       then panic_near 4 (Message ''`try` block requires at least one `catch <kind> { ... }` clause'')
       else p_ret (StmtTry body catches)))))"

definition if_stmt :: "ucd \<Rightarrow> nat \<Rightarrow> ast parse \<Rightarrow> ast parse" where
  "if_stmt u n statement =
     p_then advance (\<lambda>_.
     p_then (with_struct False (expression u n)) (\<lambda>condition.
     p_then (expect (Tk LCurly) ''expected `{` after if statement declaration'') (\<lambda>_.
     p_then (block n statement) (\<lambda>body.
     p_then current (\<lambda>t.
     p_then (if t = TkKw Else then p_then advance (\<lambda>_. p_then (block n statement) (\<lambda>e. p_ret (Some e)))
             else p_ret None) (\<lambda>alt.
       p_ret (StmtIf condition body alt)))))))"

definition while_stmt :: "ucd \<Rightarrow> nat \<Rightarrow> ast parse \<Rightarrow> ast parse" where
  "while_stmt u n statement =
     p_then advance (\<lambda>_.
     p_then (with_struct False (expression u n)) (\<lambda>condition.
     p_then (expect (Tk LCurly) ''expected `{` after while loop declaration'') (\<lambda>_.
     p_then (block n statement) (\<lambda>body.
       p_ret (StmtWhile condition body)))))"

definition rethrow_stmt :: "ast parse" where
  "rethrow_stmt =
     p_then advance (\<lambda>_. p_then (eat (Tk Semi) ''expected `;` after `rethrow`'') (\<lambda>_. p_ret StmtRethrow))"

definition expr_stmt :: "ucd \<Rightarrow> nat \<Rightarrow> ast parse" where
  "expr_stmt u n =
     p_then (expression u n) (\<lambda>e.
     p_then (eat (Tk Semi) ''expected semicolon to follow exprstmt'') (\<lambda>_. p_ret e))"

primrec statement :: "ucd \<Rightarrow> nat \<Rightarrow> ast parse" where
  "statement u 0 = (\<lambda>s. None)"
| "statement u (Suc n) =
     p_then current (\<lambda>t.
       if t = TkKw For then for_stmt u n (statement u n)
       else if t = TkKw If then if_stmt u n (statement u n)
       else if t = TkKw Import then import_stmt n
       else if t = TkKw While then while_stmt u n (statement u n)
       else if t = TkKw Let then var_decl u n
       else if t = TkKw KwReturn then return_stmt u n
       else if t = TkKw Try then try_stmt n (statement u n)
       else if t = TkKw KwRethrow then rethrow_stmt
       else if t = Tk LCurly then block n (statement u n)
       else expr_stmt u (Suc n))"

section \<open>Declarations\<close>

definition param :: "nat \<Rightarrow> (string \<times> ty) parse" where
  "param n =
     p_then (ident (\<lambda>_. panic_near 4 (Message ''expected parameter name''))) (\<lambda>pname.
     p_then (eat (Tk Colon) ''expected colon after parameter name'') (\<lambda>_.
     p_then (parse_type n) (\<lambda>ptype. p_ret (pname, ptype))))"

definition func_decl :: "ucd \<Rightarrow> nat \<Rightarrow> ast parse" where
  "func_decl u n =
     p_then advance (\<lambda>_.
     p_then (ident (msg ''name expected after function keyword'')) (\<lambda>name.
     p_then (eat (Tk LParen) ''expected left parenthesis after function name'') (\<lambda>_.
     p_then (comma_list n True RParen (param n) []) (\<lambda>params.
     p_then (eat (Tk RParen) ''expected right parenthesis after parameter list'') (\<lambda>_.
     p_then current (\<lambda>t.
     p_then (if t = Tk Arrow then p_then advance (\<lambda>_. parse_type n) else p_ret TyVoid) (\<lambda>rt.
     p_then (block n (statement u n)) (\<lambda>body.
       p_ret (DeclFunc name params rt body usize_max)))))))))"

definition struct_field :: "nat \<Rightarrow> (string \<times> ty) parse" where
  "struct_field n =
     p_then (ident (msg ''expected identifier for a field name in struct declaration'')) (\<lambda>fname.
     p_then (eat (Tk Colon) ''expected colon after field name'') (\<lambda>_.
     p_then (parse_type n) (\<lambda>fkind. p_ret (fname, fkind))))"

definition struct_decl :: "nat \<Rightarrow> ast parse" where
  "struct_decl n =
     p_then advance (\<lambda>_.
     p_then (ident (msg ''expected a name after keyword `struct`'')) (\<lambda>name.
     p_then (eat (Tk LCurly) ''expected `{` after enum declaration'') (\<lambda>_.
     p_then (comma_list n True RCurly (struct_field n) []) (\<lambda>fields.
     p_then (eat (Tk RCurly) ''expected `}` to close struct declaration'') (\<lambda>_.
       p_ret (DeclStruct name (fold (\<lambda>(f, t) m. hm_insert f t m) fields [])))))))"

text \<open>The variants, counted from the last explicit number; \<open>iota\<close> is an \<open>isize\<close>.\<close>

definition variant_number :: "int \<Rightarrow> int parse" where
  "variant_number iota =
     p_then current (\<lambda>t.
       if t = Tk Eq then
         p_then advance (\<lambda>_. p_then current (\<lambda>v. case v of
           TkInteger i \<Rightarrow> p_then advance (\<lambda>_. p_ret (sint (word_of_int i :: u64)))
         | _ \<Rightarrow> p_fail (Message ''expected an integer after equals sign in enum declaration'')))
       else p_ret iota)"

fun variants_loop :: "bool \<Rightarrow> nat \<Rightarrow> int \<Rightarrow> (string \<times> int) list \<Rightarrow> (string \<times> int) list parse" where
  "variants_loop ovf 0 iota acc = (\<lambda>s. None)"
| "variants_loop ovf (Suc n) iota acc =
     p_then peek (\<lambda>next.
       if next = None then p_ret acc
       else p_then current (\<lambda>t.
        if t = Tk RCurly then p_ret acc
        else
          p_then (ident (msg ''expected identifier for a member name in enum declaration'')) (\<lambda>vname.
          p_then (variant_number iota) (\<lambda>i.
            if ovf \<and> \<not> i64_in_range (i + 1) then p_fail Overflow
            else
              p_then current (\<lambda>t'.
                if t' = Tk Comma then
                  p_then advance (\<lambda>_.
                    variants_loop ovf n (sint (word_of_int (i + 1) :: u64)) (hm_insert vname i acc))
                else p_ret (hm_insert vname i acc))))))"

definition enum_decl :: "bool \<Rightarrow> nat \<Rightarrow> ast parse" where
  "enum_decl ovf n =
     p_then advance (\<lambda>_.
     p_then (ident (msg ''expected a name after keyword `enum`'')) (\<lambda>name.
     p_then (eat (Tk LCurly) ''expected `{` after enum declaration'') (\<lambda>_.
     p_then (variants_loop ovf n 0 []) (\<lambda>variants.
     p_then (eat (Tk RCurly) ''expected `}` to close enum declaration'') (\<lambda>_.
       p_ret (DeclEnum name variants))))))"

definition any_decl :: "bool \<Rightarrow> ucd \<Rightarrow> nat \<Rightarrow> ast parse" where
  "any_decl ovf u n =
     p_then current (\<lambda>t.
       if t = TkKw Func then func_decl u n
       else if t = TkKw Let then var_decl u n
       else if t = TkKw Struct then struct_decl n
       else if t = TkKw Enum then enum_decl ovf n
       else if t = TkKw Import then import_stmt n
       else panic_near 4 (UnknownDeclaration t))"

text \<open>\<open>Parser::run\<close>: declarations until there are no tokens left.\<close>

fun declarations :: "bool \<Rightarrow> ucd \<Rightarrow> nat \<Rightarrow> ast list \<Rightarrow> sol_program parse" where
  "declarations ovf u 0 acc = (\<lambda>s. None)"
| "declarations ovf u (Suc n) acc =
     p_then peek (\<lambda>next.
       if next = None then p_ret acc
       else p_then (any_decl ovf u n) (\<lambda>d. declarations ovf u n (acc @ [d])))"

definition parser_from :: "token list \<Rightarrow> parser" where
  "parser_from ts = \<lparr>toks = ts, can_struct = True\<rparr>"

definition parse :: "bool \<Rightarrow> ucd \<Rightarrow> token list \<Rightarrow> (parse_error + (sol_program \<times> parser)) option" where
  "parse ovf u ts = declarations ovf u (Suc (length ts)) [] (parser_from ts)"

end
