(* ===== verification/Sol_Compile.thy ===== *)
theory Sol_Compile
  imports Sol_Directives Sol_Lexer Sol_Parser Sol_Analyzer Sol_Bytecode
begin

text \<open>
  The entry points of the compiler (\<open>sol/mod.rs\<close>): the lexer, the parser, the analyzer and the code
  generator one after the other, behind \<open>catch_unwind\<close>, so that every panic of theirs is an error
  value here; \<open>compile_failure\<close> says whose it was instead of carrying its text. \<open>None\<close> is a lexer that
  never returns.
\<close>

datatype compile_failure =
    Lexing string | Parsing parse_error | Analysing analysis_error | Generating string

datatype flow_error = Directive sol_error | Parse compile_failure

record compiled_flow =
  bytecode :: "inst list"
  max_steps :: nat

definition compile_program :: "sol_program \<Rightarrow> compile_failure + inst list" where
  "compile_program program =
     (case analyze program analyzer_new of
        Inl e \<Rightarrow> Inl (Analysing e)
      | Inr (program', analyzer) \<Rightarrow>
          (case gen_bcode program' (codegen_from (tt_arena analyzer)) of
             Inl e \<Rightarrow> Inl (Generating e)
           | Inr code \<Rightarrow> Inr code))"

definition compile_tokens :: "bool \<Rightarrow> ucd \<Rightarrow> token list \<Rightarrow> (compile_failure + inst list) option" where
  "compile_tokens ovf u ts =
     (case parse ovf u ts of
        None \<Rightarrow> None
      | Some (Inl e) \<Rightarrow> Some (Inl (Parsing e))
      | Some (Inr (program, _)) \<Rightarrow> Some (compile_program program))"

definition compile_stripped_source :: "bool \<Rightarrow> ucd \<Rightarrow> ustr \<Rightarrow> (compile_failure + inst list) option" where
  "compile_stripped_source ovf u source =
     (case tokens u source of
        None \<Rightarrow> None
      | Some (Inl e) \<Rightarrow> Some (Inl (Lexing e))
      | Some (Inr ts) \<Rightarrow> compile_tokens ovf u ts)"

definition compile_source :: "bool \<Rightarrow> ucd \<Rightarrow> ustr \<Rightarrow> (flow_error + inst list) option" where
  "compile_source ovf u source =
     (case strip_steps_directive source of
        Inl e \<Rightarrow> Some (Inl (Directive e))
      | Inr (stripped, _) \<Rightarrow> map_option (map_sum Parse id) (compile_stripped_source ovf u stripped))"

definition compile_source_with_directives ::
  "bool \<Rightarrow> ucd \<Rightarrow> ustr \<Rightarrow> nat \<Rightarrow> (flow_error + compiled_flow) option" where
  "compile_source_with_directives ovf u source default_max_steps =
     (case strip_steps_directive source of
        Inl e \<Rightarrow> Some (Inl (Directive e))
      | Inr (stripped, directive_fuel) \<Rightarrow>
          map_option
            (map_sum Parse (\<lambda>code. \<lparr>bytecode = code, max_steps = resolve_max_steps directive_fuel default_max_steps\<rparr>))
            (compile_stripped_source ovf u stripped))"

end
