(* ===== verification/Sol_Render.thy ===== *)
theory Sol_Render
  imports Sol_Lexer Sol_Directives
begin

text \<open>
  Writing tokens out as source text and lexing them back. Every token is followed by a space; the
  lexer's choices between one and two characters, keywords and names, comments and division all depend
  on what comes next, and the round trip says that they are made right.
\<close>

section \<open>Rendering\<close>

primrec render_kw :: "kw \<Rightarrow> string" where
  "render_kw For = ''for''" | "render_kw In = ''in''" | "render_kw As = ''as''"
| "render_kw Func = ''function''" | "render_kw If = ''if''" | "render_kw Else = ''else''"
| "render_kw Import = ''import''" | "render_kw While = ''while''" | "render_kw Struct = ''struct''"
| "render_kw Enum = ''enum''" | "render_kw Let = ''let''" | "render_kw KwReturn = ''return''"
| "render_kw KwTrue = ''true''" | "render_kw KwFalse = ''false''" | "render_kw Try = ''try''"
| "render_kw Catch = ''catch''" | "render_kw KwRethrow = ''rethrow''"

primrec render_punct :: "punct \<Rightarrow> string" where
  "render_punct LParen = ''(''" | "render_punct RParen = '')''" | "render_punct LSquare = ''[''"
| "render_punct RSquare = '']''" | "render_punct LCurly = ''{''" | "render_punct RCurly = ''}''"
| "render_punct Dot = ''.''" | "render_punct Comma = '',''" | "render_punct Colon = '':''"
| "render_punct ColonColon = ''::''" | "render_punct Semi = '';''" | "render_punct Arrow = ''->''"
| "render_punct Eq = ''=''" | "render_punct Bang = ''!''" | "render_punct BangEq = ''!=''"
| "render_punct MoreThan = ''>''" | "render_punct LessThan = ''<''" | "render_punct MoreEq = ''>=''"
| "render_punct LessEq = ''<=''" | "render_punct EqEq = ''==''" | "render_punct Plus = ''+''"
| "render_punct Dash = ''-''" | "render_punct Star = ''*''" | "render_punct Slash = ''/''"
| "render_punct Ampersand = ''&''" | "render_punct AmpAmp = ''&&''" | "render_punct Pipe = ''|''"
| "render_punct PipePipe = ''||''" | "render_punct LShift = ''<<''" | "render_punct RShift = ''>>''"
| "render_punct Caret = ''^''" | "render_punct Tilde = ''~''"

primrec render_token :: "token \<Rightarrow> ustr" where
  "render_token (TkIdent x) = chars x"
| "render_token (TkKw k) = cps (render_kw k)"
| "render_token (TkInteger i) = cps (show_nat (nat i))"
| "render_token (TkFloat f) = []"
| "render_token (TkChar c) = [39, c, 39]"
| "render_token (TkString s) = 34 # chars s @ [34]"
| "render_token (Tk p) = cps (render_punct p)"

definition render :: "token list \<Rightarrow> ustr" where
  "render ts = concat (map (\<lambda>t. render_token t @ [32]) ts)"

text \<open>The tokens that have a spelling: the lexer itself produces no others, apart from decimal fractions.\<close>

primrec lexable :: "ucd \<Rightarrow> token \<Rightarrow> bool" where
  "lexable u (TkIdent x) \<longleftrightarrow>
     utf8 (chars x) = x \<and> chars x \<noteq> [] \<and> is_alphabetic u (hd (chars x)) \<and> \<not> is_whitespace (hd (chars x))
     \<and> list_all (ident_char u) (chars x) \<and> keyword x = TkIdent x"
| "lexable u (TkKw k) \<longleftrightarrow> True"
| "lexable u (TkInteger i) \<longleftrightarrow> 0 \<le> i \<and> i \<le> int i128_max"
| "lexable u (TkFloat f) \<longleftrightarrow> False"
| "lexable u (TkChar c) \<longleftrightarrow> True"
| "lexable u (TkString s) \<longleftrightarrow> utf8 (chars s) = s \<and> 34 \<notin> set (chars s)"
| "lexable u (Tk p) \<longleftrightarrow> True"

section \<open>One token\<close>

lemma utf8_cps: "list_all (\<lambda>c. of_char c < (128 :: nat)) s \<Longrightarrow> utf8 (cps s) = s"
  by (induction s) (simp_all add: utf8_def cps_def utf8_encode_def)

lemma chars_ascii: "list_all (\<lambda>c. of_char c < (128 :: nat)) s \<Longrightarrow> chars s = cps s"
proof -
  assume s: "list_all (\<lambda>c. of_char c < (128 :: nat)) s"
  then have "\<forall>c \<in> set (cps s). scalar_value c" by (fastforce simp: cps_def scalar_value_def list_all_iff)
  from chars_utf8 [OF this] show ?thesis by (simp add: utf8_cps s)
qed

lemma skip_space: "next_token u (32 # s) = next_token u s"
proof -
  have "skip_ws (32 # s) = skip_ws s" by (simp add: skip_ws_def is_whitespace_def)
  then have "skip_trivia (32 # s) = skip_trivia s"
    by (simp add: skip_trivia.simps [of "32 # s"] skip_trivia.simps [of s])
  then show ?thesis by (simp add: next_token_def)
qed

lemma skip_trivia_here:
  assumes "\<not> is_whitespace c" "c \<noteq> 95" "c = 47 \<longrightarrow> d \<noteq> 47 \<and> d \<noteq> 42"
  shows "skip_trivia (c # d # s) = c # d # s"
  using assms by (auto simp: skip_trivia.simps [of "c # d # s"] skip_ws_def)

lemma not_alphabetic: "c = 32 \<or> c = 34 \<or> c = 39 \<or> c = 47 \<or> c = 95 \<or> is_ascii_digit c \<Longrightarrow> \<not> is_alphabetic u c"
  by (auto simp: is_alphabetic_def is_ascii_alpha_def is_ascii_digit_def)

lemma space_ends_word: "\<not> ident_char u 32"
  by (simp add: ident_char_def is_alphanumeric_def not_alphabetic is_numeric_def is_ascii_digit_def)

lemma lex_word:
  assumes "list_all (ident_char u) w" "w \<noteq> []" "is_alphabetic u (hd w)" "\<not> is_whitespace (hd w)"
  shows "next_token u (w @ 32 # s) = LexTok (keyword (utf8 w)) (32 # s)"
proof -
  obtain c r where w: "w = c # r" using assms(2) by (cases w) auto
  obtain d q where d: "r @ 32 # s = d # q" by (cases r) auto
  have c: "c \<noteq> 47" "c \<noteq> 95" using not_alphabetic [of c u] assms(3) w by auto
  have "skip_trivia (w @ 32 # s) = w @ 32 # s"
    using skip_trivia_here [of c d q] assms(4) c d w by simp
  moreover have "takeWhile (ident_char u) (w @ 32 # s) = w" "dropWhile (ident_char u) (w @ 32 # s) = 32 # s"
    using assms(1) space_ends_word by (simp_all add: list_all_iff takeWhile_append2 dropWhile_append2)
  ultimately show ?thesis using assms(3) w by (simp add: next_token_def lex_identifier_def)
qed

lemma number_loop_digits:
  "list_all is_ascii_digit ds \<Longrightarrow> number_loop False buf (ds @ 32 # s) = (False, buf @ ds, 32 # s)"
  by (induction ds arbitrary: buf) (simp_all add: is_ascii_digit_def)

lemma lex_integer:
  assumes "0 \<le> i" "i \<le> int i128_max"
  shows "next_token u (cps (show_nat (nat i)) @ 32 # s) = LexTok (TkInteger i) (32 # s)"
proof -
  let ?ds = "cps (show_nat (nat i))"
  have ds: "list_all is_ascii_digit ?ds" "?ds \<noteq> []" "digits_val ?ds = nat i"
    using show_nat_digits by blast+
  obtain c r where w: "?ds = c # r" using ds(2) by (cases ?ds) auto
  obtain d q where d: "r @ 32 # s = d # q" by (cases r) auto
  have c: "is_ascii_digit c" "\<not> is_whitespace c" "c \<noteq> 47" "c \<noteq> 95" "c \<noteq> 39" "c \<noteq> 34" "c \<noteq> 43" "c < 128"
    using ds(1) w by (auto simp: is_ascii_digit_def is_whitespace_def)
  have "skip_trivia (?ds @ 32 # s) = ?ds @ 32 # s"
    using skip_trivia_here [of c d q] c d w by simp
  moreover have "parse_unsigned i128_max ?ds = Some (nat i)"
    using ds w c assms by (simp add: parse_unsigned_def nat_le_iff)
  ultimately show ?thesis
    using number_loop_digits [OF ds(1), of "[]" s] c w assms(1) not_alphabetic [of c u]
    by (simp add: next_token_def number_def is_numeric_def)
qed

lemma lex_string:
  assumes "34 \<notin> set w"
  shows "next_token u (34 # w @ 34 # 32 # s) = LexTok (TkString (utf8 w)) (32 # s)"
proof -
  obtain d q where d: "w @ 34 # 32 # s = d # q" by (cases w) auto
  have "skip_trivia (34 # w @ 34 # 32 # s) = 34 # w @ 34 # 32 # s"
    unfolding d by (rule skip_trivia_here) (simp_all add: is_whitespace_def)
  moreover have "takeWhile (\<lambda>d. d \<noteq> 34) (w @ 34 # 32 # s) = w" "dropWhile (\<lambda>d. d \<noteq> 34) (w @ 34 # 32 # s) = 34 # 32 # s"
    using assms by (induction w) simp_all
  ultimately show ?thesis by (simp add: next_token_def not_alphabetic)
qed

lemma lex_char: "next_token u (39 # c # 39 # 32 # s) = LexTok (TkChar c) (32 # s)"
proof -
  have "skip_trivia (39 # c # 39 # 32 # s) = 39 # c # 39 # 32 # s"
    by (rule skip_trivia_here) (simp_all add: is_whitespace_def)
  then show ?thesis by (simp add: next_token_def not_alphabetic)
qed

lemma lex_punct: "next_token u (cps (render_punct p) @ 32 # s) = LexTok (Tk p) (32 # s)"
proof -
  have "\<exists>c d r. cps (render_punct p) @ 32 # s = c # d # r \<and> skip_trivia (c # d # r) = c # d # r"
    by (cases p) (simp_all add: cps_def skip_trivia_here is_whitespace_def)
  then have t: "skip_trivia (cps (render_punct p) @ 32 # s) = cps (render_punct p) @ 32 # s" by auto
  show ?thesis unfolding next_token_def t
    by (cases p)
      (simp_all add: cps_def is_alphabetic_def is_ascii_alpha_def is_numeric_def is_ascii_digit_def symbol_def Let_def)
qed

lemma lex_kw: "next_token u (cps (render_kw k) @ 32 # s) = LexTok (TkKw k) (32 # s)"
proof -
  have "list_all (ident_char u) (cps (render_kw k)) \<and> cps (render_kw k) \<noteq> [] \<and> is_alphabetic u (hd (cps (render_kw k)))
      \<and> \<not> is_whitespace (hd (cps (render_kw k)))"
    by (cases k) (simp_all add: cps_def ident_char_def is_alphanumeric_def is_alphabetic_def is_ascii_alpha_def is_whitespace_def)
  moreover have "keyword (utf8 (cps (render_kw k))) = TkKw k"
    by (cases k) (simp_all add: utf8_cps keyword_def)
  ultimately show ?thesis using lex_word [of u "cps (render_kw k)" s] by simp
qed

lemma lex_render_token: "lexable u t \<Longrightarrow> next_token u (render_token t @ 32 # s) = LexTok t (32 # s)"
  by (cases t) (auto simp: lex_word lex_kw lex_integer lex_char lex_string lex_punct)

lemma lex_render: "list_all (lexable u) ts \<Longrightarrow> lex_all u (render ts) acc = Some (Inr (acc @ ts))"
proof (induction ts arbitrary: acc)
  case Nil
  have "next_token u [] = LexEnd" by (simp add: next_token_def skip_trivia.simps skip_ws_def)
  then show ?case by (simp add: render_def lex_all.simps)
next
  case (Cons t ts)
  have "lex_all u (32 # s) acc = lex_all u s acc" for s acc
    by (simp add: lex_all.simps [of u "32 # s"] lex_all.simps [of u s] skip_space)
  moreover have "next_token u (render (t # ts)) = LexTok t (32 # render ts)"
    using lex_render_token [of u t "render ts"] Cons.prems by (simp add: render_def)
  ultimately show ?case
    using Cons by (simp add: lex_all.simps [of u "render (t # ts)"])
qed

text \<open>An ASCII name that is no keyword.\<close>

definition ascii_word_char :: "char \<Rightarrow> bool" where
  "ascii_word_char c \<longleftrightarrow> is_ascii_alpha (of_char c) \<or> is_ascii_digit (of_char c) \<or> c = CHR ''_''"

lemma ascii_alpha: "is_ascii_alpha c \<Longrightarrow> is_alphabetic u c \<and> \<not> is_whitespace c"
  by (auto simp: is_ascii_alpha_def is_alphabetic_def is_whitespace_def)

lemma ascii_digit: "is_ascii_digit c \<Longrightarrow> is_numeric u c"
  by (auto simp: is_ascii_digit_def is_numeric_def)

lemma ascii_word_ident: "ascii_word_char c \<Longrightarrow> ident_char u (of_char c)"
  using ascii_alpha ascii_digit unfolding ascii_word_char_def ident_char_def is_alphanumeric_def by blast

lemma lexable_name:
  assumes "list_all ascii_word_char x" "x \<noteq> []" "is_ascii_alpha (of_char (hd x))" "keyword x = TkIdent x"
  shows "lexable u (TkIdent x)"
proof -
  have "of_char c < (128 :: nat)" if "ascii_word_char c" for c
    using that by (auto simp: ascii_word_char_def is_ascii_alpha_def is_ascii_digit_def)
  then have x: "chars x = cps x" "utf8 (cps x) = x"
    using assms(1) by (auto intro!: chars_ascii utf8_cps simp: list_all_iff)
  have "list_all (ident_char u) (cps x)"
    using assms(1) ascii_word_ident by (auto simp: cps_def list_all_iff)
  moreover have "is_alphabetic u (hd (cps x))" "\<not> is_whitespace (hd (cps x))"
    using assms(2) ascii_alpha [OF assms(3), of u] by (simp_all add: cps_def hd_map)
  ultimately show ?thesis using assms(2,4) x by (simp add: cps_def)
qed

section \<open>Properties\<close>

lemma tokens_rendered: "list_all (lexable u) ts \<Longrightarrow> tokens u (render ts) = Some (Inr ts)"
  by (simp add: tokens_def lex_render)

text \<open>Tokens written out one after the other, with a space in between, lex back to themselves:
  names are not taken for keywords or keywords for names, no operator is split or joined, and no slash
  starts a comment.\<close>

lemma tokens_render: "list_all (lexable u) ts \<Longrightarrow> tokens u (render ts) = Some (Inr ts)"
  by (rule tokens_rendered)

lemma tokens_render_witness:
  "tokens ascii_ucd (cps ''let x : int = 10 / 2 ; '') =
    Some (Inr [TkKw Let, TkIdent ''x'', Tk Colon, TkIdent ''int'', Tk Eq, TkInteger 10, Tk Slash, TkInteger 2, Tk Semi])"
proof -
  let ?ts = "[TkKw Let, TkIdent ''x'', Tk Colon, TkIdent ''int'', Tk Eq, TkInteger 10, Tk Slash, TkInteger 2, Tk Semi]"
  have "list_all (lexable ascii_ucd) ?ts"
    by (simp add: lexable_name ascii_word_char_def is_ascii_alpha_def keyword_def i128_max_def del: lexable.simps(1))
  moreover have "cps ''let x : int = 10 / 2 ; '' = render ?ts"
    by (simp add: render_def chars_ascii cps_def show_nat.simps digit_char_def)
  ultimately show ?thesis by (simp only: tokens_render)
qed

end
