(* ===== verification/Sol_Parser_Props.thy ===== *)
theory Sol_Parser_Props
  imports Sol_Parser
begin

text \<open>
  The parser returns on every token sequence, consumes a part of it from the front, and leaves its
  \<open>can_struct\<close> flag as it was. \<open>reads n k m\<close> says
  what the parser \<open>m\<close> does on fewer than \<open>n\<close> tokens: it does not run out of fuel, and if it succeeds
  it has consumed at least \<open>k\<close> of them.
\<close>

named_theorems consuming
named_theorems neutral

definition reads :: "nat \<Rightarrow> nat \<Rightarrow> 'a parse \<Rightarrow> bool" where
  "reads n k m \<longleftrightarrow>
     (\<forall>s. length (toks s) < n \<longrightarrow> m s \<noteq> None \<and>
        (\<forall>x s'. m s = Some (Inr (x, s')) \<longrightarrow>
           (\<exists>used. s' = s\<lparr>toks := toks s'\<rparr> \<and> toks s = used @ toks s' \<and> k \<le> length used)))"

lemma readsI:
  assumes "\<And>s. length (toks s) < n \<Longrightarrow> m s \<noteq> None"
    and "\<And>s x s'. length (toks s) < n \<Longrightarrow> m s = Some (Inr (x, s')) \<Longrightarrow>
      \<exists>used. s' = s\<lparr>toks := toks s'\<rparr> \<and> toks s = used @ toks s' \<and> k \<le> length used"
  shows "reads n k m"
  using assms unfolding reads_def by blast

lemma readsD:
  assumes "reads n k m" "length (toks s) < n"
  obtains e where "m s = Some (Inl e)"
  | x s' used where "m s = Some (Inr (x, s'))" "s' = s\<lparr>toks := toks s'\<rparr>" "toks s = used @ toks s'"
    "k \<le> length used"
proof (cases "m s")
  case None
  with assms show ?thesis unfolding reads_def by blast
next
  case (Some r)
  show ?thesis
  proof (cases r)
    case (Inl e)
    with Some that(1) show ?thesis by blast
  next
    case (Inr p)
    obtain x s' where p: "p = (x, s')" by (cases p)
    with Some Inr assms obtain used where
      "s' = s\<lparr>toks := toks s'\<rparr>" "toks s = used @ toks s'" "k \<le> length used"
      unfolding reads_def by blast
    with Some Inr p that(2) show ?thesis by blast
  qed
qed

lemma reads_mono: "reads n k m \<Longrightarrow> n' \<le> n \<Longrightarrow> k' \<le> k \<Longrightarrow> reads n' k' m"
  unfolding reads_def by (meson le_trans less_le_trans)

lemma reads_ret: "k = 0 \<Longrightarrow> reads n k (p_ret x)"
  by (rule readsI) (simp_all add: p_ret_def)

lemma reads_fail: "reads n k (p_fail e)" "reads n k (panic_near r e)" "reads n k (msg w t)"
  by (rule readsI; simp add: p_fail_def panic_near_def msg_def)+

lemma reads_then:
  assumes "reads n j m" "\<And>x. reads (n - j) (k - j) (f x)"
  shows "reads n k (p_then m f)"
proof (rule readsI)
  fix s :: parser assume s: "length (toks s) < n"
  from assms(1) s show "p_then m f s \<noteq> None"
  proof (cases rule: readsD)
    case (2 x s' used)
    then have "length (toks s') < n - j" using s by auto
    with assms(2) have "f x s' \<noteq> None" unfolding reads_def by blast
    with 2(1) show ?thesis by (simp add: p_then_def)
  qed (simp add: p_then_def)
next
  fix s :: parser and y t assume s: "length (toks s) < n" and run: "p_then m f s = Some (Inr (y, t))"
  from assms(1) s show "\<exists>used. t = s\<lparr>toks := toks t\<rparr> \<and> toks s = used @ toks t \<and> k \<le> length used"
  proof (cases rule: readsD)
    case (2 x s' used)
    then have "length (toks s') < n - j" using s by auto
    with assms(2) [of x] show ?thesis
    proof (cases rule: readsD)
      case (2 z s'' used')
      with \<open>m s = Some (Inr (x, s'))\<close> run have "t = s''" by (simp add: p_then_def)
      moreover have "s'' = s\<lparr>toks := toks s''\<rparr>"
        using 2(2) \<open>s' = s\<lparr>toks := toks s'\<rparr>\<close> by (metis parser.update_convs(1) parser.surjective)
      ultimately show ?thesis
        using 2(3,4) \<open>toks s = used @ toks s'\<close> \<open>j \<le> length used\<close>
        by (intro exI [of _ "used @ used'"]) auto
    qed (use run \<open>m s = Some (Inr (x, s'))\<close> in \<open>simp add: p_then_def\<close>)
  qed (use run in \<open>simp add: p_then_def\<close>)
qed

lemma reads_current [neutral]: "reads n 0 current" "reads n 0 structs_allowed" "reads n 0 peek"
  by (rule readsI; simp add: current_def structs_allowed_def peek_def split: list.splits)+

lemma reads_advance [consuming]: "reads n 1 advance"
proof (rule readsI)
  fix s x s' assume "advance s = Some (Inr (x, s'))"
  then have "toks s = [x] @ toks s'" "s' = s\<lparr>toks := toks s'\<rparr>"
    by (auto simp: advance_def split: list.splits)
  then show "\<exists>used. s' = s\<lparr>toks := toks s'\<rparr> \<and> toks s = used @ toks s' \<and> 1 \<le> length used"
    by (intro exI [of _ "[x]"]) simp
qed (auto simp: advance_def split: list.splits)

lemma reads_if: "reads n k a \<Longrightarrow> reads n k b \<Longrightarrow> reads n k (if c then a else b)"
  by simp

lemma reads_token:
  assumes "\<And>x. reads n k (f1 x)" "\<And>x. reads n k (f2 x)" "\<And>x. reads n k (f3 x)" "\<And>x. reads n k (f4 x)"
    "\<And>x. reads n k (f5 x)" "\<And>x. reads n k (f6 x)" "\<And>x. reads n k (f7 x)"
  shows "reads n k (case t of TkIdent x \<Rightarrow> f1 x | TkKw x \<Rightarrow> f2 x | TkInteger x \<Rightarrow> f3 x | TkFloat x \<Rightarrow> f4 x
    | TkChar x \<Rightarrow> f5 x | TkString x \<Rightarrow> f6 x | Tk x \<Rightarrow> f7 x)"
  using assms by (cases t) simp_all

lemma reads_none: "reads 0 k m"
  by (simp add: reads_def)

lemma reads_with_struct: "reads n k m \<Longrightarrow> reads n k (with_struct b m)"
proof (rule readsI)
  fix s :: parser assume m: "reads n k m" and s: "length (toks s) < n"
  then have l: "length (toks (s\<lparr>can_struct := b\<rparr>)) < n" by simp
  from m l show "with_struct b m s \<noteq> None"
    by (cases rule: readsD) (simp_all add: with_struct_def p_then_def)
next
  fix s x s' assume m: "reads n k m" and s: "length (toks s) < n" and run: "with_struct b m s = Some (Inr (x, s'))"
  then have l: "length (toks (s\<lparr>can_struct := b\<rparr>)) < n" by simp
  from m l show "\<exists>used. s' = s\<lparr>toks := toks s'\<rparr> \<and> toks s = used @ toks s' \<and> k \<le> length used"
  proof (cases rule: readsD)
    case (2 y t used)
    have "t = s\<lparr>can_struct := b, toks := toks t\<rparr>" using 2(2) .
    then have "t\<lparr>can_struct := can_struct s\<rparr> = s\<lparr>toks := toks t\<rparr>"
      by (metis parser.surjective parser.update_convs)
    then show ?thesis using 2 run by (auto simp: with_struct_def p_then_def)
  qed (use run in \<open>simp add: with_struct_def p_then_def\<close>)
qed


lemma reads_then1: "reads n 1 m \<Longrightarrow> (\<And>x. reads (n - 1) (k - 1) (f x)) \<Longrightarrow> reads n k (p_then m f)"
  by (rule reads_then)

lemma reads_then0: "reads n 0 m \<Longrightarrow> (\<And>x. reads n k (f x)) \<Longrightarrow> reads n k (p_then m f)"
  by (rule reads_then [where j = 0]) simp_all

lemma reads_leaf1: "reads n 1 m \<Longrightarrow> k \<le> 1 \<Longrightarrow> reads n k m"
  by (erule reads_mono) simp_all

lemma reads_leaf0: "reads n 0 m \<Longrightarrow> k = 0 \<Longrightarrow> reads n k m"
  by simp

lemma reads_then_if:
  "reads n 0 a \<Longrightarrow> reads n 0 b \<Longrightarrow> (\<And>x. reads n k (f x)) \<Longrightarrow> reads n k (p_then (if c then a else b) f)"
  by (rule reads_then0) simp_all

lemma consuming_with_struct [consuming]: "reads n 1 m \<Longrightarrow> reads n 1 (with_struct b m)"
  by (rule reads_with_struct)

lemmas reads_rules = reads_ret reads_fail reads_then_if reads_if reads_token

text \<open>The proof of a rule is then a search over its combinators, ended by arithmetic.\<close>

section \<open>The rules of the grammar\<close>

lemma reads_eat [consuming]: "reads n 1 (eat t m)"
  unfolding eat_def
  by (intro reads_rules consuming [THEN reads_then1] neutral [THEN reads_then0]; simp)

lemma reads_eat_kw [consuming]: "reads n 1 (eat_kw w m)"
  unfolding eat_kw_def
  by (intro reads_rules consuming [THEN reads_then1] neutral [THEN reads_then0]; simp)

lemma reads_ident [consuming]: "(\<And>t. reads n 1 (f t)) \<Longrightarrow> reads n 1 (ident f)"
  unfolding ident_def
  by (intro reads_rules consuming [THEN reads_then1] neutral [THEN reads_then0]; simp)

lemma reads_expect [neutral]: "reads n 0 (expect t m)"
  unfolding expect_def
  by (intro reads_rules consuming [THEN reads_then1] neutral [THEN reads_then0]; simp)

text \<open>\<open>consumes n m\<close>: on every shorter input too.\<close>

definition consumes :: "nat \<Rightarrow> 'a parse \<Rightarrow> bool" where
  "consumes n m \<longleftrightarrow> (\<forall>i \<le> n. reads i 1 m)"

lemma consumesI: "(\<And>i. i \<le> n \<Longrightarrow> reads i 1 m) \<Longrightarrow> consumes n m"
  by (simp add: consumes_def)

lemma consumes_reads: "consumes n m \<Longrightarrow> i \<le> n \<Longrightarrow> reads i 1 m"
  by (simp add: consumes_def)

lemma consumes_reads0: "consumes n m \<Longrightarrow> i \<le> n \<Longrightarrow> reads i 0 m"
  using reads_mono [of i 1 m i 0] by (simp add: consumes_def)

lemma consumes_mono: "consumes n m \<Longrightarrow> i \<le> n \<Longrightarrow> consumes i m"
  by (simp add: consumes_def)

text \<open>
  A loop whose rounds consume: the lemma of a loop gives the rounds the induction hypothesis for the
  next one.
\<close>

lemma reads_loop:
  assumes "\<And>m n a. n \<le> Suc m \<Longrightarrow> n \<le> N \<Longrightarrow> (\<And>i b. i \<le> n - 1 \<Longrightarrow> reads i 0 (L m b)) \<Longrightarrow> reads n 0 (L (Suc m) a)"
  shows "n \<le> m \<Longrightarrow> n \<le> N \<Longrightarrow> reads n 0 (L m a)"
proof (induction m arbitrary: n a)
  case 0
  then show ?case by (simp add: reads_none)
next
  case (Suc m)
  show ?case using Suc.prems by (intro assms Suc.IH) simp_all
qed

lemma reads_comma_list:
  assumes "consumes N item" "n \<le> m" "n \<le> N"
  shows "reads n 0 (comma_list m noob close item acc)"
proof (rule reads_loop [where N = N and L = "\<lambda>m. comma_list m noob close item", OF _ assms(2,3)])
  fix m n a
  assume n: "n \<le> N" and rec: "\<And>i b. i \<le> n - 1 \<Longrightarrow> reads i 0 (comma_list m noob close item b)"
  have item: "i \<le> N \<Longrightarrow> reads i 1 item" for i using assms(1) by (simp add: consumes_def)
  show "reads n 0 (comma_list (Suc m) noob close item a)"
    using n unfolding comma_list.simps
    by (intro reads_rules item [THEN reads_then1] consuming [THEN reads_then1] neutral [THEN reads_then0]
        rec [THEN reads_leaf0]; simp)
qed

lemma reads_left_loop:
  assumes "consumes N item" "n \<le> m" "n \<le> N"
  shows "reads n 0 (left_loop m symbols item acc)"
proof (rule reads_loop [where N = N and L = "\<lambda>m. left_loop m symbols item", OF _ assms(2,3)])
  fix m n a
  assume n: "n \<le> N" and rec: "\<And>i b. i \<le> n - 1 \<Longrightarrow> reads i 0 (left_loop m symbols item b)"
  have item: "i \<le> N \<Longrightarrow> reads i 1 item" for i using assms(1) by (simp add: consumes_def)
  show "reads n 0 (left_loop (Suc m) symbols item a)"
    using n unfolding left_loop.simps
    by (intro reads_rules item [THEN reads_then1] consuming [THEN reads_then1] neutral [THEN reads_then0]
        rec [THEN reads_leaf0]; simp)
qed

lemma reads_struct_fields:
  assumes "consumes N item" "n \<le> m" "n \<le> N"
  shows "reads n 0 (struct_fields m item acc)"
proof (rule reads_loop [where N = N and L = "\<lambda>m. struct_fields m item", OF _ assms(2,3)])
  fix m n a
  assume n: "n \<le> N" and rec: "\<And>i b. i \<le> n - 1 \<Longrightarrow> reads i 0 (struct_fields m item b)"
  have item: "i \<le> N \<Longrightarrow> reads i 1 item" for i using assms(1) by (simp add: consumes_def)
  show "reads n 0 (struct_fields (Suc m) item a)"
    using n unfolding struct_fields.simps
    by (intro reads_rules item [THEN reads_then1] consuming [THEN reads_then1] neutral [THEN reads_then0]
        rec [THEN reads_leaf0]; simp)
qed

lemma reads_args_loop:
  assumes "consumes N item" "n \<le> m" "n \<le> N"
  shows "reads n 0 (args_loop m item acc)"
proof (rule reads_loop [where N = N and L = "\<lambda>m. args_loop m item", OF _ assms(2,3)])
  fix m n a
  assume n: "n \<le> N" and rec: "\<And>i b. i \<le> n - 1 \<Longrightarrow> reads i 0 (args_loop m item b)"
  have item: "i \<le> N \<Longrightarrow> reads i 1 item" for i using assms(1) by (simp add: consumes_def)
  show "reads n 0 (args_loop (Suc m) item a)"
    using n unfolding args_loop.simps
    by (intro reads_rules item [THEN reads_then1] consuming [THEN reads_then1] neutral [THEN reads_then0]
        rec [THEN reads_leaf0]; simp)
qed

lemma reads_postfix_loop:
  assumes "consumes N item" "n \<le> m" "n \<le> N"
  shows "reads n 0 (postfix_loop m item acc)"
proof (rule reads_loop [where N = N and L = "\<lambda>m. postfix_loop m item", OF _ assms(2,3)])
  fix m n a
  assume n: "n \<le> N" and rec: "\<And>i b. i \<le> n - 1 \<Longrightarrow> reads i 0 (postfix_loop m item b)"
  have item: "i \<le> N \<Longrightarrow> reads i 1 item" for i using assms(1) by (simp add: consumes_def)
  show "reads n 0 (postfix_loop (Suc m) item a)"
    using n unfolding postfix_loop.simps
    by (intro reads_rules item [THEN reads_then1] consuming [THEN reads_then1] neutral [THEN reads_then0]
        rec [THEN reads_leaf0]; simp)
qed

lemma reads_block_loop:
  assumes "consumes N item" "n \<le> m" "n \<le> N"
  shows "reads n 0 (block_loop m item acc)"
proof (rule reads_loop [where N = N and L = "\<lambda>m. block_loop m item", OF _ assms(2,3)])
  fix m n a
  assume n: "n \<le> N" and rec: "\<And>i b. i \<le> n - 1 \<Longrightarrow> reads i 0 (block_loop m item b)"
  have item: "i \<le> N \<Longrightarrow> reads i 1 item" for i using assms(1) by (simp add: consumes_def)
  show "reads n 0 (block_loop (Suc m) item a)"
    using n unfolding block_loop.simps
    by (intro reads_rules item [THEN reads_then1] consuming [THEN reads_then1] neutral [THEN reads_then0]
        rec [THEN reads_leaf0]; simp)
qed

lemma reads_literal [consuming]: "reads n 1 (literal x)"
  unfolding literal_def by (intro reads_rules  consuming [THEN reads_then1] neutral [THEN reads_then0]
         consuming [THEN reads_leaf1] neutral [THEN reads_leaf0]; simp)

lemma reads_array_size [neutral]: "reads n 0 array_size"
  unfolding array_size_def by (intro reads_rules  consuming [THEN reads_then1] neutral [THEN reads_then0]
         consuming [THEN reads_leaf1] neutral [THEN reads_leaf0]; simp)

lemma consumes_parse_type: "consumes n (parse_type n)"
proof (induction n)
  case 0
  then show ?case by (simp add: consumes_def reads_none)
next
  case (Suc n)
  have rec: "i \<le> n \<Longrightarrow> reads i 1 (parse_type n)" for i using Suc by (simp add: consumes_def)
  have types: "i \<le> n \<Longrightarrow> reads i 0 (comma_list n True RParen (parse_type n) [])" for i
    using Suc by (intro reads_comma_list) simp_all
  show ?case
    unfolding parse_type.simps
    by (rule consumesI) (intro reads_rules rec [THEN reads_then1] consuming [THEN reads_then1] neutral [THEN reads_then0]
        rec [THEN reads_leaf1] consuming [THEN reads_leaf1] neutral [THEN reads_leaf0] types [THEN reads_then0]; simp)
qed

lemma consumes_delegate:
  assumes "consumes n e"
  shows "consumes (Suc n) (delegate_sugar e)"
proof (rule consumesI)
  fix i assume i: "i \<le> Suc n"
  have e: "j \<le> n \<Longrightarrow> reads j 1 e" for j using assms by (simp add: consumes_def)
  show "reads i 1 (delegate_sugar e)"
    using i unfolding delegate_sugar_def
    by (intro reads_rules e [THEN reads_then1] consuming [THEN reads_then1] neutral [THEN reads_then0]
        e [THEN reads_leaf1] consuming [THEN reads_leaf1] neutral [THEN reads_leaf0]; simp)
qed

lemma consumes_send:
  assumes "consumes n e"
  shows "consumes (Suc n) (send_sugar e)"
proof (rule consumesI)
  fix i assume i: "i \<le> Suc n"
  have e: "j \<le> n \<Longrightarrow> reads j 1 e" for j using assms by (simp add: consumes_def)
  show "reads i 1 (send_sugar e)"
    using i unfolding send_sugar_def
    by (intro reads_rules e [THEN reads_then1] consuming [THEN reads_then1] neutral [THEN reads_then0]
        e [THEN reads_leaf1] consuming [THEN reads_leaf1] neutral [THEN reads_leaf0]; simp)
qed

lemma consumes_parenthesised:
  assumes "consumes n e"
  shows "consumes (Suc n) (parenthesised e)"
proof (rule consumesI)
  fix i assume i: "i \<le> Suc n"
  have e: "j \<le> n \<Longrightarrow> reads j 1 e" for j using assms by (simp add: consumes_def)
  show "reads i 1 (parenthesised e)"
    using i unfolding parenthesised_def
    by (intro reads_rules e [THEN reads_then1] consuming [THEN reads_then1] neutral [THEN reads_then0]
        e [THEN reads_leaf1] consuming [THEN reads_leaf1] neutral [THEN reads_leaf0]; simp)
qed

lemma consumes_list_literal:
  assumes "consumes n e"
  shows "consumes (Suc n) (list_literal n e)"
proof (rule consumesI)
  fix i assume i: "i \<le> Suc n"
  have e: "j \<le> n \<Longrightarrow> reads j 1 e" for j using assms by (simp add: consumes_def)
  have items: "j \<le> n \<Longrightarrow> reads j 0 (comma_list n False RSquare e [])" for j
    using assms by (intro reads_comma_list) simp_all
  show "reads i 1 (list_literal n e)"
    using i unfolding list_literal_def
    by (intro reads_rules e [THEN reads_then1] consuming [THEN reads_then1] neutral [THEN reads_then0]
        e [THEN reads_leaf1] consuming [THEN reads_leaf1] neutral [THEN reads_leaf0] items [THEN reads_then0]; simp)
qed


lemma consumes_map_pair:
  assumes "consumes n e"
  shows "consumes (Suc n) (map_pair e)"
proof (rule consumesI)
  fix i assume i: "i \<le> Suc n"
  have e: "j \<le> n \<Longrightarrow> reads j 1 e" for j using assms by (simp add: consumes_def)
  show "reads i 1 (map_pair e)"
    using i unfolding map_pair_def
    by (intro reads_rules e [THEN reads_then1] consuming [THEN reads_then1] neutral [THEN reads_then0]
        e [THEN reads_leaf1] consuming [THEN reads_leaf1] neutral [THEN reads_leaf0]; simp)
qed

lemma consumes_map_literal:
  assumes "consumes n e"
  shows "consumes (Suc n) (map_literal n e)"
proof (rule consumesI)
  fix i assume i: "i \<le> Suc n"
  have e: "j \<le> n \<Longrightarrow> reads j 1 e" for j using assms by (simp add: consumes_def)
  have pairs: "j \<le> n \<Longrightarrow> reads j 0 (comma_list n False RCurly (map_pair e) [])" for j
    using consumes_mono [OF consumes_map_pair [OF assms], of n] by (intro reads_comma_list) simp_all
  show "reads i 1 (map_literal n e)"
    using i unfolding map_literal_def
    by (intro reads_rules e [THEN reads_then1] consuming [THEN reads_then1] neutral [THEN reads_then0]
        e [THEN reads_leaf1] consuming [THEN reads_leaf1] neutral [THEN reads_leaf0] pairs [THEN reads_then0]; simp)
qed

lemma consumes_struct_init:
  assumes "consumes n e"
  shows "consumes (Suc n) (struct_init n e name)"
proof (rule consumesI)
  fix i assume i: "i \<le> Suc n"
  have e: "j \<le> n \<Longrightarrow> reads j 1 e" for j using assms by (simp add: consumes_def)
  have fields: "j \<le> n \<Longrightarrow> reads j 0 (struct_fields n e [])" for j
    using assms by (intro reads_struct_fields) simp_all
  show "reads i 1 (struct_init n e name)"
    using i unfolding struct_init_def
    by (intro reads_rules e [THEN reads_then1] consuming [THEN reads_then1] neutral [THEN reads_then0]
        e [THEN reads_leaf1] consuming [THEN reads_leaf1] neutral [THEN reads_leaf0] fields [THEN reads_then0]; simp)
qed

lemma reads_parse_args:
  assumes "consumes n e" "i \<le> n"
  shows "reads i 0 (parse_args n e)"
proof -
  have args: "j \<le> n \<Longrightarrow> reads j 0 (args_loop n e [])" for j
    using assms by (intro reads_args_loop) simp_all
  show ?thesis
    using assms(2) unfolding parse_args_def
    by (intro reads_rules  consuming [THEN reads_then1] neutral [THEN reads_then0]
         consuming [THEN reads_leaf1] neutral [THEN reads_leaf0] args; simp)
qed

lemma reads_after_name:
  assumes "consumes n e" "i \<le> n"
  shows "reads i 0 (after_name n e name)"
proof -
  have sub: "j \<le> n \<Longrightarrow> reads j 0 (delegate_sugar e)" "j \<le> n \<Longrightarrow> reads j 0 (send_sugar e)"
    "j \<le> n \<Longrightarrow> reads j 0 (struct_init n e name)" for j
    using consumes_delegate [OF assms(1)] consumes_send [OF assms(1)] consumes_struct_init [OF assms(1), of name]
    by (simp_all add: consumes_reads0 [where n = "Suc n"])
  have args: "j \<le> n \<Longrightarrow> reads j 0 (parse_args n e)" for j
    using assms(1) by (rule reads_parse_args)
  show ?thesis
    using assms(2) unfolding after_name_def
    by (intro reads_rules  consuming [THEN reads_then1] neutral [THEN reads_then0]
         consuming [THEN reads_leaf1] neutral [THEN reads_leaf0] sub args [THEN reads_then0]; simp)
qed

lemma consumes_primary:
  assumes "consumes n e"
  shows "consumes (Suc n) (primary u n e)"
proof (rule consumesI)
  fix i assume i: "i \<le> Suc n"
  have e: "j \<le> n \<Longrightarrow> reads j 1 e" for j using assms by (simp add: consumes_def)
  have name: "j \<le> n \<Longrightarrow> reads j 0 (after_name n e name)" for j name
    using assms by (rule reads_after_name)
  have sub: "j \<le> Suc n \<Longrightarrow> reads j 1 (parenthesised e)" "j \<le> Suc n \<Longrightarrow> reads j 1 (list_literal n e)"
    "j \<le> Suc n \<Longrightarrow> reads j 1 (map_literal n e)" for j
    using consumes_parenthesised [OF assms] consumes_list_literal [OF assms] consumes_map_literal [OF assms]
    by (simp_all add: consumes_def)
  show "reads i 1 (primary u n e)"
    using i unfolding primary_def
    by (intro reads_rules  consuming [THEN reads_then1] neutral [THEN reads_then0]
         consuming [THEN reads_leaf1] neutral [THEN reads_leaf0] sub name [THEN reads_leaf0]; simp)
qed

lemma consumes_postfix:
  assumes "consumes n e"
  shows "consumes (Suc n) (postfix u n e)"
proof (rule consumesI)
  fix i assume i: "i \<le> Suc n"
  have e: "j \<le> n \<Longrightarrow> reads j 1 e" for j using assms by (simp add: consumes_def)
  have primary: "j \<le> Suc n \<Longrightarrow> reads j 1 (primary u n e)" for j
    using consumes_primary [OF assms] by (simp add: consumes_def)
  have loop: "j \<le> n \<Longrightarrow> reads j 0 (postfix_loop n e x)" for j x
    using assms by (intro reads_postfix_loop) simp_all
  show "reads i 1 (postfix u n e)"
    using i unfolding postfix_def
    by (intro reads_rules primary [THEN reads_then1] consuming [THEN reads_then1] neutral [THEN reads_then0]
        primary [THEN reads_leaf1] consuming [THEN reads_leaf1] neutral [THEN reads_leaf0] loop [THEN reads_leaf0]; simp)
qed

lemma consumes_unary: "consumes n post \<Longrightarrow> n \<le> m \<Longrightarrow> consumes n (unary m post)"
proof (induction m arbitrary: n)
  case 0
  then show ?case by (simp add: consumes_def reads_none)
next
  case (Suc m)
  have post: "j \<le> n \<Longrightarrow> reads j 1 post" for j using Suc.prems by (simp add: consumes_def)
  have rec: "j \<le> n - 1 \<Longrightarrow> reads j 1 (unary m post)" for j
    using Suc.IH [OF consumes_mono [OF Suc.prems(1)], of "n - 1"] Suc.prems(2) by (simp add: consumes_def)
  show ?case
    unfolding unary.simps
    by (rule consumesI) (intro reads_rules rec [THEN reads_then1] post [THEN reads_then1] consuming [THEN reads_then1] neutral [THEN reads_then0]
        rec [THEN reads_leaf1] post [THEN reads_leaf1] consuming [THEN reads_leaf1] neutral [THEN reads_leaf0]; simp)
qed

lemma consumes_left_rec:
  assumes "consumes (Suc n) child"
  shows "consumes (Suc n) (left_rec n symbols child)"
proof (rule consumesI)
  fix i assume i: "i \<le> Suc n"
  have child: "j \<le> Suc n \<Longrightarrow> reads j 1 child" for j using assms by (simp add: consumes_def)
  have loop: "j \<le> n \<Longrightarrow> reads j 0 (left_loop n symbols child x)" for j x
    using consumes_mono [OF assms, of n] by (intro reads_left_loop) simp_all
  show "reads i 1 (left_rec n symbols child)"
    using i unfolding left_rec_def
    by (intro reads_rules child [THEN reads_then1] consuming [THEN reads_then1] neutral [THEN reads_then0]
        child [THEN reads_leaf1] consuming [THEN reads_leaf1] neutral [THEN reads_leaf0] loop [THEN reads_leaf0]; simp)
qed

lemmas level_defs = multiplicative_def additive_def shift_def relational_def equality_def bitwise_and_def
  bitwise_xor_def bitwise_or_def logic_and_def logic_or_def

lemma consumes_logic_or:
  assumes "consumes n e"
  shows "consumes (Suc n) (logic_or u n e)"
  unfolding level_defs
  by (intro consumes_left_rec consumes_unary consumes_postfix assms) simp

lemma consumes_expression: "consumes n (expression u n)"
proof (induction n)
  case 0
  then show ?case by (simp add: consumes_def reads_none)
next
  case (Suc n)
  have e: "j \<le> n \<Longrightarrow> reads j 1 (expression u n)" for j using Suc by (simp add: consumes_def)
  have top: "j \<le> Suc n \<Longrightarrow> reads j 1 (logic_or u n (expression u n))" for j
    using consumes_logic_or [OF Suc] by (simp add: consumes_def)
  show ?case
    unfolding expression.simps assignment_def right_rec_def
    by (rule consumesI) (intro reads_rules top [THEN reads_then1] e [THEN reads_then1] consuming [THEN reads_then1] neutral [THEN reads_then0]
        top [THEN reads_leaf1] e [THEN reads_leaf1] consuming [THEN reads_leaf1] neutral [THEN reads_leaf0]; simp)
qed

section \<open>Statements\<close>

text \<open>What the statement rules use: expressions, types, blocks of statements.\<close>

lemma reads_expression: "j \<le> n \<Longrightarrow> reads j 1 (expression u n)" "j \<le> n \<Longrightarrow> reads j 1 (parse_type n)"
  using consumes_expression consumes_parse_type by (auto simp: consumes_def)

lemma reads_import_path:
  assumes "n \<le> m"
  shows "reads n 0 (import_path m path)"
proof (rule reads_loop [where N = n and L = import_path, OF _ assms order_refl])
  fix m i a assume rec: "\<And>j b. j \<le> i - 1 \<Longrightarrow> reads j 0 (import_path m b)"
  show "reads i 0 (import_path (Suc m) a)"
    unfolding import_path.simps by (intro reads_rules  consuming [THEN reads_then1] neutral [THEN reads_then0]
         consuming [THEN reads_leaf1] neutral [THEN reads_leaf0] rec [THEN reads_leaf0]; simp)
qed

lemma consumes_import_stmt: "consumes (Suc n) (import_stmt n)"
  unfolding import_stmt_def
  by (rule consumesI) (intro reads_rules  consuming [THEN reads_then1] neutral [THEN reads_then0]
         consuming [THEN reads_leaf1] neutral [THEN reads_leaf0] reads_import_path [THEN reads_then0]; simp)

lemma consumes_var_decl: "consumes (Suc n) (var_decl u n)"
  unfolding var_decl_def
  by (rule consumesI) (intro reads_rules reads_expression [THEN reads_then1] consuming [THEN reads_then1] neutral [THEN reads_then0]
        reads_expression [THEN reads_leaf1] consuming [THEN reads_leaf1] neutral [THEN reads_leaf0]; simp)

lemma consumes_return_stmt: "consumes (Suc n) (return_stmt u n)"
  unfolding return_stmt_def
  by (rule consumesI) (intro reads_rules reads_expression [THEN reads_then1] consuming [THEN reads_then1] neutral [THEN reads_then0]
        reads_expression [THEN reads_leaf1] consuming [THEN reads_leaf1] neutral [THEN reads_leaf0]; simp)

lemma consumes_rethrow_stmt: "consumes n rethrow_stmt"
  unfolding rethrow_stmt_def
  by (rule consumesI) (intro reads_rules  consuming [THEN reads_then1] neutral [THEN reads_then0]
         consuming [THEN reads_leaf1] neutral [THEN reads_leaf0]; simp)

lemma consumes_expr_stmt: "consumes n (expr_stmt u n)"
  unfolding expr_stmt_def
  by (rule consumesI) (intro reads_rules reads_expression [THEN reads_then1] consuming [THEN reads_then1] neutral [THEN reads_then0]
        reads_expression [THEN reads_leaf1] consuming [THEN reads_leaf1] neutral [THEN reads_leaf0]; simp)

lemma consumes_braced:
  assumes "consumes n st"
  shows "consumes (Suc n) (braced n st)"
proof (rule consumesI)
  fix i assume i: "i \<le> Suc n"
  have loop: "j \<le> n \<Longrightarrow> reads j 0 (block_loop n st [])" for j
    using assms by (intro reads_block_loop) simp_all
  show "reads i 1 (braced n st)"
    using i unfolding braced_def
    by (intro reads_rules  consuming [THEN reads_then1] neutral [THEN reads_then0]
         consuming [THEN reads_leaf1] neutral [THEN reads_leaf0] loop [THEN reads_then0]; simp)
qed

lemma reads_block:
  assumes "consumes n st" "i \<le> n"
  shows "reads i 1 (block n st)"
  using assms consumes_mono [OF consumes_braced [OF assms(1)], of i] consumes_mono [OF assms(1), of i]
  unfolding block_def
  by (intro reads_rules neutral [THEN reads_then0]) (simp_all add: consumes_def)

lemma consumes_for_stmt:
  assumes "consumes n st"
  shows "consumes (Suc n) (for_stmt u n st)"
proof (rule consumesI)
  fix i assume i: "i \<le> Suc n"
  have block: "j \<le> n \<Longrightarrow> reads j 1 (block n st)" for j using assms by (rule reads_block)
  show "reads i 1 (for_stmt u n st)"
    using i unfolding for_stmt_def
    by (intro reads_rules block [THEN reads_then1] reads_expression [THEN reads_then1] consuming [THEN reads_then1] neutral [THEN reads_then0]
        block [THEN reads_leaf1] reads_expression [THEN reads_leaf1] consuming [THEN reads_leaf1] neutral [THEN reads_leaf0]; simp)
qed

lemma consumes_if_stmt:
  assumes "consumes n st"
  shows "consumes (Suc n) (if_stmt u n st)"
proof (rule consumesI)
  fix i assume i: "i \<le> Suc n"
  have block: "j \<le> n \<Longrightarrow> reads j 1 (block n st)" for j using assms by (rule reads_block)
  show "reads i 1 (if_stmt u n st)"
    using i unfolding if_stmt_def
    by (intro reads_rules block [THEN reads_then1] reads_expression [THEN reads_then1] consuming [THEN reads_then1] neutral [THEN reads_then0]
        block [THEN reads_leaf1] reads_expression [THEN reads_leaf1] consuming [THEN reads_leaf1] neutral [THEN reads_leaf0]; simp)
qed

lemma consumes_while_stmt:
  assumes "consumes n st"
  shows "consumes (Suc n) (while_stmt u n st)"
proof (rule consumesI)
  fix i assume i: "i \<le> Suc n"
  have block: "j \<le> n \<Longrightarrow> reads j 1 (block n st)" for j using assms by (rule reads_block)
  show "reads i 1 (while_stmt u n st)"
    using i unfolding while_stmt_def
    by (intro reads_rules block [THEN reads_then1] reads_expression [THEN reads_then1] consuming [THEN reads_then1] neutral [THEN reads_then0]
        block [THEN reads_leaf1] reads_expression [THEN reads_leaf1] consuming [THEN reads_leaf1] neutral [THEN reads_leaf0]; simp)
qed

lemma reads_catches_loop:
  assumes "consumes N st" "n \<le> m" "m \<le> N"
  shows "reads n 0 (catches_loop m st acc)"
  using assms(2,3)
proof (induction m arbitrary: n acc)
  case 0
  then show ?case by (simp add: reads_none)
next
  case (Suc m)
  have block: "j \<le> m \<Longrightarrow> reads j 1 (block m st)" for j
    using reads_block [OF consumes_mono [OF assms(1), of m]] Suc.prems by simp
  have rec: "j \<le> n - 1 \<Longrightarrow> reads j 0 (catches_loop m st a)" for j a
    using Suc.prems by (intro Suc.IH) simp_all
  show ?case
    using Suc.prems unfolding catches_loop.simps
    by (intro reads_rules block [THEN reads_then1] consuming [THEN reads_then1] neutral [THEN reads_then0]
        block [THEN reads_leaf1] consuming [THEN reads_leaf1] neutral [THEN reads_leaf0] rec [THEN reads_leaf0]; simp)
qed

lemma consumes_try_stmt:
  assumes "consumes n st"
  shows "consumes (Suc n) (try_stmt n st)"
proof (rule consumesI)
  fix i assume i: "i \<le> Suc n"
  have block: "j \<le> n \<Longrightarrow> reads j 1 (block n st)" for j using assms by (rule reads_block)
  have catches: "j \<le> n \<Longrightarrow> reads j 0 (catches_loop n st [])" for j
    by (intro reads_catches_loop [OF assms]) simp_all
  show "reads i 1 (try_stmt n st)"
    using i unfolding try_stmt_def
    by (intro reads_rules block [THEN reads_then1] consuming [THEN reads_then1] neutral [THEN reads_then0]
        block [THEN reads_leaf1] consuming [THEN reads_leaf1] neutral [THEN reads_leaf0] catches [THEN reads_then0]; simp)
qed

text \<open>Where the brace has been seen, \<open>block\<close> consumes it.\<close>

lemma statement_at_brace:
  "statement u (Suc n) =
     p_then current (\<lambda>t.
       if t = TkKw For then for_stmt u n (statement u n)
       else if t = TkKw If then if_stmt u n (statement u n)
       else if t = TkKw Import then import_stmt n
       else if t = TkKw While then while_stmt u n (statement u n)
       else if t = TkKw Let then var_decl u n
       else if t = TkKw KwReturn then return_stmt u n
       else if t = TkKw Try then try_stmt n (statement u n)
       else if t = TkKw KwRethrow then rethrow_stmt
       else if t = Tk LCurly then braced n (statement u n)
       else expr_stmt u (Suc n))"
  by (rule ext) (simp add: p_then_def current_def block_def split: list.split)

lemma consumes_statement: "consumes n (statement u n)"
proof (induction n)
  case 0
  then show ?case by (simp add: consumes_def reads_none)
next
  case (Suc n)
  have sub: "reads j 1 (for_stmt u n (statement u n))" "reads j 1 (if_stmt u n (statement u n))"
    "reads j 1 (import_stmt n)" "reads j 1 (while_stmt u n (statement u n))" "reads j 1 (var_decl u n)"
    "reads j 1 (return_stmt u n)" "reads j 1 (try_stmt n (statement u n))" "reads j 1 rethrow_stmt"
    "reads j 1 (braced n (statement u n))" "reads j 1 (expr_stmt u (Suc n))" if "j \<le> Suc n" for j
    using that consumes_for_stmt [OF Suc, of u] consumes_if_stmt [OF Suc, of u] consumes_import_stmt [of n]
      consumes_while_stmt [OF Suc, of u] consumes_var_decl [of n u] consumes_return_stmt [of n u]
      consumes_try_stmt [OF Suc] consumes_rethrow_stmt [of "Suc n"] consumes_braced [OF Suc]
      consumes_expr_stmt [of "Suc n" u]
    by (simp_all add: consumes_def)
  show ?case
    unfolding statement_at_brace
    by (rule consumesI) (intro reads_if neutral [THEN reads_then0] sub; simp)
qed

section \<open>Declarations\<close>

lemma consumes_param: "consumes n (param n)" "consumes n (struct_field n)"
  unfolding param_def struct_field_def
  by (rule consumesI, (intro reads_rules reads_expression [THEN reads_then1] consuming [THEN reads_then1] neutral [THEN reads_then0]
        reads_expression [THEN reads_leaf1] consuming [THEN reads_leaf1] neutral [THEN reads_leaf0]; simp))+

lemma consumes_func_decl: "consumes (Suc n) (func_decl u n)"
proof (rule consumesI)
  fix i assume i: "i \<le> Suc n"
  have params: "j \<le> n \<Longrightarrow> reads j 0 (comma_list n True RParen (param n) [])" for j
    using consumes_param by (intro reads_comma_list) simp_all
  have body: "j \<le> n \<Longrightarrow> reads j 1 (block n (statement u n))" for j
    using consumes_statement by (rule reads_block)
  show "reads i 1 (func_decl u n)"
    using i unfolding func_decl_def
    by (intro reads_rules reads_expression [THEN reads_then1] body [THEN reads_then1] consuming [THEN reads_then1] neutral [THEN reads_then0]
        reads_expression [THEN reads_leaf1] body [THEN reads_leaf1] consuming [THEN reads_leaf1] neutral [THEN reads_leaf0] params [THEN reads_then0]; simp)
qed

lemma consumes_struct_decl: "consumes (Suc n) (struct_decl n)"
proof (rule consumesI)
  fix i assume i: "i \<le> Suc n"
  have params: "j \<le> n \<Longrightarrow> reads j 0 (comma_list n True RCurly (struct_field n) [])" for j
    using consumes_param by (intro reads_comma_list) simp_all
  show "reads i 1 (struct_decl n)"
    using i unfolding struct_decl_def
    by (intro reads_rules  consuming [THEN reads_then1] neutral [THEN reads_then0]
         consuming [THEN reads_leaf1] neutral [THEN reads_leaf0] params [THEN reads_then0]; simp)
qed

lemma reads_variant_number [neutral]: "reads n 0 (variant_number iota)"
  unfolding variant_number_def
  by (intro reads_rules  consuming [THEN reads_then1] neutral [THEN reads_then0]
         consuming [THEN reads_leaf1] neutral [THEN reads_leaf0]; simp)

lemma reads_variants_loop: "n \<le> m \<Longrightarrow> reads n 0 (variants_loop ovf m iota acc)"
proof (induction m arbitrary: n iota acc)
  case 0
  then show ?case by (simp add: reads_none)
next
  case (Suc m)
  have rec: "j \<le> n - 1 \<Longrightarrow> reads j 0 (variants_loop ovf m i a)" for j i a
    using Suc.prems by (intro Suc.IH) simp_all
  show ?case
    unfolding variants_loop.simps
    by (intro reads_rules  consuming [THEN reads_then1] neutral [THEN reads_then0]
         consuming [THEN reads_leaf1] neutral [THEN reads_leaf0] rec [THEN reads_leaf0]; simp)
qed

lemma consumes_enum_decl: "consumes (Suc n) (enum_decl ovf n)"
  unfolding enum_decl_def
  by (rule consumesI) (intro reads_rules  consuming [THEN reads_then1] neutral [THEN reads_then0]
         consuming [THEN reads_leaf1] neutral [THEN reads_leaf0] reads_variants_loop [THEN reads_then0]; simp)

lemma consumes_any_decl: "consumes (Suc n) (any_decl ovf u n)"
proof (rule consumesI)
  fix i assume i: "i \<le> Suc n"
  have sub: "reads i 1 (func_decl u n)" "reads i 1 (var_decl u n)" "reads i 1 (struct_decl n)"
    "reads i 1 (enum_decl ovf n)" "reads i 1 (import_stmt n)"
    using i consumes_func_decl [of n u] consumes_var_decl [of n u] consumes_struct_decl [of n]
      consumes_enum_decl [of n ovf] consumes_import_stmt [of n]
    by (simp_all add: consumes_def)
  show "reads i 1 (any_decl ovf u n)"
    unfolding any_decl_def by (intro reads_rules sub neutral [THEN reads_then0])
qed

lemma reads_declarations: "n \<le> m \<Longrightarrow> reads n 0 (declarations ovf u m acc)"
proof (induction m arbitrary: n acc)
  case 0
  then show ?case by (simp add: reads_none)
next
  case (Suc m)
  have rec: "j \<le> n - 1 \<Longrightarrow> reads j 0 (declarations ovf u m a)" for j a
    using Suc.prems by (intro Suc.IH) simp_all
  have decl: "j \<le> n \<Longrightarrow> reads j 1 (any_decl ovf u m)" for j
    using consumes_any_decl [of m ovf u] Suc.prems by (simp add: consumes_def)
  show ?case
    unfolding declarations.simps
    by (intro reads_rules decl [THEN reads_then1] consuming [THEN reads_then1] neutral [THEN reads_then0]
        decl [THEN reads_leaf1] consuming [THEN reads_leaf1] neutral [THEN reads_leaf0] rec [THEN reads_leaf0]; simp)
qed

section \<open>Properties\<close>

lemma declarations_end:
  "declarations ovf u n acc s = Some (Inr (prog, s')) \<Longrightarrow> toks s' = []"
proof (induction n arbitrary: acc s)
  case (Suc n)
  then show ?case
    by (cases "toks s") (auto simp: p_then_def peek_def p_ret_def split: option.splits sum.splits)
qed simp

lemma parse_total:
  "\<exists>r. parse ovf u ts = Some r \<and> (\<forall>prog s'. r = Inr (prog, s') \<longrightarrow> toks s' = [] \<and> can_struct s')"
proof -
  have "reads (Suc (length ts)) 0 (declarations ovf u (Suc (length ts)) [])"
    by (rule reads_declarations) simp
  moreover have "length (toks (parser_from ts)) < Suc (length ts)" by (simp add: parser_from_def)
  ultimately show ?thesis
  proof (cases rule: readsD)
    case (1 e)
    then show ?thesis by (simp add: parse_def)
  next
    case (2 prog s' used)
    have "can_struct s'"
      using arg_cong [OF 2(2), of can_struct] by (simp add: parser_from_def)
    then show ?thesis using 2(1) declarations_end [OF 2(1)] by (simp add: parse_def)
  qed
qed

text \<open>C34. The parser returns on every sequence of tokens, a program or an error, and a program accounts
  for all of the tokens.\<close>

lemma parse_returns:
  "\<exists>r. parse ovf u ts = Some r \<and> (case r of Inl e \<Rightarrow> True | Inr (prog, s') \<Rightarrow> toks s' = [] \<and> can_struct s')"
  using parse_total [of ovf u ts] by (auto split: sum.split prod.split)

end
