(* ===== verification/Sol_Print.thy ===== *)
theory Sol_Print
  imports Sol_Parser_Props
begin

text \<open>
  Printing a program as tokens and parsing it back. Expressions are printed with every compound in
  parentheses, so the round trip says that the precedence levels of the parser, its loops and its
  \<open>can_struct\<close> switch lose and reorder nothing.
\<close>

section \<open>Printing\<close>

definition paren :: "token list \<Rightarrow> token list" where
  "paren ts = Tk LParen # ts @ [Tk RParen]"

definition commas :: "token list list \<Rightarrow> token list" where
  "commas = join [Tk Comma]"

primrec show_expr :: "ast \<Rightarrow> token list" where
  "show_expr (ExprInteger i) = [TkInteger i]"
| "show_expr (ExprFloat f) = [TkFloat f]"
| "show_expr (ExprString s) = [TkString s]"
| "show_expr (ExprChar c) = [TkChar c]"
| "show_expr (ExprBool b) = [TkKw (if b then KwTrue else KwFalse)]"
| "show_expr (ExprVar x) = [TkIdent x]"
| "show_expr (ExprUnary e op) = paren (op # show_expr e)"
| "show_expr (ExprBinary l r op) = paren (show_expr l @ op # show_expr r)"
| "show_expr (ExprFuncCall f es) = TkIdent f # paren (commas (map show_expr es))"
| "show_expr (ExprMemAcc e x) = paren (show_expr e @ [Tk Dot, TkIdent x])"
| "show_expr (ExprEnumVar x v) = [TkIdent x, Tk ColonColon, TkIdent v]"
| "show_expr (ExprArrAcc e i) = paren (show_expr e @ Tk LSquare # show_expr i @ [Tk RSquare])"
| "show_expr (ExprList es) = Tk LSquare # commas (map show_expr es) @ [Tk RSquare]"
| "show_expr (ExprMap ps) =
     paren (Tk LCurly # commas (map (\<lambda>(k, ts). TkString k # Tk Colon # ts) (map (map_prod id show_expr) ps))
       @ [Tk RCurly])"
| "show_expr (ExprStructInit x fs) =
     paren (TkIdent x # Tk LCurly
       # commas (map (\<lambda>(f, ts). TkIdent f # Tk Colon # ts) (map (map_prod id show_expr) fs)) @ [Tk RCurly])"
| "show_expr (DeclFunc x1 x2 x3 x4 x5) = []"
| "show_expr (DeclVar x1 x2 x3) = []"
| "show_expr (DeclStruct x1 x2) = []"
| "show_expr (DeclEnum x1 x2) = []"
| "show_expr (Block x1 x2) = []"
| "show_expr (StmtImport x1 x2) = []"
| "show_expr (StmtIf x1 x2 x3) = []"
| "show_expr (StmtWhile x1 x2) = []"
| "show_expr (StmtFor x1 x2 x3) = []"
| "show_expr (StmtTry x1 x2) = []"
| "show_expr StmtRethrow = []"
| "show_expr (ExprAssign x1 x2) = []"
| "show_expr (ExprReturn x1) = []"
| "show_expr ExprUndefined = []"
| "show_expr (ExprArrayInit x1) = []"

definition unops :: "token set" where
  "unops = {Tk Bang, Tk Dash, Tk Tilde}"

definition level_ops :: "punct list list" where
  "level_ops =
     [[Star, Slash], [Plus, Dash], [LShift, RShift], [LessThan, LessEq, MoreThan, MoreEq], [EqEq, BangEq],
      [Ampersand], [Caret], [Pipe], [AmpAmp], [PipePipe]]"

definition binops :: "token set" where
  "binops = insert (Tk Eq) (Tk ` set (concat level_ops))"

text \<open>The expressions the parser can produce.\<close>

primrec printable :: "ast \<Rightarrow> bool" where
  "printable (ExprInteger i) = True"
| "printable (ExprFloat f) = True"
| "printable (ExprString s) = (\<not> has_open (chars s))"
| "printable (ExprChar c) = True"
| "printable (ExprBool b) = True"
| "printable (ExprVar x) = True"
| "printable (ExprUnary e op) = (op \<in> unops \<and> printable e)"
| "printable (ExprBinary l r op) = (op \<in> binops \<and> printable l \<and> printable r)"
| "printable (ExprFuncCall f es) = list_all id (map printable es)"
| "printable (ExprMemAcc e x) = printable e"
| "printable (ExprEnumVar x v) = True"
| "printable (ExprArrAcc e i) = (printable e \<and> printable i)"
| "printable (ExprList es) = list_all id (map printable es)"
| "printable (ExprMap ps) = list_all snd (map (map_prod id printable) ps)"
| "printable (ExprStructInit x fs) = list_all snd (map (map_prod id printable) fs)"
| "printable (DeclFunc x1 x2 x3 x4 x5) = False"
| "printable (DeclVar x1 x2 x3) = False"
| "printable (DeclStruct x1 x2) = False"
| "printable (DeclEnum x1 x2) = False"
| "printable (Block x1 x2) = False"
| "printable (StmtImport x1 x2) = False"
| "printable (StmtIf x1 x2 x3) = False"
| "printable (StmtWhile x1 x2) = False"
| "printable (StmtFor x1 x2 x3) = False"
| "printable (StmtTry x1 x2) = False"
| "printable StmtRethrow = False"
| "printable (ExprAssign x1 x2) = False"
| "printable (ExprReturn x1) = False"
| "printable ExprUndefined = False"
| "printable (ExprArrayInit x1) = False"

section \<open>Evaluating a parser on known tokens\<close>

lemma run_then [simp]:
  "p_then (p_ret x) f = f x"
  "p_then (p_then m g) f = p_then m (\<lambda>x. p_then (g x) f)"
  "p_then current f \<lparr>toks = t # r, can_struct = b\<rparr> = f t \<lparr>toks = t # r, can_struct = b\<rparr>"
  "p_then advance f \<lparr>toks = t # r, can_struct = b\<rparr> = f t \<lparr>toks = r, can_struct = b\<rparr>"
  "p_then structs_allowed g' \<lparr>toks = ts, can_struct = b\<rparr> = g' b \<lparr>toks = ts, can_struct = b\<rparr>"
  "p_then peek h \<lparr>toks = t # r, can_struct = b\<rparr> = h (Some t) \<lparr>toks = t # r, can_struct = b\<rparr>"
  "p_then peek h \<lparr>toks = [], can_struct = b\<rparr> = h None \<lparr>toks = [], can_struct = b\<rparr>"
  "p_then (eat t e) k \<lparr>toks = t # r, can_struct = b\<rparr> = k () \<lparr>toks = r, can_struct = b\<rparr>"
  "p_then (expect t e) k \<lparr>toks = t # r, can_struct = b\<rparr> = k () \<lparr>toks = t # r, can_struct = b\<rparr>"
  "p_then (ident w) k' \<lparr>toks = TkIdent x' # r, can_struct = b\<rparr> = k' x' \<lparr>toks = r, can_struct = b\<rparr>"
  by (auto simp: p_then_def p_ret_def current_def advance_def structs_allowed_def peek_def eat_def expect_def
      ident_def fun_eq_iff split: option.splits sum.splits)

lemma run_leaf [simp]:
  "current \<lparr>toks = t # r, can_struct = b\<rparr> = Some (Inr (t, \<lparr>toks = t # r, can_struct = b\<rparr>))"
  "advance \<lparr>toks = t # r, can_struct = b\<rparr> = Some (Inr (t, \<lparr>toks = r, can_struct = b\<rparr>))"
  "eat t e \<lparr>toks = t # r, can_struct = b\<rparr> = Some (Inr ((), \<lparr>toks = r, can_struct = b\<rparr>))"
  by (simp_all add: current_def advance_def eat_def p_then_def p_ret_def)

text \<open>\<open>parses b m ts x r\<close>: with \<open>can_struct\<close> at \<open>b\<close>, \<open>m\<close> reads \<open>x\<close> from \<open>ts\<close> and leaves \<open>r\<close>.\<close>

definition parses :: "bool \<Rightarrow> 'a parse \<Rightarrow> token list \<Rightarrow> 'a \<Rightarrow> token list \<Rightarrow> bool" where
  "parses b m ts x r \<longleftrightarrow> m \<lparr>toks = ts, can_struct = b\<rparr> = Some (Inr (x, \<lparr>toks = r, can_struct = b\<rparr>))"

lemma parses_run:
  "parses b m ts x r \<Longrightarrow> p_then m f \<lparr>toks = ts, can_struct = b\<rparr> = f x \<lparr>toks = r, can_struct = b\<rparr>"
  by (simp add: parses_def p_then_def)

lemma parses_struct:
  "parses c m ts x r \<Longrightarrow> p_then (with_struct c m) f \<lparr>toks = ts, can_struct = b\<rparr> = f x \<lparr>toks = r, can_struct = b\<rparr>"
  by (simp add: parses_def p_then_def with_struct_def)

lemma parses_then_iff:
  "parses b m ts x r \<Longrightarrow> parses b (p_then m f) ts y q \<longleftrightarrow> parses b (f x) r y q"
  by (simp add: parses_def p_then_def)

section \<open>Loops\<close>

lemma commas_simps [simp]:
  "commas [] = []" "commas [x] = x" "commas (x # y # zs) = x @ Tk Comma # commas (y # zs)"
  by (simp_all add: commas_def)

lemma commas_Cons: "xs \<noteq> [] \<Longrightarrow> commas (x # xs) = x @ Tk Comma # commas xs"
  by (cases xs) simp_all

text \<open>\<open>reads_back b m sh xs ends\<close>: \<open>m\<close> reads each of \<open>xs\<close> back from its tokens, before a token of \<open>ends\<close>.\<close>

definition reads_back :: "bool \<Rightarrow> 'a parse \<Rightarrow> ('a \<Rightarrow> token list) \<Rightarrow> token set \<Rightarrow> 'a \<Rightarrow> bool" where
  "reads_back b m sh ends x \<longleftrightarrow> (\<forall>t \<in> ends. \<forall>r. parses b m (sh x @ t # r) x (t # r))"

lemma reads_backD: "reads_back b m sh ends x \<Longrightarrow> t \<in> ends \<Longrightarrow> parses b m (sh x @ t # r) x (t # r)"
  by (simp add: reads_back_def)

lemma parses_comma_list:
  assumes "\<forall>x \<in> set xs. reads_back b item sh {Tk Comma, Tk close} x"
    and "\<forall>x \<in> set xs. \<exists>h q. sh x = h # q \<and> h \<noteq> Tk close" "length xs < n" "close \<noteq> Comma"
  shows "parses b (comma_list n noob close item acc) (commas (map sh xs) @ Tk close # r) (acc @ xs) (Tk close # r)"
  using assms
proof (induction xs arbitrary: n acc)
  case Nil
  then show ?case by (cases n) (simp_all add: parses_def p_ret_def)
next
  case (Cons x xs)
  then obtain m where n: "n = Suc m" by (cases n) auto
  obtain h q where h: "sh x = h # q" "h \<noteq> Tk close" using Cons.prems by auto
  have x: "parses b item (sh x @ t # r') x (t # r')" if "t \<in> {Tk Comma, Tk close}" for t r'
    using Cons.prems(1) that by (auto intro: reads_backD)
  show ?case
  proof (cases "xs = []")
    case True
    with x [of "Tk close" r] h \<open>close \<noteq> Comma\<close> show ?thesis
      by (simp add: n parses_def p_then_def current_def peek_def p_ret_def)
  next
    case False
    have "parses b (comma_list m noob close item (acc @ [x])) (commas (map sh xs) @ Tk close # r)
        ((acc @ [x]) @ xs) (Tk close # r)"
      using Cons n by (intro Cons.IH) auto
    with x [of "Tk Comma" "commas (map sh xs) @ Tk close # r"] h False show ?thesis
      by (simp add: n parses_def p_then_def current_def peek_def advance_def commas_Cons)
  qed
qed

lemma parses_args_loop:
  assumes "\<forall>x \<in> set xs. reads_back b e sh {Tk Comma, Tk RParen} x" "length xs \<le> n" "xs \<noteq> []"
  shows "parses b (args_loop n e acc) (commas (map sh xs) @ Tk RParen # r) (acc @ xs) (Tk RParen # r)"
  using assms
proof (induction xs arbitrary: n acc)
  case (Cons x xs)
  then obtain m where n: "n = Suc m" by (cases n) auto
  have x: "parses b e (sh x @ t # r') x (t # r')" if "t \<in> {Tk Comma, Tk RParen}" for t r'
    using Cons.prems(1) that by (auto intro: reads_backD)
  show ?case
  proof (cases "xs = []")
    case True
    with x [of "Tk RParen" r] show ?thesis
      by (simp add: n parses_def p_then_def current_def p_ret_def)
  next
    case False
    have "parses b (args_loop m e (acc @ [x])) (commas (map sh xs) @ Tk RParen # r) ((acc @ [x]) @ xs) (Tk RParen # r)"
      using Cons n False by (intro Cons.IH) auto
    with x [of "Tk Comma" "commas (map sh xs) @ Tk RParen # r"] False show ?thesis
      by (simp add: n parses_def p_then_def current_def advance_def commas_Cons)
  qed
qed simp

lemma parses_struct_fields:
  assumes "\<forall>x \<in> set xs. reads_back b e sh {Tk Comma, Tk RCurly} (snd x)" "length xs < n"
  shows "parses b (struct_fields n e acc)
    (commas (map (\<lambda>x. TkIdent (fst x) # Tk Colon # sh (snd x)) xs) @ Tk RCurly # r) (acc @ xs) (Tk RCurly # r)"
  using assms
proof (induction xs arbitrary: n acc)
  case Nil
  then show ?case by (cases n) (simp_all add: parses_def p_ret_def)
next
  case (Cons x xs)
  then obtain m where n: "n = Suc m" by (cases n) auto
  have x: "parses b e (sh (snd x) @ t # r') (snd x) (t # r')" if "t \<in> {Tk Comma, Tk RCurly}" for t r'
    using Cons.prems(1) that by (auto intro: reads_backD)
  have rec: "parses b (struct_fields m e (acc @ [x]))
      (commas (map (\<lambda>x. TkIdent (fst x) # Tk Colon # sh (snd x)) xs) @ Tk RCurly # r) ((acc @ [x]) @ xs) (Tk RCurly # r)"
    using Cons n by (intro Cons.IH) auto
  show ?case
  proof (cases "xs = []")
    case True
    with x [of "Tk RCurly" r] rec show ?thesis
      by (simp add: n parses_def p_then_def current_def advance_def eat_def p_ret_def)
  next
    case False
    with x [of "Tk Comma" "commas (map (\<lambda>x. TkIdent (fst x) # Tk Colon # sh (snd x)) xs) @ Tk RCurly # r"] rec
    show ?thesis
      by (simp add: n commas_Cons parses_def p_then_def current_def advance_def eat_def p_ret_def)
  qed
qed

text \<open>The pairs of a map literal.\<close>

lemma reads_back_map_pair:
  assumes "reads_back b e sh ends (snd x)"
  shows "reads_back b (map_pair e) (\<lambda>x. TkString (fst x) # Tk Colon # sh (snd x)) ends x"
  using assms
  by (simp add: reads_back_def parses_def map_pair_def p_then_def advance_def eat_def current_def p_ret_def)

section \<open>The levels of precedence\<close>

primrec level :: "ucd \<Rightarrow> nat \<Rightarrow> ast parse \<Rightarrow> nat \<Rightarrow> ast parse" where
  "level u n e 0 = unary (Suc n) (postfix u n e)"
| "level u n e (Suc k) = left_rec n (level_ops ! k) (level u n e k)"

lemma logic_or_level: "logic_or u n e = level u n e 10"
  by (simp add: level_defs level_ops_def numeral_eq_Suc)

text \<open>
  A token before which a name stands for itself (with \<open>can_struct\<close> at \<open>b\<close>), one that ends an operand,
  and one that ends an expression.
\<close>

definition follows :: "bool \<Rightarrow> token \<Rightarrow> bool" where
  "follows b t \<longleftrightarrow> t \<noteq> Tk LParen \<and> t \<noteq> Tk ColonColon \<and> (b \<longrightarrow> t \<noteq> Tk LCurly) \<and> (\<forall>x. t \<noteq> TkIdent x)"

definition ends_operand :: "bool \<Rightarrow> token \<Rightarrow> bool" where
  "ends_operand b t \<longleftrightarrow> follows b t \<and> t \<noteq> Tk Dot \<and> t \<noteq> Tk LSquare"

definition closes :: "bool \<Rightarrow> token \<Rightarrow> bool" where
  "closes b t \<longleftrightarrow> ends_operand b t \<and> t \<notin> binops"

lemma level_up:
  assumes "parses b (level u n e k) ts x (t # r)" "n = Suc m"
    "\<forall>j. k \<le> j \<and> j < k' \<longrightarrow> t \<notin> Tk ` set (level_ops ! j)" "k \<le> k'"
  shows "parses b (level u n e k') ts x (t # r)"
  using assms(3,4)
proof (induction k')
  case 0
  then show ?case using assms(1) by simp
next
  case (Suc k')
  show ?case
  proof (cases "k = Suc k'")
    case True
    then show ?thesis using assms(1) by simp
  next
    case False
    then have "parses b (level u n e k') ts x (t # r)" using Suc by auto
    moreover have "t \<notin> Tk ` set (level_ops ! k')" using Suc.prems False by auto
    ultimately show ?thesis
      by (simp add: left_rec_def parses_then_iff \<open>n = Suc m\<close>) (simp add: parses_def p_then_def current_def p_ret_def)
  qed
qed

lemma length_level_ops: "length level_ops = 10"
  by (simp add: level_ops_def)

lemma level_ops_binops: "j < 10 \<Longrightarrow> Tk ` set (level_ops ! j) \<subseteq> binops"
proof -
  assume "j < 10"
  then have "level_ops ! j \<in> set level_ops" by (intro nth_mem) (simp add: length_level_ops)
  then show ?thesis unfolding binops_def set_concat by (intro subset_insertI2 image_mono Union_upper imageI)
qed

lemma expression_level:
  assumes "parses b (level u n (expression u n) k) ts x (t # r)" "closes b t" "k \<le> 10" "n = Suc m"
  shows "parses b (expression u (Suc n)) ts x (t # r)"
proof -
  have "parses b (level u n (expression u n) 10) ts x (t # r)"
  proof (rule level_up [OF assms(1,4) _ assms(3)])
    have "t \<notin> Tk ` set (level_ops ! j)" if "j < 10" for j
      using assms(2) level_ops_binops [OF that] by (auto simp: closes_def)
    then show "\<forall>j. k \<le> j \<and> j < 10 \<longrightarrow> t \<notin> Tk ` set (level_ops ! j)" by blast
  qed
  moreover have "t \<noteq> Tk Eq" using assms(2) by (simp add: closes_def binops_def)
  ultimately show ?thesis
    by (simp add: assignment_def right_rec_def logic_or_level parses_then_iff del: level.simps)
      (simp add: parses_def p_then_def current_def p_ret_def)
qed

lemma show_expr_head:
  "printable e \<Longrightarrow> \<exists>h q. show_expr e = h # q \<and> h \<notin> unops \<and> (\<forall>p \<in> {RParen, RSquare, LCurly, RCurly, Semi, Comma}. h \<noteq> Tk p)
    \<and> (\<forall>k. h = TkKw k \<longrightarrow> k \<in> {KwTrue, KwFalse})"
  by (cases e) (auto simp: unops_def paren_def)

lemma show_expr_not_Nil: "printable e \<Longrightarrow> show_expr e \<noteq> []"
  by (drule show_expr_head) auto

text \<open>\<open>primary\<close> reads \<open>e\<close> back.\<close>

definition read_by_primary :: "ucd \<Rightarrow> ast \<Rightarrow> bool" where
  "read_by_primary u e \<longleftrightarrow> (\<forall>n b t r. length (show_expr e) \<le> n \<longrightarrow> follows b t \<longrightarrow>
     parses b (primary u n (expression u n)) (show_expr e @ t # r) e (t # r))"

lemma read_by_primaryD:
  "read_by_primary u e \<Longrightarrow> length (show_expr e) \<le> n \<Longrightarrow> follows b t \<Longrightarrow>
     parses b (primary u n (expression u n)) (show_expr e @ t # r) e (t # r)"
  by (simp add: read_by_primary_def)

lemma postfix_ends:
  "ends_operand b t \<Longrightarrow> parses b (postfix_loop (Suc m) ex x) (t # r) x (t # r)"
  by (simp add: parses_def p_then_def current_def p_ret_def ends_operand_def)

lemma unary_passes:
  assumes "printable e"
  shows "parses b (unary (Suc n) post) (show_expr e @ r) x q = parses b post (show_expr e @ r) x q"
  using show_expr_head [OF assms] by (auto simp: parses_def p_then_def current_def unops_def)

lemma read_postfix:
  assumes "read_by_primary u e" "printable e" "length (show_expr e) \<le> n" "ends_operand b t"
  shows "parses b (postfix u n (expression u n)) (show_expr e @ t # r) e (t # r)"
proof -
  obtain m where "n = Suc m"
    using assms(3) show_expr_not_Nil [OF assms(2)] by (cases n) auto
  moreover have "parses b (primary u n (expression u n)) (show_expr e @ t # r) e (t # r)"
    using assms by (intro read_by_primaryD) (auto simp: ends_operand_def)
  ultimately show ?thesis
    using postfix_ends [OF assms(4)] by (simp add: postfix_def parses_then_iff del: postfix_loop.simps)
qed

lemma read_operand:
  assumes "read_by_primary u e" "printable e" "length (show_expr e) \<le> n" "ends_operand b t"
  shows "parses b (level u n (expression u n) 0) (show_expr e @ t # r) e (t # r)"
  using read_postfix [OF assms] assms(2) by (simp add: unary_passes del: unary.simps)

lemma read_expression:
  assumes "read_by_primary u e" "printable e" "length (show_expr e) < n" "closes b t"
  shows "parses b (expression u n) (show_expr e @ t # r) e (t # r)"
proof -
  obtain m where m: "n = Suc m" using assms(3) by (cases n) auto
  moreover obtain k where "m = Suc k"
    using assms(3) m show_expr_not_Nil [OF assms(2)] by (cases m) auto
  moreover have "parses b (level u m (expression u m) 0) (show_expr e @ t # r) e (t # r)"
    using assms m by (intro read_operand) (auto simp: closes_def)
  ultimately show ?thesis using expression_level [OF _ assms(4)] by blast
qed

lemma read_back_expression:
  "read_by_primary u e \<Longrightarrow> printable e \<Longrightarrow> length (show_expr e) < n \<Longrightarrow> \<forall>t \<in> ends. closes b t \<Longrightarrow>
     reads_back b (expression u n) show_expr ends e"
  unfolding reads_back_def by (intro ballI allI read_expression) auto

lemma closes_punct [simp]:
  "closes b (Tk RParen)" "closes b (Tk RSquare)" "closes b (Tk RCurly)" "closes b (Tk Comma)" "closes b (Tk Semi)"
  by (auto simp: closes_def ends_operand_def follows_def binops_def level_ops_def)

lemma parses_paren:
  assumes "parses True ex ts x (Tk RParen # r)"
  shows "parses b (parenthesised ex) (Tk LParen # ts) x r"
  using assms by (simp add: parenthesised_def parses_def p_then_def eat_def current_def advance_def p_ret_def with_struct_def)

lemma primary_paren:
  "parses b (primary u n ex) (Tk LParen # ts) x r = parses b (parenthesised ex) (Tk LParen # ts) x r"
  by (simp add: primary_def parses_def p_then_def current_def structs_allowed_def)

text \<open>What is in parentheses is read as an expression.\<close>

lemma read_parens:
  assumes "show_expr e = paren ts"
    and "\<And>m r. length ts < m \<Longrightarrow> parses True (expression u (Suc m)) (ts @ Tk RParen # r) e (Tk RParen # r)"
  shows "read_by_primary u e"
  unfolding read_by_primary_def
proof (intro allI impI)
  fix n b t r
  assume n: "length (show_expr e) \<le> n"
  then obtain m where m: "n = Suc m" "length ts < m"
    using assms(1) by (cases n) (auto simp: paren_def)
  from parses_paren [OF assms(2) [OF m(2)]] show "parses b (primary u n (expression u n)) (show_expr e @ t # r) e (t # r)"
    unfolding assms(1) paren_def m(1) by (simp add: primary_paren del: expression.simps)
qed

lemma read_parens_level:
  assumes "show_expr e = paren ts" "k \<le> 10"
    and "\<And>m r. length ts \<le> m \<Longrightarrow>
      parses True (level u (Suc m) (expression u (Suc m)) k) (ts @ Tk RParen # r) e (Tk RParen # r)"
  shows "read_by_primary u e"
proof (rule read_parens [OF assms(1)])
  fix m r
  assume "length ts < m"
  then obtain m' where m': "m = Suc m'" "length ts \<le> m'" by (cases m) auto
  show "parses True (expression u (Suc m)) (ts @ Tk RParen # r) e (Tk RParen # r)"
    by (rule expression_level [OF assms(3) [OF m'(2), folded m'(1)] _ assms(2) m'(1)]) simp
qed

lemma read_unary:
  assumes "read_by_primary u e" "printable e" "op \<in> unops"
  shows "read_by_primary u (ExprUnary e op)"
proof (rule read_parens_level [where k = 0])
  fix m r
  assume "length (op # show_expr e) \<le> m"
  then have "parses True (postfix u (Suc m) (expression u (Suc m))) (show_expr e @ Tk RParen # r) e (Tk RParen # r)"
    using assms by (intro read_postfix) (simp_all add: ends_operand_def follows_def)
  then have "parses True (unary (Suc m) (postfix u (Suc m) (expression u (Suc m)))) (show_expr e @ Tk RParen # r) e
      (Tk RParen # r)"
    by (simp add: unary_passes [OF assms(2)] del: unary.simps)
  moreover have "op \<in> {Tk Bang, Tk Dash, Tk Tilde}" using assms(3) by (simp add: unops_def)
  ultimately show "parses True (level u (Suc m) (expression u (Suc m)) 0) ((op # show_expr e) @ Tk RParen # r)
      (ExprUnary e op) (Tk RParen # r)"
    by (simp add: unary.simps(2) [of "Suc m"] p_then_def parses_def current_def advance_def p_ret_def
        del: unary.simps(2) insert_iff expression.simps)
qed simp_all

lemma binops_cases:
  assumes "op \<in> binops"
  obtains "op = Tk Eq" | j p where "op = Tk p" "j < 10" "p \<in> set (level_ops ! j)"
proof -
  from assms consider "op = Tk Eq" | ps p where "op = Tk p" "ps \<in> set level_ops" "p \<in> set ps"
    unfolding binops_def set_concat by blast
  then show ?thesis
  proof cases
    case 1
    then show ?thesis by (rule that(1))
  next
    case 2
    then obtain j where "j < 10" "level_ops ! j = ps" by (auto simp: in_set_conv_nth length_level_ops)
    then show ?thesis using 2 by (intro that(2) [of p j]) auto
  qed
qed

lemma level_ops_distinct:
  assumes "p \<in> set (level_ops ! j)" "p \<in> set (level_ops ! i)" "i < 10" "j < 10"
  shows "i = j"
proof -
  have "\<forall>i < length level_ops. \<forall>j < length level_ops. i = j \<or> set (level_ops ! i) \<inter> set (level_ops ! j) = {}"
    by (simp add: level_ops_def All_less_Suc numeral_eq_Suc)
  then show ?thesis using assms unfolding length_level_ops by blast
qed

lemma RParen_no_op: "j < 10 \<Longrightarrow> Tk RParen \<notin> Tk ` set (level_ops ! j)"
  using level_ops_binops [of j] closes_punct(1) [of True] unfolding closes_def by blast

lemma binop_follows: "op \<in> binops \<Longrightarrow> ends_operand b op"
  by (auto simp: binops_def level_ops_def ends_operand_def follows_def)

lemma read_binary:
  assumes x: "read_by_primary u x" "printable x" and y: "read_by_primary u y" "printable y" and op: "op \<in> binops"
  shows "read_by_primary u (ExprBinary x y op)"
  using op
proof (cases rule: binops_cases)
  case 1
  show ?thesis
  proof (rule read_parens)
    fix m r
    assume len: "length (show_expr x @ op # show_expr y) < m"
    then obtain m' where m: "m = Suc m'" by (cases m) auto
    have "parses True (level u m (expression u m) 0) (show_expr x @ op # show_expr y @ Tk RParen # r) x
        (op # show_expr y @ Tk RParen # r)"
      using len x by (intro read_operand binop_follows [OF op]) auto
    then have "parses True (level u m (expression u m) 10) (show_expr x @ op # show_expr y @ Tk RParen # r) x
        (op # show_expr y @ Tk RParen # r)"
      by (rule level_up [OF _ m]) (auto simp: 1 level_ops_def All_less_Suc numeral_eq_Suc)
    moreover have "parses True (expression u m) (show_expr y @ Tk RParen # r) y (Tk RParen # r)"
      using len y by (intro read_expression) auto
    ultimately show "parses True (expression u (Suc m)) ((show_expr x @ op # show_expr y) @ Tk RParen # r)
        (ExprBinary x y op) (Tk RParen # r)"
      by (simp add: assignment_def right_rec_def logic_or_level parses_then_iff 1 del: level.simps)
        (simp add: parses_def p_then_def current_def advance_def p_ret_def)
  qed simp
next
  case (2 j p)
  show ?thesis
  proof (rule read_parens_level [where k = "Suc j"])
    fix m r
    assume len: "length (show_expr x @ op # show_expr y) \<le> m"
    let ?n = "Suc m"
    let ?l = "level u ?n (expression u ?n)"
    have up: "parses b (?l 0) ts z (t # q) \<Longrightarrow> \<forall>i < j. t \<notin> Tk ` set (level_ops ! i) \<Longrightarrow> parses b (?l j) ts z (t # q)"
      for b ts z t q
      by (rule level_up) auto
    have "parses True (?l j) (show_expr x @ op # show_expr y @ Tk RParen # r) x (op # show_expr y @ Tk RParen # r)"
    proof (rule up)
      show "parses True (?l 0) (show_expr x @ op # show_expr y @ Tk RParen # r) x (op # show_expr y @ Tk RParen # r)"
        using len x by (intro read_operand binop_follows [OF op]) auto
      show "\<forall>i < j. op \<notin> Tk ` set (level_ops ! i)"
      proof (intro allI impI notI)
        fix i
        assume i: "i < j" "op \<in> Tk ` set (level_ops ! i)"
        then have "p \<in> set (level_ops ! i)" using 2(1) by (simp add: image_iff)
        from level_ops_distinct [OF 2(3) this] show False using i 2(2) by simp
      qed
    qed
    moreover have "parses True (?l j) (show_expr y @ Tk RParen # r) y (Tk RParen # r)"
    proof (rule up)
      show "parses True (?l 0) (show_expr y @ Tk RParen # r) y (Tk RParen # r)"
        using len y by (intro read_operand) (auto simp: ends_operand_def follows_def)
      show "\<forall>i < j. Tk RParen \<notin> Tk ` set (level_ops ! i)"
        using RParen_no_op 2 by simp
    qed
    moreover have "RParen \<notin> set (level_ops ! j)"
      using RParen_no_op [of j] 2 by auto
    moreover obtain m' where "m = Suc m'" using len by (cases m) auto
    ultimately show "parses True (?l (Suc j)) ((show_expr x @ op # show_expr y) @ Tk RParen # r) (ExprBinary x y op)
        (Tk RParen # r)"
      using 2 by (simp add: left_rec_def parses_then_iff del: expression.simps)
        (simp add: parses_def p_then_def current_def advance_def p_ret_def image_iff del: expression.simps)
  qed (use 2 in simp_all)
qed


lemma read_member:
  assumes "read_by_primary u e" "printable e"
  shows "read_by_primary u (ExprMemAcc e x)"
proof (rule read_parens_level [where k = 0])
  fix m r
  assume len: "length (show_expr e @ [Tk Dot, TkIdent x]) \<le> m"
  then obtain m' where m: "m = Suc m'" by (cases m) auto
  have "parses True (primary u (Suc m) (expression u (Suc m))) (show_expr e @ Tk Dot # TkIdent x # Tk RParen # r) e
      (Tk Dot # TkIdent x # Tk RParen # r)"
    using len assms by (intro read_by_primaryD) (auto simp: follows_def)
  then have "parses True (postfix u (Suc m) (expression u (Suc m))) (show_expr e @ Tk Dot # TkIdent x # Tk RParen # r)
      (ExprMemAcc e x) (Tk RParen # r)"
    by (simp add: m postfix_def parses_then_iff del: expression.simps)
      (simp add: parses_def p_then_def current_def advance_def p_ret_def)
  then show "parses True (level u (Suc m) (expression u (Suc m)) 0) ((show_expr e @ [Tk Dot, TkIdent x]) @ Tk RParen # r)
      (ExprMemAcc e x) (Tk RParen # r)"
    by (simp add: unary_passes [OF assms(2)] del: unary.simps expression.simps)
qed simp_all

lemma read_element:
  assumes "read_by_primary u e" "printable e" "read_by_primary u i" "printable i"
  shows "read_by_primary u (ExprArrAcc e i)"
proof (rule read_parens_level [where k = 0])
  fix m r
  let ?ts = "show_expr e @ Tk LSquare # show_expr i @ [Tk RSquare]"
  assume len: "length ?ts \<le> m"
  then obtain m' where m: "m = Suc m'" by (cases m) auto
  have "parses True (primary u (Suc m) (expression u (Suc m))) (show_expr e @ Tk LSquare # show_expr i @ Tk RSquare # Tk RParen # r)
      e (Tk LSquare # show_expr i @ Tk RSquare # Tk RParen # r)"
    using len assms by (intro read_by_primaryD) (auto simp: follows_def)
  moreover have "parses True (expression u (Suc m)) (show_expr i @ Tk RSquare # Tk RParen # r) i (Tk RSquare # Tk RParen # r)"
    using len assms by (intro read_expression) auto
  ultimately have "parses True (postfix u (Suc m) (expression u (Suc m)))
      (show_expr e @ Tk LSquare # show_expr i @ Tk RSquare # Tk RParen # r) (ExprArrAcc e i) (Tk RParen # r)"
    by (simp add: m postfix_def parses_then_iff del: expression.simps)
      (simp add: parses_def p_then_def current_def advance_def eat_def p_ret_def del: expression.simps)
  then show "parses True (level u (Suc m) (expression u (Suc m)) 0) (?ts @ Tk RParen # r) (ExprArrAcc e i) (Tk RParen # r)"
    by (simp add: unary_passes [OF assms(2)] del: unary.simps expression.simps)
qed simp_all

lemma length_commas: "\<forall>x \<in> set xs. x \<noteq> [] \<Longrightarrow> length xs \<le> length (commas xs)"
proof (induction xs)
  case (Cons x xs)
  then show ?case by (cases xs; cases x) auto
qed simp

lemma length_commas_elem: "x \<in> set xs \<Longrightarrow> length x \<le> length (commas xs)"
proof (induction xs)
  case (Cons x xs)
  then show ?case by (cases xs) auto
qed simp

lemma read_list:
  assumes "\<And>e. e \<in> set es \<Longrightarrow> read_by_primary u e" "\<And>e. e \<in> set es \<Longrightarrow> printable e"
  shows "read_by_primary u (ExprList es)"
  unfolding read_by_primary_def
proof (intro allI impI)
  fix n b t r
  assume len: "length (show_expr (ExprList es)) \<le> n"
  have elem: "reads_back b (expression u n) show_expr {Tk Comma, Tk RSquare} e" if "e \<in> set es" for e
    using len length_commas_elem [of "show_expr e" "map show_expr es"] that assms
    by (intro read_back_expression) auto
  have "length es < n"
    using length_commas [of "map show_expr es"] len assms(2) show_expr_not_Nil by auto
  then have "parses b (comma_list n False RSquare (expression u n) []) (commas (map show_expr es) @ Tk RSquare # t # r)
      ([] @ es) (Tk RSquare # t # r)"
    using elem show_expr_head assms(2) by (intro parses_comma_list ballI) fastforce+
  then show "parses b (primary u n (expression u n)) (show_expr (ExprList es) @ t # r) (ExprList es) (t # r)"
    by (simp add: parses_def primary_def list_literal_def p_then_def current_def structs_allowed_def advance_def
        eat_def p_ret_def)
qed

lemma read_call:
  assumes "\<And>e. e \<in> set es \<Longrightarrow> read_by_primary u e" "\<And>e. e \<in> set es \<Longrightarrow> printable e"
  shows "read_by_primary u (ExprFuncCall f es)"
  unfolding read_by_primary_def
proof (intro allI impI)
  fix n b t r
  assume len: "length (show_expr (ExprFuncCall f es)) \<le> n"
  have elem: "reads_back b (expression u n) show_expr {Tk Comma, Tk RParen} e" if "e \<in> set es" for e
    using len length_commas_elem [of "show_expr e" "map show_expr es"] that assms
    by (intro read_back_expression) (auto simp: paren_def)
  have "length es \<le> n"
    using length_commas [of "map show_expr es"] len assms(2) show_expr_not_Nil by (auto simp: paren_def)
  then have args: "es \<noteq> [] \<Longrightarrow> parses b (args_loop n (expression u n) []) (commas (map show_expr es) @ Tk RParen # t # r)
      ([] @ es) (Tk RParen # t # r)"
    using elem by (intro parses_args_loop ballI)
  have "parses b (parse_args n (expression u n)) (commas (map show_expr es) @ Tk RParen # t # r) es (Tk RParen # t # r)"
  proof (cases es)
    case Nil
    then show ?thesis by (simp add: parses_def parse_args_def p_then_def current_def p_ret_def)
  next
    case (Cons e es')
    then obtain h q where "show_expr e = h # q" "h \<noteq> Tk RParen" using show_expr_head [of e] assms(2) by auto
    then obtain q' where "commas (map show_expr es) @ Tk RParen # t # r = h # q'" "h \<noteq> Tk RParen"
      using Cons by (cases es') auto
    then show ?thesis using args Cons by (simp add: parses_def parse_args_def p_then_def current_def p_ret_def)
  qed
  then show "parses b (primary u n (expression u n)) (show_expr (ExprFuncCall f es) @ t # r) (ExprFuncCall f es) (t # r)"
    by (simp add: parses_def primary_def after_name_def p_then_def current_def structs_allowed_def advance_def
        eat_def p_ret_def paren_def)
qed


lemma read_parens_primary:
  assumes "show_expr e = paren (h # ts)" "h \<notin> unops"
    and "\<And>m r. length (h # ts) \<le> m \<Longrightarrow>
      parses True (primary u (Suc m) (expression u (Suc m))) ((h # ts) @ Tk RParen # r) e (Tk RParen # r)"
  shows "read_by_primary u e"
proof (rule read_parens_level [where k = 0])
  fix m r
  assume len: "length (h # ts) \<le> m"
  have "ends_operand True (Tk RParen)" by (simp add: ends_operand_def follows_def)
  from postfix_ends [OF this, of m "expression u (Suc m)" e r]
  have "parses True (postfix u (Suc m) (expression u (Suc m))) ((h # ts) @ Tk RParen # r) e (Tk RParen # r)"
    unfolding postfix_def parses_then_iff [OF assms(3) [OF len]] .
  then show "parses True (level u (Suc m) (expression u (Suc m)) 0) ((h # ts) @ Tk RParen # r) e (Tk RParen # r)"
    using assms(2) by (simp add: parses_def p_then_def current_def unops_def del: expression.simps)
qed (use assms in simp_all)

lemma show_pair:
  "(\<lambda>(k, ts). h k # Tk Colon # ts) \<circ> map_prod id g = (\<lambda>x. h (fst x) # Tk Colon # g (snd x))"
  by (auto simp: fun_eq_iff)

lemma read_map:
  assumes "\<And>x. x \<in> set ps \<Longrightarrow> read_by_primary u (snd x)" "\<And>x. x \<in> set ps \<Longrightarrow> printable (snd x)"
  shows "read_by_primary u (ExprMap ps)"
proof (rule read_parens_primary)
  fix m r
  let ?sh = "\<lambda>x. TkString (fst x) # Tk Colon # show_expr (snd x)"
  let ?ts = "commas (map ?sh ps) @ [Tk RCurly]"
  assume len: "length (Tk LCurly # ?ts) \<le> m"
  have elem: "reads_back True (map_pair (expression u (Suc m))) ?sh {Tk Comma, Tk RCurly} x" if "x \<in> set ps" for x
    using len length_commas_elem [of "?sh x" "map ?sh ps"] that assms
    by (intro reads_back_map_pair read_back_expression) auto
  have "length ps < Suc m" using length_commas [of "map ?sh ps"] len by auto
  then have "parses True (comma_list (Suc m) False RCurly (map_pair (expression u (Suc m))) [])
      (commas (map ?sh ps) @ Tk RCurly # Tk RParen # r) ([] @ ps) (Tk RCurly # Tk RParen # r)"
    using elem by (intro parses_comma_list ballI) auto
  then show "parses True (primary u (Suc m) (expression u (Suc m))) ((Tk LCurly # ?ts) @ Tk RParen # r)
      (ExprMap ps) (Tk RParen # r)"
    by (simp add: parses_def primary_def map_literal_def p_then_def current_def structs_allowed_def advance_def
        eat_def p_ret_def del: expression.simps comma_list.simps)
qed (simp_all add: unops_def show_pair)

lemma read_struct:
  assumes "\<And>x. x \<in> set fs \<Longrightarrow> read_by_primary u (snd x)" "\<And>x. x \<in> set fs \<Longrightarrow> printable (snd x)"
  shows "read_by_primary u (ExprStructInit name fs)"
proof (rule read_parens_primary)
  fix m r
  let ?sh = "\<lambda>x. TkIdent (fst x) # Tk Colon # show_expr (snd x)"
  let ?ts = "Tk LCurly # commas (map ?sh fs) @ [Tk RCurly]"
  assume len: "length (TkIdent name # ?ts) \<le> m"
  have elem: "reads_back True (expression u (Suc m)) show_expr {Tk Comma, Tk RCurly} (snd x)" if "x \<in> set fs" for x
    using len length_commas_elem [of "?sh x" "map ?sh fs"] that assms
    by (intro read_back_expression) auto
  have "length fs < Suc m" using length_commas [of "map ?sh fs"] len by auto
  then have "parses True (struct_fields (Suc m) (expression u (Suc m)) [])
      (commas (map ?sh fs) @ Tk RCurly # Tk RParen # r) ([] @ fs) (Tk RCurly # Tk RParen # r)"
    using elem by (intro parses_struct_fields ballI)
  then show "parses True (primary u (Suc m) (expression u (Suc m))) ((TkIdent name # ?ts) @ Tk RParen # r)
      (ExprStructInit name fs) (Tk RParen # r)"
    by (simp add: parses_def primary_def after_name_def struct_init_def p_then_def current_def structs_allowed_def
        advance_def eat_def p_ret_def del: expression.simps struct_fields.simps)
qed (simp_all add: unops_def show_pair)

lemma read_atom:
  assumes "show_expr e = ts"
    and "\<And>n ex b t r. follows b t \<Longrightarrow> parses b (primary u n ex) (ts @ t # r) e (t # r)"
  shows "read_by_primary u e"
  using assms by (simp add: read_by_primary_def)

lemmas atom_defs = parses_def primary_def literal_def after_name_def p_then_def current_def structs_allowed_def
  advance_def p_ret_def follows_def

lemma printable_read: "printable e \<Longrightarrow> read_by_primary u e"
proof (induction e)
  case (ExprInteger i)
  show ?case by (rule read_atom [OF show_expr.simps(1)]) (simp add: atom_defs)
next
  case (ExprFloat f)
  show ?case by (rule read_atom [OF show_expr.simps(2)]) (simp add: atom_defs)
next
  case (ExprString s)
  then show ?case
    by (intro read_atom [OF show_expr.simps(3)]) (simp add: atom_defs expand_string_interpolation_def)
next
  case (ExprChar c)
  show ?case by (rule read_atom [OF show_expr.simps(4)]) (simp add: atom_defs)
next
  case (ExprBool b)
  show ?case by (rule read_atom [OF show_expr.simps(5)]) (simp add: atom_defs)
next
  case (ExprVar x)
  show ?case by (rule read_atom [OF show_expr.simps(6)]) (auto simp: atom_defs)
next
  case (ExprEnumVar x v)
  show ?case by (rule read_atom [OF show_expr.simps(11)]) (auto simp: atom_defs)
next
  case (ExprUnary e op)
  then show ?case by (simp add: read_unary)
next
  case (ExprBinary l r op)
  then show ?case by (simp add: read_binary)
next
  case (ExprFuncCall f es)
  then show ?case by (intro read_call) (simp_all add: list_all_iff)
next
  case (ExprMemAcc e x)
  then show ?case by (simp add: read_member)
next
  case (ExprArrAcc e i)
  then show ?case by (simp add: read_element)
next
  case (ExprList es)
  then show ?case by (intro read_list) (simp_all add: list_all_iff)
next
  case (ExprMap ps)
  have p: "printable (snd x)" if "x \<in> set ps" for x
    using ExprMap.prems that by (auto simp: list_all_iff)
  show ?case by (rule read_map [OF ExprMap.IH p]) (auto intro: p snds.intros)
next
  case (ExprStructInit name fs)
  have p: "printable (snd x)" if "x \<in> set fs" for x
    using ExprStructInit.prems that by (auto simp: list_all_iff)
  show ?case by (rule read_struct [OF ExprStructInit.IH p]) (auto intro: p snds.intros)
qed simp_all


section \<open>Round trip of expressions\<close>

text \<open>The parser reads every expression back from its fully parenthesised form, in either setting of
  \<open>can_struct\<close>, and stops before the token that closes it: no level of precedence loses, regroups or
  swallows anything.\<close>

lemma expression_round_trip:
  assumes "printable e" "length (show_expr e) < n" "closes b t"
  shows "expression u n \<lparr>toks = show_expr e @ t # r, can_struct = b\<rparr> = Some (Inr (e, \<lparr>toks = t # r, can_struct = b\<rparr>))"
  using read_expression [OF printable_read [OF assms(1)] assms] by (simp add: parses_def)

lemma expression_round_trip_witness:
  "let e = ExprBinary (ExprVar ''x'') (ExprUnary (ExprArrAcc (ExprFuncCall ''f'' [ExprInteger 1]) (ExprVar ''i'')) (Tk Dash)) (Tk Star)
   in \<forall>u. expression u 30 \<lparr>toks = show_expr e @ [Tk LCurly], can_struct = False\<rparr>
     = Some (Inr (e, \<lparr>toks = [Tk LCurly], can_struct = False\<rparr>))"
  unfolding Let_def
  by (intro allI expression_round_trip)
    (auto simp: paren_def unops_def binops_def level_ops_def closes_def ends_operand_def follows_def)

end
