(* ===== verification/Sol_Print_Program.thy ===== *)
theory Sol_Print_Program
  imports Sol_Print
begin

text \<open>Printing types, statements and declarations as tokens, and parsing whole programs back.\<close>

section \<open>Types\<close>

primrec show_type :: "ty \<Rightarrow> token list" where
  "show_type TyVoid = []"
| "show_type TyInteger = [TkIdent ''int'']"
| "show_type TyFloat = [TkIdent ''float'']"
| "show_type TyString = [TkIdent ''str'']"
| "show_type TyChar = [TkIdent ''char'']"
| "show_type TyBool = [TkIdent ''bool'']"
| "show_type (TyTuple ts) = paren (commas (map show_type ts))"
| "show_type (TyArray n t) =
     Tk LSquare # (case n of None \<Rightarrow> [] | Some i \<Rightarrow> [TkInteger i]) @ Tk RSquare # show_type t"
| "show_type TyList = [TkIdent ''list'']"
| "show_type TyMap = [TkIdent ''map'']"
| "show_type (TyIdent x) = [TkIdent x]"
| "show_type (TyFunction ps t) = []"

text \<open>The types that can be written, and a name that is not that of a built-in type.\<close>

primrec printable_type :: "ty \<Rightarrow> bool" where
  "printable_type TyVoid = False"
| "printable_type TyInteger = True"
| "printable_type TyFloat = True"
| "printable_type TyString = True"
| "printable_type TyChar = True"
| "printable_type TyBool = True"
| "printable_type (TyTuple ts) = list_all id (map printable_type ts)"
| "printable_type (TyArray n t) = printable_type t"
| "printable_type TyList = True"
| "printable_type TyMap = True"
| "printable_type (TyIdent x) = (named_type x = TyIdent x)"
| "printable_type (TyFunction ps t) = False"

lemma show_type_head:
  "printable_type t \<Longrightarrow> \<exists>h q. show_type t = h # q \<and> h \<noteq> Tk RParen"
  by (cases t) (auto simp: paren_def)

text \<open>A printer whose output \<open>parse_type\<close> reads back whatever follows.\<close>

definition read_by_type :: "ty \<Rightarrow> bool" where
  "read_by_type t \<longleftrightarrow> (\<forall>n b r. length (show_type t) \<le> n \<longrightarrow> parses b (parse_type n) (show_type t @ r) t r)"

lemma read_by_typeD:
  "read_by_type t \<Longrightarrow> length (show_type t) \<le> n \<Longrightarrow> parses b (parse_type n) (show_type t @ r) t r"
  by (simp add: read_by_type_def)

lemma read_named:
  "show_type t = [TkIdent x] \<Longrightarrow> named_type x = t \<Longrightarrow> read_by_type t"
  unfolding read_by_type_def
  by (intro allI impI, case_tac n) (simp_all add: parses_def p_then_def current_def advance_def p_ret_def)

lemma read_array:
  assumes "read_by_type t"
  shows "read_by_type (TyArray k t)"
  unfolding read_by_type_def
proof (intro allI impI)
  fix n b r
  assume len: "length (show_type (TyArray k t)) \<le> n"
  then obtain m where m: "n = Suc m" by (cases n) auto
  have "parses b (parse_type m) (show_type t @ r) t r"
    using len m assms by (intro read_by_typeD) (auto split: option.splits)
  then show "parses b (parse_type n) (show_type (TyArray k t) @ r) (TyArray k t) r"
    by (cases k) (simp_all add: m parses_def p_then_def current_def advance_def eat_def p_ret_def array_size_def)
qed

lemma read_tuple:
  assumes "\<And>t. t \<in> set ts \<Longrightarrow> read_by_type t" "\<And>t. t \<in> set ts \<Longrightarrow> printable_type t"
  shows "read_by_type (TyTuple ts)"
  unfolding read_by_type_def
proof (intro allI impI)
  fix n b r
  assume len: "length (show_type (TyTuple ts)) \<le> n"
  then obtain m where m: "n = Suc m" by (cases n) (auto simp: paren_def)
  have elem: "reads_back b (parse_type m) show_type {Tk Comma, Tk RParen} t" if "t \<in> set ts" for t
    using len m length_commas_elem [of "show_type t" "map show_type ts"] that assms
    unfolding reads_back_def by (intro allI ballI read_by_typeD) (auto simp: paren_def)
  have "length ts < m"
    using length_commas [of "map show_type ts"] len m assms(2) show_type_head by (fastforce simp: paren_def)
  then have "parses b (comma_list m True RParen (parse_type m) []) (commas (map show_type ts) @ Tk RParen # r)
      ([] @ ts) (Tk RParen # r)"
    using elem show_type_head assms(2) by (intro parses_comma_list ballI) auto
  then show "parses b (parse_type n) (show_type (TyTuple ts) @ r) (TyTuple ts) r"
    by (simp add: m parses_def p_then_def current_def advance_def eat_def p_ret_def paren_def)
qed

lemma printable_type_read: "printable_type t \<Longrightarrow> read_by_type t"
proof (induction t)
  case (TyTuple ts)
  then show ?case by (intro read_tuple) (simp_all add: list_all_iff)
next
  case (TyArray k t)
  then show ?case by (intro read_array) simp
qed (auto intro!: read_named simp: named_type_def)

lemma read_type:
  "printable_type t \<Longrightarrow> length (show_type t) \<le> n \<Longrightarrow> parses b (parse_type n) (show_type t @ r) t r"
  by (rule read_by_typeD [OF printable_type_read])


section \<open>Statements\<close>

definition show_path :: "string list \<Rightarrow> token list" where
  "show_path path = join [Tk Dot] (map (\<lambda>x. [TkIdent x]) path)"

definition show_value :: "token list \<Rightarrow> ast option \<Rightarrow> token list" where
  "show_value before v = (case v of None \<Rightarrow> [] | Some e \<Rightarrow> before @ show_expr e)"

primrec show_stmt :: "ast \<Rightarrow> token list" where
  "show_stmt (DeclVar x t v) =
     TkKw Let # TkIdent x # Tk Colon # show_type t @ show_value [Tk Eq] v @ [Tk Semi]"
| "show_stmt (Block ss k) = Tk LCurly # concat (map show_stmt ss) @ [Tk RCurly]"
| "show_stmt (StmtImport path alias) =
     TkKw Import # show_path path @ (case alias of None \<Rightarrow> [] | Some a \<Rightarrow> [TkKw As, TkIdent a]) @ [Tk Semi]"
| "show_stmt (StmtIf c body alt) =
     TkKw If # show_expr c @ show_stmt body
       @ (case map_option show_stmt alt of None \<Rightarrow> [] | Some ts \<Rightarrow> TkKw Else # ts)"
| "show_stmt (StmtWhile c body) = TkKw While # show_expr c @ show_stmt body"
| "show_stmt (StmtFor x a body) = TkKw For # TkIdent x # TkKw In # show_expr a @ show_stmt body"
| "show_stmt (StmtTry body cs) =
     TkKw Try # show_stmt body
       @ concat (map (\<lambda>(k, ts). TkKw Catch # TkIdent k # ts) (map (map_prod id show_stmt) cs))"
| "show_stmt StmtRethrow = [TkKw KwRethrow, Tk Semi]"
| "show_stmt (ExprReturn v) = TkKw KwReturn # show_value [] v @ [Tk Semi]"
| "show_stmt (DeclFunc x1 x2 x3 x4 x5) = []"
| "show_stmt (DeclStruct x1 x2) = []"
| "show_stmt (DeclEnum x1 x2) = []"
| "show_stmt (ExprAssign x1 x2) = []"
| "show_stmt ExprUndefined = []"
| "show_stmt (ExprArrayInit x1) = []"
| "show_stmt (ExprInteger i) = show_expr (ExprInteger i) @ [Tk Semi]"
| "show_stmt (ExprFloat f) = show_expr (ExprFloat f) @ [Tk Semi]"
| "show_stmt (ExprString s) = show_expr (ExprString s) @ [Tk Semi]"
| "show_stmt (ExprChar c) = show_expr (ExprChar c) @ [Tk Semi]"
| "show_stmt (ExprBool b) = show_expr (ExprBool b) @ [Tk Semi]"
| "show_stmt (ExprVar x) = show_expr (ExprVar x) @ [Tk Semi]"
| "show_stmt (ExprUnary e op) = show_expr (ExprUnary e op) @ [Tk Semi]"
| "show_stmt (ExprBinary l r op) = show_expr (ExprBinary l r op) @ [Tk Semi]"
| "show_stmt (ExprFuncCall f es) = show_expr (ExprFuncCall f es) @ [Tk Semi]"
| "show_stmt (ExprMemAcc e x) = show_expr (ExprMemAcc e x) @ [Tk Semi]"
| "show_stmt (ExprEnumVar x v) = show_expr (ExprEnumVar x v) @ [Tk Semi]"
| "show_stmt (ExprArrAcc e i) = show_expr (ExprArrAcc e i) @ [Tk Semi]"
| "show_stmt (ExprList es) = show_expr (ExprList es) @ [Tk Semi]"
| "show_stmt (ExprMap ps) = show_expr (ExprMap ps) @ [Tk Semi]"
| "show_stmt (ExprStructInit x fs) = show_expr (ExprStructInit x fs) @ [Tk Semi]"

definition braced_block :: "ast \<Rightarrow> bool" where
  "braced_block s = (case s of Block ss k \<Rightarrow> k = usize_max | _ \<Rightarrow> False)"

definition printable_value :: "ast option \<Rightarrow> bool" where
  "printable_value v = (case v of None \<Rightarrow> True | Some e \<Rightarrow> printable e)"

text \<open>The statements the parser can produce.\<close>

primrec printable_stmt :: "ast \<Rightarrow> bool" where
  "printable_stmt (DeclVar x t v) = (printable_type t \<and> printable_value v)"
| "printable_stmt (Block ss k) = (k = usize_max \<and> list_all id (map printable_stmt ss))"
| "printable_stmt (StmtImport path alias) = (path \<noteq> [])"
| "printable_stmt (StmtIf c body alt) =
     (printable c \<and> braced_block body \<and> printable_stmt body
      \<and> (case map_option printable_stmt alt of None \<Rightarrow> True | Some p \<Rightarrow> p))"
| "printable_stmt (StmtWhile c body) = (printable c \<and> braced_block body \<and> printable_stmt body)"
| "printable_stmt (StmtFor x a body) = (printable a \<and> braced_block body \<and> printable_stmt body)"
| "printable_stmt (StmtTry body cs) =
     (braced_block body \<and> printable_stmt body \<and> cs \<noteq> [] \<and> (\<forall>c \<in> set cs. braced_block (snd c))
      \<and> list_all snd (map (map_prod id printable_stmt) cs))"
| "printable_stmt StmtRethrow = True"
| "printable_stmt (ExprReturn v) = printable_value v"
| "printable_stmt (DeclFunc x1 x2 x3 x4 x5) = False"
| "printable_stmt (DeclStruct x1 x2) = False"
| "printable_stmt (DeclEnum x1 x2) = False"
| "printable_stmt (ExprAssign x1 x2) = False"
| "printable_stmt ExprUndefined = False"
| "printable_stmt (ExprArrayInit x1) = False"
| "printable_stmt (ExprInteger i) = printable (ExprInteger i)"
| "printable_stmt (ExprFloat f) = printable (ExprFloat f)"
| "printable_stmt (ExprString s) = printable (ExprString s)"
| "printable_stmt (ExprChar c) = printable (ExprChar c)"
| "printable_stmt (ExprBool b) = printable (ExprBool b)"
| "printable_stmt (ExprVar x) = printable (ExprVar x)"
| "printable_stmt (ExprUnary e op) = printable (ExprUnary e op)"
| "printable_stmt (ExprBinary l r op) = printable (ExprBinary l r op)"
| "printable_stmt (ExprFuncCall f es) = printable (ExprFuncCall f es)"
| "printable_stmt (ExprMemAcc e x) = printable (ExprMemAcc e x)"
| "printable_stmt (ExprEnumVar x v) = printable (ExprEnumVar x v)"
| "printable_stmt (ExprArrAcc e i) = printable (ExprArrAcc e i)"
| "printable_stmt (ExprList es) = printable (ExprList es)"
| "printable_stmt (ExprMap ps) = printable (ExprMap ps)"
| "printable_stmt (ExprStructInit x fs) = printable (ExprStructInit x fs)"

text \<open>A token that may follow a statement.\<close>

definition after_stmt :: "token set" where
  "after_stmt = - {TkKw Else, TkKw Catch}"

lemma show_stmt_head:
  assumes "printable_stmt s"
  shows "\<exists>h q. show_stmt s = h # q \<and> h \<noteq> Tk RCurly \<and> h \<in> after_stmt \<and> (h = Tk LCurly \<longleftrightarrow> braced_block s)"
  using assms by (cases s) (auto simp: after_stmt_def braced_block_def paren_def)

lemma braced_blockD: "braced_block s \<Longrightarrow> \<exists>q. show_stmt s = Tk LCurly # q"
  by (auto simp: braced_block_def split: ast.splits)

text \<open>\<open>statement\<close> reads \<open>s\<close> back; a block is read back whatever follows.\<close>

definition read_by_statement :: "ucd \<Rightarrow> ast \<Rightarrow> bool" where
  "read_by_statement u s \<longleftrightarrow>
     (\<forall>n b. length (show_stmt s) < n \<longrightarrow> reads_back b (statement u n) show_stmt after_stmt s) \<and>
     (braced_block s \<longrightarrow> (\<forall>n m b r. length (show_stmt s) \<le> n \<longrightarrow> n \<le> m \<longrightarrow>
        parses b (block n (statement u m)) (show_stmt s @ r) s r))"

lemma read_by_statementD:
  "read_by_statement u s \<Longrightarrow> length (show_stmt s) < n \<Longrightarrow> t \<in> after_stmt \<Longrightarrow>
    parses b (statement u n) (show_stmt s @ t # r) s (t # r)"
  by (simp add: read_by_statement_def reads_back_def)

lemma read_by_blockD:
  "read_by_statement u s \<Longrightarrow> braced_block s \<Longrightarrow> length (show_stmt s) \<le> n \<Longrightarrow> n \<le> m \<Longrightarrow>
    parses b (block n (statement u m)) (show_stmt s @ r) s r"
  by (simp add: read_by_statement_def)

lemma block_passes:
  assumes "printable_stmt s" "\<not> braced_block s"
  shows "parses b (block n st) (show_stmt s @ r) x q = parses b st (show_stmt s @ r) x q"
  using show_stmt_head [OF assms(1)] assms(2) by (auto simp: parses_def block_def p_then_def current_def)

lemma read_body:
  assumes "read_by_statement u s" "printable_stmt s" "length (show_stmt s) < n" "t \<in> after_stmt"
  shows "parses b (block n (statement u n)) (show_stmt s @ t # r) s (t # r)"
  using assms by (cases "braced_block s") (simp_all add: read_by_blockD read_by_statementD block_passes)


lemma reads_backD': "reads_back b m sh ends x \<Longrightarrow> h \<in> ends \<Longrightarrow> ts = h # q \<Longrightarrow> parses b m (sh x @ ts) x ts"
  by (simp add: reads_back_def)

lemma parses_block_loop:
  assumes "\<forall>x \<in> set xs. reads_back b st sh ends x"
    and "\<forall>x \<in> set xs. \<exists>h q. sh x = h # q \<and> h \<noteq> Tk RCurly \<and> h \<in> ends" "Tk RCurly \<in> ends" "length xs < n"
  shows "parses b (block_loop n st acc) (concat (map sh xs) @ Tk RCurly # r) (acc @ xs) (Tk RCurly # r)"
  using assms
proof (induction xs arbitrary: n acc)
  case Nil
  then show ?case by (cases n) (simp_all add: parses_def p_ret_def p_then_def peek_def current_def)
next
  case (Cons x xs)
  then obtain m where n: "n = Suc m" by (cases n) auto
  obtain h q where h: "sh x = h # q" "h \<noteq> Tk RCurly" using Cons.prems by auto
  let ?ts = "concat (map sh xs) @ Tk RCurly # r"
  have rec: "parses b (block_loop m st (acc @ [x])) ?ts ((acc @ [x]) @ xs) (Tk RCurly # r)"
    using Cons n by (intro Cons.IH) auto
  obtain h' q' where "?ts = h' # q'" "h' \<in> ends" using Cons.prems by (cases xs) auto
  then have "parses b st (sh x @ ?ts) x ?ts" using Cons.prems by (intro reads_backD') auto
  with rec show ?case
    by (simp add: n h parses_def p_then_def current_def peek_def)
qed

lemma length_concat: "\<forall>x \<in> set xs. x \<noteq> [] \<Longrightarrow> length xs \<le> length (concat xs)"
proof (induction xs)
  case (Cons x xs)
  then show ?case by (cases x) auto
qed simp

lemma length_concat_elem: "x \<in> set xs \<Longrightarrow> length x \<le> length (concat xs)"
  by (induction xs) auto

lemma read_braces:
  assumes "\<And>s. s \<in> set ss \<Longrightarrow> read_by_statement u s" "\<And>s. s \<in> set ss \<Longrightarrow> printable_stmt s"
    and "length (concat (map show_stmt ss)) < n" "n \<le> m"
  shows "parses b (block n (statement u m)) (Tk LCurly # concat (map show_stmt ss) @ Tk RCurly # r) (Block ss usize_max) r"
proof -
  have "reads_back b (statement u m) show_stmt after_stmt s" if "s \<in> set ss" for s
  proof -
    have "length (show_stmt s) < m"
      using length_concat_elem [of "show_stmt s" "map show_stmt ss"] assms(3,4) that by auto
    then show ?thesis using assms(1) [OF that] by (simp add: read_by_statement_def)
  qed
  moreover have "length ss < n"
    using length_concat [of "map show_stmt ss"] assms(2,3) show_stmt_head by fastforce
  moreover have head: "\<exists>h q. show_stmt s = h # q \<and> h \<noteq> Tk RCurly \<and> h \<in> after_stmt" if "s \<in> set ss" for s
    using show_stmt_head [OF assms(2) [OF that]] by blast
  ultimately have "parses b (block_loop n (statement u m) []) (concat (map show_stmt ss) @ Tk RCurly # r) ([] @ ss)
      (Tk RCurly # r)"
    by (intro parses_block_loop ballI) (use head in \<open>auto simp: after_stmt_def\<close>)
  then show ?thesis
    by (simp add: parses_def block_def braced_def p_then_def current_def advance_def eat_def p_ret_def)
qed

lemma read_block:
  assumes "\<And>s. s \<in> set ss \<Longrightarrow> read_by_statement u s" "\<And>s. s \<in> set ss \<Longrightarrow> printable_stmt s"
  shows "read_by_statement u (Block ss usize_max)"
proof -
  have block: "parses b (block n (statement u m)) (show_stmt (Block ss usize_max) @ r) (Block ss usize_max) r"
    if "length (show_stmt (Block ss usize_max)) \<le> Suc n" "n \<le> m" for n m b r
    using read_braces [of ss u n m b r] assms that by simp
  have "parses b (statement u n) (show_stmt (Block ss usize_max) @ r) (Block ss usize_max) r"
    if len: "length (show_stmt (Block ss usize_max)) < n" for n b r
  proof -
    obtain m where m: "n = Suc m" using len by (cases n) auto
    show ?thesis using block [of m m b r] len by (simp add: m parses_def p_then_def current_def)
  qed
  then show ?thesis using block by (simp add: read_by_statement_def reads_back_def)
qed

text \<open>A statement that is not a block: one step of \<open>statement\<close>.\<close>

lemma read_by_statementI:
  assumes "\<not> braced_block s"
    and "\<And>m b t r. length (show_stmt s) \<le> m \<Longrightarrow> t \<in> after_stmt \<Longrightarrow>
      parses b (statement u (Suc m)) (show_stmt s @ t # r) s (t # r)"
  shows "read_by_statement u s"
proof -
  have "parses b (statement u n) (show_stmt s @ t # r) s (t # r)"
    if "length (show_stmt s) < n" "t \<in> after_stmt" for n b t r
    using assms(2) [of "n - 1" t b r] that by simp
  then show ?thesis using assms(1) by (simp add: read_by_statement_def reads_back_def)
qed

lemma expression_reads:
  "printable e \<Longrightarrow> length (show_expr e) < n \<Longrightarrow> closes b t \<Longrightarrow> parses b (expression u n) (show_expr e @ t # r) e (t # r)"
  by (rule read_expression [OF printable_read])

lemma expression_head:
  assumes "printable e"
  obtains h q where "show_expr e = h # q" "h \<noteq> Tk LCurly" "h \<noteq> Tk Semi" "\<And>k. h = TkKw k \<Longrightarrow> k = KwTrue \<or> k = KwFalse"
  using show_expr_head [OF assms] by auto

lemma read_expr_stmt:
  assumes "show_stmt e = show_expr e @ [Tk Semi]" "printable e" "\<not> braced_block e"
  shows "read_by_statement u e"
proof (rule read_by_statementI [OF assms(3)])
  fix m b t r
  assume "length (show_stmt e) \<le> m"
  then have "parses b (expression u (Suc m)) (show_expr e @ Tk Semi # t # r) e (Tk Semi # t # r)"
    using assms by (intro expression_reads) auto
  then have e: "parses b (expr_stmt u (Suc m)) (show_expr e @ Tk Semi # t # r) e (t # r)"
    by (simp add: expr_stmt_def parses_def p_then_def current_def advance_def eat_def p_ret_def del: expression.simps)
  obtain h q where "show_expr e = h # q" "h \<noteq> Tk LCurly" "\<And>k. h = TkKw k \<Longrightarrow> k = KwTrue \<or> k = KwFalse"
    using expression_head [OF assms(2)] by metis
  with e show "parses b (statement u (Suc m)) (show_stmt e @ t # r) e (t # r)"
    unfolding assms(1) by (auto simp: parses_def p_then_def current_def)
qed

lemma expression_reads_Semi:
  "printable e \<Longrightarrow> length (show_expr e) < n \<Longrightarrow>
    expression u n \<lparr>toks = show_expr e @ Tk Semi # r, can_struct = b\<rparr> = Some (Inr (e, \<lparr>toks = Tk Semi # r, can_struct = b\<rparr>))"
  using expression_reads [of e n b "Tk Semi" u r] by (simp add: parses_def)

lemma parses_var_decl:
  assumes "printable_type t" "printable_value v" "length (show_type t) \<le> m" "length (show_value [Tk Eq] v) \<le> m"
  shows "parses b (var_decl u m) (TkKw Let # TkIdent x # Tk Colon # show_type t @ show_value [Tk Eq] v @ Tk Semi # r)
    (DeclVar x t v) r"
proof -
  have t: "parses b (parse_type m) (show_type t @ q) t q" for q
    using assms by (intro read_type)
  show ?thesis
  proof (cases v)
    case None
    then show ?thesis using t [of "Tk Semi # r"]
      by (simp add: var_decl_def show_value_def parses_def p_then_def current_def advance_def eat_def ident_def p_ret_def)
  next
    case (Some e)
    then show ?thesis using t [of "Tk Eq # show_expr e @ Tk Semi # r"] assms
      by (simp add: var_decl_def show_value_def printable_value_def parses_def p_then_def current_def advance_def
          eat_def ident_def p_ret_def expression_reads_Semi)
  qed
qed

lemma show_path_simps [simp]:
  "show_path [x] = [TkIdent x]"
  "show_path (x # y # zs) = TkIdent x # Tk Dot # show_path (y # zs)"
  by (simp_all add: show_path_def)

lemma parses_import_path:
  assumes "length path < n" "t \<noteq> Tk Dot"
  shows "parses b (import_path n acc) (concat (map (\<lambda>x. [Tk Dot, TkIdent x]) path) @ t # r) (acc @ path) (t # r)"
  using assms
proof (induction path arbitrary: n acc)
  case Nil
  then show ?case by (cases n) (simp_all add: parses_def p_then_def peek_def current_def p_ret_def)
next
  case (Cons x path)
  then obtain m where n: "n = Suc m" by (cases n) auto
  then show ?case using Cons.IH [of m "acc @ [x]"] Cons.prems
    by (simp add: parses_def p_then_def peek_def current_def advance_def ident_def p_ret_def)
qed

lemma show_path_Cons: "show_path (x # path) = TkIdent x # concat (map (\<lambda>x. [Tk Dot, TkIdent x]) path)"
  by (induction path arbitrary: x) simp_all

lemma parses_import:
  assumes "path \<noteq> []" "length (show_path path) \<le> m"
  shows "parses b (import_stmt m) (show_stmt (StmtImport path alias) @ r) (StmtImport path alias) r"
proof -
  obtain x path' where path: "path = x # path'" using assms by (cases path) auto
  have len: "length path' < m"
    using assms length_concat [of "map (\<lambda>x. [Tk Dot, TkIdent x]) path'"] by (simp add: path show_path_Cons)
  show ?thesis
  proof (cases "alias")
    case None
    then show ?thesis using parses_import_path [OF len, of "Tk Semi" b "[x]" r]
      by (simp add: path show_path_Cons import_stmt_def parses_def p_then_def peek_def current_def advance_def eat_def ident_def p_ret_def)
  next
    case (Some a)
    then show ?thesis using parses_import_path [OF len, of "TkKw As" b "[x]" "TkIdent a # Tk Semi # r"]
      by (simp add: path show_path_Cons import_stmt_def parses_def p_then_def peek_def current_def advance_def eat_def ident_def p_ret_def)
  qed
qed


lemma closes_LCurly: "closes False (Tk LCurly)"
  by (auto simp: closes_def ends_operand_def follows_def binops_def level_ops_def)

lemma condition_reads:
  assumes "printable c" "length (show_expr c) < n" "braced_block body"
  shows "parses b (with_struct False (expression u n)) (show_expr c @ show_stmt body @ r) c (show_stmt body @ r)"
proof -
  obtain q where q: "show_stmt body = Tk LCurly # q" using braced_blockD [OF assms(3)] ..
  show ?thesis
    using expression_reads [OF assms(1,2) closes_LCurly, of u "q @ r"] by (simp add: q parses_def with_struct_def p_then_def)
qed

text \<open>A control statement: its condition, the brace that must follow it, its body.\<close>

lemma body_reads:
  assumes "read_by_statement u body" "braced_block body" "length (show_stmt body) \<le> m"
  shows "parses b (expect (Tk LCurly) e) (show_stmt body @ r) () (show_stmt body @ r)"
    and "m \<le> m' \<Longrightarrow> parses b (block m (statement u m')) (show_stmt body @ r) body r"
  using braced_blockD [OF assms(2)] read_by_blockD [OF assms]
  by (auto simp: parses_def expect_def p_then_def current_def p_ret_def)

lemma read_while:
  assumes "printable c" "braced_block body" "read_by_statement u body"
  shows "read_by_statement u (StmtWhile c body)"
proof (rule read_by_statementI)
  fix m b t r
  assume "length (show_stmt (StmtWhile c body)) \<le> m"
  then have len: "length (show_expr c) < m" "length (show_stmt body) \<le> m" by auto
  from condition_reads [OF assms(1) len(1) assms(2)] body_reads(1) [OF assms(3,2) len(2)] body_reads(2) [OF assms(3,2) len(2) order_refl]
  show "parses b (statement u (Suc m)) (show_stmt (StmtWhile c body) @ t # r) (StmtWhile c body) (t # r)"
    by (simp add: while_stmt_def parses_def p_then_def current_def advance_def p_ret_def)
qed (simp add: braced_block_def)

lemma read_for:
  assumes "printable c" "braced_block body" "read_by_statement u body"
  shows "read_by_statement u (StmtFor x c body)"
proof (rule read_by_statementI)
  fix m b t r
  assume "length (show_stmt (StmtFor x c body)) \<le> m"
  then have len: "length (show_expr c) < m" "length (show_stmt body) \<le> m" by auto
  from condition_reads [OF assms(1) len(1) assms(2)] body_reads(1) [OF assms(3,2) len(2)] body_reads(2) [OF assms(3,2) len(2) order_refl]
  show "parses b (statement u (Suc m)) (show_stmt (StmtFor x c body) @ t # r) (StmtFor x c body) (t # r)"
    by (simp add: for_stmt_def parses_def p_then_def current_def advance_def eat_def ident_def p_ret_def)
qed (simp add: braced_block_def)

lemma read_if:
  assumes "printable c" "braced_block body" "read_by_statement u body"
    and "\<And>s. alt = Some s \<Longrightarrow> read_by_statement u s \<and> printable_stmt s"
  shows "read_by_statement u (StmtIf c body alt)"
proof (rule read_by_statementI)
  fix m b t r
  assume m: "length (show_stmt (StmtIf c body alt)) \<le> m" and t: "t \<in> after_stmt"
  then have len: "length (show_expr c) < m" "length (show_stmt body) \<le> m" by auto
  note reads = condition_reads [OF assms(1) len(1) assms(2)] body_reads(1) [OF assms(3,2) len(2)] body_reads(2) [OF assms(3,2) len(2) order_refl]
  show "parses b (statement u (Suc m)) (show_stmt (StmtIf c body alt) @ t # r) (StmtIf c body alt) (t # r)"
  proof (cases alt)
    case None
    then show ?thesis using reads t
      by (simp add: if_stmt_def parses_def p_then_def current_def advance_def p_ret_def after_stmt_def)
  next
    case (Some s)
    then have "parses b (block m (statement u m)) (show_stmt s @ t # r) s (t # r)"
      using assms(4) m t by (intro read_body) auto
    then show ?thesis using reads Some
      by (simp add: if_stmt_def parses_def p_then_def current_def advance_def p_ret_def)
  qed
qed (simp add: braced_block_def)

abbreviation show_catch :: "string \<times> ast \<Rightarrow> token list" where
  "show_catch c \<equiv> TkKw Catch # TkIdent (fst c) # show_stmt (snd c)"

lemma parses_catches:
  assumes "\<forall>c \<in> set cs. braced_block (snd c) \<and> read_by_statement u (snd c)"
    and "length (concat (map show_catch cs)) < n" "n \<le> m" "t \<noteq> TkKw Catch"
  shows "parses b (catches_loop n (statement u m) acc) (concat (map show_catch cs) @ t # r) (acc @ cs) (t # r)"
  using assms
proof (induction cs arbitrary: n acc)
  case Nil
  then show ?case by (cases n) (simp_all add: parses_def p_then_def peek_def p_ret_def)
next
  case (Cons c cs)
  then obtain k where n: "n = Suc k" by (cases n) auto
  have c: "read_by_statement u (snd c)" "braced_block (snd c)" "length (show_stmt (snd c)) \<le> k" "k \<le> m"
    using Cons.prems n by auto
  have "parses b (catches_loop k (statement u m) (acc @ [c])) (concat (map show_catch cs) @ t # r)
      ((acc @ [c]) @ cs) (t # r)"
    using Cons.prems n by (intro Cons.IH) auto
  with body_reads(1) [OF c(1-3)] body_reads(2) [OF c] show ?case
    by (cases c) (simp add: n parses_def p_then_def peek_def advance_def ident_def current_def p_ret_def)
qed

lemma show_catches:
  "(\<lambda>(k, ts). TkKw Catch # TkIdent k # ts) \<circ> map_prod id show_stmt = show_catch"
  by (auto simp: fun_eq_iff)

lemma read_try:
  assumes "braced_block body" "read_by_statement u body" "cs \<noteq> []"
    and "\<forall>c \<in> set cs. braced_block (snd c) \<and> read_by_statement u (snd c)"
  shows "read_by_statement u (StmtTry body cs)"
proof (rule read_by_statementI)
  fix m b t r
  assume m: "length (show_stmt (StmtTry body cs)) \<le> m" and t: "t \<in> after_stmt"
  then have len: "length (show_stmt body) \<le> m" "length (concat (map show_catch cs)) < m"
    by (auto simp: show_catches)
  have "parses b (catches_loop m (statement u m) []) (concat (map show_catch cs) @ t # r) ([] @ cs) (t # r)"
    using assms(4) len(2) t by (intro parses_catches) (auto simp: after_stmt_def)
  with body_reads(1) [OF assms(2,1) len(1)] body_reads(2) [OF assms(2,1) len(1) order_refl] assms(3)
  show "parses b (statement u (Suc m)) (show_stmt (StmtTry body cs) @ t # r) (StmtTry body cs) (t # r)"
    by (simp add: show_catches try_stmt_def parses_def p_then_def current_def advance_def p_ret_def)
qed (simp add: braced_block_def)

lemma read_return:
  assumes "printable_value v"
  shows "read_by_statement u (ExprReturn v)"
proof (rule read_by_statementI)
  fix m b t r
  assume m: "length (show_stmt (ExprReturn v)) \<le> m"
  show "parses b (statement u (Suc m)) (show_stmt (ExprReturn v) @ t # r) (ExprReturn v) (t # r)"
  proof (cases v)
    case None
    then show ?thesis
      by (simp add: return_stmt_def show_value_def parses_def p_then_def current_def advance_def eat_def p_ret_def)
  next
    case (Some e)
    then obtain h q where "show_expr e = h # q" "h \<noteq> Tk Semi"
      using assms show_expr_head [of e] by (auto simp: printable_value_def)
    moreover have "expression u m \<lparr>toks = show_expr e @ Tk Semi # t # r, can_struct = b\<rparr>
        = Some (Inr (e, \<lparr>toks = Tk Semi # t # r, can_struct = b\<rparr>))"
      using assms m Some by (intro expression_reads_Semi) (auto simp: printable_value_def show_value_def)
    ultimately show ?thesis using Some
      by (simp add: return_stmt_def show_value_def parses_def p_then_def current_def advance_def eat_def p_ret_def)
  qed
qed (simp add: braced_block_def)

lemma read_rethrow: "read_by_statement u StmtRethrow"
  by (rule read_by_statementI)
    (simp_all add: braced_block_def rethrow_stmt_def parses_def p_then_def current_def advance_def eat_def p_ret_def)

lemma read_import:
  assumes "path \<noteq> []"
  shows "read_by_statement u (StmtImport path alias)"
proof (rule read_by_statementI)
  fix m b t r
  assume "length (show_stmt (StmtImport path alias)) \<le> m"
  then have "length (show_path path) \<le> m" by simp
  from parses_import [OF assms this]
  show "parses b (statement u (Suc m)) (show_stmt (StmtImport path alias) @ t # r) (StmtImport path alias) (t # r)"
    by (simp add: parses_def p_then_def current_def)
qed (simp add: braced_block_def)

lemma read_var_decl:
  assumes "printable_type k" "printable_value v"
  shows "read_by_statement u (DeclVar x k v)"
proof (rule read_by_statementI)
  fix m b t r
  assume "length (show_stmt (DeclVar x k v)) \<le> m"
  then have "length (show_type k) \<le> m" "length (show_value [Tk Eq] v) \<le> m" by auto
  from parses_var_decl [OF assms this]
  show "parses b (statement u (Suc m)) (show_stmt (DeclVar x k v) @ t # r) (DeclVar x k v) (t # r)"
    by (simp add: parses_def p_then_def current_def)
qed (simp add: braced_block_def)

lemmas read_statement_rules = read_while read_for read_if read_try read_return read_rethrow read_import read_var_decl

lemma printable_stmt_read: "printable_stmt s \<Longrightarrow> read_by_statement u s"
proof (induction s)
  case (Block ss k)
  then show ?case by (auto simp: list_all_iff intro: read_block)
next
  case (StmtIf c body alt)
  then show ?case by (intro read_statement_rules) (auto split: option.splits)
next
  case (StmtTry body cs)
  have "read_by_statement u (snd c)" if "c \<in> set cs" for c
  proof (rule StmtTry.IH(2) [OF that])
    show "snd c \<in> Basic_BNFs.snds c" by (cases c) (simp add: snds.intros)
    show "printable_stmt (snd c)" using StmtTry.prems that by (auto simp: list_all_iff)
  qed
  then show ?case using StmtTry by (intro read_statement_rules) auto
next
  case (StmtWhile c body)
  then show ?case by (intro read_statement_rules) auto
next
  case (StmtFor x c body)
  then show ?case by (intro read_statement_rules) auto
qed (auto intro!: read_statement_rules read_expr_stmt simp: braced_block_def)


section \<open>Declarations and programs\<close>

abbreviation show_named :: "string \<times> ty \<Rightarrow> token list" where
  "show_named p \<equiv> TkIdent (fst p) # Tk Colon # show_type (snd p)"

definition show_variant :: "string \<times> int \<Rightarrow> token list" where
  "show_variant v = [TkIdent (fst v), Tk Eq, TkInteger (snd v)]"

definition show_ret :: "ty \<Rightarrow> token list" where
  "show_ret t = (if t = TyVoid then [] else Tk Arrow # show_type t)"

fun show_decl :: "ast \<Rightarrow> token list" where
  "show_decl (DeclFunc f ps t body k) =
     TkKw Func # TkIdent f # Tk LParen # commas (map show_named ps) @ Tk RParen # show_ret t @ show_stmt body"
| "show_decl (DeclStruct x fs) =
     TkKw Struct # TkIdent x # Tk LCurly # commas (map show_named fs) @ [Tk RCurly]"
| "show_decl (DeclEnum x vs) =
     TkKw Enum # TkIdent x # Tk LCurly # commas (map show_variant vs) @ [Tk RCurly]"
| "show_decl d = show_stmt d"

definition show_program :: "sol_program \<Rightarrow> token list" where
  "show_program p = concat (map show_decl p)"

text \<open>Numbers of variants are \<open>isize\<close>, and there is a next one; names of fields and variants differ.\<close>

fun printable_decl :: "ast \<Rightarrow> bool" where
  "printable_decl (DeclFunc f ps t body k) \<longleftrightarrow>
     k = usize_max \<and> (\<forall>p \<in> set ps. printable_type (snd p)) \<and> (t = TyVoid \<or> printable_type t)
     \<and> braced_block body \<and> printable_stmt body"
| "printable_decl (DeclStruct x fs) \<longleftrightarrow>
     distinct (map fst fs) \<and> (\<forall>f \<in> set fs. printable_type (snd f))"
| "printable_decl (DeclEnum x vs) \<longleftrightarrow>
     distinct (map fst vs) \<and> (\<forall>v \<in> set vs. i64_in_range (snd v) \<and> i64_in_range (snd v + 1))"
| "printable_decl (DeclVar x t v) \<longleftrightarrow> printable_stmt (DeclVar x t v)"
| "printable_decl (StmtImport path alias) \<longleftrightarrow> printable_stmt (StmtImport path alias)"
| "printable_decl d \<longleftrightarrow> False"

lemma hm_insert_fresh: "k \<notin> fst ` set m \<Longrightarrow> hm_insert k v m = m @ [(k, v)]"
  by (induction m) auto

lemma fold_hm_insert:
  "distinct (map fst (acc @ xs)) \<Longrightarrow> fold (\<lambda>(k, v) m. hm_insert k v m) xs acc = acc @ xs"
  by (induction xs arbitrary: acc) (auto simp: hm_insert_fresh image_Un)

lemma parses_named:
  assumes "printable_type (snd p)" "length (show_type (snd p)) \<le> n"
  shows "parses b (param n) (show_named p @ r) p r" "parses b (struct_field n) (show_named p @ r) p r"
  using read_type [OF assms]
  by (simp_all add: param_def struct_field_def ident_def parses_def p_then_def current_def advance_def eat_def p_ret_def)

lemma parses_named_list:
  assumes "\<forall>p \<in> set ps. printable_type (snd p)" "length (commas (map show_named ps)) < n" "close \<noteq> Comma"
    and "item = param n \<or> item = struct_field n"
  shows "parses b (comma_list n True close item []) (commas (map show_named ps) @ Tk close # r) ps (Tk close # r)"
proof -
  have "reads_back b item show_named ends p" if "p \<in> set ps" for p ends
  proof -
    have p: "printable_type (snd p)" "length (show_type (snd p)) \<le> n"
      using assms(1,2) length_commas_elem [of "show_named p" "map show_named ps"] that by auto
    show ?thesis using parses_named [OF p] assms(4) unfolding reads_back_def by blast
  qed
  moreover have "length ps < n" using length_commas [of "map show_named ps"] assms(2) by auto
  ultimately have "parses b (comma_list n True close item []) (commas (map show_named ps) @ Tk close # r) ([] @ ps)
      (Tk close # r)"
    using assms(3) by (intro parses_comma_list ballI) auto
  then show ?thesis by simp
qed

lemma parses_func:
  assumes "printable_decl (DeclFunc f ps t body k)" "length (show_decl (DeclFunc f ps t body k)) \<le> n"
  shows "parses b (func_decl u n) (show_decl (DeclFunc f ps t body k) @ r) (DeclFunc f ps t body k) r"
proof -
  have body: "braced_block body" "read_by_statement u body" "length (show_stmt body) \<le> n"
    using assms printable_stmt_read by auto
  obtain q where q: "show_stmt body = Tk LCurly # q" using braced_blockD [OF body(1)] ..
  have ps: "parses b (comma_list n True RParen (param n) []) (commas (map show_named ps) @ Tk RParen # r') ps
      (Tk RParen # r')" for r'
    using assms by (intro parses_named_list) auto
  have t: "t \<noteq> TyVoid \<Longrightarrow> parses b (parse_type n) (show_type t @ r') t r'" for r'
    using assms by (intro read_type) (auto simp: show_ret_def)
  note reads = ps [of "show_ret t @ show_stmt body @ r"] t [of "show_stmt body @ r"]
    read_by_blockD [OF body(2,1,3) order_refl, of b r]
  show ?thesis
  proof (cases "t = TyVoid")
    case True
    then show ?thesis using reads assms(1)
      by (simp add: func_decl_def show_ret_def ident_def q parses_def p_then_def current_def advance_def eat_def p_ret_def)
  next
    case False
    then show ?thesis using reads assms(1)
      by (simp add: func_decl_def show_ret_def ident_def parses_def p_then_def current_def advance_def eat_def p_ret_def)
  qed
qed

lemma parses_struct_decl:
  assumes "printable_decl (DeclStruct x fs)" "length (show_decl (DeclStruct x fs)) \<le> n"
  shows "parses b (struct_decl n) (show_decl (DeclStruct x fs) @ r) (DeclStruct x fs) r"
proof -
  have "parses b (comma_list n True RCurly (struct_field n) []) (commas (map show_named fs) @ Tk RCurly # r) fs
      (Tk RCurly # r)"
    using assms by (intro parses_named_list) auto
  then show ?thesis using assms(1) fold_hm_insert [of "[]" fs]
    by (simp add: struct_decl_def ident_def parses_def p_then_def current_def advance_def eat_def p_ret_def)
qed

lemma parses_variants:
  assumes "distinct (map fst (acc @ vs))" "\<forall>v \<in> set vs. i64_in_range (snd v) \<and> i64_in_range (snd v + 1)"
    and "length vs < n"
  shows "parses b (variants_loop ovf n iota acc) (commas (map show_variant vs) @ Tk RCurly # r) (acc @ vs) (Tk RCurly # r)"
  using assms
proof (induction vs arbitrary: n iota acc)
  case Nil
  then show ?case by (cases n) (simp_all add: parses_def p_then_def peek_def current_def p_ret_def)
next
  case (Cons v vs)
  then obtain m where n: "n = Suc m" by (cases n) auto
  have fresh: "hm_insert (fst v) (snd v) acc = acc @ [v]" using Cons.prems by (subst hm_insert_fresh) auto
  have i: "sint (word_of_int (snd v) :: u64) = snd v" "i64_in_range (snd v + 1)"
    using Cons.prems by (simp_all add: sint_of_int_in_range)
  show ?case
  proof (cases "vs = []")
    case True
    then show ?thesis using i fresh
      by (simp add: n show_variant_def [of v] variant_number_def ident_def parses_def p_then_def peek_def current_def
          advance_def p_ret_def)
  next
    case False
    have "parses b (variants_loop ovf m (snd v + 1) (acc @ [v])) (commas (map show_variant vs) @ Tk RCurly # r)
        ((acc @ [v]) @ vs) (Tk RCurly # r)"
      using Cons.prems n by (intro Cons.IH) auto
    then show ?thesis using i fresh False sint_of_int_in_range [OF i(2)]
      by (simp add: n show_variant_def [of v] variant_number_def ident_def commas_Cons parses_def p_then_def peek_def current_def
          advance_def p_ret_def)
  qed
qed

lemma parses_enum_decl:
  assumes "printable_decl (DeclEnum x vs)" "length (show_decl (DeclEnum x vs)) \<le> n"
  shows "parses b (enum_decl ovf n) (show_decl (DeclEnum x vs) @ r) (DeclEnum x vs) r"
proof -
  have "length vs < n"
    using length_commas [of "map show_variant vs"] assms(2) by (auto simp: show_variant_def)
  then have "parses b (variants_loop ovf n 0 []) (commas (map show_variant vs) @ Tk RCurly # r) ([] @ vs) (Tk RCurly # r)"
    using assms by (intro parses_variants) auto
  then show ?thesis
    by (simp add: enum_decl_def ident_def parses_def p_then_def current_def advance_def eat_def p_ret_def)
qed

lemma parses_any_decl:
  assumes "printable_decl d" "length (show_decl d) \<le> n"
  shows "parses b (any_decl ovf u n) (show_decl d @ r) d r"
  using assms
proof (cases d)
  case (DeclFunc f ps t body k)
  then show ?thesis using assms parses_func [of f ps t body k n b u r]
    by (simp add: any_decl_def parses_def p_then_def current_def)
next
  case (DeclStruct x fs)
  then show ?thesis using assms parses_struct_decl [of x fs n b r]
    by (simp add: any_decl_def parses_def p_then_def current_def)
next
  case (DeclEnum x vs)
  then show ?thesis using assms parses_enum_decl [of x vs n b ovf r]
    by (simp add: any_decl_def parses_def p_then_def current_def)
next
  case (DeclVar x t v)
  then show ?thesis using assms parses_var_decl [of t v n b u x r]
    by (simp add: any_decl_def parses_def p_then_def current_def)
next
  case (StmtImport path a)
  then show ?thesis using assms parses_import [of path n b a r]
    by (simp add: any_decl_def parses_def p_then_def current_def)
qed simp_all

lemma show_decl_not_Nil: "printable_decl d \<Longrightarrow> show_decl d \<noteq> []"
  by (cases d) auto

lemma parses_declarations:
  assumes "\<forall>d \<in> set p. printable_decl d" "length (show_program p) < n"
  shows "parses b (declarations ovf u n acc) (show_program p) (acc @ p) []"
  using assms
proof (induction p arbitrary: n acc)
  case Nil
  then show ?case by (cases n) (simp_all add: show_program_def parses_def p_then_def peek_def p_ret_def)
next
  case (Cons d p)
  then obtain m where n: "n = Suc m" by (cases n) auto
  obtain h q where h: "show_decl d = h # q" using Cons.prems show_decl_not_Nil [of d] by (cases "show_decl d") auto
  have "parses b (any_decl ovf u m) (show_decl d @ show_program p) d (show_program p)"
    using Cons.prems n by (intro parses_any_decl) (auto simp: show_program_def)
  moreover have "parses b (declarations ovf u m (acc @ [d])) (show_program p) ((acc @ [d]) @ p) []"
    using Cons.prems n h by (intro Cons.IH) (auto simp: show_program_def)
  ultimately show ?case
    by (simp add: n h show_program_def parses_def p_then_def peek_def)
qed

lemma parse_printed:
  assumes "\<forall>d \<in> set p. printable_decl d"
  shows "parse ovf u (show_program p) = Some (Inr (p, parser_from []))"
  using parses_declarations [OF assms, of "Suc (length (show_program p))" True ovf u "[]"]
  by (simp add: parse_def parser_from_def parses_def)


text \<open>C11. A printable program (function and loop bodies are blocks, string literals have no open marker,
  variants have their numbers), written out as tokens, parses back to itself, and no token is left.\<close>

lemma parse_show_program:
  "\<forall>d \<in> set p. printable_decl d \<Longrightarrow> parse ovf u (show_program p) = Some (Inr (p, parser_from []))"
  by (rule parse_printed)

definition sample_program :: sol_program where
  "sample_program =
     [DeclEnum ''Mode'' [(''On'', 3), (''Off'', - 1)],
      DeclFunc ''start'' [(''n'', TyInteger), (''xs'', TyArray None TyString)] TyInteger
        (Block
           [DeclVar ''m'' TyInteger (Some (ExprVar ''n'')),
            StmtTry (Block [ExprFuncCall ''print'' [ExprVar ''m'']] usize_max)
              [(''timeout'', Block [StmtRethrow] usize_max)],
            StmtIf (ExprBinary (ExprVar ''m'') (ExprInteger 0) (Tk MoreThan))
              (Block [ExprReturn (Some (ExprVar ''m''))] usize_max)
              (Some (StmtWhile (ExprBool True) (Block [] usize_max)))] usize_max) usize_max]"

lemma parse_show_program_witness:
  "\<forall>ovf u. parse ovf u (show_program sample_program) = Some (Inr (sample_program, parser_from []))"
  by (intro allI parse_show_program)
    (auto simp: sample_program_def braced_block_def printable_value_def binops_def level_ops_def i64_in_range_def)

end
