(* ===== verification/Sol_Pc.thy ===== *)
theory Sol_Pc
  imports Sol_Vm_Props Sol_Bytecode_Wf
begin

text \<open>
  Where control can go in compiled code: the program counter, every return address and every handler
  address stay within the program or at its end, from the generated code through any run.
\<close>

definition control where
  "control s = (inst_ptr s, call_stack s, try_handlers s)"

lemma control_simps [simp, frame_simps]:
  "control (push v s) = control s"
  "control (record_fault m s) = control s"
  "control (snd (pop s)) = control s"
  "control (snd (snd (pop2 s))) = control s"
  "control (push_obj b s) = control s"
  "control (snd (check_alloc n w s)) = control s"
  "control (emit e s) = control s"
  "control (observe_chunks cs s) = control s"
  "control (push_strings ts s) = control s"
  "control (fst (raise_malformed c s)) = control s"
  "control (snd (const_bits a s)) = control s"
  by (auto simp: control_def push_def record_fault_def pop_def pop2_def push_obj_def check_alloc_def
        emit_def observe_chunks_def push_strings_def raise_malformed_def const_bits_def Let_def
      split: option.splits prod.splits list.splits ast.splits)

lemma control_updates [simp, frame_simps]:
  "control (s\<lparr>stack := a\<rparr>) = control s" "control (s\<lparr>heap := b\<rparr>) = control s"
  "control (s\<lparr>last_error := c\<rparr>) = control s" "control (s\<lparr>is_done := d\<rparr>) = control s"
  "control (s\<lparr>vm_fault := e\<rparr>) = control s" "control (s\<lparr>fp := m\<rparr>) = control s"
  by (simp_all add: control_def)

lemma control_pop_n [simp, frame_simps]: "control (snd (pop_n n s)) = control s"
  by (induction n arbitrary: s) (simp_all add: case_prod_beta)

lemma control_pop_pairs [simp, frame_simps]: "control (snd (pop_pairs n s)) = control s"
  by (induction n arbitrary: s) (simp_all add: case_prod_beta)

section \<open>Addresses within the code\<close>

definition within :: "nat \<Rightarrow> vm \<Rightarrow> bool" where
  "within n s \<longleftrightarrow> inst_ptr s \<le> n \<and> (\<forall>f \<in> set (call_stack s). return_ptr f \<le> n) \<and>
     (\<forall>h \<in> set (try_handlers s). catch_pc h \<le> n)"

lemma within_control: "control s = control t \<Longrightarrow> within n s = within n t"
  by (simp add: control_def within_def)

lemma within_frame [simp]:
  "within n (push v s) = within n s" "within n (record_fault m s) = within n s"
  "within n (snd (pop s)) = within n s" "within n (snd (snd (pop2 s))) = within n s"
  "within n (push_obj b s) = within n s" "within n (snd (check_alloc k w s)) = within n s"
  "within n (emit e s) = within n s" "within n (observe_chunks cs s) = within n s"
  "within n (push_strings ts s) = within n s" "within n (fst (raise_malformed c s)) = within n s"
  "within n (snd (const_bits a s)) = within n s" "within n (snd (pop_n k s)) = within n s"
  "within n (snd (pop_pairs k s)) = within n s"
  "within n (s\<lparr>stack := st\<rparr>) = within n s" "within n (s\<lparr>heap := hp\<rparr>) = within n s"
  "within n (s\<lparr>last_error := le\<rparr>) = within n s" "within n (s\<lparr>is_done := dn\<rparr>) = within n s"
  "within n (s\<lparr>vm_fault := vf\<rparr>) = within n s" "within n (s\<lparr>fp := m'\<rparr>) = within n s"
  by (rule within_control, simp)+

lemma within_try [simp]: "within n s \<Longrightarrow> within n (fst (try_dispatch_error s))"
  by (auto simp: try_dispatch_error_def within_def split: list.splits)

lemma within_fail_local [simp]: "within n (fst (fail_local p m c s)) = within n s"
  by (simp add: fail_local_def)

lemma within_finish_call [simp]: "within n s \<Longrightarrow> within n (fst (finish_call r s))"
  by (auto simp: finish_call_def raise_error_def case_prod_beta split: sum.splits option.splits)

lemma within_alu: "within n (fst (exec_alu ovf a s)) = within n s"
  by (cases a) (simp_all add: alu_defs case_prod_beta Let_def split: obj_splits)

lemma within_print: "within n (fst (exec_print p s)) = within n s"
  by (cases p) (simp_all add: case_prod_beta Let_def split: obj_splits)

lemma within_coll: "within n s \<Longrightarrow> within n (fst (exec_coll c s))"
  by (cases c) (simp_all add: coll_defs case_prod_beta Let_def split: obj_splits)

lemma call_stack_pop [simp]: "call_stack (snd (pop s)) = call_stack s"
  using control_simps(3) [of s] by (simp add: control_def)

lemma within_control_flow:
  "t \<le> n \<Longrightarrow> within n s \<Longrightarrow> within n (fst (exec_jump_false t s))"
  "t \<le> n \<Longrightarrow> within n s \<Longrightarrow> within n (fst (exec_call t k s))"
  "t \<le> n \<Longrightarrow> within n s \<Longrightarrow> within n (fst (exec_try_enter t s))"
  "within n s \<Longrightarrow> within n (fst (exec_try_exit s))"
  by (auto simp: exec_jump_false_def exec_call_def exec_try_enter_def exec_try_exit_def within_def
      case_prod_beta control_def pop_def record_fault_def split: option.splits dest: in_set_dropD)

lemma within_leave: "within n s \<Longrightarrow> call_stack s = f # fs \<Longrightarrow> within n (leave_frame f fs s)"
  by (auto simp: leave_frame_def within_def)

lemma within_returns:
  assumes "within n s"
  shows "within n (fst (exec_ret s))" "within n (fst (exec_ret_val s))"
proof -
  show "within n (fst (exec_ret s))"
    using assms within_leave [OF assms]
    by (cases "call_stack s") (simp_all add: exec_ret_def case_prod_beta split: option.split)
  have "within n (snd (pop s))" using assms by simp
  from this within_leave [OF this] show "within n (fst (exec_ret_val s))"
    by (cases "call_stack s") (simp_all add: exec_ret_val_def case_prod_beta split: option.split)
qed

lemma within_jump: "t \<le> n \<Longrightarrow> within n s \<Longrightarrow> within n (s\<lparr>inst_ptr := t\<rparr>)"
  by (simp add: within_def)

lemma within_exec:
  assumes "within n s" "\<forall>t. target_of i = Some t \<longrightarrow> t \<le> n"
  shows "within n (fst (exec ovf i s))"
  using assms
  by (cases i)
    (simp_all add: within_alu within_print within_coll within_control_flow within_returns within_jump,
     simp_all add: handler_defs(1-13) handler_defs(18-19) handler_defs(22-27)
       case_prod_beta Let_def split: obj_splits)

definition pc_inv :: "inst list \<Rightarrow> vm \<Rightarrow> bool" where
  "pc_inv code s \<longleftrightarrow> vm_program s = code \<and> within (length code) s \<and> targets_le (length code) code"

lemma within_finish [simp]: "within n (fst (finish_step r)) = within n (fst r)"
  by (auto simp: finish_step_def case_prod_beta split: prod.split flow.split option.split)

lemma step_pc_inv:
  assumes "pc_inv code s" "step ovf s = (s', r)"
  shows "pc_inv code s'"
proof (cases "\<not> is_done s \<and> inst_ptr s < length code \<and> fuel s \<noteq> 0")
  case True
  let ?i = "code ! inst_ptr s"
  have s': "s' = fst (finish_step (exec ovf ?i (fetch s)))"
    using assms True by (simp add: step_def pc_inv_def)
  have "vm_program s' = vm_program (fetch s)"
    using budget_finish_step [of "exec ovf ?i (fetch s)"] budget_exec [of ovf ?i "fetch s"]
    unfolding s' budget_def by (metis prod.inject)
  moreover have "within (length code) (fetch s)" "\<forall>t. target_of ?i = Some t \<longrightarrow> t \<le> length code"
    using assms(1) True by (auto simp: pc_inv_def within_def fetch_def targets_le_def)
  ultimately show ?thesis
    using assms(1) within_exec [of "length code" "fetch s" ?i ovf] by (simp add: s' pc_inv_def) (simp add: fetch_def)
next
  case False
  then show ?thesis
    using assms by (auto simp: step_def pc_inv_def exhaust_fuel_def within_def split: if_splits option.splits)
qed

interpretation sol_pc: machine_invariant "step_obs ovf" fuel "\<lambda>s. \<not> is_done s" "run ovf" "pc_inv code" for ovf code
  by unfold_locales (use step_pc_inv step_obs_fst in blast)

lemma compiled_inside:
  assumes "pc_inv code s" "\<not> is_done s" "run ovf s = Some (s', r)"
  shows "pc_inv code s'"
  using sol_pc.inv_run [OF assms(3,2,1)] .

lemma compiled_start:
  assumes "gen_bcode prog (codegen_from tables) = Inr code"
  shows "pc_inv code (with_fuel n (vm_from code))"
  using compiled_targets_le [OF assms]
  by (simp add: pc_inv_def within_def with_fuel_def vm_from_def vm_new_def)

text \<open>C28. Compiled code never sends the machine outside itself: when a run of the code of any program
  ends, the program counter, the return addresses and the handlers are within the code or at its
  end, and the code is what was compiled.\<close>

lemma compiled_run_stays_inside:
  assumes "gen_bcode prog (codegen_from tables) = Inr code"
    and "run ovf (with_fuel n (vm_from code)) = Some (s', r)"
  shows "vm_program s' = code \<and> inst_ptr s' \<le> length code
    \<and> (\<forall>f \<in> set (call_stack s'). return_ptr f \<le> length code)
    \<and> (\<forall>h \<in> set (try_handlers s'). catch_pc h \<le> length code)"
  using compiled_inside [OF compiled_start [OF assms(1)] _ assms(2)]
  by (simp add: pc_inv_def within_def with_fuel_def vm_from_def vm_new_def)

lemma compiled_run_stays_inside_witness:
  "\<exists>code s' r. gen_bcode [] (codegen_from []) = Inr code
     \<and> run True (with_fuel 5 (vm_from code)) = Some (s', r) \<and> inst_ptr s' \<le> length code"
proof -
  have code: "gen_bcode [] (codegen_from []) = Inr []"
    by (simp add: gen_bcode_def gen_stmts_def seq.simps codegen_from_def Let_def)
  obtain s' r where r: "run True (with_fuel 5 (vm_from [])) = Some (s', r)"
    using sol.returns [of "with_fuel 5 (vm_from [])" True]
    by (force simp: with_fuel_def vm_from_def vm_new_def)
  from compiled_run_stays_inside [OF code r] code r show ?thesis by blast
qed

end
