(* ===== verification/Sol_Flow.thy ===== *)
theory Sol_Flow
  imports Sol_Compile Sol_Render Sol_Print_Program Sol_Pipeline Sol_Pc
begin

text \<open>
  From source text to the end of a run: what holds of every flow that compiles, and what a flow
  computes when it is the text of a program of the core language.
\<close>

section \<open>Compiling returns\<close>

lemma strip_keeps_chars:
  "strip_steps_directive src = Inr (stripped, d) \<Longrightarrow> set stripped \<subseteq> set src"
  by (auto simp: strip_steps_directive_def dest!: strip_from_suffix)

lemma compile_tokens_total: "\<exists>r. compile_tokens ovf u ts = Some r"
  using parse_total [of ovf u ts] by (auto simp: compile_tokens_def split: sum.splits)

lemma compile_stripped_total:
  assumes "\<forall>c \<in> set s. \<not> stuck_char u c"
  shows "\<exists>r. compile_stripped_source ovf u s = Some r"
proof -
  obtain r where "tokens u s = Some r" using lex_all_total [OF assms, of "[]"] by (auto simp: tokens_def)
  then show ?thesis using compile_tokens_total by (auto simp: compile_stripped_source_def split: sum.split)
qed

text \<open>C35. The compiler returns, code or an error, on every source text without a character that is
  numeric but neither an ASCII digit nor alphabetic.\<close>

lemma compile_returns:
  assumes "\<forall>c \<in> set src. \<not> stuck_char u c"
  shows "\<exists>r. compile_source_with_directives ovf u src d = Some r"
proof (cases "strip_steps_directive src")
  case (Inr x)
  then have "\<forall>c \<in> set (fst x). \<not> stuck_char u c" using strip_keeps_chars [of src "fst x" "snd x"] assms by auto
  from compile_stripped_total [OF this] show ?thesis
    using Inr by (auto simp: compile_source_with_directives_def split: prod.split)
qed (simp add: compile_source_with_directives_def)

lemma compile_returns_witness: "\<exists>r. compile_source_with_directives True ascii_ucd (cps ''#steps 5'') 0 = Some r"
  by (rule compile_returns) (simp add: stuck_char_def is_numeric_def ascii_ucd_def cps_def)

text \<open>The two entry points agree: \<open>compile_source\<close> gives the code of the flow, and fails when and as
  the other does, whatever the default budget.\<close>

lemma compile_source_agrees:
  "compile_source ovf u src
    = map_option (map_sum id bytecode) (compile_source_with_directives ovf u src d)"
  by (simp add: compile_source_def compile_source_with_directives_def option.map_comp comp_def sum.map_comp id_def
      split: sum.split prod.split)

section \<open>Running a compiled flow\<close>

lemma map_sum_Inr: "map_sum f g x = Inr y \<longleftrightarrow> (\<exists>z. x = Inr z \<and> g z = y)"
  by (cases x) auto

lemma compiled_code:
  assumes "compile_source_with_directives ovf u src d = Some (Inr flow)"
  obtains prog tables fuel' where "gen_bcode prog (codegen_from tables) = Inr (bytecode flow)"
    "max_steps flow = resolve_max_steps fuel' d"
proof -
  obtain stripped fuel' code where "compile_stripped_source ovf u stripped = Some (Inr code)"
    and flow: "flow = \<lparr>bytecode = code, max_steps = resolve_max_steps fuel' d\<rparr>"
    using assms by (auto simp: compile_source_with_directives_def map_sum_Inr split: sum.splits prod.splits)
  then obtain program where "compile_program program = Inr code"
    by (auto simp: compile_stripped_source_def compile_tokens_def split: option.splits sum.splits prod.splits)
  then obtain prog tables where "gen_bcode prog (codegen_from tables) = Inr code"
    by (auto simp: compile_program_def split: sum.splits prod.splits)
  with flow that show thesis by simp
qed

section \<open>What a flow computes\<close>

lemma render_opens:
  assumes "ts = TkKw k # r"
  shows "opens_source (render ts)"
proof -
  have r: "render ts = cps (render_kw k) @ 32 # render r" using assms by (simp add: render_def)
  have line: "split_line (w @ s) = (w @ fst (split_line s), snd (split_line s))" if "10 \<notin> set w" for w s
    using that by (induction w) (auto split: prod.split)
  obtain c w where w: "cps (render_kw k) = c # w" "10 \<notin> set (c # w)" "\<not> is_whitespace c" "c \<noteq> 35"
    by (cases k) (auto simp: cps_def is_whitespace_def)
  then have "fst (split_line (render ts)) = c # w @ fst (split_line (32 # render r))"
    using line [of "c # w" "32 # render r"] by (simp add: r)
  then show ?thesis
    using w(3,4) by (simp add: opens_source_def is_directive_def trim_start_def is_prefix_def steps_word_def cps_def)
qed

text \<open>The source text of a core program, with its budget in front.\<close>

definition flow_text :: "nat \<Rightarrow> ty \<Rightarrow> ast list \<Rightarrow> ustr" where
  "flow_text n t body =
     steps_word @ 32 # cps (show_nat n) @ 10 # render (show_program (start_program t body usize_max usize_max))"

lemma show_start:
  "show_program (start_program t body usize_max usize_max) =
    TkKw Func # TkIdent ''start'' # Tk LParen # Tk RParen # show_ret t @ show_stmt (Block body usize_max)"
  by (simp add: show_program_def start_program_def)

lemma compile_flow_text:
  assumes "list_all printable_stmt body" "printable_type t" "0 < n" "n \<le> u64_max"
    and "list_all (lexable u) (show_ret t @ show_stmt (Block body usize_max))"
  shows "compile_source_with_directives ovf u (flow_text n t body) d =
    Some (map_sum Parse (\<lambda>code. \<lparr>bytecode = code, max_steps = resolve_max_steps (Some n) d\<rparr>)
      (compile_program (start_program t body usize_max usize_max)))"
proof -
  let ?p = "start_program t body usize_max usize_max"
  have "lexable u (TkIdent ''start'')"
    by (rule lexable_name) (simp_all add: ascii_word_char_def is_ascii_alpha_def keyword_def)
  then have lex: "tokens u (render (show_program ?p)) = Some (Inr (show_program ?p))"
    using assms(5) unfolding show_start by (intro tokens_rendered) simp
  have "\<forall>d \<in> set ?p. printable_decl d"
    using assms(1,2) by (simp add: start_program_def braced_block_def list_all_iff)
  from parse_printed [OF this] have "compile_tokens ovf u (show_program ?p) = Some (compile_program ?p)"
    by (simp add: compile_tokens_def)
  moreover have "strip_steps_directive (flow_text n t body) = Inr (render (show_program ?p), Some n)"
    unfolding flow_text_def by (intro strip_printed_line assms(3,4) render_opens) (simp add: show_start)
  ultimately show ?thesis
    by (simp add: compile_source_with_directives_def compile_stripped_source_def lex)
qed

text \<open>C1. From text to result: take a core program whose body returns \<open>v\<close> under the big-step semantics and
  that the analyzer accepts, and write it out as source text under a step directive. That text compiles,
  to a flow with the budget of the directive, and the flow, run with enough fuel in either build, halts
  with the encoding of \<open>v\<close>.\<close>

theorem source_flow_correct:
  assumes "bigs body Map.empty (Returned v)" "cores {} body" "length (start_code body) < 2 ^ 63"
    and "\<not> isl (analyze (start_program t body usize_max usize_max) analyzer_new)"
    and "list_all printable_stmt body" "printable_type t" "0 < n" "n \<le> u64_max"
    and "list_all (lexable u) (show_ret t @ show_stmt (Block body usize_max))"
  shows "\<exists>flow k. compile_source_with_directives ovf u (flow_text n t body) d = Some (Inr flow)
    \<and> max_steps flow = max (min n MAX_STEPS_CEILING) 1
    \<and> (\<forall>f > k. \<exists>s'. run ovf' ((vm_from (bytecode flow))\<lparr>fuel := f\<rparr>) = Some (s', Inr (enc v)))"
proof -
  obtain prog a where run: "analyze (start_program t body usize_max usize_max) analyzer_new = Inr (prog, a)"
    using assms(4) by (cases "analyze (start_program t body usize_max usize_max) analyzer_new") auto
  from core_pipeline [OF assms(1-3) this, of ovf'] obtain code k
    where code: "gen_bcode prog (codegen_from (tt_arena a)) = Inr code"
      and k: "\<forall>f > k. \<exists>s'. run ovf' ((vm_from code)\<lparr>fuel := f\<rparr>) = Some (s', Inr (enc v))" by blast
  let ?flow = "\<lparr>bytecode = code, max_steps = resolve_max_steps (Some n) d\<rparr>"
  have "compile_source_with_directives ovf u (flow_text n t body) d = Some (Inr ?flow)"
    using compile_flow_text [OF assms(5-9)] run code by (simp add: compile_program_def)
  then show ?thesis using k
    by (intro exI [of _ ?flow] exI [of _ k]) (simp add: resolve_max_steps_def Let_def)
qed

lemma count_flow_printable:
  "list_all printable_stmt (count_body usize_max)" "printable_type TyInteger" "0 < (1000::nat)" "1000 \<le> u64_max"
  "list_all (lexable ascii_ucd) (show_ret TyInteger @ show_stmt (Block (count_body usize_max) usize_max))"
proof -
  show "list_all printable_stmt (count_body usize_max)"
    by (simp add: count_body_def braced_block_def printable_value_def binops_def level_ops_def)
  have "lexable ascii_ucd (TkIdent ''i'')" "lexable ascii_ucd (TkIdent ''int'')"
    by (rule lexable_name; simp add: ascii_word_char_def is_ascii_alpha_def keyword_def)+
  then show "list_all (lexable ascii_ucd) (show_ret TyInteger @ show_stmt (Block (count_body usize_max) usize_max))"
    by (simp add: count_body_def show_ret_def show_value_def paren_def i128_max_def del: lexable.simps(1))
qed (simp_all add: u64_max_def)

lemma source_flow_correct_witness:
  "\<exists>flow k. compile_source_with_directives True ascii_ucd (flow_text 1000 TyInteger (count_body usize_max)) 0 = Some (Inr flow)
    \<and> max_steps flow = 1000
    \<and> (\<forall>f > k. \<exists>s'. run False ((vm_from (bytecode flow))\<lparr>fuel := f\<rparr>) = Some (s', Inr 1))"
  using source_flow_correct [OF count_body_returns count_body_core count_body_short count_body_accepted
      count_flow_printable, where ovf = True and d = 0 and ovf' = False]
  by (simp add: MAX_STEPS_CEILING_def)

text \<open>C2. Whatever compiles can be run: in a release build, with the budget of the flow and any dispatcher
  behind its remote calls, the run returns, takes at most the budget, never panics, and leaves the code
  unchanged and control within it. It ends with a value, unless the code has \<open>list_join\<close> or
  \<open>list_contains\<close>: their recursion over references may overflow the native stack.\<close>

theorem compiled_flow_safe:
  assumes "compile_source_with_directives ovf u src d = Some (Inr flow)"
  shows "\<exists>s' r. run False (with_dispatcher disp (with_fuel (max_steps flow) (vm_from (bytecode flow)))) = Some (s', r)
    \<and> (case r of Inr v \<Rightarrow> True
        | Inl c \<Rightarrow> c = NativeStackOverflow \<and> list_ex follows_references (bytecode flow))
    \<and> steps_taken s' \<le> max_steps flow \<and> max_steps flow \<le> MAX_STEPS_CEILING
    \<and> vm_program s' = bytecode flow \<and> inst_ptr s' \<le> length (bytecode flow)"
proof -
  obtain prog tables k where code: "gen_bcode prog (codegen_from tables) = Inr (bytecode flow)"
    and steps: "max_steps flow = resolve_max_steps k d"
    using compiled_code [OF assms] .
  have ceiling: "1 \<le> max_steps flow" "max_steps flow \<le> MAX_STEPS_CEILING"
    by (simp_all add: steps resolve_max_steps_def Let_def MAX_STEPS_CEILING_def)
  let ?s = "with_dispatcher disp (with_fuel (max_steps flow) (vm_from (bytecode flow)))"
  have live: "\<not> is_done ?s" and fuel: "fuel_inv (max_steps flow) ?s" and stack: "stack_inv ?s"
    using ceiling by (simp_all add: with_dispatcher_def with_fuel_def vm_from_def vm_new_def fuel_inv_def stack_inv_def
        MAX_STEPS_CEILING_def ALLOC_CEILING_def)
  have pc: "pc_inv (bytecode flow) ?s"
    using compiled_start [OF code, of "max_steps flow"] by (simp add: pc_inv_def within_def with_dispatcher_def)
  obtain s' r where run: "run False ?s = Some (s', r)" using sol.returns [OF live] by blast
  have "fuel_inv (max_steps flow) s'" using sol_fuel.inv_run [OF run live fuel] .
  then have "steps_taken s' \<le> max_steps flow" by (simp add: fuel_inv_def)
  moreover have "pc_inv (bytecode flow) s'" using compiled_inside [OF pc live run] .
  then have inside: "vm_program s' = bytecode flow" "inst_ptr s' \<le> length (bytecode flow)"
    by (simp_all add: pc_inv_def within_def)
  moreover have "c = NativeStackOverflow \<and> list_ex follows_references (bytecode flow)" if "r = Inl c" for c
    using run_no_panic [OF _ live stack] run_overflow [OF _ live] run that inside(1) by metis
  then have "case r of Inr v \<Rightarrow> True | Inl c \<Rightarrow> c = NativeStackOverflow \<and> list_ex follows_references (bytecode flow)"
    by (simp split: sum.split)
  ultimately show ?thesis using run ceiling(2) by blast
qed

text \<open>The counting program compiles to nineteen instructions, none of which follows references.\<close>

lemma count_flow_compiles:
  "\<exists>flow. compile_source_with_directives True ascii_ucd (flow_text 1000 TyInteger (count_body usize_max)) 0 = Some (Inr flow)
    \<and> max_steps flow = 1000 \<and> bytecode flow = start_code (count_body usize_max)"
proof -
  let ?p = "start_program TyInteger (count_body usize_max) usize_max usize_max"
  obtain prog a where run: "analyze ?p analyzer_new = Inr (prog, a)"
    using count_body_accepted [of usize_max usize_max usize_max] by (cases "analyze ?p analyzer_new") auto
  have "gen_bcode prog (codegen_from (tt_arena a)) = Inr (start_code (count_body usize_max))"
    by (rule core_generates [OF count_body_core run])
  then show ?thesis
    using compile_flow_text [OF count_flow_printable, where d = 0 and ovf = True] run
    by (simp add: compile_program_def resolve_max_steps_def MAX_STEPS_CEILING_def u64_max_def)
qed

lemma count_flow_length: "length (start_code (count_body k)) = 19"
  by (simp add: start_code_def count_body_def Let_def int_op_def)

lemma count_flow_no_list: "\<not> list_ex follows_references (start_code (count_body k))"
  by (simp add: start_code_def count_body_def Let_def int_op_def follows_references_def)

lemma compiled_flow_safe_witness:
  "\<forall>disp. \<exists>flow s' v. compile_source_with_directives True ascii_ucd (flow_text 1000 TyInteger (count_body usize_max)) 0 = Some (Inr flow)
    \<and> length (bytecode flow) = 19
    \<and> run False (with_dispatcher disp (with_fuel 1000 (vm_from (bytecode flow)))) = Some (s', Inr v)
    \<and> steps_taken s' \<le> 1000"
proof
  fix disp
  obtain flow where flow: "compile_source_with_directives True ascii_ucd
      (flow_text 1000 TyInteger (count_body usize_max)) 0 = Some (Inr flow)" "max_steps flow = 1000"
    "bytecode flow = start_code (count_body usize_max)"
    using count_flow_compiles by blast
  obtain s' r where r: "run False (with_dispatcher disp (with_fuel 1000 (vm_from (bytecode flow)))) = Some (s', r)"
    "case r of Inr v \<Rightarrow> True | Inl c \<Rightarrow> c = NativeStackOverflow \<and> list_ex follows_references (bytecode flow)"
    "steps_taken s' \<le> 1000"
    using compiled_flow_safe [OF flow(1), of disp] unfolding flow(2) by blast
  then obtain v where "r = Inr v" using count_flow_no_list flow(3) by (cases r) auto
  then show "\<exists>flow s' v. compile_source_with_directives True ascii_ucd
      (flow_text 1000 TyInteger (count_body usize_max)) 0 = Some (Inr flow)
    \<and> length (bytecode flow) = 19
    \<and> run False (with_dispatcher disp (with_fuel 1000 (vm_from (bytecode flow)))) = Some (s', Inr v)
    \<and> steps_taken s' \<le> 1000"
    using flow(1) r(1,3) by (auto simp: flow(3) count_flow_length)
qed

end
