(* ===== verification/Rust_Map.thy ===== *)
theory Rust_Map
  imports Prelude "HOL-Library.AList" "HOL-Library.List_Lexorder" "HOL-Library.Option_ord"
begin

text \<open>
  Rust's \<open>HashMap\<close> and the iterator methods the control plane uses. A map is an association list without
  two entries of one key; the order of the list stands for the order in which the map is traversed,
  which Rust leaves open, so what is proved holds for every order. Strings (lists of code points) are
  ordered as \<open>str::cmp\<close> orders them: by the first difference.
\<close>

named_theorems map_simps \<open>the operations of a hash map\<close>

type_synonym ('k, 'v) hash_map = "('k \<times> 'v) list"

definition wf_map :: "('k, 'v) hash_map \<Rightarrow> bool" where
  "wf_map m \<longleftrightarrow> distinct (map fst m)"

abbreviation get :: "('k, 'v) hash_map \<Rightarrow> 'k \<Rightarrow> 'v option" where
  "get \<equiv> map_of"

abbreviation hinsert :: "'k \<Rightarrow> 'v \<Rightarrow> ('k, 'v) hash_map \<Rightarrow> ('k, 'v) hash_map" where
  "hinsert \<equiv> AList.update"

abbreviation hremove :: "'k \<Rightarrow> ('k, 'v) hash_map \<Rightarrow> ('k, 'v) hash_map" where
  "hremove \<equiv> AList.delete"

definition contains_key :: "('k, 'v) hash_map \<Rightarrow> 'k \<Rightarrow> bool" where
  "contains_key m k \<longleftrightarrow> get m k \<noteq> None"

definition vals :: "('k, 'v) hash_map \<Rightarrow> 'v list" where
  "vals m = map snd m"

text \<open>A write through \<open>get_mut\<close>: nothing happens where there is no entry.\<close>

definition adjust :: "'k \<Rightarrow> ('v \<Rightarrow> 'v) \<Rightarrow> ('k, 'v) hash_map \<Rightarrow> ('k, 'v) hash_map" where
  "adjust k f m = (case get m k of Some v \<Rightarrow> hinsert k (f v) m | None \<Rightarrow> m)"

lemma get_hinsert [simp, map_simps]: "get (hinsert k v m) k' = (if k' = k then Some v else get m k')"
  by (simp add: update_conv')

lemma get_hremove [simp, map_simps]: "get (hremove k m) k' = (if k' = k then None else get m k')"
  by (simp add: delete_conv')

lemma get_adjust [simp, map_simps]: "get (adjust k f m) k' = (if k' = k then map_option f (get m k) else get m k')"
  by (simp add: adjust_def split: option.split)

lemma contains_key_iff: "contains_key m k \<longleftrightarrow> (\<exists>v. get m k = Some v)"
  by (auto simp: contains_key_def)

lemma contains_key_hinsert [simp, map_simps]: "contains_key (hinsert k v m) k' \<longleftrightarrow> k' = k \<or> contains_key m k'"
  by (simp add: contains_key_def)

lemma contains_key_adjust [simp, map_simps]: "contains_key (adjust k f m) k' = contains_key m k'"
  by (simp add: contains_key_def)

lemma wf_map_Nil [simp]: "wf_map []"
  by (simp add: wf_map_def)

lemma wf_map_hinsert [simp]: "wf_map m \<Longrightarrow> wf_map (hinsert k v m)"
  by (simp add: wf_map_def distinct_update)

lemma wf_map_hremove [simp]: "wf_map m \<Longrightarrow> wf_map (hremove k m)"
  by (simp add: wf_map_def distinct_delete)

lemma wf_map_adjust [simp]: "wf_map m \<Longrightarrow> wf_map (adjust k f m)"
  by (simp add: adjust_def split: option.split)

lemma in_vals_iff: "wf_map m \<Longrightarrow> v \<in> set (vals m) \<longleftrightarrow> (\<exists>k. get m k = Some v)"
  unfolding wf_map_def vals_def by (force simp: map_of_eq_Some_iff [unfolded in_set_conv_nth [symmetric]])

lemma get_in_vals: "get m k = Some v \<Longrightarrow> v \<in> set (vals m)"
  by (force simp: vals_def dest: map_of_SomeD)

text \<open>\<open>max_by_key\<close>: of several largest elements, the last. The order is passed as \<open>\<le>\<close>.\<close>

fun max_by :: "('a \<Rightarrow> 'a \<Rightarrow> bool) \<Rightarrow> 'a list \<Rightarrow> 'a option" where
  "max_by le [] = None"
| "max_by le (x # xs) =
     (case max_by le xs of None \<Rightarrow> Some x | Some y \<Rightarrow> if le x y then Some y else Some x)"

lemma max_by_None [simp]: "max_by le xs = None \<longleftrightarrow> xs = []"
  by (cases xs) (auto split: option.split)

lemma max_by_in: "max_by le xs = Some x \<Longrightarrow> x \<in> set xs"
  by (induction xs arbitrary: x) (auto split: option.splits if_splits)

lemma max_by_key_ge:
  "max_by (\<lambda>a b. (key a :: 'k :: linorder) \<le> key b) xs = Some x \<Longrightarrow> y \<in> set xs \<Longrightarrow> key y \<le> key x"
  by (induction xs arbitrary: x) (fastforce split: option.splits if_splits)+

text \<open>An element with the one largest key is what \<open>max_by_key\<close> finds, whatever the order of the list.\<close>

lemma max_by_unique:
  fixes key :: "'a \<Rightarrow> 'k :: linorder"
  assumes "x \<in> set xs" and "\<And>y. y \<in> set xs \<Longrightarrow> y \<noteq> x \<Longrightarrow> key y < key x"
  shows "max_by (\<lambda>a b. key a \<le> key b) xs = Some x"
proof -
  obtain y where y: "max_by (\<lambda>a b. key a \<le> key b) xs = Some y"
    using assms(1) by (cases "max_by (\<lambda>a b. key a \<le> key b) xs") auto
  have "y = x"
  proof (rule ccontr)
    assume "y \<noteq> x"
    with assms(2) max_by_in [OF y] have "key y < key x" by blast
    moreover have "key x \<le> key y" by (rule max_by_key_ge [OF y assms(1)])
    ultimately show False by simp
  qed
  with y show ?thesis by simp
qed

text \<open>\<open>format!("{:04}")\<close> and its neighbours: a number padded with zeros on the left.\<close>

definition pad_zeros :: "nat \<Rightarrow> nat \<Rightarrow> string" where
  "pad_zeros w n = (let s = show_nat n in replicate (w - length s) (CHR ''0'') @ s)"

definition clamp :: "'a \<Rightarrow> 'a \<Rightarrow> 'a :: linorder \<Rightarrow> 'a" where
  "clamp lo hi x = (if x < lo then lo else if hi < x then hi else x)"

lemma clamp_in: "lo \<le> hi \<Longrightarrow> lo \<le> clamp lo hi x \<and> clamp lo hi x \<le> hi"
  by (auto simp: clamp_def)

end
