(* ===== verification/Relux_Hierarchy.thy ===== *)
theory Relux_Hierarchy
  imports Rust_Str
begin

text \<open>
  The chain of command over agents (\<open>relux-core/src/hierarchy.rs\<close>) and the tree of tasks
  (\<open>relux-core/src/task.rs\<close>): two parent pointers walked up under a bound on the depth and a guard
  against repeats. What both walks promise is the locale \<open>bounded_walk\<close>; the check made before an edge
  is stored is correct for both because of it, up to the depth.
\<close>

section \<open>The code\<close>

datatype agent_id = AgentId ustr

datatype task_id = TaskId ustr

type_synonym reports_to_map = "agent_id \<rightharpoonup> agent_id"

type_synonym task_parent_map = "task_id \<rightharpoonup> task_id"

definition MAX_HIERARCHY_DEPTH :: nat where
  "MAX_HIERARCHY_DEPTH = 50"

definition MAX_TASK_DEPTH :: nat where
  "MAX_TASK_DEPTH = 64"

text \<open>The loop of both walks, with the turns left: \<open>seen\<close> are the nodes visited so far.\<close>

fun walk_up :: "nat \<Rightarrow> ('a \<rightharpoonup> 'a) \<Rightarrow> 'a set \<Rightarrow> 'a \<Rightarrow> 'a list" where
  "walk_up 0 parent seen x = []"
| "walk_up (Suc n) parent seen x =
     (case parent x of
        Some p \<Rightarrow> if p \<notin> seen then p # walk_up n parent (insert p seen) p else []
      | None \<Rightarrow> [])"

definition chain_of_command :: "agent_id \<Rightarrow> reports_to_map \<Rightarrow> agent_id list" where
  "chain_of_command agent reports_to = walk_up MAX_HIERARCHY_DEPTH reports_to {agent} agent"

definition is_in_subtree :: "agent_id \<Rightarrow> agent_id \<Rightarrow> reports_to_map \<Rightarrow> bool" where
  "is_in_subtree manager child reports_to \<longleftrightarrow>
     (if manager = child then False else list_ex (\<lambda>a. a = manager) (chain_of_command child reports_to))"

definition would_create_cycle :: "agent_id \<Rightarrow> agent_id \<Rightarrow> reports_to_map \<Rightarrow> bool" where
  "would_create_cycle child new_manager reports_to \<longleftrightarrow>
     child = new_manager \<or> is_in_subtree child new_manager reports_to"

definition task_ancestors :: "task_id \<Rightarrow> task_parent_map \<Rightarrow> task_id list" where
  "task_ancestors task parent_of = walk_up MAX_TASK_DEPTH parent_of {task} task"

definition is_in_task_subtree :: "task_id \<Rightarrow> task_id \<Rightarrow> task_parent_map \<Rightarrow> bool" where
  "is_in_task_subtree ancestor task parent_of \<longleftrightarrow>
     (if ancestor = task then False else list_ex (\<lambda>a. a = ancestor) (task_ancestors task parent_of))"

definition would_create_task_cycle :: "task_id \<Rightarrow> task_id \<Rightarrow> task_parent_map \<Rightarrow> bool" where
  "would_create_task_cycle child new_parent parent_of \<longleftrightarrow>
     child = new_parent \<or> is_in_task_subtree child new_parent parent_of"

section \<open>Bounded walks\<close>

definition edges :: "('a \<rightharpoonup> 'a) \<Rightarrow> ('a \<times> 'a) set" where
  "edges m = {(a, b). m a = Some b}"

text \<open>A walk up a parent map: a path without repeats that only ends early at the top or at a repeat.\<close>

locale bounded_walk =
  fixes up :: "'a \<Rightarrow> ('a \<rightharpoonup> 'a) \<Rightarrow> 'a list" and depth :: nat
  assumes up_path: "successively (\<lambda>a b. m a = Some b) (x # up x m)"
    and up_distinct: "distinct (x # up x m)"
    and up_bound: "length (up x m) \<le> depth"
    and up_stops: "length (up x m) < depth \<Longrightarrow> m (last (x # up x m)) = Some y \<Longrightarrow> y \<in> set (x # up x m)"
begin

lemma up_reaches: "y \<in> set (up x m) \<Longrightarrow> (x, y) \<in> (edges m)\<^sup>+"
proof -
  have "y \<in> set ys \<Longrightarrow> (x, y) \<in> (edges m)\<^sup>+" if "successively (\<lambda>a b. m a = Some b) (x # ys)" for ys
    using that
  proof (induction ys arbitrary: x)
    case (Cons z zs)
    then have "(x, z) \<in> edges m" by (simp add: edges_def)
    with Cons show ?case by (cases "y = z") (auto intro: trancl_into_trancl2)
  qed simp
  then show "y \<in> set (up x m) \<Longrightarrow> (x, y) \<in> (edges m)\<^sup>+" using up_path by blast
qed

lemma up_closed:
  assumes "length (up x m) < depth" "a \<in> set (x # up x m)" "m a = Some b"
  shows "b \<in> set (x # up x m)"
proof -
  let ?p = "x # up x m"
  obtain i where i: "i < length ?p" "?p ! i = a" using assms(2) unfolding in_set_conv_nth by blast
  show ?thesis
  proof (cases "Suc i < length ?p")
    case True
    then have "m (?p ! i) = Some (?p ! Suc i)" using up_path [of m x] by (simp add: successively_conv_nth)
    then show ?thesis using assms(3) i True by (metis nth_mem option.inject)
  next
    case False
    then have "a = last ?p" using i by (metis Suc_lessI diff_Suc_1 last_conv_nth length_0_conv list.distinct(1))
    then show ?thesis using up_stops assms(1,3) by blast
  qed
qed

lemma up_complete:
  assumes "length (up x m) < depth" "(x, y) \<in> (edges m)\<^sup>*"
  shows "y \<in> set (x # up x m)"
  using assms(2)
proof (induction rule: rtrancl_induct)
  case (step a b)
  then show ?case using up_closed [OF assms(1)] by (auto simp: edges_def)
qed simp

lemma up_length_dom:
  assumes "finite (dom m)"
  shows "length (up x m) \<le> card (dom m)"
proof -
  define p where "p = x # up x m"
  have path: "successively (\<lambda>a b. m a = Some b) p" and dist: "distinct p"
    using up_path up_distinct by (simp_all add: p_def)
  have "set (butlast p) \<subseteq> dom m"
  proof
    fix a
    assume "a \<in> set (butlast p)"
    then obtain i where "i < length (butlast p)" "butlast p ! i = a" unfolding in_set_conv_nth by blast
    then have "Suc i < length p" "p ! i = a" by (simp_all add: nth_butlast)
    then have "m a = Some (p ! Suc i)" using path by (auto simp: successively_conv_nth)
    then show "a \<in> dom m" by blast
  qed
  then have "card (set (butlast p)) \<le> card (dom m)" using assms by (rule card_mono [rotated])
  then have "length (butlast p) \<le> card (dom m)" using distinct_card [OF distinct_butlast [OF dist]] by simp
  moreover have "length (butlast p) = length (up x m)" unfolding p_def length_butlast by simp
  ultimately show ?thesis by simp
qed

lemma up_iff:
  assumes "acyclic (edges m)" "length (up x m) < depth"
  shows "y \<in> set (up x m) \<longleftrightarrow> (x, y) \<in> (edges m)\<^sup>+"
proof
  assume "(x, y) \<in> (edges m)\<^sup>+"
  moreover have "x \<noteq> y" using calculation assms(1) by (auto simp: acyclic_def)
  ultimately show "y \<in> set (up x m)" using up_complete [OF assms(2), of y] by (auto dest: trancl_into_rtrancl)
qed (rule up_reaches)

text \<open>A new edge closes a loop exactly if its lower end is on the way up from its upper end.\<close>

lemma new_edge_cycle:
  assumes "c = p \<or> c \<in> set (up p m)"
  shows "\<not> acyclic (edges (m(c \<mapsto> p)))"
proof -
  let ?m = "m(c \<mapsto> p)"
  have "(p, c) \<in> (edges ?m)\<^sup>*"
  proof -
    have "(x, c) \<in> (edges ?m)\<^sup>*" if "successively (\<lambda>a b. m a = Some b) (x # ys)" "c \<in> set (x # ys)" for x ys
      using that
    proof (induction ys arbitrary: x)
      case (Cons z zs)
      show ?case
      proof (cases "x = c")
        case False
        then have "(x, z) \<in> edges ?m" "(z, c) \<in> (edges ?m)\<^sup>*" using Cons by (auto simp: edges_def)
        then show ?thesis by (rule converse_rtrancl_into_rtrancl)
      qed simp
    qed simp
    then show ?thesis using up_path [of m p] assms by auto
  qed
  moreover have "(c, p) \<in> edges ?m" by (simp add: edges_def)
  ultimately have "(c, c) \<in> (edges ?m)\<^sup>+" by (meson rtrancl_into_trancl2)
  then show ?thesis by (auto simp: acyclic_def)
qed

lemma new_edge_acyclic:
  assumes "acyclic (edges m)" "length (up p m) < depth" "c \<noteq> p" "c \<notin> set (up p m)"
  shows "acyclic (edges (m(c \<mapsto> p)))"
proof -
  have "(p, c) \<notin> (edges m)\<^sup>*" using up_complete [OF assms(2)] assms(3,4) by auto
  then have "acyclic (insert (c, p) (edges m))" using assms(1) by (simp add: acyclic_insert)
  moreover have "edges (m(c \<mapsto> p)) \<subseteq> insert (c, p) (edges m)" by (auto simp: edges_def split: if_splits)
  ultimately show ?thesis by (rule acyclic_subset)
qed

lemma new_edge_iff:
  assumes "acyclic (edges m)" "length (up p m) < depth"
  shows "acyclic (edges (m(c \<mapsto> p))) \<longleftrightarrow> c \<noteq> p \<and> c \<notin> set (up p m)"
  using new_edge_cycle new_edge_acyclic [OF assms] by blast

end

section \<open>Both walks are bounded walks\<close>

lemma walk_up_path: "successively (\<lambda>a b. m a = Some b) (x # walk_up n m seen x)"
  by (induction n arbitrary: seen x) (auto split: option.splits)

lemma walk_up_distinct:
  "x \<in> seen \<Longrightarrow> distinct (walk_up n m seen x) \<and> set (walk_up n m seen x) \<inter> seen = {}"
proof (induction n arbitrary: seen x)
  case (Suc n)
  show ?case
  proof (cases "\<exists>p. m x = Some p \<and> p \<notin> seen")
    case True
    then obtain p where p: "m x = Some p" "p \<notin> seen" by blast
    then show ?thesis using Suc.IH [of p "insert p seen"] by auto
  qed (auto split: option.splits)
qed simp

lemma walk_up_bound: "length (walk_up n m seen x) \<le> n"
  by (induction n arbitrary: seen x) (auto split: option.splits)

lemma walk_up_stops:
  "length (walk_up n m seen x) < n \<Longrightarrow> x \<in> seen \<Longrightarrow> m (last (x # walk_up n m seen x)) = Some y \<Longrightarrow>
    y \<in> seen \<union> set (walk_up n m seen x)"
proof (induction n arbitrary: seen x)
  case (Suc n)
  show ?case
  proof (cases "\<exists>p. m x = Some p \<and> p \<notin> seen")
    case True
    then obtain p where p: "m x = Some p" "p \<notin> seen" by blast
    then show ?thesis using Suc.prems Suc.IH [of "insert p seen" p] by auto
  next
    case False
    then show ?thesis using Suc.prems by (auto split: option.splits if_splits)
  qed
qed simp

lemma walk_bounded: "bounded_walk (\<lambda>x m. walk_up n m {x} x) n"
proof
  show "distinct (x # walk_up n m {x} x)" for x :: 'a and m
    using walk_up_distinct [of x "{x}"] by simp
  show "y \<in> set (x # walk_up n m {x} x)"
    if "length (walk_up n m {x} x) < n" "m (last (x # walk_up n m {x} x)) = Some y" for x y :: 'a and m
    using walk_up_stops [OF that(1) _ that(2)] by simp
qed (rule walk_up_path walk_up_bound)+

interpretation line: bounded_walk chain_of_command MAX_HIERARCHY_DEPTH
  using walk_bounded [of MAX_HIERARCHY_DEPTH] unfolding chain_of_command_def [abs_def] .

interpretation tasks: bounded_walk task_ancestors MAX_TASK_DEPTH
  using walk_bounded [of MAX_TASK_DEPTH] unfolding task_ancestors_def [abs_def] .

section \<open>Properties\<close>

lemma in_subtree_iff: "is_in_subtree manager child m \<longleftrightarrow> manager \<noteq> child \<and> manager \<in> set (chain_of_command child m)"
  by (auto simp: is_in_subtree_def list_ex_iff)

lemma in_task_subtree_iff: "is_in_task_subtree a t m \<longleftrightarrow> a \<noteq> t \<and> a \<in> set (task_ancestors t m)"
  by (auto simp: is_in_task_subtree_def list_ex_iff)

text \<open>The check before an agent gets a manager never refuses an edge that closes no loop, and as long
  as the chain above the new manager is shorter than the bound it refuses every edge that closes one:
  in an acyclic hierarchy it decides exactly whether the hierarchy stays acyclic.\<close>

lemma would_create_cycle_exact:
  assumes "acyclic (edges m)" "length (chain_of_command manager m) < MAX_HIERARCHY_DEPTH"
  shows "would_create_cycle child manager m \<longleftrightarrow> \<not> acyclic (edges (m(child \<mapsto> manager)))"
  using line.new_edge_iff [OF assms, of child] by (auto simp: would_create_cycle_def in_subtree_iff)

definition two_levels :: reports_to_map where
  "two_levels = [AgentId (cps ''dev'') \<mapsto> AgentId (cps ''lead''), AgentId (cps ''lead'') \<mapsto> AgentId (cps ''chief'')]"

lemma two_levels_acyclic: "acyclic (edges two_levels)"
proof -
  have "edges two_levels = {(AgentId (cps ''dev''), AgentId (cps ''lead'')), (AgentId (cps ''lead''), AgentId (cps ''chief''))}"
    by (auto simp: edges_def two_levels_def cps_def split: if_splits)
  then show ?thesis by (simp add: acyclic_insert cps_def) (auto simp: acyclic_def elim: converse_rtranclE)
qed

lemma two_levels_chain: "chain_of_command (AgentId (cps ''dev'')) two_levels = [AgentId (cps ''lead''), AgentId (cps ''chief'')]"
  by (simp add: chain_of_command_def MAX_HIERARCHY_DEPTH_def two_levels_def cps_def numeral_eq_Suc)

lemma two_levels_short: "length (chain_of_command (AgentId (cps ''dev'')) two_levels) < MAX_HIERARCHY_DEPTH"
  by (simp add: two_levels_chain MAX_HIERARCHY_DEPTH_def)

lemma would_create_cycle_exact_witness:
  "\<not> acyclic (edges (two_levels(AgentId (cps ''chief'') \<mapsto> AgentId (cps ''dev''))))
    \<and> acyclic (edges (two_levels(AgentId (cps ''intern'') \<mapsto> AgentId (cps ''dev''))))"
proof -
  note exact = would_create_cycle_exact [OF two_levels_acyclic two_levels_short]
  have "would_create_cycle (AgentId (cps ''chief'')) (AgentId (cps ''dev'')) two_levels"
    "\<not> would_create_cycle (AgentId (cps ''intern'')) (AgentId (cps ''dev'')) two_levels"
    by (simp_all add: would_create_cycle_def in_subtree_iff two_levels_chain) (simp_all add: cps_def)
  with exact show ?thesis by blast
qed

text \<open>A line of command of 52 agents.\<close>

definition ladder :: reports_to_map where
  "ladder = (\<lambda>a. case a of AgentId s \<Rightarrow> if length s < 51 then Some (AgentId (97 # s)) else None)"

definition top :: agent_id where
  "top = AgentId (replicate 51 97)"

lemma walk_ladder:
  "AgentId t \<in> set (walk_up n ladder seen (AgentId s)) \<Longrightarrow> length t \<le> length s + n"
proof (induction n arbitrary: seen s)
  case (Suc n)
  then show ?case by (fastforce simp: ladder_def split: if_splits)
qed simp

lemma ladder_acyclic: "acyclic (edges ladder)"
proof -
  have "edges ladder \<subseteq> inv_image less_than (\<lambda>a. case a of AgentId s \<Rightarrow> length s)"
    by (auto simp: edges_def ladder_def split: agent_id.splits if_splits)
  then show ?thesis by (rule acyclic_subset [OF wf_acyclic, rotated]) (simp add: wf_inv_image)
qed

lemma ladder_climb: "n \<le> 51 \<Longrightarrow> (AgentId [], AgentId (replicate n 97)) \<in> (edges ladder)\<^sup>*"
proof (induction n)
  case (Suc n)
  then have "(AgentId (replicate n 97), AgentId (replicate (Suc n) 97)) \<in> edges ladder"
    by (simp add: edges_def ladder_def)
  with Suc show ?case by (meson Suc_leD rtrancl.rtrancl_into_rtrancl)
qed simp

text \<open>Beyond the bound it does not: in a line of command of 52 agents, the check lets the top report
  to the bottom.\<close>

lemma deep_cycle_missed:
  "acyclic (edges ladder) \<and> \<not> would_create_cycle top (AgentId []) ladder
    \<and> \<not> acyclic (edges (ladder(top \<mapsto> AgentId [])))"
proof (intro conjI)
  show "\<not> would_create_cycle top (AgentId []) ladder"
    using walk_ladder [of "replicate 51 97" 50 "{AgentId []}" "[]"]
    by (auto simp: would_create_cycle_def in_subtree_iff top_def chain_of_command_def MAX_HIERARCHY_DEPTH_def)
  let ?m = "ladder(top \<mapsto> AgentId [])"
  have "ladder top = None" by (simp add: ladder_def top_def)
  then have "edges ladder \<subseteq> edges ?m" by (auto simp: edges_def)
  then have "(AgentId [], top) \<in> (edges ?m)\<^sup>*"
    using ladder_climb [of 51] rtrancl_mono unfolding top_def by blast
  moreover have "(top, AgentId []) \<in> edges ?m" by (simp add: edges_def)
  ultimately have "(top, top) \<in> (edges ?m)\<^sup>+" by (rule rtrancl_into_trancl2 [rotated])
  then show "\<not> acyclic (edges ?m)" by (auto simp: acyclic_def)
qed (rule ladder_acyclic)

text \<open>The same check for the parent of a task.\<close>

lemma would_create_task_cycle_exact:
  assumes "acyclic (edges m)" "length (task_ancestors parent m) < MAX_TASK_DEPTH"
  shows "would_create_task_cycle child parent m \<longleftrightarrow> \<not> acyclic (edges (m(child \<mapsto> parent)))"
  using tasks.new_edge_iff [OF assms, of child] by (auto simp: would_create_task_cycle_def in_task_subtree_iff)

end
