(* ===== verification/Rust_Pattern.thy ===== *)
theory Rust_Pattern
  imports Rust_Str
begin

text \<open>The pattern methods of Rust's \<open>str\<close> that the permission, policy and failure code uses.\<close>

lemma is_prefix_append [simp]: "is_prefix p (p @ r)"
  by (simp add: is_prefix_def)

lemma is_prefix_iff: "is_prefix p s \<longleftrightarrow> (\<exists>r. s = p @ r)"
  using is_prefix_drop [of p s] is_prefix_append by metis

fun contains :: "'a list \<Rightarrow> 'a list \<Rightarrow> bool" where
  "contains p [] = (p = [])"
| "contains p (c # cs) = (is_prefix p (c # cs) \<or> contains p cs)"

lemma contains_iff: "contains p s \<longleftrightarrow> (\<exists>a b. s = a @ p @ b)"
proof (induction p s rule: contains.induct)
  case (2 p c cs)
  have "(\<exists>a b. c # cs = a @ p @ b) \<longleftrightarrow> (\<exists>b. c # cs = p @ b) \<or> (\<exists>a b. cs = a @ p @ b)"
    by (metis append_Cons append_Nil list.exhaust list.inject)
  with 2 show ?case by (simp add: is_prefix_iff)
qed simp

definition strip_prefix :: "'a list \<Rightarrow> 'a list \<Rightarrow> 'a list option" where
  "strip_prefix p s = (if is_prefix p s then Some (drop (length p) s) else None)"

definition strip_suffix :: "'a list \<Rightarrow> 'a list \<Rightarrow> 'a list option" where
  "strip_suffix p s = map_option rev (strip_prefix (rev p) (rev s))"

definition split_once :: "'a \<Rightarrow> 'a list \<Rightarrow> ('a list \<times> 'a list) option" where
  "split_once c s =
     (if c \<in> set s then Some (takeWhile (\<lambda>d. d \<noteq> c) s, tl (dropWhile (\<lambda>d. d \<noteq> c) s)) else None)"

lemma strip_prefix_iff: "strip_prefix p s = Some r \<longleftrightarrow> s = p @ r"
  using is_prefix_drop [of p s] by (auto simp: strip_prefix_def is_prefix_iff)

lemma strip_suffix_iff: "strip_suffix p s = Some r \<longleftrightarrow> s = r @ p"
  by (auto simp: strip_suffix_def strip_prefix_iff) (metis rev_append rev_rev_ident)

lemma strip_append [simp]: "strip_prefix p (p @ r) = Some r" "strip_suffix p (r @ p) = Some r"
  by (simp_all add: strip_prefix_iff strip_suffix_iff)

lemma split_once_iff: "split_once c s = Some (a, b) \<longleftrightarrow> s = a @ c # b \<and> c \<notin> set a"
proof
  assume "split_once c s = Some (a, b)"
  then have c: "c \<in> set s" and ab: "a = takeWhile (\<lambda>d. d \<noteq> c) s" "b = tl (dropWhile (\<lambda>d. d \<noteq> c) s)"
    by (auto simp: split_once_def split: if_splits)
  then have "dropWhile (\<lambda>d. d \<noteq> c) s = c # b"
    by (metis (mono_tags, lifting) dropWhile_eq_Nil_conv hd_dropWhile list.collapse)
  with ab show "s = a @ c # b \<and> c \<notin> set a"
    by (metis (mono_tags, lifting) set_takeWhileD takeWhile_dropWhile_id)
next
  assume "s = a @ c # b \<and> c \<notin> set a"
  then show "split_once c s = Some (a, b)"
    by (auto simp: split_once_def takeWhile_append2 dropWhile_append2 takeWhile_append dropWhile_append)
qed

text \<open>\<open>split\<close> on one character, and what it makes of parts without that character.\<close>

lemma split_aux_no_sep: "c \<notin> set s \<Longrightarrow> split_aux [c] acc (s @ t) = split_aux [c] (acc @ s) t"
  by (induction s arbitrary: acc) (auto simp: is_prefix_def)

lemma str_split_parts:
  "\<forall>x \<in> set xs. c \<notin> set x \<Longrightarrow> xs \<noteq> [] \<Longrightarrow> str_split [c] (join [c] xs) = xs"
proof (induction xs)
  case (Cons x xs)
  show ?case
  proof (cases xs)
    case Nil
    then show ?thesis using Cons.prems split_aux_no_sep [of c x "[]" "[]"] by (simp add: str_split_def)
  next
    case (Cons y ys)
    then show ?thesis
      using Cons.IH Cons.prems split_aux_no_sep [of c x "[]" "c # join [c] xs"]
      by (simp add: str_split_def is_prefix_def)
  qed
qed simp

lemma split_aux_parts: "\<forall>x \<in> set (split_aux [c] acc s). c \<notin> set acc \<longrightarrow> c \<notin> set x"
  by (induction "[c]" acc s rule: split_aux.induct) (auto simp: is_prefix_def)

lemma str_split_no_sep: "x \<in> set (str_split [c] s) \<Longrightarrow> c \<notin> set x"
  using split_aux_parts [of c "[]" s] by (auto simp: str_split_def)

text \<open>\<open>to_ascii_lowercase\<close>, on scalar values.\<close>

definition to_ascii_lowercase :: "ustr \<Rightarrow> ustr" where
  "to_ascii_lowercase s = map (\<lambda>c. if 65 \<le> c \<and> c \<le> 90 then c + 32 else c) s"

definition is_ascii_alphanumeric :: "nat \<Rightarrow> bool" where
  "is_ascii_alphanumeric c \<longleftrightarrow> is_ascii_alpha c \<or> is_ascii_digit c"

lemmas ascii_simps = cps_def is_ascii_alphanumeric_def is_ascii_alpha_def is_ascii_digit_def is_whitespace_def

end
