(* ===== verification/Relux_Permission.thy ===== *)
theory Relux_Permission
  imports Rust_Pattern Relux_Hierarchy
begin

text \<open>
  Permissions (\<open>relux-core/src/permission.rs\<close>): the grammar of capability strings, what a grant
  authorizes, the grants a manager holds over its branch, and standing grants for one tool
  (\<open>relux-core/src/persistent_grant.rs\<close>). A capability string is the list of its characters.
\<close>

section \<open>Capability strings\<close>

definition VALID_PREFIXES :: "ustr list" where
  "VALID_PREFIXES =
     map cps [''tool:'', ''adapter:'', ''provider:'', ''exec:'', ''plugin:'', ''agent:'', ''task:'', ''approval:'', ''audit:'']"

datatype permission_error = EmptyPermission | InvalidPrefix ustr | MalformedScope ustr

text \<open>\<open>char::is_control\<close>: the general category Cc.\<close>

definition is_control :: "nat \<Rightarrow> bool" where
  "is_control c \<longleftrightarrow> c < 32 \<or> (127 \<le> c \<and> c < 160)"

definition has_injection_chars :: "ustr \<Rightarrow> bool" where
  "has_injection_chars s \<longleftrightarrow>
     contains [46, 46] s \<or> list_ex (\<lambda>c. is_whitespace c \<or> is_control c \<or> c = 47 \<or> c = 92) s"

definition is_valid_segment :: "ustr \<Rightarrow> bool" where
  "is_valid_segment seg \<longleftrightarrow>
     seg \<noteq> [] \<and> is_ascii_alphanumeric (hd seg) \<and> list_all (\<lambda>c. is_ascii_alphanumeric c \<or> c = 95 \<or> c = 45) seg"

definition tool_kind :: ustr where "tool_kind = cps ''tool:''"
definition wildcard :: ustr where "wildcard = cps '':*''"

definition parse_tool_wildcard :: "ustr \<Rightarrow> ustr option" where
  "parse_tool_wildcard s =
     (case strip_prefix tool_kind s of
        None \<Rightarrow> None
      | Some rest \<Rightarrow>
          (case strip_suffix wildcard rest of
             None \<Rightarrow> None
           | Some plugin \<Rightarrow> if is_valid_segment plugin then Some plugin else None))"

definition SUBTREE_KEYWORD :: ustr where
  "SUBTREE_KEYWORD = cps ''subtree''"

definition parse_agent_subtree :: "ustr \<Rightarrow> (ustr \<times> ustr) option" where
  "parse_agent_subtree s =
     (case str_split [58] s of
        [kind, manager, keyword, action] \<Rightarrow>
          if kind = cps ''agent'' \<and> keyword = SUBTREE_KEYWORD \<and> is_valid_segment manager \<and> is_valid_segment action
          then Some (manager, action) else None
      | _ \<Rightarrow> None)"

definition looks_like_agent_subtree :: "ustr \<Rightarrow> bool" where
  "looks_like_agent_subtree s \<longleftrightarrow>
     is_prefix (cps ''agent:'') s \<and> list_ex (\<lambda>seg. seg = SUBTREE_KEYWORD) (drop 1 (str_split [58] s))"

datatype permission = Permission (as_str: ustr)

definition permission_new :: "ustr \<Rightarrow> permission_error + permission" where
  "permission_new s =
     (if s = [] then Inl EmptyPermission
      else if has_injection_chars s then Inl (MalformedScope s)
      else if \<not> list_ex (\<lambda>p. is_prefix p s) VALID_PREFIXES then Inl (InvalidPrefix s)
      else if 42 \<in> set s \<and> parse_tool_wildcard s = None then Inl (MalformedScope s)
      else if looks_like_agent_subtree s \<and> parse_agent_subtree s = None then Inl (MalformedScope s)
      else Inr (Permission s))"

definition matches_exact :: "permission \<Rightarrow> permission \<Rightarrow> bool" where
  "matches_exact p q \<longleftrightarrow> as_str p = as_str q"

definition is_scoped_wildcard :: "permission \<Rightarrow> bool" where
  "is_scoped_wildcard p \<longleftrightarrow> parse_tool_wildcard (as_str p) \<noteq> None"

definition is_manager_subtree :: "permission \<Rightarrow> bool" where
  "is_manager_subtree p \<longleftrightarrow> parse_agent_subtree (as_str p) \<noteq> None"

definition authorizes :: "permission \<Rightarrow> permission \<Rightarrow> bool" where
  "authorizes grant required \<longleftrightarrow>
     (if as_str grant = as_str required then True
      else case parse_tool_wildcard (as_str grant) of
             None \<Rightarrow> False
           | Some plugin \<Rightarrow>
               (case strip_prefix tool_kind (as_str required) of
                  None \<Rightarrow> False
                | Some rest \<Rightarrow>
                    (case split_once 58 rest of
                       None \<Rightarrow> False
                     | Some (req_plugin, req_tool) \<Rightarrow>
                         req_plugin = plugin \<and> req_tool \<noteq> [] \<and> 42 \<notin> set req_tool)))"

definition manager_subtree_authorizes ::
  "permission \<Rightarrow> agent_id \<Rightarrow> ustr \<Rightarrow> agent_id \<Rightarrow> reports_to_map \<Rightarrow> bool" where
  "manager_subtree_authorizes grant holder action target reports_to \<longleftrightarrow>
     (case parse_agent_subtree (as_str grant) of
        None \<Rightarrow> False
      | Some (manager, granted_action) \<Rightarrow>
          (case holder of AgentId h \<Rightarrow> manager = h) \<and> granted_action = action \<and> is_in_subtree holder target reports_to)"

section \<open>Standing grants\<close>

datatype risk_level = Low | Medium | High | Critical

record persistent_grant =
  grant_id :: ustr
  created_by :: ustr
  subject_agent :: agent_id
  plugin_id :: ustr
  tool_name :: ustr
  grant_permission :: ustr
  grant_risk :: risk_level
  created_at :: ustr
  last_used_at :: "ustr option"

definition authorizes_invocation ::
  "persistent_grant \<Rightarrow> agent_id \<Rightarrow> ustr \<Rightarrow> ustr \<Rightarrow> ustr \<Rightarrow> risk_level \<Rightarrow> bool" where
  "authorizes_invocation g subject plugin tool perm risk \<longleftrightarrow>
     subject_agent g = subject \<and> plugin_id g = plugin \<and> tool_name g = tool \<and> grant_permission g = perm \<and> grant_risk g = risk"

section \<open>What the parsers accept\<close>

lemma valid_segment_chars: "is_valid_segment s \<Longrightarrow> c \<in> set s \<Longrightarrow> is_ascii_alphanumeric c \<or> c = 95 \<or> c = 45"
  by (auto simp: is_valid_segment_def list_all_iff)

lemma valid_segment_plain: "is_valid_segment s \<Longrightarrow> 58 \<notin> set s \<and> 42 \<notin> set s"
  using valid_segment_chars [of s 58] valid_segment_chars [of s 42]
  by (auto simp: is_ascii_alphanumeric_def is_ascii_alpha_def is_ascii_digit_def)

lemma parse_tool_wildcard_iff:
  "parse_tool_wildcard s = Some p \<longleftrightarrow> s = tool_kind @ p @ wildcard \<and> is_valid_segment p"
  by (auto simp: parse_tool_wildcard_def strip_prefix_iff strip_suffix_iff split: option.splits if_splits)

lemma parse_agent_subtree_iff:
  "parse_agent_subtree s = Some (m, a) \<longleftrightarrow>
     s = join [58] [cps ''agent'', m, SUBTREE_KEYWORD, a] \<and> is_valid_segment m \<and> is_valid_segment a"
proof
  assume "parse_agent_subtree s = Some (m, a)"
  then have "str_split [58] s = [cps ''agent'', m, SUBTREE_KEYWORD, a]" "is_valid_segment m" "is_valid_segment a"
    by (auto simp: parse_agent_subtree_def split: list.splits if_splits)
  then show "s = join [58] [cps ''agent'', m, SUBTREE_KEYWORD, a] \<and> is_valid_segment m \<and> is_valid_segment a"
    using join_str_split [of "[58]" s] by simp
next
  assume s: "s = join [58] [cps ''agent'', m, SUBTREE_KEYWORD, a] \<and> is_valid_segment m \<and> is_valid_segment a"
  have "\<forall>x \<in> set [cps ''agent'', m, SUBTREE_KEYWORD, a]. 58 \<notin> set x"
    using s valid_segment_plain by (simp add: cps_def SUBTREE_KEYWORD_def)
  then have "str_split [58] s = [cps ''agent'', m, SUBTREE_KEYWORD, a]"
    using s str_split_parts [of "[cps ''agent'', m, SUBTREE_KEYWORD, a]" 58] by blast
  then show "parse_agent_subtree s = Some (m, a)" using s by (simp add: parse_agent_subtree_def)
qed

section \<open>Properties\<close>

text \<open>A grant authorizes itself, and a wildcard \<open>tool:<plugin>:*\<close> every concrete tool of that plugin,
  and nothing else: no other plugin, no other kind of capability, no wildcard.\<close>

lemma authorizes_exactly:
  "authorizes (Permission g) (Permission r) \<longleftrightarrow>
     g = r \<or> (\<exists>plugin tool. is_valid_segment plugin \<and> g = tool_kind @ plugin @ wildcard
       \<and> r = tool_kind @ plugin @ 58 # tool \<and> tool \<noteq> [] \<and> 42 \<notin> set tool)"
proof (cases "g = r")
  case False
  show ?thesis
  proof (cases "parse_tool_wildcard g")
    case None
    then have "\<not> (\<exists>plugin. g = tool_kind @ plugin @ wildcard \<and> is_valid_segment plugin)"
      using parse_tool_wildcard_iff [of g] by auto
    then show ?thesis using None False by (auto simp: authorizes_def)
  next
    case (Some plugin)
    then have g: "g = tool_kind @ plugin @ wildcard" "is_valid_segment plugin"
      using parse_tool_wildcard_iff [of g plugin] by auto
    have "authorizes (Permission g) (Permission r) \<longleftrightarrow>
        (\<exists>rest tool. strip_prefix tool_kind r = Some rest \<and> split_once 58 rest = Some (plugin, tool) \<and> tool \<noteq> [] \<and> 42 \<notin> set tool)"
      using False Some by (auto simp: authorizes_def split: option.split)
    then have "authorizes (Permission g) (Permission r) \<longleftrightarrow>
        (\<exists>tool. r = tool_kind @ plugin @ 58 # tool \<and> tool \<noteq> [] \<and> 42 \<notin> set tool)"
      using valid_segment_plain [OF g(2)] by (simp add: strip_prefix_iff split_once_iff) blast
    then show ?thesis using False g by auto
  qed
qed (simp add: authorizes_def)

text \<open>Authority does not grow by being passed on: what a permission authorizes that a grant
  authorizes, the grant authorizes itself.\<close>

lemma authorizes_trans:
  assumes "authorizes (Permission g) (Permission h)" "authorizes (Permission h) (Permission r)"
  shows "authorizes (Permission g) (Permission r)"
proof (cases "g = h \<or> h = r")
  case False
  then obtain plugin tool plugin' where "h = tool_kind @ plugin @ 58 # tool" "42 \<notin> set tool" "is_valid_segment plugin"
    "h = tool_kind @ plugin' @ wildcard"
    using assms unfolding authorizes_exactly by blast
  moreover from this have "plugin @ 58 # tool = plugin' @ wildcard" by simp
  then have "42 \<in> set (plugin @ 58 # tool)" by (simp add: wildcard_def cps_def)
  ultimately show ?thesis using valid_segment_plain by auto
qed (use assms in auto)

definition github_all :: ustr where "github_all = tool_kind @ cps ''github'' @ wildcard"
definition github_pr :: ustr where "github_pr = tool_kind @ cps ''github'' @ 58 # cps ''create_pr''"

lemma authorizes_trans_witness: "authorizes (Permission github_all) (Permission github_pr)"
proof (rule authorizes_trans)
  have "is_valid_segment (cps ''github'')" by (simp add: is_valid_segment_def ascii_simps)
  then show "authorizes (Permission github_all) (Permission github_pr)"
    unfolding authorizes_exactly github_all_def github_pr_def
    by (intro disjI2 exI [of _ "cps ''github''"] exI [of _ "cps ''create_pr''"]) (simp add: cps_def)
qed (simp add: authorizes_exactly)

text \<open>Authority over agents: in an acyclic hierarchy, and for a target less deep in it than the bound
  of the walk, a grant lets a holder act on a target exactly if it is the subtree grant that names the
  holder and the action, and the target is below the holder.\<close>

lemma manager_subtree_exactly:
  assumes "acyclic (edges m)" "length (chain_of_command target m) < MAX_HIERARCHY_DEPTH"
  shows "manager_subtree_authorizes (Permission g) (AgentId h) action target m \<longleftrightarrow>
    g = join [58] [cps ''agent'', h, SUBTREE_KEYWORD, action] \<and> is_valid_segment h \<and> is_valid_segment action
    \<and> (target, AgentId h) \<in> (edges m)\<^sup>+"
proof -
  have "is_in_subtree (AgentId h) target m \<longleftrightarrow> (target, AgentId h) \<in> (edges m)\<^sup>+"
    using line.up_iff [OF assms, of "AgentId h"] assms(1) by (auto simp: in_subtree_iff acyclic_def)
  moreover have "(case parse_agent_subtree g of None \<Rightarrow> False | Some (manager, granted) \<Rightarrow> manager = h \<and> granted = action \<and> P)
      \<longleftrightarrow> parse_agent_subtree g = Some (h, action) \<and> P" for P
    by (auto split: option.splits)
  ultimately show ?thesis
    unfolding manager_subtree_authorizes_def by (simp add: parse_agent_subtree_iff cong: option.case_cong)
qed

lemma manager_subtree_exactly_witness:
  "manager_subtree_authorizes (Permission (cps ''agent:chief:subtree:stop'')) (AgentId (cps ''chief'')) (cps ''stop'')
      (AgentId (cps ''dev'')) two_levels
    \<and> \<not> manager_subtree_authorizes (Permission (cps ''agent:chief:subtree:stop'')) (AgentId (cps ''dev'')) (cps ''stop'')
      (AgentId (cps ''dev'')) two_levels"
proof -
  have short: "length (chain_of_command (AgentId (cps ''dev'')) two_levels) < MAX_HIERARCHY_DEPTH" by (rule two_levels_short)
  have "(AgentId (cps ''dev''), AgentId (cps ''lead'')) \<in> edges two_levels"
    "(AgentId (cps ''lead''), AgentId (cps ''chief'')) \<in> edges two_levels"
    by (simp_all add: edges_def two_levels_def cps_def)
  then have below: "(AgentId (cps ''dev''), AgentId (cps ''chief'')) \<in> (edges two_levels)\<^sup>+" by auto
  have "cps ''agent:chief:subtree:stop'' = join [58] [cps ''agent'', cps ''chief'', SUBTREE_KEYWORD, cps ''stop'']"
    "is_valid_segment (cps ''chief'')" "is_valid_segment (cps ''stop'')"
    "cps ''agent:chief:subtree:stop'' \<noteq> join [58] [cps ''agent'', cps ''dev'', SUBTREE_KEYWORD, cps ''stop'']"
    by (simp_all add: SUBTREE_KEYWORD_def is_valid_segment_def ascii_simps)
  then show ?thesis using below by (simp only: manager_subtree_exactly [OF two_levels_acyclic short] simp_thms)
qed

end
