(* ===== verification/Relux_Run_Failure.thy ===== *)
theory Relux_Run_Failure
  imports Rust_Pattern Prelude
begin

text \<open>
  Why a run failed and whether it is retried without asking (\<open>relux-core/src/run_failure.rs\<close>), and the
  policy of the watchdog over stalled runs (\<open>relux-core/src/run_watchdog.rs\<close>). Labels and remediation
  texts, which no code reads, are left out.
\<close>

section \<open>Classes\<close>

datatype run_failure_class =
    TransientProvider | AuthRequired | AdapterMissing | PermissionDenied | InvalidPrompt
  | Timeout | Cancelled | OutputValidation | Unknown | Stale

primrec class_str :: "run_failure_class \<Rightarrow> string" where
  "class_str TransientProvider = ''transient_provider''"
| "class_str AuthRequired = ''auth_required''"
| "class_str AdapterMissing = ''adapter_missing''"
| "class_str PermissionDenied = ''permission_denied''"
| "class_str InvalidPrompt = ''invalid_prompt''"
| "class_str Timeout = ''timeout''"
| "class_str Cancelled = ''cancelled''"
| "class_str OutputValidation = ''output_validation''"
| "class_str Unknown = ''unknown''"
| "class_str Stale = ''stale''"

definition retryable :: "run_failure_class \<Rightarrow> bool" where
  "retryable c \<longleftrightarrow> c \<in> {TransientProvider, Timeout}"

definition needs_operator_action :: "run_failure_class \<Rightarrow> bool" where
  "needs_operator_action c \<longleftrightarrow>
     c \<in> {AuthRequired, AdapterMissing, PermissionDenied, InvalidPrompt, OutputValidation, Unknown, Stale}"

section \<open>Classification\<close>

definition timeout_words :: "string list" where
  "timeout_words =
     [''timed out'', ''timeout'', ''deadline exceeded'', ''deadline_exceeded'']"

definition cancel_words :: "string list" where
  "cancel_words =
     [''cancelled'', ''canceled'', ''aborted by'', ''user abort'']"

definition permission_words :: "string list" where
  "permission_words =
     [''permission denied'', ''lacks '', ''not permitted'', ''permissiondenied'']"

definition auth_words :: "string list" where
  "auth_words =
     [''401'', ''403'', ''unauthorized'', ''forbidden'', ''invalid api key'',
      ''invalid_api_key'', ''authentication'', ''not authenticated'', ''expired token'',
      ''token expired'', ''please sign in'', ''please log in'', ''login required'',
      ''sign in to'', ''not signed in'']"

definition adapter_words :: "string list" where
  "adapter_words =
     [''not found on path'', ''was not found on path'', ''no command configured'',
      ''not configured'', ''runtime is configured but disabled'', ''runtime for'',
      ''enable it first'', ''no adapter runtime'', ''failed to spawn adapter'']"

definition provider_words :: "string list" where
  "provider_words =
     [''rate limit'', ''rate_limit'', ''too many requests'', ''throttl'', ''overloaded'',
      ''temporarily unavailable'', ''service unavailable'', ''try again'', ''try later'',
      ''503'', ''529'', ''502'', ''500'', ''internal server error'', ''server error'',
      ''bad gateway'', ''connection reset'', ''connection aborted'', ''connection closed'',
      ''econnreset'', ''upstream'', ''transient'']"

definition invalid_words :: "string list" where
  "invalid_words =
     [''400'', ''bad request'', ''invalid request'', ''invalid_request'', ''malformed'',
      ''invalid prompt'', ''unprocessable'', ''422'']"

definition output_words :: "string list" where
  "output_words =
     [''reported an error'', ''could not parse'', ''invalid output'', ''validation failed'',
      ''unexpected output'', ''malformed response'']"

definition has :: "ustr \<Rightarrow> string list \<Rightarrow> bool" where
  "has r needles \<longleftrightarrow> list_ex (\<lambda>n. contains (cps n) r) needles"

definition classify_failure :: "ustr \<Rightarrow> bool \<Rightarrow> run_failure_class" where
  "classify_failure reason timed_out =
     (let r = to_ascii_lowercase reason
      in if timed_out \<or> has r timeout_words then Timeout
         else if has r cancel_words then Cancelled
         else if has r permission_words then PermissionDenied
         else if has r auth_words then AuthRequired
         else if has r adapter_words then AdapterMissing
         else if has r provider_words then TransientProvider
         else if has r invalid_words then InvalidPrompt
         else if has r output_words then OutputValidation
         else Unknown)"

section \<open>Retries\<close>

definition RETRY_BACKOFF_SECS :: "nat list" where
  "RETRY_BACKOFF_SECS = [2 * 60, 10 * 60, 30 * 60, 2 * 60 * 60]"

definition MAX_TRANSIENT_RETRIES :: nat where
  "MAX_TRANSIENT_RETRIES = length RETRY_BACKOFF_SECS"

definition retry_delay_secs :: "nat \<Rightarrow> nat option" where
  "retry_delay_secs attempt =
     (if attempt < length RETRY_BACKOFF_SECS then Some (RETRY_BACKOFF_SECS ! attempt) else None)"

record run_retry_state =
  attempt :: nat
  max_attempts :: nat
  not_before_secs :: "nat option"
  exhausted :: bool

definition saturating_add :: "nat \<Rightarrow> nat \<Rightarrow> nat" where
  "saturating_add a b = min (a + b) (2 ^ 64 - 1)"

definition retry_plan :: "run_failure_class \<Rightarrow> nat \<Rightarrow> nat \<Rightarrow> run_retry_state option" where
  "retry_plan c n now =
     (if \<not> retryable c then None
      else case retry_delay_secs n of
             Some delay \<Rightarrow>
               Some \<lparr>attempt = n, max_attempts = MAX_TRANSIENT_RETRIES, not_before_secs = Some (saturating_add now delay),
                     exhausted = False\<rparr>
           | None \<Rightarrow>
               Some \<lparr>attempt = n, max_attempts = MAX_TRANSIENT_RETRIES, not_before_secs = None, exhausted = True\<rparr>)"

definition eligible_at :: "run_retry_state \<Rightarrow> nat \<Rightarrow> bool" where
  "eligible_at st now \<longleftrightarrow> \<not> exhausted st \<and> (case not_before_secs st of None \<Rightarrow> False | Some nb \<Rightarrow> nb \<le> now)"

section \<open>The watchdog\<close>

definition MIN_STALE_AFTER_SECS :: nat where "MIN_STALE_AFTER_SECS = 30"
definition MAX_STALE_AFTER_SECS :: nat where "MAX_STALE_AFTER_SECS = 21600"
definition DEFAULT_STALE_AFTER_SECS :: nat where "DEFAULT_STALE_AFTER_SECS = 180"

record run_watchdog_config =
  watchdog_enabled :: bool
  stale_after_secs :: nat

definition watchdog_default :: run_watchdog_config where
  "watchdog_default = \<lparr>watchdog_enabled = True, stale_after_secs = DEFAULT_STALE_AFTER_SECS\<rparr>"

definition clamped :: "run_watchdog_config \<Rightarrow> run_watchdog_config" where
  "clamped c = c\<lparr>stale_after_secs := min (max (stale_after_secs c) MIN_STALE_AFTER_SECS) MAX_STALE_AFTER_SECS\<rparr>"

definition is_stale :: "run_watchdog_config \<Rightarrow> nat \<Rightarrow> nat \<Rightarrow> bool" where
  "is_stale c last_activity_at now \<longleftrightarrow> max (stale_after_secs c) MIN_STALE_AFTER_SECS \<le> now - last_activity_at"

section \<open>Properties\<close>

lemma eligible_plan:
  "(\<exists>st. retry_plan c n now = Some st \<and> eligible_at st later) \<longleftrightarrow>
    retryable c \<and> n < MAX_TRANSIENT_RETRIES \<and> saturating_add now (RETRY_BACKOFF_SECS ! n) \<le> later"
  by (auto simp: retry_plan_def retry_delay_secs_def eligible_at_def MAX_TRANSIENT_RETRIES_def)

lemma retries: "MAX_TRANSIENT_RETRIES = 4"
  by (simp add: MAX_TRANSIENT_RETRIES_def RETRY_BACKOFF_SECS_def)

text \<open>A failed run is retried without an operator exactly if it timed out, or its reason names a
  provider error and nothing that comes before it in the order of classification (a cancellation, a
  denied permission, a rejected credential, a missing adapter), and fewer than four retries came
  before it, and the delay of this retry has passed.\<close>

theorem auto_retry_exactly:
  "(\<exists>st. retry_plan (classify_failure reason timed_out) n now = Some st \<and> eligible_at st later) \<longleftrightarrow>
    (let r = to_ascii_lowercase reason
     in timed_out \<or> has r timeout_words
        \<or> (has r provider_words \<and> \<not> (has r cancel_words \<or> has r permission_words \<or> has r auth_words \<or> has r adapter_words)))
    \<and> n < 4 \<and> min (now + [120, 600, 1800, 7200] ! n) (2 ^ 64 - 1) \<le> later"
proof -
  let ?r = "to_ascii_lowercase reason"
  have "retryable (classify_failure reason timed_out) \<longleftrightarrow>
      timed_out \<or> has ?r timeout_words
      \<or> (has ?r provider_words \<and> \<not> (has ?r cancel_words \<or> has ?r permission_words \<or> has ?r auth_words \<or> has ?r adapter_words))"
    by (auto simp: classify_failure_def retryable_def Let_def)
  then show ?thesis
    unfolding eligible_plan retries by (simp add: RETRY_BACKOFF_SECS_def saturating_add_def Let_def)
qed

text \<open>The last needle of the last class is never what decides: it contains a needle of the class before.\<close>

lemma malformed_response_invalid:
  "contains (cps ''malformed response'') (to_ascii_lowercase reason) \<Longrightarrow> classify_failure reason timed_out \<noteq> OutputValidation"
proof -
  assume "contains (cps ''malformed response'') (to_ascii_lowercase reason)"
  then obtain a b where "to_ascii_lowercase reason = a @ cps ''malformed response'' @ b" by (auto simp: contains_iff)
  then have "to_ascii_lowercase reason = a @ cps ''malformed'' @ cps '' response'' @ b" by (simp add: cps_def)
  then have "contains (cps ''malformed'') (to_ascii_lowercase reason)" unfolding contains_iff by blast
  then have "has (to_ascii_lowercase reason) invalid_words" by (simp add: has_def invalid_words_def)
  then show ?thesis by (auto simp: classify_failure_def Let_def)
qed

lemma clamped_in_range:
  "MIN_STALE_AFTER_SECS \<le> stale_after_secs (clamped c) \<and> stale_after_secs (clamped c) \<le> MAX_STALE_AFTER_SECS
    \<and> clamped (clamped c) = clamped c"
  by (simp add: clamped_def MIN_STALE_AFTER_SECS_def MAX_STALE_AFTER_SECS_def)

end
