(* ===== verification/Relux_Domain.thy ===== *)
theory Relux_Domain
  imports Rust_Map Relux_Hierarchy Relux_Permission Relux_Run_Failure
begin

text \<open>
  The domain types of the control plane (\<open>relux-core/src/run.rs\<close>, \<open>task.rs\<close>, \<open>agent.rs\<close>, \<open>approval.rs\<close>,
  \<open>audit.rs\<close>, \<open>namespace.rs\<close>, \<open>tool.rs\<close>, \<open>adapter.rs\<close>) and of the kernel's errors
  (\<open>relux-kernel/src/lib.rs\<close>). Field names carry a prefix for their type. The \<open>metadata\<close> of an audit event
  and the \<open>message\<close> and \<open>payload\<close> of a transcript event are prose for people and are left out; so are the
  fields of a run that hold what an adapter reported for display (usage, cost, artifacts, proposed
  changes).
\<close>

section \<open>Identifiers, ordered by their text\<close>

datatype run_id = RunId (run_text: ustr)
datatype plugin_id = PluginId (plugin_text: ustr)
datatype namespace_id = NamespaceId ustr
datatype approval_id = ApprovalId (approval_text: ustr)
datatype orchestration_id = OrchestrationId ustr

instantiation run_id :: linorder
begin

definition less_eq_run_id :: "run_id \<Rightarrow> run_id \<Rightarrow> bool" where
  "r \<le> s \<longleftrightarrow> run_text r \<le> run_text s"

definition less_run_id :: "run_id \<Rightarrow> run_id \<Rightarrow> bool" where
  "r < s \<longleftrightarrow> run_text r < run_text s"

instance
  by standard (auto simp: less_eq_run_id_def less_run_id_def run_id.expand)

end

fun task_text :: "task_id \<Rightarrow> ustr" where "task_text (TaskId s) = s"
fun agent_text :: "agent_id \<Rightarrow> ustr" where "agent_text (AgentId s) = s"
fun namespace_text :: "namespace_id \<Rightarrow> ustr" where "namespace_text (NamespaceId s) = s"

section \<open>Risk\<close>

fun risk_rank :: "risk_level \<Rightarrow> nat" where
  "risk_rank Low = 0"
| "risk_rank Medium = 1"
| "risk_rank High = 2"
| "risk_rank Critical = 3"

instantiation risk_level :: linorder
begin

definition less_eq_risk_level :: "risk_level \<Rightarrow> risk_level \<Rightarrow> bool" where
  "r \<le> s \<longleftrightarrow> risk_rank r \<le> risk_rank s"

definition less_risk_level :: "risk_level \<Rightarrow> risk_level \<Rightarrow> bool" where
  "r < s \<longleftrightarrow> risk_rank r < risk_rank s"

lemma risk_rank_inj: "risk_rank r = risk_rank s \<Longrightarrow> r = s"
  by (cases r; cases s) simp_all

instance
  by standard (auto simp: less_eq_risk_level_def less_risk_level_def intro: risk_rank_inj)

end

datatype approval_requirement = Never | Required | RequiredWhenRisk risk_level

fun approval_blocks_direct_invocation :: "approval_requirement \<Rightarrow> risk_level \<Rightarrow> bool" where
  "approval_blocks_direct_invocation Never risk \<longleftrightarrow> False"
| "approval_blocks_direct_invocation Required risk \<longleftrightarrow> True"
| "approval_blocks_direct_invocation (RequiredWhenRisk threshold) risk \<longleftrightarrow> risk_rank threshold \<le> risk_rank risk"

section \<open>JSON\<close>

text \<open>A \<open>serde_json::Value\<close>; a number is kept as its text, an object as its entries in order.\<close>

datatype json = JNull | JBool bool | JNumber ustr | JString ustr | JArray "json list" | JObject "(ustr \<times> json) list"

fun json_get :: "json \<Rightarrow> ustr \<Rightarrow> json option" where
  "json_get (JObject kvs) k = map_of kvs k"
| "json_get _ _ = None"

fun json_as_str :: "json \<Rightarrow> ustr option" where
  "json_as_str (JString s) = Some s"
| "json_as_str _ = None"

fun json_as_array :: "json \<Rightarrow> json list option" where
  "json_as_array (JArray xs) = Some xs"
| "json_as_array _ = None"

section \<open>Agents\<close>

datatype agent_status = AgDraft | AgActive | AgPaused | AgDisabled | AgError

record agent =
  ag_id :: agent_id
  ag_name :: ustr
  ag_description :: ustr
  ag_adapter :: plugin_id
  ag_persona :: "ustr option"
  ag_namespace :: namespace_id
  ag_owner :: ustr
  ag_permissions :: "permission list"
  ag_skills :: "ustr list"
  ag_reports_to :: "agent_id option"
  ag_status :: agent_status
  ag_created_at :: ustr

section \<open>Tasks and runs\<close>

datatype task_status =
  TCreated | TQueued | TLeased | TRunning | TWaitingForTool | TWaitingForApproval
| TBlocked | TCompleted | TFailed | TCancelled | TExpired

record task =
  t_id :: task_id
  t_title :: ustr
  t_input :: json
  t_status :: task_status
  t_priority :: nat
  t_created_by :: ustr
  t_assigned :: "agent_id option"
  t_namespace :: namespace_id
  t_required :: "permission list"
  t_parent :: "task_id option"
  t_deadline :: "ustr option"
  t_created_at :: ustr
  t_updated_at :: ustr

datatype run_status = RPending | RRunning | RWaitingForApproval | RCompleted | RFailed | RCancelled

datatype adapter_kind = LocalPrime | ClaudeCli | CodexCli | CommandKind

record run_session =
  adapter_session_id :: ustr
  session_source :: ustr
  resume_supported :: bool

record run =
  r_id :: run_id
  r_task :: task_id
  r_agent :: agent_id
  r_adapter :: plugin_id
  r_status :: run_status
  r_started_at :: "ustr option"
  r_ended_at :: "ustr option"
  r_summary :: "ustr option"
  r_error :: "ustr option"
  r_duration_ms :: "nat option"
  r_retried_from :: "run_id option"
  r_resumed_from :: "run_id option"
  r_session :: "run_session option"
  r_failure_class :: "run_failure_class option"
  r_retry :: "run_retry_state option"
  r_last_activity :: "nat option"

section \<open>Approvals, the journal, transcripts\<close>

datatype approval_status = ApPending | ApApproved | ApRejected

record approval =
  ap_id :: approval_id
  ap_requested_by :: ustr
  ap_action :: ustr
  ap_reason :: ustr
  ap_risk :: risk_level
  ap_status :: approval_status
  ap_approved_by :: "ustr option"
  ap_namespace :: "namespace_id option"
  ap_created_at :: ustr
  ap_resolved_at :: "ustr option"
  ap_note :: "ustr option"

datatype audit_result = AuSuccess | AuDenied | AuFailed | AuApproved | AuRejected

record audit_event =
  au_id :: ustr
  au_ts :: ustr
  au_actor_type :: ustr
  au_actor :: ustr
  au_action :: ustr
  au_target_type :: "ustr option"
  au_target :: "ustr option"
  au_namespace :: "namespace_id option"
  au_result :: audit_result

record run_event =
  ev_id :: ustr
  ev_run :: run_id
  ev_ts :: ustr
  ev_kind :: ustr
  ev_source :: ustr

section \<open>Adapters\<close>

definition LOCAL_PRIME_ADAPTER_ID :: ustr where "LOCAL_PRIME_ADAPTER_ID = cps ''relux-adapter-local-prime''"
definition CLAUDE_CLI_ADAPTER_ID :: ustr where "CLAUDE_CLI_ADAPTER_ID = cps ''relux-adapter-claude-cli''"
definition CODEX_CLI_ADAPTER_ID :: ustr where "CODEX_CLI_ADAPTER_ID = cps ''relux-adapter-codex-cli''"

definition recognize_adapter_kind :: "plugin_id \<Rightarrow> adapter_kind option" where
  "recognize_adapter_kind p =
     (if plugin_text p = LOCAL_PRIME_ADAPTER_ID then Some LocalPrime
      else if plugin_text p = CLAUDE_CLI_ADAPTER_ID then Some ClaudeCli
      else if plugin_text p = CODEX_CLI_ADAPTER_ID then Some CodexCli
      else None)"

fun default_command :: "adapter_kind \<Rightarrow> ustr option" where
  "default_command ClaudeCli = Some (cps ''claude'')"
| "default_command CodexCli = Some (cps ''codex'')"
| "default_command CommandKind = None"
| "default_command LocalPrime = None"

fun source_label :: "adapter_kind \<Rightarrow> ustr" where
  "source_label LocalPrime = cps ''local-prime''"
| "source_label ClaudeCli = cps ''claude-cli''"
| "source_label CodexCli = cps ''codex-cli''"
| "source_label CommandKind = cps ''command''"

fun kind_resume_supported :: "adapter_kind \<Rightarrow> bool" where
  "kind_resume_supported ClaudeCli = True"
| "kind_resume_supported _ = False"

record adapter_runtime_config =
  rt_plugin :: ustr
  rt_kind :: adapter_kind
  rt_enabled :: bool
  rt_command :: "ustr option"
  rt_timeout_seconds :: nat
  rt_max_output_bytes :: nat
  rt_working_dir :: "ustr option"

definition resolved_command :: "adapter_runtime_config \<Rightarrow> ustr option" where
  "resolved_command c = (case rt_command c of Some s \<Rightarrow> Some s | None \<Rightarrow> default_command (rt_kind c))"

end
