(* ===== verification/Relux_Task_Input.thy ===== *)
theory Relux_Task_Input
  imports Relux_Domain Rust_Pattern
begin

text \<open>
  What a task's input may ask the local adapter to do (\<open>relux-core/src/task.rs\<close>): one tool call, a bounded
  plan of tool calls, or a request it cannot fulfil; and the session an adapter reports for a run
  (\<open>run_session.rs\<close>). The Unicode tables of the standard library are a parameter, as is the length of
  the text \<open>serde_json\<close> writes for a value.
\<close>

section \<open>Tool calls and plans\<close>

record task_tool_call =
  tc_plugin :: ustr
  tc_tool :: ustr
  tc_args :: json

definition json_empty :: json where
  "json_empty = JObject []"

definition tool_call_to_input :: "task_tool_call \<Rightarrow> json" where
  "tool_call_to_input c =
     (let args = (if tc_args c = JNull then json_empty else tc_args c)
      in JObject [(cps ''tool_call'',
           JObject [(cps ''plugin'', JString (tc_plugin c)), (cps ''tool'', JString (tc_tool c)), (cps ''args'', args)])])"

definition MAX_TASK_TOOL_PLAN_STEPS :: nat where "MAX_TASK_TOOL_PLAN_STEPS = 16"
definition MAX_TASK_TOOL_PLAN_STEPS_CEIL :: nat where "MAX_TASK_TOOL_PLAN_STEPS_CEIL = 64"
definition MAX_TASK_TOOL_PLAN_ARGS_BYTES :: nat where "MAX_TASK_TOOL_PLAN_ARGS_BYTES = 256 * 1024"

datatype task_tool_plan_error =
  PlanEmpty | TooManySteps nat nat | EmptyStep nat | ArgsTooLarge nat nat nat

fun validate_steps ::
  "(json \<Rightarrow> nat) \<Rightarrow> nat \<Rightarrow> task_tool_call list \<Rightarrow> task_tool_plan_error + unit" where
  "validate_steps json_len index [] = Inr ()"
| "validate_steps json_len index (step # steps) =
     (if trim (tc_plugin step) = [] \<or> trim (tc_tool step) = [] then Inl (EmptyStep index)
      else if json_len (tc_args step) > MAX_TASK_TOOL_PLAN_ARGS_BYTES
      then Inl (ArgsTooLarge index MAX_TASK_TOOL_PLAN_ARGS_BYTES (json_len (tc_args step)))
      else validate_steps json_len (Suc index) steps)"

definition validate_with_limit ::
  "(json \<Rightarrow> nat) \<Rightarrow> nat \<Rightarrow> task_tool_call list \<Rightarrow> task_tool_plan_error + unit" where
  "validate_with_limit json_len max_steps steps =
     (let mx = clamp 1 MAX_TASK_TOOL_PLAN_STEPS_CEIL max_steps
      in if steps = [] then Inl PlanEmpty
         else if length steps > mx then Inl (TooManySteps mx (length steps))
         else validate_steps json_len 0 steps)"

definition validate_plan :: "(json \<Rightarrow> nat) \<Rightarrow> task_tool_call list \<Rightarrow> task_tool_plan_error + unit" where
  "validate_plan json_len = validate_with_limit json_len MAX_TASK_TOOL_PLAN_STEPS"

definition tool_plan_to_input :: "task_tool_call list \<Rightarrow> json" where
  "tool_plan_to_input steps =
     JObject [(cps ''tool_plan'', JArray (map (\<lambda>s.
       let args = (if tc_args s = JNull then json_empty else tc_args s)
       in JObject [(cps ''plugin'', JString (trim (tc_plugin s))), (cps ''tool'', JString (trim (tc_tool s))), (cps ''args'', args)])
       steps))]"

text \<open>One step, or the body of a single call.\<close>

definition parse_tool_call_body :: "json \<Rightarrow> task_tool_call option" where
  "parse_tool_call_body step =
     (case json_get step (cps ''plugin'') of None \<Rightarrow> None | Some p \<Rightarrow>
      (case json_as_str p of None \<Rightarrow> None | Some p \<Rightarrow>
       (case json_get step (cps ''tool'') of None \<Rightarrow> None | Some t \<Rightarrow>
        (case json_as_str t of None \<Rightarrow> None | Some t \<Rightarrow>
          if trim p = [] \<or> trim t = [] then None
          else Some \<lparr>tc_plugin = trim p, tc_tool = trim t,
                     tc_args = (case json_get step (cps ''args'') of Some a \<Rightarrow> a | None \<Rightarrow> json_empty)\<rparr>))))"

fun parse_steps :: "json list \<Rightarrow> task_tool_call list option" where
  "parse_steps [] = Some []"
| "parse_steps (s # ss) =
     (case parse_tool_call_body s of None \<Rightarrow> None
      | Some c \<Rightarrow> (case parse_steps ss of None \<Rightarrow> None | Some cs \<Rightarrow> Some (c # cs)))"

definition parse_task_tool_plan :: "json \<Rightarrow> task_tool_call list option" where
  "parse_task_tool_plan input =
     (case json_get input (cps ''tool_plan'') of None \<Rightarrow> None | Some v \<Rightarrow>
      (case json_as_array v of None \<Rightarrow> None | Some arr \<Rightarrow>
        if arr = [] \<or> length arr > MAX_TASK_TOOL_PLAN_STEPS_CEIL then None else parse_steps arr))"

definition parse_task_tool_call :: "json \<Rightarrow> task_tool_call option" where
  "parse_task_tool_call input =
     (case json_get input (cps ''tool_call'') of None \<Rightarrow> None | Some tc \<Rightarrow> parse_tool_call_body tc)"

section \<open>What the local adapter cannot do\<close>

text \<open>The case tables of the standard library, beside the classes of \<open>ucd\<close>.\<close>

record unicode = ucd +
  to_lowercase :: "ustr \<Rightarrow> ustr"
  char_to_uppercase :: "nat \<Rightarrow> ustr"

definition is_unfulfillable_local_request :: "json \<Rightarrow> bool" where
  "is_unfulfillable_local_request input \<longleftrightarrow>
     (case json_get input (cps ''prime_request'') of None \<Rightarrow> False | Some v \<Rightarrow>
      (case json_as_str v of None \<Rightarrow> False | Some s \<Rightarrow> trim s \<noteq> []))
     \<and> parse_task_tool_call input = None \<and> parse_task_tool_plan input = None"

text \<open>\<open>split\<close> on a class of characters.\<close>

fun split_class :: "(nat \<Rightarrow> bool) \<Rightarrow> ustr \<Rightarrow> ustr \<Rightarrow> ustr list" where
  "split_class P acc [] = [acc]"
| "split_class P acc (c # cs) = (if P c then acc # split_class P [] cs else split_class P (acc @ [c]) cs)"

definition title_requires_external_execution :: "unicode \<Rightarrow> ustr \<Rightarrow> bool" where
  "title_requires_external_execution u title =
     (let t = to_lowercase u title;
          words = filter (\<lambda>w. w \<noteq> []) (split_class (\<lambda>c. \<not> is_alphanumeric (ucd.truncate u) c) [] t);
          hasw = (\<lambda>w. cps w \<in> set words);
          artifact = hasw ''plugin'' \<or> hasw ''plugins'' \<or> hasw ''repo'' \<or> hasw ''repository''
            \<or> hasw ''package'' \<or> hasw ''dependency'' \<or> hasw ''dependencies'' \<or> hasw ''npm''
            \<or> hasw ''cargo'' \<or> hasw ''crate'' \<or> hasw ''pip''
      in contains (cps ''http://'') t \<or> contains (cps ''https://'') t \<or> contains (cps ''github.com'') t
         \<or> contains (cps ''git clone'') t
         \<or> hasw ''clone'' \<or> hasw ''download'' \<or> hasw ''scrape'' \<or> hasw ''deploy'' \<or> hasw ''publish''
         \<or> ((hasw ''import'' \<or> hasw ''install'' \<or> hasw ''fetch'') \<and> artifact))"

definition local_prime_cannot_fulfill :: "unicode \<Rightarrow> ustr \<Rightarrow> json \<Rightarrow> bool" where
  "local_prime_cannot_fulfill u title input \<longleftrightarrow>
     (if parse_task_tool_call input \<noteq> None \<or> parse_task_tool_plan input \<noteq> None then False
      else is_unfulfillable_local_request input \<or> title_requires_external_execution u title)"

section \<open>Sessions\<close>

definition MAX_SESSION_ID_LEN :: nat where "MAX_SESSION_ID_LEN = 128"

definition sanitize_session_id :: "ustr \<Rightarrow> ustr option" where
  "sanitize_session_id raw =
     (let cleaned = take MAX_SESSION_ID_LEN
            (filter (\<lambda>c. is_ascii_alphanumeric c \<or> c \<in> set (cps ''-_.'')) (trim raw));
          cleaned = dropWhile (\<lambda>c. c \<in> set (cps ''-.'')) cleaned
      in if cleaned = [] then None else Some cleaned)"

definition session_from_envelope :: "ustr option \<Rightarrow> adapter_kind \<Rightarrow> run_session option" where
  "session_from_envelope sid kind =
     (case sid of None \<Rightarrow> None | Some raw \<Rightarrow>
      (case sanitize_session_id raw of None \<Rightarrow> None | Some s \<Rightarrow>
        Some \<lparr>adapter_session_id = s, session_source = source_label kind,
              resume_supported = kind_resume_supported kind\<rparr>))"

datatype resume_disposition = Supported ustr ustr | NotSupported ustr

definition plan_resume :: "run_session option \<Rightarrow> bool \<Rightarrow> resume_disposition" where
  "plan_resume session terminal =
     (if \<not> terminal then NotSupported
        (cps ''the run is still in flight; wait for it to finish before resuming its session'')
      else case session of
        None \<Rightarrow> NotSupported (cps ''no provider session id was captured for this run, so there is nothing to resume; start a fresh run instead'')
      | Some s \<Rightarrow>
          if \<not> resume_supported s then NotSupported
            (cps ''the '' @ session_source s @ cps '' adapter does not support safe non-interactive session resume; start a fresh run instead (a fresh re-run is a distinct action)'')
          else Supported (adapter_session_id s) (session_source s))"

section \<open>A validated plan is read back\<close>

lemma dropWhile_id: "(xs \<noteq> [] \<Longrightarrow> \<not> P (hd xs)) \<Longrightarrow> dropWhile P xs = xs"
  by (cases xs) auto

lemma dropWhile_hd: "dropWhile P xs \<noteq> [] \<Longrightarrow> \<not> P (hd (dropWhile P xs))"
  by (induction xs) auto

lemma trim_trim [simp]: "trim (trim s) = trim s"
proof -
  let ?a = "trim_start s"
  have "?a = trim s @ rev (takeWhile is_whitespace (rev ?a))"
    unfolding trim_def by (metis rev_append rev_rev_ident takeWhile_dropWhile_id)
  then have "trim s \<noteq> [] \<Longrightarrow> hd (trim s) = hd ?a \<and> ?a \<noteq> []" by (metis append_is_Nil_conv hd_append2)
  then have "trim s \<noteq> [] \<Longrightarrow> \<not> is_whitespace (hd (trim s))"
    unfolding trim_start_def using dropWhile_hd [of is_whitespace s] by simp
  then have "trim_start (trim s) = trim s" unfolding trim_start_def by (rule dropWhile_id)
  moreover have "dropWhile is_whitespace (rev (trim s)) = rev (trim s)"
    unfolding trim_def rev_rev_ident by (rule dropWhile_id [OF dropWhile_hd])
  ultimately show ?thesis by (simp add: trim_def [of "trim s"])
qed

lemma parse_step_printed:
  "trim (tc_plugin s) \<noteq> [] \<Longrightarrow> trim (tc_tool s) \<noteq> [] \<Longrightarrow>
    parse_tool_call_body (JObject [(cps ''plugin'', JString (trim (tc_plugin s))),
        (cps ''tool'', JString (trim (tc_tool s))), (cps ''args'', a)])
      = Some \<lparr>tc_plugin = trim (tc_plugin s), tc_tool = trim (tc_tool s), tc_args = a\<rparr>"
  by (simp add: parse_tool_call_body_def cps_def)

lemma validate_steps_named:
  "validate_steps json_len i steps = Inr () \<Longrightarrow> s \<in> set steps \<Longrightarrow> trim (tc_plugin s) \<noteq> [] \<and> trim (tc_tool s) \<noteq> []"
  by (induction steps arbitrary: i) (auto split: if_splits)

lemma parse_steps_map:
  "(\<And>s. s \<in> set ss \<Longrightarrow> parse_tool_call_body (f s) = Some (g s)) \<Longrightarrow> parse_steps (map f ss) = Some (map g ss)"
  by (induction ss) auto

text \<open>A plan that passes the check under any operator's limit is read back from the task's input as the
  steps that were put in, trimmed and with empty arguments for absent ones, and it has between one and
  64 steps.\<close>

lemma tool_plan_round_trip:
  assumes "validate_with_limit json_len limit steps = Inr ()"
  shows "parse_task_tool_plan (tool_plan_to_input steps)
      = Some (map (\<lambda>s. \<lparr>tc_plugin = trim (tc_plugin s), tc_tool = trim (tc_tool s),
          tc_args = (if tc_args s = JNull then json_empty else tc_args s)\<rparr>) steps)
    \<and> 1 \<le> length steps \<and> length steps \<le> MAX_TASK_TOOL_PLAN_STEPS_CEIL"
proof -
  have v: "steps \<noteq> []" "length steps \<le> clamp 1 MAX_TASK_TOOL_PLAN_STEPS_CEIL limit"
    "validate_steps json_len 0 steps = Inr ()"
    using assms by (auto simp: validate_with_limit_def Let_def split: if_splits)
  then have ceil: "length steps \<le> MAX_TASK_TOOL_PLAN_STEPS_CEIL"
    using clamp_in [of 1 MAX_TASK_TOOL_PLAN_STEPS_CEIL limit] by (simp add: MAX_TASK_TOOL_PLAN_STEPS_CEIL_def)
  have "parse_steps (map (\<lambda>s. JObject [(cps ''plugin'', JString (trim (tc_plugin s))),
        (cps ''tool'', JString (trim (tc_tool s))), (cps ''args'', if tc_args s = JNull then json_empty else tc_args s)]) steps)
      = Some (map (\<lambda>s. \<lparr>tc_plugin = trim (tc_plugin s), tc_tool = trim (tc_tool s),
          tc_args = (if tc_args s = JNull then json_empty else tc_args s)\<rparr>) steps)"
    by (rule parse_steps_map) (use validate_steps_named [OF v(3)] in \<open>blast intro: parse_step_printed\<close>)
  with v(1) ceil show ?thesis
    by (simp add: parse_task_tool_plan_def tool_plan_to_input_def Let_def Suc_le_eq)
qed

definition search_step :: task_tool_call where
  "search_step = \<lparr>tc_plugin = cps '' mcp:web '', tc_tool = cps ''search'', tc_args = JNull\<rparr>"

lemma tool_plan_round_trip_witness:
  "parse_task_tool_plan (tool_plan_to_input [search_step])
    = Some [\<lparr>tc_plugin = cps ''mcp:web'', tc_tool = cps ''search'', tc_args = json_empty\<rparr>]"
proof -
  have t: "trim (cps '' mcp:web '') = cps ''mcp:web''" "trim (cps ''search'') = cps ''search''"
    by (simp_all add: trim_def trim_start_def ascii_simps)
  have "validate_with_limit (\<lambda>_. 2) 16 [search_step] = Inr ()"
    by (simp add: validate_with_limit_def search_step_def t clamp_def MAX_TASK_TOOL_PLAN_STEPS_CEIL_def
        MAX_TASK_TOOL_PLAN_ARGS_BYTES_def) (simp add: cps_def)
  from tool_plan_round_trip [OF this] show ?thesis by (simp add: search_step_def t)
qed

section \<open>Session ids are safe as an argument\<close>

lemma sanitized_session:
  "sanitize_session_id raw = Some s \<Longrightarrow>
    s \<noteq> [] \<and> length s \<le> MAX_SESSION_ID_LEN \<and> hd s \<noteq> 45
    \<and> list_all (\<lambda>c. is_ascii_alphanumeric c \<or> c \<in> set (cps ''-_.'')) s"
proof -
  let ?f = "filter (\<lambda>c. is_ascii_alphanumeric c \<or> c \<in> set (cps ''-_.'')) (trim raw)"
  let ?d = "\<lambda>c. c \<in> set (cps ''-.'')"
  assume "sanitize_session_id raw = Some s"
  then have s: "s = dropWhile ?d (take MAX_SESSION_ID_LEN ?f)" "s \<noteq> []"
    by (auto simp: sanitize_session_id_def Let_def split: if_splits)
  have "\<not> ?d (hd s)" using dropWhile_hd [of ?d "take MAX_SESSION_ID_LEN ?f"] s by simp
  then have "hd s \<noteq> 45" by (auto simp: cps_def)
  moreover have "length s \<le> MAX_SESSION_ID_LEN"
    unfolding s(1) by (rule order_trans [OF length_dropWhile_le]) simp
  moreover have "set s \<subseteq> set ?f" unfolding s(1) by (meson set_dropWhileD set_take_subset subset_code(1))
  then have "list_all (\<lambda>c. is_ascii_alphanumeric c \<or> c \<in> set (cps ''-_.'')) s"
    unfolding list_all_iff by fastforce
  ultimately show ?thesis using s(2) by blast
qed

end
