(* ===== verification/Relux_Limits.thy ===== *)
theory Relux_Limits
  imports Relux_Domain
begin

text \<open>
  The dials of the operator over Prime (\<open>relux-core/src/prime.rs\<close>, the update routes in
  \<open>relux-kernel/src/server.rs\<close>): the policy that bounds a turn in a standard and an extended profile, the
  limits in force, which are always clamped, and the configuration of the autonomy loop. Numbers are
  the values of the machine integers of the source; nothing is computed with them but comparisons.
\<close>

section \<open>The policy\<close>

record prime_agent_policy =
  max_tool_calls :: nat
  max_brain_rounds :: nat
  max_duration_secs :: nat
  extended_max_tool_calls :: nat
  extended_max_brain_rounds :: nat
  extended_max_duration_secs :: nat
  max_tool_plan_steps :: nat
  extended_max_tool_plan_steps :: nat
  max_orchestration_steps :: nat
  extended_max_orchestration_steps :: nat
  max_context_rounds :: nat
  extended_max_context_rounds :: nat
  max_active_jobs :: nat
  extended_max_active_jobs :: nat

definition MIN_STEPS :: nat where "MIN_STEPS = 1"
definition MAX_TOOL_CALLS_CEIL :: nat where "MAX_TOOL_CALLS_CEIL = 512"
definition MAX_BRAIN_ROUNDS_CEIL :: nat where "MAX_BRAIN_ROUNDS_CEIL = 1024"
definition MAX_DURATION_CEIL :: nat where "MAX_DURATION_CEIL = 86400"
definition MAX_TOOL_PLAN_STEPS_CEIL :: nat where "MAX_TOOL_PLAN_STEPS_CEIL = 64"
definition MAX_ORCHESTRATION_STEPS :: nat where "MAX_ORCHESTRATION_STEPS = 16"
definition EXTENDED_MAX_ORCHESTRATION_STEPS :: nat where "EXTENDED_MAX_ORCHESTRATION_STEPS = 64"
definition MAX_ORCHESTRATION_STEPS_CEIL :: nat where "MAX_ORCHESTRATION_STEPS_CEIL = 64"
definition MAX_CONTEXT_ROUNDS_CEIL :: nat where "MAX_CONTEXT_ROUNDS_CEIL = 64"
definition MAX_ACTIVE_JOBS_CEIL :: nat where "MAX_ACTIVE_JOBS_CEIL = 64"

lemmas ceilings =
  MIN_STEPS_def MAX_TOOL_CALLS_CEIL_def MAX_BRAIN_ROUNDS_CEIL_def MAX_DURATION_CEIL_def MAX_TOOL_PLAN_STEPS_CEIL_def
  MAX_ORCHESTRATION_STEPS_def EXTENDED_MAX_ORCHESTRATION_STEPS_def MAX_ORCHESTRATION_STEPS_CEIL_def
  MAX_CONTEXT_ROUNDS_CEIL_def MAX_ACTIVE_JOBS_CEIL_def

definition policy_default :: prime_agent_policy where
  "policy_default = \<lparr>max_tool_calls = 12, max_brain_rounds = 18, max_duration_secs = 180,
     extended_max_tool_calls = 64, extended_max_brain_rounds = 96, extended_max_duration_secs = 1800,
     max_tool_plan_steps = 16, extended_max_tool_plan_steps = 64,
     max_orchestration_steps = MAX_ORCHESTRATION_STEPS,
     extended_max_orchestration_steps = EXTENDED_MAX_ORCHESTRATION_STEPS,
     max_context_rounds = 8, extended_max_context_rounds = 32, max_active_jobs = 4, extended_max_active_jobs = 16\<rparr>"

definition policy_clamped :: "prime_agent_policy \<Rightarrow> prime_agent_policy" where
  "policy_clamped p = \<lparr>
     max_tool_calls = clamp MIN_STEPS MAX_TOOL_CALLS_CEIL (max_tool_calls p),
     max_brain_rounds = clamp MIN_STEPS MAX_BRAIN_ROUNDS_CEIL (max_brain_rounds p),
     max_duration_secs = min (max_duration_secs p) MAX_DURATION_CEIL,
     extended_max_tool_calls = clamp MIN_STEPS MAX_TOOL_CALLS_CEIL (extended_max_tool_calls p),
     extended_max_brain_rounds = clamp MIN_STEPS MAX_BRAIN_ROUNDS_CEIL (extended_max_brain_rounds p),
     extended_max_duration_secs = min (extended_max_duration_secs p) MAX_DURATION_CEIL,
     max_tool_plan_steps = clamp MIN_STEPS MAX_TOOL_PLAN_STEPS_CEIL (max_tool_plan_steps p),
     extended_max_tool_plan_steps = clamp MIN_STEPS MAX_TOOL_PLAN_STEPS_CEIL (extended_max_tool_plan_steps p),
     max_orchestration_steps = clamp MIN_STEPS MAX_ORCHESTRATION_STEPS_CEIL (max_orchestration_steps p),
     extended_max_orchestration_steps = clamp MIN_STEPS MAX_ORCHESTRATION_STEPS_CEIL (extended_max_orchestration_steps p),
     max_context_rounds = clamp MIN_STEPS MAX_CONTEXT_ROUNDS_CEIL (max_context_rounds p),
     extended_max_context_rounds = clamp MIN_STEPS MAX_CONTEXT_ROUNDS_CEIL (extended_max_context_rounds p),
     max_active_jobs = clamp MIN_STEPS MAX_ACTIVE_JOBS_CEIL (max_active_jobs p),
     extended_max_active_jobs = clamp MIN_STEPS MAX_ACTIVE_JOBS_CEIL (extended_max_active_jobs p)\<rparr>"

record prime_agent_limits =
  li_extended :: bool
  li_tool_calls :: nat
  li_brain_rounds :: nat
  li_duration_secs :: nat
  li_tool_plan_steps :: nat
  li_orchestration_steps :: nat
  li_context_rounds :: nat
  li_active_jobs :: nat

definition limits :: "prime_agent_policy \<Rightarrow> bool \<Rightarrow> prime_agent_limits" where
  "limits p extended =
     (let c = policy_clamped p in
      if extended then
        \<lparr>li_extended = True, li_tool_calls = extended_max_tool_calls c, li_brain_rounds = extended_max_brain_rounds c,
         li_duration_secs = extended_max_duration_secs c, li_tool_plan_steps = extended_max_tool_plan_steps c,
         li_orchestration_steps = extended_max_orchestration_steps c, li_context_rounds = extended_max_context_rounds c,
         li_active_jobs = extended_max_active_jobs c\<rparr>
      else
        \<lparr>li_extended = False, li_tool_calls = max_tool_calls c, li_brain_rounds = max_brain_rounds c,
         li_duration_secs = max_duration_secs c, li_tool_plan_steps = max_tool_plan_steps c,
         li_orchestration_steps = max_orchestration_steps c, li_context_rounds = max_context_rounds c,
         li_active_jobs = max_active_jobs c\<rparr>)"

definition tool_plan_steps :: "prime_agent_policy \<Rightarrow> bool \<Rightarrow> nat" where
  "tool_plan_steps p extended = li_tool_plan_steps (limits p extended)"

definition orchestration_steps :: "prime_agent_policy \<Rightarrow> bool \<Rightarrow> nat" where
  "orchestration_steps p extended = li_orchestration_steps (limits p extended)"

definition context_rounds :: "prime_agent_policy \<Rightarrow> bool \<Rightarrow> nat" where
  "context_rounds p extended = li_context_rounds (limits p extended)"

definition active_jobs :: "prime_agent_policy \<Rightarrow> bool \<Rightarrow> nat" where
  "active_jobs p extended = li_active_jobs (limits p extended)"

section \<open>The autonomy loop's configuration\<close>

record prime_autonomy_config =
  autonomy_enabled :: bool
  interval_seconds :: nat
  max_tasks_per_tick :: nat
  auto_assign_unassigned :: bool
  last_tick_at :: "ustr option"
  last_tick_summary :: "ustr option"

definition autonomy_default :: prime_autonomy_config where
  "autonomy_default = \<lparr>autonomy_enabled = False, interval_seconds = 60, max_tasks_per_tick = 1,
     auto_assign_unassigned = False, last_tick_at = None, last_tick_summary = None\<rparr>"

record update_autonomy_req =
  up_enabled :: "bool option"
  up_interval :: "nat option"
  up_max_tasks :: "nat option"
  up_auto_assign :: "bool option"

definition given :: "'a option \<Rightarrow> 'a \<Rightarrow> 'a" where
  "given new old = (case new of Some v \<Rightarrow> v | None \<Rightarrow> old)"

definition update_autonomy :: "update_autonomy_req \<Rightarrow> prime_autonomy_config \<Rightarrow> prime_autonomy_config" where
  "update_autonomy req c = c\<lparr>
     autonomy_enabled := given (up_enabled req) (autonomy_enabled c),
     interval_seconds := given (map_option (clamp 5 3600) (up_interval req)) (interval_seconds c),
     max_tasks_per_tick := given (map_option (clamp 1 25) (up_max_tasks req)) (max_tasks_per_tick c),
     auto_assign_unassigned := given (up_auto_assign req) (auto_assign_unassigned c)\<rparr>"

text \<open>The route's request names any of the policy's fields; what it leads to is clamped.\<close>

record update_policy_req =
  rq_max_tool_calls :: "nat option"
  rq_max_brain_rounds :: "nat option"
  rq_max_duration_secs :: "nat option"
  rq_extended_max_tool_calls :: "nat option"
  rq_extended_max_brain_rounds :: "nat option"
  rq_extended_max_duration_secs :: "nat option"
  rq_max_tool_plan_steps :: "nat option"
  rq_extended_max_tool_plan_steps :: "nat option"
  rq_max_orchestration_steps :: "nat option"
  rq_extended_max_orchestration_steps :: "nat option"
  rq_max_context_rounds :: "nat option"
  rq_extended_max_context_rounds :: "nat option"
  rq_max_active_jobs :: "nat option"
  rq_extended_max_active_jobs :: "nat option"

definition update_policy :: "update_policy_req \<Rightarrow> prime_agent_policy \<Rightarrow> prime_agent_policy" where
  "update_policy r p = policy_clamped \<lparr>
     max_tool_calls = given (rq_max_tool_calls r) (max_tool_calls p),
     max_brain_rounds = given (rq_max_brain_rounds r) (max_brain_rounds p),
     max_duration_secs = given (rq_max_duration_secs r) (max_duration_secs p),
     extended_max_tool_calls = given (rq_extended_max_tool_calls r) (extended_max_tool_calls p),
     extended_max_brain_rounds = given (rq_extended_max_brain_rounds r) (extended_max_brain_rounds p),
     extended_max_duration_secs = given (rq_extended_max_duration_secs r) (extended_max_duration_secs p),
     max_tool_plan_steps = given (rq_max_tool_plan_steps r) (max_tool_plan_steps p),
     extended_max_tool_plan_steps = given (rq_extended_max_tool_plan_steps r) (extended_max_tool_plan_steps p),
     max_orchestration_steps = given (rq_max_orchestration_steps r) (max_orchestration_steps p),
     extended_max_orchestration_steps = given (rq_extended_max_orchestration_steps r) (extended_max_orchestration_steps p),
     max_context_rounds = given (rq_max_context_rounds r) (max_context_rounds p),
     extended_max_context_rounds = given (rq_extended_max_context_rounds r) (extended_max_context_rounds p),
     max_active_jobs = given (rq_max_active_jobs r) (max_active_jobs p),
     extended_max_active_jobs = given (rq_extended_max_active_jobs r) (extended_max_active_jobs p)\<rparr>"

section \<open>Bounds\<close>

lemma clamp_id [simp]: "lo \<le> hi \<Longrightarrow> clamp lo hi (clamp lo hi x) = clamp lo hi x"
  by (auto simp: clamp_def)

lemma orchestration_steps_bounds:
  "1 \<le> orchestration_steps p extended \<and> orchestration_steps p extended \<le> MAX_ORCHESTRATION_STEPS_CEIL"
  by (simp add: orchestration_steps_def limits_def policy_clamped_def clamp_def ceilings Let_def)

lemma policy_clamped_idem: "policy_clamped (policy_clamped p) = policy_clamped p"
  by (simp add: policy_clamped_def ceilings)

lemma policy_default_clamped: "policy_clamped policy_default = policy_default"
  by (simp add: policy_clamped_def policy_default_def clamp_def ceilings)

text \<open>What the loop runs under is within the hard ceilings, whatever the policy holds, and clamping a policy
  changes no limit; in particular the policy a request leaves is the one in force.\<close>

lemma limits_within_ceilings:
  "1 \<le> li_tool_calls (limits p e)" "li_tool_calls (limits p e) \<le> MAX_TOOL_CALLS_CEIL"
  "1 \<le> li_brain_rounds (limits p e)" "li_brain_rounds (limits p e) \<le> MAX_BRAIN_ROUNDS_CEIL"
  "li_duration_secs (limits p e) \<le> MAX_DURATION_CEIL"
  "1 \<le> li_tool_plan_steps (limits p e)" "li_tool_plan_steps (limits p e) \<le> MAX_TOOL_PLAN_STEPS_CEIL"
  "1 \<le> li_context_rounds (limits p e)" "li_context_rounds (limits p e) \<le> MAX_CONTEXT_ROUNDS_CEIL"
  "1 \<le> li_active_jobs (limits p e)" "li_active_jobs (limits p e) \<le> MAX_ACTIVE_JOBS_CEIL"
  by (simp_all add: limits_def policy_clamped_def clamp_def ceilings Let_def)

lemma limits_clamped: "limits (policy_clamped p) e = limits p e"
  by (simp add: limits_def policy_clamped_idem)

end
