(* ===== verification/Relux_State.thy ===== *)
theory Relux_State
  imports Relux_Task_Input Relux_Limits
begin

text \<open>
  The state of the control plane (\<open>KernelState\<close> in \<open>relux-kernel/src/state.rs\<close>), its errors
  (\<open>lib.rs\<close>), its logical clock (\<open>clock.rs\<close>) and its two journals. An operation takes the state and
  returns its result, an error or a value, with the new state. Everything outside the process is the
  parameter \<open>world\<close>: an answer depends on the logical time of the question, and there is
  a tick between any two questions, so the world may answer differently every time.
\<close>

section \<open>Errors\<close>

datatype kernel_error =
  UnknownPlugin ustr | UnknownAgent ustr | AgentExists ustr | InvalidAgentConfig ustr
| UnknownTask ustr | UnknownRun ustr | NoActiveRun ustr | RunNotRetryable ustr run_status
| RunResumeNotSupported ustr ustr | UnknownApproval ustr | UnknownOrchestration ustr
| OrchestrationNotMultiAgent | TaskNotAssigned ustr | TaskStatusNotSettable ustr task_status
| TaskTerminalStatus ustr task_status | TaskNotReopenable ustr task_status
| TaskParentScope ustr ustr ustr | TaskParentCycle ustr ustr | ToolNotFound ustr ustr
| ToolRuntimeUnavailable ustr ustr | ToolRuntimeDisabled ustr | ToolRuntimeInvocation ustr ustr ustr
| InvalidAdapterConfig ustr ustr | AdapterRuntimeNotConfigured ustr | AdapterRuntimeDisabled ustr
| AdapterBinaryMissing ustr ustr | AdapterExecutionFailed ustr ustr | LocalAdapterUnsupported ustr
| PermissionDenied ustr ustr | PermissionAlreadyGranted ustr ustr | PermissionNotGranted ustr ustr
| TaskNotAssignable ustr task_status | PluginNotInstalled ustr | ToolRequiresApproval ustr ustr
| ToolDoesNotRequireApproval ustr ustr | ToolInvocationArgsTooLarge ustr ustr nat nat
| NoBoundToolInvocation ustr | ToolInvocationNotApproved ustr approval_status
| ToolInvocationConsumed ustr | ToolInvocationArgsTampered ustr | UnknownPersistentGrant ustr
| UnknownMcpServer ustr | McpServerDisabled ustr | InvalidMcpToolName ustr ustr
| NotAnAdapter ustr | AdapterNotConfigurable ustr ustr

section \<open>The state\<close>

record tool_definition =
  td_name :: ustr
  td_permission :: permission
  td_risk :: risk_level
  td_approval :: approval_requirement

datatype plugin_kind =
  Adapter | ToolSet | ServiceProvider | ExecutionEnvironment | MemoryProvider | PolicyProvider | ObservabilityProvider
| UiExtension | WorkflowExtension | IntegrationBridge

datatype plugin_source_kind = Bundled | LocalDir | Zip | Github

text \<open>Of a manifest, what the operations read.\<close>

record plugin_manifest =
  pm_id :: plugin_id
  pm_version :: ustr
  pm_kind :: plugin_kind
  pm_tools :: "tool_definition list"

record installed_plugin =
  ip_id :: plugin_id
  ip_version :: ustr
  ip_kind :: plugin_kind
  ip_installed_at :: ustr
  ip_source_kind :: plugin_source_kind
  ip_source_label :: ustr
  ip_install_dir :: ustr
  ip_enabled :: bool

record mcp_server =
  ms_id :: ustr
  ms_enabled :: bool
  ms_overrides :: "(ustr, risk_level \<times> approval_requirement) hash_map"

record pending_tool_invocation =
  pi_plugin :: plugin_id
  pi_tool :: ustr
  pi_agent :: agent_id
  pi_permission :: ustr
  pi_input :: json
  pi_args_sha256 :: ustr
  pi_requested_by :: ustr
  pi_risk :: risk_level
  pi_created_at :: ustr
  pi_consumed :: bool

datatype orchestration_role = Research | Implementation | Testing | Review | Documentation | Operations | General

datatype step_outcome = StPending | StCompleted | StFailed | StBlocked

record orchestration_step =
  st_task :: task_id
  st_agent :: agent_id
  st_role :: orchestration_role
  st_title :: ustr
  st_outcome :: step_outcome
  st_depends_on :: "nat list"
  st_run :: "run_id option"
  st_note :: "ustr option"
  st_started_at :: "ustr option"
  st_finished_at :: "ustr option"
  st_round :: "nat option"

datatype orchestration_status = OPlanned | ORunning | OCompleted | ONeedsAttention

record orchestration =
  o_id :: orchestration_id
  o_goal :: ustr
  o_created_by :: ustr
  o_namespace :: namespace_id
  o_status :: orchestration_status
  o_steps :: "orchestration_step list"
  o_notes :: "ustr list"
  o_created_at :: ustr
  o_updated_at :: ustr
  o_last_batch_summary :: "ustr option"

record kernel =
  plugins :: "(plugin_id, plugin_manifest) hash_map"
  installed_plugins :: "(plugin_id, installed_plugin) hash_map"
  mcp_servers :: "(ustr, mcp_server) hash_map"
  adapter_runtime_configs :: "(plugin_id, adapter_runtime_config) hash_map"
  agents :: "(agent_id, agent) hash_map"
  tasks :: "(task_id, task) hash_map"
  runs :: "(run_id, run) hash_map"
  approvals :: "(approval_id, approval) hash_map"
  pending_tool_invocations :: "(approval_id, pending_tool_invocation) hash_map"
  persistent_grants :: "(ustr, persistent_grant) hash_map"
  orchestrations :: "(orchestration_id, orchestration) hash_map"
  run_events :: "run_event list"
  audit_log :: "audit_event list"
  run_watchdog :: run_watchdog_config
  autonomy_config :: prime_autonomy_config
  agent_policy :: prime_agent_policy
  clock :: nat
  next_task :: nat
  next_run :: nat
  next_approval :: nat
  next_audit :: nat
  next_event :: nat
  next_orchestration :: nat
  next_grant :: nat

type_synonym 'a result = "(kernel_error + 'a) \<times> kernel"

text \<open>The \<open>?\<close> operator.\<close>

definition try_k :: "'a result \<Rightarrow> ('a \<Rightarrow> kernel \<Rightarrow> 'b result) \<Rightarrow> 'b result" where
  "try_k r f = (case r of (Inl e, k) \<Rightarrow> (Inl e, k) | (Inr x, k) \<Rightarrow> f x k)"

section \<open>Clock, journal, transcripts\<close>

definition render :: "nat \<Rightarrow> ustr" where
  "render t = cps (''2026-06-08T'' @ pad_zeros 2 (t div 3600 mod 24) @ '':''
     @ pad_zeros 2 (t div 60 mod 60) @ '':'' @ pad_zeros 2 (t mod 60) @ ''Z'')"

definition tick :: "kernel \<Rightarrow> ustr \<times> kernel" where
  "tick k = (render (clock k), k\<lparr>clock := clock k + 1\<rparr>)"

definition numbered :: "string \<Rightarrow> nat \<Rightarrow> ustr" where
  "numbered prefix n = cps (prefix @ pad_zeros 4 n)"

definition record_audit ::
  "string \<Rightarrow> ustr \<Rightarrow> ustr \<Rightarrow> string option \<Rightarrow> ustr option \<Rightarrow> namespace_id option \<Rightarrow> audit_result \<Rightarrow> kernel \<Rightarrow> kernel" where
  "record_audit actor_type actor action target_type target ns res k =
     (let k = k\<lparr>next_audit := next_audit k + 1\<rparr>;
          (ts, k) = tick k;
          event = \<lparr>au_id = numbered ''audit_'' (next_audit k), au_ts = ts, au_actor_type = cps actor_type,
            au_actor = actor, au_action = action, au_target_type = map_option cps target_type,
            au_target = target, au_namespace = ns, au_result = res\<rparr>
      in k\<lparr>audit_log := audit_log k @ [event]\<rparr>)"

text \<open>
  What a spawned adapter leaves behind, what \<open>parse_adapter_result\<close> reads in its output, and the world:
  the wall clock, the search path, the runtimes behind the tools, the processes, the brain the operator
  chose, the length and the digest of a value's text. A process on a thread of its own may panic.
\<close>

record adapter_outcome =
  ao_success :: bool
  ao_cancelled :: bool
  ao_timed_out :: bool
  ao_exit_code :: "int option"
  ao_stdout :: ustr
  ao_stdout_truncated :: bool
  ao_duration_ms :: nat

record adapter_result =
  ar_is_error :: "bool option"
  ar_text :: ustr
  ar_session_id :: "ustr option"

record cli_plan =
  pl_run :: run_id
  pl_task :: task_id
  pl_adapter :: plugin_id
  pl_kind :: adapter_kind
  pl_binary :: ustr
  pl_namespace :: "namespace_id option"
  pl_timeout_seconds :: nat
  pl_resume :: "ustr option"

record world =
  w_now :: "nat \<Rightarrow> nat"
  w_unicode :: unicode
  w_on_path :: "nat \<Rightarrow> ustr \<Rightarrow> bool"
  w_tool :: "nat \<Rightarrow> plugin_id \<Rightarrow> ustr \<Rightarrow> json \<Rightarrow> kernel_error + json"
  w_spawn :: "nat \<Rightarrow> cli_plan \<Rightarrow> ustr + adapter_outcome"
  w_panics :: "nat \<Rightarrow> cli_plan \<Rightarrow> bool"
  w_parse_result :: "ustr \<Rightarrow> adapter_kind \<Rightarrow> adapter_result"
  w_brain :: "nat \<Rightarrow> plugin_id option"
  w_json_len :: "json \<Rightarrow> nat"
  w_json_digest :: "json \<Rightarrow> ustr"

definition push_run_event :: "world \<Rightarrow> run_id \<Rightarrow> string \<Rightarrow> ustr \<Rightarrow> kernel \<Rightarrow> kernel" where
  "push_run_event w run kind source k =
     (let k = k\<lparr>next_event := next_event k + 1\<rparr>;
          (ts, k) = tick k;
          k = k\<lparr>run_events := run_events k @ [\<lparr>ev_id = numbered ''revent_'' (next_event k), ev_run = run,
                 ev_ts = ts, ev_kind = cps kind, ev_source = source\<rparr>]\<rparr>
      in k\<lparr>runs := adjust run (\<lambda>r. r\<lparr>r_last_activity := Some (w_now w (clock k))\<rparr>) (runs k)\<rparr>)"

end
