(* ===== verification/Relux_Agents.thy ===== *)
theory Relux_Agents
  imports Relux_State
begin

text \<open>
  The operations of the control plane on agents, their permissions and their place in the hierarchy
  (\<open>relux-kernel/src/state.rs\<close>).
\<close>

section \<open>Agents\<close>

definition reports_to_map :: "kernel \<Rightarrow> reports_to_map" where
  "reports_to_map k = (\<lambda>a. case get (agents k) a of None \<Rightarrow> None | Some ag \<Rightarrow> ag_reports_to ag)"

definition create_agent_with_skills ::
  "ustr \<Rightarrow> ustr \<Rightarrow> ustr \<Rightarrow> plugin_id \<Rightarrow> namespace_id \<Rightarrow> ustr option \<Rightarrow> permission list \<Rightarrow> ustr list
    \<Rightarrow> agent_id option \<Rightarrow> kernel \<Rightarrow> agent_id result" where
  "create_agent_with_skills i name description adapter ns persona permissions skills lead k =
     (let a = AgentId i in
      if \<not> contains_key (plugins k) adapter then (Inl (UnknownPlugin (plugin_text adapter)), k)
      else if contains_key (agents k) a then (Inl (AgentExists i), k)
      else if lead = Some a then (Inl (InvalidAgentConfig (cps ''an operative cannot report to itself'')), k)
      else if (case lead of Some l \<Rightarrow> \<not> contains_key (agents k) l | None \<Rightarrow> False)
      then (Inl (InvalidAgentConfig (cps ''unknown manager '' @ 39 # agent_text (the lead)
              @ 39 # cps ''; choose an existing crew member as the Lead'')), k)
      else
        let (created, k) = tick k;
            ag = \<lparr>ag_id = a, ag_name = name, ag_description = description, ag_adapter = adapter,
              ag_persona = persona, ag_namespace = ns, ag_owner = cps ''founder'', ag_permissions = permissions,
              ag_skills = skills, ag_reports_to = lead, ag_status = AgActive, ag_created_at = created\<rparr>;
            k = record_audit ''kernel'' (cps ''kernel'') (cps ''agent:create'') (Some ''agent'') (Some i) (Some ns) AuSuccess k
        in (Inr a, k\<lparr>agents := hinsert a ag (agents k)\<rparr>))"

definition create_agent ::
  "ustr \<Rightarrow> ustr \<Rightarrow> ustr \<Rightarrow> plugin_id \<Rightarrow> namespace_id \<Rightarrow> ustr option \<Rightarrow> permission list \<Rightarrow> kernel \<Rightarrow> agent_id result" where
  "create_agent i name description adapter ns persona permissions =
     create_agent_with_skills i name description adapter ns persona permissions [] None"

record agent_update =
  up_name :: "ustr option"
  up_description :: "ustr option"
  up_persona :: "ustr option option"
  up_adapter :: "plugin_id option"
  up_status :: "agent_status option"
  up_skills :: "ustr list option"
  up_reports_to :: "agent_id option option"

definition apply_update :: "agent_update \<Rightarrow> agent \<Rightarrow> agent" where
  "apply_update u a =
     a\<lparr>ag_name := (case up_name u of Some n \<Rightarrow> n | None \<Rightarrow> ag_name a),
       ag_description := (case up_description u of Some d \<Rightarrow> d | None \<Rightarrow> ag_description a),
       ag_persona := (case up_persona u of Some p \<Rightarrow> p | None \<Rightarrow> ag_persona a),
       ag_adapter := (case up_adapter u of Some p \<Rightarrow> p | None \<Rightarrow> ag_adapter a),
       ag_status := (case up_status u of Some s \<Rightarrow> s | None \<Rightarrow> ag_status a),
       ag_skills := (case up_skills u of Some s \<Rightarrow> s | None \<Rightarrow> ag_skills a),
       ag_reports_to := (case up_reports_to u of Some l \<Rightarrow> l | None \<Rightarrow> ag_reports_to a)\<rparr>"

definition check_lead :: "agent_id \<Rightarrow> agent_update \<Rightarrow> kernel \<Rightarrow> kernel_error option" where
  "check_lead i u k =
     (case up_reports_to u of
        Some (Some lead) \<Rightarrow>
          if lead = i then Some (InvalidAgentConfig (cps ''an operative cannot report to itself''))
          else if \<not> contains_key (agents k) lead
          then Some (InvalidAgentConfig (cps ''unknown manager '' @ 39 # agent_text lead
                  @ 39 # cps ''; choose an existing crew member as the Lead''))
          else if would_create_cycle i lead (reports_to_map k)
          then Some (InvalidAgentConfig (cps ''setting Lead to '' @ 39 # agent_text lead
                  @ 39 # cps '' would create a reporting cycle''))
          else None
      | _ \<Rightarrow> None)"

definition update_agent_with_skills :: "agent_id \<Rightarrow> agent_update \<Rightarrow> kernel \<Rightarrow> unit result" where
  "update_agent_with_skills i u k =
     (case get (agents k) i of None \<Rightarrow> (Inl (UnknownAgent (agent_text i)), k)
      | Some a \<Rightarrow>
        if (case up_adapter u of Some p \<Rightarrow> \<not> contains_key (plugins k) p | None \<Rightarrow> False)
        then (Inl (UnknownPlugin (plugin_text (the (up_adapter u)))), k)
        else case check_lead i u k of Some e \<Rightarrow> (Inl e, k)
        | None \<Rightarrow>
          let k = k\<lparr>agents := adjust i (apply_update u) (agents k)\<rparr>
          in (Inr (), record_audit ''kernel'' (cps ''kernel'') (cps ''agent:update'') (Some ''agent'')
                (Some (agent_text i)) (Some (ag_namespace a)) AuSuccess k))"


definition grant_permission_to_agent :: "agent_id \<Rightarrow> permission \<Rightarrow> kernel \<Rightarrow> unit result" where
  "grant_permission_to_agent i p k =
     (case get (agents k) i of None \<Rightarrow> (Inl (UnknownAgent (agent_text i)), k)
      | Some a \<Rightarrow>
        if p \<in> set (ag_permissions a) then (Inl (PermissionAlreadyGranted (agent_text i) (as_str p)), k)
        else
          let k = k\<lparr>agents := adjust i (\<lambda>a. a\<lparr>ag_permissions := ag_permissions a @ [p]\<rparr>) (agents k)\<rparr>
          in (Inr (), record_audit ''kernel'' (cps ''kernel'') (cps ''agent:grant_permission'') (Some ''agent'')
                (Some (agent_text i)) (Some (ag_namespace a)) AuSuccess k))"

definition revoke_permission_from_agent :: "agent_id \<Rightarrow> permission \<Rightarrow> kernel \<Rightarrow> unit result" where
  "revoke_permission_from_agent i p k =
     (case get (agents k) i of None \<Rightarrow> (Inl (UnknownAgent (agent_text i)), k)
      | Some a \<Rightarrow>
        let left = filter (\<lambda>q. \<not> matches_exact q p) (ag_permissions a) in
        if length left = length (ag_permissions a) then (Inl (PermissionNotGranted (agent_text i) (as_str p)), k)
        else
          let k = k\<lparr>agents := adjust i (\<lambda>a. a\<lparr>ag_permissions := left\<rparr>) (agents k)\<rparr>
          in (Inr (), record_audit ''kernel'' (cps ''kernel'') (cps ''agent:revoke_permission'') (Some ''agent'')
                (Some (agent_text i)) (Some (ag_namespace a)) AuSuccess k))"

definition subtree_authority :: "agent_id \<Rightarrow> ustr \<Rightarrow> agent_id \<Rightarrow> kernel \<Rightarrow> bool" where
  "subtree_authority manager action target k \<longleftrightarrow>
     (case get (agents k) manager of None \<Rightarrow> False
      | Some m \<Rightarrow> ag_status m = AgActive \<and> contains_key (agents k) target
          \<and> list_ex (\<lambda>g. manager_subtree_authorizes g manager action target (reports_to_map k)) (ag_permissions m))"

definition namespace_of_agent :: "agent_id \<Rightarrow> kernel \<Rightarrow> namespace_id option" where
  "namespace_of_agent i k = map_option ag_namespace (get (agents k) i)"

text \<open>What each of the three operations of a manager does first.\<close>

definition require_authority ::
  "string \<Rightarrow> string \<Rightarrow> string \<Rightarrow> ustr \<Rightarrow> agent_id \<Rightarrow> agent_id \<Rightarrow> (kernel \<Rightarrow> unit result) \<Rightarrow> kernel \<Rightarrow> unit result" where
  "require_authority action audit_action target_type target_text manager target op k =
     (if \<not> subtree_authority manager (cps action) target k then
        (Inl (PermissionDenied (agent_text manager) (cps ''agent:'' @ agent_text manager @ cps '':subtree:'' @ cps action)),
         record_audit ''agent'' (agent_text manager) (cps audit_action) (Some target_type) (Some target_text)
           (namespace_of_agent target k) AuDenied k)
      else op k)"

definition manager_grant_permission_to_subordinate ::
  "agent_id \<Rightarrow> agent_id \<Rightarrow> permission \<Rightarrow> kernel \<Rightarrow> unit result" where
  "manager_grant_permission_to_subordinate manager target p =
     require_authority ''grant_permission'' ''agent:manager_grant_permission'' ''agent'' (agent_text target)
       manager target (grant_permission_to_agent target p)"

definition manager_revoke_permission_from_subordinate ::
  "agent_id \<Rightarrow> agent_id \<Rightarrow> permission \<Rightarrow> kernel \<Rightarrow> unit result" where
  "manager_revoke_permission_from_subordinate manager target p =
     require_authority ''revoke_permission'' ''agent:manager_revoke_permission'' ''agent'' (agent_text target)
       manager target (revoke_permission_from_agent target p)"

text \<open>The same on behalf of the operator, or of the manager's own token: one more entry in the journal.\<close>

definition audited_as ::
  "string \<Rightarrow> ustr \<Rightarrow> string \<Rightarrow> string \<Rightarrow> ustr \<Rightarrow> agent_id \<Rightarrow> (kernel \<Rightarrow> unit result) \<Rightarrow> kernel \<Rightarrow> unit result" where
  "audited_as actor_type actor action target_type target_text target op k =
     (let (res, k) = op k
      in (res, record_audit actor_type actor (cps action) (Some target_type) (Some target_text)
            (namespace_of_agent target k) (if isl res then AuDenied else AuSuccess) k))"

definition manager_grant_permission_to_subordinate_as_operator ::
  "ustr \<Rightarrow> agent_id \<Rightarrow> agent_id \<Rightarrow> permission \<Rightarrow> kernel \<Rightarrow> unit result" where
  "manager_grant_permission_to_subordinate_as_operator operator manager target p =
     audited_as ''operator'' operator ''operator:authorize_manager_grant'' ''agent'' (agent_text target) target
       (manager_grant_permission_to_subordinate manager target p)"

definition manager_grant_permission_to_subordinate_as_agent ::
  "agent_id \<Rightarrow> agent_id \<Rightarrow> permission \<Rightarrow> kernel \<Rightarrow> unit result" where
  "manager_grant_permission_to_subordinate_as_agent manager target p =
     audited_as ''agent'' (agent_text manager) ''agent:token_authenticated_manager_grant'' ''agent'' (agent_text target) target
       (manager_grant_permission_to_subordinate manager target p)"

definition manager_revoke_permission_from_subordinate_as_agent ::
  "agent_id \<Rightarrow> agent_id \<Rightarrow> permission \<Rightarrow> kernel \<Rightarrow> unit result" where
  "manager_revoke_permission_from_subordinate_as_agent manager target p =
     audited_as ''agent'' (agent_text manager) ''agent:token_authenticated_manager_revoke_permission'' ''agent''
       (agent_text target) target (manager_revoke_permission_from_subordinate manager target p)"

end
