(* ===== verification/Relux_Tasks.thy ===== *)
theory Relux_Tasks
  imports Relux_Agents
begin

text \<open>
  The operations of the control plane on tasks (\<open>relux-kernel/src/state.rs\<close>, the status classes of
  \<open>prime_update_slots.rs\<close>): creating them in the tree of tasks, moving them in it, assigning them, and
  the changes of status an operator or a run makes.
\<close>

definition created_by_actor :: "ustr \<Rightarrow> string" where
  "created_by_actor by = (if by = cps ''founder'' \<or> by = cps ''user'' then ''user'' else ''agent'')"

definition task_parent_map :: "kernel \<Rightarrow> task_parent_map" where
  "task_parent_map k = (\<lambda>t. case get (tasks k) t of None \<Rightarrow> None | Some tk \<Rightarrow> t_parent tk)"

text \<open>The checks on a parent, before anything is changed.\<close>

definition check_parent_scope :: "task_id \<Rightarrow> namespace_id \<Rightarrow> kernel \<Rightarrow> kernel_error option" where
  "check_parent_scope p ns k =
     (case get (tasks k) p of None \<Rightarrow> Some (UnknownTask (task_text p))
      | Some pt \<Rightarrow> if t_namespace pt \<noteq> ns
          then Some (TaskParentScope (task_text p) (namespace_text (t_namespace pt)) (namespace_text ns)) else None)"

definition check_parent :: "task_id \<Rightarrow> task_id option \<Rightarrow> namespace_id \<Rightarrow> kernel \<Rightarrow> kernel_error option" where
  "check_parent child parent ns k =
     (case parent of None \<Rightarrow> None
      | Some p \<Rightarrow> (case check_parent_scope p ns k of Some e \<Rightarrow> Some e
          | None \<Rightarrow> if would_create_task_cycle child p (task_parent_map k)
              then Some (TaskParentCycle (task_text child) (task_text p)) else None))"

definition new_task_id :: "kernel \<Rightarrow> task_id" where
  "new_task_id k = TaskId (numbered ''task_'' (next_task k + 1))"

definition create_task_with_parent ::
  "ustr \<Rightarrow> json \<Rightarrow> ustr \<Rightarrow> namespace_id \<Rightarrow> permission list \<Rightarrow> task_id option \<Rightarrow> kernel \<Rightarrow> task_id result" where
  "create_task_with_parent title input by ns required parent k =
     (let t = new_task_id k in
      case check_parent t parent ns k of Some e \<Rightarrow> (Inl e, k)
      | None \<Rightarrow>
        let k = k\<lparr>next_task := next_task k + 1\<rparr>;
            (now, k) = tick k;
            tk = \<lparr>t_id = t, t_title = title, t_input = input, t_status = TCreated, t_priority = 5,
              t_created_by = by, t_assigned = None, t_namespace = ns, t_required = required,
              t_parent = parent, t_deadline = None, t_created_at = now, t_updated_at = now\<rparr>;
            k = record_audit (created_by_actor by) by (cps ''task:create'') (Some ''task'') (Some (task_text t))
                  (Some ns) AuSuccess k
        in (Inr t, k\<lparr>tasks := hinsert t tk (tasks k)\<rparr>))"

text \<open>\<open>expect\<close> on the result, which without a parent is never an error.\<close>

definition create_task :: "ustr \<Rightarrow> json \<Rightarrow> ustr \<Rightarrow> namespace_id \<Rightarrow> permission list \<Rightarrow> kernel \<Rightarrow> task_id \<times> kernel" where
  "create_task title input by ns required k =
     (case create_task_with_parent title input by ns required None k of (res, k) \<Rightarrow> (projr res, k))"

definition audit_task :: "string \<Rightarrow> task_id \<Rightarrow> namespace_id \<Rightarrow> audit_result \<Rightarrow> kernel \<Rightarrow> kernel" where
  "audit_task action t ns res k =
     record_audit ''kernel'' (cps ''kernel'') (cps action) (Some ''task'') (Some (task_text t)) (Some ns) res k"

definition reparent_task :: "task_id \<Rightarrow> task_id option \<Rightarrow> kernel \<Rightarrow> unit result" where
  "reparent_task t parent k =
     (case get (tasks k) t of None \<Rightarrow> (Inl (UnknownTask (task_text t)), k)
      | Some tk \<Rightarrow> (case check_parent t parent (t_namespace tk) k of Some e \<Rightarrow> (Inl e, k)
      | None \<Rightarrow>
        let (now, k) = tick k;
            k = k\<lparr>tasks := adjust t (\<lambda>tk. tk\<lparr>t_parent := parent, t_updated_at := now\<rparr>) (tasks k)\<rparr>
        in (Inr (), audit_task ''task:update'' t (t_namespace tk) AuSuccess k)))"

definition assign_task :: "task_id \<Rightarrow> agent_id \<Rightarrow> kernel \<Rightarrow> unit result" where
  "assign_task t a k =
     (if \<not> contains_key (agents k) a then (Inl (UnknownAgent (agent_text a)), k)
      else let (now, k) = tick k in
        case get (tasks k) t of None \<Rightarrow> (Inl (UnknownTask (task_text t)), k)
        | Some tk \<Rightarrow>
          let k = k\<lparr>tasks := adjust t (\<lambda>tk. tk\<lparr>t_assigned := Some a, t_status := TQueued, t_updated_at := now\<rparr>) (tasks k)\<rparr>
          in (Inr (), audit_task ''task:assign'' t (t_namespace tk) AuSuccess k))"

fun is_terminal_status :: "task_status \<Rightarrow> bool" where
  "is_terminal_status TCompleted = True"
| "is_terminal_status TFailed = True"
| "is_terminal_status TCancelled = True"
| "is_terminal_status TExpired = True"
| "is_terminal_status _ = False"

definition is_settable_status :: "task_status \<Rightarrow> bool" where
  "is_settable_status s \<longleftrightarrow> s = TBlocked \<or> s = TCancelled"

definition manager_assign_task_to_subordinate :: "agent_id \<Rightarrow> agent_id \<Rightarrow> task_id \<Rightarrow> kernel \<Rightarrow> unit result" where
  "manager_assign_task_to_subordinate manager target t =
     require_authority ''assign_task'' ''agent:manager_assign_task'' ''task'' (task_text t) manager target
       (\<lambda>k. case get (tasks k) t of None \<Rightarrow> (Inl (UnknownTask (task_text t)), k)
         | Some tk \<Rightarrow>
           if is_terminal_status (t_status tk) then
             (Inl (TaskNotAssignable (task_text t) (t_status tk)),
              record_audit ''agent'' (agent_text manager) (cps ''agent:manager_assign_task'') (Some ''task'')
                (Some (task_text t)) (Some (t_namespace tk)) AuDenied k)
           else assign_task t target k)"

definition manager_assign_task_to_subordinate_as_agent ::
  "agent_id \<Rightarrow> agent_id \<Rightarrow> task_id \<Rightarrow> kernel \<Rightarrow> unit result" where
  "manager_assign_task_to_subordinate_as_agent manager target t =
     audited_as ''agent'' (agent_text manager) ''agent:token_authenticated_manager_assign_task'' ''task'' (task_text t)
       target (manager_assign_task_to_subordinate manager target t)"

definition set_status :: "task_id \<Rightarrow> task_status \<Rightarrow> ustr \<Rightarrow> kernel \<Rightarrow> kernel" where
  "set_status t s now k = k\<lparr>tasks := adjust t (\<lambda>tk. tk\<lparr>t_status := s, t_updated_at := now\<rparr>) (tasks k)\<rparr>"

definition set_task_status :: "task_id \<Rightarrow> task_status \<Rightarrow> kernel \<Rightarrow> unit result" where
  "set_task_status t target k =
     (if \<not> is_settable_status target then (Inl (TaskStatusNotSettable (task_text t) target), k)
      else case get (tasks k) t of None \<Rightarrow> (Inl (UnknownTask (task_text t)), k)
      | Some tk \<Rightarrow>
        if is_terminal_status (t_status tk) then (Inl (TaskTerminalStatus (task_text t) (t_status tk)), k)
        else let (now, k) = tick k
             in (Inr (), audit_task ''task:update'' t (t_namespace tk) AuSuccess (set_status t target now k)))"

definition reopen_task :: "task_id \<Rightarrow> kernel \<Rightarrow> unit result" where
  "reopen_task t k =
     (case get (tasks k) t of None \<Rightarrow> (Inl (UnknownTask (task_text t)), k)
      | Some tk \<Rightarrow>
        if t_status tk \<noteq> TBlocked then (Inl (TaskNotReopenable (task_text t) (t_status tk)), k)
        else if t_assigned tk = None then (Inl (TaskNotAssigned (task_text t)), k)
        else let (now, k) = tick k
             in (Inr (), audit_task ''task:update'' t (t_namespace tk) AuSuccess (set_status t TQueued now k)))"

text \<open>Both end a task whatever its status was.\<close>

definition finish_task :: "task_status \<Rightarrow> string \<Rightarrow> audit_result \<Rightarrow> task_id \<Rightarrow> kernel \<Rightarrow> unit result" where
  "finish_task s action res t k =
     (let (now, k) = tick k in
      case get (tasks k) t of None \<Rightarrow> (Inl (UnknownTask (task_text t)), k)
      | Some tk \<Rightarrow> (Inr (), audit_task action t (t_namespace tk) res (set_status t s now k)))"

definition complete_task :: "task_id \<Rightarrow> kernel \<Rightarrow> unit result" where
  "complete_task = finish_task TCompleted ''task:complete'' AuSuccess"

definition fail_task :: "task_id \<Rightarrow> kernel \<Rightarrow> unit result" where
  "fail_task = finish_task TFailed ''task:fail'' AuFailed"

end
