(* ===== verification/Relux_Runs.thy ===== *)
theory Relux_Runs
  imports Relux_Tasks
begin

text \<open>
  The life of a run (\<open>relux-kernel/src/state.rs\<close>): how it starts, the ways it ends, the watchdog that ends
  those nothing stands behind, and what is read off the runs for the bounded retry.
\<close>

section \<open>Start\<close>

definition holds :: "agent \<Rightarrow> permission \<Rightarrow> bool" where
  "holds a required \<longleftrightarrow> list_ex (\<lambda>p. authorizes p required) (ag_permissions a)"

definition new_run :: "run_id \<Rightarrow> task_id \<Rightarrow> agent_id \<Rightarrow> plugin_id \<Rightarrow> ustr \<Rightarrow> nat \<Rightarrow> run" where
  "new_run r t a adapter started now =
     \<lparr>r_id = r, r_task = t, r_agent = a, r_adapter = adapter, r_status = RRunning, r_started_at = Some started,
      r_ended_at = None, r_summary = None, r_error = None, r_duration_ms = None, r_retried_from = None,
      r_resumed_from = None, r_session = None, r_failure_class = None, r_retry = None, r_last_activity = Some now\<rparr>"

definition start_run :: "world \<Rightarrow> task_id \<Rightarrow> kernel \<Rightarrow> run_id result" where
  "start_run w t k =
     (case get (tasks k) t of None \<Rightarrow> (Inl (UnknownTask (task_text t)), k)
      | Some tk \<Rightarrow> (case t_assigned tk of None \<Rightarrow> (Inl (TaskNotAssigned (task_text t)), k)
      | Some a \<Rightarrow> (case get (agents k) a of None \<Rightarrow> (Inl (UnknownAgent (agent_text a)), k)
      | Some ag \<Rightarrow> (case List.find (\<lambda>p. \<not> holds ag p) (t_required tk) of
          Some p \<Rightarrow>
            (Inl (PermissionDenied (agent_text a) (as_str p)),
             record_audit ''agent'' (agent_text a) (cps ''task:start_run'') (Some ''run'') None
               (Some (t_namespace tk)) AuDenied k)
        | None \<Rightarrow>
            let k = k\<lparr>next_run := next_run k + 1\<rparr>;
                r = RunId (numbered ''run_'' (next_run k));
                (started, k) = tick k;
                k = k\<lparr>runs := hinsert r (new_run r t a (ag_adapter ag) started (w_now w (clock k))) (runs k)\<rparr>;
                (now, k) = tick k;
                k = set_status t TRunning now k;
                k = push_run_event w r ''run_started'' (cps ''kernel'') k
            in (Inr r, record_audit ''agent'' (agent_text a) (cps ''task:start_run'') (Some ''run'')
                  (Some (run_text r)) (Some (t_namespace tk)) AuSuccess k)))))"

section \<open>End\<close>

definition namespace_of_task :: "task_id \<Rightarrow> kernel \<Rightarrow> namespace_id option" where
  "namespace_of_task t k = map_option t_namespace (get (tasks k) t)"

text \<open>What every end of a run does: the change of its record, one event, one entry in the journal.\<close>

definition end_run ::
  "world \<Rightarrow> run_id \<Rightarrow> (run \<Rightarrow> run) \<Rightarrow> string \<Rightarrow> string \<Rightarrow> audit_result \<Rightarrow> kernel \<Rightarrow> unit result" where
  "end_run w r f event action res k =
     (case get (runs k) r of None \<Rightarrow> (Inl (UnknownRun (run_text r)), k)
      | Some rn \<Rightarrow>
        let k = k\<lparr>runs := adjust r f (runs k)\<rparr>;
            ns = namespace_of_task (r_task rn) k;
            k = push_run_event w r event (cps ''kernel'') k
        in (Inr (), record_audit ''agent'' (agent_text (r_agent rn)) (cps action) (Some ''run'')
              (Some (run_text r)) ns res k))"

definition complete_run :: "world \<Rightarrow> run_id \<Rightarrow> ustr \<Rightarrow> kernel \<Rightarrow> unit result" where
  "complete_run w r summary k =
     (let (ended, k) = tick k
      in end_run w r (\<lambda>x. x\<lparr>r_status := RCompleted, r_ended_at := Some ended, r_summary := Some summary\<rparr>)
           ''run_completed'' ''run:complete'' AuSuccess k)"

definition cancel_run :: "world \<Rightarrow> run_id \<Rightarrow> ustr \<Rightarrow> kernel \<Rightarrow> unit result" where
  "cancel_run w r reason k =
     (let (ended, k) = tick k
      in end_run w r (\<lambda>x. x\<lparr>r_status := RCancelled, r_ended_at := Some ended, r_error := Some reason,
             r_failure_class := Some Cancelled, r_retry := None\<rparr>)
           ''run_cancelled'' ''run:cancel'' AuFailed k)"

text \<open>The length of the line of retries behind a run, with a backstop against a loop in it.\<close>

fun lineage :: "nat \<Rightarrow> kernel \<Rightarrow> run_id option \<Rightarrow> nat \<Rightarrow> nat" where
  "lineage 0 k cursor n = n"
| "lineage (Suc fuel) k cursor n =
     (case cursor of None \<Rightarrow> n
      | Some prev \<Rightarrow> if n + 1 > 64 then n + 1
          else lineage fuel k (case get (runs k) prev of None \<Rightarrow> None | Some r \<Rightarrow> r_retried_from r) (n + 1))"

definition transient_attempt_for :: "run_id \<Rightarrow> kernel \<Rightarrow> nat" where
  "transient_attempt_for r k =
     lineage 65 k (case get (runs k) r of None \<Rightarrow> None | Some r \<Rightarrow> r_retried_from r) 0"

definition fail_run_classified :: "world \<Rightarrow> run_id \<Rightarrow> ustr \<Rightarrow> run_failure_class \<Rightarrow> kernel \<Rightarrow> unit result" where
  "fail_run_classified w r error class k =
     (let (ended, k) = tick k;
          retry = retry_plan class (transient_attempt_for r k) (w_now w (clock k))
      in end_run w r (\<lambda>x. x\<lparr>r_status := RFailed, r_ended_at := Some ended, r_error := Some error,
             r_failure_class := Some class, r_retry := retry\<rparr>)
           ''run_failed'' ''run:fail'' AuFailed k)"

definition fail_run :: "world \<Rightarrow> run_id \<Rightarrow> ustr \<Rightarrow> kernel \<Rightarrow> unit result" where
  "fail_run w r error = fail_run_classified w r error (classify_failure error False)"

section \<open>The watchdog\<close>

definition set_run_watchdog_config :: "run_watchdog_config \<Rightarrow> kernel \<Rightarrow> run_watchdog_config \<times> kernel" where
  "set_run_watchdog_config config k =
     (clamped config, record_audit ''kernel'' (cps ''kernel'') (cps ''watchdog:configure'') (Some ''config'') None None
        AuSuccess (k\<lparr>run_watchdog := clamped config\<rparr>))"

definition stale_text :: "nat \<Rightarrow> ustr" where
  "stale_text idle = cps (''run watchdog: no activity for '' @ show_nat idle @ ''s and no live process '')
     @ 8212 # cps '' recovered as stale''"

definition mark_run_stale :: "world \<Rightarrow> run_id \<Rightarrow> nat \<Rightarrow> kernel \<Rightarrow> kernel" where
  "mark_run_stale w r idle k =
     (let (ended, k) = tick k in
      case get (runs k) r of None \<Rightarrow> k
      | Some rn \<Rightarrow>
        let k = k\<lparr>runs := adjust r (\<lambda>x. x\<lparr>r_status := RFailed, r_ended_at := Some ended,
                    r_error := Some (stale_text idle), r_failure_class := Some Stale, r_retry := None\<rparr>) (runs k)\<rparr>;
            k = push_run_event w r ''run_stalled'' (cps ''kernel'') k;
            ns = namespace_of_task (r_task rn) k;
            k = (case get (tasks k) (r_task rn) of None \<Rightarrow> k
                 | Some tk \<Rightarrow> if t_status tk = TRunning
                     then (case tick k of (now, k) \<Rightarrow> set_status (r_task rn) TBlocked now k) else k)
        in record_audit ''agent'' (agent_text (r_agent rn)) (cps ''run:stale_recovered'') (Some ''run'')
             (Some (run_text r)) ns AuFailed k)"

definition last_activity :: "run \<Rightarrow> nat" where
  "last_activity r = (case r_last_activity r of Some n \<Rightarrow> n | None \<Rightarrow> 0)"

definition stale_candidates :: "nat \<Rightarrow> run_id list \<Rightarrow> kernel \<Rightarrow> (run_id \<times> nat) list" where
  "stale_candidates now active k =
     map (\<lambda>(r, x). (r, now - last_activity x))
       (filter (\<lambda>(r, x). r_status x = RRunning \<and> r \<notin> set active
           \<and> is_stale (clamped (run_watchdog k)) (last_activity x) now) (runs k))"

definition recover_stale_runs :: "world \<Rightarrow> nat \<Rightarrow> run_id list \<Rightarrow> kernel \<Rightarrow> run_id list \<times> kernel" where
  "recover_stale_runs w now active k =
     (if \<not> watchdog_enabled (run_watchdog k) then ([], k)
      else let cands = stale_candidates now active k
           in (map fst cands, fold (\<lambda>(r, idle). mark_run_stale w r idle) cands k))"

section \<open>What the retry reads off the runs\<close>

definition newest_of :: "task_id \<Rightarrow> run list \<Rightarrow> run option" where
  "newest_of t rs = max_by (\<lambda>a b. r_id a \<le> r_id b) (filter (\<lambda>r. r_task r = t) rs)"

text \<open>One run per task: that with the largest id; the list is sorted by id.\<close>

definition newest_run_per_task :: "kernel \<Rightarrow> run list" where
  "newest_run_per_task k =
     sort_key r_id (filter (\<lambda>r. newest_of (r_task r) (vals (runs k)) = Some r) (vals (runs k)))"

definition retry_ready :: "nat \<Rightarrow> kernel \<Rightarrow> run \<Rightarrow> bool" where
  "retry_ready now k r \<longleftrightarrow>
     r_status r = RFailed
     \<and> (case r_failure_class r of Some c \<Rightarrow> retryable c | None \<Rightarrow> False)
     \<and> (case r_retry r of Some s \<Rightarrow> eligible_at s now | None \<Rightarrow> False)
     \<and> (case get (tasks k) (r_task r) of Some t \<Rightarrow> t_assigned t \<noteq> None | None \<Rightarrow> False)"

definition transient_retry_ready :: "nat \<Rightarrow> kernel \<Rightarrow> run_id list" where
  "transient_retry_ready now k = map r_id (filter (retry_ready now k) (newest_run_per_task k))"

definition runs_needing_operator_action :: "kernel \<Rightarrow> nat" where
  "runs_needing_operator_action k = length (filter (\<lambda>r. r_status r = RFailed
     \<and> (case r_failure_class r of Some c \<Rightarrow> needs_operator_action c | None \<Rightarrow> False)) (newest_run_per_task k))"

definition runs_retry_pending :: "kernel \<Rightarrow> nat" where
  "runs_retry_pending k = length (filter (\<lambda>r. r_status r = RFailed
     \<and> (case r_retry r of Some s \<Rightarrow> \<not> exhausted s \<and> not_before_secs s \<noteq> None | None \<Rightarrow> False))
     (newest_run_per_task k))"

end
