(* ===== verification/Relux_Tools.thy ===== *)
theory Relux_Tools
  imports Relux_Runs
begin

text \<open>
  Human approvals and the gate in front of every tool (\<open>relux-kernel/src/state.rs\<close>): which permission a
  tool needs, whether it must be approved, the one-shot approval of a single call with its arguments,
  the standing grant, and the three ways to call a tool through the gate. The names of MCP tools and the
  permissions derived from them are from \<open>relux-core/src/mcp.rs\<close>. What stands behind a tool, other than
  the built-in echo, is the world.
\<close>

section \<open>MCP names\<close>

definition MAX_MCP_TOOL_NAME_CHARS :: nat where "MAX_MCP_TOOL_NAME_CHARS = 128"

definition is_valid_mcp_tool_name :: "ustr \<Rightarrow> bool" where
  "is_valid_mcp_tool_name name \<longleftrightarrow>
     (let name = trim name
      in name \<noteq> [] \<and> length name \<le> MAX_MCP_TOOL_NAME_CHARS
         \<and> list_all (\<lambda>c. is_ascii_alphanumeric c \<or> c \<in> set (cps ''.-_'')) name)"

fun sanitize_chars :: "nat \<Rightarrow> bool \<Rightarrow> ustr \<Rightarrow> ustr \<Rightarrow> ustr" where
  "sanitize_chars sep last_sep out [] = out"
| "sanitize_chars sep last_sep out (c # cs) =
     (if is_ascii_alphanumeric c \<or> c \<in> set (cps ''_-'') then sanitize_chars sep False (out @ [c]) cs
      else if \<not> last_sep \<and> out \<noteq> [] then sanitize_chars sep True (out @ [sep]) cs
      else sanitize_chars sep last_sep out cs)"

definition trim_matches :: "(nat \<Rightarrow> bool) \<Rightarrow> ustr \<Rightarrow> ustr" where
  "trim_matches P s = rev (dropWhile P (rev (dropWhile P s)))"

definition sanitize_identifier :: "ustr \<Rightarrow> nat \<Rightarrow> ustr" where
  "sanitize_identifier s sep =
     trim_matches (\<lambda>c. c \<in> set (cps ''-_'')) (sanitize_chars sep False [] (to_ascii_lowercase (trim s)))"

definition derive_verb :: "ustr \<Rightarrow> ustr" where
  "derive_verb name =
     (let tail = last (str_split [46] name);
          candidate = (if tail = [] then name else tail);
          verb = filter (\<lambda>c. is_ascii_alphanumeric c \<or> c = 95)
                   (map (\<lambda>c. if c = 45 then 95 else c) (to_ascii_lowercase (trim candidate)));
          verb = trim_matches (\<lambda>c. c = 95) verb
      in if verb = [] then cps ''tool'' else verb)"

definition mcp_tool_permission :: "ustr \<Rightarrow> ustr \<Rightarrow> ustr" where
  "mcp_tool_permission server tool =
     cps ''tool:mcp-'' @ sanitize_identifier server 45 @ cps '':'' @ derive_verb tool"

section \<open>What a tool needs\<close>

definition mcp_prefix :: ustr where "mcp_prefix = cps ''mcp:''"

definition mcp_server_for_plugin :: "plugin_id \<Rightarrow> kernel \<Rightarrow> mcp_server option" where
  "mcp_server_for_plugin p k =
     (case strip_prefix mcp_prefix (plugin_text p) of None \<Rightarrow> None | Some s \<Rightarrow> get (mcp_servers k) s)"

definition tool_classification :: "mcp_server \<Rightarrow> ustr \<Rightarrow> risk_level \<times> approval_requirement" where
  "tool_classification s tool = (case get (ms_overrides s) tool of Some c \<Rightarrow> c | None \<Rightarrow> (Medium, Required))"

definition find_tool :: "plugin_id \<Rightarrow> ustr \<Rightarrow> kernel \<Rightarrow> tool_definition option" where
  "find_tool p tool k =
     (case get (plugins k) p of None \<Rightarrow> None | Some m \<Rightarrow> List.find (\<lambda>t. td_name t = tool) (pm_tools m))"

definition is_source_tool :: "ustr \<Rightarrow> bool" where
  "is_source_tool tool \<longleftrightarrow>
     tool \<in> set (map cps [''plugin.summary'', ''plugin.inspect'', ''plugin.search'', ''plugin.read_file''])"

definition echo_plugin :: plugin_id where "echo_plugin = PluginId (cps ''relux-tools-echo'')"
definition echo_say :: ustr where "echo_say = cps ''echo.say''"

definition is_internal_plugin :: "plugin_id \<Rightarrow> bool" where
  "is_internal_plugin p \<longleftrightarrow> p = echo_plugin"

definition has_source_tools :: "plugin_id \<Rightarrow> kernel \<Rightarrow> bool" where
  "has_source_tools p k \<longleftrightarrow>
     (case get (installed_plugins k) p of None \<Rightarrow> False
      | Some i \<Rightarrow> ip_source_kind i \<noteq> Bundled \<and> \<not> is_internal_plugin p)"

definition resolve_tool_permission ::
  "agent_id \<Rightarrow> plugin_id \<Rightarrow> ustr \<Rightarrow> kernel \<Rightarrow> kernel_error + (namespace_id \<times> permission)" where
  "resolve_tool_permission a p tool k =
     (case get (agents k) a of None \<Rightarrow> Inl (UnknownAgent (agent_text a))
      | Some ag \<Rightarrow>
        if is_prefix mcp_prefix (plugin_text p) then
          (case mcp_server_for_plugin p k of None \<Rightarrow> Inl (UnknownMcpServer (drop 4 (plugin_text p)))
           | Some s \<Rightarrow>
             if \<not> is_valid_mcp_tool_name tool then Inl (InvalidMcpToolName (ms_id s) tool)
             else case permission_new (mcp_tool_permission (ms_id s) tool) of
                 Inl e \<Rightarrow> Inl (InvalidMcpToolName (ms_id s) tool)
               | Inr required \<Rightarrow> Inr (ag_namespace ag, required))
        else if is_source_tool tool \<and> has_source_tools p k then
          Inr (ag_namespace ag, Permission (cps ''plugin:source:read''))
        else if \<not> contains_key (plugins k) p then Inl (UnknownPlugin (plugin_text p))
        else case find_tool p tool k of None \<Rightarrow> Inl (ToolNotFound (plugin_text p) tool)
          | Some t \<Rightarrow> Inr (ag_namespace ag, td_permission t))"

definition tool_needs_approval :: "plugin_id \<Rightarrow> ustr \<Rightarrow> kernel \<Rightarrow> bool" where
  "tool_needs_approval p tool k =
     (case mcp_server_for_plugin p k of
        Some s \<Rightarrow> (case tool_classification s tool of (risk, approval) \<Rightarrow> approval_blocks_direct_invocation approval risk)
      | None \<Rightarrow> (case find_tool p tool k of
            Some t \<Rightarrow> approval_blocks_direct_invocation (td_approval t) (td_risk t) | None \<Rightarrow> False))"

definition tool_risk_for :: "plugin_id \<Rightarrow> ustr \<Rightarrow> kernel \<Rightarrow> risk_level" where
  "tool_risk_for p tool k =
     (case mcp_server_for_plugin p k of
        Some s \<Rightarrow> fst (tool_classification s tool)
      | None \<Rightarrow> (case find_tool p tool k of Some t \<Rightarrow> td_risk t | None \<Rightarrow> High))"

definition agent_holds_permission :: "agent_id \<Rightarrow> permission \<Rightarrow> kernel \<Rightarrow> bool" where
  "agent_holds_permission a required k = (case get (agents k) a of None \<Rightarrow> False | Some ag \<Rightarrow> holds ag required)"

definition execute_tool_runtime :: "world \<Rightarrow> plugin_id \<Rightarrow> ustr \<Rightarrow> json \<Rightarrow> kernel \<Rightarrow> kernel_error + json" where
  "execute_tool_runtime w p tool input k =
     (case mcp_server_for_plugin p k of
        Some s \<Rightarrow>
          if \<not> ms_enabled s then Inl (McpServerDisabled (ms_id s))
          else if \<not> is_valid_mcp_tool_name tool then Inl (InvalidMcpToolName (ms_id s) tool)
          else w_tool w (clock k) p tool input
      | None \<Rightarrow>
          if is_source_tool tool then w_tool w (clock k) p tool input
          else if p = echo_plugin \<and> tool = echo_say then Inr input
          else w_tool w (clock k) p tool input)"

section \<open>Approvals\<close>

definition request_approval ::
  "ustr \<Rightarrow> ustr \<Rightarrow> ustr \<Rightarrow> risk_level \<Rightarrow> namespace_id option \<Rightarrow> kernel \<Rightarrow> approval_id \<times> kernel" where
  "request_approval by action reason risk ns k =
     (let k = k\<lparr>next_approval := next_approval k + 1\<rparr>;
          i = ApprovalId (numbered ''appr_'' (next_approval k));
          (created, k) = tick k;
          ap = \<lparr>ap_id = i, ap_requested_by = by, ap_action = action, ap_reason = reason, ap_risk = risk,
            ap_status = ApPending, ap_approved_by = None, ap_namespace = ns, ap_created_at = created,
            ap_resolved_at = None, ap_note = None\<rparr>;
          k = record_audit ''agent'' by (cps ''approval:request'') (Some ''approval'') (Some (approval_text i)) ns AuSuccess k
      in (i, k\<lparr>approvals := hinsert i ap (approvals k)\<rparr>))"

definition resolve_approval :: "approval_id \<Rightarrow> bool \<Rightarrow> ustr \<Rightarrow> ustr option \<Rightarrow> kernel \<Rightarrow> unit result" where
  "resolve_approval i approve approver note k =
     (let (resolved, k) = tick k in
      case get (approvals k) i of None \<Rightarrow> (Inl (UnknownApproval (approval_text i)), k)
      | Some ap \<Rightarrow>
        let k = k\<lparr>approvals := adjust i (\<lambda>ap. ap\<lparr>ap_status := (if approve then ApApproved else ApRejected),
                    ap_approved_by := Some approver, ap_resolved_at := Some resolved, ap_note := note\<rparr>) (approvals k)\<rparr>;
            k = (if approve then k
                 else k\<lparr>pending_tool_invocations := hremove i (pending_tool_invocations k)\<rparr>)
        in (Inr (), record_audit ''user'' approver (cps ''approval:resolve'') (Some ''approval'') (Some (approval_text i))
              (ap_namespace ap) (if approve then AuApproved else AuRejected) k))"

section \<open>The gate\<close>

definition audit_tool ::
  "string \<Rightarrow> ustr \<Rightarrow> permission \<Rightarrow> ustr \<Rightarrow> namespace_id \<Rightarrow> audit_result \<Rightarrow> kernel \<Rightarrow> kernel" where
  "audit_tool actor_type actor required tool ns res k =
     record_audit actor_type actor (as_str required) (Some ''tool'') (Some tool) (Some ns) res k"

text \<open>The permission of a call and the subject's right to it; a denial is in the journal.\<close>

definition with_permission ::
  "string \<Rightarrow> ustr \<Rightarrow> agent_id \<Rightarrow> plugin_id \<Rightarrow> ustr \<Rightarrow> (kernel \<Rightarrow> kernel)
    \<Rightarrow> (namespace_id \<Rightarrow> permission \<Rightarrow> kernel \<Rightarrow> 'a result) \<Rightarrow> kernel \<Rightarrow> 'a result" where
  "with_permission actor_type actor a p tool on_denied body k =
     (case resolve_tool_permission a p tool k of Inl e \<Rightarrow> (Inl e, k)
      | Inr (ns, required) \<Rightarrow>
        if \<not> agent_holds_permission a required k then
          (Inl (PermissionDenied (agent_text a) (as_str required)),
           audit_tool actor_type actor required tool ns AuDenied (on_denied k))
        else body ns required k)"

definition covers :: "agent_id \<Rightarrow> plugin_id \<Rightarrow> ustr \<Rightarrow> ustr \<Rightarrow> risk_level \<Rightarrow> persistent_grant \<Rightarrow> bool" where
  "covers a p tool required risk g = authorizes_invocation g a (plugin_text p) tool required risk"

definition matching_persistent_grant_id :: "agent_id \<Rightarrow> plugin_id \<Rightarrow> ustr \<Rightarrow> kernel \<Rightarrow> ustr option" where
  "matching_persistent_grant_id a p tool k =
     (case mcp_server_for_plugin p k of
        Some s \<Rightarrow> map_option grant_id (List.find
          (covers a p tool (mcp_tool_permission (ms_id s) tool) (fst (tool_classification s tool)))
          (vals (persistent_grants k)))
      | None \<Rightarrow> (case find_tool p tool k of None \<Rightarrow> None
          | Some t \<Rightarrow> map_option grant_id (List.find (covers a p tool (as_str (td_permission t)) (td_risk t))
              (vals (persistent_grants k)))))"

definition record_persistent_grant_use :: "ustr \<Rightarrow> agent_id \<Rightarrow> namespace_id \<Rightarrow> kernel \<Rightarrow> kernel" where
  "record_persistent_grant_use g a ns k =
     (let (used, k) = tick k;
          k = k\<lparr>persistent_grants := adjust g (\<lambda>g. g\<lparr>last_used_at := Some used\<rparr>) (persistent_grants k)\<rparr>
      in record_audit ''agent'' (agent_text a) (cps ''grant:use'') (Some ''grant'') (Some g) (Some ns) AuSuccess k)"

text \<open>
  What follows the permission in \<open>call_tool\<close> and \<open>invoke_tool\<close>: approval or a standing grant, then the
  runtime. \<open>event\<close> is what is put on the transcript, if the call is made in a run.
\<close>

definition gated_execution ::
  "world \<Rightarrow> agent_id \<Rightarrow> plugin_id \<Rightarrow> ustr \<Rightarrow> json \<Rightarrow> (string \<Rightarrow> ustr \<Rightarrow> kernel \<Rightarrow> kernel)
    \<Rightarrow> namespace_id \<Rightarrow> permission \<Rightarrow> kernel \<Rightarrow> json result" where
  "gated_execution w a p tool input event ns required k =
     (case (if tool_needs_approval p tool k then
              (case matching_persistent_grant_id a p tool k of
                 Some g \<Rightarrow> Inr (record_persistent_grant_use g a ns k)
               | None \<Rightarrow> Inl (ToolRequiresApproval (plugin_text p) tool))
            else Inr k) of
        Inl e \<Rightarrow> (Inl e, audit_tool ''agent'' (agent_text a) required tool ns AuDenied (event ''tool_call_denied'' (cps ''kernel'') k))
      | Inr k \<Rightarrow>
        (case execute_tool_runtime w p tool input k of
           Inl e \<Rightarrow> (Inl e, audit_tool ''agent'' (agent_text a) required tool ns AuFailed (event ''tool_call_failed'' (cps ''kernel'') k))
         | Inr output \<Rightarrow>
             (Inr output, audit_tool ''agent'' (agent_text a) required tool ns AuSuccess (event ''tool_call'' (agent_text a) k))))"

definition run_tool_event :: "world \<Rightarrow> run_id \<Rightarrow> plugin_id \<Rightarrow> string \<Rightarrow> ustr \<Rightarrow> kernel \<Rightarrow> kernel" where
  "run_tool_event w r p kind source k =
     push_run_event w r (if mcp_server_for_plugin p k = None then kind else ''mcp_'' @ kind) source k"

definition call_tool :: "world \<Rightarrow> run_id \<Rightarrow> agent_id \<Rightarrow> plugin_id \<Rightarrow> ustr \<Rightarrow> json \<Rightarrow> kernel \<Rightarrow> json result" where
  "call_tool w r a p tool input =
     with_permission ''agent'' (agent_text a) a p tool (run_tool_event w r p ''tool_call_denied'' (cps ''kernel''))
       (gated_execution w a p tool input (run_tool_event w r p))"

definition invoke_tool :: "world \<Rightarrow> agent_id \<Rightarrow> plugin_id \<Rightarrow> ustr \<Rightarrow> json \<Rightarrow> kernel \<Rightarrow> json result" where
  "invoke_tool w a p tool input =
     with_permission ''agent'' (agent_text a) a p tool (\<lambda>k. k)
       (gated_execution w a p tool input (\<lambda>_ _ k. k))"

section \<open>One-shot approvals of a call\<close>

definition MAX_TOOL_INVOCATION_ARGS_BYTES :: nat where "MAX_TOOL_INVOCATION_ARGS_BYTES = 256 * 1024"

fun risk_debug :: "risk_level \<Rightarrow> ustr" where
  "risk_debug Low = cps ''Low''"
| "risk_debug Medium = cps ''Medium''"
| "risk_debug High = cps ''High''"
| "risk_debug Critical = cps ''Critical''"

definition request_tool_invocation_approval ::
  "world \<Rightarrow> ustr \<Rightarrow> agent_id \<Rightarrow> plugin_id \<Rightarrow> ustr \<Rightarrow> json \<Rightarrow> kernel \<Rightarrow> approval_id result" where
  "request_tool_invocation_approval w by a p tool input =
     with_permission ''user'' by a p tool (\<lambda>k. k) (\<lambda>ns required k.
       if \<not> tool_needs_approval p tool k then (Inl (ToolDoesNotRequireApproval (plugin_text p) tool), k)
       else if w_json_len w input > MAX_TOOL_INVOCATION_ARGS_BYTES then
         (Inl (ToolInvocationArgsTooLarge (plugin_text p) tool (w_json_len w input) MAX_TOOL_INVOCATION_ARGS_BYTES), k)
       else
         let risk = tool_risk_for p tool k;
             digest = w_json_digest w input;
             action = cps ''invoke tool '' @ tool @ cps '' on '' @ plugin_text p @ cps '' (as '' @ agent_text a @ cps '')'';
             reason = risk_debug risk @ cps ''-risk per-call tool invocation requested by '' @ by
               @ cps ''; args sha256 '' @ take 12 digest @ [8230];
             (i, k) = request_approval by action reason risk (Some ns) k;
             created = (case get (approvals k) i of Some ap \<Rightarrow> ap_created_at ap | None \<Rightarrow> []);
             b = \<lparr>pi_plugin = p, pi_tool = tool, pi_agent = a, pi_permission = as_str required, pi_input = input,
               pi_args_sha256 = digest, pi_requested_by = by, pi_risk = risk, pi_created_at = created,
               pi_consumed = False\<rparr>;
             k = k\<lparr>pending_tool_invocations := hinsert i b (pending_tool_invocations k)\<rparr>
         in (Inr i, record_audit ''user'' by (cps ''tool_invocation:request'') (Some ''approval'') (Some (approval_text i))
               (Some ns) AuSuccess k))"

definition execute_approved_tool_invocation :: "world \<Rightarrow> approval_id \<Rightarrow> ustr \<Rightarrow> kernel \<Rightarrow> json result" where
  "execute_approved_tool_invocation w i by k =
     (case get (approvals k) i of None \<Rightarrow> (Inl (UnknownApproval (approval_text i)), k)
      | Some ap \<Rightarrow>
        if ap_status ap \<noteq> ApApproved then (Inl (ToolInvocationNotApproved (approval_text i) (ap_status ap)), k)
        else case get (pending_tool_invocations k) i of
          None \<Rightarrow> (Inl (NoBoundToolInvocation (approval_text i)), k)
        | Some b \<Rightarrow>
          if pi_consumed b then (Inl (ToolInvocationConsumed (approval_text i)), k)
          else if w_json_digest w (pi_input b) \<noteq> pi_args_sha256 b
          then (Inl (ToolInvocationArgsTampered (approval_text i)), k)
          else with_permission ''user'' by (pi_agent b) (pi_plugin b) (pi_tool b) (\<lambda>k. k) (\<lambda>ns required k.
            let k = k\<lparr>pending_tool_invocations := adjust i (\<lambda>b. b\<lparr>pi_consumed := True\<rparr>) (pending_tool_invocations k)\<rparr>
            in case execute_tool_runtime w (pi_plugin b) (pi_tool b) (pi_input b) k of
                 Inl e \<Rightarrow> (Inl e, audit_tool ''user'' by required (pi_tool b) ns AuFailed k)
               | Inr output \<Rightarrow> (Inr output, audit_tool ''user'' by required (pi_tool b) ns AuSuccess k)) k)"

section \<open>Standing grants\<close>

definition grant_persistent_tool_invocation ::
  "ustr \<Rightarrow> agent_id \<Rightarrow> plugin_id \<Rightarrow> ustr \<Rightarrow> kernel \<Rightarrow> persistent_grant result" where
  "grant_persistent_tool_invocation by a p tool =
     with_permission ''user'' by a p tool (\<lambda>k. k) (\<lambda>ns required k.
       if \<not> tool_needs_approval p tool k then (Inl (ToolDoesNotRequireApproval (plugin_text p) tool), k)
       else
         let risk = tool_risk_for p tool k in
         case List.find (covers a p tool (as_str required) risk) (vals (persistent_grants k)) of
           Some g \<Rightarrow> (Inr g, k)
         | None \<Rightarrow>
           let k = k\<lparr>next_grant := next_grant k + 1\<rparr>;
               i = numbered ''grant_'' (next_grant k);
               (created, k) = tick k;
               g = \<lparr>grant_id = i, created_by = by, subject_agent = a, plugin_id = plugin_text p, tool_name = tool,
                 grant_permission = as_str required, grant_risk = risk, created_at = created, last_used_at = None\<rparr>;
               k = k\<lparr>persistent_grants := hinsert i g (persistent_grants k)\<rparr>
           in (Inr g, record_audit ''user'' by (cps ''grant:create'') (Some ''grant'') (Some i) (Some ns) AuSuccess k))"

definition revoke_persistent_grant :: "ustr \<Rightarrow> ustr \<Rightarrow> kernel \<Rightarrow> unit result" where
  "revoke_persistent_grant i by k =
     (case get (persistent_grants k) i of None \<Rightarrow> (Inl (UnknownPersistentGrant i), k)
      | Some g \<Rightarrow>
        let k = k\<lparr>persistent_grants := hremove i (persistent_grants k)\<rparr>
        in (Inr (), record_audit ''user'' by (cps ''grant:revoke'') (Some ''grant'') (Some i)
              (namespace_of_agent (subject_agent g) k) AuSuccess k))"

definition allow_always_from_approval :: "approval_id \<Rightarrow> ustr \<Rightarrow> kernel \<Rightarrow> persistent_grant result" where
  "allow_always_from_approval i approver k =
     (case get (pending_tool_invocations k) i of
        None \<Rightarrow> (Inl (NoBoundToolInvocation (approval_text i)), k)
      | Some b \<Rightarrow>
        try_k (grant_persistent_tool_invocation approver (pi_agent b) (pi_plugin b) (pi_tool b) k) (\<lambda>g k.
        try_k (resolve_approval i True approver None k) (\<lambda>_ k. (Inr g, k))))"

end
