(* ===== verification/Relux_Execute.thy ===== *)
theory Relux_Execute
  imports Relux_Tools
begin

text \<open>
  Executing a task (\<open>relux-kernel/src/state.rs\<close>): on the local adapter, which calls tools through the gate
  and is deterministic, or on a command-line adapter, which is a process of the world. A command-line
  run is prepared, spawned and finalized in three steps, as the parallel scheduler needs it. The
  transcript's messages, the log tails, and what an adapter reports beside its verdict and its session
  are left out.
\<close>

section \<open>The text of an error\<close>

fun task_status_label :: "task_status \<Rightarrow> ustr" where
  "task_status_label TCreated = cps ''created''"
| "task_status_label TQueued = cps ''queued''"
| "task_status_label TLeased = cps ''leased''"
| "task_status_label TRunning = cps ''running''"
| "task_status_label TWaitingForTool = cps ''waiting_for_tool''"
| "task_status_label TWaitingForApproval = cps ''waiting_for_approval''"
| "task_status_label TBlocked = cps ''blocked''"
| "task_status_label TCompleted = cps ''completed''"
| "task_status_label TFailed = cps ''failed''"
| "task_status_label TCancelled = cps ''cancelled''"
| "task_status_label TExpired = cps ''expired''"

fun run_status_debug :: "run_status \<Rightarrow> ustr" where
  "run_status_debug RPending = cps ''Pending''"
| "run_status_debug RRunning = cps ''Running''"
| "run_status_debug RWaitingForApproval = cps ''WaitingForApproval''"
| "run_status_debug RCompleted = cps ''Completed''"
| "run_status_debug RFailed = cps ''Failed''"
| "run_status_debug RCancelled = cps ''Cancelled''"

text \<open>The texts of the errors a run can fail with; of the other errors no operation reads the text.\<close>

fun error_text :: "kernel_error \<Rightarrow> ustr" where
  "error_text (UnknownPlugin p) = cps ''unknown plugin: '' @ p"
| "error_text (UnknownAgent a) = cps ''unknown agent: '' @ a"
| "error_text (UnknownTask t) = cps ''unknown task: '' @ t"
| "error_text (UnknownRun r) = cps ''unknown run: '' @ r"
| "error_text (RunNotRetryable r st) = cps ''run '' @ r @ cps '' is not retryable (status '' @ run_status_debug st
     @ cps ''); only failed runs can be retried''"
| "error_text (NoActiveRun t) = cps ''no active run found for task: '' @ t"
| "error_text (TaskNotAssigned t) = cps ''task '' @ t @ cps '' has no assigned agent''"
| "error_text (ToolNotFound p t) = cps ''plugin '' @ p @ cps '' has no tool named '' @ t"
| "error_text (ToolRuntimeUnavailable p t) = cps ''tool '' @ t @ cps '' on plugin '' @ p
     @ cps '' has no runtime handler yet (installed as metadata only; arbitrary plugin code is not executed)''"
| "error_text (ToolRuntimeDisabled p) = cps ''plugin '' @ p @ cps '' has an HTTP loopback runtime configured but it is disabled''"
| "error_text (ToolRuntimeInvocation p t m) = cps ''loopback runtime for '' @ t @ cps '' on '' @ p @ cps '' failed: '' @ m"
| "error_text (InvalidAdapterConfig p m) = cps ''invalid adapter runtime config for '' @ p @ cps '': '' @ m"
| "error_text (AdapterRuntimeNotConfigured p) = cps ''no adapter runtime configured for '' @ p
     @ cps ''; enable it first (disabled by default)''"
| "error_text (AdapterRuntimeDisabled p) = cps ''adapter runtime for '' @ p @ cps '' is configured but disabled''"
| "error_text (AdapterBinaryMissing p b) = cps ''adapter '' @ p @ cps '' binary '' @ 39 # b
     @ 39 # cps '' was not found on PATH; install it or set an explicit command''"
| "error_text (AdapterExecutionFailed p m) = cps ''adapter '' @ p @ cps '' run failed: '' @ m"
| "error_text (PermissionDenied a p) = cps ''permission denied: agent '' @ a @ cps '' lacks '' @ p"
| "error_text (PluginNotInstalled p) = cps ''plugin not installed: '' @ p"
| "error_text (ToolRequiresApproval p t) = cps ''tool '' @ t @ cps '' on plugin '' @ p
     @ cps '' requires approval and cannot be invoked directly yet''"
| "error_text (UnknownMcpServer s) = cps ''unknown MCP server: '' @ s"
| "error_text (McpServerDisabled s) = cps ''MCP server '' @ 39 # s @ 39 # cps '' is disabled; enable it before discovering its tools''"
| "error_text (InvalidMcpToolName s t) = cps ''invalid MCP tool name '' @ 39 # t @ 39 # cps '' for server ''
     @ 39 # s @ 39 # cps '' (must be [A-Za-z0-9._-], non-empty, bounded)''"
| "error_text (LocalAdapterUnsupported t) = cps ''the local Prime adapter is deterministic and cannot fulfil task '' @ t
     @ cps '': it performs no external work (cloning a repository, filesystem or network access, or importing a plugin), and no real Prime brain is configured to do it. To run this as real agent work, enable a Claude or Codex CLI adapter on Crew ''
     @ 8594 # cps '' Adapters and select it as Prime'' @ 39 # cps ''s brain on Crew '' @ 8594 # cps '' Prime Brain, then run it again; to import a repository as a plugin instead, open Plugins ''
     @ 8594 # cps '' + Install '' @ 8594 # cps '' GitHub URL. (OpenRouter is a conversational brain only and cannot execute work runs.)''"
| "error_text _ = []"

section \<open>The active run\<close>

definition running_for :: "task_id \<Rightarrow> run \<Rightarrow> bool" where
  "running_for t r \<longleftrightarrow> r_task r = t \<and> r_status r = RRunning"

definition active_run :: "task_id \<Rightarrow> kernel \<Rightarrow> run_id option" where
  "active_run t k =
     map_option r_id (max_by (\<lambda>a b. r_started_at a \<le> r_started_at b) (filter (running_for t) (vals (runs k))))"

section \<open>The local adapter\<close>

definition nat_text :: "nat \<Rightarrow> ustr" where
  "nat_text n = cps (show_nat n)"

text \<open>The steps of a plan, in order, until one does not run; \<open>i\<close> of \<open>n\<close> are done.\<close>

fun run_tool_steps ::
  "world \<Rightarrow> run_id \<Rightarrow> agent_id \<Rightarrow> nat \<Rightarrow> nat \<Rightarrow> task_tool_call list \<Rightarrow> kernel
    \<Rightarrow> ((kernel_error \<times> ustr) + ustr list) \<times> kernel" where
  "run_tool_steps w r a i n [] k = (Inr [], k)"
| "run_tool_steps w r a i n (s # ss) k =
     (let at = nat_text (i + 1) @ cps ''/'' @ nat_text n in
      case call_tool w r a (PluginId (tc_plugin s)) (tc_tool s) (tc_args s) k of
        (Inl e, k) \<Rightarrow>
          (Inl (e, cps ''tool plan step '' @ at @ cps '' ('' @ tc_tool s @ cps '' via '' @ tc_plugin s
             @ cps '') did not run: '' @ error_text e), k)
      | (Inr _, k) \<Rightarrow>
          (case run_tool_steps w r a (i + 1) n ss k of
             (Inl e, k) \<Rightarrow> (Inl e, k)
           | (Inr ms, k) \<Rightarrow> (Inr ((at @ cps '': '' @ tc_tool s @ cps '' via '' @ tc_plugin s @ cps '' ok'') # ms), k)))"

definition finish_both :: "world \<Rightarrow> run_id \<Rightarrow> task_id \<Rightarrow> ustr \<Rightarrow> kernel \<Rightarrow> run_id result" where
  "finish_both w r t summary k =
     try_k (complete_run w r summary k) (\<lambda>_ k. try_k (complete_task t k) (\<lambda>_ k. (Inr r, k)))"

definition fail_both :: "world \<Rightarrow> run_id \<Rightarrow> task_id \<Rightarrow> ustr \<Rightarrow> kernel \<Rightarrow> kernel" where
  "fail_both w r t reason k = snd (fail_task t (snd (fail_run w r reason k)))"

definition refuse_local :: "world \<Rightarrow> run_id \<Rightarrow> task_id \<Rightarrow> agent_id \<Rightarrow> kernel \<Rightarrow> run_id result" where
  "refuse_local w r t a k =
     try_k (fail_run_classified w r (error_text (LocalAdapterUnsupported (task_text t))) AdapterMissing k) (\<lambda>_ k.
       let (now, k) = tick k;
           ns = namespace_of_task t k;
           k = set_status t TBlocked now k
       in (Inl (LocalAdapterUnsupported (task_text t)),
           record_audit ''agent'' (agent_text a) (cps ''run:refuse_local_unsupported'') (Some ''run'')
             (Some (run_text r)) ns AuFailed k))"

definition execute_local_run :: "world \<Rightarrow> task_id \<Rightarrow> kernel \<Rightarrow> run_id result" where
  "execute_local_run w t k =
     (case get (tasks k) t of None \<Rightarrow> (Inl (UnknownTask (task_text t)), k)
      | Some tk \<Rightarrow> (case t_assigned tk of None \<Rightarrow> (Inl (TaskNotAssigned (task_text t)), k)
      | Some a \<Rightarrow> (case active_run t k of None \<Rightarrow> (Inl (NoActiveRun (task_text t)), k)
      | Some r \<Rightarrow>
        if \<not> contains_key (agents k) a then (Inl (UnknownAgent (agent_text a)), k)
        else case parse_task_tool_plan (t_input tk) of
          Some steps \<Rightarrow>
            (case run_tool_steps w r a 0 (length steps) steps k of
               (Inl (e, reason), k) \<Rightarrow> (Inl e, fail_both w r t reason k)
             | (Inr ms, k) \<Rightarrow> finish_both w r t
                 (cps ''ran '' @ nat_text (length steps) @ cps '' tool step(s): '' @ join (cps ''; '') ms) k)
        | None \<Rightarrow> (case parse_task_tool_call (t_input tk) of
          Some c \<Rightarrow>
            (case call_tool w r a (PluginId (tc_plugin c)) (tc_tool c) (tc_args c) k of
               (Inl e, k) \<Rightarrow> (Inl e, fail_both w r t
                 (cps ''tool '' @ tc_tool c @ cps '' via '' @ tc_plugin c @ cps '' did not run: '' @ error_text e) k)
             | (Inr _, k) \<Rightarrow> finish_both w r t (cps ''ran tool '' @ tc_tool c @ cps '' via '' @ tc_plugin c) k)
        | None \<Rightarrow>
            if local_prime_cannot_fulfill (w_unicode w) (t_title tk) (t_input tk) then refuse_local w r t a k
            else try_k (call_tool w r a echo_plugin echo_say (t_input tk) k)
                   (\<lambda>_ k. finish_both w r t (cps ''echo.say returned the input unchanged'') k)))))"

section \<open>Command-line adapters\<close>

definition agent_of_run :: "run_id \<Rightarrow> kernel \<Rightarrow> ustr" where
  "agent_of_run r k = (case get (runs k) r of Some rn \<Rightarrow> agent_text (r_agent rn) | None \<Rightarrow> cps ''agent'')"

definition fail_cli_run ::
  "world \<Rightarrow> run_id \<Rightarrow> task_id \<Rightarrow> namespace_id option \<Rightarrow> plugin_id \<Rightarrow> ustr \<Rightarrow> run_failure_class \<Rightarrow> kernel \<Rightarrow> kernel" where
  "fail_cli_run w r t ns adapter reason class k =
     (let agent = agent_of_run r k;
          k = snd (fail_run_classified w r reason class k);
          k = snd (fail_task t k)
      in record_audit ''agent'' agent (cps ''adapter:execute'') (Some ''adapter'') (Some (plugin_text adapter)) ns AuFailed k)"

definition cancel_cli_run ::
  "world \<Rightarrow> run_id \<Rightarrow> task_id \<Rightarrow> namespace_id option \<Rightarrow> plugin_id \<Rightarrow> ustr \<Rightarrow> kernel \<Rightarrow> kernel" where
  "cancel_cli_run w r t ns adapter reason k =
     (let agent = agent_of_run r k;
          k = snd (cancel_run w r reason k);
          k = snd (fail_task t k)
      in record_audit ''agent'' agent (cps ''adapter:cancel'') (Some ''adapter'') (Some (plugin_text adapter)) ns AuFailed k)"

text \<open>The session of an earlier run, for a run that resumes it and only then.\<close>

definition resume_session_id :: "run \<Rightarrow> ustr option" where
  "resume_session_id r =
     (if r_resumed_from r = None then None
      else case r_session r of None \<Rightarrow> None
        | Some s \<Rightarrow> if resume_supported s then Some (adapter_session_id s) else None)"

definition prepare_cli_run :: "world \<Rightarrow> task_id \<Rightarrow> plugin_id \<Rightarrow> kernel \<Rightarrow> cli_plan result" where
  "prepare_cli_run w t adapter k =
     (case active_run t k of None \<Rightarrow> (Inl (NoActiveRun (task_text t)), k)
      | Some r \<Rightarrow>
        let ns = namespace_of_task t k;
            fail = (\<lambda>e. (Inl e, fail_cli_run w r t ns adapter (error_text e) AdapterMissing k)) in
        case get (adapter_runtime_configs k) adapter of
          None \<Rightarrow> fail (AdapterRuntimeNotConfigured (plugin_text adapter))
        | Some c \<Rightarrow>
          if \<not> rt_enabled c then fail (AdapterRuntimeDisabled (plugin_text adapter))
          else case resolved_command c of
            None \<Rightarrow> fail (InvalidAdapterConfig (plugin_text adapter) (cps ''no command configured''))
          | Some binary \<Rightarrow>
            if \<not> w_on_path w (clock k) binary then fail (AdapterBinaryMissing (plugin_text adapter) binary)
            else case get (runs k) r of None \<Rightarrow> (Inl (UnknownRun (run_text r)), k)
            | Some rn \<Rightarrow>
              if \<not> contains_key (agents k) (r_agent rn) then (Inl (UnknownRun (run_text r)), k)
              else if \<not> contains_key (tasks k) t then (Inl (UnknownTask (task_text t)), k)
              else (Inr \<lparr>pl_run = r, pl_task = t, pl_adapter = adapter, pl_kind = rt_kind c, pl_binary = binary,
                      pl_namespace = ns, pl_timeout_seconds = rt_timeout_seconds c, pl_resume = resume_session_id rn\<rparr>,
                    push_run_event w r ''adapter_spawn'' (cps ''kernel'') k))"

definition set_run_metrics :: "run_id \<Rightarrow> nat \<Rightarrow> kernel \<Rightarrow> kernel" where
  "set_run_metrics r ms k = k\<lparr>runs := adjust r (\<lambda>x. x\<lparr>r_duration_ms := Some ms\<rparr>) (runs k)\<rparr>"

definition set_run_session :: "run_id \<Rightarrow> ustr option \<Rightarrow> adapter_kind \<Rightarrow> kernel \<Rightarrow> kernel" where
  "set_run_session r sid kind k =
     (case session_from_envelope sid kind of None \<Rightarrow> k
      | Some s \<Rightarrow> k\<lparr>runs := adjust r (\<lambda>x. x\<lparr>r_session := Some s\<rparr>) (runs k)\<rparr>)"

definition render_adapter_summary :: "ustr \<Rightarrow> adapter_outcome \<Rightarrow> adapter_result \<Rightarrow> ustr" where
  "render_adapter_summary binary out parsed =
     (let s = cps ''adapter '' @ 39 # binary @ 39 # cps '' completed (exit 0)'';
          text = trim (ar_text parsed)
      in if text = [] then s
         else s @ cps '': '' @ take 280 text @ (if ao_stdout_truncated out \<or> length text > 280 then [32, 8230] else []))"

definition envelope_class :: "ustr \<Rightarrow> run_failure_class" where
  "envelope_class text =
     (case classify_failure text False of
        TransientProvider \<Rightarrow> TransientProvider
      | Timeout \<Rightarrow> Timeout
      | AuthRequired \<Rightarrow> AuthRequired
      | _ \<Rightarrow> OutputValidation)"

text \<open>\<open>str::lines\<close> joined to what \<open>first_line\<close> makes of it: the first line with something on it, in short.\<close>

definition first_line :: "ustr \<Rightarrow> ustr" where
  "first_line text =
     (case List.find (\<lambda>l. l \<noteq> []) (map trim (str_split [10] text)) of None \<Rightarrow> [] | Some l \<Rightarrow> take 200 l)"

definition int_text :: "int \<Rightarrow> ustr" where
  "int_text i = cps (show_int i)"

definition exit_reason :: "cli_plan \<Rightarrow> adapter_outcome \<Rightarrow> ustr" where
  "exit_reason p out =
     (let who = cps ''adapter '' @ 39 # pl_binary p @ [39] in
      if ao_cancelled out then who @ cps '' was cancelled by operator''
      else if ao_timed_out out then who @ cps '' timed out after '' @ nat_text (pl_timeout_seconds p) @ cps ''s''
      else who @ cps '' exited with code '' @ (case ao_exit_code out of Some c \<Rightarrow> int_text c | None \<Rightarrow> cps ''unknown''))"

definition finalize_cli_run :: "world \<Rightarrow> cli_plan \<Rightarrow> ustr + adapter_outcome \<Rightarrow> kernel \<Rightarrow> run_id result" where
  "finalize_cli_run w p outcome k =
     (let r = pl_run p; t = pl_task p; ns = pl_namespace p; adapter = pl_adapter p;
          failed = (\<lambda>reason. Inl (AdapterExecutionFailed (plugin_text adapter) reason)) in
      case outcome of
        Inl io_error \<Rightarrow>
          let reason = cps ''failed to spawn adapter '' @ 39 # pl_binary p @ 39 # cps '': '' @ io_error
          in (failed reason, fail_cli_run w r t ns adapter reason (classify_failure reason False) k)
      | Inr out \<Rightarrow>
          if ao_success out then
            let parsed = w_parse_result w (ao_stdout out) (pl_kind p);
                summary = render_adapter_summary (pl_binary p) out parsed;
                k = push_run_event w r ''adapter_output'' (cps ''adapter'') k in
            if ar_is_error parsed = Some True then
              let reason = cps ''adapter '' @ 39 # pl_binary p @ 39 # cps '' reported an error: '' @ first_line (ar_text parsed);
                  k = set_run_metrics r (ao_duration_ms out) k;
                  k = set_run_session r (ar_session_id parsed) (pl_kind p) k
              in (failed reason, fail_cli_run w r t ns adapter reason (envelope_class (ar_text parsed)) k)
            else
              try_k (complete_run w r summary k) (\<lambda>_ k.
                let k = set_run_metrics r (ao_duration_ms out) k;
                    k = set_run_session r (ar_session_id parsed) (pl_kind p) k
                in try_k (complete_task t k) (\<lambda>_ k.
                     (Inr r, record_audit ''agent'' (agent_of_run r k) (cps ''adapter:execute'') (Some ''adapter'')
                        (Some (plugin_text adapter)) ns AuSuccess k)))
          else
            let reason = exit_reason p out;
                k = push_run_event w r ''adapter_output'' (cps ''adapter'') k;
                k = set_run_metrics r (ao_duration_ms out) k in
            if ao_cancelled out then (failed reason, cancel_cli_run w r t ns adapter reason k)
            else (failed reason, fail_cli_run w r t ns adapter reason
                    (if ao_timed_out out then Timeout else classify_failure reason False) k))"

definition execute_cli_run :: "world \<Rightarrow> task_id \<Rightarrow> plugin_id \<Rightarrow> kernel \<Rightarrow> run_id result" where
  "execute_cli_run w t adapter k =
     try_k (prepare_cli_run w t adapter k) (\<lambda>p k. finalize_cli_run w p (w_spawn w (clock k) p) k)"

section \<open>An assigned task\<close>

text \<open>The adapter a run executes on, and whether it was redirected from the local one.\<close>

definition effective_run_adapter :: "world \<Rightarrow> agent_id \<Rightarrow> task_id \<Rightarrow> kernel \<Rightarrow> plugin_id \<times> bool" where
  "effective_run_adapter w a t k =
     (case get (agents k) a of None \<Rightarrow> (PluginId LOCAL_PRIME_ADAPTER_ID, False)
      | Some ag \<Rightarrow>
        if recognize_adapter_kind (ag_adapter ag) \<noteq> Some LocalPrime then (ag_adapter ag, False)
        else case get (tasks k) t of None \<Rightarrow> (ag_adapter ag, False)
        | Some tk \<Rightarrow>
          if \<not> local_prime_cannot_fulfill (w_unicode w) (t_title tk) (t_input tk) then (ag_adapter ag, False)
          else case w_brain w (clock k) of Some p \<Rightarrow> (p, True) | None \<Rightarrow> (ag_adapter ag, False))"

definition redirect_run :: "world \<Rightarrow> task_id \<Rightarrow> plugin_id \<Rightarrow> kernel \<Rightarrow> kernel" where
  "redirect_run w t adapter k =
     (case active_run t k of None \<Rightarrow> k
      | Some r \<Rightarrow> push_run_event w r ''adapter_selected'' (cps ''kernel'')
          (k\<lparr>runs := adjust r (\<lambda>x. x\<lparr>r_adapter := adapter\<rparr>) (runs k)\<rparr>))"

definition dispatch :: "world \<Rightarrow> agent_id \<Rightarrow> task_id \<Rightarrow> kernel \<Rightarrow> run_id result" where
  "dispatch w a t k =
     (let (adapter, redirected) = effective_run_adapter w a t k;
          k = (if redirected then redirect_run w t adapter k else k)
      in if recognize_adapter_kind adapter = Some LocalPrime then execute_local_run w t k
         else execute_cli_run w t adapter k)"

definition execute_assigned_run :: "world \<Rightarrow> task_id \<Rightarrow> kernel \<Rightarrow> run_id result" where
  "execute_assigned_run w t k =
     (case get (tasks k) t of None \<Rightarrow> (Inl (UnknownTask (task_text t)), k)
      | Some tk \<Rightarrow> (case t_assigned tk of None \<Rightarrow> (Inl (TaskNotAssigned (task_text t)), k)
      | Some a \<Rightarrow>
        if \<not> contains_key (agents k) a then (Inl (UnknownAgent (agent_text a)), k)
        else if t_status tk = TCreated \<or> t_status tk = TQueued
        then try_k (start_run w t k) (\<lambda>_ k. dispatch w a t k)
        else dispatch w a t k))"

section \<open>Retry and resume\<close>

definition newest_run :: "kernel \<Rightarrow> run_id option" where
  "newest_run k = map_option r_id (max_by (\<lambda>a b. r_id a \<le> r_id b) (vals (runs k)))"

text \<open>The lineage of the run a retry is taken to have made, and its place in the schedule.\<close>

definition stamp_retry :: "world \<Rightarrow> run_id \<Rightarrow> namespace_id \<Rightarrow> bool \<Rightarrow> run_id \<Rightarrow> kernel \<Rightarrow> kernel" where
  "stamp_retry w old ns ok new k =
     (let k = k\<lparr>runs := adjust new (\<lambda>x. x\<lparr>r_retried_from := Some old\<rparr>) (runs k)\<rparr>;
          k = (case get (runs k) new of None \<Rightarrow> k
               | Some rn \<Rightarrow>
                 (case r_failure_class rn of
                    Some class \<Rightarrow>
                      if r_status rn = RFailed \<and> retryable class
                      then k\<lparr>runs := adjust new (\<lambda>x. x\<lparr>r_retry :=
                                retry_plan class (transient_attempt_for new k) (w_now w (clock k))\<rparr>) (runs k)\<rparr>
                      else k
                  | None \<Rightarrow> k));
          k = push_run_event w new ''run_retried_from'' (cps ''kernel'') k
      in record_audit ''user'' (cps ''founder'') (cps ''run:retry'') (Some ''run'') (Some (run_text new)) (Some ns)
           (if ok then AuSuccess else AuFailed) k)"

definition requeue :: "task_id \<Rightarrow> kernel \<Rightarrow> kernel" where
  "requeue t k = (case tick k of (now, k) \<Rightarrow> set_status t TQueued now k)"

definition retry_run :: "world \<Rightarrow> run_id \<Rightarrow> kernel \<Rightarrow> run_id result" where
  "retry_run w r k =
     (case get (runs k) r of None \<Rightarrow> (Inl (UnknownRun (run_text r)), k)
      | Some rn \<Rightarrow>
        if r_status rn \<noteq> RFailed then (Inl (RunNotRetryable (run_text r) (r_status rn)), k)
        else let t = r_task rn in
        case get (tasks k) t of None \<Rightarrow> (Inl (UnknownTask (task_text t)), k)
        | Some tk \<Rightarrow>
          if t_assigned tk = None then (Inl (TaskNotAssigned (task_text t)), k)
          else
            let (res, k) = execute_assigned_run w t (requeue t k) in
            case newest_run k of None \<Rightarrow> (res, k)
            | Some new \<Rightarrow> if new = r then (res, k) else (res, stamp_retry w r (t_namespace tk) (\<not> isl res) new k))"

definition resume_run :: "world \<Rightarrow> run_id \<Rightarrow> kernel \<Rightarrow> run_id result" where
  "resume_run w r k =
     (case get (runs k) r of None \<Rightarrow> (Inl (UnknownRun (run_text r)), k)
      | Some rn \<Rightarrow>
        case plan_resume (r_session rn) (r_status rn = RCompleted \<or> r_status rn = RFailed) of
          NotSupported reason \<Rightarrow> (Inl (RunResumeNotSupported (run_text r) reason), k)
        | Supported _ _ \<Rightarrow>
          let t = r_task rn in
          case get (tasks k) t of None \<Rightarrow> (Inl (UnknownTask (task_text t)), k)
          | Some tk \<Rightarrow> (case t_assigned tk of None \<Rightarrow> (Inl (TaskNotAssigned (task_text t)), k)
          | Some a \<Rightarrow> (case get (agents k) a of None \<Rightarrow> (Inl (UnknownAgent (agent_text a)), k)
          | Some ag \<Rightarrow>
            try_k (start_run w t (requeue t k)) (\<lambda>new k.
              let k = k\<lparr>runs := adjust new (\<lambda>x. x\<lparr>r_resumed_from := Some r, r_session := r_session rn\<rparr>) (runs k)\<rparr>;
                  k = push_run_event w new ''run_resumed_from'' (cps ''kernel'') k;
                  (res, k) = execute_cli_run w t (ag_adapter ag) k;
                  k = record_audit ''user'' (cps ''founder'') (cps ''run:resume'') (Some ''run'') (Some (run_text new))
                        (Some (t_namespace tk)) (if isl res then AuFailed else AuSuccess) k
              in (case res of Inl e \<Rightarrow> Inl e | Inr _ \<Rightarrow> Inr new, k)))))"

end
