(* ===== verification/Relux_Ids.thy ===== *)
theory Relux_Ids
  imports Relux_State
begin

text \<open>
  The numbers in the control plane's names: a counter printed with at least four digits, and the three
  fields of a time stamp. Two names of one kind are equal only for equal numbers, always; their text is
  ordered like the numbers as long as both have the same number of digits, and time stamps are ordered
  like the clock within one day of it.
\<close>

section \<open>Digits\<close>

lemma digits_val_Cons: "digits_val (d # ds) = (d - 48) * 10 ^ length ds + digits_val ds"
proof -
  have f: "foldl (\<lambda>n d. 10 * n + (d - 48)) a ds = a * 10 ^ length ds + foldl (\<lambda>n d. 10 * n + (d - 48)) 0 ds" for a
  proof (induction ds arbitrary: a)
    case (Cons e es)
    show ?case
      unfolding foldl_Cons Cons.IH [of "10 * a + (e - 48)"] Cons.IH [of "10 * 0 + (e - 48)"]
      by (simp add: algebra_simps)
  qed simp
  show ?thesis unfolding digits_val_def foldl_Cons by (subst f) simp
qed

lemma digits_val_Nil [simp]: "digits_val [] = 0"
  by (simp add: digits_val_def)

lemma digits_val_append: "digits_val (ds @ es) = digits_val ds * 10 ^ length es + digits_val es"
  by (induction ds) (simp_all add: digits_val_Cons power_add algebra_simps)

lemma digits_val_bound: "list_all is_ascii_digit ds \<Longrightarrow> digits_val ds < 10 ^ length ds"
proof (induction ds)
  case (Cons d ds)
  then have d: "d - 48 \<le> 9" and v: "digits_val ds < 10 ^ length ds" by (auto simp: is_ascii_digit_def)
  have "(d - 48) * 10 ^ length ds \<le> 9 * 10 ^ length ds" using d by (rule mult_right_mono) simp
  then have "(d - 48) * 10 ^ length ds + digits_val ds < 9 * 10 ^ length ds + 10 ^ length ds"
    using v by (rule add_le_less_mono)
  then show ?case by (simp add: digits_val_Cons)
qed simp

lemma digits_less_iff:
  "length ds = length es \<Longrightarrow> list_all is_ascii_digit ds \<Longrightarrow> list_all is_ascii_digit es \<Longrightarrow>
    ds < es \<longleftrightarrow> digits_val ds < digits_val es"
proof (induction ds es rule: list_induct2)
  case (Cons d ds e es)
  let ?b = "10 ^ length ds :: nat"
  have b: "digits_val ds < ?b" "digits_val es < ?b"
    using Cons.prems Cons.hyps digits_val_bound [of ds] digits_val_bound [of es] by simp_all
  have v: "digits_val (d # ds) = (d - 48) * ?b + digits_val ds" "digits_val (e # es) = (e - 48) * ?b + digits_val es"
    using Cons.hyps by (simp_all add: digits_val_Cons)
  have de: "48 \<le> d" "48 \<le> e" using Cons.prems by (auto simp: is_ascii_digit_def)
  consider "d < e" | "d = e" | "e < d" by linarith
  then show ?case
  proof cases
    case 1
    then have "(d - 48 + 1) * ?b \<le> (e - 48) * ?b" using de by (intro mult_right_mono) auto
    with 1 b v show ?thesis by simp
  next
    case 2
    then show ?thesis using Cons v by simp
  next
    case 3
    then have "(e - 48 + 1) * ?b \<le> (d - 48) * ?b" using de by (intro mult_right_mono) auto
    with 3 b v show ?thesis by simp
  qed
qed simp

lemma cps_append [simp]: "cps (s @ t) = cps s @ cps t"
  by (simp add: cps_def)

lemma cps_Cons: "cps (c # s) = of_char c # cps s"
  by (simp add: cps_def)

lemma length_cps [simp]: "length (cps s) = length s"
  by (simp add: cps_def)

lemma cps_digit: "d < 10 \<Longrightarrow> cps [digit_char d] = [48 + d]"
  by (simp add: cps_def digit_char_def of_char_char_of_lt)

lemma digits_of_show_nat: "digits_val (cps (show_nat n)) = n \<and> list_all is_ascii_digit (cps (show_nat n))"
proof (induction n rule: less_induct)
  case (less n)
  show ?case
  proof (cases "n < 10")
    case True
    then show ?thesis by (simp add: show_nat.simps [of n] cps_digit digits_val_Cons is_ascii_digit_def)
  next
    case False
    then have "show_nat n = show_nat (n div 10) @ [digit_char (n mod 10)]" by (simp add: show_nat.simps [of n])
    moreover have "cps [digit_char (n mod 10)] = [48 + n mod 10]" by (rule cps_digit) simp
    ultimately show ?thesis
      using less.IH [of "n div 10"] False by (simp add: digits_val_append digits_val_Cons is_ascii_digit_def)
  qed
qed

lemma length_show_nat: "0 < w \<Longrightarrow> n < 10 ^ w \<Longrightarrow> length (show_nat n) \<le> w"
proof (induction w arbitrary: n)
  case (Suc w)
  show ?case
  proof (cases "n < 10")
    case True
    then show ?thesis by (simp add: show_nat.simps [of n])
  next
    case False
    then have "0 < w" using Suc.prems by (cases w) auto
    moreover have "n div 10 < 10 ^ w" using Suc.prems(2) by (simp add: div_less_iff_less_mult mult.commute)
    ultimately show ?thesis using False Suc.IH [of "n div 10"] by (simp add: show_nat.simps [of n])
  qed
qed simp

lemma digits_val_zeros: "digits_val (replicate j 48 @ ds) = digits_val ds"
  by (induction j) (simp_all add: digits_val_Cons)

lemma pad_zeros_digits:
  "digits_val (cps (pad_zeros w n)) = n \<and> list_all is_ascii_digit (cps (pad_zeros w n))"
proof -
  have "cps (pad_zeros w n) = replicate (w - length (show_nat n)) 48 @ cps (show_nat n)"
    by (simp add: pad_zeros_def Let_def cps_def)
  then show ?thesis
    using digits_of_show_nat [of n] by (auto simp: digits_val_zeros list_all_iff is_ascii_digit_def)
qed

lemma length_pad_zeros: "0 < w \<Longrightarrow> n < 10 ^ w \<Longrightarrow> length (pad_zeros w n) = w"
  using length_show_nat [of w n] by (simp add: pad_zeros_def Let_def)

section \<open>Numbered names\<close>

lemma numbered_inj [simp]: "numbered p n = numbered p m \<longleftrightarrow> n = m"
proof
  assume "numbered p n = numbered p m"
  then have "cps (pad_zeros 4 n) = cps (pad_zeros 4 m)" by (simp add: numbered_def)
  then show "n = m" using pad_zeros_digits by metis
qed simp

lemma append_less_iff:
  "length a = length b \<Longrightarrow> a @ x < b @ y \<longleftrightarrow> a < b \<or> a = b \<and> x < (y :: 'a :: linorder list)"
  by (induction a b rule: list_induct2) auto

lemma pad_zeros_less_iff:
  "length (pad_zeros w n) = length (pad_zeros w m) \<Longrightarrow> cps (pad_zeros w n) < cps (pad_zeros w m) \<longleftrightarrow> n < m"
  by (simp add: digits_less_iff pad_zeros_digits)

lemma numbered_less_iff:
  "length (pad_zeros 4 n) = length (pad_zeros 4 m) \<Longrightarrow> numbered p n < numbered p m \<longleftrightarrow> n < m"
  by (simp add: numbered_def append_less_iff pad_zeros_less_iff)

definition minted :: "string \<Rightarrow> nat \<Rightarrow> ustr \<Rightarrow> bool" where
  "minted p n s \<longleftrightarrow> (\<exists>i \<ge> 1. i \<le> n \<and> s = numbered p i)"

lemma not_minted_next [simp]: "\<not> minted p n (numbered p (Suc n))"
  by (auto simp: minted_def)

lemma minted_mono: "minted p n s \<Longrightarrow> n \<le> m \<Longrightarrow> minted p m s"
  by (force simp: minted_def)

lemma minted_next [simp]: "minted p (Suc n) (numbered p (Suc n))"
  by (force simp: minted_def)

lemma minted_Suc: "minted p n s \<Longrightarrow> minted p (Suc n) s"
  by (erule minted_mono) simp

section \<open>Time stamps\<close>

lemma clock_pad_less_iff: "a < 100 \<Longrightarrow> b < 100 \<Longrightarrow> cps (pad_zeros 2 a) < cps (pad_zeros 2 b) \<longleftrightarrow> a < b"
  using length_pad_zeros [of 2 a] length_pad_zeros [of 2 b] by (simp add: pad_zeros_less_iff)

lemma clock_pad_eq_iff: "cps (pad_zeros 2 a) = cps (pad_zeros 2 b) \<longleftrightarrow> a = b"
  using pad_zeros_digits [of 2 a] pad_zeros_digits [of 2 b] by metis

lemma render_fields:
  "render t < render u \<longleftrightarrow>
    (t div 3600 mod 24 < u div 3600 mod 24
      \<or> t div 3600 mod 24 = u div 3600 mod 24 \<and> t div 60 mod 60 < u div 60 mod 60
      \<or> t div 3600 mod 24 = u div 3600 mod 24 \<and> t div 60 mod 60 = u div 60 mod 60 \<and> t mod 60 < u mod 60)"
proof -
  have m: "x mod 24 < 100" "x mod 60 < 100" for x :: nat
    by (rule less_trans [OF mod_less_divisor], simp_all)+
  have l: "length (pad_zeros 2 (x mod 24)) = 2" "length (pad_zeros 2 (x mod 60)) = 2" for x
    by (rule length_pad_zeros; use m [of x] in simp)+
  show ?thesis
    by (simp add: render_def cps_Cons append_less_iff l clock_pad_less_iff m clock_pad_eq_iff) blast
qed

lemma fields_less_iff:
  "m < 60 \<Longrightarrow> s < 60 \<Longrightarrow> m' < 60 \<Longrightarrow> s' < (60 :: nat) \<Longrightarrow>
    (h < h' \<or> h = h' \<and> m < m' \<or> h = h' \<and> m = m' \<and> s < s')
      \<longleftrightarrow> 3600 * h + 60 * m + s < 3600 * h' + 60 * m' + s'"
  by linarith

lemma render_less_iff:
  assumes "t < 86400" "u < 86400"
  shows "render t < render u \<longleftrightarrow> t < u"
proof -
  have h: "t div 3600 mod 24 = t div 3600" "u div 3600 mod 24 = u div 3600"
    using assms by (simp_all add: div_less_iff_less_mult)
  have d: "x = 3600 * (x div 3600) + 60 * (x div 60 mod 60) + x mod 60" for x :: nat
  proof -
    have "x div 3600 = x div 60 div 60" by (simp add: div_mult2_eq [symmetric])
    then have "x div 60 = 60 * (x div 3600) + x div 60 mod 60" by simp
    moreover have "x = 60 * (x div 60) + x mod 60" by simp
    ultimately show ?thesis by linarith
  qed
  have r: "x mod 60 < 60" "x div 60 mod 60 < 60" for x :: nat by simp_all
  have "render t < render u \<longleftrightarrow> t div 3600 < u div 3600
      \<or> t div 3600 = u div 3600 \<and> t div 60 mod 60 < u div 60 mod 60
      \<or> t div 3600 = u div 3600 \<and> t div 60 mod 60 = u div 60 mod 60 \<and> t mod 60 < u mod 60"
    unfolding render_fields h by auto
  also have "\<dots> \<longleftrightarrow> t < u"
    unfolding fields_less_iff [OF r(2) r(1) r(2) r(1)] using d [of t] d [of u] by simp
  finally show ?thesis .
qed

end
