(* ===== verification/Relux_Wf.thy ===== *)
theory Relux_Wf
  imports Relux_Execute Relux_Ids
begin

text \<open>
  What every state of the control plane satisfies (\<open>wf\<close>) and how one state may follow another
  (\<open>evolve\<close>): the journals only grow, nothing that was created disappears, a run that has ended stays
  ended, a decided approval stays decided, a bound call stays as it was bound and is used up at most
  once. The contract of an operation, that it keeps both, is the locale \<open>governed\<close>.
\<close>

named_theorems state_simps \<open>what the basic changes of the state leave alone\<close>

section \<open>Well-formed states\<close>

text \<open>Each part of the invariant is about one map, the counter behind its names and the maps it points into.\<close>

definition agents_wf :: "(agent_id, agent) hash_map \<Rightarrow> bool" where
  "agents_wf ags \<longleftrightarrow> wf_map ags \<and> (\<forall>a ag. get ags a = Some ag \<longrightarrow>
     ag_id ag = a \<and> (\<forall>l. ag_reports_to ag = Some l \<longrightarrow> contains_key ags l))"

definition tasks_wf :: "nat \<Rightarrow> (agent_id \<Rightarrow> bool) \<Rightarrow> (task_id, task) hash_map \<Rightarrow> bool" where
  "tasks_wf n known_agent ts \<longleftrightarrow> wf_map ts \<and> (\<forall>t tk. get ts t = Some tk \<longrightarrow>
     t_id tk = t \<and> minted ''task_'' n (task_text t)
     \<and> (\<forall>a. t_assigned tk = Some a \<longrightarrow> known_agent a)
     \<and> (\<forall>p. t_parent tk = Some p \<longrightarrow> map_option t_namespace (get ts p) = Some (t_namespace tk)))"

definition status_ok :: "run \<Rightarrow> bool" where
  "status_ok r \<longleftrightarrow>
     (r_status r = RRunning \<and> r_ended_at r = None
       \<or> r_status r \<in> {RCompleted, RFailed, RCancelled} \<and> r_ended_at r \<noteq> None)
     \<and> (r_status r = RFailed \<longrightarrow> r_failure_class r \<noteq> None)
     \<and> (r_retry r \<noteq> None \<longrightarrow> (\<exists>c. r_failure_class r = Some c \<and> retryable c))"

definition runs_wf ::
  "nat \<Rightarrow> nat \<Rightarrow> (task_id \<Rightarrow> bool) \<Rightarrow> (agent_id \<Rightarrow> bool) \<Rightarrow> (run_id, run) hash_map \<Rightarrow> bool" where
  "runs_wf n now known_task known_agent rs \<longleftrightarrow> wf_map rs \<and> (\<forall>r rn. get rs r = Some rn \<longrightarrow>
     r_id rn = r \<and> minted ''run_'' n (run_text r) \<and> (\<exists>c < now. r_started_at rn = Some (render c))
     \<and> known_task (r_task rn) \<and> known_agent (r_agent rn) \<and> status_ok rn)"

definition decision_ok :: "approval \<Rightarrow> bool" where
  "decision_ok ap \<longleftrightarrow> (ap_status ap = ApPending \<longleftrightarrow> ap_approved_by ap = None)
     \<and> (ap_status ap = ApPending \<longleftrightarrow> ap_resolved_at ap = None)"

definition approvals_wf :: "nat \<Rightarrow> (approval_id, approval) hash_map \<Rightarrow> bool" where
  "approvals_wf n aps \<longleftrightarrow> wf_map aps \<and> (\<forall>i ap. get aps i = Some ap \<longrightarrow>
     ap_id ap = i \<and> minted ''appr_'' n (approval_text i) \<and> decision_ok ap)"

definition bindings_wf ::
  "(approval_id, approval) hash_map \<Rightarrow> (approval_id, pending_tool_invocation) hash_map \<Rightarrow> bool" where
  "bindings_wf aps bs \<longleftrightarrow> wf_map bs \<and> (\<forall>i b. get bs i = Some b \<longrightarrow>
     (\<exists>ap. get aps i = Some ap \<and> ap_status ap \<noteq> ApRejected))"

definition numbered_from_one :: "string \<Rightarrow> nat \<Rightarrow> ustr list \<Rightarrow> bool" where
  "numbered_from_one p n ids \<longleftrightarrow> ids = map (numbered p) [1..<Suc n]"

definition wf :: "kernel \<Rightarrow> bool" where
  "wf k \<longleftrightarrow>
     agents_wf (agents k)
     \<and> tasks_wf (next_task k) (contains_key (agents k)) (tasks k)
     \<and> runs_wf (next_run k) (clock k) (contains_key (tasks k)) (contains_key (agents k)) (runs k)
     \<and> approvals_wf (next_approval k) (approvals k)
     \<and> bindings_wf (approvals k) (pending_tool_invocations k)
     \<and> wf_map (persistent_grants k)
     \<and> numbered_from_one ''audit_'' (next_audit k) (map au_id (audit_log k))
     \<and> numbered_from_one ''revent_'' (next_event k) (map ev_id (run_events k))"

lemma agents_wfD:
  "agents_wf ags \<Longrightarrow> get ags a = Some ag \<Longrightarrow>
    ag_id ag = a \<and> (\<forall>l. ag_reports_to ag = Some l \<longrightarrow> contains_key ags l)"
  by (simp add: agents_wf_def)

lemma tasks_wfD:
  "tasks_wf n A ts \<Longrightarrow> get ts t = Some tk \<Longrightarrow>
    t_id tk = t \<and> minted ''task_'' n (task_text t) \<and> (\<forall>a. t_assigned tk = Some a \<longrightarrow> A a)
    \<and> (\<forall>p. t_parent tk = Some p \<longrightarrow> map_option t_namespace (get ts p) = Some (t_namespace tk))"
  by (simp add: tasks_wf_def)

lemma runs_wfD:
  "runs_wf n now T A rs \<Longrightarrow> get rs r = Some rn \<Longrightarrow>
    r_id rn = r \<and> minted ''run_'' n (run_text r) \<and> (\<exists>c < now. r_started_at rn = Some (render c))
    \<and> T (r_task rn) \<and> A (r_agent rn) \<and> status_ok rn"
  by (simp add: runs_wf_def)

lemma approvals_wfD:
  "approvals_wf n aps \<Longrightarrow> get aps i = Some ap \<Longrightarrow> ap_id ap = i \<and> minted ''appr_'' n (approval_text i) \<and> decision_ok ap"
  by (simp add: approvals_wf_def)

lemma bindings_wfD:
  "bindings_wf aps bs \<Longrightarrow> get bs i = Some b \<Longrightarrow> \<exists>ap. get aps i = Some ap \<and> ap_status ap \<noteq> ApRejected"
  by (simp add: bindings_wf_def)

lemma tasks_wf_mono: "tasks_wf n A ts \<Longrightarrow> (\<And>a. A a \<Longrightarrow> B a) \<Longrightarrow> tasks_wf n B ts"
  by (auto simp: tasks_wf_def)

lemma runs_wf_mono:
  "runs_wf n now T A rs \<Longrightarrow> (\<And>t. T t \<Longrightarrow> U t) \<Longrightarrow> (\<And>a. A a \<Longrightarrow> B a) \<Longrightarrow> runs_wf n now U B rs"
  unfolding runs_wf_def by blast

lemma runs_wf_later: "runs_wf n now T A rs \<Longrightarrow> now \<le> later \<Longrightarrow> runs_wf n later T A rs"
  unfolding runs_wf_def by (meson less_le_trans)

lemma runs_wf_Suc [simp]: "runs_wf n now T A rs \<Longrightarrow> runs_wf n (Suc now) T A rs"
  by (erule runs_wf_later) simp

section \<open>One state after another\<close>

definition agent_evolves :: "agent \<Rightarrow> agent \<Rightarrow> bool" where
  "agent_evolves a b \<longleftrightarrow> ag_namespace b = ag_namespace a"

definition task_evolves :: "task \<Rightarrow> task \<Rightarrow> bool" where
  "task_evolves a b \<longleftrightarrow> t_namespace b = t_namespace a \<and> t_required b = t_required a
     \<and> t_created_by b = t_created_by a"

definition run_evolves :: "run \<Rightarrow> run \<Rightarrow> bool" where
  "run_evolves a b \<longleftrightarrow> r_task b = r_task a \<and> r_agent b = r_agent a \<and> r_started_at b = r_started_at a
     \<and> (r_status b = RRunning \<longrightarrow> r_status a = RRunning)"

definition approval_evolves :: "approval \<Rightarrow> approval \<Rightarrow> bool" where
  "approval_evolves a b \<longleftrightarrow> ap_action b = ap_action a \<and> ap_risk b = ap_risk a \<and> ap_requested_by b = ap_requested_by a
     \<and> (ap_status b = ApPending \<longrightarrow> ap_status a = ApPending)"

definition binding_evolves :: "pending_tool_invocation \<Rightarrow> pending_tool_invocation \<Rightarrow> bool" where
  "binding_evolves a b \<longleftrightarrow> b\<lparr>pi_consumed := pi_consumed a\<rparr> = a \<and> (pi_consumed a \<longrightarrow> pi_consumed b)"

definition keeps :: "('v \<Rightarrow> 'v \<Rightarrow> bool) \<Rightarrow> ('k, 'v) hash_map \<Rightarrow> ('k, 'v) hash_map \<Rightarrow> bool" where
  "keeps R m n \<longleftrightarrow> (\<forall>k v. get m k = Some v \<longrightarrow> (\<exists>v'. get n k = Some v' \<and> R v v'))"

definition grows :: "'a list \<Rightarrow> 'a list \<Rightarrow> bool" where
  "grows xs ys \<longleftrightarrow> (\<exists>zs. ys = xs @ zs)"

definition evolve :: "kernel \<Rightarrow> kernel \<Rightarrow> bool" where
  "evolve k k' \<longleftrightarrow>
     grows (audit_log k) (audit_log k') \<and> grows (run_events k) (run_events k')
     \<and> clock k \<le> clock k' \<and> next_task k \<le> next_task k' \<and> next_run k \<le> next_run k' \<and> next_approval k \<le> next_approval k'
     \<and> keeps agent_evolves (agents k) (agents k') \<and> keeps task_evolves (tasks k) (tasks k')
     \<and> keeps run_evolves (runs k) (runs k') \<and> keeps approval_evolves (approvals k) (approvals k')
     \<and> (\<forall>i b'. get (pending_tool_invocations k') i = Some b' \<longrightarrow> contains_key (approvals k) i \<longrightarrow>
          (\<exists>b. get (pending_tool_invocations k) i = Some b \<and> binding_evolves b b'))"

definition steps :: "kernel \<Rightarrow> kernel \<Rightarrow> bool" where
  "steps k k' \<longleftrightarrow> (wf k \<longrightarrow> wf k' \<and> evolve k k')"

lemmas evolves_defs = agent_evolves_def task_evolves_def run_evolves_def approval_evolves_def binding_evolves_def

lemma keeps_refl: "(\<And>v. R v v) \<Longrightarrow> keeps R m m"
  by (auto simp: keeps_def)

lemma keeps_trans:
  assumes "keeps R m n" "keeps R n p" "\<And>a b c. R a b \<Longrightarrow> R b c \<Longrightarrow> R a c"
  shows "keeps R m p"
  unfolding keeps_def
proof (intro allI impI)
  fix k v
  assume "get m k = Some v"
  then obtain v' where "get n k = Some v'" "R v v'" using assms(1) unfolding keeps_def by blast
  moreover then obtain v'' where "get p k = Some v''" "R v' v''" using assms(2) unfolding keeps_def by blast
  ultimately show "\<exists>v''. get p k = Some v'' \<and> R v v''" using assms(3) by blast
qed

lemma grows_refl [simp]: "grows xs xs"
  by (simp add: grows_def)

lemma grows_snoc [simp]: "grows xs (xs @ ys)"
  by (simp add: grows_def)

lemma grows_trans: "grows xs ys \<Longrightarrow> grows ys zs \<Longrightarrow> grows xs zs"
  by (auto simp: grows_def)

lemma evolves_refl [simp]:
  "agent_evolves a a" "task_evolves t t" "run_evolves r r" "approval_evolves p p" "binding_evolves b b"
  by (simp_all add: evolves_defs)

lemma evolves_trans:
  "agent_evolves a b \<Longrightarrow> agent_evolves b c \<Longrightarrow> agent_evolves a c"
  "task_evolves t u \<Longrightarrow> task_evolves u v \<Longrightarrow> task_evolves t v"
  "run_evolves r s \<Longrightarrow> run_evolves s q \<Longrightarrow> run_evolves r q"
  "approval_evolves p p' \<Longrightarrow> approval_evolves p' p'' \<Longrightarrow> approval_evolves p p''"
  by (auto simp: evolves_defs)

lemma binding_evolves_trans: "binding_evolves b c \<Longrightarrow> binding_evolves c d \<Longrightarrow> binding_evolves b d"
  by (cases b; cases c; cases d) (auto simp: binding_evolves_def)

lemma keeps_contains: "keeps R m n \<Longrightarrow> contains_key m k \<Longrightarrow> contains_key n k"
  by (auto simp: keeps_def contains_key_iff)

lemma evolve_refl [simp]: "evolve k k"
  by (auto simp: evolve_def intro!: keeps_refl)

lemmas keeps_evolves_trans =
  keeps_trans [where R = agent_evolves, OF _ _ evolves_trans(1)]
  keeps_trans [where R = task_evolves, OF _ _ evolves_trans(2)]
  keeps_trans [where R = run_evolves, OF _ _ evolves_trans(3)]
  keeps_trans [where R = approval_evolves, OF _ _ evolves_trans(4)]

lemma evolveD:
  assumes "evolve k k'"
  shows "keeps agent_evolves (agents k) (agents k')" "keeps task_evolves (tasks k) (tasks k')"
    "keeps run_evolves (runs k) (runs k')" "keeps approval_evolves (approvals k) (approvals k')"
    "grows (audit_log k) (audit_log k')" "grows (run_events k) (run_events k')"
    "clock k \<le> clock k'" "next_task k \<le> next_task k'" "next_run k \<le> next_run k'"
    "next_approval k \<le> next_approval k'"
  using assms by (simp_all add: evolve_def)

lemma evolve_binding:
  "evolve k k' \<Longrightarrow> get (pending_tool_invocations k') i = Some b' \<Longrightarrow> contains_key (approvals k) i \<Longrightarrow>
    \<exists>b. get (pending_tool_invocations k) i = Some b \<and> binding_evolves b b'"
  by (simp add: evolve_def)

lemma evolve_trans:
  assumes a: "evolve k k'" and b: "evolve k' k''"
  shows "evolve k k''"
proof -
  have "\<exists>b. get (pending_tool_invocations k) i = Some b \<and> binding_evolves b b''"
    if b'': "get (pending_tool_invocations k'') i = Some b''" and i: "contains_key (approvals k) i" for i b''
  proof -
    have "contains_key (approvals k') i" by (rule keeps_contains [OF evolveD(4) [OF a] i])
    then obtain b' where b': "get (pending_tool_invocations k') i = Some b'" "binding_evolves b' b''"
      using evolve_binding [OF b b''] by blast
    then obtain c where "get (pending_tool_invocations k) i = Some c" "binding_evolves c b'"
      using evolve_binding [OF a b'(1) i] by blast
    then show ?thesis using binding_evolves_trans b'(2) by blast
  qed
  then show ?thesis
    unfolding evolve_def
    by (intro conjI allI impI keeps_evolves_trans(1) [OF evolveD(1) [OF a] evolveD(1) [OF b]]
        keeps_evolves_trans(2) [OF evolveD(2) [OF a] evolveD(2) [OF b]]
        keeps_evolves_trans(3) [OF evolveD(3) [OF a] evolveD(3) [OF b]]
        keeps_evolves_trans(4) [OF evolveD(4) [OF a] evolveD(4) [OF b]]
        grows_trans [OF evolveD(5) [OF a] evolveD(5) [OF b]] grows_trans [OF evolveD(6) [OF a] evolveD(6) [OF b]]
        order_trans [OF evolveD(7) [OF a] evolveD(7) [OF b]] order_trans [OF evolveD(8) [OF a] evolveD(8) [OF b]]
        order_trans [OF evolveD(9) [OF a] evolveD(9) [OF b]] order_trans [OF evolveD(10) [OF a] evolveD(10) [OF b]])
      blast
qed

lemma steps_refl [simp]: "steps k k"
  by (simp add: steps_def)

lemma governed_trans: "steps k k' \<Longrightarrow> steps k' k'' \<Longrightarrow> steps k k''"
  using evolve_trans by (auto simp: steps_def)

end
