(* ===== verification/Relux_Steps.thy ===== *)
theory Relux_Steps
  imports Relux_Wf
begin

text \<open>
  The basic changes of the state keep the invariant and let the state evolve: a tick, an entry in a
  journal, a change of one record in a map, a new record under a new name. Every operation is proved
  from these by the rules \<open>steps_intros\<close>, which peel one change after the other off its result.
\<close>

named_theorems steps_intros \<open>one more basic change\<close>

section \<open>Ticks and journals\<close>

definition advance :: "kernel \<Rightarrow> kernel" where
  "advance k = k\<lparr>clock := clock k + 1\<rparr>"

lemma tick_advance [state_simps]: "tick k = (render (clock k), advance k)"
  by (simp add: tick_def advance_def)

lemma advance_sel [state_simps]:
  "plugins (advance k) = plugins k"
  "installed_plugins (advance k) = installed_plugins k"
  "mcp_servers (advance k) = mcp_servers k"
  "adapter_runtime_configs (advance k) = adapter_runtime_configs k"
  "agents (advance k) = agents k"
  "tasks (advance k) = tasks k"
  "runs (advance k) = runs k"
  "approvals (advance k) = approvals k"
  "pending_tool_invocations (advance k) = pending_tool_invocations k"
  "persistent_grants (advance k) = persistent_grants k"
  "orchestrations (advance k) = orchestrations k"
  "run_events (advance k) = run_events k"
  "audit_log (advance k) = audit_log k"
  "run_watchdog (advance k) = run_watchdog k"
  "autonomy_config (advance k) = autonomy_config k"
  "agent_policy (advance k) = agent_policy k"
  "next_task (advance k) = next_task k"
  "next_run (advance k) = next_run k"
  "next_approval (advance k) = next_approval k"
  "next_audit (advance k) = next_audit k"
  "next_event (advance k) = next_event k"
  "next_orchestration (advance k) = next_orchestration k"
  "next_grant (advance k) = next_grant k"
  by (simp_all add: advance_def)

lemma record_audit_sel [state_simps]:
  "plugins (record_audit ty a c tt tg ns res k) = plugins k"
  "installed_plugins (record_audit ty a c tt tg ns res k) = installed_plugins k"
  "mcp_servers (record_audit ty a c tt tg ns res k) = mcp_servers k"
  "adapter_runtime_configs (record_audit ty a c tt tg ns res k) = adapter_runtime_configs k"
  "agents (record_audit ty a c tt tg ns res k) = agents k"
  "tasks (record_audit ty a c tt tg ns res k) = tasks k"
  "runs (record_audit ty a c tt tg ns res k) = runs k"
  "approvals (record_audit ty a c tt tg ns res k) = approvals k"
  "pending_tool_invocations (record_audit ty a c tt tg ns res k) = pending_tool_invocations k"
  "persistent_grants (record_audit ty a c tt tg ns res k) = persistent_grants k"
  "orchestrations (record_audit ty a c tt tg ns res k) = orchestrations k"
  "run_events (record_audit ty a c tt tg ns res k) = run_events k"
  "run_watchdog (record_audit ty a c tt tg ns res k) = run_watchdog k"
  "autonomy_config (record_audit ty a c tt tg ns res k) = autonomy_config k"
  "agent_policy (record_audit ty a c tt tg ns res k) = agent_policy k"
  "next_task (record_audit ty a c tt tg ns res k) = next_task k"
  "next_run (record_audit ty a c tt tg ns res k) = next_run k"
  "next_approval (record_audit ty a c tt tg ns res k) = next_approval k"
  "next_event (record_audit ty a c tt tg ns res k) = next_event k"
  "next_orchestration (record_audit ty a c tt tg ns res k) = next_orchestration k"
  "next_grant (record_audit ty a c tt tg ns res k) = next_grant k"
  by (simp_all add: record_audit_def Let_def tick_def)

lemma push_run_event_sel [state_simps]:
  "plugins (push_run_event w r kd src k) = plugins k"
  "installed_plugins (push_run_event w r kd src k) = installed_plugins k"
  "mcp_servers (push_run_event w r kd src k) = mcp_servers k"
  "adapter_runtime_configs (push_run_event w r kd src k) = adapter_runtime_configs k"
  "agents (push_run_event w r kd src k) = agents k"
  "tasks (push_run_event w r kd src k) = tasks k"
  "approvals (push_run_event w r kd src k) = approvals k"
  "pending_tool_invocations (push_run_event w r kd src k) = pending_tool_invocations k"
  "persistent_grants (push_run_event w r kd src k) = persistent_grants k"
  "orchestrations (push_run_event w r kd src k) = orchestrations k"
  "audit_log (push_run_event w r kd src k) = audit_log k"
  "run_watchdog (push_run_event w r kd src k) = run_watchdog k"
  "autonomy_config (push_run_event w r kd src k) = autonomy_config k"
  "agent_policy (push_run_event w r kd src k) = agent_policy k"
  "next_task (push_run_event w r kd src k) = next_task k"
  "next_run (push_run_event w r kd src k) = next_run k"
  "next_approval (push_run_event w r kd src k) = next_approval k"
  "next_audit (push_run_event w r kd src k) = next_audit k"
  "next_orchestration (push_run_event w r kd src k) = next_orchestration k"
  "next_grant (push_run_event w r kd src k) = next_grant k"
  by (simp_all add: push_run_event_def Let_def tick_def)

lemma push_run_event_runs [state_simps]:
  "runs (push_run_event w r kd src k) = adjust r (\<lambda>x. x\<lparr>r_last_activity := Some (w_now w (clock k + 1))\<rparr>) (runs k)"
  by (simp add: push_run_event_def Let_def tick_def)

lemma numbered_from_one_snoc:
  "numbered_from_one p n ids \<Longrightarrow> numbered_from_one p (Suc n) (ids @ [numbered p (Suc n)])"
  by (simp add: numbered_from_one_def)

lemma wf_advance: "wf k \<Longrightarrow> wf (advance k)"
  by (simp add: wf_def advance_def)

lemma evolve_advance: "evolve k (advance k)"
  by (auto simp: evolve_def advance_def intro!: keeps_refl)

lemma steps_advance [steps_intros]: "steps k0 k \<Longrightarrow> steps k0 (advance k)"
  by (erule governed_trans) (simp add: steps_def wf_advance evolve_advance)

lemma wf_record_audit: "wf k \<Longrightarrow> wf (record_audit ty a c tt tg ns res k)"
  by (simp add: wf_def record_audit_def Let_def tick_def numbered_from_one_snoc)

lemma evolve_record_audit: "evolve k (record_audit ty a c tt tg ns res k)"
  by (auto simp: evolve_def record_audit_def Let_def tick_def intro!: keeps_refl)

lemma steps_audit [steps_intros]: "steps k0 k \<Longrightarrow> steps k0 (record_audit ty a c tt tg ns res k)"
  by (erule governed_trans) (simp add: steps_def wf_record_audit evolve_record_audit)

section \<open>One record of a map\<close>

lemma keeps_adjust: "(\<And>v. R v v) \<Longrightarrow> (\<And>v. get m j = Some v \<Longrightarrow> R v (f v)) \<Longrightarrow> keeps R m (adjust j f m)"
  by (auto simp: keeps_def)

lemma keeps_hinsert: "(\<And>v. R v v) \<Longrightarrow> \<not> contains_key m j \<Longrightarrow> keeps R m (hinsert j v m)"
  by (auto simp: keeps_def contains_key_iff)

definition run_change :: "run \<Rightarrow> run \<Rightarrow> bool" where
  "run_change x y \<longleftrightarrow> r_id y = r_id x \<and> run_evolves x y \<and> (status_ok x \<longrightarrow> status_ok y)"

lemma steps_runs [steps_intros]:
  assumes "steps k0 k" "R = runs k" "\<And>x. get (runs k) r = Some x \<Longrightarrow> run_change x (f x)"
  shows "steps k0 (k\<lparr>runs := adjust r f R\<rparr>)"
proof -
  have "runs_wf n now T A (adjust r f (runs k))" if "runs_wf n now T A (runs k)" for n now T A
    unfolding runs_wf_def
  proof (intro conjI allI impI)
    show "wf_map (adjust r f (runs k))" using that by (simp add: runs_wf_def)
    fix s x
    assume "get (adjust r f (runs k)) s = Some x"
    then obtain y where y: "get (runs k) s = Some y" "x = y \<or> s = r \<and> x = f y"
      by (auto split: if_splits)
    then have "x = y \<or> run_change y x" using assms(3) by blast
    with runs_wfD [OF that y(1)]
    show "r_id x = s" "minted ''run_'' n (run_text s)" "\<exists>c < now. r_started_at x = Some (render c)" "T (r_task x)" "A (r_agent x)" "status_ok x"
      by (auto simp: run_change_def run_evolves_def)
  qed
  then have "wf k \<Longrightarrow> wf (k\<lparr>runs := adjust r f (runs k)\<rparr>)" by (simp add: wf_def)
  moreover have "evolve k (k\<lparr>runs := adjust r f (runs k)\<rparr>)"
    using assms(3) by (auto simp: evolve_def run_change_def intro!: keeps_refl keeps_adjust)
  ultimately have "steps k (k\<lparr>runs := adjust r f R\<rparr>)" by (simp add: steps_def assms(2))
  with assms(1) show ?thesis by (rule governed_trans)
qed

lemma steps_event [steps_intros]: "steps k0 k \<Longrightarrow> steps k0 (push_run_event w r kd src k)"
proof (erule governed_trans)
  let ?j = "k\<lparr>next_event := next_event k + 1, clock := clock k + 1,
    run_events := run_events k @ [\<lparr>ev_id = numbered ''revent_'' (next_event k + 1), ev_run = r,
      ev_ts = render (clock k), ev_kind = cps kd, ev_source = src\<rparr>]\<rparr>"
  have "steps k ?j"
    by (auto simp: steps_def wf_def evolve_def numbered_from_one_snoc intro!: keeps_refl)
  then have "steps k (?j\<lparr>runs := adjust r (\<lambda>x. x\<lparr>r_last_activity := Some (w_now w (clock k + 1))\<rparr>) (runs k)\<rparr>)"
    by (rule steps_runs) (auto simp: run_change_def run_evolves_def status_ok_def)
  then show "steps k (push_run_event w r kd src k)"
    by (simp add: push_run_event_def Let_def tick_def)
qed

definition task_change :: "kernel \<Rightarrow> task \<Rightarrow> task \<Rightarrow> bool" where
  "task_change k x y \<longleftrightarrow> t_id y = t_id x \<and> task_evolves x y
     \<and> (t_assigned y = t_assigned x \<or> (\<exists>a. t_assigned y = Some a \<and> contains_key (agents k) a))
     \<and> (t_parent y = t_parent x \<or> t_parent y = None
        \<or> (\<exists>p. t_parent y = Some p \<and> map_option t_namespace (get (tasks k) p) = Some (t_namespace x)))"

lemma steps_tasks [steps_intros]:
  assumes "steps k0 k" "R = tasks k" "\<And>x. get (tasks k) t = Some x \<Longrightarrow> task_change k x (f x)"
  shows "steps k0 (k\<lparr>tasks := adjust t f R\<rparr>)"
proof -
  have ns: "map_option t_namespace (get (adjust t f (tasks k)) p) = map_option t_namespace (get (tasks k) p)" for p
    using assms(3) by (cases "get (tasks k) t") (auto simp: task_change_def task_evolves_def)
  have "tasks_wf n (contains_key (agents k)) (adjust t f (tasks k))"
    if "tasks_wf n (contains_key (agents k)) (tasks k)" for n
    unfolding tasks_wf_def
  proof (intro conjI allI impI)
    show "wf_map (adjust t f (tasks k))" using that by (simp add: tasks_wf_def)
    fix u x
    assume "get (adjust t f (tasks k)) u = Some x"
    then obtain y where y: "get (tasks k) u = Some y" "x = y \<or> u = t \<and> x = f y"
      by (auto split: if_splits)
    then have c: "x = y \<or> task_change k y x" using assms(3) by blast
    note ok = tasks_wfD [OF that y(1)]
    show "t_id x = u" "minted ''task_'' n (task_text u)" using c ok by (auto simp: task_change_def)
    show "contains_key (agents k) a" if "t_assigned x = Some a" for a
      using c ok that by (auto simp: task_change_def)
    show "map_option t_namespace (get (adjust t f (tasks k)) p) = Some (t_namespace x)" if "t_parent x = Some p" for p
      unfolding ns using c ok that by (auto simp: task_change_def task_evolves_def)
  qed
  then have "wf k \<Longrightarrow> wf (k\<lparr>tasks := adjust t f (tasks k)\<rparr>)"
    by (auto simp: wf_def elim: runs_wf_mono)
  moreover have "evolve k (k\<lparr>tasks := adjust t f (tasks k)\<rparr>)"
    using assms(3) by (auto simp: evolve_def task_change_def intro!: keeps_refl keeps_adjust)
  ultimately have "steps k (k\<lparr>tasks := adjust t f R\<rparr>)" by (simp add: steps_def assms(2))
  with assms(1) show ?thesis by (rule governed_trans)
qed

definition agent_change :: "kernel \<Rightarrow> agent \<Rightarrow> agent \<Rightarrow> bool" where
  "agent_change k x y \<longleftrightarrow> ag_id y = ag_id x \<and> agent_evolves x y
     \<and> (ag_reports_to y = ag_reports_to x \<or> ag_reports_to y = None
        \<or> (\<exists>l. ag_reports_to y = Some l \<and> contains_key (agents k) l))"

lemma steps_agents [steps_intros]:
  assumes "steps k0 k" "R = agents k" "\<And>x. get (agents k) a = Some x \<Longrightarrow> agent_change k x (f x)"
  shows "steps k0 (k\<lparr>agents := adjust a f R\<rparr>)"
proof -
  have "agents_wf (adjust a f (agents k))"
    if "agents_wf (agents k)"
    unfolding agents_wf_def
  proof (intro conjI allI impI)
    show "wf_map (adjust a f (agents k))" using that by (simp add: agents_wf_def)
    fix b x
    assume "get (adjust a f (agents k)) b = Some x"
    then obtain y where y: "get (agents k) b = Some y" "x = y \<or> b = a \<and> x = f y"
      by (auto split: if_splits)
    then have c: "x = y \<or> agent_change k y x" using assms(3) by blast
    note ok = agents_wfD [OF that y(1)]
    show "ag_id x = b" using c ok by (auto simp: agent_change_def)
    show "contains_key (adjust a f (agents k)) l" if "ag_reports_to x = Some l" for l
      using c ok that by (auto simp: agent_change_def)
  qed
  then have "wf k \<Longrightarrow> wf (k\<lparr>agents := adjust a f (agents k)\<rparr>)"
    by (auto simp: wf_def elim: runs_wf_mono tasks_wf_mono)
  moreover have "evolve k (k\<lparr>agents := adjust a f (agents k)\<rparr>)"
    using assms(3) by (auto simp: evolve_def agent_change_def intro!: keeps_refl keeps_adjust)
  ultimately have "steps k (k\<lparr>agents := adjust a f R\<rparr>)" by (simp add: steps_def assms(2))
  with assms(1) show ?thesis by (rule governed_trans)
qed

lemma steps_orchestrations [steps_intros]: "steps k0 k \<Longrightarrow> steps k0 (k\<lparr>orchestrations := os\<rparr>)"
  by (erule governed_trans) (auto simp: steps_def wf_def evolve_def intro!: keeps_refl)

lemma steps_catalog [steps_intros]:
  "steps k0 k \<Longrightarrow> steps k0 (k\<lparr>plugins := ps\<rparr>)"
  "steps k0 k \<Longrightarrow> steps k0 (k\<lparr>installed_plugins := ips\<rparr>)"
  "steps k0 k \<Longrightarrow> steps k0 (k\<lparr>mcp_servers := ms\<rparr>)"
  "steps k0 k \<Longrightarrow> steps k0 (k\<lparr>adapter_runtime_configs := rts\<rparr>)"
  by (erule governed_trans, auto simp: steps_def wf_def evolve_def intro!: keeps_refl)+

lemma steps_counters [steps_intros]:
  "steps k0 k \<Longrightarrow> steps k0 (k\<lparr>next_orchestration := n\<rparr>)"
  "steps k0 k \<Longrightarrow> steps k0 (k\<lparr>next_grant := n\<rparr>)"
  "steps k0 k \<Longrightarrow> steps k0 (k\<lparr>run_watchdog := c\<rparr>)"
  by (erule governed_trans, auto simp: steps_def wf_def evolve_def intro!: keeps_refl)+

lemma steps_grants [steps_intros]:
  "steps k0 k \<Longrightarrow> (wf_map (persistent_grants k) \<Longrightarrow> wf_map gs) \<Longrightarrow> steps k0 (k\<lparr>persistent_grants := gs\<rparr>)"
  by (erule governed_trans) (auto simp: steps_def wf_def evolve_def intro!: keeps_refl)

section \<open>Approvals and their bindings\<close>

definition decide :: "bool \<Rightarrow> ustr \<Rightarrow> ustr \<Rightarrow> ustr option \<Rightarrow> approval \<Rightarrow> approval" where
  "decide ok by at note ap = ap\<lparr>ap_status := (if ok then ApApproved else ApRejected), ap_approved_by := Some by,
     ap_resolved_at := Some at, ap_note := note\<rparr>"

lemma decide_ok:
  "decision_ok (decide ok by at note ap)" "ap_id (decide ok by at note ap) = ap_id ap"
  "approval_evolves ap (decide ok by at note ap)"
  "ap_status (decide ok by at note ap) = (if ok then ApApproved else ApRejected)"
  by (auto simp: decide_def decision_ok_def approval_evolves_def)

lemma approvals_wf_decide:
  assumes "approvals_wf n aps"
  shows "approvals_wf n (adjust i (decide ok by at note) aps)"
  unfolding approvals_wf_def
proof (intro conjI allI impI)
  show "wf_map (adjust i (decide ok by at note) aps)" using assms by (simp add: approvals_wf_def)
  fix j x
  assume "get (adjust i (decide ok by at note) aps) j = Some x"
  then obtain y where y: "get aps j = Some y" "x = y \<or> j = i \<and> x = decide ok by at note y"
    by (auto split: if_splits)
  with approvals_wfD [OF assms y(1)]
  show "ap_id x = j" "minted ''appr_'' n (approval_text j)" "decision_ok x" by (auto simp: decide_ok)
qed

lemma evolve_decide:
  assumes "bs = pending_tool_invocations k \<or> bs = hremove i (pending_tool_invocations k)"
  shows "evolve k (k\<lparr>approvals := adjust i (decide ok by at note) (approvals k), pending_tool_invocations := bs\<rparr>)"
  using assms by (auto simp: evolve_def decide_ok intro!: keeps_refl keeps_adjust split: if_splits)

lemma steps_decide [steps_intros]:
  assumes "steps k0 k" "A = approvals k" "ok \<Longrightarrow> B = pending_tool_invocations k"
    "\<not> ok \<Longrightarrow> B = hremove i (pending_tool_invocations k)"
  shows "steps k0 (k\<lparr>approvals := adjust i (decide ok by at note) A, pending_tool_invocations := B\<rparr>)"
proof -
  have "bindings_wf (adjust i (decide ok by at note) (approvals k)) B"
    if bw: "bindings_wf (approvals k) (pending_tool_invocations k)"
    unfolding bindings_wf_def
  proof (intro conjI allI impI)
    show "wf_map B" using bw assms(3,4) by (cases ok) (simp_all add: bindings_wf_def)
    fix j b
    assume "get B j = Some b"
    then have b: "get (pending_tool_invocations k) j = Some b" "ok \<or> j \<noteq> i"
      using assms(3,4) by (cases ok; auto split: if_splits)+
    then obtain ap where "get (approvals k) j = Some ap" "ap_status ap \<noteq> ApRejected"
      using bindings_wfD [OF bw b(1)] by blast
    then show "\<exists>ap. get (adjust i (decide ok by at note) (approvals k)) j = Some ap \<and> ap_status ap \<noteq> ApRejected"
      using b(2) by (cases "j = i") (simp_all add: decide_ok)
  qed
  then have "wf k \<Longrightarrow> wf (k\<lparr>approvals := adjust i (decide ok by at note) A, pending_tool_invocations := B\<rparr>)"
    unfolding assms(2) by (simp add: wf_def approvals_wf_decide)
  moreover have "evolve k (k\<lparr>approvals := adjust i (decide ok by at note) A, pending_tool_invocations := B\<rparr>)"
    unfolding assms(2) by (rule evolve_decide) (use assms(3,4) in blast)
  ultimately show ?thesis using assms(1) by (auto simp: steps_def intro: evolve_trans)
qed

lemma steps_consume [steps_intros]:
  assumes "steps k0 k" "B = pending_tool_invocations k"
  shows "steps k0 (k\<lparr>pending_tool_invocations := adjust i (\<lambda>b. b\<lparr>pi_consumed := True\<rparr>) B\<rparr>)"
proof -
  have "bindings_wf aps bs \<Longrightarrow> bindings_wf aps (adjust i (\<lambda>b. b\<lparr>pi_consumed := True\<rparr>) bs)" for aps bs
    by (auto simp: bindings_wf_def split: if_splits)
  then have "wf k \<Longrightarrow> wf (k\<lparr>pending_tool_invocations := adjust i (\<lambda>b. b\<lparr>pi_consumed := True\<rparr>) B\<rparr>)"
    unfolding assms(2) by (simp add: wf_def)
  moreover have "evolve k (k\<lparr>pending_tool_invocations := adjust i (\<lambda>b. b\<lparr>pi_consumed := True\<rparr>) B\<rparr>)"
    unfolding assms(2) by (auto simp: evolve_def binding_evolves_def intro!: keeps_refl split: if_splits)
  ultimately show ?thesis using assms(1) by (auto simp: steps_def intro: evolve_trans)
qed

section \<open>New records under new names\<close>

lemma get_hinsertE:
  assumes "get (hinsert j v m) i = Some x"
  obtains "i = j" "x = v" | "i \<noteq> j" "get m i = Some x"
  using assms by (simp split: if_splits)

lemma fresh_task: "tasks_wf n A ts \<Longrightarrow> \<not> contains_key ts (TaskId (numbered ''task_'' (Suc n)))"
  using tasks_wfD not_minted_next by (fastforce simp: contains_key_iff)

lemma fresh_run: "runs_wf n now T A rs \<Longrightarrow> \<not> contains_key rs (RunId (numbered ''run_'' (Suc n)))"
  using runs_wfD not_minted_next by (fastforce simp: contains_key_iff)

lemma fresh_approval: "approvals_wf n aps \<Longrightarrow> \<not> contains_key aps (ApprovalId (numbered ''appr_'' (Suc n)))"
  using approvals_wfD not_minted_next by (fastforce simp: contains_key_iff)

lemma steps_new_task:
  assumes "t = TaskId (numbered ''task_'' (Suc (next_task k)))" "t_id tk = t" "t_assigned tk = None"
    and "\<And>p. t_parent tk = Some p \<Longrightarrow> map_option t_namespace (get (tasks k) p) = Some (t_namespace tk)"
  shows "steps k (k\<lparr>next_task := Suc (next_task k), tasks := hinsert t tk (tasks k)\<rparr>)"
proof -
  have new: "\<not> contains_key (tasks k) t" if "wf k"
    using that fresh_task unfolding wf_def assms(1) by blast
  have "tasks_wf (Suc (next_task k)) A (hinsert t tk (tasks k))"
    if "tasks_wf (next_task k) A (tasks k)" "\<not> contains_key (tasks k) t" for A
    unfolding tasks_wf_def
  proof (intro conjI allI impI)
    show "wf_map (hinsert t tk (tasks k))" using that by (simp add: tasks_wf_def)
    fix u x
    assume u: "get (hinsert t tk (tasks k)) u = Some x"
    then consider "u = t" "x = tk" | "u \<noteq> t" "get (tasks k) u = Some x" by (rule get_hinsertE)
    then show "t_id x = u" "minted ''task_'' (Suc (next_task k)) (task_text u)"
      by (cases; use assms(1,2) tasks_wfD [OF that(1)] minted_Suc in force)+
    show "A a" if a: "t_assigned x = Some a" for a
      using u a assms(3) tasks_wfD [OF \<open>tasks_wf (next_task k) A (tasks k)\<close>] by (auto split: if_splits)
    show "map_option t_namespace (get (hinsert t tk (tasks k)) p) = Some (t_namespace x)" if p: "t_parent x = Some p" for p
    proof -
      have "map_option t_namespace (get (tasks k) p) = Some (t_namespace x)"
        using u p assms(4) tasks_wfD [OF \<open>tasks_wf (next_task k) A (tasks k)\<close>] by (auto split: if_splits)
      moreover then have "p \<noteq> t" using \<open>\<not> contains_key (tasks k) t\<close> by (auto simp: contains_key_iff)
      ultimately show ?thesis by simp
    qed
  qed
  with new have "wf k \<Longrightarrow> wf (k\<lparr>next_task := Suc (next_task k), tasks := hinsert t tk (tasks k)\<rparr>)"
    by (auto simp: wf_def elim: runs_wf_mono)
  then show ?thesis
    using new by (auto simp: steps_def evolve_def intro!: keeps_refl keeps_hinsert)
qed

lemma steps_new_run:
  assumes "r = RunId (numbered ''run_'' (Suc (next_run k)))" "r_id rn = r" "status_ok rn"
    and "r_started_at rn = Some (render (clock k))"
    and "contains_key (tasks k) (r_task rn)" "contains_key (agents k) (r_agent rn)"
  shows "steps k ((advance (k\<lparr>next_run := Suc (next_run k)\<rparr>))\<lparr>runs := hinsert r rn (runs k)\<rparr>)"
proof -
  have new: "\<not> contains_key (runs k) r" if "wf k"
    using that fresh_run unfolding wf_def assms(1) by blast
  have "runs_wf (Suc (next_run k)) (Suc (clock k)) T A (hinsert r rn (runs k))"
    if w: "runs_wf (next_run k) (clock k) T A (runs k)" and t: "T (r_task rn)" "A (r_agent rn)" for T A
    unfolding runs_wf_def
  proof (intro conjI allI impI)
    note d = runs_wfD [OF runs_wf_Suc [OF w]]
    show "wf_map (hinsert r rn (runs k))" using w by (simp add: runs_wf_def)
    fix s x
    assume "get (hinsert r rn (runs k)) s = Some x"
    then consider "s = r" "x = rn" | "s \<noteq> r" "get (runs k) s = Some x" by (rule get_hinsertE)
    then show "r_id x = s" "minted ''run_'' (Suc (next_run k)) (run_text s)" "T (r_task x)" "A (r_agent x)" "status_ok x"
      "\<exists>c < Suc (clock k). r_started_at x = Some (render c)"
      by (cases; use assms(1,2,3,4) t d minted_Suc in force)+
  qed
  with assms(5,6) have "wf k \<Longrightarrow> wf ((advance (k\<lparr>next_run := Suc (next_run k)\<rparr>))\<lparr>runs := hinsert r rn (runs k)\<rparr>)"
    by (simp add: wf_def advance_def)
  then show ?thesis
    using new by (auto simp: steps_def evolve_def advance_def intro!: keeps_refl keeps_hinsert)
qed

lemma steps_new_agent:
  assumes "\<not> contains_key (agents k) a" "ag_id ag = a"
    and "\<And>l. ag_reports_to ag = Some l \<Longrightarrow> contains_key (agents k) l"
  shows "steps k (k\<lparr>agents := hinsert a ag (agents k)\<rparr>)"
proof -
  have "agents_wf (hinsert a ag (agents k))"
    if "agents_wf (agents k)"
    unfolding agents_wf_def
  proof (intro conjI allI impI)
    show "wf_map (hinsert a ag (agents k))" using that by (simp add: agents_wf_def)
    fix b x
    assume b: "get (hinsert a ag (agents k)) b = Some x"
    then consider "b = a" "x = ag" | "b \<noteq> a" "get (agents k) b = Some x" by (rule get_hinsertE)
    then show "ag_id x = b"
      by (cases; use assms(2) agents_wfD [OF that] in force)
    show "contains_key (hinsert a ag (agents k)) l" if "ag_reports_to x = Some l" for l
      using b that assms(3) agents_wfD [OF \<open>agents_wf (agents k)\<close>] by (auto split: if_splits)
  qed
  then have "wf k \<Longrightarrow> wf (k\<lparr>agents := hinsert a ag (agents k)\<rparr>)"
    by (auto simp: wf_def elim: runs_wf_mono tasks_wf_mono)
  then show ?thesis
    using assms(1) by (auto simp: steps_def evolve_def intro!: keeps_refl keeps_hinsert)
qed

lemma steps_new_approval:
  assumes "i = ApprovalId (numbered ''appr_'' (Suc (next_approval k)))" "ap_id ap = i" "decision_ok ap"
  shows "steps k (k\<lparr>next_approval := Suc (next_approval k), approvals := hinsert i ap (approvals k)\<rparr>)"
proof -
  have new: "\<not> contains_key (approvals k) i" if "wf k"
    using that fresh_approval unfolding wf_def assms(1) by blast
  have "approvals_wf (Suc (next_approval k)) (hinsert i ap (approvals k))"
    if "approvals_wf (next_approval k) (approvals k)"
    unfolding approvals_wf_def
  proof (intro conjI allI impI)
    show "wf_map (hinsert i ap (approvals k))" using that by (simp add: approvals_wf_def)
    fix j x
    assume "get (hinsert i ap (approvals k)) j = Some x"
    then consider "j = i" "x = ap" | "j \<noteq> i" "get (approvals k) j = Some x" by (rule get_hinsertE)
    then show "ap_id x = j" "minted ''appr_'' (Suc (next_approval k)) (approval_text j)" "decision_ok x"
      by (cases; use assms approvals_wfD [OF that] minted_Suc in force)+
  qed
  moreover have "bindings_wf (hinsert i ap (approvals k)) bs"
    if "bindings_wf (approvals k) bs" "\<not> contains_key (approvals k) i" for bs
    using that unfolding bindings_wf_def by (force simp: contains_key_iff)
  ultimately have "wf k \<Longrightarrow> wf (k\<lparr>next_approval := Suc (next_approval k), approvals := hinsert i ap (approvals k)\<rparr>)"
    using new by (simp add: wf_def)
  then show ?thesis
    using new by (auto simp: steps_def evolve_def intro!: keeps_refl keeps_hinsert)
qed

text \<open>A call is bound to an approval that did not exist before.\<close>

lemma steps_bind:
  assumes "steps k j" "pending_tool_invocations j = pending_tool_invocations k"
    and "i = ApprovalId (numbered ''appr_'' (Suc (next_approval k)))"
    and "get (approvals j) i = Some ap" "ap_status ap \<noteq> ApRejected"
  shows "steps k (j\<lparr>pending_tool_invocations := hinsert i b (pending_tool_invocations j)\<rparr>)"
  unfolding steps_def
proof (intro impI conjI)
  assume k: "wf k"
  with assms(1) have j: "wf j" "evolve k j" by (auto simp: steps_def)
  have "bindings_wf (approvals j) bs \<Longrightarrow> bindings_wf (approvals j) (hinsert i b bs)" for bs
    using assms(4,5) by (auto simp: bindings_wf_def)
  with j(1) show "wf (j\<lparr>pending_tool_invocations := hinsert i b (pending_tool_invocations j)\<rparr>)"
    by (simp add: wf_def)
  have "\<not> contains_key (approvals k) i"
    using k fresh_approval unfolding wf_def assms(3) by blast
  then show "evolve k (j\<lparr>pending_tool_invocations := hinsert i b (pending_tool_invocations j)\<rparr>)"
    using j(2) by (auto simp: evolve_def assms(2))
qed

section \<open>Later changes moved in front of a tick and an entry\<close>

lemma update_advance [state_simps]:
  "(advance k)\<lparr>tasks := ts\<rparr> = advance (k\<lparr>tasks := ts\<rparr>)"
  "(advance k)\<lparr>agents := ags\<rparr> = advance (k\<lparr>agents := ags\<rparr>)"
  "(advance k)\<lparr>approvals := aps\<rparr> = advance (k\<lparr>approvals := aps\<rparr>)"
  "(advance k)\<lparr>persistent_grants := gs\<rparr> = advance (k\<lparr>persistent_grants := gs\<rparr>)"
  "(advance k)\<lparr>orchestrations := os\<rparr> = advance (k\<lparr>orchestrations := os\<rparr>)"
  by (simp_all add: advance_def)

lemma update_record_audit [state_simps]:
  "(record_audit ty a c tt tg ns res k)\<lparr>tasks := ts\<rparr> = record_audit ty a c tt tg ns res (k\<lparr>tasks := ts\<rparr>)"
  "(record_audit ty a c tt tg ns res k)\<lparr>agents := ags\<rparr> = record_audit ty a c tt tg ns res (k\<lparr>agents := ags\<rparr>)"
  "(record_audit ty a c tt tg ns res k)\<lparr>approvals := aps\<rparr> = record_audit ty a c tt tg ns res (k\<lparr>approvals := aps\<rparr>)"
  by (simp_all add: record_audit_def Let_def tick_def)

lemma set_status_sel [state_simps]:
  "runs (set_status t s now k) = runs k" "agents (set_status t s now k) = agents k"
  "approvals (set_status t s now k) = approvals k"
  "tasks (set_status t s now k) = adjust t (\<lambda>tk. tk\<lparr>t_status := s, t_updated_at := now\<rparr>) (tasks k)"
  "clock (set_status t s now k) = clock k"
  by (simp_all add: set_status_def)

lemma steps_set_status [steps_intros]: "steps k0 k \<Longrightarrow> steps k0 (set_status t s now k)"
  unfolding set_status_def
  by (erule steps_tasks) (simp_all add: task_change_def task_evolves_def)

lemma steps_audit_task [steps_intros]: "steps k0 k \<Longrightarrow> steps k0 (audit_task a t ns res k)"
  unfolding audit_task_def by (rule steps_audit)

lemma steps_audit_tool [steps_intros]: "steps k0 k \<Longrightarrow> steps k0 (audit_tool ty a req tool ns res k)"
  unfolding audit_tool_def by (rule steps_audit)

end
