(* ===== verification/Relux_Governed.thy ===== *)
theory Relux_Governed
  imports Relux_Steps
begin

text \<open>
  The contract of an operation on the control plane, as a locale, and every operation on agents, tasks
  and runs as an instance of it: from a well-formed state it leads to a well-formed state that evolved
  from it, whatever its arguments are and whether it succeeds or not.
\<close>

section \<open>The contract\<close>

locale governed =
  fixes op :: "kernel \<Rightarrow> 'a \<times> kernel"
  assumes governs: "steps k (snd (op k))"
begin

lemma keeps_wf: "wf k \<Longrightarrow> wf (snd (op k))"
  using governs by (simp add: steps_def)

lemma lets_evolve: "wf k \<Longrightarrow> evolve k (snd (op k))"
  using governs by (simp add: steps_def)

lemma governs_after [steps_intros]: "steps k0 k \<Longrightarrow> steps k0 (snd (op k))"
  using governs governed_trans by blast

lemma governs_pair: "op k = (x, k') \<Longrightarrow> steps k0 k \<Longrightarrow> steps k0 k'"
  using governs_after [of k0 k] by simp

end

lemma steps_try:
  assumes "steps k0 (snd r)" "\<And>x. fst r = Inr x \<Longrightarrow> steps k0 (snd r) \<Longrightarrow> steps k0 (snd (f x (snd r)))"
  shows "steps k0 (snd (try_k r f))"
  using assms by (cases r) (auto simp: try_k_def split: sum.splits)

section \<open>Agents\<close>

interpretation create_agent: governed "create_agent_with_skills i name description adapter ns persona permissions skills lead"
  for i name description adapter ns persona permissions skills lead
proof
  show "steps k (snd (create_agent_with_skills i name description adapter ns persona permissions skills lead k))" for k
    unfolding create_agent_with_skills_def Let_def
    by (auto simp: state_simps split: option.split intro!: steps_intros steps_new_agent)
qed

interpretation update_agent: governed "update_agent_with_skills i u" for i u
proof
  show "steps k (snd (update_agent_with_skills i u k))" for k
    unfolding update_agent_with_skills_def check_lead_def Let_def apply_update_def
    by (auto simp: state_simps agent_change_def agent_evolves_def split: option.split intro!: steps_intros)
qed

interpretation grant_permission: governed "grant_permission_to_agent i p" for i p
proof
  show "steps k (snd (grant_permission_to_agent i p k))" for k
    unfolding grant_permission_to_agent_def Let_def
    by (auto simp: agent_change_def agent_evolves_def split: option.split intro!: steps_intros)
qed

interpretation revoke_permission: governed "revoke_permission_from_agent i p" for i p
proof
  show "steps k (snd (revoke_permission_from_agent i p k))" for k
    unfolding revoke_permission_from_agent_def Let_def
    by (auto simp: agent_change_def agent_evolves_def split: option.split intro!: steps_intros)
qed

text \<open>What a manager does and what is audited on behalf of another adds only entries to the journal.\<close>

lemma governed_require_authority:
  "governed op \<Longrightarrow> governed (require_authority action audit_action ty text manager target op)"
  by (auto simp: governed_def require_authority_def intro!: steps_intros)

lemma governed_audited_as: "governed op \<Longrightarrow> governed (audited_as ty actor action tty text target op)"
  by (auto simp: governed_def audited_as_def case_prod_beta intro!: steps_intros)

interpretation manager_grant: governed "manager_grant_permission_to_subordinate manager target p" for manager target p
  unfolding manager_grant_permission_to_subordinate_def
  by (rule governed_require_authority [OF grant_permission.governed_axioms])

interpretation manager_revoke: governed "manager_revoke_permission_from_subordinate manager target p" for manager target p
  unfolding manager_revoke_permission_from_subordinate_def
  by (rule governed_require_authority [OF revoke_permission.governed_axioms])

interpretation manager_grant_as_operator:
  governed "manager_grant_permission_to_subordinate_as_operator operator manager target p" for operator manager target p
  unfolding manager_grant_permission_to_subordinate_as_operator_def
  by (rule governed_audited_as [OF manager_grant.governed_axioms])

interpretation manager_grant_as_agent:
  governed "manager_grant_permission_to_subordinate_as_agent manager target p" for manager target p
  unfolding manager_grant_permission_to_subordinate_as_agent_def
  by (rule governed_audited_as [OF manager_grant.governed_axioms])

interpretation manager_revoke_as_agent:
  governed "manager_revoke_permission_from_subordinate_as_agent manager target p" for manager target p
  unfolding manager_revoke_permission_from_subordinate_as_agent_def
  by (rule governed_audited_as [OF manager_revoke.governed_axioms])

section \<open>Tasks\<close>

lemma check_parent_scope_None:
  "check_parent_scope p ns k = None \<Longrightarrow> map_option t_namespace (get (tasks k) p) = Some ns"
  by (auto simp: check_parent_scope_def split: option.splits if_splits)

lemma check_parent_None:
  "check_parent t (Some p) ns k = None \<Longrightarrow> map_option t_namespace (get (tasks k) p) = Some ns"
  by (auto simp: check_parent_def split: option.splits dest!: check_parent_scope_None)

interpretation create_task: governed "create_task_with_parent title input by ns required parent" for title input "by" ns required parent
proof
  show "steps k (snd (create_task_with_parent title input by ns required parent k))" for k
    unfolding create_task_with_parent_def Let_def new_task_id_def
    by (auto simp: state_simps split: option.split intro!: steps_intros steps_new_task dest!: check_parent_None)
qed

interpretation reparent_task: governed "reparent_task t parent" for t parent
proof
  show "steps k (snd (reparent_task t parent k))" for k
    unfolding reparent_task_def Let_def
    by (cases parent) (auto simp: state_simps task_change_def task_evolves_def
        split: option.split intro!: steps_intros dest!: check_parent_None)
qed

interpretation assign_task: governed "assign_task t a" for t a
proof
  show "steps k (snd (assign_task t a k))" for k
    unfolding assign_task_def Let_def
    by (auto simp: state_simps task_change_def task_evolves_def split: option.split intro!: steps_intros)
qed

interpretation manager_assign: governed "manager_assign_task_to_subordinate manager target t" for manager target t
  unfolding manager_assign_task_to_subordinate_def
  by (rule governed_require_authority, unfold_locales)
    (auto split: option.split intro!: steps_intros assign_task.governs)

interpretation manager_assign_as_agent:
  governed "manager_assign_task_to_subordinate_as_agent manager target t" for manager target t
  unfolding manager_assign_task_to_subordinate_as_agent_def
  by (rule governed_audited_as [OF manager_assign.governed_axioms])

interpretation set_task_status: governed "set_task_status t s" for t s
proof
  show "steps k (snd (set_task_status t s k))" for k
    unfolding set_task_status_def Let_def
    by (auto simp: state_simps split: option.split intro!: steps_intros)
qed

interpretation reopen_task: governed "reopen_task t" for t
proof
  show "steps k (snd (reopen_task t k))" for k
    unfolding reopen_task_def Let_def
    by (auto simp: state_simps split: option.split intro!: steps_intros)
qed

interpretation finish_task: governed "finish_task s action res t" for s action res t
proof
  show "steps k (snd (finish_task s action res t k))" for k
    unfolding finish_task_def Let_def
    by (auto simp: state_simps split: option.split intro!: steps_intros)
qed

interpretation complete_task: governed "complete_task t" for t
  unfolding complete_task_def by (rule finish_task.governed_axioms)

interpretation fail_task: governed "fail_task t" for t
  unfolding fail_task_def by (rule finish_task.governed_axioms)

section \<open>Runs\<close>

lemma retry_plan_retryable: "retry_plan c n now = Some st \<Longrightarrow> retryable c"
  by (auto simp: retry_plan_def split: if_splits)

interpretation start_run: governed "start_run w t" for w t
proof
  show "steps k (snd (start_run w t k))" for k
    unfolding start_run_def Let_def
    by (auto simp: state_simps new_run_def status_ok_def contains_key_def
        split: option.split intro!: steps_intros steps_new_run)
qed

lemma steps_end_run [steps_intros]:
  assumes "steps k0 k" "\<And>x. run_change x (f x)"
  shows "steps k0 (snd (end_run w r f event action res k))"
  using assms unfolding end_run_def Let_def
  by (auto split: option.split intro!: steps_intros)

interpretation complete_run: governed "complete_run w r summary" for w r summary
proof
  show "steps k (snd (complete_run w r summary k))" for k
    unfolding complete_run_def Let_def
    by (auto simp: state_simps run_change_def run_evolves_def status_ok_def intro!: steps_intros)
qed

interpretation cancel_run: governed "cancel_run w r reason" for w r reason
proof
  show "steps k (snd (cancel_run w r reason k))" for k
    unfolding cancel_run_def Let_def
    by (auto simp: state_simps run_change_def run_evolves_def status_ok_def intro!: steps_intros)
qed

interpretation fail_run_classified: governed "fail_run_classified w r error class" for w r error "class"
proof
  show "steps k (snd (fail_run_classified w r error class k))" for k
    unfolding fail_run_classified_def Let_def
    by (auto simp: state_simps run_change_def run_evolves_def status_ok_def dest: retry_plan_retryable
        intro!: steps_intros)
qed

interpretation fail_run: governed "fail_run w r error" for w r error
  unfolding fail_run_def by (rule fail_run_classified.governed_axioms)

interpretation set_run_watchdog_config: governed "set_run_watchdog_config config" for config
  by unfold_locales (auto simp: set_run_watchdog_config_def intro!: steps_intros)

lemma steps_mark_run_stale [steps_intros]: "steps k0 k \<Longrightarrow> steps k0 (mark_run_stale w r idle k)"
  unfolding mark_run_stale_def Let_def
  by (auto simp: state_simps run_change_def run_evolves_def status_ok_def split: option.split intro!: steps_intros)

interpretation recover_stale_runs: governed "recover_stale_runs w now active" for w now active
proof
  show "steps k (snd (recover_stale_runs w now active k))" for k
  proof -
    have "steps k j \<Longrightarrow> steps k (fold (\<lambda>(r, idle). mark_run_stale w r idle) cands j)" for cands j
      by (induction cands arbitrary: j) (auto intro: steps_intros)
    then show ?thesis by (auto simp: recover_stale_runs_def Let_def)
  qed
qed

end
