(* ===== verification/Relux_Catalog.thy ===== *)
theory Relux_Catalog
  imports Relux_Tools
begin

text \<open>
  The catalog of the control plane (\<open>relux-kernel/src/state.rs\<close>): plugins are registered, installed and
  removed, adapters and MCP servers configured. The state a process starts with.
\<close>

section \<open>Plugins\<close>

definition catalog_audit :: "string \<Rightarrow> string \<Rightarrow> ustr \<Rightarrow> kernel \<Rightarrow> kernel" where
  "catalog_audit action target_type target =
     record_audit ''kernel'' (cps ''kernel'') (cps action) (Some target_type) (Some target) None AuSuccess"

definition register_plugin :: "plugin_manifest \<Rightarrow> kernel \<Rightarrow> kernel" where
  "register_plugin m k =
     (let k = catalog_audit ''plugin:register'' ''plugin'' (plugin_text (pm_id m)) k
      in k\<lparr>plugins := hinsert (pm_id m) m (plugins k)\<rparr>)"

definition install_plugin ::
  "plugin_manifest \<Rightarrow> plugin_source_kind \<Rightarrow> ustr \<Rightarrow> ustr \<Rightarrow> bool \<Rightarrow> kernel \<Rightarrow> installed_plugin \<times> kernel" where
  "install_plugin m source label dir enabled k =
     (let k = register_plugin m k;
          (at, k) = tick k;
          installed = \<lparr>ip_id = pm_id m, ip_version = pm_version m, ip_kind = pm_kind m, ip_installed_at = at,
            ip_source_kind = source, ip_source_label = label, ip_install_dir = dir, ip_enabled = enabled\<rparr>;
          k = catalog_audit ''plugin:install'' ''plugin'' (plugin_text (pm_id m)) k
      in (installed, k\<lparr>installed_plugins := hinsert (pm_id m) installed (installed_plugins k)\<rparr>))"

definition remove_installed_plugin :: "plugin_id \<Rightarrow> kernel \<Rightarrow> installed_plugin result" where
  "remove_installed_plugin p k =
     (case get (installed_plugins k) p of None \<Rightarrow> (Inl (PluginNotInstalled (plugin_text p)), k)
      | Some removed \<Rightarrow>
          let k = k\<lparr>installed_plugins := hremove p (installed_plugins k)\<rparr>;
              k = k\<lparr>plugins := hremove p (plugins k)\<rparr>;
              k = k\<lparr>adapter_runtime_configs := hremove p (adapter_runtime_configs k)\<rparr>
          in (Inr removed, catalog_audit ''plugin:remove'' ''plugin'' (plugin_text p) k))"

section \<open>Adapters\<close>

definition DEFAULT_ADAPTER_TIMEOUT_SECONDS :: nat where "DEFAULT_ADAPTER_TIMEOUT_SECONDS = 120"
definition MIN_ADAPTER_TIMEOUT_SECONDS :: nat where "MIN_ADAPTER_TIMEOUT_SECONDS = 5"
definition MAX_ADAPTER_TIMEOUT_SECONDS :: nat where "MAX_ADAPTER_TIMEOUT_SECONDS = 1800"
definition DEFAULT_ADAPTER_MAX_OUTPUT_BYTES :: nat where "DEFAULT_ADAPTER_MAX_OUTPUT_BYTES = 1000000"
definition MIN_ADAPTER_MAX_OUTPUT_BYTES :: nat where "MIN_ADAPTER_MAX_OUTPUT_BYTES = 1024"
definition MAX_ADAPTER_MAX_OUTPUT_BYTES :: nat where "MAX_ADAPTER_MAX_OUTPUT_BYTES = 16000000"

definition clamp_adapter_timeout :: "nat option \<Rightarrow> nat" where
  "clamp_adapter_timeout n =
     clamp MIN_ADAPTER_TIMEOUT_SECONDS MAX_ADAPTER_TIMEOUT_SECONDS
       (case n of None \<Rightarrow> DEFAULT_ADAPTER_TIMEOUT_SECONDS | Some s \<Rightarrow> s)"

definition clamp_adapter_max_output :: "nat option \<Rightarrow> nat" where
  "clamp_adapter_max_output n =
     clamp MIN_ADAPTER_MAX_OUTPUT_BYTES MAX_ADAPTER_MAX_OUTPUT_BYTES
       (case n of None \<Rightarrow> DEFAULT_ADAPTER_MAX_OUTPUT_BYTES | Some b \<Rightarrow> b)"

text \<open>\<open>or_else\<close>, and the trimmed text of a field that is not blank.\<close>

definition or_else :: "'a option \<Rightarrow> 'a option \<Rightarrow> 'a option" where
  "or_else x y = (case x of None \<Rightarrow> y | Some v \<Rightarrow> Some v)"

definition not_blank :: "ustr option \<Rightarrow> ustr option" where
  "not_blank s = (case s of None \<Rightarrow> None | Some t \<Rightarrow> if trim t = [] then None else Some (trim t))"

definition configure_adapter_runtime ::
  "plugin_id \<Rightarrow> bool option \<Rightarrow> ustr option \<Rightarrow> nat option \<Rightarrow> nat option \<Rightarrow> ustr option \<Rightarrow> kernel \<Rightarrow> adapter_runtime_config result" where
  "configure_adapter_runtime p enabled command timeout max_output working_dir k =
     (case get (plugins k) p of None \<Rightarrow> (Inl (PluginNotInstalled (plugin_text p)), k)
      | Some m \<Rightarrow>
        if pm_kind m \<noteq> Adapter then (Inl (NotAnAdapter (plugin_text p)), k)
        else if recognize_adapter_kind p = Some LocalPrime then
          (Inl (AdapterNotConfigurable (plugin_text p) (cps (''the local Prime adapter runs the deterministic echo path and ''
             @ ''has no external CLI to configure''))), k)
        else
          let kind = (case recognize_adapter_kind p of Some kd \<Rightarrow> kd | None \<Rightarrow> CommandKind);
              existing = get (adapter_runtime_configs k) p;
              config = \<lparr>rt_plugin = plugin_text p, rt_kind = kind,
                rt_enabled = (case or_else enabled (map_option rt_enabled existing) of None \<Rightarrow> False | Some b \<Rightarrow> b),
                rt_command = or_else (not_blank command) (Option.bind existing rt_command),
                rt_timeout_seconds = clamp_adapter_timeout (or_else timeout (map_option rt_timeout_seconds existing)),
                rt_max_output_bytes = clamp_adapter_max_output (or_else max_output (map_option rt_max_output_bytes existing)),
                rt_working_dir = or_else (not_blank working_dir) (Option.bind existing rt_working_dir)\<rparr>
          in if resolved_command config = None then
               (Inl (InvalidAdapterConfig (plugin_text p) (cps ''a generic command adapter requires an explicit command'')), k)
             else let k = catalog_audit ''adapter:runtime_configure'' ''adapter'' (plugin_text p) k
               in (Inr config, k\<lparr>adapter_runtime_configs := hinsert p config (adapter_runtime_configs k)\<rparr>))"

definition disable_adapter_runtime :: "plugin_id \<Rightarrow> kernel \<Rightarrow> adapter_runtime_config result" where
  "disable_adapter_runtime p k =
     (case get (adapter_runtime_configs k) p of None \<Rightarrow> (Inl (AdapterRuntimeNotConfigured (plugin_text p)), k)
      | Some c \<Rightarrow>
          (Inr (c\<lparr>rt_enabled := False\<rparr>), catalog_audit ''adapter:runtime_disable'' ''adapter'' (plugin_text p)
             (k\<lparr>adapter_runtime_configs := adjust p (\<lambda>c. c\<lparr>rt_enabled := False\<rparr>) (adapter_runtime_configs k)\<rparr>)))"

definition remove_adapter_runtime :: "plugin_id \<Rightarrow> kernel \<Rightarrow> unit result" where
  "remove_adapter_runtime p k =
     (case get (adapter_runtime_configs k) p of None \<Rightarrow> (Inl (AdapterRuntimeNotConfigured (plugin_text p)), k)
      | Some c \<Rightarrow> (Inr (), catalog_audit ''adapter:runtime_remove'' ''adapter'' (plugin_text p)
             (k\<lparr>adapter_runtime_configs := hremove p (adapter_runtime_configs k)\<rparr>)))"

section \<open>MCP servers\<close>

definition set_mcp_server_enabled :: "ustr \<Rightarrow> bool \<Rightarrow> kernel \<Rightarrow> mcp_server result" where
  "set_mcp_server_enabled i enabled k =
     (case get (mcp_servers k) i of None \<Rightarrow> (Inl (UnknownMcpServer i), k)
      | Some s \<Rightarrow>
          (Inr (s\<lparr>ms_enabled := enabled\<rparr>),
           catalog_audit (if enabled then ''mcp:server_enable'' else ''mcp:server_disable'') ''mcp_server'' i
             (k\<lparr>mcp_servers := adjust i (\<lambda>s. s\<lparr>ms_enabled := enabled\<rparr>) (mcp_servers k)\<rparr>)))"

definition remove_mcp_server :: "ustr \<Rightarrow> kernel \<Rightarrow> unit result" where
  "remove_mcp_server i k =
     (case get (mcp_servers k) i of None \<Rightarrow> (Inl (UnknownMcpServer i), k)
      | Some s \<Rightarrow> (Inr (), catalog_audit ''mcp:server_remove'' ''mcp_server'' i
          (k\<lparr>mcp_servers := hremove i (mcp_servers k)\<rparr>)))"

definition set_mcp_tool_classification ::
  "ustr \<Rightarrow> ustr \<Rightarrow> risk_level \<Rightarrow> approval_requirement \<Rightarrow> kernel \<Rightarrow> mcp_server result" where
  "set_mcp_tool_classification i tool risk approval k =
     (if \<not> is_valid_mcp_tool_name tool then (Inl (InvalidMcpToolName i tool), k)
      else case get (mcp_servers k) i of None \<Rightarrow> (Inl (UnknownMcpServer i), k)
      | Some s \<Rightarrow>
          let set_class = (\<lambda>s. s\<lparr>ms_overrides := hinsert tool (risk, approval) (ms_overrides s)\<rparr>)
          in (Inr (set_class s), catalog_audit ''mcp:tool_classify'' ''mcp_tool'' tool
                (k\<lparr>mcp_servers := adjust i set_class (mcp_servers k)\<rparr>)))"

definition clear_mcp_tool_classification :: "ustr \<Rightarrow> ustr \<Rightarrow> kernel \<Rightarrow> mcp_server result" where
  "clear_mcp_tool_classification i tool k =
     (case get (mcp_servers k) i of None \<Rightarrow> (Inl (UnknownMcpServer i), k)
      | Some s \<Rightarrow>
          let clear = (\<lambda>s. s\<lparr>ms_overrides := hremove tool (ms_overrides s)\<rparr>)
          in (Inr (clear s), catalog_audit ''mcp:tool_unclassify'' ''mcp_tool'' tool
                (k\<lparr>mcp_servers := adjust i clear (mcp_servers k)\<rparr>)))"

section \<open>A new process\<close>

definition new_kernel :: kernel where
  "new_kernel = \<lparr>plugins = [], installed_plugins = [], mcp_servers = [], adapter_runtime_configs = [],
     agents = [], tasks = [], runs = [], approvals = [], pending_tool_invocations = [], persistent_grants = [],
     orchestrations = [], run_events = [], audit_log = [], run_watchdog = watchdog_default,
     autonomy_config = autonomy_default, agent_policy = policy_default, clock = 0, next_task = 0, next_run = 0,
     next_approval = 0, next_audit = 0, next_event = 0, next_orchestration = 0, next_grant = 0\<rparr>"

end
