(* ===== verification/Relux_Control.thy ===== *)
theory Relux_Control
  imports Relux_Governed Relux_Catalog
begin

text \<open>
  The remaining operations as instances of the contract: approvals, the tool gate, the execution of a
  task, retry and resume. Then the whole control plane as a step relation over all of its operations,
  and what holds of every state it can reach.
\<close>

section \<open>Approvals and the tool gate\<close>

lemma steps_request_approval: "steps k (snd (request_approval by action reason risk ns k))"
  unfolding request_approval_def Let_def
  by (auto simp: state_simps decision_ok_def intro!: steps_intros steps_new_approval)

interpretation request_approval: governed "request_approval by action reason risk ns" for "by" action reason risk ns
  by unfold_locales (rule steps_request_approval)

lemma resolve_approval_alt:
  "resolve_approval i approve approver note k =
     (case get (approvals k) i of None \<Rightarrow> (Inl (UnknownApproval (approval_text i)), advance k)
      | Some ap \<Rightarrow> (Inr (), record_audit ''user'' approver (cps ''approval:resolve'') (Some ''approval'')
          (Some (approval_text i)) (ap_namespace ap) (if approve then AuApproved else AuRejected)
          ((advance k)\<lparr>approvals := adjust i (decide approve approver (render (clock k)) note) (approvals k),
             pending_tool_invocations := (if approve then pending_tool_invocations k
               else hremove i (pending_tool_invocations k))\<rparr>)))"
  by (cases approve) (simp_all add: resolve_approval_def tick_def advance_def decide_def [abs_def] Let_def split: option.split)

interpretation resolve_approval: governed "resolve_approval i approve approver note" for i approve approver "note"
proof
  have "steps k ((advance k)\<lparr>approvals := adjust i (decide approve approver (render (clock k)) note) (approvals k),
      pending_tool_invocations := (if approve then pending_tool_invocations k
        else hremove i (pending_tool_invocations k))\<rparr>)" for k
    by (rule steps_decide) (simp_all add: state_simps steps_advance)
  then show "steps k (snd (resolve_approval i approve approver note k))" for k
    unfolding resolve_approval_alt by (auto split: option.split intro: steps_intros)
qed

lemma steps_grant_use [steps_intros]: "steps k0 k \<Longrightarrow> steps k0 (record_persistent_grant_use g a ns k)"
  unfolding record_persistent_grant_use_def Let_def
  by (auto simp: state_simps intro!: steps_intros)

lemma steps_run_tool_event [steps_intros]: "steps k0 k \<Longrightarrow> steps k0 (run_tool_event w r p kind source k)"
  unfolding run_tool_event_def by (rule steps_event)

lemma steps_with_permission:
  assumes "\<And>j. steps k j \<Longrightarrow> steps k (on_denied j)" "\<And>ns required. steps k (snd (body ns required k))"
  shows "steps k (snd (with_permission actor_type actor a p tool on_denied body k))"
  using assms unfolding with_permission_def by (auto split: sum.split intro: steps_intros)

lemma steps_gated_execution:
  assumes "\<And>kind src j. steps k j \<Longrightarrow> steps k (event kind src j)"
  shows "steps k (snd (gated_execution w a p tool input event ns required k))"
  unfolding gated_execution_def
  by (auto split: option.splits sum.splits intro!: steps_intros assms)

interpretation call_tool: governed "call_tool w r a p tool input" for w r a p tool input
  unfolding call_tool_def
  by unfold_locales (intro steps_with_permission steps_gated_execution steps_intros)

interpretation invoke_tool: governed "invoke_tool w a p tool input" for w a p tool input
  unfolding invoke_tool_def
  by unfold_locales (intro steps_with_permission steps_gated_execution)

lemma steps_bind_request [steps_intros]:
  assumes "request_approval by action reason risk ns k = (i, j)"
  shows "steps k (j\<lparr>pending_tool_invocations := hinsert i b (pending_tool_invocations j)\<rparr>)"
proof -
  have i: "i = ApprovalId (numbered ''appr_'' (Suc (next_approval k)))"
    and p: "pending_tool_invocations j = pending_tool_invocations k"
    and a: "\<exists>ap. get (approvals j) i = Some ap \<and> ap_status ap = ApPending"
    using assms by (auto simp: request_approval_def Let_def state_simps)
  from a obtain ap where ap: "get (approvals j) i = Some ap" "ap_status ap \<noteq> ApRejected" by force
  show ?thesis
    by (rule steps_bind [OF _ p i ap]) (use steps_request_approval [of k "by" action reason risk ns] assms in simp)
qed

interpretation request_tool_invocation_approval:
  governed "request_tool_invocation_approval w by a p tool input" for w "by" a p tool input
proof
  show "steps k (snd (request_tool_invocation_approval w by a p tool input k))" for k
    unfolding request_tool_invocation_approval_def
    by (rule steps_with_permission) (auto simp: Let_def split: prod.split intro!: steps_intros)
qed

interpretation execute_approved: governed "execute_approved_tool_invocation w i by" for w i "by"
proof
  show "steps k (snd (execute_approved_tool_invocation w i by k))" for k
    unfolding execute_approved_tool_invocation_def
    by (auto simp: Let_def split: option.split sum.split intro!: steps_with_permission steps_intros)
qed

interpretation grant_persistent: governed "grant_persistent_tool_invocation by a p tool" for "by" a p tool
proof
  show "steps k (snd (grant_persistent_tool_invocation by a p tool k))" for k
    unfolding grant_persistent_tool_invocation_def
    by (auto simp: Let_def state_simps split: option.split intro!: steps_with_permission steps_intros)
qed

interpretation revoke_persistent: governed "revoke_persistent_grant i by" for i "by"
proof
  show "steps k (snd (revoke_persistent_grant i by k))" for k
    unfolding revoke_persistent_grant_def
    by (auto simp: Let_def split: option.split intro!: steps_intros)
qed

interpretation allow_always: governed "allow_always_from_approval i approver" for i approver
proof
  show "steps k (snd (allow_always_from_approval i approver k))" for k
    unfolding allow_always_from_approval_def
    by (auto split: option.split intro!: steps_try grant_persistent.governs resolve_approval.governs_after)
qed

section \<open>Executing a task\<close>

lemma steps_run_tool_steps [steps_intros]:
  "steps k0 k \<Longrightarrow> steps k0 (snd (run_tool_steps w r a i n ss k))"
proof (induction ss arbitrary: i k)
  case (Cons s ss)
  obtain x j where c: "call_tool w r a (PluginId (tc_plugin s)) (tc_tool s) (tc_args s) k = (x, j)" by (meson surj_pair)
  have "steps k0 (snd (run_tool_steps w r a (i + 1) n ss j))"
    by (rule Cons.IH [OF call_tool.governs_pair [OF c Cons.prems]])
  then show ?case
    using call_tool.governs_pair [OF c Cons.prems] by (auto simp: c Let_def split: sum.split prod.split)
qed simp

lemma steps_finish_both [steps_intros]: "steps k0 k \<Longrightarrow> steps k0 (snd (finish_both w r t summary k))"
  unfolding finish_both_def
  by (intro steps_try complete_run.governs_after complete_task.governs_after) auto

lemma steps_fail_both [steps_intros]: "steps k0 k \<Longrightarrow> steps k0 (fail_both w r t reason k)"
  unfolding fail_both_def by (intro fail_task.governs_after fail_run.governs_after)

lemma steps_refuse_local [steps_intros]: "steps k0 k \<Longrightarrow> steps k0 (snd (refuse_local w r t a k))"
  unfolding refuse_local_def Let_def tick_advance
  by (rule steps_try) (auto intro!: steps_intros fail_run_classified.governs_after)

lemma run_tool_steps_pair: "run_tool_steps w r a i n ss k = (x, j) \<Longrightarrow> steps k j"
  using steps_run_tool_steps [OF steps_refl] by (metis snd_conv)

lemmas called = call_tool.governs_pair [OF _ steps_refl]

interpretation execute_local_run: governed "execute_local_run w t" for w t
proof
  show "steps k (snd (execute_local_run w t k))" for k
    unfolding execute_local_run_def
    by (auto split: option.split sum.split prod.split intro!: steps_intros steps_try call_tool.governs
        dest: called run_tool_steps_pair)
qed

lemma steps_fail_cli [steps_intros]: "steps k0 k \<Longrightarrow> steps k0 (fail_cli_run w r t ns adapter reason class k)"
  unfolding fail_cli_run_def Let_def by (intro steps_intros fail_task.governs_after fail_run_classified.governs_after)

lemma steps_cancel_cli [steps_intros]: "steps k0 k \<Longrightarrow> steps k0 (cancel_cli_run w r t ns adapter reason k)"
  unfolding cancel_cli_run_def Let_def by (intro steps_intros fail_task.governs_after cancel_run.governs_after)

interpretation prepare_cli_run: governed "prepare_cli_run w t adapter" for w t adapter
proof
  show "steps k (snd (prepare_cli_run w t adapter k))" for k
    unfolding prepare_cli_run_def Let_def
    by (auto split: option.split intro!: steps_intros)
qed

lemma steps_metrics [steps_intros]: "steps k0 k \<Longrightarrow> steps k0 (set_run_metrics r ms k)"
  unfolding set_run_metrics_def
  by (erule steps_runs) (simp_all add: run_change_def run_evolves_def status_ok_def)

lemma steps_session [steps_intros]: "steps k0 k \<Longrightarrow> steps k0 (set_run_session r sid kind k)"
  unfolding set_run_session_def
  by (auto split: option.split intro!: steps_runs simp: run_change_def run_evolves_def status_ok_def)

interpretation finalize_cli_run: governed "finalize_cli_run w p outcome" for w p outcome
proof
  show "steps k (snd (finalize_cli_run w p outcome k))" for k
    unfolding finalize_cli_run_def Let_def
    by (auto split: sum.split intro!: steps_intros steps_try complete_run.governs_after complete_task.governs_after)
qed

interpretation execute_cli_run: governed "execute_cli_run w t adapter" for w t adapter
  unfolding execute_cli_run_def
  by unfold_locales (intro steps_try prepare_cli_run.governs finalize_cli_run.governs_after)

lemma steps_redirect [steps_intros]: "steps k0 k \<Longrightarrow> steps k0 (redirect_run w t adapter k)"
  unfolding redirect_run_def
  by (auto split: option.split intro!: steps_event steps_runs simp: run_change_def run_evolves_def status_ok_def)

lemma steps_dispatch [steps_intros]: "steps k0 k \<Longrightarrow> steps k0 (snd (dispatch w a t k))"
  unfolding dispatch_def Let_def
  by (auto split: prod.split intro!: steps_intros execute_local_run.governs_after execute_cli_run.governs_after)

interpretation execute_assigned_run: governed "execute_assigned_run w t" for w t
proof
  show "steps k (snd (execute_assigned_run w t k))" for k
    unfolding execute_assigned_run_def
    by (auto split: option.split intro!: steps_intros steps_try start_run.governs)
qed

section \<open>Retry and resume\<close>

lemma steps_requeue [steps_intros]: "steps k0 k \<Longrightarrow> steps k0 (requeue t k)"
  by (simp add: requeue_def state_simps steps_set_status steps_advance)

lemma steps_stamp_retry [steps_intros]: "steps k0 k \<Longrightarrow> steps k0 (stamp_retry w old ns ok new k)"
proof -
  define j where "j = k\<lparr>runs := adjust new (\<lambda>x. x\<lparr>r_retried_from := Some old\<rparr>) (runs k)\<rparr>"
  assume "steps k0 k"
  then have "steps k0 j"
    unfolding j_def by (rule steps_runs) (simp_all add: run_change_def run_evolves_def status_ok_def)
  then show ?thesis
    unfolding stamp_retry_def Let_def j_def [symmetric]
    by (auto split: option.split intro!: steps_intros simp: run_change_def run_evolves_def status_ok_def
        dest: retry_plan_retryable)
qed

interpretation retry_run: governed "retry_run w r" for w r
proof
  show "steps k (snd (retry_run w r k))" for k
    unfolding retry_run_def Let_def
    by (auto split: option.split prod.split intro!: steps_intros
        dest: execute_assigned_run.governs_pair [OF _ steps_requeue [OF steps_refl]])
qed

interpretation resume_run: governed "resume_run w r" for w r
proof
  show "steps k (snd (resume_run w r k))" for k
    unfolding resume_run_def Let_def
    by (auto split: option.split resume_disposition.split intro!: steps_intros steps_try start_run.governs_after
        execute_cli_run.governs_after simp: case_prod_beta run_change_def run_evolves_def status_ok_def)
qed

section \<open>The catalog\<close>

lemma steps_catalog_audit [steps_intros]: "steps k0 k \<Longrightarrow> steps k0 (catalog_audit action ty target k)"
  unfolding catalog_audit_def by (rule steps_audit)

lemma steps_register_plugin [steps_intros]: "steps k0 k \<Longrightarrow> steps k0 (register_plugin m k)"
  unfolding register_plugin_def Let_def by (intro steps_intros)

interpretation install_plugin: governed "install_plugin m source label dir enabled" for m source label dir enabled
proof
  show "steps k (snd (install_plugin m source label dir enabled k))" for k
    unfolding install_plugin_def Let_def by (auto simp: tick_advance intro!: steps_intros)
qed

interpretation remove_installed_plugin: governed "remove_installed_plugin p" for p
  by unfold_locales (auto simp: remove_installed_plugin_def Let_def split: option.split intro!: steps_intros)

interpretation configure_adapter_runtime:
  governed "configure_adapter_runtime p enabled command timeout max_output working_dir"
  for p enabled command timeout max_output working_dir
  by unfold_locales (auto simp: configure_adapter_runtime_def Let_def split: option.split intro!: steps_intros)

interpretation disable_adapter_runtime: governed "disable_adapter_runtime p" for p
  by unfold_locales (auto simp: disable_adapter_runtime_def split: option.split intro!: steps_intros)

interpretation remove_adapter_runtime: governed "remove_adapter_runtime p" for p
  by unfold_locales (auto simp: remove_adapter_runtime_def split: option.split intro!: steps_intros)

interpretation set_mcp_server_enabled: governed "set_mcp_server_enabled i enabled" for i enabled
  by unfold_locales (auto simp: set_mcp_server_enabled_def split: option.split intro!: steps_intros)

interpretation remove_mcp_server: governed "remove_mcp_server i" for i
  by unfold_locales (auto simp: remove_mcp_server_def split: option.split intro!: steps_intros)

interpretation set_mcp_tool_classification: governed "set_mcp_tool_classification i tool risk approval" for i tool risk approval
  by unfold_locales (auto simp: set_mcp_tool_classification_def Let_def split: option.split intro!: steps_intros)

interpretation clear_mcp_tool_classification: governed "clear_mcp_tool_classification i tool" for i tool
  by unfold_locales (auto simp: clear_mcp_tool_classification_def Let_def split: option.split intro!: steps_intros)

end
