(* ===== verification/Relux_Planner.thy ===== *)
theory Relux_Planner
  imports Relux_Execute
begin

text \<open>
  Prime's planner (\<open>relux-core/src/orchestration.rs\<close>): a goal is split into clauses on connectors, each
  clause gets a role, a role an agent of the roster, and roles that wait on one another become
  dependencies. The splitter cuts the goal at byte offsets it found in the lowercased copy; a cut that
  is out of range or inside a character panics, which is \<open>None\<close> here.
\<close>

section \<open>Roles\<close>

fun role_label :: "orchestration_role \<Rightarrow> ustr" where
  "role_label Research = cps ''research''"
| "role_label Implementation = cps ''implementation''"
| "role_label Testing = cps ''testing''"
| "role_label Review = cps ''review''"
| "role_label Documentation = cps ''documentation''"
| "role_label Operations = cps ''operations''"
| "role_label General = cps ''general''"

fun agent_keywords :: "orchestration_role \<Rightarrow> ustr list" where
  "agent_keywords Research = map cps [''research'', ''analyst'', ''investigat'', ''scout'']"
| "agent_keywords Implementation = map cps [''code'', ''coding'', ''dev'', ''engineer'', ''implement'', ''build'']"
| "agent_keywords Testing = map cps [''test'', ''qa'', ''quality'']"
| "agent_keywords Review = map cps [''review'', ''audit'', ''critic'']"
| "agent_keywords Documentation = map cps [''doc'', ''writer'', ''scribe'']"
| "agent_keywords Operations = map cps [''ops'', ''deploy'', ''release'', ''infra'', ''devops'', ''sre'']"
| "agent_keywords General = []"

fun prerequisite_roles :: "orchestration_role \<Rightarrow> orchestration_role list" where
  "prerequisite_roles Implementation = [Research]"
| "prerequisite_roles Testing = [Implementation]"
| "prerequisite_roles Review = [Implementation]"
| "prerequisite_roles Documentation = [Implementation]"
| "prerequisite_roles Research = []"
| "prerequisite_roles Operations = []"
| "prerequisite_roles General = []"

definition classify_role :: "unicode \<Rightarrow> ustr \<Rightarrow> orchestration_role" where
  "classify_role u clause =
     (let c = to_lowercase u clause;
          hask = (\<lambda>kws. list_ex (\<lambda>k. contains (cps k) c) kws) in
      if hask [''research'', ''investigat'', ''explore'', ''gather'', ''find out'', ''look into'', ''survey'',
        ''analyz'', ''analyse'', ''compare''] then Research
      else if hask [''test'', ''qa'', ''verif'', ''validat'', ''coverage''] then Testing
      else if hask [''review'', ''audit'', ''inspect'', ''proofread'', ''evaluat'', ''critique''] then Review
      else if hask [''document'', ''docs'', ''readme'', ''changelog'', ''write up'', ''write-up'', ''summari'', ''draft'']
      then Documentation
      else if hask [''deploy'', ''release'', ''ship'', ''publish'', ''provision'', ''infra'', ''rollout''] then Operations
      else if hask [''implement'', ''build'', ''code'', ''develop'', ''refactor'', ''integrat'', ''set up'', ''add '',
        ''create'', ''write '', ''fix'', ''prototype''] then Implementation
      else General)"

definition agent_fits :: "unicode \<Rightarrow> orchestration_role \<Rightarrow> (ustr \<times> ustr list) list \<Rightarrow> ustr \<Rightarrow> bool" where
  "agent_fits u role skills i \<longleftrightarrow>
     i \<noteq> cps ''prime''
     \<and> (list_ex (\<lambda>k. contains k (to_lowercase u i)) (agent_keywords role)
        \<or> (case map_of (rev skills) i of None \<Rightarrow> False
           | Some ss \<Rightarrow> list_ex (\<lambda>s. let sl = to_lowercase u s in
               contains (role_label role) sl \<or> list_ex (\<lambda>k. contains k sl) (agent_keywords role)) ss))"

text \<open>The map of skills is collected from a list of pairs: the last pair of an agent counts.\<close>

definition match_agent_for_role ::
  "unicode \<Rightarrow> orchestration_role \<Rightarrow> ustr list \<Rightarrow> (ustr \<times> ustr list) list \<Rightarrow> ustr option" where
  "match_agent_for_role u role roster skills =
     (if agent_keywords role = [] then None else List.find (agent_fits u role skills) roster)"

section \<open>Byte offsets in a string\<close>

definition bytes :: "ustr \<Rightarrow> nat list" where
  "bytes s = concat (map utf8_encode s)"

definition is_char_boundary :: "nat list \<Rightarrow> nat \<Rightarrow> bool" where
  "is_char_boundary bs i \<longleftrightarrow> i = length bs \<or> i < length bs \<and> \<not> cont (bs ! i)"

text \<open>The slice \<open>&s[a..b]\<close> of a string given by its bytes, which panics as \<open>None\<close>.\<close>

definition str_slice :: "nat list \<Rightarrow> nat \<Rightarrow> nat \<Rightarrow> ustr option" where
  "str_slice bs a b =
     (if a \<le> b \<and> is_char_boundary bs a \<and> is_char_boundary bs b
      then (case utf8_decode 0 (take (b - a) (drop a bs)) of Inr cs \<Rightarrow> Some cs | Inl _ \<Rightarrow> None)
      else None)"

fun find_at :: "'a list \<Rightarrow> 'a list \<Rightarrow> nat option" where
  "find_at p [] = (if p = [] then Some 0 else None)"
| "find_at p (c # cs) = (if is_prefix p (c # cs) then Some 0 else map_option Suc (find_at p cs))"

section \<open>Splitting a goal into clauses\<close>

text \<open>
  The loop of \<open>split_ci\<close>: \<open>n\<close> is the length of the delimiter, which is not empty; with an empty one the
  loop does not return.
\<close>

function split_ci_from :: "nat list \<Rightarrow> nat list \<Rightarrow> nat list \<Rightarrow> nat \<Rightarrow> nat \<Rightarrow> ustr list option" where
  "split_ci_from s lower dl n start =
     (if n = 0 \<or> \<not> is_char_boundary lower start then None
      else case find_at dl (drop start lower) of
        None \<Rightarrow> map_option (\<lambda>x. [x]) (str_slice s start (length s))
      | Some pos \<Rightarrow>
          (case str_slice s start (start + pos) of None \<Rightarrow> None
           | Some part \<Rightarrow> map_option ((#) part) (split_ci_from s lower dl n (start + pos + n))))"
  by pat_completeness auto
termination
  by (relation "measure (\<lambda>(s, lower, dl, n, start). Suc (length lower) - start)") (auto simp: is_char_boundary_def)

declare split_ci_from.simps [simp del]

definition split_ci :: "unicode \<Rightarrow> ustr \<Rightarrow> ustr \<Rightarrow> ustr list option" where
  "split_ci u s delim =
     split_ci_from (bytes s) (bytes (to_lowercase u s)) (bytes (to_lowercase u delim)) (length (bytes delim)) 0"

definition CLAUSE_CONNECTORS :: "ustr list" where
  "CLAUSE_CONNECTORS = map cps
     ['', and then '', '' and then '', '', then '', '' then '', '' after that, '', '' after that '', ''; '', '', and '',
      '' and '', '', '']"

fun split_each :: "unicode \<Rightarrow> ustr \<Rightarrow> ustr list \<Rightarrow> ustr list option" where
  "split_each u connector [] = Some []"
| "split_each u connector (f # fs) =
     (case split_ci u f connector of None \<Rightarrow> None
      | Some ps \<Rightarrow> map_option ((@) ps) (split_each u connector fs))"

fun split_all :: "unicode \<Rightarrow> ustr list \<Rightarrow> ustr list \<Rightarrow> ustr list option" where
  "split_all u [] fragments = Some fragments"
| "split_all u (c # cs) fragments =
     (case split_each u c fragments of None \<Rightarrow> None | Some fs \<Rightarrow> split_all u cs fs)"

definition clean_fragment :: "ustr \<Rightarrow> ustr" where
  "clean_fragment f = trim (trim_matches (\<lambda>c. c = 46 \<or> c = 44) (trim f))"

definition split_into_clauses :: "unicode \<Rightarrow> ustr \<Rightarrow> ustr list option" where
  "split_into_clauses u goal =
     map_option (\<lambda>fs. filter (\<lambda>f. 3 \<le> length (filter (is_alphanumeric (ucd.truncate u)) f)) (map clean_fragment fs))
       (split_all u CLAUSE_CONNECTORS [goal])"

section \<open>The plan\<close>

record task_brief =
  tb_id :: task_id
  tb_title :: ustr
  tb_status :: task_status
  tb_assigned :: "agent_id option"

record state_summary =
  ss_plugins :: nat
  ss_agents :: nat
  ss_tasks_total :: nat
  ss_tasks_open :: nat
  ss_runs_active :: nat
  ss_tasks_waiting_approval :: nat
  ss_tasks_blocked :: nat
  ss_tasks_failed :: nat
  ss_pending_approvals :: nat
  ss_all_agent_ids :: "ustr list"
  ss_agent_skills :: "(ustr \<times> ustr list) list"
  ss_all_task_ids :: "ustr list"
  ss_available_adapter_ids :: "ustr list"
  ss_queued :: "task_brief list"
  ss_recent :: "task_brief list"

record planned_step =
  ps_title :: ustr
  ps_role :: orchestration_role
  ps_agent :: "ustr option"
  ps_depends_on :: "nat list"

record orchestration_plan =
  op_goal :: ustr
  op_steps :: "planned_step list"
  op_notes :: "ustr list"

definition is_multi_agent :: "orchestration_plan \<Rightarrow> bool" where
  "is_multi_agent p \<longleftrightarrow> 2 \<le> length (op_steps p)"

fun collect_labels :: "ustr list \<Rightarrow> planned_step list \<Rightarrow> ustr list" where
  "collect_labels acc [] = acc"
| "collect_labels acc (s # ss) =
     (let label = (case ps_agent s of Some a \<Rightarrow> a | None \<Rightarrow> cps ''prime'')
      in collect_labels (if label \<in> set acc then acc else acc @ [label]) ss)"

definition agent_labels :: "orchestration_plan \<Rightarrow> ustr list" where
  "agent_labels p = collect_labels [] (op_steps p)"

definition title_from_clause :: "unicode \<Rightarrow> ustr \<Rightarrow> ustr" where
  "title_from_clause u clause =
     take 120 (case trim clause of [] \<Rightarrow> [] | c # cs \<Rightarrow> char_to_uppercase u c @ cs)"

definition overflow_note :: "nat \<Rightarrow> ustr" where
  "overflow_note mx = cps ''Goal had more than '' @ nat_text mx @ cps '' steps; only the first '' @ nat_text mx
     @ cps '' were planned. Raise the orchestration width in Prime autonomy limits (or run it in extended mode) to plan more.''"

definition missing_note :: "orchestration_role \<Rightarrow> ustr" where
  "missing_note role = cps ''No '' @ role_label role @ cps '' agent on the roster; assigning to Prime. Hire one (''
     @ 34 # cps ''create a '' @ role_label role @ cps '' agent'' @ 34 # cps '') for a specialist.''"

definition dependency_note :: ustr where
  "dependency_note = cps ''Dependency order: implementation waits on research; testing, review, and documentation wait on implementation.''"

definition plan_step :: "unicode \<Rightarrow> ustr list \<Rightarrow> (ustr \<times> ustr list) list \<Rightarrow> ustr \<Rightarrow> planned_step" where
  "plan_step u roster skills clause =
     (let role = classify_role u clause
      in \<lparr>ps_title = title_from_clause u clause, ps_role = role,
          ps_agent = match_agent_for_role u role roster skills, ps_depends_on = []\<rparr>)"

fun plan_clauses ::
  "unicode \<Rightarrow> ustr list \<Rightarrow> (ustr \<times> ustr list) list \<Rightarrow> nat \<Rightarrow> ustr list \<Rightarrow> planned_step list \<Rightarrow> ustr list
    \<Rightarrow> planned_step list \<times> ustr list" where
  "plan_clauses u roster skills mx [] steps notes = (steps, notes)"
| "plan_clauses u roster skills mx (c # cs) steps notes =
     (if length steps \<ge> mx then (steps, notes @ [overflow_note mx])
      else
        let s = plan_step u roster skills c;
            missing = missing_note (ps_role s);
            notes = (if ps_agent s = None \<and> ps_role s \<noteq> General \<and> missing \<notin> set notes then notes @ [missing] else notes)
        in plan_clauses u roster skills mx cs (steps @ [s]) notes)"

definition step_deps :: "planned_step list \<Rightarrow> nat \<Rightarrow> nat list" where
  "step_deps steps i = filter (\<lambda>j. ps_role (steps ! j) \<in> set (prerequisite_roles (ps_role (steps ! i)))) [0..<i]"

definition plan_orchestration_with_limit ::
  "unicode \<Rightarrow> ustr \<Rightarrow> state_summary \<Rightarrow> nat \<Rightarrow> orchestration_plan option" where
  "plan_orchestration_with_limit u goal summary max_steps =
     (let mx = clamp 1 MAX_ORCHESTRATION_STEPS_CEIL max_steps;
          goal = trim goal in
      case split_into_clauses u goal of None \<Rightarrow> None
      | Some clauses \<Rightarrow>
        let roster = sort (ss_all_agent_ids summary);
            (steps, notes) = plan_clauses u roster (ss_agent_skills summary) mx clauses [] [];
            deps = map (step_deps steps) [0..<length steps];
            notes = (if list_ex (\<lambda>ds. ds \<noteq> []) deps then notes @ [dependency_note] else notes)
        in Some \<lparr>op_goal = goal, op_steps = map2 (\<lambda>s ds. s\<lparr>ps_depends_on := ds\<rparr>) steps deps, op_notes = notes\<rparr>)"

definition plan_orchestration :: "unicode \<Rightarrow> ustr \<Rightarrow> state_summary \<Rightarrow> orchestration_plan option" where
  "plan_orchestration u goal summary = plan_orchestration_with_limit u goal summary MAX_ORCHESTRATION_STEPS"

end
