(* ===== verification/Relux_Batch.thy ===== *)
theory Relux_Batch
  imports Relux_Planner
begin

text \<open>
  Orchestrations (\<open>relux-kernel/src/state.rs\<close>): a plan becomes tasks assigned to agents, and a batch runs
  them in rounds, each brief once all it depends on is completed, on processes of their own. A process
  on a thread of its own that panics is dropped from its round; a panic where there is one process, or
  in the planner, is that of the caller (\<open>None\<close>).
\<close>

section \<open>The summary Prime plans on\<close>

definition task_brief_of :: "task \<Rightarrow> task_brief" where
  "task_brief_of t = \<lparr>tb_id = t_id t, tb_title = t_title t, tb_status = t_status t, tb_assigned = t_assigned t\<rparr>"

definition pending_approval_count :: "kernel \<Rightarrow> nat" where
  "pending_approval_count k = length (filter (\<lambda>a. ap_status a = ApPending) (vals (approvals k)))"

definition inspect_state :: "kernel \<Rightarrow> state_summary" where
  "inspect_state k =
     (let count = (\<lambda>P. length (filter P (vals (tasks k))));
          sorted = sort_key (task_text \<circ> t_id) (vals (tasks k)) in
      \<lparr>ss_plugins = length (plugins k), ss_agents = length (agents k), ss_tasks_total = length (tasks k),
       ss_tasks_open = count (\<lambda>t. \<not> is_terminal_status (t_status t)),
       ss_runs_active = length (filter (\<lambda>r. r_status r = RRunning) (vals (runs k))),
       ss_tasks_waiting_approval = count (\<lambda>t. t_status t = TWaitingForApproval),
       ss_tasks_blocked = count (\<lambda>t. t_status t = TBlocked),
       ss_tasks_failed = count (\<lambda>t. t_status t = TFailed),
       ss_pending_approvals = pending_approval_count k,
       ss_all_agent_ids = map (agent_text \<circ> fst) (agents k),
       ss_agent_skills = map (\<lambda>a. (agent_text (ag_id a), ag_skills a)) (filter (\<lambda>a. ag_skills a \<noteq> []) (vals (agents k))),
       ss_all_task_ids = map (task_text \<circ> fst) (tasks k),
       ss_available_adapter_ids = map plugin_text (filter (\<lambda>p. recognize_adapter_kind p \<noteq> None) (map fst (plugins k))),
       ss_queued = map task_brief_of (filter (\<lambda>t. t_status t = TQueued) sorted),
       ss_recent = map task_brief_of (take 5 (rev sorted))\<rparr>)"

section \<open>From a plan to an orchestration\<close>

record prime_context =
  cx_namespace :: namespace_id
  cx_agent :: agent_id
  cx_actor :: ustr

definition prime_agent_id :: "kernel \<Rightarrow> agent_id option" where
  "prime_agent_id k = map_option ag_id (List.find (\<lambda>a. agent_text (ag_id a) = cps ''prime'') (vals (agents k)))"

fun orchestration_text :: "orchestration_id \<Rightarrow> ustr" where
  "orchestration_text (OrchestrationId s) = s"

definition new_step :: "task_id \<Rightarrow> agent_id \<Rightarrow> planned_step \<Rightarrow> orchestration_step" where
  "new_step t a p = \<lparr>st_task = t, st_agent = a, st_role = ps_role p, st_title = ps_title p, st_outcome = StPending,
     st_depends_on = ps_depends_on p, st_run = None, st_note = None, st_started_at = None, st_finished_at = None,
     st_round = None\<rparr>"

definition brief_input :: "orchestration_id \<Rightarrow> ustr \<Rightarrow> orchestration_role \<Rightarrow> json" where
  "brief_input i goal role = JObject [(cps ''orchestration'', JString (orchestration_text i)),
     (cps ''goal'', JString goal), (cps ''role'', JString (role_label role))]"

definition brief_agent :: "planned_step \<Rightarrow> agent_id \<Rightarrow> kernel \<Rightarrow> agent_id" where
  "brief_agent p fallback k =
     (case ps_agent p of None \<Rightarrow> fallback
      | Some a \<Rightarrow> if contains_key (agents k) (AgentId a) then AgentId a else fallback)"

fun commit_steps ::
  "prime_context \<Rightarrow> orchestration_id \<Rightarrow> ustr \<Rightarrow> agent_id \<Rightarrow> planned_step list \<Rightarrow> kernel \<Rightarrow> orchestration_step list result" where
  "commit_steps cx i goal fallback [] k = (Inr [], k)"
| "commit_steps cx i goal fallback (p # ps) k =
     (let a = brief_agent p fallback k;
          (t, k) = create_task (ps_title p) (brief_input i goal (ps_role p)) (cx_actor cx) (cx_namespace cx) [] k
      in try_k (assign_task t a k) (\<lambda>_ k.
           try_k (commit_steps cx i goal fallback ps k) (\<lambda>ss k. (Inr (new_step t a p # ss), k))))"

definition prime_orchestrate ::
  "world \<Rightarrow> prime_context \<Rightarrow> ustr \<Rightarrow> kernel \<Rightarrow> (kernel_error + orchestration) option \<times> kernel" where
  "prime_orchestrate w cx goal k =
     (case plan_orchestration_with_limit (w_unicode w) goal (inspect_state k) (orchestration_steps (agent_policy k) False) of
        None \<Rightarrow> (None, k)
      | Some plan \<Rightarrow>
        if \<not> is_multi_agent plan then (Some (Inl OrchestrationNotMultiAgent), k)
        else
          let k = k\<lparr>next_orchestration := next_orchestration k + 1\<rparr>;
              i = OrchestrationId (numbered ''orch_'' (next_orchestration k));
              (now, k) = tick k;
              fallback = (case prime_agent_id k of Some a \<Rightarrow> a | None \<Rightarrow> cx_agent cx) in
          case commit_steps cx i (op_goal plan) fallback (op_steps plan) k of
            (Inl e, k) \<Rightarrow> (Some (Inl e), k)
          | (Inr ss, k) \<Rightarrow>
              let rec = \<lparr>o_id = i, o_goal = op_goal plan, o_created_by = cx_actor cx, o_namespace = cx_namespace cx,
                    o_status = OPlanned, o_steps = ss, o_notes = op_notes plan, o_created_at = now,
                    o_updated_at = now, o_last_batch_summary = None\<rparr>;
                  k = record_audit ''agent'' (agent_text (cx_agent cx)) (cps ''orchestration:create'')
                        (Some ''orchestration'') (Some (orchestration_text i)) (Some (cx_namespace cx)) AuSuccess k
              in (Some (Inr rec), k\<lparr>orchestrations := hinsert i rec (orchestrations k)\<rparr>))"

definition runnable_orchestration_id :: "ustr \<Rightarrow> kernel \<Rightarrow> ustr option" where
  "runnable_orchestration_id candidate k =
     (case get (orchestrations k) (OrchestrationId candidate) of None \<Rightarrow> None
      | Some orch \<Rightarrow>
          if list_ex (\<lambda>s. st_outcome s = StPending) (o_steps orch) then Some (orchestration_text (o_id orch)) else None)"

section \<open>The result of a batch\<close>

record batch_result =
  br_orchestration :: orchestration_id
  br_ran :: nat
  br_completed :: nat
  br_failed :: nat
  br_blocked :: nat
  br_pending :: nat
  br_concurrency :: nat
  br_rounds :: nat
  br_waiting :: nat
  br_dependency_blocked :: nat
  br_skipped_reasons :: "ustr list"
  br_per_agent :: "ustr list"
  br_summary :: ustr
  br_next_action :: ustr
  br_status :: orchestration_status

definition new_batch_result :: "orchestration_id \<Rightarrow> nat \<Rightarrow> batch_result" where
  "new_batch_result i concurrency = \<lparr>br_orchestration = i, br_ran = 0, br_completed = 0, br_failed = 0,
     br_blocked = 0, br_pending = 0, br_concurrency = concurrency, br_rounds = 0, br_waiting = 0,
     br_dependency_blocked = 0, br_skipped_reasons = [], br_per_agent = [], br_summary = [], br_next_action = [],
     br_status = OPlanned\<rparr>"

definition new_orchestration_batch_result :: "orchestration_id \<Rightarrow> nat \<Rightarrow> kernel \<Rightarrow> kernel_error + batch_result" where
  "new_orchestration_batch_result i concurrency k =
     (if contains_key (orchestrations k) i then Inr (new_batch_result i (clamp 1 4 concurrency))
      else Inl (UnknownOrchestration (orchestration_text i)))"

fun outcome_label :: "step_outcome \<Rightarrow> ustr" where
  "outcome_label StPending = cps ''pending''"
| "outcome_label StCompleted = cps ''completed''"
| "outcome_label StFailed = cps ''failed''"
| "outcome_label StBlocked = cps ''blocked''"

definition on_steps :: "orchestration_id \<Rightarrow> (orchestration_step list \<Rightarrow> orchestration_step list) \<Rightarrow> kernel \<Rightarrow> kernel" where
  "on_steps i f k = k\<lparr>orchestrations := adjust i (\<lambda>orch. orch\<lparr>o_steps := f (o_steps orch)\<rparr>) (orchestrations k)\<rparr>"

definition adjust_nth :: "nat \<Rightarrow> ('a \<Rightarrow> 'a) \<Rightarrow> 'a list \<Rightarrow> 'a list" where
  "adjust_nth i f xs = (if i < length xs then xs[i := f (xs ! i)] else xs)"

section \<open>The outcome of one brief\<close>

fun needs_human :: "kernel_error \<Rightarrow> bool" where
  "needs_human (AdapterRuntimeDisabled _) = True"
| "needs_human (AdapterRuntimeNotConfigured _) = True"
| "needs_human (InvalidAdapterConfig _ _) = True"
| "needs_human (AdapterBinaryMissing _ _) = True"
| "needs_human (PermissionDenied _ _) = True"
| "needs_human _ = False"

definition brief_outcome :: "kernel_error + run_id \<Rightarrow> step_outcome" where
  "brief_outcome exec =
     (case exec of Inr _ \<Rightarrow> StCompleted | Inl e \<Rightarrow> if needs_human e then StBlocked else StFailed)"

definition tally ::
  "nat \<Rightarrow> ustr \<Rightarrow> task_id \<Rightarrow> kernel_error + run_id \<Rightarrow> batch_result \<Rightarrow> batch_result" where
  "tally round_no agent_label t exec res =
     (let res = (case exec of
            Inr _ \<Rightarrow> res\<lparr>br_completed := br_completed res + 1\<rparr>
          | Inl e \<Rightarrow>
              (if needs_human e then res\<lparr>br_blocked := br_blocked res + 1\<rparr> else res\<lparr>br_failed := br_failed res + 1\<rparr>)
              \<lparr>br_skipped_reasons := br_skipped_reasons res @ [task_text t @ cps '': '' @ error_text e]\<rparr>)
      in res\<lparr>br_per_agent := br_per_agent res @ [cps ''round '' @ nat_text round_no @ 32 # agent_label @ cps '': ''
           @ task_text t @ 32 # outcome_label (brief_outcome exec)]\<rparr>)"

definition record_brief_outcome ::
  "orchestration_id \<Rightarrow> nat \<Rightarrow> nat \<Rightarrow> ustr \<Rightarrow> task_id \<Rightarrow> kernel_error + run_id \<Rightarrow> ustr \<Rightarrow> ustr \<Rightarrow> batch_result \<Rightarrow> kernel
    \<Rightarrow> batch_result \<times> kernel" where
  "record_brief_outcome i idx round_no agent_label t exec started finished res k =
     (let run = map_option r_id (newest_of t (vals (runs k)));
          remark = (case exec of Inr _ \<Rightarrow> None | Inl e \<Rightarrow> Some (error_text e))
      in (tally round_no agent_label t exec res,
          on_steps i (adjust_nth idx (\<lambda>s. s\<lparr>st_outcome := brief_outcome exec, st_run := run, st_note := remark,
            st_started_at := Some started, st_finished_at := Some finished, st_round := Some round_no\<rparr>)) k))"


section \<open>Dependencies\<close>

definition steps_of :: "orchestration_id \<Rightarrow> kernel \<Rightarrow> orchestration_step list" where
  "steps_of i k = (case get (orchestrations k) i of None \<Rightarrow> [] | Some orch \<Rightarrow> o_steps orch)"

definition outcome_at :: "orchestration_step list \<Rightarrow> nat \<Rightarrow> step_outcome option" where
  "outcome_at ss j = (if j < length ss then Some (st_outcome (ss ! j)) else None)"

definition fallen :: "orchestration_step list \<Rightarrow> nat \<Rightarrow> bool" where
  "fallen ss j \<longleftrightarrow> outcome_at ss j = Some StFailed \<or> outcome_at ss j = Some StBlocked"

text \<open>One pass over the steps: the pending ones with a fallen dependency, and what is noted of them.\<close>

definition block_reason :: "orchestration_step \<Rightarrow> ustr" where
  "block_reason d = cps ''blocked: depends on '' @ task_text (st_task d) @ cps '' which '' @ outcome_label (st_outcome d)"

definition block_update :: "orchestration_step list \<Rightarrow> nat \<Rightarrow> (nat \<times> ustr) option" where
  "block_update ss i =
     (if st_outcome (ss ! i) \<noteq> StPending then None
      else map_option (\<lambda>d. (i, block_reason (ss ! d))) (List.find (fallen ss) (st_depends_on (ss ! i))))"

definition block_updates :: "orchestration_step list \<Rightarrow> (nat \<times> ustr) list" where
  "block_updates ss = List.map_filter (block_update ss) [0..<length ss]"

definition block_step :: "nat \<times> ustr \<Rightarrow> nat \<times> orchestration_step list \<Rightarrow> nat \<times> orchestration_step list" where
  "block_step u acc =
     (case (u, acc) of ((i, reason), (n, ss)) \<Rightarrow>
        if i < length ss \<and> st_outcome (ss ! i) = StPending
        then (n + 1, ss[i := (ss ! i)\<lparr>st_outcome := StBlocked, st_note := Some reason\<rparr>])
        else (n, ss))"

definition pending_count :: "orchestration_step list \<Rightarrow> nat" where
  "pending_count ss = length (filter (\<lambda>s. st_outcome s = StPending) ss)"

lemma pending_count_update:
  "i < length ss \<Longrightarrow> st_outcome (ss ! i) = StPending \<Longrightarrow> st_outcome s \<noteq> StPending \<Longrightarrow>
    Suc (pending_count (ss[i := s])) = pending_count ss"
proof (induction ss arbitrary: i)
  case (Cons x ss)
  then show ?case by (cases i) (auto simp: pending_count_def)
qed simp

lemma block_step_count: "block_step u (n, ss) = (n', ss') \<Longrightarrow> n' + pending_count ss' = n + pending_count ss"
  using pending_count_update [of _ ss] by (fastforce simp: block_step_def split: prod.splits if_splits)

lemma block_steps_count: "fold block_step us (n, ss) = (n', ss') \<Longrightarrow> n' + pending_count ss' = n + pending_count ss"
proof (induction us arbitrary: n ss)
  case (Cons u us)
  obtain m rs where "block_step u (n, ss) = (m, rs)" by fastforce
  with Cons block_step_count [OF this] show ?case by simp
qed simp

lemma block_steps_mono: "n \<le> fst (fold block_step us (n, ss))"
proof (induction us arbitrary: n ss)
  case (Cons u us)
  obtain m rs where b: "block_step u (n, ss) = (m, rs)" by fastforce
  then have "n \<le> m" by (auto simp: block_step_def split: prod.splits if_splits)
  with b Cons.IH [of m rs] show ?case by simp
qed simp

lemma in_block_updates: "(i, r) \<in> set (block_updates ss) \<longleftrightarrow> i < length ss \<and> block_update ss i = Some (i, r)"
  by (force simp: block_updates_def List.map_filter_def block_update_def split: if_splits)

lemma block_updates_pending: "(i, r) \<in> set (block_updates ss) \<Longrightarrow> i < length ss \<and> st_outcome (ss ! i) = StPending"
  by (auto simp: in_block_updates block_update_def split: if_splits)

lemma block_steps_progress:
  assumes "block_updates ss \<noteq> []"
  shows "pending_count (snd (fold block_step (block_updates ss) (0, ss))) < pending_count ss"
proof -
  obtain i r us where us: "block_updates ss = (i, r) # us" using assms by (cases "block_updates ss") auto
  then have "i < length ss \<and> st_outcome (ss ! i) = StPending" using block_updates_pending [of i r ss] by auto
  then have "1 \<le> fst (fold block_step (block_updates ss) (0, ss))"
    using block_steps_mono [of 1] by (simp add: us block_step_def)
  then show ?thesis
    using block_steps_count [of "block_updates ss" 0 ss] by (cases "fold block_step (block_updates ss) (0, ss)") simp
qed

text \<open>Until there is nothing to block any more; \<open>n\<close> have been blocked so far.\<close>

function propagate :: "nat \<Rightarrow> orchestration_step list \<Rightarrow> nat \<times> orchestration_step list" where
  "propagate n ss =
     (if block_updates ss = [] then (n, ss)
      else case fold block_step (block_updates ss) (0, ss) of (blocked, ss') \<Rightarrow> propagate (n + blocked) ss')"
  by pat_completeness auto
termination
  by (relation "measure (pending_count \<circ> snd)") (simp_all, metis block_steps_progress snd_conv)

declare propagate.simps [simp del]

definition propagate_dependency_blocks :: "orchestration_id \<Rightarrow> kernel \<Rightarrow> nat \<times> kernel" where
  "propagate_dependency_blocks i k =
     (if contains_key (orchestrations k) i
      then (fst (propagate 0 (steps_of i k)), on_steps i (\<lambda>ss. snd (propagate 0 ss)) k)
      else (0, k))"

section \<open>One round\<close>

definition ready :: "orchestration_step list \<Rightarrow> nat \<Rightarrow> bool" where
  "ready ss i \<longleftrightarrow> st_outcome (ss ! i) = StPending
     \<and> list_all (\<lambda>j. outcome_at ss j = None \<or> outcome_at ss j = Some StCompleted) (st_depends_on (ss ! i))"

definition ready_briefs :: "orchestration_step list \<Rightarrow> (nat \<times> task_id \<times> agent_id) list" where
  "ready_briefs ss = map (\<lambda>i. (i, st_task (ss ! i), st_agent (ss ! i))) (filter (ready ss) [0..<length ss])"

record prepared_brief =
  pb_index :: nat
  pb_round :: nat
  pb_agent :: ustr
  pb_started_at :: ustr
  pb_plan :: cli_plan

record round_prep =
  rp_ran_inline :: nat
  rp_prepared :: "prepared_brief list"

definition prep_ran :: "round_prep \<Rightarrow> bool" where
  "prep_ran p \<longleftrightarrow> 0 < rp_ran_inline p \<or> rp_prepared p \<noteq> []"

definition needs_start :: "task_id \<Rightarrow> kernel \<Rightarrow> bool" where
  "needs_start t k =
     (case get (tasks k) t of None \<Rightarrow> False | Some tk \<Rightarrow> t_status tk = TCreated \<or> t_status tk = TQueued)"

text \<open>What becomes of a brief in its round: its verdict at once, or a process that is still to be run.\<close>

definition attempt_started ::
  "world \<Rightarrow> task_id \<Rightarrow> plugin_id option \<Rightarrow> kernel \<Rightarrow> ((kernel_error + run_id) + cli_plan) \<times> kernel" where
  "attempt_started w t adapter k =
     (case adapter of
        None \<Rightarrow> (case execute_assigned_run w t k of (exec, k) \<Rightarrow> (Inl exec, k))
      | Some p \<Rightarrow>
          if recognize_adapter_kind p = Some LocalPrime
          then (case execute_local_run w t k of (exec, k) \<Rightarrow> (Inl exec, k))
          else (case prepare_cli_run w t p k of
              (Inl e, k) \<Rightarrow> (Inl (Inl e), k)
            | (Inr plan, k) \<Rightarrow> (Inr plan, k)))"

definition attempt_brief ::
  "world \<Rightarrow> task_id \<Rightarrow> agent_id \<Rightarrow> kernel \<Rightarrow> ((kernel_error + run_id) + cli_plan) \<times> kernel" where
  "attempt_brief w t a k =
     (let adapter = map_option ag_adapter (get (agents k) a) in
      if needs_start t k
      then (case start_run w t k of
              (Inl e, k) \<Rightarrow> (Inl (Inl e), k)
            | (Inr _, k) \<Rightarrow> attempt_started w t adapter k)
      else attempt_started w t adapter k)"

definition prepare_brief ::
  "world \<Rightarrow> orchestration_id \<Rightarrow> nat \<Rightarrow> nat \<times> task_id \<times> agent_id \<Rightarrow> round_prep \<Rightarrow> batch_result \<Rightarrow> kernel
    \<Rightarrow> round_prep \<times> batch_result \<times> kernel" where
  "prepare_brief w i round_no brief prep res k =
     (case brief of (idx, t, a) \<Rightarrow>
      let res = res\<lparr>br_ran := br_ran res + 1\<rparr>;
          (started, k) = tick k in
      case attempt_brief w t a k of
        (Inl exec, k) \<Rightarrow>
          let (finished, k) = tick k;
              (res, k) = record_brief_outcome i idx round_no (agent_text a) t exec started finished res k
          in (prep\<lparr>rp_ran_inline := rp_ran_inline prep + 1\<rparr>, res, k)
      | (Inr plan, k) \<Rightarrow>
          let k = on_steps i (adjust_nth idx (\<lambda>s. s\<lparr>st_run := Some (pl_run plan), st_started_at := Some started,
                    st_round := Some round_no\<rparr>)) k
          in (prep\<lparr>rp_prepared := rp_prepared prep @ [\<lparr>pb_index = idx, pb_round = round_no, pb_agent = agent_text a,
                pb_started_at = started, pb_plan = plan\<rparr>]\<rparr>, res, k))"

fun prepare_briefs ::
  "world \<Rightarrow> orchestration_id \<Rightarrow> nat \<Rightarrow> (nat \<times> task_id \<times> agent_id) list \<Rightarrow> round_prep \<Rightarrow> batch_result \<Rightarrow> kernel
    \<Rightarrow> round_prep \<times> batch_result \<times> kernel" where
  "prepare_briefs w i round_no [] prep res k = (prep, res, k)"
| "prepare_briefs w i round_no (b # bs) prep res k =
     (case prepare_brief w i round_no b prep res k of (prep, res, k) \<Rightarrow> prepare_briefs w i round_no bs prep res k)"

definition no_prep :: round_prep where
  "no_prep = \<lparr>rp_ran_inline = 0, rp_prepared = []\<rparr>"

definition prepare_orchestration_round ::
  "world \<Rightarrow> orchestration_id \<Rightarrow> nat \<Rightarrow> nat \<Rightarrow> nat \<Rightarrow> batch_result \<Rightarrow> kernel \<Rightarrow> round_prep \<times> batch_result \<times> kernel" where
  "prepare_orchestration_round w i mx concurrency round_no res k =
     (let mx = clamp 1 25 mx;
          concurrency = clamp 1 4 concurrency in
      if mx \<le> br_ran res then (no_prep, res, k)
      else
        let (blocked, k) = propagate_dependency_blocks i k;
            res = res\<lparr>br_dependency_blocked := br_dependency_blocked res + blocked\<rparr>;
            briefs = ready_briefs (steps_of i k)
        in prepare_briefs w i round_no (take (min concurrency (mx - br_ran res)) briefs) no_prep res k)"

section \<open>Running the processes of a round\<close>

record finished_brief =
  fb_brief :: prepared_brief
  fb_outcome :: "ustr + adapter_outcome"

definition run_brief :: "world \<Rightarrow> nat \<Rightarrow> prepared_brief \<Rightarrow> finished_brief" where
  "run_brief w now p = \<lparr>fb_brief = p, fb_outcome = w_spawn w now (pb_plan p)\<rparr>"

definition run_briefs_in_parallel :: "world \<Rightarrow> nat \<Rightarrow> prepared_brief list \<Rightarrow> finished_brief list option" where
  "run_briefs_in_parallel w now ps =
     (if length ps \<le> 1
      then if list_ex (\<lambda>p. w_panics w now (pb_plan p)) ps then None else Some (map (run_brief w now) ps)
      else Some (map (run_brief w now) (filter (\<lambda>p. \<not> w_panics w now (pb_plan p)) ps)))"

definition finalize_prepared_brief ::
  "world \<Rightarrow> orchestration_id \<Rightarrow> finished_brief \<Rightarrow> batch_result \<Rightarrow> kernel \<Rightarrow> batch_result \<times> kernel" where
  "finalize_prepared_brief w i f res k =
     (let p = fb_brief f;
          (exec, k) = finalize_cli_run w (pb_plan p) (fb_outcome f) k;
          (finished, k) = tick k
      in record_brief_outcome i (pb_index p) (pb_round p) (pb_agent p) (pl_task (pb_plan p)) exec (pb_started_at p)
           finished res k)"

fun finalize_briefs ::
  "world \<Rightarrow> orchestration_id \<Rightarrow> finished_brief list \<Rightarrow> batch_result \<Rightarrow> kernel \<Rightarrow> batch_result \<times> kernel" where
  "finalize_briefs w i [] res k = (res, k)"
| "finalize_briefs w i (f # fs) res k =
     (case finalize_prepared_brief w i f res k of (res, k) \<Rightarrow> finalize_briefs w i fs res k)"


section \<open>The batch\<close>

lemma tally_ran [simp]: "br_ran (tally n a t exec res) = br_ran res"
  by (simp add: tally_def Let_def split: sum.split)

lemma prepare_brief_ran:
  "prepare_brief w i n b prep res k = (prep', res', k') \<Longrightarrow> br_ran res' = br_ran res + 1"
  by (auto simp: prepare_brief_def record_brief_outcome_def Let_def split: prod.splits sum.splits)

lemma prepare_briefs_ran:
  "prepare_briefs w i n bs prep res k = (prep', res', k') \<Longrightarrow> br_ran res' = br_ran res + length bs"
proof (induction bs arbitrary: prep res k)
  case (Cons b bs)
  obtain p r j where "prepare_brief w i n b prep res k = (p, r, j)" by (metis surj_pair)
  with Cons prepare_brief_ran [OF this] show ?case by simp
qed simp

lemma prepare_round_progress:
  assumes "prepare_orchestration_round w i mx c n res k = (prep, res', k')" "prep_ran prep"
  shows "br_ran res < br_ran res' \<and> br_ran res' \<le> clamp 1 25 mx"
proof -
  have r: "\<not> clamp 1 25 mx \<le> br_ran res"
    using assms by (auto simp: prepare_orchestration_round_def prep_ran_def no_prep_def Let_def split: if_splits)
  then obtain bs j res0 where p: "prepare_briefs w i n (take (min (clamp 1 4 c) (clamp 1 25 mx - br_ran res)) bs) no_prep res0 j
      = (prep, res', k')" "br_ran res0 = br_ran res"
    using assms(1) by (force simp: prepare_orchestration_round_def Let_def split: prod.splits)
  from p have "bs \<noteq> []" using assms(2) by (auto simp: prep_ran_def no_prep_def)
  moreover have "1 \<le> clamp 1 4 c" using clamp_in [of 1 4 c] by simp
  ultimately show ?thesis using prepare_briefs_ran [OF p(1)] p(2) r by (cases bs) auto
qed

lemma finalize_briefs_ran: "finalize_briefs w i fs res k = (res', k') \<Longrightarrow> br_ran res' = br_ran res"
proof (induction fs arbitrary: res k)
  case (Cons f fs)
  obtain r j where f: "finalize_prepared_brief w i f res k = (r, j)" by fastforce
  then have "br_ran r = br_ran res"
    by (auto simp: finalize_prepared_brief_def record_brief_outcome_def Let_def split: prod.splits)
  with f Cons show ?case by simp
qed simp

lemma finalize_briefs_fst: "br_ran (fst (finalize_briefs w i fs res k)) = br_ran res"
  using finalize_briefs_ran [of w i fs res k] by (metis prod.collapse)

text \<open>
  The rounds of a batch. Every round that is not the last takes some of what is left of the budget, so
  the loop ends. \<open>None\<close>: a panic.
\<close>

function run_rounds ::
  "world \<Rightarrow> orchestration_id \<Rightarrow> nat \<Rightarrow> nat \<Rightarrow> nat \<Rightarrow> batch_result \<Rightarrow> kernel \<Rightarrow> (nat \<times> batch_result) option \<times> kernel" where
  "run_rounds w i mx concurrency round_no res k =
     (case prepare_orchestration_round w i mx concurrency (round_no + 1) res k of (prep, res', k') \<Rightarrow>
        if \<not> prep_ran prep then (Some (round_no, res'), k')
        else case run_briefs_in_parallel w (clock k') (rp_prepared prep) of
          None \<Rightarrow> (None, k')
        | Some finished \<Rightarrow>
            (case finalize_briefs w i finished res' k' of (res'', k'') \<Rightarrow>
               run_rounds w i mx concurrency (round_no + 1) res'' k''))"
  by pat_completeness auto
termination
  by (relation "measure (\<lambda>(w, i, mx, concurrency, round_no, res, k). clamp 1 25 mx - br_ran res)")
    (auto dest!: prepare_round_progress [OF sym] simp: case_prod_beta finalize_briefs_fst)

declare run_rounds.simps [simp del]

definition batch_summary :: "batch_result \<Rightarrow> ustr" where
  "batch_summary r = nat_text (br_rounds r) @ cps '' round(s), up to '' @ nat_text (br_concurrency r)
     @ cps '' brief(s) at a time: '' @ nat_text (br_ran r) @ cps '' ran ('' @ nat_text (br_completed r)
     @ cps '' completed, '' @ nat_text (br_failed r) @ cps '' failed, '' @ nat_text (br_blocked r) @ cps '' blocked); ''
     @ nat_text (br_dependency_blocked r) @ cps '' blocked by a failed dependency; '' @ nat_text (br_waiting r)
     @ cps '' waiting on a dependency; '' @ nat_text (br_pending r) @ cps '' pending.''"

definition batch_next_action :: "batch_result \<Rightarrow> ustr" where
  "batch_next_action r =
     (case br_status r of
        OCompleted \<Rightarrow> cps ''All briefs completed. Review the runs.''
      | ORunning \<Rightarrow>
          if 0 < br_waiting r
          then nat_text (br_pending r) @ cps '' brief(s) pending ('' @ nat_text (br_waiting r)
            @ cps '' waiting on a dependency that has not completed). Run the orchestration again to continue.''
          else cps ''Run the orchestration again to continue '' @ nat_text (br_pending r) @ cps '' remaining brief(s).''
      | ONeedsAttention \<Rightarrow> nat_text (br_blocked r + br_failed r + br_dependency_blocked r)
          @ cps '' brief(s) need attention. Blocked briefs need their adapter runtime enabled, an upstream brief retried, or reassignment; failed briefs can be retried. Then run again.''
      | OPlanned \<Rightarrow> cps ''Run the orchestration to start the briefs.'')"

definition waiting :: "orchestration_step list \<Rightarrow> orchestration_step \<Rightarrow> bool" where
  "waiting ss s \<longleftrightarrow> st_outcome s = StPending
     \<and> list_ex (\<lambda>j. outcome_at ss j \<noteq> None \<and> outcome_at ss j \<noteq> Some StCompleted) (st_depends_on s)"

definition overall_status :: "orchestration_step list \<Rightarrow> orchestration_status" where
  "overall_status ss =
     (if 0 < pending_count ss then ORunning
      else if list_ex (\<lambda>s. st_outcome s = StBlocked) ss \<or> list_ex (\<lambda>s. st_outcome s = StFailed) ss then ONeedsAttention
      else OCompleted)"

definition finalize_orchestration_batch ::
  "orchestration_id \<Rightarrow> batch_result \<Rightarrow> kernel \<Rightarrow> batch_result result" where
  "finalize_orchestration_batch i res k =
     (case get (orchestrations k) i of None \<Rightarrow> (Inl (UnknownOrchestration (orchestration_text i)), k)
      | Some orch \<Rightarrow>
        let (blocked, k) = propagate_dependency_blocks i k;
            ss = steps_of i k;
            res = res\<lparr>br_dependency_blocked := br_dependency_blocked res + blocked, br_pending := pending_count ss,
              br_waiting := length (filter (waiting ss) ss), br_status := overall_status ss\<rparr>;
            res = res\<lparr>br_summary := batch_summary res\<rparr>;
            res = res\<lparr>br_next_action := batch_next_action res\<rparr>;
            (now, k) = tick k;
            k = k\<lparr>orchestrations := adjust i (\<lambda>orch. orch\<lparr>o_status := overall_status ss, o_updated_at := now,
                  o_last_batch_summary := Some (br_summary res)\<rparr>) (orchestrations k)\<rparr>
        in (Inr res, record_audit ''agent'' (cps ''prime'') (cps ''orchestration:batch'') (Some ''orchestration'')
              (Some (orchestration_text i)) (Some (o_namespace orch))
              (if 0 < br_failed res \<or> 0 < br_blocked res \<or> 0 < br_dependency_blocked res then AuFailed else AuSuccess) k))"

definition run_orchestration ::
  "world \<Rightarrow> orchestration_id \<Rightarrow> nat \<Rightarrow> nat \<Rightarrow> kernel \<Rightarrow> (kernel_error + batch_result) option \<times> kernel" where
  "run_orchestration w i mx concurrency k =
     (case new_orchestration_batch_result i (clamp 1 4 concurrency) k of Inl e \<Rightarrow> (Some (Inl e), k)
      | Inr res \<Rightarrow>
        (case run_rounds w i (clamp 1 25 mx) (clamp 1 4 concurrency) 0 res k of
           (None, k) \<Rightarrow> (None, k)
         | (Some (rounds, res), k) \<Rightarrow>
             (case finalize_orchestration_batch i (res\<lparr>br_rounds := rounds\<rparr>) k of (r, k) \<Rightarrow> (Some r, k))))"

end
