(* ===== verification/Relux_Coordination.thy ===== *)
theory Relux_Coordination
  imports Relux_Control Relux_Batch
begin

text \<open>
  Orchestrations as instances of the contract of an operation: turning a goal into assigned tasks, one
  round of a batch, the end of a batch, and the batch as a whole.
\<close>

section \<open>From a goal to tasks\<close>

lemma steps_create_task [steps_intros]:
  "steps k0 k \<Longrightarrow> steps k0 (snd (create_task title input by ns required k))"
  by (auto simp: create_task_def case_prod_beta intro: create_task.governs_after)

lemma steps_commit [steps_intros]: "steps k0 k \<Longrightarrow> steps k0 (snd (commit_steps cx i goal fallback ps k))"
proof (induction ps arbitrary: k)
  case (Cons p ps)
  obtain t j where c: "create_task (ps_title p) (brief_input i goal (ps_role p)) (cx_actor cx) (cx_namespace cx) [] k = (t, j)"
    by fastforce
  have "steps k0 j" using steps_create_task [OF Cons.prems] c by (metis snd_conv)
  then show ?case
    by (auto simp: c Let_def intro!: steps_try assign_task.governs_after Cons.IH)
qed simp

interpretation prime_orchestrate: governed "prime_orchestrate w cx goal" for w cx goal
proof
  show "steps k (snd (prime_orchestrate w cx goal k))" for k
  proof -
    have "steps k (advance (k\<lparr>next_orchestration := n\<rparr>))" for n
      by (intro steps_intros) simp_all
    then have "steps k j" if "commit_steps cx i g fallback ps (advance (k\<lparr>next_orchestration := n\<rparr>)) = (x, j)"
      for i g fallback ps n x j
      using steps_commit [of k "advance (k\<lparr>next_orchestration := n\<rparr>)" cx i g fallback ps] that by simp
    then show ?thesis
      unfolding prime_orchestrate_def Let_def
      by (auto simp: state_simps split: option.split prod.split sum.split intro!: steps_intros)
  qed
qed

section \<open>Rounds\<close>

lemma steps_on_steps [steps_intros]: "steps k0 k \<Longrightarrow> steps k0 (on_steps i f k)"
  unfolding on_steps_def by (rule steps_orchestrations)

lemma steps_propagate [steps_intros]: "steps k0 k \<Longrightarrow> steps k0 (snd (propagate_dependency_blocks i k))"
  by (auto simp: propagate_dependency_blocks_def intro: steps_intros)

lemma steps_attempt_started [steps_intros]: "steps k0 k \<Longrightarrow> steps k0 (snd (attempt_started w t adapter k))"
  unfolding attempt_started_def
  by (auto split: option.split prod.split sum.split
      dest: execute_assigned_run.governs_pair execute_local_run.governs_pair prepare_cli_run.governs_pair)

lemma steps_attempt [steps_intros]: "steps k0 k \<Longrightarrow> steps k0 (snd (attempt_brief w t a k))"
  unfolding attempt_brief_def Let_def
  by (auto split: prod.split sum.split intro!: steps_attempt_started dest: start_run.governs_pair)

lemma steps_record_brief [steps_intros]:
  "steps k0 k \<Longrightarrow> steps k0 (snd (record_brief_outcome i idx n lab t exec started finished res k))"
  unfolding record_brief_outcome_def Let_def by (auto intro: steps_intros)

lemma steps_prepare_brief: "steps k0 k \<Longrightarrow> steps k0 (snd (snd (prepare_brief w i n b prep res k)))"
proof -
  assume k: "steps k0 k"
  obtain idx t a where b: "b = (idx, t, a)" by (cases b) auto
  obtain x j where at: "attempt_brief w t a (advance k) = (x, j)" by fastforce
  have j: "steps k0 j" using steps_attempt [OF steps_advance [OF k], of w t a] at by simp
  show ?thesis
    by (cases x) (auto simp: prepare_brief_def b at state_simps Let_def case_prod_beta j intro!: steps_intros)
qed

lemma steps_prepare_briefs: "steps k0 k \<Longrightarrow> steps k0 (snd (snd (prepare_briefs w i n bs prep res k)))"
proof (induction bs arbitrary: prep res k)
  case (Cons b bs)
  obtain p r j where b: "prepare_brief w i n b prep res k = (p, r, j)" by (metis surj_pair)
  with Cons steps_prepare_brief [OF Cons.prems, of w i n b prep res] show ?case by simp
qed simp

lemma steps_prepare_round: "steps k0 k \<Longrightarrow> steps k0 (snd (snd (prepare_orchestration_round w i mx c n res k)))"
  using steps_propagate [of k0 k i]
  by (auto simp: prepare_orchestration_round_def Let_def case_prod_beta intro!: steps_prepare_briefs)

lemma steps_finalize_brief: "steps k0 k \<Longrightarrow> steps k0 (snd (finalize_prepared_brief w i f res k))"
proof -
  assume k: "steps k0 k"
  obtain x j where c: "finalize_cli_run w (pb_plan (fb_brief f)) (fb_outcome f) k = (x, j)" by fastforce
  have "steps k0 j" using finalize_cli_run.governs_pair [OF c k] .
  then show ?thesis
    by (auto simp: finalize_prepared_brief_def c state_simps Let_def case_prod_beta intro!: steps_intros)
qed

lemma steps_finalize_briefs: "steps k0 k \<Longrightarrow> steps k0 (snd (finalize_briefs w i fs res k))"
proof (induction fs arbitrary: res k)
  case (Cons f fs)
  then show ?case using steps_finalize_brief [OF Cons.prems, of w i f res]
    by (auto simp: case_prod_beta intro!: Cons.IH)
qed simp

lemmas round_governs = steps_prepare_round [OF steps_refl] steps_finalize_brief [OF steps_refl]

lemma steps_run_rounds: "steps k0 k \<Longrightarrow> steps k0 (snd (run_rounds w i mx c n res k))"
proof (induction w i mx c n res k rule: run_rounds.induct)
  case (1 w i mx c n res k)
  obtain prep res1 k1 where p: "prepare_orchestration_round w i mx c (n + 1) res k = (prep, res1, k1)" by (metis surj_pair)
  have k1: "steps k0 k1" using steps_prepare_round [OF "1.prems", of w i mx c "n + 1" res] p by simp
  show ?case
  proof (cases "prep_ran prep")
    case False
    with k1 show ?thesis by (simp add: run_rounds.simps [of w i mx c n res k] p [simplified])
  next
    case True
    show ?thesis
    proof (cases "run_briefs_in_parallel w (clock k1) (rp_prepared prep)")
      case None
      with k1 True show ?thesis by (simp add: run_rounds.simps [of w i mx c n res k] p [simplified])
    next
      case (Some fs)
      obtain res2 k2 where f: "finalize_briefs w i fs res1 k1 = (res2, k2)" by fastforce
      have "steps k0 k2" using steps_finalize_briefs [OF k1, of w i fs res1] f by simp
      then have "steps k0 (snd (run_rounds w i mx c (n + 1) res2 k2))"
        by (intro "1.IH" [OF p [symmetric] refl _ Some f [symmetric]]) (simp_all add: True)
      then show ?thesis using True Some f by (simp add: run_rounds.simps [of w i mx c n res k] p [simplified])
    qed
  qed
qed

section \<open>The batch\<close>

interpretation finalize_orchestration_batch: governed "finalize_orchestration_batch i res" for i res
proof
  show "steps k (snd (finalize_orchestration_batch i res k))" for k
    using steps_propagate [OF steps_refl, of k i]
    by (auto simp: finalize_orchestration_batch_def Let_def state_simps case_prod_beta split: option.split intro!: steps_intros)
qed

interpretation run_orchestration: governed "run_orchestration w i mx c" for w i mx c
proof
  show "steps k (snd (run_orchestration w i mx c k))" for k
    unfolding run_orchestration_def
    by (auto simp: case_prod_beta split: sum.split option.split
        intro!: finalize_orchestration_batch.governs_after steps_run_rounds)
qed

end
