(* ===== verification/Relux_Autonomy.thy ===== *)
theory Relux_Autonomy
  imports Relux_Control Relux_Batch
begin

text \<open>
  Prime's autonomy loop (\<open>relux-kernel/src/state.rs\<close>, the update routes of \<open>server.rs\<close>): one tick retries
  the failed runs whose backoff has elapsed, assigns unassigned tasks to Prime where the operator
  allows it, and runs assigned tasks on the local adapter, each within the limit of the operator.
\<close>

section \<open>One tick\<close>

record tick_result =
  tr_tick_at :: ustr
  tr_tasks_run :: nat
  tr_tasks_assigned :: nat
  tr_transient_retries :: nat
  tr_actions_taken :: nat
  tr_summary :: ustr
  tr_skipped :: "ustr list"

definition no_tick :: "ustr \<Rightarrow> tick_result" where
  "no_tick at = \<lparr>tr_tick_at = at, tr_tasks_run = 0, tr_tasks_assigned = 0, tr_transient_retries = 0,
     tr_actions_taken = 0, tr_summary = cps ''No actions taken.'', tr_skipped = []\<rparr>"

definition audit_tick ::
  "string \<Rightarrow> string option \<Rightarrow> ustr option \<Rightarrow> namespace_id option \<Rightarrow> audit_result \<Rightarrow> kernel \<Rightarrow> kernel" where
  "audit_tick action target_type target ns = record_audit ''kernel'' (cps ''prime'') (cps action) target_type target ns"

definition finish_tick :: "tick_result \<Rightarrow> kernel \<Rightarrow> kernel" where
  "finish_tick res k = k\<lparr>autonomy_config := (autonomy_config k)\<lparr>last_tick_at := Some (tr_tick_at res),
     last_tick_summary := Some (tr_summary res)\<rparr>\<rparr>"

definition skip_tick :: "string \<Rightarrow> tick_result \<Rightarrow> kernel \<Rightarrow> tick_result \<times> kernel" where
  "skip_tick why res k =
     (let res = res\<lparr>tr_summary := cps why\<rparr>
      in (res, audit_tick ''autonomy:tick_skipped'' None None None AuDenied (finish_tick res k)))"

definition skipped :: "ustr \<Rightarrow> tick_result \<Rightarrow> tick_result" where
  "skipped reason res = res\<lparr>tr_skipped := tr_skipped res @ [reason]\<rparr>"

fun tick_retries :: "world \<Rightarrow> run_id list \<Rightarrow> tick_result \<Rightarrow> kernel \<Rightarrow> tick_result \<times> kernel" where
  "tick_retries w [] res k = (res, k)"
| "tick_retries w (r # rs) res k =
     (let ns = (case get (runs k) r of None \<Rightarrow> None | Some rn \<Rightarrow> namespace_of_task (r_task rn) k) in
      case retry_run w r k of
        (Inr new, k) \<Rightarrow>
          tick_retries w rs
            (res\<lparr>tr_transient_retries := tr_transient_retries res + 1, tr_actions_taken := tr_actions_taken res + 1\<rparr>)
            (audit_tick ''autonomy:transient_retry'' (Some ''run'') (Some (run_text new)) ns AuSuccess k)
      | (Inl e, k) \<Rightarrow>
          tick_retries w rs
            (skipped (cps ''Transient retry of run '' @ run_text r @ cps '' failed: '' @ error_text e) res)
            (audit_tick ''autonomy:transient_retry_failed'' (Some ''run'') (Some (run_text r)) ns AuFailed k))"

definition open_tasks :: "bool \<Rightarrow> kernel \<Rightarrow> task_id list" where
  "open_tasks assigned k = sort_key task_text (map t_id (filter
     (\<lambda>t. (t_status t = TCreated \<or> t_status t = TQueued) \<and> (t_assigned t \<noteq> None \<longleftrightarrow> assigned)) (vals (tasks k))))"

fun tick_assigns ::
  "agent_id \<Rightarrow> nat \<Rightarrow> task_id list \<Rightarrow> task_id list \<Rightarrow> tick_result \<Rightarrow> kernel \<Rightarrow> task_id list \<times> tick_result \<times> kernel" where
  "tick_assigns prime mx [] cands res k = (cands, res, k)"
| "tick_assigns prime mx (t # ts) cands res k =
     (if mx \<le> length cands then (cands, res, k)
      else
        let ns = namespace_of_task t k in
        case assign_task t prime k of
          (Inr _, k) \<Rightarrow>
            tick_assigns prime mx ts (cands @ [t])
              (res\<lparr>tr_tasks_assigned := tr_tasks_assigned res + 1, tr_actions_taken := tr_actions_taken res + 1\<rparr>)
              (audit_tick ''autonomy:task_assigned'' (Some ''task'') (Some (task_text t)) ns AuSuccess k)
        | (Inl e, k) \<Rightarrow>
            tick_assigns prime mx ts cands
              (skipped (cps ''Failed to auto-assign task '' @ task_text t @ cps '': '' @ error_text e) res)
              (audit_tick ''autonomy:task_assign_failed'' (Some ''task'') (Some (task_text t)) ns AuFailed k))"

definition tick_execute ::
  "world \<Rightarrow> task_id \<Rightarrow> namespace_id option \<Rightarrow> tick_result \<Rightarrow> kernel \<Rightarrow> tick_result \<times> kernel" where
  "tick_execute w t ns res k =
     (case execute_local_run w t k of
        (Inr r, k) \<Rightarrow>
          (res\<lparr>tr_tasks_run := tr_tasks_run res + 1, tr_actions_taken := tr_actions_taken res + 1\<rparr>,
           audit_tick ''autonomy:run_completed'' (Some ''run'') (Some (run_text r)) ns AuSuccess k)
      | (Inl e, k) \<Rightarrow>
          (skipped (cps ''Failed to execute task '' @ task_text t @ cps '': '' @ error_text e) res,
           audit_tick ''autonomy:run_failed'' (Some ''task'') (Some (task_text t)) ns AuFailed k))"

definition tick_task :: "world \<Rightarrow> task_id \<Rightarrow> tick_result \<Rightarrow> kernel \<Rightarrow> tick_result \<times> kernel" where
  "tick_task w t res k =
     (let ns = namespace_of_task t k in
      if needs_start t k
      then (case start_run w t k of
              (Inl e, k) \<Rightarrow>
                (skipped (cps ''Failed to start run for task '' @ task_text t @ cps '': '' @ error_text e) res,
                 audit_tick ''autonomy:run_start_failed'' (Some ''task'') (Some (task_text t)) ns AuFailed k)
            | (Inr _, k) \<Rightarrow> tick_execute w t ns res k)
      else tick_execute w t ns res k)"

fun tick_tasks :: "world \<Rightarrow> task_id list \<Rightarrow> tick_result \<Rightarrow> kernel \<Rightarrow> tick_result \<times> kernel" where
  "tick_tasks w [] res k = (res, k)"
| "tick_tasks w (t # ts) res k = (case tick_task w t res k of (res, k) \<Rightarrow> tick_tasks w ts res k)"

definition tick_summary :: "tick_result \<Rightarrow> ustr" where
  "tick_summary res =
     (if tr_actions_taken res = 0 then cps ''No safe assigned work was ready for Prime autonomy.''
      else nat_text (tr_tasks_run res) @ cps '' task(s) run, '' @ nat_text (tr_tasks_assigned res) @ cps '' task(s) assigned.'')
     @ (if tr_skipped res = [] then [] else cps '' Skipped: '' @ join (cps ''; '') (tr_skipped res))"

definition one_autonomy_tick :: "world \<Rightarrow> kernel \<Rightarrow> tick_result \<times> kernel" where
  "one_autonomy_tick w k =
     (let (at, k) = tick k;
          config = autonomy_config k;
          mx = max (max_tasks_per_tick config) 1 in
      if \<not> autonomy_enabled config then skip_tick ''Autonomy is disabled.'' (no_tick at) k
      else case prime_agent_id k of None \<Rightarrow> skip_tick ''Prime agent not found.'' (no_tick at) k
      | Some prime \<Rightarrow>
        let (res, k) = tick_retries w (take mx (transient_retry_ready (w_now w (clock k)) k)) (no_tick at) k;
            cands = open_tasks True k;
            (cands, res, k) =
              (if auto_assign_unassigned config \<and> length cands < mx
               then tick_assigns prime mx (open_tasks False k) cands res k else (cands, res, k));
            (res, k) = tick_tasks w (take mx cands) res k;
            res = res\<lparr>tr_summary := tick_summary res\<rparr>
        in (res, finish_tick res k))"

section \<open>The operator's dials\<close>

definition update_autonomy_config :: "update_autonomy_req \<Rightarrow> kernel \<Rightarrow> prime_autonomy_config \<times> kernel" where
  "update_autonomy_config req k =
     (let c = update_autonomy req (autonomy_config k) in (c, k\<lparr>autonomy_config := c\<rparr>))"

definition update_agent_policy :: "update_policy_req \<Rightarrow> kernel \<Rightarrow> prime_agent_policy \<times> kernel" where
  "update_agent_policy req k = (let p = update_policy req (agent_policy k) in (p, k\<lparr>agent_policy := p\<rparr>))"

section \<open>Instances of the contract\<close>

lemma steps_dials [steps_intros]:
  "steps k0 k \<Longrightarrow> steps k0 (k\<lparr>autonomy_config := c\<rparr>)" "steps k0 k \<Longrightarrow> steps k0 (k\<lparr>agent_policy := p\<rparr>)"
  by (erule governed_trans, auto simp: steps_def wf_def evolve_def intro!: keeps_refl)+

lemma steps_audit_tick [steps_intros]: "steps k0 k \<Longrightarrow> steps k0 (audit_tick action tt tg ns res k)"
  unfolding audit_tick_def by (rule steps_audit)

lemma steps_skip_tick [steps_intros]: "steps k0 k \<Longrightarrow> steps k0 (snd (skip_tick why res k))"
  unfolding skip_tick_def finish_tick_def Let_def by (auto intro!: steps_intros)

lemma steps_tick_retries: "steps k0 k \<Longrightarrow> steps k0 (snd (tick_retries w rs res k))"
proof (induction rs arbitrary: res k)
  case (Cons r rs)
  obtain x j where c: "retry_run w r k = (x, j)" by fastforce
  have "steps k0 j" by (rule retry_run.governs_pair [OF c Cons.prems])
  then show ?case by (cases x) (auto simp: c Let_def intro!: Cons.IH steps_intros)
qed simp

lemma steps_tick_assigns: "steps k0 k \<Longrightarrow> steps k0 (snd (snd (tick_assigns prime mx ts cands res k)))"
proof (induction ts arbitrary: cands res k)
  case (Cons t ts)
  obtain x j where c: "assign_task t prime k = (x, j)" by fastforce
  have "steps k0 j" by (rule assign_task.governs_pair [OF c Cons.prems])
  then show ?case using Cons.prems by (cases x) (auto simp: c Let_def intro!: Cons.IH steps_intros)
qed simp

lemma steps_tick_task: "steps k0 k \<Longrightarrow> steps k0 (snd (tick_task w t res k))"
proof -
  have e: "steps k0 j \<Longrightarrow> steps k0 (snd (tick_execute w t ns res j))" for ns j
    unfolding tick_execute_def
    by (auto split: prod.split sum.split intro!: steps_intros dest: execute_local_run.governs_pair)
  assume "steps k0 k"
  then show ?thesis
    unfolding tick_task_def Let_def
    by (auto split: prod.split sum.split intro!: steps_intros e dest: start_run.governs_pair)
qed

lemma steps_tick_tasks: "steps k0 k \<Longrightarrow> steps k0 (snd (tick_tasks w ts res k))"
proof (induction ts arbitrary: res k)
  case (Cons t ts)
  then show ?case using steps_tick_task [OF Cons.prems, of w t res] by (auto split: prod.split)
qed simp

interpretation one_autonomy_tick: governed "one_autonomy_tick w" for w
proof
  show "steps k (snd (one_autonomy_tick w k))" for k
    unfolding one_autonomy_tick_def Let_def finish_tick_def tick_advance prod.case
    by (auto simp: case_prod_beta split: option.split
        intro!: steps_intros steps_tick_tasks steps_tick_assigns steps_tick_retries)
qed

interpretation update_autonomy_config: governed "update_autonomy_config req" for req
  by unfold_locales (auto simp: update_autonomy_config_def Let_def intro!: steps_intros)

interpretation update_agent_policy: governed "update_agent_policy req" for req
  by unfold_locales (auto simp: update_agent_policy_def Let_def intro!: steps_intros)

end
