(* ===== verification/Relux_Reachable.thy ===== *)
theory Relux_Reachable
  imports Relux_Coordination Relux_Autonomy
begin

text \<open>
  The control plane as a step relation: one clause for each operation of the model, with any arguments and
  any answers of the world, and a few for what the operations outside the model do to this state. What
  holds of every state that is reached from that of a new process, and of any two states one of which is
  reached from the other.
\<close>

section \<open>Steps\<close>

text \<open>
  The last five clauses stand for the rest of \<open>state.rs\<close>. What it changes of this state, it changes by such
  steps, and they allow more: any plugins, source records, servers and adapters (the tools of a manifest, the
  registration of servers), any edit of the title, input, priority and status of a task (the turns of Prime), a
  tick, an entry in either journal (namespaces, tokens, proposed changes).
\<close>

inductive control_step :: "kernel \<Rightarrow> kernel \<Rightarrow> bool" where
  cs_create_agent:
    "control_step k (snd (create_agent_with_skills i name description adapter ns persona permissions skills lead k))"
| cs_update_agent: "control_step k (snd (update_agent_with_skills a u k))"
| cs_grant_permission: "control_step k (snd (grant_permission_to_agent a p k))"
| cs_revoke_permission: "control_step k (snd (revoke_permission_from_agent a p k))"
| cs_manager_grant: "control_step k (snd (manager_grant_permission_to_subordinate a b p k))"
| cs_manager_revoke: "control_step k (snd (manager_revoke_permission_from_subordinate a b p k))"
| cs_manager_assign: "control_step k (snd (manager_assign_task_to_subordinate a b t k))"
| cs_manager_grant_as_operator: "control_step k (snd (manager_grant_permission_to_subordinate_as_operator op a b p k))"
| cs_manager_grant_as_agent: "control_step k (snd (manager_grant_permission_to_subordinate_as_agent a b p k))"
| cs_manager_revoke_as_agent: "control_step k (snd (manager_revoke_permission_from_subordinate_as_agent a b p k))"
| cs_manager_assign_as_agent: "control_step k (snd (manager_assign_task_to_subordinate_as_agent a b t k))"
| cs_create_task: "control_step k (snd (create_task_with_parent title input by ns required parent k))"
| cs_reparent_task: "control_step k (snd (reparent_task t parent k))"
| cs_assign_task: "control_step k (snd (assign_task t a k))"
| cs_set_task_status: "control_step k (snd (set_task_status t s k))"
| cs_reopen_task: "control_step k (snd (reopen_task t k))"
| cs_complete_task: "control_step k (snd (complete_task t k))"
| cs_fail_task: "control_step k (snd (fail_task t k))"
| cs_start_run: "control_step k (snd (start_run w t k))"
| cs_complete_run: "control_step k (snd (complete_run w r summary k))"
| cs_cancel_run: "control_step k (snd (cancel_run w r reason k))"
| cs_fail_run: "control_step k (snd (fail_run w r reason k))"
| cs_fail_run_classified: "control_step k (snd (fail_run_classified w r reason class k))"
| cs_set_watchdog: "control_step k (snd (set_run_watchdog_config config k))"
| cs_recover_stale_runs: "control_step k (snd (recover_stale_runs w now active k))"
| cs_request_approval: "control_step k (snd (request_approval by action reason risk on k))"
| cs_resolve_approval: "control_step k (snd (resolve_approval i approve by remark k))"
| cs_call_tool: "control_step k (snd (call_tool w r a pl tool input k))"
| cs_invoke_tool: "control_step k (snd (invoke_tool w a pl tool input k))"
| cs_request_invocation: "control_step k (snd (request_tool_invocation_approval w by a pl tool input k))"
| cs_execute_invocation: "control_step k (snd (execute_approved_tool_invocation w i by k))"
| cs_grant_persistent: "control_step k (snd (grant_persistent_tool_invocation by a pl tool k))"
| cs_revoke_persistent: "control_step k (snd (revoke_persistent_grant g by k))"
| cs_allow_always: "control_step k (snd (allow_always_from_approval i by k))"
| cs_execute_local_run: "control_step k (snd (execute_local_run w t k))"
| cs_prepare_cli_run: "control_step k (snd (prepare_cli_run w t pl k))"
| cs_finalize_cli_run: "control_step k (snd (finalize_cli_run w plan outcome k))"
| cs_execute_assigned_run: "control_step k (snd (execute_assigned_run w t k))"
| cs_retry_run: "control_step k (snd (retry_run w r k))"
| cs_resume_run: "control_step k (snd (resume_run w r k))"
| cs_prime_orchestrate: "control_step k (snd (prime_orchestrate w cx goal k))"
| cs_run_orchestration: "control_step k (snd (run_orchestration w i mx c k))"
| cs_autonomy_tick: "control_step k (snd (one_autonomy_tick w k))"
| cs_update_autonomy: "control_step k (snd (update_autonomy_config areq k))"
| cs_update_policy: "control_step k (snd (update_agent_policy preq k))"
| cs_prepare_round: "control_step k (snd (snd (prepare_orchestration_round w i mx c n bres k)))"
| cs_finalize_brief: "control_step k (snd (finalize_prepared_brief w i flight bres k))"
| cs_finalize_batch: "control_step k (snd (finalize_orchestration_batch i bres k))"
| cs_register_plugin: "control_step k (register_plugin m k)"
| cs_install_plugin: "control_step k (snd (install_plugin m source label dir enabled k))"
| cs_remove_plugin: "control_step k (snd (remove_installed_plugin pl k))"
| cs_configure_adapter:
    "control_step k (snd (configure_adapter_runtime pl on command timeout max_output working_dir k))"
| cs_disable_adapter: "control_step k (snd (disable_adapter_runtime pl k))"
| cs_remove_adapter: "control_step k (snd (remove_adapter_runtime pl k))"
| cs_enable_server: "control_step k (snd (set_mcp_server_enabled srv on k))"
| cs_remove_server: "control_step k (snd (remove_mcp_server srv k))"
| cs_classify_tool: "control_step k (snd (set_mcp_tool_classification srv tool risk approval k))"
| cs_unclassify_tool: "control_step k (snd (clear_mcp_tool_classification srv tool k))"
| cs_other_catalog: "control_step k (k\<lparr>plugins := ps, installed_plugins := ips, mcp_servers := servers,
    adapter_runtime_configs := configs\<rparr>)"
| cs_other_task: "control_step k (k\<lparr>tasks := adjust t (\<lambda>tk. tk\<lparr>t_title := title, t_input := input, t_status := s,
    t_priority := priority, t_updated_at := at\<rparr>) (tasks k)\<rparr>)"
| cs_other_tick: "control_step k (snd (tick k))"
| cs_other_audit: "control_step k (record_audit ty actor action tt tg on_ns res k)"
| cs_other_event: "control_step k (push_run_event w r kind src k)"

abbreviation control_steps :: "kernel \<Rightarrow> kernel \<Rightarrow> bool" where
  "control_steps \<equiv> control_step\<^sup>*\<^sup>*"

lemmas all_governed =
  create_agent.governs update_agent.governs grant_permission.governs revoke_permission.governs
  manager_grant.governs manager_revoke.governs manager_assign.governs manager_grant_as_operator.governs
  manager_grant_as_agent.governs manager_revoke_as_agent.governs manager_assign_as_agent.governs
  create_task.governs reparent_task.governs assign_task.governs set_task_status.governs reopen_task.governs
  complete_task.governs fail_task.governs start_run.governs complete_run.governs cancel_run.governs fail_run.governs
  fail_run_classified.governs set_run_watchdog_config.governs recover_stale_runs.governs request_approval.governs
  resolve_approval.governs call_tool.governs invoke_tool.governs request_tool_invocation_approval.governs
  execute_approved.governs grant_persistent.governs revoke_persistent.governs allow_always.governs
  execute_local_run.governs prepare_cli_run.governs finalize_cli_run.governs execute_assigned_run.governs
  retry_run.governs resume_run.governs prime_orchestrate.governs run_orchestration.governs
  one_autonomy_tick.governs update_autonomy_config.governs update_agent_policy.governs
  round_governs finalize_orchestration_batch.governs steps_register_plugin [OF steps_refl] install_plugin.governs remove_installed_plugin.governs
  configure_adapter_runtime.governs disable_adapter_runtime.governs remove_adapter_runtime.governs
  set_mcp_server_enabled.governs remove_mcp_server.governs set_mcp_tool_classification.governs
  clear_mcp_tool_classification.governs

lemma others_governed:
  "steps k (k\<lparr>plugins := ps, installed_plugins := ips, mcp_servers := servers, adapter_runtime_configs := configs\<rparr>)"
  "steps k (k\<lparr>tasks := adjust t (\<lambda>tk. tk\<lparr>t_title := title, t_input := input, t_status := s, t_priority := priority,
     t_updated_at := at\<rparr>) (tasks k)\<rparr>)"
  "steps k (snd (tick k))" "steps k (record_audit ty actor action tt tg on_ns res k)" "steps k (push_run_event w r kind src k)"
  by (auto simp: tick_advance task_change_def task_evolves_def intro!: steps_intros)

lemma control_step_governed: "control_step k k' \<Longrightarrow> steps k k'"
  by (induction rule: control_step.induct) (rule all_governed others_governed)+

lemma control_steps_governed: "control_steps k k' \<Longrightarrow> steps k k'"
  by (induction rule: rtranclp_induct) (auto intro: governed_trans control_step_governed)

definition reachable :: "kernel \<Rightarrow> bool" where
  "reachable k \<longleftrightarrow> control_steps new_kernel k"

lemma new_kernel_wf: "wf new_kernel"
  by (simp add: new_kernel_def wf_def agents_wf_def tasks_wf_def runs_wf_def approvals_wf_def bindings_wf_def
      numbered_from_one_def)

lemma reachable_is_wf: "reachable k \<Longrightarrow> wf k"
  unfolding reachable_def using control_steps_governed new_kernel_wf by (auto simp: steps_def)

lemma reached_evolves: "reachable k \<Longrightarrow> control_steps k k' \<Longrightarrow> wf k' \<and> evolve k k'"
  using control_steps_governed reachable_is_wf by (auto simp: steps_def)

end
