(* ===== verification/Relux_Safety.thy ===== *)
theory Relux_Safety
  imports Relux_Reachable
begin

text \<open>
  What the invariant and the evolution of the control plane give its users: which names resolve, what a
  finished run and the journals are worth later, when a tool is called and with which arguments, and
  whom a manager reaches.
\<close>

section \<open>The state\<close>

lemma wf_refs:
  assumes "wf k"
  shows "(\<forall>r rn. get (runs k) r = Some rn \<longrightarrow> r_id rn = r \<and> (\<exists>tk. get (tasks k) (r_task rn) = Some tk)
            \<and> (\<exists>ag. get (agents k) (r_agent rn) = Some ag))
    \<and> (\<forall>t tk. get (tasks k) t = Some tk \<longrightarrow> t_id tk = t \<and> (\<forall>a. t_assigned tk = Some a \<longrightarrow> (\<exists>ag. get (agents k) a = Some ag))
        \<and> (\<forall>p. t_parent tk = Some p \<longrightarrow> (\<exists>pt. get (tasks k) p = Some pt \<and> t_namespace pt = t_namespace tk)))
    \<and> (\<forall>a ag. get (agents k) a = Some ag \<longrightarrow> ag_id ag = a
        \<and> (\<forall>l. ag_reports_to ag = Some l \<longrightarrow> (\<exists>lg. get (agents k) l = Some lg)))
    \<and> (\<forall>i b. get (pending_tool_invocations k) i = Some b \<longrightarrow> (\<exists>ap. get (approvals k) i = Some ap \<and> ap_status ap \<noteq> ApRejected))"
proof -
  from assms have a: "agents_wf (agents k)"
    and t: "tasks_wf (next_task k) (contains_key (agents k)) (tasks k)"
    and r: "runs_wf (next_run k) (clock k) (contains_key (tasks k)) (contains_key (agents k)) (runs k)"
    and b: "bindings_wf (approvals k) (pending_tool_invocations k)"
    by (simp_all add: wf_def)
  show ?thesis
    using agents_wfD [OF a] tasks_wfD [OF t] runs_wfD [OF r] bindings_wfD [OF b]
    by (intro conjI allI impI) (fastforce simp: contains_key_iff)+
qed

lemma ended_run_evolves:
  assumes "evolve k k'" "get (runs k) r = Some rn" "r_status rn \<noteq> RRunning"
  shows "\<exists>rn'. get (runs k') r = Some rn' \<and> r_status rn' \<noteq> RRunning \<and> run_evolves rn rn'"
  using evolveD(3) [OF assms(1)] assms(2,3) unfolding keeps_def by (metis run_evolves_def)

lemma wf_run_ended:
  "wf k \<Longrightarrow> get (runs k) r = Some rn \<Longrightarrow> r_status rn \<noteq> RRunning \<Longrightarrow> r_ended_at rn \<noteq> None"
  by (auto simp: wf_def status_ok_def dest!: runs_wfD)

lemma numbered_from_one_length:
  "numbered_from_one p n ids \<Longrightarrow> ids = map (numbered p) [1..<Suc (length ids)]"
  unfolding numbered_from_one_def by (metis diff_Suc_1 length_map length_upt)

lemma wf_journals:
  assumes "wf k"
  shows "map au_id (audit_log k) = map (numbered ''audit_'') [1..<Suc (length (audit_log k))]"
    "map ev_id (run_events k) = map (numbered ''revent_'') [1..<Suc (length (run_events k))]"
proof -
  from assms have "numbered_from_one ''audit_'' (next_audit k) (map au_id (audit_log k))"
    "numbered_from_one ''revent_'' (next_event k) (map ev_id (run_events k))" by (simp_all add: wf_def)
  from this [THEN numbered_from_one_length] show
    "map au_id (audit_log k) = map (numbered ''audit_'') [1..<Suc (length (audit_log k))]"
    "map ev_id (run_events k) = map (numbered ''revent_'') [1..<Suc (length (run_events k))]"
    unfolding length_map by this+
qed

lemma reachable_step: "reachable k \<Longrightarrow> control_step k k' \<Longrightarrow> reachable k'"
  unfolding reachable_def by (meson rtranclp.rtrancl_into_rtrancl)

text \<open>The adapter of an agent need not exist: creating an agent asks for its plugin, and removing the plugin
  leaves the agent as it is.\<close>

lemma removed_plugin_dangles:
  assumes "get (agents k) a = Some ag" "contains_key (installed_plugins k) (ag_adapter ag)"
  shows "\<exists>i k'. remove_installed_plugin (ag_adapter ag) k = (Inr i, k') \<and> get (agents k') a = Some ag
    \<and> \<not> contains_key (plugins k') (ag_adapter ag)"
  using assms by (auto simp: remove_installed_plugin_def catalog_audit_def contains_key_iff state_simps Let_def)

section \<open>Bound calls\<close>

lemma consumed_stays:
  assumes "evolve k k'" "contains_key (approvals k) i" "\<And>b. get (pending_tool_invocations k) i = Some b \<Longrightarrow> pi_consumed b"
    and "get (pending_tool_invocations k') i = Some b'"
  shows "pi_consumed b'"
  using evolve_binding [OF assms(1,4,2)] assms(3) by (auto simp: binding_evolves_def)

text \<open>A call that was used up, or is no longer bound, is refused and changes nothing.\<close>

lemma spent_call_refused:
  assumes "contains_key (approvals k) i" "\<And>b. get (pending_tool_invocations k) i = Some b \<Longrightarrow> pi_consumed b"
  shows "\<exists>e. execute_approved_tool_invocation w i by k = (Inl e, k)"
  using assms by (auto simp: execute_approved_tool_invocation_def contains_key_iff split: option.split)

lemma with_permission_Inr:
  assumes "with_permission ty actor a p tool on_denied body k = (Inr x, k')"
  shows "\<exists>ns required. resolve_tool_permission a p tool k = Inr (ns, required) \<and> agent_holds_permission a required k
    \<and> body ns required k = (Inr x, k')"
  using assms by (auto simp: with_permission_def split: sum.splits if_splits)

lemma execute_approved_Inr:
  assumes "execute_approved_tool_invocation w i by k = (Inr out, k')"
  shows "\<exists>ap b ns required j. get (approvals k) i = Some ap \<and> ap_status ap = ApApproved
    \<and> get (pending_tool_invocations k) i = Some b \<and> \<not> pi_consumed b
    \<and> resolve_tool_permission (pi_agent b) (pi_plugin b) (pi_tool b) k = Inr (ns, required)
    \<and> agent_holds_permission (pi_agent b) required k
    \<and> execute_tool_runtime w (pi_plugin b) (pi_tool b) (pi_input b) j = Inr out
    \<and> get (pending_tool_invocations k') i = Some (b\<lparr>pi_consumed := True\<rparr>) \<and> approvals k' = approvals k"
  using assms
  by (auto simp: execute_approved_tool_invocation_def audit_tool_def state_simps Let_def
      split: option.splits if_splits sum.splits dest!: with_permission_Inr)

lemma request_binds:
  assumes "request_tool_invocation_approval w by a p tool input k = (Inr i, k')"
  shows "\<exists>b. get (pending_tool_invocations k') i = Some b \<and> pi_agent b = a \<and> pi_plugin b = p \<and> pi_tool b = tool
      \<and> pi_input b = input \<and> pi_requested_by b = by \<and> \<not> pi_consumed b"
    and "contains_key (approvals k') i"
proof -
  obtain ns required where r: "resolve_tool_permission a p tool k = Inr (ns, required)"
    using assms by (auto simp: request_tool_invocation_approval_def dest!: with_permission_Inr)
  then show "\<exists>b. get (pending_tool_invocations k') i = Some b \<and> pi_agent b = a \<and> pi_plugin b = p \<and> pi_tool b = tool
      \<and> pi_input b = input \<and> pi_requested_by b = by \<and> \<not> pi_consumed b" "contains_key (approvals k') i"
    using assms
    by (auto simp: request_tool_invocation_approval_def with_permission_def request_approval_def state_simps Let_def
        split: if_splits)
qed

section \<open>Properties of the state\<close>

text \<open>C3. Every state the control plane reaches satisfies its invariant, whatever operations led to it, in
  which order, with which arguments, with which answers of the tools and adapters, and whether they
  succeeded: identifiers are unique and minted in order, an ended run has an end and a failed one a
  class, only retryable failures carry a retry, a decided approval names who decided it, a bound call
  has an approval that was not rejected.\<close>

lemma reachable_wf: "reachable k \<Longrightarrow> wf k"
  by (rule reachable_is_wf)

text \<open>C40. Every name stored in a reachable state resolves to a record of its kind under its own name: a run
  has its task and its agent, a task its assignee and a parent in its own namespace, an agent its
  lead, a bound call its approval, which was not rejected.\<close>

lemma reachable_references:
  assumes "reachable k"
  shows "(\<forall>r rn. get (runs k) r = Some rn \<longrightarrow> r_id rn = r \<and> (\<exists>tk. get (tasks k) (r_task rn) = Some tk)
            \<and> (\<exists>ag. get (agents k) (r_agent rn) = Some ag))
    \<and> (\<forall>t tk. get (tasks k) t = Some tk \<longrightarrow> t_id tk = t \<and> (\<forall>a. t_assigned tk = Some a \<longrightarrow> (\<exists>ag. get (agents k) a = Some ag))
        \<and> (\<forall>p. t_parent tk = Some p \<longrightarrow> (\<exists>pt. get (tasks k) p = Some pt \<and> t_namespace pt = t_namespace tk)))
    \<and> (\<forall>a ag. get (agents k) a = Some ag \<longrightarrow> ag_id ag = a
        \<and> (\<forall>l. ag_reports_to ag = Some l \<longrightarrow> (\<exists>lg. get (agents k) l = Some lg)))
    \<and> (\<forall>i b. get (pending_tool_invocations k) i = Some b \<longrightarrow> (\<exists>ap. get (approvals k) i = Some ap \<and> ap_status ap \<noteq> ApRejected))"
  by (rule wf_refs [OF reachable_is_wf [OF assms]])

text \<open>C7. A run that has ended stays ended: no later operation lets it run again, moves it to another task or
  agent, or loses it.\<close>

lemma ended_run_stays_ended:
  assumes "reachable k" "control_steps k k'" "get (runs k) r = Some rn" "r_status rn \<noteq> RRunning"
  shows "\<exists>rn'. get (runs k') r = Some rn' \<and> r_status rn' \<noteq> RRunning \<and> r_ended_at rn' \<noteq> None
    \<and> r_task rn' = r_task rn \<and> r_agent rn' = r_agent rn \<and> r_started_at rn' = r_started_at rn"
proof -
  have e: "wf k'" "evolve k k'" using reached_evolves assms(1,2) by blast+
  from ended_run_evolves [OF e(2) assms(3,4)] obtain rn' where
    "get (runs k') r = Some rn'" "r_status rn' \<noteq> RRunning" "run_evolves rn rn'" by blast
  with wf_run_ended [OF e(1)] show ?thesis by (auto simp: run_evolves_def)
qed

text \<open>C17. Both journals are append-only and complete: what is in the audit log or the transcript of a reachable
  state stays there, in its place, and the entries are numbered from one without a gap or a repeat.\<close>

lemma journals_append_only:
  assumes "reachable k" "control_steps k k'"
  shows "\<exists>as es. audit_log k' = audit_log k @ as \<and> run_events k' = run_events k @ es
    \<and> map au_id (audit_log k') = map (numbered ''audit_'') [1..<Suc (length (audit_log k'))]
    \<and> map ev_id (run_events k') = map (numbered ''revent_'') [1..<Suc (length (run_events k'))]
    \<and> distinct (map au_id (audit_log k')) \<and> distinct (map ev_id (run_events k'))"
proof -
  have e: "wf k'" "evolve k k'" using reached_evolves assms by blast+
  obtain as es where "audit_log k' = audit_log k @ as" "run_events k' = run_events k @ es"
    using evolveD(5,6) [OF e(2)] unfolding grows_def by blast
  moreover have "distinct (map (numbered p) [1..<n])" for p n
    by (simp add: distinct_map inj_on_def)
  ultimately show ?thesis using wf_journals [OF e(1)] by metis
qed

section \<open>Properties of approved calls\<close>

text \<open>C5. An approved call is made at most once: after it was made, every further attempt to make it fails
  without asking the tool and without any effect, whatever happens in between and however often the
  approval is decided again.\<close>

lemma approved_call_runs_once:
  assumes "reachable k" "execute_approved_tool_invocation w i by k = (Inr output, k1)" "control_steps k1 k2"
  shows "\<exists>e. execute_approved_tool_invocation w' i by' k2 = (Inl e, k2)"
proof -
  have s: "control_step k k1" using cs_execute_invocation [of k w i "by"] assms(2) by simp
  have e: "evolve k1 k2" using reached_evolves [OF reachable_step [OF assms(1) s] assms(3)] ..
  from execute_approved_Inr [OF assms(2)] obtain b where
    b: "contains_key (approvals k1) i" "get (pending_tool_invocations k1) i = Some (b\<lparr>pi_consumed := True\<rparr>)"
    by (auto simp: contains_key_iff)
  have "contains_key (approvals k2) i" using keeps_contains [OF evolveD(4) [OF e] b(1)] .
  moreover have "pi_consumed c" if "get (pending_tool_invocations k2) i = Some c" for c
    by (rule consumed_stays [OF e b(1) _ that]) (simp add: b(2))
  ultimately show ?thesis by (rule spent_call_refused)
qed

text \<open>A rejected call is never made: once the approval of a bound call is rejected, no attempt to make the
  call succeeds or reaches the tool, even if the approval is approved later.\<close>

lemma rejected_call_never_runs:
  assumes "reachable k" "resolve_approval i False approver remark k = (Inr (), k1)" "control_steps k1 k2"
  shows "\<exists>e. execute_approved_tool_invocation w i by k2 = (Inl e, k2)"
proof -
  have s: "control_step k k1" using cs_resolve_approval [of k i False approver remark] assms(2) by simp
  have e: "evolve k1 k2" using reached_evolves [OF reachable_step [OF assms(1) s] assms(3)] ..
  have k1: "contains_key (approvals k1) i" "get (pending_tool_invocations k1) i = None"
    using assms(2) by (auto simp: resolve_approval_alt state_simps contains_key_iff split: option.splits)
  have "contains_key (approvals k2) i" using keeps_contains [OF evolveD(4) [OF e] k1(1)] .
  moreover have "get (pending_tool_invocations k2) i = None"
    using evolve_binding [OF e _ k1(1)] k1(2) by (cases "get (pending_tool_invocations k2) i") auto
  ultimately show ?thesis by (intro spent_call_refused) auto
qed

text \<open>C6. The call that is made is the call that was asked for: between the request and the execution nothing
  can change the agent, the tool or the arguments it is bound to, it is made only while the approval is
  approved and the agent still holds the permission, and its result is the answer of that tool to those
  arguments.\<close>

lemma bound_call_unchanged:
  assumes "reachable k" "request_tool_invocation_approval w by a p tool input k = (Inr i, k1)" "control_steps k1 k2"
    and "execute_approved_tool_invocation w' i by' k2 = (Inr output, k3)"
  shows "(\<exists>ap. get (approvals k2) i = Some ap \<and> ap_status ap = ApApproved)
    \<and> (\<exists>ns required. resolve_tool_permission a p tool k2 = Inr (ns, required) \<and> agent_holds_permission a required k2)
    \<and> (\<exists>j. execute_tool_runtime w' p tool input j = Inr output)"
proof -
  have s: "control_step k k1" using cs_request_invocation [of k w "by" a p tool input] assms(2) by simp
  have e: "evolve k1 k2" using reached_evolves [OF reachable_step [OF assms(1) s] assms(3)] ..
  from request_binds(1) [OF assms(2)] obtain b where b: "get (pending_tool_invocations k1) i = Some b"
    "pi_agent b = a" "pi_plugin b = p" "pi_tool b = tool" "pi_input b = input" by blast
  from execute_approved_Inr [OF assms(4)] obtain ap c ns required j where
    x: "get (approvals k2) i = Some ap" "ap_status ap = ApApproved" "get (pending_tool_invocations k2) i = Some c"
      "resolve_tool_permission (pi_agent c) (pi_plugin c) (pi_tool c) k2 = Inr (ns, required)"
      "agent_holds_permission (pi_agent c) required k2"
      "execute_tool_runtime w' (pi_plugin c) (pi_tool c) (pi_input c) j = Inr output" by blast
  from evolve_binding [OF e x(3) request_binds(2) [OF assms(2)]] b(1) have "binding_evolves b c" by auto
  then have "pi_agent c = pi_agent b" "pi_plugin c = pi_plugin b" "pi_tool c = pi_tool b" "pi_input c = pi_input b"
    by (cases b; cases c; simp add: binding_evolves_def)+
  with b x show ?thesis by auto
qed

section \<open>Properties of the gate\<close>

text \<open>C20. A tool called in a run is reached only through the gate: a call that gives a result found the
  permission the tool needs on the agent, and, if the tool needs approval, a standing grant for exactly
  this agent, tool, permission and risk; the result is the answer of the tool.\<close>

lemma call_tool_gated:
  assumes "call_tool w r a p tool input k = (Inr output, k')"
  shows "\<exists>ns required. resolve_tool_permission a p tool k = Inr (ns, required) \<and> agent_holds_permission a required k
    \<and> (tool_needs_approval p tool k \<longrightarrow> matching_persistent_grant_id a p tool k \<noteq> None)
    \<and> (\<exists>j. execute_tool_runtime w p tool input j = Inr output)"
  using assms
  by (auto simp: call_tool_def gated_execution_def split: option.splits sum.splits if_splits dest!: with_permission_Inr)

text \<open>Without the permission a tool is not asked: the call fails with the permission that is missing, the
  same whatever the tool would have answered, and the denial is in the audit log.\<close>

lemma call_tool_denied:
  assumes "resolve_tool_permission a p tool k = Inr (ns, required)" "\<not> agent_holds_permission a required k"
  shows "\<exists>ev. call_tool (w\<lparr>w_tool := anything\<rparr>) r a p tool input k
      = (Inl (PermissionDenied (agent_text a) (as_str required)), snd (call_tool w r a p tool input k))
    \<and> audit_log (snd (call_tool w r a p tool input k)) = audit_log k @ [ev] \<and> au_result ev = AuDenied
    \<and> au_actor ev = agent_text a \<and> au_action ev = as_str required \<and> au_target ev = Some tool"
proof -
  have "push_run_event (w\<lparr>w_tool := anything\<rparr>) = push_run_event w"
    by (intro ext) (simp add: push_run_event_def)
  then show ?thesis
    using assms by (simp add: call_tool_def with_permission_def run_tool_event_def audit_tool_def record_audit_def
        Let_def tick_def push_run_event_sel)
qed

end
