(* ===== verification/Relux_Behaviour.thy ===== *)
theory Relux_Behaviour
  imports Relux_Safety
begin

text \<open>
  What single operations do, on every branch: when a run starts and that the execution picks up the run
  just started, whom a manager reaches, what a command-line run is prepared with, which runs the watchdog
  ends, and that the hierarchy stays without loops.
\<close>

section \<open>Starting a run\<close>

lemma start_run_effect:
  assumes "start_run w t k = (Inr r, k')"
  shows "r = RunId (numbered ''run_'' (Suc (next_run k)))" "next_run k' = Suc (next_run k)"
    and "runs k' = adjust r (\<lambda>x. x\<lparr>r_last_activity := Some (w_now w (clock k + 3))\<rparr>)
      (hinsert r (new_run r t (the (t_assigned (the (get (tasks k) t))))
        (ag_adapter (the (get (agents k) (the (t_assigned (the (get (tasks k) t))))))) (render (clock k)) (w_now w (clock k + 1))) (runs k))"
    and "\<exists>tk a ag. get (tasks k) t = Some tk \<and> t_assigned tk = Some a \<and> get (agents k) a = Some ag
      \<and> list_all (holds ag) (t_required tk)"
    and "map_option t_status (get (tasks k') t) = Some TRunning"
  using assms
  by (auto simp: start_run_def Let_def state_simps advance_def set_status_def numeral_3_eq_3 find_None_iff list_all_iff
      split: option.splits)

lemma start_run_rest:
  assumes "start_run w t k = (Inr r, k')"
  shows "agents k' = agents k"
    and "tasks k' = adjust t (\<lambda>tk. tk\<lparr>t_status := TRunning, t_updated_at := render (Suc (clock k))\<rparr>) (tasks k)"
  using assms by (auto simp: start_run_def Let_def state_simps advance_def set_status_def split: option.splits)

lemma start_run_starts:
  assumes "get (tasks k) t = Some tk" "t_assigned tk = Some a" "get (agents k) a = Some ag" "list_all (holds ag) (t_required tk)"
  shows "\<exists>r k'. start_run w t k = (Inr r, k')"
proof -
  have "List.find (\<lambda>p. \<not> holds ag p) (t_required tk) = None" using assms(4) by (simp add: find_None_iff list_all_iff)
  with assms show ?thesis by (simp add: start_run_def Let_def tick_def)
qed

text \<open>A run is started exactly for an existing task that is assigned to an existing agent holding every
  permission the task requires. The new run is then a run of that task by that agent on the agent's
  adapter, the only change to the runs, and both the task and the run are running.\<close>

lemma start_run_exactly:
  "((\<exists>r k'. start_run w t k = (Inr r, k')) \<longleftrightarrow> (\<exists>tk a ag. get (tasks k) t = Some tk \<and> t_assigned tk = Some a
      \<and> get (agents k) a = Some ag \<and> list_all (holds ag) (t_required tk)))
   \<and> (\<forall>r k'. start_run w t k = (Inr r, k') \<longrightarrow> (\<exists>tk a ag rn. get (tasks k) t = Some tk \<and> t_assigned tk = Some a
      \<and> get (agents k) a = Some ag \<and> get (runs k') r = Some rn \<and> r_id rn = r \<and> r_task rn = t \<and> r_agent rn = a
      \<and> r_adapter rn = ag_adapter ag \<and> r_status rn = RRunning \<and> r_resumed_from rn = None
      \<and> map_option t_status (get (tasks k') t) = Some TRunning
      \<and> (\<forall>s. s \<noteq> r \<longrightarrow> get (runs k') s = get (runs k) s)))"
proof (intro conjI iffI allI impI)
  fix r k'
  assume s: "start_run w t k = (Inr r, k')"
  then obtain tk a ag where x: "get (tasks k) t = Some tk" "t_assigned tk = Some a" "get (agents k) a = Some ag"
    using start_run_effect(4) by blast
  then show "\<exists>tk a ag rn. get (tasks k) t = Some tk \<and> t_assigned tk = Some a
      \<and> get (agents k) a = Some ag \<and> get (runs k') r = Some rn \<and> r_id rn = r \<and> r_task rn = t \<and> r_agent rn = a
      \<and> r_adapter rn = ag_adapter ag \<and> r_status rn = RRunning \<and> r_resumed_from rn = None
      \<and> map_option t_status (get (tasks k') t) = Some TRunning
      \<and> (\<forall>s. s \<noteq> r \<longrightarrow> get (runs k') s = get (runs k) s)"
    unfolding start_run_effect(3) [OF s] start_run_effect(5) [OF s] by (simp add: new_run_def)
qed (use start_run_effect(4) start_run_starts in blast)+

section \<open>The run just started\<close>

lemma max_by_newest:
  assumes "wf_map rs" "get rs r = Some rn" "P rn"
    and "\<And>s x. get rs s = Some x \<Longrightarrow> P x \<Longrightarrow> s \<noteq> r \<Longrightarrow> (key x :: 'k :: linorder) < key rn"
  shows "max_by (\<lambda>a b. key a \<le> key b) (filter P (vals rs)) = Some rn"
proof (rule max_by_unique)
  show "rn \<in> set (filter P (vals rs))" using assms(2,3) get_in_vals by fastforce
  fix y
  assume y: "y \<in> set (filter P (vals rs))" "y \<noteq> rn"
  then obtain s where "get rs s = Some y" using assms(1) in_vals_iff by fastforce
  with y assms(2,4) show "key y < key rn" by (metis (mono_tags, lifting) mem_Collect_eq option.inject set_filter)
qed

lemma active_run_newest:
  assumes "wf_map (runs k)" "get (runs k) r = Some rn" "r_id rn = r" "running_for t rn"
    and "\<And>s x. get (runs k) s = Some x \<Longrightarrow> s \<noteq> r \<Longrightarrow> r_started_at x < r_started_at rn"
  shows "active_run t k = Some r"
  using max_by_newest [OF assms(1,2), of "running_for t" r_started_at] assms(3,4,5) by (simp add: active_run_def)

lemma newest_run_newest:
  assumes "wf_map (runs k)" "get (runs k) r = Some rn" "r_id rn = r"
    and "\<And>s x. get (runs k) s = Some x \<Longrightarrow> s \<noteq> r \<Longrightarrow> r_id x < r_id rn"
  shows "newest_run k = Some r"
  using max_by_newest [OF assms(1,2), of "\<lambda>_. True" r_id] assms(3,4) by (simp add: newest_run_def)

lemma started_after:
  assumes "wf k" "start_run w t k = (Inr r, k')"
  obtains rn where "wf_map (runs k')" "get (runs k') r = Some rn" "r_id rn = r" "r_task rn = t" "r_status rn = RRunning"
    "r_resumed_from rn = None" "r_session rn = None"
    "clock k < 86400 \<Longrightarrow> (\<And>s x. get (runs k') s = Some x \<Longrightarrow> s \<noteq> r \<Longrightarrow> r_started_at x < r_started_at rn)"
    "next_run k < 9999 \<Longrightarrow> (\<And>s x. get (runs k') s = Some x \<Longrightarrow> s \<noteq> r \<Longrightarrow> r_id x < r_id rn)"
proof -
  have k: "runs_wf (next_run k) (clock k) (contains_key (tasks k)) (contains_key (agents k)) (runs k)"
    using assms(1) by (simp add: wf_def)
  note eff = start_run_effect(3) [OF assms(2)]
  have m: "wf_map (runs k')" unfolding eff using k by (simp add: runs_wf_def)
  obtain rn where rn: "get (runs k') r = Some rn" "r_id rn = r" "r_task rn = t" "r_status rn = RRunning"
    "r_resumed_from rn = None" "r_session rn = None" "r_started_at rn = Some (render (clock k))"
    unfolding eff by (simp add: new_run_def)
  have old: "\<exists>i c. r_id x = RunId (numbered ''run_'' i) \<and> i \<le> next_run k \<and> c < clock k \<and> r_started_at x = Some (render c)"
    if "get (runs k') s = Some x" "s \<noteq> r" for s x
  proof -
    have "get (runs k) s = Some x" using that unfolding eff by simp
    from runs_wfD [OF k this] show ?thesis by (cases s) (auto simp: minted_def)
  qed
  have "r_started_at x < r_started_at rn" if "clock k < 86400" "get (runs k') s = Some x" "s \<noteq> r" for s x
    using old [OF that(2,3)] that(1) by (auto simp: rn render_less_iff)
  moreover have "r_id x < r_id rn" if c: "next_run k < 9999" and x: "get (runs k') s = Some x" "s \<noteq> r" for s x
  proof -
    obtain i where i: "r_id x = RunId (numbered ''run_'' i)" "i \<le> next_run k" using old [OF x] by blast
    have "length (pad_zeros 4 i) = 4" "length (pad_zeros 4 (Suc (next_run k))) = 4"
      using i(2) c by (simp_all add: length_pad_zeros)
    then show ?thesis
      using i start_run_effect(1) [OF assms(2)] by (simp add: rn less_run_id_def numbered_less_iff)
  qed
  ultimately show thesis using that m rn by blast
qed

lemma started_is_active:
  assumes "wf k" "start_run w t k = (Inr r, k')" "clock k < 86400"
  shows "active_run t k' = Some r"
  by (rule started_after [OF assms(1,2)]) (rule active_run_newest, auto simp: running_for_def assms(3))

lemma started_is_newest:
  assumes "wf k" "start_run w t k = (Inr r, k')" "next_run k < 9999"
  shows "newest_run k' = Some r"
  by (rule started_after [OF assms(1,2)]) (rule newest_run_newest, auto simp: assms(3))

text \<open>What executes a task picks up the run just started for it, and what looks for the newest run finds
  it, as long as the logical clock has not gone round its 24 hours and fewer than ten thousand runs were
  started.\<close>

lemma started_run_found:
  assumes "reachable k" "start_run w t k = (Inr r, k')"
  shows "(clock k < 86400 \<longrightarrow> active_run t k' = Some r) \<and> (next_run k < 9999 \<longrightarrow> newest_run k' = Some r)"
  using started_is_active [OF _ assms(2)] started_is_newest [OF _ assms(2)] reachable_is_wf [OF assms(1)] by blast

text \<open>Beyond these bounds the order of the texts is not the order of creation: the time stamps repeat after
  24 logical hours, and the ten-thousandth run sorts before the one started before it.\<close>

lemma order_lost:
  "render (t + 86400) = render t \<and> RunId (numbered ''run_'' 10000) < RunId (numbered ''run_'' 9999)"
proof
  have h: "(t + 86400) div 3600 = 24 + t div 3600" using div_mult_self2 [of 3600 t 24] by simp
  have "(t + 86400) div 60 = t div 60 + 60 * 24" using div_mult_self2 [of 60 t 1440] by simp
  then have m: "(t + 86400) div 60 mod 60 = t div 60 mod 60" by (simp only: mod_mult_self2)
  have "(t + 86400) mod 60 = t mod 60" using mod_mult_self2 [of t 60 1440] by simp
  then show "render (t + 86400) = render t" unfolding render_def h m by simp
  have "show_nat 9999 = ''9999''" "show_nat 10000 = ''10000''"
    by (simp_all add: show_nat.simps digit_char_def char_of_def bit_0)
  then show "RunId (numbered ''run_'' 10000) < RunId (numbered ''run_'' 9999)"
    by (simp add: less_run_id_def numbered_def pad_zeros_def cps_Cons)
qed

section \<open>Managers\<close>

lemma subtree_authority_reaches:
  assumes "subtree_authority m action x k"
  shows "\<exists>ag. get (agents k) m = Some ag \<and> ag_status ag = AgActive \<and> contains_key (agents k) x
    \<and> Permission (join [58] [cps ''agent'', agent_text m, SUBTREE_KEYWORD, action]) \<in> set (ag_permissions ag)
    \<and> m \<noteq> x \<and> (x, m) \<in> (edges (reports_to_map k))\<^sup>+"
proof -
  obtain ag g where x: "get (agents k) m = Some ag" "ag_status ag = AgActive" "contains_key (agents k) x"
      "g \<in> set (ag_permissions ag)" "manager_subtree_authorizes g m action x (reports_to_map k)"
    using assms by (auto simp: subtree_authority_def list_ex_iff split: option.splits)
  then have g: "parse_agent_subtree (as_str g) = Some (agent_text m, action)" "is_in_subtree m x (reports_to_map k)"
    by (auto simp: manager_subtree_authorizes_def split: option.splits agent_id.splits)
  then have "g = Permission (join [58] [cps ''agent'', agent_text m, SUBTREE_KEYWORD, action])"
    by (cases g) (simp add: parse_agent_subtree_iff)
  with x g(2) line.up_reaches show ?thesis by (auto simp: in_subtree_iff)
qed

text \<open>A manager who grants, revokes or assigns on its own authority succeeds only on an agent below it in
  the hierarchy, never on itself, as an active agent that holds the subtree permission for exactly this
  action; otherwise agents and tasks are left as they are and the denial is in the audit log.\<close>

lemma manager_acts_below:
  assumes "(action, op) \<in> {(''grant_permission'', manager_grant_permission_to_subordinate m x p),
    (''revoke_permission'', manager_revoke_permission_from_subordinate m x p),
    (''assign_task'', manager_assign_task_to_subordinate m x t)}"
  shows "(isl (fst (op k)) \<or> (\<exists>ag. get (agents k) m = Some ag \<and> ag_status ag = AgActive
      \<and> Permission (join [58] [cps ''agent'', agent_text m, SUBTREE_KEYWORD, cps action]) \<in> set (ag_permissions ag)
      \<and> m \<noteq> x \<and> (x, m) \<in> (edges (reports_to_map k))\<^sup>+))
    \<and> (subtree_authority m (cps action) x k
      \<or> isl (fst (op k)) \<and> agents (snd (op k)) = agents k \<and> tasks (snd (op k)) = tasks k
        \<and> (\<exists>ev. audit_log (snd (op k)) = audit_log k @ [ev] \<and> au_result ev = AuDenied \<and> au_actor ev = agent_text m))"
proof (cases "subtree_authority m (cps action) x k")
  case True
  with subtree_authority_reaches [OF True] show ?thesis by blast
next
  case False
  with assms show ?thesis
    by (auto simp: manager_grant_permission_to_subordinate_def manager_revoke_permission_from_subordinate_def
        manager_assign_task_to_subordinate_def require_authority_def record_audit_def Let_def tick_def)
qed

section \<open>The hierarchy\<close>

lemma reports_to_map_hinsert: "reports_to_map (k\<lparr>agents := hinsert a ag (agents k)\<rparr>) = (reports_to_map k)(a := ag_reports_to ag)"
  by (auto simp: reports_to_map_def)

lemma edges_remove: "acyclic (edges m) \<Longrightarrow> acyclic (edges (m(a := None)))"
  by (erule acyclic_subset) (auto simp: edges_def split: if_splits)

lemma edges_new_leaf:
  assumes "acyclic (edges m)" "l \<noteq> a" "\<And>x. m x \<noteq> Some a"
  shows "acyclic (edges (m(a \<mapsto> l)))"
proof -
  have "(l, a) \<notin> (edges m)\<^sup>*" using assms(2,3) by (auto simp: edges_def elim: rtranclE)
  then have "acyclic (insert (a, l) (edges m))" using assms(1) by (simp add: acyclic_insert)
  then show ?thesis by (rule acyclic_subset) (auto simp: edges_def split: if_splits)
qed

lemma new_lead_acyclic:
  assumes "acyclic (edges m)" "length (chain_of_command l m) < MAX_HIERARCHY_DEPTH" "\<not> would_create_cycle a l m"
  shows "acyclic (edges (m(a \<mapsto> l)))"
  using line.new_edge_iff [OF assms(1,2), of a] assms(3) by (auto simp: would_create_cycle_def in_subtree_iff)

lemma reports_to_map_agents: "agents j = agents k \<Longrightarrow> reports_to_map j = reports_to_map k"
  by (simp add: reports_to_map_def)

lemma create_agent_reports:
  assumes "wf k"
  obtains "reports_to_map (snd (create_agent_with_skills i name description adapter ns persona permissions skills lead k)) = reports_to_map k"
  | l where "lead = Some l" "l \<noteq> AgentId i" "\<And>x. reports_to_map k x \<noteq> Some (AgentId i)"
      "reports_to_map (snd (create_agent_with_skills i name description adapter ns persona permissions skills lead k))
        = (reports_to_map k)(AgentId i \<mapsto> l)"
  | "lead = None"
      "reports_to_map (snd (create_agent_with_skills i name description adapter ns persona permissions skills lead k))
        = (reports_to_map k)(AgentId i := None)"
proof -
  let ?k = "snd (create_agent_with_skills i name description adapter ns persona permissions skills lead k)"
  show thesis
  proof (cases "agents ?k = agents k")
    case True
    then show thesis using that(1) reports_to_map_agents by blast
  next
    case False
    then have f: "\<not> contains_key (agents k) (AgentId i)" "lead \<noteq> Some (AgentId i)"
      "reports_to_map ?k = (reports_to_map k)(AgentId i := lead)"
      by (auto simp: create_agent_with_skills_def Let_def state_simps reports_to_map_def split: if_splits option.splits)
    have "reports_to_map k x \<noteq> Some (AgentId i)" for x
      using f(1) assms by (auto simp: reports_to_map_def wf_def dest: agents_wfD split: option.splits)
    with f that(2,3) show thesis by (cases lead) auto
  qed
qed

lemma update_agent_reports:
  obtains "reports_to_map (snd (update_agent_with_skills a u k)) = reports_to_map k"
  | l where "up_reports_to u = Some (Some l)" "\<not> would_create_cycle a l (reports_to_map k)"
      "reports_to_map (snd (update_agent_with_skills a u k)) = (reports_to_map k)(a \<mapsto> l)"
  | "reports_to_map (snd (update_agent_with_skills a u k)) = (reports_to_map k)(a := None)"
proof (cases "agents (snd (update_agent_with_skills a u k)) = agents k")
  case True
  then show thesis using that(1) reports_to_map_agents by blast
next
  case False
  then obtain ag where ag: "get (agents k) a = Some ag" "check_lead a u k = None"
    "agents (snd (update_agent_with_skills a u k)) = adjust a (apply_update u) (agents k)"
    by (auto simp: update_agent_with_skills_def Let_def state_simps split: option.splits if_splits)
  then have r: "reports_to_map (snd (update_agent_with_skills a u k))
      = (reports_to_map k)(a := (case up_reports_to u of Some l \<Rightarrow> l | None \<Rightarrow> ag_reports_to ag))"
    by (auto simp: reports_to_map_def apply_update_def)
  show thesis
  proof (cases "up_reports_to u")
    case None
    then have "reports_to_map (snd (update_agent_with_skills a u k)) = reports_to_map k"
      using r ag(1) by (auto simp: reports_to_map_def)
    then show thesis by (rule that(1))
  next
    case (Some lead)
    then show thesis using r ag(2) that(2,3) by (cases lead) (auto simp: check_lead_def split: if_splits)
  qed
qed

text \<open>C36. The reporting hierarchy never gets a loop: a new agent closes none, and a new lead closes none as
  long as the chain above it is shorter than the bound of the check.\<close>

lemma hierarchy_stays_acyclic:
  assumes "reachable k" "acyclic (edges (reports_to_map k))"
  shows "acyclic (edges (reports_to_map
      (snd (create_agent_with_skills i name description adapter ns persona permissions skills lead k))))
    \<and> ((\<forall>l. up_reports_to u = Some (Some l) \<longrightarrow> length (chain_of_command l (reports_to_map k)) < MAX_HIERARCHY_DEPTH) \<longrightarrow>
      acyclic (edges (reports_to_map (snd (update_agent_with_skills a u k)))))"
proof (intro conjI impI)
  show "acyclic (edges (reports_to_map
      (snd (create_agent_with_skills i name description adapter ns persona permissions skills lead k))))"
    by (rule create_agent_reports [OF reachable_is_wf [OF assms(1)], of i name description adapter ns persona permissions skills lead])
      (auto intro: edges_new_leaf edges_remove assms(2))
  assume "\<forall>l. up_reports_to u = Some (Some l) \<longrightarrow> length (chain_of_command l (reports_to_map k)) < MAX_HIERARCHY_DEPTH"
  then show "acyclic (edges (reports_to_map (snd (update_agent_with_skills a u k))))"
    by (cases rule: update_agent_reports [of a u k]) (auto intro: new_lead_acyclic edges_remove assms(2))
qed

end
