(* ===== verification/Relux_Recovery.thy ===== *)
theory Relux_Recovery
  imports Relux_Behaviour
begin

text \<open>
  How the control plane recovers: what the watchdog ends and what it leaves alone, which run a resumed
  session belongs to, and what a retry that starts no run does to the newest one.
\<close>

section \<open>The watchdog\<close>

definition stale_run :: "nat \<Rightarrow> ustr \<Rightarrow> nat \<Rightarrow> run \<Rightarrow> run" where
  "stale_run idle ended seen x = x\<lparr>r_status := RFailed, r_ended_at := Some ended, r_error := Some (stale_text idle),
     r_failure_class := Some Stale, r_retry := None, r_last_activity := Some seen\<rparr>"

lemma get_mark_run_stale:
  "get (runs (mark_run_stale w r idle k)) s =
     (if s = r then map_option (stale_run idle (render (clock k)) (w_now w (clock k + 2))) (get (runs k) r)
      else get (runs k) s)"
  by (auto simp: mark_run_stale_def stale_run_def Let_def state_simps advance_def set_status_def
      split: option.split)

abbreviation mark_all :: "world \<Rightarrow> (run_id \<times> nat) list \<Rightarrow> kernel \<Rightarrow> kernel" where
  "mark_all w \<equiv> fold (\<lambda>(r, idle). mark_run_stale w r idle)"

lemma mark_all_others: "s \<notin> fst ` set cands \<Longrightarrow> get (runs (mark_all w cands k)) s = get (runs k) s"
  by (induction cands arbitrary: k) (auto simp: get_mark_run_stale)

lemma mark_all_stale:
  assumes "distinct (map fst cands)" "(s, idle) \<in> set cands"
  shows "\<exists>ended seen. get (runs (mark_all w cands k)) s = map_option (stale_run idle ended seen) (get (runs k) s)"
  using assms
proof (induction cands arbitrary: k)
  case (Cons c cs)
  show ?case
  proof (cases "c = (s, idle)")
    case True
    then have "s \<notin> fst ` set cs" using Cons.prems(1) by simp
    then show ?thesis by (auto simp: True mark_all_others get_mark_run_stale)
  next
    case False
    then have m: "(s, idle) \<in> set cs" using Cons.prems(2) by simp
    then have "s \<noteq> fst c" using Cons.prems(1) by (force simp: image_iff)
    then have "get (runs (case c of (r, idle) \<Rightarrow> mark_run_stale w r idle k)) s = get (runs k) s"
      by (simp add: case_prod_beta get_mark_run_stale)
    moreover have "distinct (map fst cs)" using Cons.prems(1) by simp
    ultimately show ?thesis
      using Cons.IH [of "(case c of (r, idle) \<Rightarrow> mark_run_stale w r idle k)"] m by (simp add: case_prod_beta)
  qed
qed simp

lemma stale_candidates_iff:
  assumes "wf_map (runs k)"
  shows "distinct (map fst (stale_candidates now active k))"
    and "(r, idle) \<in> set (stale_candidates now active k) \<longleftrightarrow> (\<exists>x. get (runs k) r = Some x \<and> r_status x = RRunning
      \<and> r \<notin> set active \<and> is_stale (clamped (run_watchdog k)) (last_activity x) now \<and> idle = now - last_activity x)"
proof -
  have "map fst (stale_candidates now active k) = map fst (filter (\<lambda>(r, x). r_status x = RRunning \<and> r \<notin> set active
      \<and> is_stale (clamped (run_watchdog k)) (last_activity x) now) (runs k))"
    by (simp add: stale_candidates_def case_prod_beta comp_def)
  then show "distinct (map fst (stale_candidates now active k))"
    using assms by (simp add: wf_map_def distinct_map_filter)
  show "(r, idle) \<in> set (stale_candidates now active k) \<longleftrightarrow> (\<exists>x. get (runs k) r = Some x \<and> r_status x = RRunning
      \<and> r \<notin> set active \<and> is_stale (clamped (run_watchdog k)) (last_activity x) now \<and> idle = now - last_activity x)"
    using assms by (auto simp: stale_candidates_def wf_map_def)
qed

text \<open>The watchdog ends exactly the runs nothing stands behind: with the watchdog on, a run fails as stale,
  with no automatic retry, if it was running, has no live process, and was idle for at least the clamped
  threshold; every other run is left exactly as it was, and the answer names the runs that were ended.\<close>

lemma watchdog_exact:
  assumes "reachable k" "recover_stale_runs w now active k = (ended, k')" "get (runs k) r = Some x"
  shows "if watchdog_enabled (run_watchdog k) \<and> r_status x = RRunning \<and> r \<notin> set active
        \<and> is_stale (clamped (run_watchdog k)) (last_activity x) now
    then r \<in> set ended \<and> (\<exists>y. get (runs k') r = Some y \<and> r_status y = RFailed \<and> r_failure_class y = Some Stale
        \<and> r_retry y = None \<and> r_ended_at y \<noteq> None \<and> r_error y = Some (stale_text (now - last_activity x)))
    else r \<notin> set ended \<and> get (runs k') r = Some x"
proof (cases "watchdog_enabled (run_watchdog k)")
  case True
  have m: "wf_map (runs k)" using reachable_is_wf [OF assms(1)] by (simp add: wf_def runs_wf_def)
  let ?cands = "stale_candidates now active k"
  have e: "ended = map fst ?cands" "k' = fold (\<lambda>(r, idle). mark_run_stale w r idle) ?cands k"
    using assms(2) True by (simp_all add: recover_stale_runs_def Let_def)
  note iff = stale_candidates_iff(2) [OF m, of r _ now active]
  show ?thesis
  proof (cases "r_status x = RRunning \<and> r \<notin> set active \<and> is_stale (clamped (run_watchdog k)) (last_activity x) now")
    case True
    then have c: "(r, now - last_activity x) \<in> set ?cands" using iff assms(3) by blast
    from mark_all_stale [OF stale_candidates_iff(1) [OF m] c, of w k] obtain at seen where
      y: "get (runs k') r = Some (stale_run (now - last_activity x) at seen x)" using assms(3) e(2) by auto
    from c have "r \<in> set ended" unfolding e(1) by force
    with y True \<open>watchdog_enabled (run_watchdog k)\<close> show ?thesis by (simp add: stale_run_def)
  next
    case False
    then have "r \<notin> fst ` set ?cands" using iff assms(3) by auto
    then show ?thesis using False mark_all_others [of r ?cands w k] assms(3) by (simp add: e)
  qed
qed (use assms in \<open>simp add: recover_stale_runs_def\<close>)

section \<open>Sessions\<close>

lemma prepare_cli_run_Inr:
  assumes "prepare_cli_run w t adapter k = (Inr p, k')"
  shows "active_run t k = Some (pl_run p)" "pl_task p = t" "pl_adapter p = adapter"
    and "\<exists>c. get (adapter_runtime_configs k) adapter = Some c \<and> rt_enabled c \<and> resolved_command c = Some (pl_binary p)
      \<and> pl_kind p = rt_kind c \<and> pl_timeout_seconds p = rt_timeout_seconds c \<and> w_on_path w (clock k) (pl_binary p)"
    and "\<exists>rn. get (runs k) (pl_run p) = Some rn \<and> pl_resume p = resume_session_id rn"
  using assms by (auto simp: prepare_cli_run_def Let_def split: option.splits if_splits)

text \<open>A process is prepared only for the active run of the task, with the command of an adapter that is
  configured, enabled and on the search path, and a run that was just started never continues a session:
  no session reaches it from any earlier run.\<close>

lemma started_run_is_cold:
  assumes "reachable k" "clock k < 86400" "start_run w t k = (Inr r, k1)" "prepare_cli_run w' t adapter k1 = (Inr p, k2)"
  shows "pl_run p = r \<and> pl_resume p = None \<and> (\<exists>c. get (adapter_runtime_configs k1) adapter = Some c \<and> rt_enabled c
    \<and> resolved_command c = Some (pl_binary p) \<and> w_on_path w' (clock k1) (pl_binary p))"
proof -
  have k: "wf k" by (rule reachable_is_wf [OF assms(1)])
  have a: "pl_run p = r" using started_is_active [OF k assms(3,2)] prepare_cli_run_Inr(1) [OF assms(4)] by simp
  obtain rn where "get (runs k1) r = Some rn" "r_resumed_from rn = None" by (rule started_after [OF k assms(3)]) blast
  then have "pl_resume p = None" using prepare_cli_run_Inr(5) [OF assms(4)] a by (auto simp: resume_session_id_def)
  with a prepare_cli_run_Inr(4) [OF assms(4)] show ?thesis by blast
qed

lemma try_k_Inr: "try_k r f = (Inr y, k') \<Longrightarrow> \<exists>x. fst r = Inr x \<and> f x (snd r) = (Inr y, k')"
  by (cases r) (auto simp: try_k_def split: sum.splits)

lemma plan_resume_Supported:
  "plan_resume s terminal = Supported i src \<Longrightarrow>
    \<exists>x. s = Some x \<and> terminal \<and> resume_supported x \<and> i = adapter_session_id x"
  by (auto simp: plan_resume_def split: if_splits option.splits)

lemma wf_requeue: "wf k \<Longrightarrow> wf (requeue t k)"
  using steps_requeue [of k k t] by (simp add: steps_def)

definition mark_resumed :: "world \<Rightarrow> run_id \<Rightarrow> run_session option \<Rightarrow> run_id \<Rightarrow> kernel \<Rightarrow> kernel" where
  "mark_resumed w old s new k = push_run_event w new ''run_resumed_from'' (cps ''kernel'')
     (k\<lparr>runs := adjust new (\<lambda>x. x\<lparr>r_resumed_from := Some old, r_session := s\<rparr>) (runs k)\<rparr>)"

definition resumed :: "world \<Rightarrow> run_id \<Rightarrow> run \<Rightarrow> run_id \<Rightarrow> kernel \<Rightarrow> kernel" where
  "resumed w r rn new k =
     mark_resumed w r (r_session rn) new (snd (start_run w (r_task rn) (requeue (r_task rn) k)))"

text \<open>What a resume that succeeds has done: the new run was made and handed to the adapter of the agent, whose
  outcome, with an entry in the audit log, is the state that is left.\<close>

lemma resume_run_Inr:
  assumes "resume_run w r k = (Inr new, k')" "get (runs k) r = Some rn"
  shows "r_status rn \<in> {RCompleted, RFailed}" "\<exists>s. r_session rn = Some s \<and> resume_supported s"
    and "fst (start_run w (r_task rn) (requeue (r_task rn) k)) = Inr new"
    and "\<exists>tk a ag out j. get (tasks k) (r_task rn) = Some tk \<and> t_assigned tk = Some a \<and> get (agents k) a = Some ag
      \<and> execute_cli_run w (r_task rn) (ag_adapter ag) (resumed w r rn new k) = (Inr out, j)
      \<and> k' = record_audit ''user'' (cps ''founder'') (cps ''run:resume'') (Some ''run'') (Some (run_text new))
          (Some (t_namespace tk)) AuSuccess j"
proof -
  from assms show "r_status rn \<in> {RCompleted, RFailed}" "\<exists>s. r_session rn = Some s \<and> resume_supported s"
    "fst (start_run w (r_task rn) (requeue (r_task rn) k)) = Inr new"
    unfolding resume_run_def Let_def
    by (auto simp: case_prod_beta split: option.splits resume_disposition.splits sum.splits
        dest!: try_k_Inr plan_resume_Supported)
  obtain tk a ag where t: "get (tasks k) (r_task rn) = Some tk" "t_assigned tk = Some a" "get (agents k) a = Some ag"
    and out: "\<not> isl (fst (execute_cli_run w (r_task rn) (ag_adapter ag) (resumed w r rn new k)))"
      "k' = record_audit ''user'' (cps ''founder'') (cps ''run:resume'') (Some ''run'') (Some (run_text new))
         (Some (t_namespace tk)) AuSuccess (snd (execute_cli_run w (r_task rn) (ag_adapter ag) (resumed w r rn new k)))"
    using assms unfolding resume_run_def Let_def mark_resumed_def [symmetric]
    by (auto simp: case_prod_beta resumed_def split: option.splits resume_disposition.splits sum.splits
        dest!: try_k_Inr)
  show "\<exists>tk a ag out j. get (tasks k) (r_task rn) = Some tk \<and> t_assigned tk = Some a \<and> get (agents k) a = Some ag
      \<and> execute_cli_run w (r_task rn) (ag_adapter ag) (resumed w r rn new k) = (Inr out, j)
      \<and> k' = record_audit ''user'' (cps ''founder'') (cps ''run:resume'') (Some ''run'') (Some (run_text new))
          (Some (t_namespace tk)) AuSuccess j"
    using t out by (metis prod.collapse sum.collapse(2))
qed

lemma finalize_Inr: "fst (finalize_cli_run w p outcome k) = Inr x \<Longrightarrow> x = pl_run p"
  by (auto simp: finalize_cli_run_def Let_def try_k_def split: sum.splits if_splits prod.splits)

lemma execute_cli_run_Inr:
  assumes "execute_cli_run w t adapter k = (Inr x, k')"
  shows "\<exists>p i. prepare_cli_run w t adapter k = (Inr p, i) \<and> finalize_cli_run w p (w_spawn w (clock i) p) i = (Inr x, k')
    \<and> x = pl_run p"
proof -
  obtain p i where "prepare_cli_run w t adapter k = (Inr p, i)" "finalize_cli_run w p (w_spawn w (clock i) p) i = (Inr x, k')"
    using assms by (auto simp: execute_cli_run_def try_k_def split: prod.splits sum.splits)
  moreover from this(2) have "x = pl_run p" using finalize_Inr [of w p "w_spawn w (clock i) p" i x] by simp
  ultimately show ?thesis by blast
qed

lemma resumed_is_active:
  assumes "wf k" "clock k + 1 < 86400" "start_run w t (requeue t k) = (Inr new, k1)"
  shows "active_run t (mark_resumed w r s new k1) = Some new"
    and "\<exists>x. get (runs k1) new = Some x \<and> get (runs (mark_resumed w r s new k1)) new
      = Some (x\<lparr>r_resumed_from := Some r, r_session := s, r_last_activity := Some (w_now w (clock k1 + 1))\<rparr>)"
proof -
  have k: "wf (requeue t k)" "clock (requeue t k) = clock k + 1"
    using wf_requeue [OF assms(1)] by (simp_all add: requeue_def state_simps advance_def)
  obtain x where x: "wf_map (runs k1)" "get (runs k1) new = Some x" "r_id x = new" "r_task x = t" "r_status x = RRunning"
      "\<And>u y. get (runs k1) u = Some y \<Longrightarrow> u \<noteq> new \<Longrightarrow> r_started_at y < r_started_at x"
    by (rule started_after [OF k(1) assms(3)]) (use assms(2) k(2) in auto)
  let ?j = "mark_resumed w r s new k1"
  let ?y = "x\<lparr>r_resumed_from := Some r, r_session := s, r_last_activity := Some (w_now w (clock k1 + 1))\<rparr>"
  have j: "wf_map (runs ?j)" "get (runs ?j) new = Some ?y" "\<And>u. u \<noteq> new \<Longrightarrow> get (runs ?j) u = get (runs k1) u"
    using x(1,2) by (simp_all add: mark_resumed_def state_simps)
  show "active_run t ?j = Some new"
    by (rule active_run_newest [OF j(1,2)]) (use x j(3) in \<open>auto simp: running_for_def\<close>)
  show "\<exists>x. get (runs k1) new = Some x \<and> get (runs ?j) new
      = Some (x\<lparr>r_resumed_from := Some r, r_session := s, r_last_activity := Some (w_now w (clock k1 + 1))\<rparr>)"
    using x(2) j(2) by blast
qed

text \<open>C12. A resumed run continues exactly the session it was asked to resume. Within the first 86,400 ticks of the
  logical clock, if resuming a run gives a new one, then the old run had ended and left a session that can be
  resumed; the new run was made, and the process prepared for it, on the adapter of the agent the task is
  assigned to, with that session; and the state that is left is what the outcome of that process makes of
  it, with an entry in the audit log.\<close>

lemma resume_continues_session:
  assumes "reachable k" "clock k + 1 < 86400" "get (runs k) r = Some rn" "resume_run w r k = (Inr new, k')"
  shows "\<exists>s tk a ag p i j. r_status rn \<in> {RCompleted, RFailed} \<and> new \<noteq> r
    \<and> r_session rn = Some s \<and> resume_supported s
    \<and> get (tasks k) (r_task rn) = Some tk \<and> t_assigned tk = Some a \<and> get (agents k) a = Some ag
    \<and> prepare_cli_run w (r_task rn) (ag_adapter ag) (resumed w r rn new k) = (Inr p, i)
    \<and> pl_run p = new \<and> pl_resume p = Some (adapter_session_id s)
    \<and> finalize_cli_run w p (w_spawn w (clock i) p) i = (Inr new, j)
    \<and> k' = record_audit ''user'' (cps ''founder'') (cps ''run:resume'') (Some ''run'') (Some (run_text new))
        (Some (t_namespace tk)) AuSuccess j"
proof -
  note res = resume_run_Inr [OF assms(4,3)]
  let ?k = "requeue (r_task rn) k"
  have k: "wf k" "wf ?k" "runs ?k = runs k"
    using reachable_is_wf [OF assms(1)] wf_requeue by (simp_all add: requeue_def state_simps)
  obtain k1 where s: "start_run w (r_task rn) ?k = (Inr new, k1)" using res(3) by (metis prod.collapse)
  obtain sess where sess: "r_session rn = Some sess" "resume_supported sess" using res(2) by blast
  let ?j = "resumed w r rn new k"
  have j: "?j = mark_resumed w r (r_session rn) new k1" by (simp add: resumed_def s)
  note active = resumed_is_active [OF k(1) assms(2) s, of r "r_session rn", folded j]
  obtain tk a ag out l where out: "get (tasks k) (r_task rn) = Some tk" "t_assigned tk = Some a" "get (agents k) a = Some ag"
    "execute_cli_run w (r_task rn) (ag_adapter ag) ?j = (Inr out, l)"
    "k' = record_audit ''user'' (cps ''founder'') (cps ''run:resume'') (Some ''run'') (Some (run_text new))
      (Some (t_namespace tk)) AuSuccess l" using res(4) by blast
  from execute_cli_run_Inr [OF out(4)] obtain p i where p: "prepare_cli_run w (r_task rn) (ag_adapter ag) ?j = (Inr p, i)"
    "finalize_cli_run w p (w_spawn w (clock i) p) i = (Inr out, l)" "out = pl_run p" by blast
  have new: "pl_run p = new" using prepare_cli_run_Inr(1) [OF p(1)] active(1) by simp
  then have "pl_resume p = Some (adapter_session_id sess)"
    using prepare_cli_run_Inr(5) [OF p(1)] active(2) sess by (auto simp: resume_session_id_def)
  moreover have "new \<noteq> r"
    using fresh_run k start_run_effect(1) [OF s] assms(3) unfolding wf_def contains_key_def by fastforce
  ultimately show ?thesis using res(1) sess out(1-3,5) p new by blast
qed

section \<open>A retry that starts nothing\<close>

lemma stamp_retry_from: "get (runs k) new = Some x \<Longrightarrow>
    map_option r_retried_from (get (runs (stamp_retry w old ns ok new k)) new) = Some (Some old)"
  by (auto simp: stamp_retry_def Let_def state_simps split: option.splits)

lemma newest_run_known:
  assumes "wf k" "newest_run k = Some new"
  shows "\<exists>x. get (runs k) new = Some x"
proof -
  obtain x where x: "max_by (\<lambda>a b. r_id a \<le> r_id b) (vals (runs k)) = Some x" "r_id x = new"
    using assms(2) by (auto simp: newest_run_def)
  have rs: "runs_wf (next_run k) (clock k) (contains_key (tasks k)) (contains_key (agents k)) (runs k)"
    using assms(1) by (simp add: wf_def)
  have "x \<in> set (vals (runs k))" by (rule max_by_in [OF x(1)])
  then obtain s where s: "get (runs k) s = Some x" using in_vals_iff [of "runs k" x] rs unfolding runs_wf_def by blast
  with runs_wfD [OF rs s] x(2) show ?thesis by auto
qed

text \<open>A retry that cannot start a run rewrites the history of another one: if the agent has lost a permission
  the task requires, the retry is refused and no run is made, and yet the newest run of the whole control
  plane, of whatever task, is from then on recorded as a retry of the failed one.\<close>

lemma refused_retry_marks_newest:
  assumes "reachable k" "get (runs k) r = Some rn" "r_status rn = RFailed" "get (tasks k) (r_task rn) = Some tk"
    and "t_assigned tk = Some a" "get (agents k) a = Some ag" "\<not> list_all (holds ag) (t_required tk)"
    and "newest_run k = Some new" "new \<noteq> r"
  shows "\<exists>p k'. retry_run w r k = (Inl (PermissionDenied (agent_text a) p), k') \<and> next_run k' = next_run k
    \<and> map_option r_retried_from (get (runs k') new) = Some (Some r)"
proof -
  let ?k = "requeue (r_task rn) k"
  have k: "runs ?k = runs k" "agents ?k = agents k" "next_run ?k = next_run k"
    "get (tasks ?k) (r_task rn) = Some (tk\<lparr>t_status := TQueued, t_updated_at := render (clock k)\<rparr>)"
    using assms(4) by (simp_all add: requeue_def state_simps set_status_def)
  obtain p where p: "List.find (\<lambda>p. \<not> holds ag p) (t_required tk) = Some p"
    using assms(7) by (cases "List.find (\<lambda>p. \<not> holds ag p) (t_required tk)") (auto simp: find_None_iff list_all_iff)
  obtain j where x: "execute_assigned_run w (r_task rn) ?k = (Inl (PermissionDenied (agent_text a) (as_str p)), j)"
    and j: "runs j = runs k" "next_run j = next_run k"
    using assms(5,6) p
    by (auto simp: execute_assigned_run_def start_run_def try_k_def k contains_key_def state_simps)
  have "newest_run j = Some new" using assms(8) by (simp add: newest_run_def j)
  then have "retry_run w r k = (Inl (PermissionDenied (agent_text a) (as_str p)), stamp_retry w r (t_namespace tk) False new j)"
    using assms by (simp add: retry_run_def Let_def x)
  moreover obtain y where "get (runs j) new = Some y"
    using newest_run_known [OF reachable_is_wf [OF assms(1)] assms(8)] j by auto
  moreover have "next_run (stamp_retry w r (t_namespace tk) False new j) = next_run j"
    by (simp add: stamp_retry_def Let_def state_simps split: option.split)
  ultimately show ?thesis using stamp_retry_from j(2) by metis
qed

end
