(* ===== verification/Relux_Demo.thy ===== *)
theory Relux_Demo
  imports Relux_Recovery
begin

text \<open>
  A control plane with two agents, a lead and a developer below it, a tool that needs approval and a
  command-line adapter, and the properties of the control plane applied to what happens in it.
\<close>

named_theorems demo_simps \<open>what is known of the states\<close>

definition shell :: plugin_id where "shell = PluginId (cps ''shell'')"
definition shell_run :: permission where "shell_run = Permission (cps ''tool:shell:run'')"
definition lead :: agent_id where "lead = AgentId (cps ''lead'')"
definition dev :: agent_id where "dev = AgentId (cps ''dev'')"
definition manage :: permission where "manage = Permission (cps ''agent:lead:subtree:assign_task'')"
definition ns0 :: namespace_id where "ns0 = NamespaceId (cps ''main'')"
definition task1 :: task_id where "task1 = TaskId (numbered ''task_'' 1)"
definition run1 :: run_id where "run1 = RunId (numbered ''run_'' 1)"
definition appr1 :: approval_id where "appr1 = ApprovalId (numbered ''appr_'' 1)"

definition claude :: plugin_id where "claude = PluginId CLAUDE_CLI_ADAPTER_ID"

definition demo_unicode :: unicode where
  "demo_unicode = \<lparr>u_alphabetic = (\<lambda>_. False), u_numeric = (\<lambda>_. False), to_lowercase = (\<lambda>s. s), char_to_uppercase = (\<lambda>c. [c])\<rparr>"

text \<open>Every tool answers with its input; the adapter leaves the session \<open>s1\<close>.\<close>

definition demo_world :: world where
  "demo_world = \<lparr>w_now = (\<lambda>t. t), w_unicode = demo_unicode, w_on_path = (\<lambda>_ _. True), w_tool = (\<lambda>_ _ _ input. Inr input),
     w_spawn = (\<lambda>_ _. Inr \<lparr>ao_success = True, ao_cancelled = False, ao_timed_out = False, ao_exit_code = Some 0,
        ao_stdout = [], ao_stdout_truncated = False, ao_duration_ms = 1\<rparr>),
     w_panics = (\<lambda>_ _. False),
     w_parse_result = (\<lambda>_ _. \<lparr>ar_is_error = None, ar_text = [], ar_session_id = Some (cps ''s1'')\<rparr>),
     w_brain = (\<lambda>_. None), w_json_len = (\<lambda>_. 4), w_json_digest = (\<lambda>_. [])\<rparr>"

lemma demo_world_sel [simp]:
  "w_json_digest demo_world x = []" "w_json_len demo_world x = 4" "w_now demo_world t = t" "w_on_path demo_world t s"
  by (simp_all add: demo_world_def)

text \<open>What the process starts with: the plugins of the tool and of the adapter, and the adapter configured.\<close>

definition shell_manifest :: plugin_manifest where
  "shell_manifest = \<lparr>pm_id = shell, pm_version = cps ''1'', pm_kind = ToolSet,
     pm_tools = [\<lparr>td_name = cps ''run'', td_permission = shell_run, td_risk = High, td_approval = Required\<rparr>]\<rparr>"

definition claude_manifest :: plugin_manifest where
  "claude_manifest = \<lparr>pm_id = claude, pm_version = cps ''1'', pm_kind = Adapter, pm_tools = []\<rparr>"

definition with_plugins :: kernel where
  "with_plugins = snd (install_plugin claude_manifest Bundled [] [] True
     (snd (install_plugin shell_manifest Bundled [] [] True new_kernel)))"

definition demo0 :: kernel where
  "demo0 = snd (configure_adapter_runtime claude (Some True) None (Some 60) (Some 2000) None with_plugins)"

definition demo_audit :: "audit_event list" where "demo_audit = audit_log demo0"

lemma demo0_eq:
  "demo0 = \<lparr>plugins = [(shell, shell_manifest), (claude, claude_manifest)],
     installed_plugins = installed_plugins with_plugins, mcp_servers = [],
     adapter_runtime_configs = [(claude, \<lparr>rt_plugin = CLAUDE_CLI_ADAPTER_ID, rt_kind = ClaudeCli, rt_enabled = True,
       rt_command = None, rt_timeout_seconds = 60, rt_max_output_bytes = 2000, rt_working_dir = None\<rparr>)],
     agents = [], tasks = [], runs = [], approvals = [], pending_tool_invocations = [], persistent_grants = [],
     orchestrations = [], run_events = [], audit_log = demo_audit,
     run_watchdog = \<lparr>watchdog_enabled = True, stale_after_secs = 180\<rparr>, autonomy_config = autonomy_default, agent_policy = policy_default, clock = 7, next_task = 0, next_run = 0,
     next_approval = 0, next_audit = 5, next_event = 0, next_orchestration = 0, next_grant = 0\<rparr>"
proof -
  have k: "plugins with_plugins = [(shell, shell_manifest), (claude, claude_manifest)]" "mcp_servers with_plugins = []"
    "adapter_runtime_configs with_plugins = []" "agents with_plugins = []" "tasks with_plugins = []" "runs with_plugins = []"
    "approvals with_plugins = []" "pending_tool_invocations with_plugins = []" "persistent_grants with_plugins = []"
    "orchestrations with_plugins = []" "run_events with_plugins = []" "run_watchdog with_plugins = watchdog_default"
    "autonomy_config with_plugins = autonomy_default" "agent_policy with_plugins = policy_default" "clock with_plugins = 6"
    "next_task with_plugins = 0" "next_run with_plugins = 0" "next_approval with_plugins = 0" "next_audit with_plugins = 4"
    "next_event with_plugins = 0" "next_orchestration with_plugins = 0" "next_grant with_plugins = 0"
    by (simp_all add: with_plugins_def install_plugin_def register_plugin_def catalog_audit_def record_audit_def tick_def
        Let_def new_kernel_def shell_manifest_def claude_manifest_def shell_def claude_def CLAUDE_CLI_ADAPTER_ID_def cps_def)
  let ?c = "\<lparr>rt_plugin = CLAUDE_CLI_ADAPTER_ID, rt_kind = ClaudeCli, rt_enabled = True, rt_command = None,
    rt_timeout_seconds = 60, rt_max_output_bytes = 2000, rt_working_dir = None\<rparr>"
  have "recognize_adapter_kind claude = Some ClaudeCli" "claude \<noteq> shell" "pm_kind claude_manifest = Adapter"
    "plugin_text claude = CLAUDE_CLI_ADAPTER_ID" "resolved_command ?c = Some (cps ''claude'')"
    by (simp_all add: recognize_adapter_kind_def claude_def shell_def CLAUDE_CLI_ADAPTER_ID_def LOCAL_PRIME_ADAPTER_ID_def
        cps_def claude_manifest_def resolved_command_def)
  moreover have "clamp_adapter_timeout (Some 60) = 60" "clamp_adapter_max_output (Some 2000) = 2000"
    by (simp_all add: clamp_adapter_timeout_def clamp_adapter_max_output_def clamp_def MIN_ADAPTER_TIMEOUT_SECONDS_def
        MAX_ADAPTER_TIMEOUT_SECONDS_def MIN_ADAPTER_MAX_OUTPUT_BYTES_def MAX_ADAPTER_MAX_OUTPUT_BYTES_def)
  ultimately have d: "demo0 = (catalog_audit ''adapter:runtime_configure'' ''adapter'' CLAUDE_CLI_ADAPTER_ID with_plugins)
      \<lparr>adapter_runtime_configs := [(claude, ?c)]\<rparr>"
    by (simp add: demo0_def configure_adapter_runtime_def k Let_def or_else_def not_blank_def
        catalog_audit_def state_simps)
  show ?thesis
    by (rule kernel.equality) (simp_all add: demo_audit_def, simp_all add: d k catalog_audit_def state_simps watchdog_default_def
        DEFAULT_STALE_AFTER_SECS_def, simp_all add: record_audit_def tick_def k Let_def)
qed

definition demo1 :: kernel where
  "demo1 = snd (create_agent_with_skills (cps ''lead'') [] [] claude ns0 None [manage] [] None demo0)"

definition demo2 :: kernel where
  "demo2 = snd (create_agent_with_skills (cps ''dev'') [] [] claude ns0 None [shell_run] [] (Some lead) demo1)"

definition demo3 :: kernel where
  "demo3 = snd (create_task_with_parent [] JNull (cps ''user'') ns0 [shell_run] None demo2)"

definition demo4 :: kernel where
  "demo4 = snd (manager_assign_task_to_subordinate lead dev task1 demo3)"

definition demo5 :: kernel where
  "demo5 = snd (start_run demo_world task1 demo4)"

lemma demo_reachable [demo_simps]: "reachable demo0" "reachable demo1" "reachable demo2" "reachable demo3" "reachable demo4" "reachable demo5"
proof -
  have "reachable new_kernel" by (simp add: reachable_def)
  then have "reachable with_plugins" unfolding with_plugins_def
    by (rule reachable_step [OF reachable_step [OF _ cs_install_plugin] cs_install_plugin])
  then show d0: "reachable demo0" unfolding demo0_def by (rule reachable_step) (rule cs_configure_adapter)
  show d1: "reachable demo1" unfolding demo1_def by (rule reachable_step [OF d0 cs_create_agent])
  show d2: "reachable demo2" unfolding demo2_def by (rule reachable_step [OF d1 cs_create_agent])
  show d3: "reachable demo3" unfolding demo3_def by (rule reachable_step [OF d2 cs_create_task])
  show d4: "reachable demo4" unfolding demo4_def by (rule reachable_step [OF d3 cs_manager_assign])
  show "reachable demo5" unfolding demo5_def by (rule reachable_step [OF d4 cs_start_run])
qed

lemma demo_names [simp]: "lead \<noteq> dev" "dev \<noteq> lead" "shell \<noteq> claude" "claude \<noteq> shell"
  by (simp_all add: lead_def dev_def shell_def claude_def CLAUDE_CLI_ADAPTER_ID_def cps_def)

lemma demo_ids: "AgentId (cps ''lead'') = lead" "AgentId (cps ''dev'') = dev" "TaskId (numbered ''task_'' (Suc 0)) = task1"
    "RunId (numbered ''run_'' (Suc 0)) = run1" "ApprovalId (numbered ''appr_'' (Suc 0)) = appr1"
  by (simp_all add: lead_def dev_def task1_def run1_def appr1_def)

lemma demo1_state [demo_simps]:
  "agents demo1 = [(lead, \<lparr>ag_id = lead, ag_name = [], ag_description = [], ag_adapter = claude, ag_persona = None,
      ag_namespace = ns0, ag_owner = cps ''founder'', ag_permissions = [manage], ag_skills = [], ag_reports_to = None,
      ag_status = AgActive, ag_created_at = render 7\<rparr>)]"
  "tasks demo1 = []" "runs demo1 = []" "plugins demo1 = plugins demo0" "run_watchdog demo1 = run_watchdog demo0"
  "adapter_runtime_configs demo1 = adapter_runtime_configs demo0" "clock demo1 = 9" "next_task demo1 = 0"
  "next_run demo1 = 0" "approvals demo1 = []"
  by (simp_all add: demo1_def create_agent_with_skills_def Let_def tick_def demo0_eq record_audit_def contains_key_def demo_ids)

lemma demo2_state [demo_simps]:
  "agents demo2 = agents demo1 @ [(dev, \<lparr>ag_id = dev, ag_name = [], ag_description = [], ag_adapter = claude, ag_persona = None,
      ag_namespace = ns0, ag_owner = cps ''founder'', ag_permissions = [shell_run], ag_skills = [], ag_reports_to = Some lead,
      ag_status = AgActive, ag_created_at = render 9\<rparr>)]"
  "tasks demo2 = []" "runs demo2 = []" "plugins demo2 = plugins demo0" "run_watchdog demo2 = run_watchdog demo0"
  "adapter_runtime_configs demo2 = adapter_runtime_configs demo0" "clock demo2 = 11" "next_task demo2 = 0"
  "next_run demo2 = 0" "approvals demo2 = []"
  by (simp_all add: demo2_def create_agent_with_skills_def Let_def tick_def record_audit_def contains_key_def demo_ids demo_simps)
    (simp_all add: demo0_eq)

lemma demo3_state [demo_simps]:
  "agents demo3 = agents demo2"
  "tasks demo3 = [(task1, \<lparr>t_id = task1, t_title = [], t_input = JNull, t_status = TCreated, t_priority = 5,
     t_created_by = cps ''user'', t_assigned = None, t_namespace = ns0, t_required = [shell_run], t_parent = None,
     t_deadline = None, t_created_at = render 11, t_updated_at = render 11\<rparr>)]"
  "runs demo3 = []" "plugins demo3 = plugins demo0" "run_watchdog demo3 = run_watchdog demo0"
  "adapter_runtime_configs demo3 = adapter_runtime_configs demo0" "clock demo3 = 13" "next_run demo3 = 0" "approvals demo3 = []"
  by (simp_all add: demo3_def create_task_with_parent_def new_task_id_def check_parent_def Let_def tick_def
      record_audit_def demo_ids demo_simps)

lemma demo_manage: "parse_agent_subtree (as_str manage) = Some (cps ''lead'', cps ''assign_task'')"
  unfolding parse_agent_subtree_iff
  by (simp add: manage_def SUBTREE_KEYWORD_def is_valid_segment_def ascii_simps)

lemma demo_reports [demo_simps]: "agents k = agents demo2 \<Longrightarrow> reports_to_map k = [dev \<mapsto> lead]"
  by (auto simp: reports_to_map_def demo_simps)

lemma demo_chain: "chain_of_command dev [dev \<mapsto> lead] = [lead]"
  by (simp add: chain_of_command_def MAX_HIERARCHY_DEPTH_def numeral_eq_Suc)

lemma demo_authority: "agents k = agents demo2 \<Longrightarrow> subtree_authority lead (cps ''assign_task'') dev k"
  using demo_manage
  by (simp add: subtree_authority_def demo_simps contains_key_def manager_subtree_authorizes_def in_subtree_iff demo_chain)
    (simp add: lead_def)

lemma demo4_state [demo_simps]:
  "agents demo4 = agents demo2"
  "tasks demo4 = [(task1, \<lparr>t_id = task1, t_title = [], t_input = JNull, t_status = TQueued, t_priority = 5,
     t_created_by = cps ''user'', t_assigned = Some dev, t_namespace = ns0, t_required = [shell_run], t_parent = None,
     t_deadline = None, t_created_at = render 11, t_updated_at = render 13\<rparr>)]"
  "runs demo4 = []" "plugins demo4 = plugins demo0" "run_watchdog demo4 = run_watchdog demo0"
  "adapter_runtime_configs demo4 = adapter_runtime_configs demo0" "clock demo4 = 15" "next_run demo4 = 0" "approvals demo4 = []"
  by (simp_all add: demo4_def manager_assign_task_to_subordinate_def require_authority_def demo_authority demo_simps
      assign_task_def contains_key_def Let_def tick_def audit_task_def record_audit_def adjust_def)

lemma clock_sel [demo_simps]:
  "clock (advance k) = Suc (clock k)" "clock (record_audit ty a c tt tg ns res k) = Suc (clock k)"
  "clock (push_run_event w r kd src k) = Suc (clock k)" "plugins (set_status t s now k) = plugins k"
  "adapter_runtime_configs (set_status t s now k) = adapter_runtime_configs k"
  "run_watchdog (set_status t s now k) = run_watchdog k"
  by (simp_all add: advance_def record_audit_def push_run_event_def Let_def tick_def set_status_def)

lemma demo_start: "start_run demo_world task1 demo4 = (Inr run1, demo5)"
proof -
  have "\<exists>r k'. start_run demo_world task1 demo4 = (Inr r, k')"
    by (rule start_run_starts [of _ _ "snd (hd (tasks demo4))" dev "snd (agents demo4 ! 1)"])
      (simp_all add: demo_simps holds_def authorizes_def)
  then obtain r where r: "start_run demo_world task1 demo4 = (Inr r, demo5)" by (auto simp: demo5_def)
  then show ?thesis using start_run_effect(1) [OF r] by (simp add: demo_simps demo_ids)
qed

lemma demo5_state [demo_simps]:
  "agents demo5 = agents demo2"
  "get (runs demo5) run1 = Some ((new_run run1 task1 dev claude (render 15) 16)\<lparr>r_last_activity := Some 18\<rparr>)"
  "plugins demo5 = plugins demo0" "run_watchdog demo5 = run_watchdog demo0"
  "adapter_runtime_configs demo5 = adapter_runtime_configs demo0" "clock demo5 = 19" "approvals demo5 = []"
  by (simp_all add: demo5_def start_run_def demo_simps holds_def authorizes_def Let_def state_simps demo_ids
      demo_world_def new_run_def)

section \<open>The state\<close>

lemma reachable_wf_witness: "wf demo5"
  by (rule reachable_wf [OF demo_reachable(6)])

lemma reachable_references_witness: "\<exists>tk. get (tasks demo5) task1 = Some tk"
  using reachable_references [OF demo_reachable(6)] demo5_state(2) by (fastforce simp: new_run_def)

definition demo6 :: kernel where
  "demo6 = snd (cancel_run demo_world run1 [] demo5)"

lemma demo6_state:
  "\<exists>rn. get (runs demo6) run1 = Some rn \<and> r_status rn = RCancelled" "reachable demo6"
proof -
  show "\<exists>rn. get (runs demo6) run1 = Some rn \<and> r_status rn = RCancelled"
    by (simp add: demo6_def cancel_run_def end_run_def Let_def state_simps demo_simps)
  show "reachable demo6" unfolding demo6_def by (rule reachable_step [OF demo_reachable(6) cs_cancel_run])
qed

lemma ended_run_stays_ended_witness:
  "\<exists>rn. get (runs (snd (retry_run demo_world run1 demo6))) run1 = Some rn \<and> r_status rn \<noteq> RRunning"
proof -
  obtain rn where "get (runs demo6) run1 = Some rn" "r_status rn \<noteq> RRunning" using demo6_state(1) by auto
  from ended_run_stays_ended [OF demo6_state(2) r_into_rtranclp [of control_step, OF cs_retry_run] this] show ?thesis by blast
qed

lemma journals_append_only_witness:
  "\<exists>as es. audit_log demo5 = audit_log demo4 @ as \<and> run_events demo5 = run_events demo4 @ es"
proof -
  have "control_steps demo4 demo5" unfolding demo5_def by (rule r_into_rtranclp) (rule cs_start_run)
  from journals_append_only [OF demo_reachable(5) this] show ?thesis by blast
qed

section \<open>Approved calls\<close>

definition asked :: kernel where
  "asked = snd (request_tool_invocation_approval demo_world (cps ''user'') dev shell (cps ''run'') JNull demo2)"

lemma demo_tool [simp]:
  assumes "agents k = agents demo2" "plugins k = plugins demo0" "mcp_servers k = []"
  shows "resolve_tool_permission dev shell (cps ''run'') k = Inr (ns0, shell_run)"
    "resolve_tool_permission lead shell (cps ''run'') k = Inr (ns0, shell_run)"
    "agent_holds_permission dev shell_run k" "\<not> agent_holds_permission lead shell_run k"
    "tool_needs_approval shell (cps ''run'') k" "tool_risk_for shell (cps ''run'') k = High"
    "execute_tool_runtime demo_world shell (cps ''run'') input k = Inr input"
proof -
  have n: "\<not> is_prefix mcp_prefix (cps ''shell'')" "strip_prefix mcp_prefix (cps ''shell'') = None"
    by (simp_all add: mcp_prefix_def is_prefix_def strip_prefix_def cps_def)
  have m: "mcp_server_for_plugin shell k = None" using n by (simp add: mcp_server_for_plugin_def shell_def)
  have s: "\<not> is_source_tool (cps ''run'')" by (simp add: is_source_tool_def cps_def)
  have f: "find_tool shell (cps ''run'') k = Some \<lparr>td_name = cps ''run'', td_permission = shell_run, td_risk = High, td_approval = Required\<rparr>"
    using assms(2) by (simp add: find_tool_def demo0_eq shell_manifest_def)
  have w: "as_str manage \<noteq> as_str shell_run" "parse_tool_wildcard (as_str manage) = None"
    by (simp_all add: manage_def shell_run_def parse_tool_wildcard_def strip_prefix_def is_prefix_def tool_kind_def cps_def)
  show "resolve_tool_permission dev shell (cps ''run'') k = Inr (ns0, shell_run)"
    "resolve_tool_permission lead shell (cps ''run'') k = Inr (ns0, shell_run)"
    using n s f assms by (simp_all add: resolve_tool_permission_def demo_simps contains_key_def) (simp_all add: shell_def demo0_eq)
  show "agent_holds_permission dev shell_run k" "\<not> agent_holds_permission lead shell_run k"
    using assms(1) w by (simp_all add: agent_holds_permission_def demo_simps holds_def authorizes_def)
  show "tool_needs_approval shell (cps ''run'') k" "tool_risk_for shell (cps ''run'') k = High"
    "execute_tool_runtime demo_world shell (cps ''run'') input k = Inr input"
    using m f s by (simp_all add: tool_needs_approval_def tool_risk_for_def execute_tool_runtime_def demo_world_def)
qed

lemma demo_plain [demo_simps]: "mcp_servers demo0 = []" "pending_tool_invocations demo0 = []" "persistent_grants demo0 = []"
  by (simp_all add: demo0_eq)

lemma demo2_plain [demo_simps]:
  "mcp_servers demo2 = []" "next_approval demo2 = 0" "pending_tool_invocations demo2 = []" "persistent_grants demo2 = []"
  by (simp_all add: demo2_def demo1_def create_agent_with_skills_def Let_def state_simps demo0_eq)

lemma asked_request:
  "request_tool_invocation_approval demo_world (cps ''user'') dev shell (cps ''run'') JNull demo2 = (Inr appr1, asked)"
  by (simp add: asked_def request_tool_invocation_approval_def with_permission_def demo_simps request_approval_def Let_def
      tick_advance MAX_TOOL_INVOCATION_ARGS_BYTES_def demo_ids)

lemma asked_state [demo_simps]:
  "agents asked = agents demo2" "plugins asked = plugins demo0" "mcp_servers asked = []"
  "contains_key (approvals asked) appr1"
  "map_option (\<lambda>b. (pi_agent b, pi_plugin b, pi_tool b, pi_input b, pi_consumed b, pi_args_sha256 b))
    (get (pending_tool_invocations asked) appr1) = Some (dev, shell, cps ''run'', JNull, False, [])"
  by (simp_all add: asked_def request_tool_invocation_approval_def with_permission_def demo_simps request_approval_def Let_def
      state_simps MAX_TOOL_INVOCATION_ARGS_BYTES_def demo_ids contains_key_def)

lemma asked_reachable: "reachable asked"
  unfolding asked_def by (rule reachable_step [OF demo_reachable(3) cs_request_invocation])

definition granted :: kernel where
  "granted = snd (resolve_approval appr1 True (cps ''user'') None asked)"

lemma granted_reachable: "reachable granted"
  unfolding granted_def by (rule reachable_step [OF asked_reachable cs_resolve_approval])

lemma granted_state [demo_simps]:
  "agents granted = agents demo2" "plugins granted = plugins demo0" "mcp_servers granted = []"
  "pending_tool_invocations granted = pending_tool_invocations asked"
  "map_option ap_status (get (approvals granted) appr1) = Some ApApproved"
  using asked_state(4)
  by (auto simp: granted_def resolve_approval_alt contains_key_def state_simps demo_simps decide_ok split: option.split)

definition called :: kernel where
  "called = snd (execute_approved_tool_invocation demo_world appr1 (cps ''user'') granted)"

lemma called_result: "execute_approved_tool_invocation demo_world appr1 (cps ''user'') granted = (Inr JNull, called)"
proof -
  obtain ap where ap: "get (approvals granted) appr1 = Some ap" "ap_status ap = ApApproved"
    using granted_state(5) by auto
  obtain b where b: "get (pending_tool_invocations asked) appr1 = Some b" "pi_agent b = dev" "pi_plugin b = shell"
    "pi_tool b = cps ''run''" "pi_input b = JNull" "\<not> pi_consumed b" "pi_args_sha256 b = []"
    using asked_state(5) by auto
  show ?thesis
    by (simp add: called_def execute_approved_tool_invocation_def ap b with_permission_def demo_simps Let_def)
qed

lemma approved_call_runs_once_witness:
  "\<exists>e. execute_approved_tool_invocation demo_world appr1 (cps ''user'') (snd (resolve_approval appr1 True [] None called))
    = (Inl e, snd (resolve_approval appr1 True [] None called))"
  by (rule approved_call_runs_once [OF granted_reachable called_result]) (rule r_into_rtranclp, rule cs_resolve_approval)

lemma bound_call_unchanged_witness:
  "\<exists>ap. get (approvals granted) appr1 = Some ap \<and> ap_status ap = ApApproved"
proof -
  have "control_steps asked granted" unfolding granted_def by (rule r_into_rtranclp, rule cs_resolve_approval)
  from bound_call_unchanged [OF demo_reachable(3) asked_request this called_result] show ?thesis ..
qed

lemma rejected_call_never_runs_witness:
  "\<exists>e. execute_approved_tool_invocation demo_world appr1 (cps ''user'')
      (snd (resolve_approval appr1 True [] None (snd (resolve_approval appr1 False [] None asked))))
    = (Inl e, snd (resolve_approval appr1 True [] None (snd (resolve_approval appr1 False [] None asked))))"
proof (rule rejected_call_never_runs [OF asked_reachable])
  show "resolve_approval appr1 False [] None asked = (Inr (), snd (resolve_approval appr1 False [] None asked))"
    using asked_state(4) by (auto simp: resolve_approval_alt contains_key_def split: option.split)
qed (rule r_into_rtranclp, rule cs_resolve_approval)

section \<open>The gate\<close>

definition standing :: kernel where
  "standing = snd (grant_persistent_tool_invocation (cps ''user'') dev shell (cps ''run'') demo2)"

lemma standing_call:
  "\<exists>k'. call_tool demo_world run1 dev shell (cps ''run'') JNull standing = (Inr JNull, k')"
proof -
  have s: "agents standing = agents demo2" "plugins standing = plugins demo0" "mcp_servers standing = []"
    "\<exists>g. vals (persistent_grants standing) = [g] \<and> covers dev shell (cps ''run'') (as_str shell_run) High g"
    by (simp_all add: standing_def grant_persistent_tool_invocation_def with_permission_def demo_simps Let_def state_simps
        vals_def covers_def authorizes_invocation_def)
  have m: "mcp_server_for_plugin shell standing = None"
    by (simp add: mcp_server_for_plugin_def s(3) split: option.split)
  have f: "find_tool shell (cps ''run'') standing = Some \<lparr>td_name = cps ''run'', td_permission = shell_run, td_risk = High, td_approval = Required\<rparr>"
    by (simp add: find_tool_def s demo0_eq shell_manifest_def)
  obtain g where "matching_persistent_grant_id dev shell (cps ''run'') standing = Some g"
    using s(4) by (auto simp: matching_persistent_grant_id_def m f)
  moreover have "agents (record_persistent_grant_use g dev ns0 standing) = agents demo2"
    "plugins (record_persistent_grant_use g dev ns0 standing) = plugins demo0"
    "mcp_servers (record_persistent_grant_use g dev ns0 standing) = []" for g
    by (simp_all add: record_persistent_grant_use_def Let_def state_simps s)
  ultimately show ?thesis
    by (simp add: call_tool_def with_permission_def gated_execution_def s)
qed

lemma call_tool_gated_witness: "matching_persistent_grant_id dev shell (cps ''run'') standing \<noteq> None"
proof -
  have "tool_needs_approval shell (cps ''run'') standing"
    by (rule demo_tool) (simp_all add: standing_def grant_persistent_tool_invocation_def with_permission_def demo_simps Let_def state_simps
        vals_def)
  moreover obtain k' where "call_tool demo_world run1 dev shell (cps ''run'') JNull standing = (Inr JNull, k')"
    using standing_call by blast
  ultimately show ?thesis using call_tool_gated by blast
qed

lemma call_tool_denied_witness:
  "\<exists>ev. audit_log (snd (call_tool demo_world run1 lead shell (cps ''run'') JNull demo2)) = audit_log demo2 @ [ev] \<and> au_result ev = AuDenied"
proof -
  have "resolve_tool_permission lead shell (cps ''run'') demo2 = Inr (ns0, shell_run)" "\<not> agent_holds_permission lead shell_run demo2"
    by (simp_all add: demo_simps)
  from call_tool_denied [OF this, where w = demo_world] show ?thesis by blast
qed

section \<open>Operations\<close>

lemma start_run_exactly_witness: "\<exists>rn. get (runs demo5) run1 = Some rn \<and> r_status rn = RRunning \<and> r_agent rn = dev"
proof -
  have "\<exists>tk a ag rn. get (tasks demo4) task1 = Some tk \<and> t_assigned tk = Some a \<and> get (runs demo5) run1 = Some rn
      \<and> r_agent rn = a \<and> r_status rn = RRunning"
    using start_run_exactly [of demo_world task1 demo4] demo_start by blast
  then show ?thesis by (auto simp: demo_simps)
qed

lemma started_run_found_witness: "active_run task1 demo5 = Some run1 \<and> newest_run demo5 = Some run1"
  using started_run_found [OF demo_reachable(5) demo_start] by (simp add: demo_simps)

lemma manager_acts_below_witness: "(dev, lead) \<in> (edges (reports_to_map demo3))\<^sup>+"
proof -
  have "\<not> isl (fst (manager_assign_task_to_subordinate lead dev task1 demo3))"
    by (simp add: manager_assign_task_to_subordinate_def require_authority_def demo_authority demo_simps
        assign_task_def contains_key_def Let_def tick_def)
  then show ?thesis
    using manager_acts_below [of "''assign_task''" "manager_assign_task_to_subordinate lead dev task1" lead dev shell_run task1 demo3]
    by auto
qed

lemma hierarchy_stays_acyclic_witness:
  "acyclic (edges (reports_to_map (snd (create_agent_with_skills (cps ''new'') [] [] claude ns0 None [] [] (Some dev) demo2))))"
proof -
  have "edges [dev \<mapsto> lead] = {(dev, lead)}" by (auto simp: edges_def split: if_splits)
  then have "acyclic (edges (reports_to_map demo2))" by (simp add: demo_simps acyclic_insert) (simp add: acyclic_def)
  from hierarchy_stays_acyclic [OF demo_reachable(3) this] show ?thesis by blast
qed

lemma watchdog_exact_witness:
  "\<exists>y. get (runs (snd (recover_stale_runs demo_world 5000 [] demo5))) run1 = Some y \<and> r_failure_class y = Some Stale"
proof -
  have "run_watchdog demo5 = \<lparr>watchdog_enabled = True, stale_after_secs = 180\<rparr>"
    by (simp add: demo_simps) (simp add: demo0_eq)
  with watchdog_exact [OF demo_reachable(6) surjective_pairing demo5_state(2), where now = 5000 and active = "[]" and w = demo_world]
  show ?thesis
    by (simp add: new_run_def clamped_def is_stale_def last_activity_def MIN_STALE_AFTER_SECS_def MAX_STALE_AFTER_SECS_def)
      blast
qed

section \<open>Sessions and retries\<close>

lemma demo_active: "active_run task1 demo5 = Some run1"
  by (rule started_is_active [OF reachable_is_wf [OF demo_reachable(5)] demo_start]) (simp add: demo_simps)

definition planned :: "kernel \<Rightarrow> run_id \<Rightarrow> ustr option \<Rightarrow> cli_plan" where
  "planned k r session = \<lparr>pl_run = r, pl_task = task1, pl_adapter = claude, pl_kind = ClaudeCli, pl_binary = cps ''claude'',
     pl_namespace = namespace_of_task task1 k, pl_timeout_seconds = 60, pl_resume = session\<rparr>"

lemma demo_prepare:
  assumes "active_run task1 k = Some r" "adapter_runtime_configs k = adapter_runtime_configs demo0" "get (runs k) r = Some rn"
    and "r_agent rn = dev" "agents k = agents demo2" "contains_key (tasks k) task1"
  shows "prepare_cli_run demo_world task1 claude k = (Inr (planned k r (resume_session_id rn)),
    push_run_event demo_world r ''adapter_spawn'' (cps ''kernel'') k)"
proof -
  have "contains_key (agents k) dev" by (simp add: assms(5) demo_simps contains_key_def)
  then show ?thesis
    using assms by (simp add: prepare_cli_run_def Let_def planned_def demo0_eq resolved_command_def)
qed

lemma demo5_task: "contains_key (tasks demo5) task1"
  using start_run_effect(5) [OF demo_start] by (auto simp: contains_key_def)

definition spawned :: kernel where
  "spawned = push_run_event demo_world run1 ''adapter_spawn'' (cps ''kernel'') demo5"

lemma demo_prepared: "prepare_cli_run demo_world task1 claude demo5 = (Inr (planned demo5 run1 None), spawned)"
  unfolding spawned_def
  using demo_prepare [OF demo_active _ demo5_state(2)] by (simp add: demo_simps new_run_def demo5_task resume_session_id_def)

lemma started_run_is_cold_witness: "\<exists>p k2. prepare_cli_run demo_world task1 claude demo5 = (Inr p, k2) \<and> pl_resume p = None"
  using started_run_is_cold [OF demo_reachable(5) _ demo_start demo_prepared] demo_prepared by (simp add: demo_simps)

lemma demo_session: "session_from_envelope (Some (cps ''s1'')) ClaudeCli
    = Some \<lparr>adapter_session_id = cps ''s1'', session_source = source_label ClaudeCli, resume_supported = True\<rparr>"
  by (simp add: session_from_envelope_def sanitize_session_id_def MAX_SESSION_ID_LEN_def ascii_simps trim_def trim_start_def)

lemma demo_finalize:
  assumes "get (runs k) r = Some rn" "contains_key (tasks k) task1"
  shows "\<exists>k'. finalize_cli_run demo_world (planned j r session) (w_spawn demo_world t (planned j r session)) k = (Inr r, k')
    \<and> (\<exists>x. get (runs k') r = Some x \<and> r_status x = RCompleted \<and> r_task x = r_task rn \<and> r_session x
        = Some \<lparr>adapter_session_id = cps ''s1'', session_source = source_label ClaudeCli, resume_supported = True\<rparr>)
    \<and> agents k' = agents k \<and> plugins k' = plugins k \<and> adapter_runtime_configs k' = adapter_runtime_configs k
    \<and> clock k' \<le> clock k + 10 \<and> map_option t_assigned (get (tasks k') task1) = map_option t_assigned (get (tasks k) task1)
    \<and> map_option t_required (get (tasks k') task1) = map_option t_required (get (tasks k) task1)"
proof -
  have sp: "w_spawn demo_world t p = Inr \<lparr>ao_success = True, ao_cancelled = False, ao_timed_out = False, ao_exit_code = Some 0,
        ao_stdout = [], ao_stdout_truncated = False, ao_duration_ms = 1\<rparr>"
    "w_parse_result demo_world out kd = \<lparr>ar_is_error = None, ar_text = [], ar_session_id = Some (cps ''s1'')\<rparr>" for t p out kd
    by (simp_all add: demo_world_def)
  obtain tk where "get (tasks k) task1 = Some tk" using assms(2) by (auto simp: contains_key_def)
  with assms(1) show ?thesis
    by (simp add: finalize_cli_run_def sp planned_def Let_def complete_run_def end_run_def try_k_def set_run_session_def
        set_run_metrics_def demo_session complete_task_def finish_task_def audit_task_def state_simps clock_sel set_status_def)
qed

definition finished :: kernel where
  "finished = snd (finalize_cli_run demo_world (planned demo5 run1 None) (w_spawn demo_world 0 (planned demo5 run1 None)) spawned)"

lemma finished_reachable: "reachable finished"
proof -
  have "control_step demo5 spawned" using cs_prepare_cli_run [of demo5 demo_world task1 claude] by (simp add: demo_prepared)
  then have "reachable spawned" by (rule reachable_step [OF demo_reachable(6)])
  then show ?thesis unfolding finished_def by (rule reachable_step) (rule cs_finalize_cli_run)
qed

lemma demo5_assigned: "map_option t_assigned (get (tasks demo5) task1) = Some (Some dev)"
    "map_option t_required (get (tasks demo5) task1) = Some [shell_run]"
  by (simp_all add: demo5_def start_run_def demo_simps holds_def authorizes_def Let_def state_simps set_status_def)

lemma finished_state:
  "\<exists>rn. get (runs finished) run1 = Some rn \<and> r_status rn = RCompleted \<and> r_task rn = task1
    \<and> r_session rn = Some \<lparr>adapter_session_id = cps ''s1'', session_source = source_label ClaudeCli, resume_supported = True\<rparr>"
  "agents finished = agents demo2" "adapter_runtime_configs finished = adapter_runtime_configs demo0" "clock finished \<le> 37"
  "map_option t_assigned (get (tasks finished) task1) = Some (Some dev)"
  "map_option t_required (get (tasks finished) task1) = Some [shell_run]"
proof -
  have r: "get (runs spawned) run1 = Some ((new_run run1 task1 dev claude (render 15) 16)\<lparr>r_last_activity := Some 20\<rparr>)"
    by (simp add: spawned_def state_simps demo_simps)
  have t: "contains_key (tasks spawned) task1" using demo5_task by (simp add: spawned_def state_simps)
  have s: "agents spawned = agents demo2" "adapter_runtime_configs spawned = adapter_runtime_configs demo0" "clock spawned = 20"
    "tasks spawned = tasks demo5"
    by (simp_all add: spawned_def state_simps demo_simps)
  note f = demo_finalize [OF r t, of demo5 None 0, unfolded s demo5_assigned]
  show "\<exists>rn. get (runs finished) run1 = Some rn \<and> r_status rn = RCompleted \<and> r_task rn = task1
      \<and> r_session rn = Some \<lparr>adapter_session_id = cps ''s1'', session_source = source_label ClaudeCli, resume_supported = True\<rparr>"
    "agents finished = agents demo2" "adapter_runtime_configs finished = adapter_runtime_configs demo0" "clock finished \<le> 37"
    "map_option t_assigned (get (tasks finished) task1) = Some (Some dev)"
    "map_option t_required (get (tasks finished) task1) = Some [shell_run]"
    using f by (auto simp: finished_def new_run_def)
qed

lemma resume_continues_session_witness:
  "\<exists>new k rn p i. resume_run demo_world run1 finished = (Inr new, k) \<and> new \<noteq> run1 \<and> get (runs finished) run1 = Some rn
    \<and> prepare_cli_run demo_world task1 claude (resumed demo_world run1 rn new finished) = (Inr p, i)
    \<and> pl_run p = new \<and> pl_resume p = Some (cps ''s1'')"
proof -
  have wf: "wf finished" by (rule reachable_is_wf [OF finished_reachable])
  obtain rn where rn: "get (runs finished) run1 = Some rn" "r_status rn = RCompleted" "r_task rn = task1"
    "r_session rn = Some \<lparr>adapter_session_id = cps ''s1'', session_source = source_label ClaudeCli, resume_supported = True\<rparr>"
    using finished_state(1) by blast
  obtain tk where tk: "get (tasks finished) task1 = Some tk" "t_assigned tk = Some dev" "t_required tk = [shell_run]"
    using finished_state(5,6) by auto
  obtain ag where ag: "get (agents finished) dev = Some ag" "ag_adapter ag = claude" "holds ag shell_run"
    by (simp add: finished_state(2) demo_simps holds_def authorizes_def)
  let ?k = "requeue task1 finished"
  have k: "runs ?k = runs finished" "agents ?k = agents demo2" "adapter_runtime_configs ?k = adapter_runtime_configs demo0"
    "clock ?k = Suc (clock finished)"
    "get (tasks ?k) task1 = Some (tk\<lparr>t_status := TQueued, t_updated_at := render (clock finished)\<rparr>)"
    using tk finished_state by (simp_all add: requeue_def state_simps clock_sel)
  obtain new k1 where s: "start_run demo_world task1 ?k = (Inr new, k1)"
    using start_run_starts [OF k(5), of dev ag demo_world] tk ag k(2) finished_state(2) by auto
  let ?j = "mark_resumed demo_world run1 (r_session rn) new k1"
  note j = resumed_is_active [OF wf _ s, of run1 "r_session rn"]
  have eff: "agents k1 = agents demo2" "adapter_runtime_configs k1 = adapter_runtime_configs demo0" "contains_key (tasks k1) task1"
    using s k tk ag
    by (auto simp: start_run_def Let_def state_simps set_status_def contains_key_def split: option.splits)
  have same: "agents ?j = agents demo2" "adapter_runtime_configs ?j = adapter_runtime_configs demo0" "contains_key (tasks ?j) task1"
    using eff by (simp_all add: mark_resumed_def state_simps)
  obtain x where x: "get (runs ?j) new = Some x" "r_agent x = dev"
    using j(2) start_run_effect(3) [OF s] start_run_effect(1) [OF s] k tk finished_state(4) by (auto simp: new_run_def)
  have p: "prepare_cli_run demo_world task1 claude ?j = (Inr (planned ?j new (resume_session_id x)),
      push_run_event demo_world new ''adapter_spawn'' (cps ''kernel'') ?j)" (is "_ = (Inr ?p, ?i)")
    by (rule demo_prepare [OF j(1) same(2) x same(1,3)]) (use finished_state(4) in simp)
  have "\<exists>i'. execute_cli_run demo_world task1 claude ?j = (Inr new, i')"
    using demo_finalize [of ?i new _ ?j "resume_session_id x" "clock ?i"] x same(3)
    by (auto simp: execute_cli_run_def p try_k_def state_simps)
  then obtain i' where e: "execute_cli_run demo_world task1 claude ?j = (Inr new, i')" by blast
  have "\<exists>k. resume_run demo_world run1 finished = (Inr new, k)"
    using rn tk ag finished_state(2) e
    by (simp add: resume_run_def plan_resume_def s try_k_def mark_resumed_def)
  then obtain k' where r: "resume_run demo_world run1 finished = (Inr new, k')" by blast
  have "clock finished + 1 < 86400" using finished_state(4) by simp
  from resume_continues_session [OF finished_reachable this rn(1) r] rn tk ag obtain p i where
    "new \<noteq> run1" "prepare_cli_run demo_world task1 claude (resumed demo_world run1 rn new finished) = (Inr p, i)"
    "pl_run p = new" "pl_resume p = Some (cps ''s1'')" by auto
  with r rn(1) show ?thesis by blast
qed

definition failed :: kernel where
  "failed = snd (assign_task task1 dev (snd (fail_run_classified demo_world run1 [] Timeout demo5)))"

definition again :: kernel where
  "again = snd (start_run demo_world task1 failed)"

definition revoked :: kernel where
  "revoked = snd (revoke_permission_from_agent dev shell_run again)"

lemma failed_state:
  "reachable failed" "agents failed = agents demo2" "next_run failed = 1"
  "\<exists>rn. get (runs failed) run1 = Some rn \<and> r_status rn = RFailed \<and> r_task rn = task1"
  "\<exists>tk. get (tasks failed) task1 = Some tk \<and> t_assigned tk = Some dev \<and> t_required tk = [shell_run]"
proof -
  show "reachable failed"
    unfolding failed_def by (rule reachable_step [OF reachable_step [OF demo_reachable(6) cs_fail_run_classified] cs_assign_task])
  have "contains_key (agents demo2) dev" by (simp add: demo_simps contains_key_def)
  moreover have "next_run demo5 = 1" using start_run_effect(2) [OF demo_start] by (simp add: demo_simps)
  moreover obtain tk where "get (tasks demo5) task1 = Some tk" "t_required tk = [shell_run]" using demo5_assigned by auto
  ultimately show "agents failed = agents demo2" "next_run failed = 1"
    "\<exists>rn. get (runs failed) run1 = Some rn \<and> r_status rn = RFailed \<and> r_task rn = task1"
    "\<exists>tk. get (tasks failed) task1 = Some tk \<and> t_assigned tk = Some dev \<and> t_required tk = [shell_run]"
    using demo5_state(1,2)
    by (simp_all add: failed_def fail_run_classified_def end_run_def Let_def state_simps assign_task_def audit_task_def new_run_def)
qed

lemma refused_retry_marks_newest_witness:
  "\<exists>new. new \<noteq> run1 \<and> newest_run revoked = Some new
    \<and> map_option r_retried_from (get (runs (snd (retry_run demo_world run1 revoked))) new) = Some (Some run1)"
proof -
  obtain tk where tk: "get (tasks failed) task1 = Some tk" "t_assigned tk = Some dev" "t_required tk = [shell_run]"
    using failed_state(5) by blast
  obtain ag where ag: "get (agents failed) dev = Some ag" "ag_permissions ag = [shell_run]"
    by (simp add: failed_state(2) demo_simps)
  obtain new where s: "start_run demo_world task1 failed = (Inr new, again)"
    using start_run_starts [OF tk(1,2) ag(1), of demo_world] tk(3) ag(2)
    by (auto simp: again_def holds_def authorizes_def)
  have new: "new \<noteq> run1" using start_run_effect(1) [OF s] failed_state(3) by (simp add: run1_def)
  have "reachable again" unfolding again_def by (rule reachable_step [OF failed_state(1) cs_start_run])
  then have r: "reachable revoked" unfolding revoked_def by (rule reachable_step) (rule cs_revoke_permission)
  have again: "get (tasks again) task1 = Some tk' \<Longrightarrow> t_assigned tk' = Some dev \<and> t_required tk' = [shell_run]"
    "\<exists>tk'. get (tasks again) task1 = Some tk'" "agents again = agents failed" for tk'
    using start_run_rest [OF s] tk by auto
  have v: "runs revoked = runs again" "tasks revoked = tasks again"
    "\<exists>ag'. get (agents revoked) dev = Some ag' \<and> ag_permissions ag' = []"
    using ag again(3) by (simp_all add: revoked_def revoke_permission_from_agent_def matches_exact_def Let_def state_simps)
  obtain tk' where t: "get (tasks revoked) task1 = Some tk'" "t_assigned tk' = Some dev" "t_required tk' = [shell_run]"
    using again v(2) by auto
  obtain ag' where a: "get (agents revoked) dev = Some ag'" "\<not> list_all (holds ag') (t_required tk')"
    using v(3) t(3) by (auto simp: holds_def)
  obtain rn where rn: "get (runs revoked) run1 = Some rn" "r_status rn = RFailed" "r_task rn = task1"
    using failed_state(4) new v(1) start_run_effect(3) [OF s] by auto
  have n: "newest_run revoked = Some new"
    using started_is_newest [OF reachable_is_wf [OF failed_state(1)] s] failed_state(3) v(1) by (simp add: newest_run_def)
  from refused_retry_marks_newest [OF r rn(1,2) _ t(2) a n new, of demo_world] rn(3) t(1) n new show ?thesis by auto
qed

end
