(* ===== verification/Relux_Planner_Props.thy ===== *)
theory Relux_Planner_Props
  imports Relux_Planner
begin

text \<open>
  The planner's splitter, which works on byte offsets, against a reference on characters; what a plan
  looks like; when planning cannot panic, and a goal on which it does.
\<close>

section \<open>Bytes and characters\<close>

lemma bytes_simps [simp]: "bytes [] = []" "bytes (c # cs) = utf8_encode c @ bytes cs" "bytes (a @ b) = bytes a @ bytes b"
  by (simp_all add: bytes_def)

lemma utf8_encode_ascii: "c < 128 \<Longrightarrow> utf8_encode c = [c]"
  by (simp add: utf8_encode_def)

lemma utf8_encode_high: "\<not> c < 128 \<Longrightarrow> b \<in> set (utf8_encode c) \<Longrightarrow> 128 \<le> b"
  by (auto simp: utf8_encode_def split: if_splits)

lemma utf8_encode_hd: "\<exists>b bs. utf8_encode c = b # bs \<and> \<not> cont b"
  by (auto simp: utf8_encode_def cont_def)

lemma bytes_ascii: "list_all (\<lambda>c. c < 128) d \<Longrightarrow> bytes d = d"
  by (induction d) (simp_all add: utf8_encode_ascii)

lemma is_prefix_Cons: "is_prefix (x # xs) s \<longleftrightarrow> (\<exists>r. s = x # r \<and> is_prefix xs r)"
  by (auto simp: is_prefix_iff)

lemma is_prefix_bytes: "list_all (\<lambda>c. c < 128) d \<Longrightarrow> is_prefix d (bytes s) = is_prefix d s"
proof (induction d arbitrary: s)
  case (Cons x d)
  show ?case
  proof (cases s)
    case s: (Cons c cs)
    show ?thesis
    proof (cases "c < 128")
      case True
      with Cons s show ?thesis by (simp add: is_prefix_Cons utf8_encode_ascii)
    next
      case False
      obtain b bs where b: "utf8_encode c = b # bs" using utf8_encode_hd by blast
      with utf8_encode_high [OF False, of b] Cons.prems False show ?thesis by (auto simp: s is_prefix_Cons)
    qed
  qed (simp add: is_prefix_Cons)
qed (simp add: is_prefix_iff)

lemma find_at_skip:
  "list_all (\<lambda>b. 128 \<le> b) bs \<Longrightarrow> d \<noteq> [] \<Longrightarrow> list_all (\<lambda>c. c < 128) d \<Longrightarrow>
    find_at d (bs @ r) = map_option ((+) (length bs)) (find_at d r)"
  for bs :: "nat list"
proof (induction bs)
  case (Cons b bs)
  then have "\<not> is_prefix d ((b # bs) @ r)" by (cases d) (auto simp: is_prefix_Cons)
  with Cons show ?case by (simp add: option.map_comp o_def)
qed (cases "find_at d r"; simp)

lemma find_at_bytes:
  assumes "d \<noteq> []" "list_all (\<lambda>c. c < 128) d"
  shows "find_at d (bytes s) = map_option (\<lambda>i. length (bytes (take i s))) (find_at d s)"
proof (induction s)
  case (Cons c s)
  show ?case
  proof (cases "is_prefix d (c # s)")
    case True
    then have "is_prefix d (bytes (c # s))" by (simp only: is_prefix_bytes [OF assms(2)])
    with True show ?thesis by (cases "bytes (c # s)") (auto simp: is_prefix_iff simp del: bytes_simps(2))
  next
    case False
    then have no: "\<not> is_prefix d (bytes (c # s))" by (simp only: is_prefix_bytes [OF assms(2)] not_False_eq_True)
    show ?thesis
    proof (cases "c < 128")
      case True
      with False no Cons.IH show ?thesis by (simp add: utf8_encode_ascii option.map_comp o_def)
    next
      case high: False
      have "find_at d (bytes (c # s)) = map_option ((+) (length (utf8_encode c))) (find_at d (bytes s))"
        using find_at_skip [of "utf8_encode c" d "bytes s"] utf8_encode_high [OF high] assms
        by (simp add: list_all_iff)
      with False Cons.IH show ?thesis by (simp add: option.map_comp o_def)
    qed
  qed
qed (use assms in simp)

lemma boundary_bytes: "is_char_boundary (bytes (a @ r)) (length (bytes a))"
proof (cases r)
  case (Cons c cs)
  obtain b bs where "utf8_encode c = b # bs" "\<not> cont b" using utf8_encode_hd by blast
  with Cons show ?thesis by (simp add: is_char_boundary_def nth_append)
qed (simp add: is_char_boundary_def)

lemma str_slice_bytes:
  assumes "list_all scalar_value b"
  shows "str_slice (bytes (a @ b @ c)) (length (bytes a)) (length (bytes a) + length (bytes b)) = Some b"
proof -
  have "is_char_boundary (bytes ((a @ b) @ c)) (length (bytes (a @ b)))" by (rule boundary_bytes)
  then have "is_char_boundary (bytes (a @ b @ c)) (length (bytes a) + length (bytes b))" by simp
  moreover have "is_char_boundary (bytes (a @ b @ c)) (length (bytes a))" by (rule boundary_bytes)
  moreover have "utf8_decode 0 (bytes b) = Inr b"
    unfolding bytes_def by (rule utf8_decode_encode) (use assms in \<open>simp add: list_all_iff\<close>)
  ultimately show ?thesis unfolding str_slice_def by (simp del: append_assoc)
qed


section \<open>The splitter on characters\<close>

lemma find_at_Some: "find_at d s = Some i \<Longrightarrow> \<exists>a r. s = a @ d @ r \<and> length a = i"
proof (induction d s arbitrary: i rule: find_at.induct)
  case (2 d c cs)
  show ?case
  proof (cases "is_prefix d (c # cs)")
    case True
    with 2(2) show ?thesis by (auto simp: is_prefix_iff)
  next
    case False
    with 2(2) obtain j where j: "find_at d cs = Some j" "i = Suc j" by (auto split: option.splits)
    then obtain a r where "cs = a @ d @ r" "length a = j" using 2(1) False by blast
    with j(2) show ?thesis by (intro exI [of _ "c # a"] exI [of _ r]) simp
  qed
qed (simp split: if_splits)

text \<open>The reference: cut at every occurrence of the delimiter in the image of the string, from the left.\<close>

function split_ref :: "(nat \<Rightarrow> nat) \<Rightarrow> ustr \<Rightarrow> ustr \<Rightarrow> ustr list" where
  "split_ref f d s =
     (if d = [] then [s]
      else case find_at d (map f s) of None \<Rightarrow> [s]
      | Some i \<Rightarrow> take i s # split_ref f d (drop (i + length d) s))"
  by pat_completeness auto

termination
proof (relation "measure (\<lambda>(f, d, s). length s)")
  show "\<And>f d s i. d \<noteq> [] \<Longrightarrow> find_at d (map f s) = Some i \<Longrightarrow>
      ((f, d, drop (i + length d) s), (f, d, s)) \<in> measure (\<lambda>(f, d, s). length s)"
    by (drule find_at_Some) (auto simp: map_eq_append_conv neq_Nil_conv)
qed simp

declare split_ref.simps [simp del]

definition same_width :: "(nat \<Rightarrow> nat) \<Rightarrow> ustr \<Rightarrow> bool" where
  "same_width f s \<longleftrightarrow> list_all (\<lambda>c. length (utf8_encode (f c)) = length (utf8_encode c)) s"

lemma same_width_bytes: "same_width f s \<Longrightarrow> length (bytes (map f s)) = length (bytes s)"
  by (induction s) (simp_all add: same_width_def)

lemma same_width_parts [simp]:
  "same_width f s \<Longrightarrow> same_width f (take i s)" "same_width f s \<Longrightarrow> same_width f (drop i s)"
  "same_width f (a @ b) \<longleftrightarrow> same_width f a \<and> same_width f b"
  by (auto simp: same_width_def list_all_iff dest: in_set_takeD in_set_dropD)

text \<open>What the delimiter matched has its width, in bytes too.\<close>

lemma matched_width:
  assumes "same_width f s" "list_all (\<lambda>c. c < 128) d" "find_at d (map f s) = Some i"
  shows "length (bytes (take (i + length d) s)) = length (bytes (take i s)) + length d"
proof -
  obtain a r where r: "map f s = a @ d @ r" "length a = i"
    using find_at_Some [OF assms(3)] by blast
  have "map f (take (i + length d) s) = map f (take i s) @ d"
    unfolding take_map [symmetric] r using r(2) by simp
  then have "bytes (map f (take (i + length d) s)) = bytes (map f (take i s)) @ d"
    using bytes_ascii [OF assms(2)] by simp
  then show ?thesis
    using same_width_bytes [of f "take (i + length d) s"] same_width_bytes [of f "take i s"] assms(1)
    by (metis length_append same_width_parts(1))
qed

lemma split_ci_from_ref:
  "d \<noteq> [] \<Longrightarrow> list_all (\<lambda>c. c < 128) d \<Longrightarrow> same_width f (p @ s) \<Longrightarrow> list_all scalar_value s \<Longrightarrow>
    split_ci_from (bytes (p @ s)) (bytes (map f (p @ s))) d (length d) (length (bytes p)) = Some (split_ref f d s)"
proof (induction f d s arbitrary: p rule: split_ref.induct)
  case (1 f d s)
  note d = \<open>d \<noteq> []\<close> \<open>list_all (\<lambda>c. c < 128) d\<close>
  note w = \<open>same_width f (p @ s)\<close> and sv = \<open>list_all scalar_value s\<close>
  have pl: "length (bytes (map f p)) = length (bytes p)" using w same_width_bytes [of f p] by simp
  have bd: "is_char_boundary (bytes (map f (p @ s))) (length (bytes p))"
    using boundary_bytes [of "map f p" "map f s"] pl by simp
  have "length (bytes (take i (map f s))) = length (bytes (take i s))" for i
    unfolding take_map by (rule same_width_bytes) (use w in simp)
  then have fnd: "find_at d (drop (length (bytes p)) (bytes (map f (p @ s))))
      = map_option (\<lambda>i. length (bytes (take i s))) (find_at d (map f s))"
    using find_at_bytes [OF d, of "map f s"] pl by simp
  show ?case
  proof (cases "find_at d (map f s)")
    case None
    have part: "str_slice (bytes (p @ s)) (length (bytes p)) (length (bytes (p @ s))) = Some s"
      using str_slice_bytes [OF sv, of p "[]"] by simp
    show ?thesis
      by (subst split_ci_from.simps, subst split_ref.simps)
        (use d(1) bd part in \<open>simp add: fnd None del: bytes_simps(3) map_append\<close>)
  next
    case (Some i)
    let ?q = "p @ take (i + length d) s"
    have part: "str_slice (bytes (p @ s)) (length (bytes p)) (length (bytes p) + length (bytes (take i s))) = Some (take i s)"
      using str_slice_bytes [of "take i s" p "drop i s"] sv by (auto simp: list_all_iff dest: in_set_takeD)
    have "split_ci_from (bytes (?q @ drop (i + length d) s)) (bytes (map f (?q @ drop (i + length d) s))) d (length d)
        (length (bytes ?q)) = Some (split_ref f d (drop (i + length d) s))"
      by (rule "1.IH" [OF d(1) Some d]) (use w sv in \<open>auto simp: list_all_iff dest: in_set_dropD\<close>)
    then have rest: "split_ci_from (bytes (p @ s)) (bytes (map f (p @ s))) d (length d)
        (length (bytes p) + length (bytes (take i s)) + length d) = Some (split_ref f d (drop (i + length d) s))"
      using matched_width [OF _ d(2) Some] w by (simp add: add.assoc)
    show ?thesis
      by (subst split_ci_from.simps, subst split_ref.simps)
        (use d(1) bd part rest in \<open>simp add: fnd Some del: bytes_simps(3) map_append\<close>)
  qed
qed


definition ascii :: "ustr \<Rightarrow> bool" where
  "ascii s \<longleftrightarrow> list_all (\<lambda>c. c < 128) s"

lemma split_ci_ref:
  assumes "list_all scalar_value s" "to_lowercase u s = map f s" "same_width f s"
    and "d \<noteq> []" "ascii d" "to_lowercase u d = d"
  shows "split_ci u s d = Some (split_ref f d s)"
  using split_ci_from_ref [of d f "[]" s] assms bytes_ascii [of d]
  by (simp add: split_ci_def ascii_def)

text \<open>Where lowercasing a string replaces its characters one by one by characters of the same width in
  bytes, splitting by byte offsets does not panic and cuts the string exactly at the occurrences of the
  delimiter in the lowercased copy, from the left.\<close>

lemma split_ci_splits:
  assumes "list_all scalar_value s" "to_lowercase u s = map f s" "same_width f s"
    and "d \<noteq> []" "ascii d" "to_lowercase u d = d"
  shows "split_ci u s d = Some (split_ref f d s)"
  by (rule split_ci_ref [OF assms])

text \<open>
  The dotted capital I of Turkish (U+0130) is two bytes long, its lowercase three: a goal with a few of them
  before a comma makes the planner panic, and with one the next clause loses its first letter.
\<close>

definition lower_turkish :: "ustr \<Rightarrow> ustr" where
  "lower_turkish s = concat (map (\<lambda>c. if c = 304 then [105, 775] else [c]) s)"

definition turkish :: unicode where
  "turkish = \<lparr>u_alphabetic = (\<lambda>c. c = 304), u_numeric = (\<lambda>_. False), to_lowercase = lower_turkish, char_to_uppercase = (\<lambda>c. [c])\<rparr>"

lemma split_ci_keep:
  assumes "bytes d \<noteq> []" "find_at (bytes (to_lowercase u d)) (bytes (to_lowercase u s)) = None" "list_all scalar_value s"
  shows "split_ci u s d = Some [s]"
proof -
  have "is_char_boundary (bytes (to_lowercase u s)) 0" using boundary_bytes [of "[]"] by simp
  then show ?thesis
    using assms str_slice_bytes [of s "[]" "[]"] by (simp add: split_ci_def split_ci_from.simps)
qed

lemma to_lowercase_turkish: "to_lowercase turkish = lower_turkish"
  by (simp add: turkish_def)

lemmas turkish_simps = split_into_clauses_def CLAUSE_CONNECTORS_def to_lowercase_turkish lower_turkish_def cps_def
  utf8_encode_def is_prefix_def scalar_value_def split_ci_keep

lemmas split_simps = turkish_simps split_ci_def split_ci_from.simps is_char_boundary_def cont_def str_slice_def
  utf8_step.simps

lemma turkish_goal_panics: "split_into_clauses turkish ([304, 304, 304] @ cps '', qa'') = None"
proof -
  have "split_ci turkish [304, 304, 304, 44, 32, 113, 97] [44, 32] = None" by (simp add: split_simps)
  then show ?thesis by (simp add: turkish_simps)
qed

lemma turkish_clause_lost: "split_into_clauses turkish ([304] @ cps ''plan, test'') = Some [[304] @ cps ''plan'', cps ''est'']"
proof -
  have "split_ci turkish [304, 112, 108, 97, 110, 44, 32, 116, 101, 115, 116] [44, 32]
      = Some [[304, 112, 108, 97, 110, 44], [101, 115, 116]]"
    by (simp add: split_simps)
  then show ?thesis
    by (simp add: turkish_simps clean_fragment_def trim_def trim_start_def trim_matches_def is_whitespace_def
        is_alphanumeric_def is_alphabetic_def is_numeric_def turkish_def ucd.defs is_ascii_alpha_def)
qed


section \<open>What a plan looks like\<close>

lemma plan_clauses_steps:
  "plan_clauses u roster skills mx cs steps ns = (steps', ns') \<Longrightarrow>
    steps' = steps @ map (plan_step u roster skills) (take (mx - length steps) cs)
    \<and> (mx < length steps + length cs \<and> length steps \<le> mx \<longrightarrow> overflow_note mx \<in> set ns')"
proof (induction cs arbitrary: steps ns)
  case (Cons c cs)
  show ?case
  proof (cases "mx \<le> length steps")
    case False
    then have "mx - length steps = Suc (mx - length (steps @ [plan_step u roster skills c]))" by simp
    moreover obtain ns1 where "plan_clauses u roster skills mx cs (steps @ [plan_step u roster skills c]) ns1 = (steps', ns')"
      using Cons.prems False by (simp add: Let_def split: if_splits)
    ultimately show ?thesis using Cons.IH [of "steps @ [plan_step u roster skills c]" ns1] False by simp
  qed (use Cons.prems in auto)
qed auto

lemma match_agent_fits:
  "match_agent_for_role u role roster skills = Some a \<Longrightarrow> a \<in> set roster \<and> agent_fits u role skills a"
  by (auto simp: match_agent_for_role_def find_Some_iff split: if_splits)

text \<open>C24. A plan has one step for each clause of the goal, in order, as far as the width goes, which is between 1
  and 64 whatever was configured; what does not fit is announced in a note. A step waits exactly for the
  earlier steps whose role is a prerequisite of its own, so the dependencies have no cycle; the agent it
  names is on the roster, fits the role and is not Prime.\<close>

theorem plan_shape:
  assumes "plan_orchestration_with_limit u goal summary limit = Some p"
    and "split_into_clauses u (trim goal) = Some clauses" "mx = clamp 1 MAX_ORCHESTRATION_STEPS_CEIL limit"
  shows "1 \<le> mx \<and> mx \<le> MAX_ORCHESTRATION_STEPS_CEIL
    \<and> map ps_title (op_steps p) = map (title_from_clause u) (take mx clauses)
    \<and> map ps_role (op_steps p) = map (classify_role u) (take mx clauses)
    \<and> (mx < length clauses \<longrightarrow> overflow_note mx \<in> set (op_notes p))
    \<and> map ps_depends_on (op_steps p) = map (step_deps (op_steps p)) [0..<length (op_steps p)]
    \<and> (\<forall>s \<in> set (op_steps p). \<forall>a. ps_agent s = Some a \<longrightarrow>
        a \<in> set (ss_all_agent_ids summary) \<and> agent_fits u (ps_role s) (ss_agent_skills summary) a)"
proof -
  have mx: "1 \<le> mx" "mx \<le> MAX_ORCHESTRATION_STEPS_CEIL"
    using clamp_in [of 1 MAX_ORCHESTRATION_STEPS_CEIL limit] by (simp_all add: assms(3) ceilings)
  obtain ss ns where c: "plan_clauses u (sort (ss_all_agent_ids summary)) (ss_agent_skills summary) mx clauses [] [] = (ss, ns)"
    by (meson surj_pair)
  note st = plan_clauses_steps [OF c]
  let ?deps = "map (step_deps ss) [0..<length ss]"
  have p: "op_steps p = map2 (\<lambda>s ds. s\<lparr>ps_depends_on := ds\<rparr>) ss ?deps" "set ns \<subseteq> set (op_notes p)"
    using assms(1) c unfolding plan_orchestration_with_limit_def Let_def assms(2) assms(3) [symmetric] by auto
  have len: "length (op_steps p) = length ss" by (simp add: p)
  have nth: "op_steps p ! j = (ss ! j)\<lparr>ps_depends_on := step_deps ss j\<rparr>" if "j < length ss" for j
    using that by (simp add: p)
  have ss: "ss = map (plan_step u (sort (ss_all_agent_ids summary)) (ss_agent_skills summary)) (take mx clauses)"
    using st by simp
  have "map ps_title (op_steps p) = map ps_title ss" "map ps_role (op_steps p) = map ps_role ss"
    by (rule nth_equalityI; simp add: len nth)+
  then have "map ps_title (op_steps p) = map (title_from_clause u) (take mx clauses)"
    "map ps_role (op_steps p) = map (classify_role u) (take mx clauses)"
    by (simp_all add: ss plan_step_def Let_def o_def)
  moreover have "map ps_depends_on (op_steps p) = map (step_deps (op_steps p)) [0..<length (op_steps p)]"
    by (rule nth_equalityI) (auto simp: len nth step_deps_def intro!: filter_cong)
  moreover have "a \<in> set (ss_all_agent_ids summary) \<and> agent_fits u (ps_role s) (ss_agent_skills summary) a"
    if s: "s \<in> set (op_steps p)" "ps_agent s = Some a" for s a
  proof -
    obtain j where j: "j < length ss" "s = op_steps p ! j" using s(1) by (auto simp: in_set_conv_nth len)
    then have "ps_agent (ss ! j) = Some a" "ps_role s = ps_role (ss ! j)" using s(2) by (simp_all add: nth)
    then have "match_agent_for_role u (ps_role s) (sort (ss_all_agent_ids summary)) (ss_agent_skills summary) = Some a"
      using j(1) by (simp add: ss plan_step_def Let_def)
    from match_agent_fits [OF this] show ?thesis by simp
  qed
  ultimately show ?thesis using mx st p(2) by auto
qed


section \<open>Planning does not panic on ASCII\<close>

text \<open>What the standard library documents of \<open>to_lowercase\<close> on ASCII strings.\<close>

definition lowers_ascii :: "unicode \<Rightarrow> bool" where
  "lowers_ascii u \<longleftrightarrow> (\<forall>s. ascii s \<longrightarrow> to_lowercase u s = to_ascii_lowercase s)"

definition lower_char :: "nat \<Rightarrow> nat" where
  "lower_char c = (if 65 \<le> c \<and> c \<le> 90 then c + 32 else c)"

lemma to_ascii_lowercase_map: "to_ascii_lowercase s = map lower_char s"
  by (simp add: to_ascii_lowercase_def lower_char_def)

lemma ascii_same_width: "ascii s \<Longrightarrow> same_width lower_char s"
  by (auto simp: ascii_def same_width_def list_all_iff lower_char_def utf8_encode_def)

lemma split_ref_parts: "x \<in> set (split_ref f d s) \<Longrightarrow> set x \<subseteq> set s"
proof (induction f d s rule: split_ref.induct)
  case (1 f d s)
  show ?case
  proof (cases "d = [] \<or> find_at d (map f s) = None")
    case True
    with 1(2) show ?thesis by (auto simp: split_ref.simps [of f d s] split: if_splits)
  next
    case False
    then obtain i where "d \<noteq> []" "find_at d (map f s) = Some i" by auto
    with 1 show ?thesis
      by (auto simp: split_ref.simps [of f d s] dest!: in_set_takeD dest: in_set_dropD)
  qed
qed

lemma ascii_subset: "ascii s \<Longrightarrow> set x \<subseteq> set s \<Longrightarrow> ascii x"
  by (auto simp: ascii_def list_all_iff)

lemma split_ci_ascii:
  assumes "lowers_ascii u" "ascii s" "d \<in> set CLAUSE_CONNECTORS"
  shows "\<exists>ps. split_ci u s d = Some ps \<and> list_all ascii ps"
proof -
  have d: "d \<noteq> []" "ascii d" "to_ascii_lowercase d = d"
    using assms(3) by (auto simp: CLAUSE_CONNECTORS_def cps_def ascii_def to_ascii_lowercase_def)
  have "list_all scalar_value s" using assms(2) by (auto simp: ascii_def list_all_iff scalar_value_def)
  then have "split_ci u s d = Some (split_ref lower_char d s)"
    by (rule split_ci_ref)
      (use assms d in \<open>simp_all add: lowers_ascii_def to_ascii_lowercase_map ascii_same_width\<close>)
  then show ?thesis using split_ref_parts ascii_subset [OF assms(2)] by (fastforce simp: list_all_iff)
qed

lemma split_each_ascii:
  assumes "lowers_ascii u" "d \<in> set CLAUSE_CONNECTORS"
  shows "list_all ascii fs \<Longrightarrow> \<exists>ps. split_each u d fs = Some ps \<and> list_all ascii ps"
proof (induction fs)
  case (Cons f fs)
  then obtain ps where "split_each u d fs = Some ps" "list_all ascii ps" by auto
  moreover obtain qs where "split_ci u f d = Some qs" "list_all ascii qs"
    using split_ci_ascii [OF assms(1) _ assms(2)] Cons.prems by fastforce
  ultimately show ?case by simp
qed simp

lemma split_all_ascii:
  "lowers_ascii u \<Longrightarrow> set cs \<subseteq> set CLAUSE_CONNECTORS \<Longrightarrow> list_all ascii fs \<Longrightarrow> \<exists>ps. split_all u cs fs = Some ps"
proof (induction cs arbitrary: fs)
  case (Cons c cs)
  then obtain ps where "split_each u c fs = Some ps" "list_all ascii ps" using split_each_ascii [of u c fs] by auto
  with Cons show ?case by simp
qed simp

lemma set_trim: "set (trim s) \<subseteq> set s"
  unfolding trim_def trim_start_def by (metis order_trans set_dropWhileD set_rev subsetI)

lemma ascii_goal_plan:
  assumes "lowers_ascii u" "ascii goal"
  shows "\<exists>p. plan_orchestration_with_limit u goal summary limit = Some p"
proof -
  have "ascii (trim goal)" using ascii_subset [OF assms(2)] set_trim by blast
  then obtain fs where "split_all u CLAUSE_CONNECTORS [trim goal] = Some fs"
    using split_all_ascii [OF assms(1) order_refl, of "[trim goal]"] by auto
  then show ?thesis
    by (simp add: plan_orchestration_with_limit_def split_into_clauses_def Let_def split: prod.split)
qed

text \<open>A goal in ASCII is always planned, under any width and for any roster: the planner does not panic.\<close>

theorem ascii_goal_is_planned:
  assumes "lowers_ascii u" "ascii goal"
  shows "\<exists>p. plan_orchestration_with_limit u goal summary limit = Some p"
  using assms by (rule ascii_goal_plan)

section \<open>A goal of two clauses\<close>

definition plain :: unicode where
  "plain = \<lparr>u_alphabetic = (\<lambda>_. False), u_numeric = (\<lambda>_. False), to_lowercase = to_ascii_lowercase,
     char_to_uppercase = (\<lambda>c. if 97 \<le> c \<and> c \<le> 122 then [c - 32] else [c])\<rparr>"

definition crew :: state_summary where
  "crew = \<lparr>ss_plugins = 0, ss_agents = 2, ss_tasks_total = 0, ss_tasks_open = 0, ss_runs_active = 0,
     ss_tasks_waiting_approval = 0, ss_tasks_blocked = 0, ss_tasks_failed = 0, ss_pending_approvals = 0,
     ss_all_agent_ids = [cps ''prime'', cps ''scout''], ss_agent_skills = [], ss_all_task_ids = [],
     ss_available_adapter_ids = [], ss_queued = [], ss_recent = []\<rparr>"

lemma plain_lowers: "lowers_ascii plain" "to_lowercase plain = to_ascii_lowercase"
  by (simp_all add: lowers_ascii_def plain_def)

lemma goal_ascii: "ascii (cps ''Survey it, build it'')"
  by (simp add: ascii_def cps_def)

lemma ascii_goal_is_planned_witness:
  "\<exists>p. plan_orchestration_with_limit plain (cps ''Survey it, build it'') crew 16 = Some p"
  by (rule ascii_goal_is_planned [OF plain_lowers(1) goal_ascii])

lemma split_ci_splits_witness:
  "split_ci plain (cps ''A, b'') (cps '', '') = Some [cps ''A'', cps ''b'']"
proof -
  have "split_ci plain (cps ''A, b'') (cps '', '') = Some (split_ref lower_char (cps '', '') (cps ''A, b''))"
    by (rule split_ci_splits)
      (simp_all add: plain_lowers cps_def scalar_value_def to_ascii_lowercase_map lower_char_def same_width_def
        utf8_encode_def ascii_def)
  then show ?thesis by (simp add: cps_def split_ref.simps lower_char_def is_prefix_def)
qed

lemma goal_clauses: "split_into_clauses plain (trim (cps ''Survey it, build it'')) = Some [cps ''Survey it'', cps ''build it'']"
proof -
  have t: "trim (cps ''Survey it, build it'') = cps ''Survey it, build it''"
    by (simp add: trim_def trim_start_def ascii_simps)
  have "split_ci plain (cps ''Survey it, build it'') (cps '', '') = Some [cps ''Survey it'', cps ''build it'']"
    by (simp add: split_simps plain_lowers to_ascii_lowercase_def)
  then show ?thesis
    unfolding t
    by (simp add: turkish_simps plain_lowers to_ascii_lowercase_def clean_fragment_def trim_def trim_start_def
        trim_matches_def is_whitespace_def is_alphanumeric_def is_alphabetic_def is_numeric_def ucd.defs
        is_ascii_alpha_def)
qed

lemma titles:
  "title_from_clause plain (cps ''Survey it'') = cps ''Survey it''" "title_from_clause plain (cps ''build it'') = cps ''Build it''"
  by (simp_all add: title_from_clause_def trim_def trim_start_def ascii_simps plain_def)

lemma roles:
  "classify_role plain (cps ''Survey it'') = Research" "classify_role plain (cps ''build it'') = Implementation"
  unfolding classify_role_def Let_def plain_lowers to_ascii_lowercase_def
  by (simp_all add: cps_def is_prefix_def)

lemma plan_shape_witness:
  "\<exists>p. plan_orchestration_with_limit plain (cps ''Survey it, build it'') crew 16 = Some p
    \<and> map ps_title (op_steps p) = [cps ''Survey it'', cps ''Build it'']
    \<and> map ps_role (op_steps p) = [Research, Implementation]
    \<and> map ps_depends_on (op_steps p) = [[], [0]]"
proof -
  obtain p where p: "plan_orchestration_with_limit plain (cps ''Survey it, build it'') crew 16 = Some p"
    using ascii_goal_plan [OF plain_lowers(1) goal_ascii] by blast
  have m: "clamp 1 MAX_ORCHESTRATION_STEPS_CEIL (16 :: nat) = 16" by (simp add: clamp_def ceilings)
  note sh = plan_shape [OF p goal_clauses m [symmetric]]
  have "map ps_title (op_steps p) = map (title_from_clause plain) (take 16 [cps ''Survey it'', cps ''build it''])"
    using sh by blast
  then have t: "map ps_title (op_steps p) = [cps ''Survey it'', cps ''Build it'']" by (simp add: titles)
  have "map ps_role (op_steps p) = map (classify_role plain) (take 16 [cps ''Survey it'', cps ''build it''])"
    using sh by blast
  then have r: "map ps_role (op_steps p) = [Research, Implementation]" by (simp add: roles)
  have d: "map ps_depends_on (op_steps p) = map (step_deps (op_steps p)) [0..<length (op_steps p)]"
    using sh by blast
  from r obtain s0 s1 where s: "op_steps p = [s0, s1]" "ps_role s0 = Research" "ps_role s1 = Implementation"
    by (auto simp: map_eq_Cons_conv)
  have e: "step_deps (op_steps p) 0 = []" "step_deps (op_steps p) 1 = [0]"
    unfolding s(1) step_deps_def using s(2,3) by simp_all
  have n: "[0..<length (op_steps p)] = [0, 1]" unfolding s(1) by simp
  have "map ps_depends_on (op_steps p) = [[], [0]]"
    by (rule trans [OF d]) (simp only: n e list.map)
  with p t r show ?thesis by (intro exI [of _ p] conjI)
qed

end
