(* ===== verification/Relux_Jobs.thy ===== *)
theory Relux_Jobs
  imports Relux_Batch
begin

text \<open>
  Background jobs (\<open>relux-kernel/src/server.rs\<close>): the registry of the jobs that run orchestrations, and
  the worker that drives one of them, round after round. A worker holds the lock of the kernel while it
  prepares a round and while it writes the round back, not while the processes run; each of its steps here
  is what it does between two points where others can get in. Display data that the code reads with a
  further lock of its own is read here with the step before it.
\<close>

section \<open>Jobs\<close>

datatype job_state = JQueued | JRunning | JCompleted | JFailed | JCanceled | JInterrupted

fun job_state_label :: "job_state \<Rightarrow> ustr" where
  "job_state_label JQueued = cps ''queued''"
| "job_state_label JRunning = cps ''running''"
| "job_state_label JCompleted = cps ''completed''"
| "job_state_label JFailed = cps ''failed''"
| "job_state_label JCanceled = cps ''canceled''"
| "job_state_label JInterrupted = cps ''interrupted''"

record job_step_status =
  js_task :: ustr
  js_agent :: ustr
  js_title :: ustr
  js_outcome :: ustr
  js_round :: "nat option"
  js_note :: "ustr option"

record job =
  j_id :: ustr
  j_orchestration :: ustr
  j_state :: job_state
  j_max :: nat
  j_concurrency :: nat
  j_current_round :: nat
  j_ran :: nat
  j_completed :: nat
  j_failed :: nat
  j_blocked :: nat
  j_started_at_ms :: "nat option"
  j_completed_at_ms :: "nat option"
  j_last_event :: "ustr option"
  j_error :: "ustr option"
  j_cancel_requested :: bool
  j_steps :: "job_step_status list"
  j_result :: "batch_result option"

definition active :: "job \<Rightarrow> bool" where
  "active j \<longleftrightarrow> j_state j = JQueued \<or> j_state j = JRunning"

section \<open>The registry\<close>

record job_store =
  jobs :: "(ustr, job) hash_map"
  job_counter :: nat

datatype job_start_error = Duplicate ustr | TooManyActive nat

definition start_job ::
  "ustr \<Rightarrow> nat \<Rightarrow> nat \<Rightarrow> nat \<Rightarrow> job_store \<Rightarrow> (job_start_error + job) \<times> job_store" where
  "start_job orch mx concurrency max_active st =
     (let running = length (filter active (vals (jobs st))) in
      case List.find (\<lambda>j. j_orchestration j = orch \<and> active j) (vals (jobs st)) of
        Some existing \<Rightarrow> (Inl (Duplicate (j_id existing)), st)
      | None \<Rightarrow>
          if max_active \<le> running then (Inl (TooManyActive running), st)
          else
            let st = st\<lparr>job_counter := job_counter st + 1\<rparr>;
                i = numbered ''job_'' (job_counter st);
                j = \<lparr>j_id = i, j_orchestration = orch, j_state = JQueued, j_max = mx, j_concurrency = concurrency,
                  j_current_round = 0, j_ran = 0, j_completed = 0, j_failed = 0, j_blocked = 0,
                  j_started_at_ms = None, j_completed_at_ms = None, j_last_event = Some (cps ''queued''),
                  j_error = None, j_cancel_requested = False, j_steps = [], j_result = None\<rparr>
            in (Inr j, st\<lparr>jobs := hinsert i j (jobs st)\<rparr>))"

definition update_job :: "ustr \<Rightarrow> (job \<Rightarrow> job) \<Rightarrow> job_store \<Rightarrow> job_store" where
  "update_job i f st = st\<lparr>jobs := adjust i f (jobs st)\<rparr>"

definition get_job :: "ustr \<Rightarrow> job_store \<Rightarrow> job option" where
  "get_job i st = get (jobs st) i"

definition latest_for :: "ustr \<Rightarrow> job_store \<Rightarrow> job option" where
  "latest_for orch st = max_by (\<lambda>a b. j_id a \<le> j_id b) (filter (\<lambda>j. j_orchestration j = orch) (vals (jobs st)))"

datatype cancel_outcome = CancelRequested job | AlreadyCanceled job | AlreadyTerminal job | CancelUnknown

definition request_cancel :: "ustr \<Rightarrow> job_store \<Rightarrow> cancel_outcome \<times> job_store" where
  "request_cancel i st =
     (case get (jobs st) i of None \<Rightarrow> (CancelUnknown, st)
      | Some j \<Rightarrow>
        if active j
        then let j = j\<lparr>j_cancel_requested := True,
                   j_last_event := Some (cps ''cancel requested - will stop after the in-flight round'')\<rparr>
             in (CancelRequested j, st\<lparr>jobs := hinsert i j (jobs st)\<rparr>)
        else if j_state j = JCanceled then (AlreadyCanceled j, st)
        else (AlreadyTerminal j, st))"

definition is_cancel_requested :: "ustr \<Rightarrow> job_store \<Rightarrow> bool" where
  "is_cancel_requested i st = (case get (jobs st) i of None \<Rightarrow> False | Some j \<Rightarrow> j_cancel_requested j)"

section \<open>What a poll shows\<close>

definition job_steps :: "orchestration \<Rightarrow> ustr list \<Rightarrow> job_step_status list" where
  "job_steps orch running = map (\<lambda>s.
     \<lparr>js_task = task_text (st_task s), js_agent = agent_text (st_agent s), js_title = st_title s,
      js_outcome = (if st_outcome s = StPending \<and> task_text (st_task s) \<in> set running then cps ''running''
        else outcome_label (st_outcome s)),
      js_round = st_round s, js_note = st_note s\<rparr>) (o_steps orch)"

text \<open>A job as the record of the orchestration alone proves it, where the registry has none.\<close>

definition reconstruct_job_from_record :: "orchestration \<Rightarrow> job option" where
  "reconstruct_job_from_record orch =
     (let count = (\<lambda>P. length (filter P (o_steps orch)));
          ran = count (\<lambda>s. st_run s \<noteq> None);
          completed = count (\<lambda>s. st_outcome s = StCompleted);
          failed = count (\<lambda>s. st_outcome s = StFailed);
          blocked = count (\<lambda>s. st_outcome s = StBlocked);
          pending = count (\<lambda>s. st_outcome s = StPending);
          state = (if pending = 0 then JCompleted else JInterrupted) in
      if ran = 0 then None
      else Some \<lparr>j_id = cps ''durable:'' @ orchestration_text (o_id orch),
        j_orchestration = orchestration_text (o_id orch), j_state = state, j_max = length (o_steps orch),
        j_concurrency = 1, j_current_round = fold max (List.map_filter st_round (o_steps orch)) 0, j_ran = ran,
        j_completed = completed, j_failed = failed, j_blocked = blocked, j_started_at_ms = None,
        j_completed_at_ms = None,
        j_last_event = Some (if state = JCompleted
          then cps ''reconstructed from the durable record: all '' @ nat_text (length (o_steps orch))
            @ cps '' brief(s) reached a terminal outcome ('' @ nat_text completed @ cps '' completed, ''
            @ nat_text failed @ cps '' failed, '' @ nat_text blocked @ cps '' blocked)''
          else cps ''no live worker for this orchestration (the previous run finished, was canceled, or was lost to a server restart). ''
            @ nat_text completed @ cps '' brief(s) completed durably; '' @ nat_text pending
            @ cps '' pending '' @ [8212] @ cps '' start a new run to resume''),
        j_error = None, j_cancel_requested = False, j_steps = job_steps orch [], j_result = None\<rparr>)"

definition latest_orchestration_job :: "ustr \<Rightarrow> kernel \<times> job_store \<Rightarrow> job option" where
  "latest_orchestration_job i s =
     (case latest_for i (snd s) of Some j \<Rightarrow> Some j
      | None \<Rightarrow> (case get (orchestrations (fst s)) (OrchestrationId i) of None \<Rightarrow> None
          | Some orch \<Rightarrow> reconstruct_job_from_record orch))"

section \<open>The result over all rounds\<close>

record job_aggregate =
  ja_ran :: nat
  ja_completed :: nat
  ja_failed :: nat
  ja_blocked :: nat
  ja_dependency_blocked :: nat
  ja_rounds :: nat
  ja_per_agent :: "ustr list"
  ja_skipped_reasons :: "ustr list"
  ja_last :: "batch_result option"

definition no_aggregate :: job_aggregate where
  "no_aggregate = \<lparr>ja_ran = 0, ja_completed = 0, ja_failed = 0, ja_blocked = 0, ja_dependency_blocked = 0,
     ja_rounds = 0, ja_per_agent = [], ja_skipped_reasons = [], ja_last = None\<rparr>"

definition merge_round :: "batch_result \<Rightarrow> job_aggregate \<Rightarrow> job_aggregate" where
  "merge_round r a = \<lparr>ja_ran = ja_ran a + br_ran r, ja_completed = ja_completed a + br_completed r,
     ja_failed = ja_failed a + br_failed r, ja_blocked = ja_blocked a + br_blocked r,
     ja_dependency_blocked = ja_dependency_blocked a + br_dependency_blocked r, ja_rounds = ja_rounds a + br_rounds r,
     ja_per_agent = ja_per_agent a @ br_per_agent r,
     ja_skipped_reasons = ja_skipped_reasons a @ br_skipped_reasons r, ja_last = Some r\<rparr>"

definition aggregate_result :: "orchestration_id \<Rightarrow> nat \<Rightarrow> job_aggregate \<Rightarrow> batch_result" where
  "aggregate_result i concurrency a =
     (let (pending, waiting, status, next_action) = (case ja_last a of
            Some r \<Rightarrow> (br_pending r, br_waiting r, br_status r, br_next_action r)
          | None \<Rightarrow> (0, 0, OCompleted, cps ''No pending briefs to run.''));
          summary = nat_text (ja_rounds a) @ cps '' round(s) across the job, up to '' @ nat_text concurrency
            @ cps '' brief(s) at a time: '' @ nat_text (ja_ran a) @ cps '' ran ('' @ nat_text (ja_completed a)
            @ cps '' completed, '' @ nat_text (ja_failed a) @ cps '' failed, '' @ nat_text (ja_blocked a)
            @ cps '' blocked); '' @ nat_text (ja_dependency_blocked a) @ cps '' blocked by a failed dependency; ''
            @ nat_text waiting @ cps '' waiting on a dependency; '' @ nat_text pending @ cps '' pending.''
      in \<lparr>br_orchestration = i, br_ran = ja_ran a, br_completed = ja_completed a, br_failed = ja_failed a,
          br_blocked = ja_blocked a, br_pending = pending, br_concurrency = concurrency, br_rounds = ja_rounds a,
          br_waiting = waiting, br_dependency_blocked = ja_dependency_blocked a,
          br_skipped_reasons = ja_skipped_reasons a, br_per_agent = ja_per_agent a, br_summary = summary,
          br_next_action = next_action, br_status = status\<rparr>)"

section \<open>The worker of a job\<close>

datatype phase = Spawned | LoopHead | InFlight batch_result "prepared_brief list"

record worker =
  wk_job :: ustr
  wk_orch :: orchestration_id
  wk_max :: nat
  wk_concurrency :: nat
  wk_total :: nat
  wk_round :: nat
  wk_agg :: job_aggregate
  wk_phase :: phase

definition new_worker :: "ustr \<Rightarrow> orchestration_id \<Rightarrow> nat \<Rightarrow> nat \<Rightarrow> worker" where
  "new_worker j i mx concurrency = \<lparr>wk_job = j, wk_orch = i, wk_max = mx, wk_concurrency = concurrency,
     wk_total = 0, wk_round = 0, wk_agg = no_aggregate, wk_phase = Spawned\<rparr>"

definition steps_shown :: "orchestration_id \<Rightarrow> ustr list \<Rightarrow> kernel \<Rightarrow> job \<Rightarrow> job" where
  "steps_shown i running k j =
     (case get (orchestrations k) i of None \<Rightarrow> j | Some orch \<Rightarrow> j\<lparr>j_steps := job_steps orch running\<rparr>)"

definition begin_job :: "nat \<Rightarrow> job \<Rightarrow> job" where
  "begin_job ms j = j\<lparr>j_state := JRunning,
     j_started_at_ms := (case j_started_at_ms j of None \<Rightarrow> Some ms | Some t \<Rightarrow> Some t),
     j_last_event := Some (cps ''running'')\<rparr>"

definition fail_job :: "nat \<Rightarrow> kernel_error \<Rightarrow> job \<Rightarrow> job" where
  "fail_job ms e j = j\<lparr>j_state := JFailed, j_error := Some (error_text e), j_completed_at_ms := Some ms,
     j_last_event := Some (cps ''failed'')\<rparr>"

definition end_job :: "nat \<Rightarrow> bool \<Rightarrow> worker \<Rightarrow> kernel \<Rightarrow> job \<Rightarrow> job" where
  "end_job ms canceled wk k j =
     (let res = aggregate_result (wk_orch wk) (wk_concurrency wk) (wk_agg wk);
          j = steps_shown (wk_orch wk) [] k (j\<lparr>j_state := (if canceled then JCanceled else JCompleted), j_completed_at_ms := Some ms\<rparr>)
      in j\<lparr>j_last_event := Some (if canceled
            then cps ''canceled after '' @ nat_text (ja_rounds (wk_agg wk))
              @ cps '' round(s); any in-flight briefs finished and the remaining briefs were left pending for a human to resume or retire''
            else br_summary res),
          j_result := Some res\<rparr>)"

definition show_round :: "worker \<Rightarrow> batch_result \<Rightarrow> kernel \<Rightarrow> job \<Rightarrow> job" where
  "show_round wk r k j =
     (let agg = merge_round r (wk_agg wk);
          j = steps_shown (wk_orch wk) [] k (j\<lparr>j_current_round := j_current_round j + br_rounds r, j_ran := ja_ran agg,
            j_completed := ja_completed agg, j_failed := ja_failed agg, j_blocked := ja_blocked agg\<rparr>)
      in j\<lparr>j_last_event := Some (br_summary r)\<rparr>)"

definition show_in_flight :: "worker \<Rightarrow> prepared_brief list \<Rightarrow> kernel \<Rightarrow> job \<Rightarrow> job" where
  "show_in_flight wk ps k j =
     (if ps = [] then j
      else (steps_shown (wk_orch wk) (map (\<lambda>p. task_text (pl_task (pb_plan p))) ps) k j)
        \<lparr>j_last_event := Some (cps ''round '' @ nat_text (wk_round wk) @ cps '': '' @ nat_text (length ps)
           @ cps '' brief(s) running in parallel (cap '' @ nat_text (wk_concurrency wk) @ cps '')'')\<rparr>)"

definition prepare_locked ::
  "world \<Rightarrow> orchestration_id \<Rightarrow> nat \<Rightarrow> nat \<Rightarrow> nat \<Rightarrow> kernel \<Rightarrow> (batch_result \<times> prepared_brief list) result" where
  "prepare_locked w i budget concurrency n k =
     (case new_orchestration_batch_result i concurrency k of Inl e \<Rightarrow> (Inl e, k)
      | Inr res \<Rightarrow> (case prepare_orchestration_round w i budget concurrency n res k of
          (prep, res, k) \<Rightarrow> (Inr (res, rp_prepared prep), k)))"

definition finish_locked ::
  "world \<Rightarrow> orchestration_id \<Rightarrow> finished_brief list \<Rightarrow> batch_result \<Rightarrow> kernel \<Rightarrow> batch_result result" where
  "finish_locked w i fs res k =
     (case finalize_briefs w i fs res k of (res, k) \<Rightarrow> finalize_orchestration_batch i (res\<lparr>br_rounds := 1\<rparr>) k)"

text \<open>
  One step of a worker, at the time \<open>ms\<close>; the processes of the round ran at \<open>now\<close>. The worker that is
  left, if any, and the kernel and the registry after it.
\<close>

definition job_budget :: "worker \<Rightarrow> nat" where
  "job_budget wk = max (min (clamp 1 4 (wk_concurrency wk)) (wk_max wk - wk_total wk)) 1"

definition worker_head :: "world \<Rightarrow> nat \<Rightarrow> worker \<Rightarrow> kernel \<times> job_store \<Rightarrow> worker option \<times> kernel \<times> job_store" where
  "worker_head w ms wk s =
     (case s of (k, st) \<Rightarrow>
      if is_cancel_requested (wk_job wk) st then (None, k, update_job (wk_job wk) (end_job ms True wk k) st)
      else if wk_max wk \<le> wk_total wk then (None, k, update_job (wk_job wk) (end_job ms False wk k) st)
      else
        let budget = job_budget wk; wk = wk\<lparr>wk_round := wk_round wk + 1\<rparr> in
        case prepare_locked w (wk_orch wk) budget (wk_concurrency wk) (wk_round wk) k of
          (Inl e, k) \<Rightarrow> (None, k, update_job (wk_job wk) (fail_job ms e) st)
        | (Inr (res, ps), k) \<Rightarrow>
            (Some (wk\<lparr>wk_phase := InFlight res ps\<rparr>), k, update_job (wk_job wk) (show_in_flight wk ps k) st))"

definition worker_finish ::
  "world \<Rightarrow> nat \<Rightarrow> nat \<Rightarrow> batch_result \<Rightarrow> prepared_brief list \<Rightarrow> worker \<Rightarrow> kernel \<times> job_store \<Rightarrow> worker option \<times> kernel \<times> job_store" where
  "worker_finish w ms now res ps wk s =
     (case s of (k, st) \<Rightarrow>
      case run_briefs_in_parallel w now ps of None \<Rightarrow> (None, k, st)
      | Some fs \<Rightarrow>
        (case finish_locked w (wk_orch wk) fs res k of
          (Inl e, k) \<Rightarrow> (None, k, update_job (wk_job wk) (fail_job ms e) st)
        | (Inr res, k) \<Rightarrow>
            let st = update_job (wk_job wk) (show_round wk res k) st;
                wk = wk\<lparr>wk_total := wk_total wk + br_ran res, wk_agg := merge_round res (wk_agg wk), wk_phase := LoopHead\<rparr> in
            if br_ran res = 0 \<or> br_status res \<noteq> ORunning
            then (None, k, update_job (wk_job wk) (end_job ms False wk k) st)
            else (Some wk, k, st)))"

definition worker_step ::
  "world \<Rightarrow> nat \<Rightarrow> nat \<Rightarrow> worker \<Rightarrow> kernel \<times> job_store \<Rightarrow> worker option \<times> kernel \<times> job_store" where
  "worker_step w ms now wk s =
     (case wk_phase wk of
        Spawned \<Rightarrow> (Some (wk\<lparr>wk_phase := LoopHead\<rparr>), fst s, update_job (wk_job wk) (begin_job ms) (snd s))
      | LoopHead \<Rightarrow> worker_head w ms wk s
      | InFlight res ps \<Rightarrow> worker_finish w ms now res ps wk s)"

section \<open>Starting a job\<close>

datatype job_refusal = NoSuchOrchestration kernel_error | NotStarted job_start_error

definition start_orchestration_job ::
  "ustr \<Rightarrow> nat option \<Rightarrow> nat option \<Rightarrow> bool \<Rightarrow> kernel \<times> job_store \<Rightarrow> (job_refusal + worker) \<times> job_store" where
  "start_orchestration_job i mx concurrency extended s =
     (case s of (k, st) \<Rightarrow>
      let mx = clamp 1 25 (given mx 25);
          concurrency = clamp 1 4 (given concurrency 2) in
      if \<not> contains_key (orchestrations k) (OrchestrationId i)
      then (Inl (NoSuchOrchestration (UnknownOrchestration i)), st)
      else case start_job i mx concurrency (active_jobs (agent_policy k) extended) st of
        (Inl e, st) \<Rightarrow> (Inl (NotStarted e), st)
      | (Inr j, st) \<Rightarrow> (Inr (new_worker (j_id j) (OrchestrationId i) mx concurrency), st))"

end
