(* ===== verification/Relux_Frame.thy ===== *)
theory Relux_Frame
  imports Relux_Batch
begin

text \<open>
  What executing a task leaves alone. A part of the state is a bystander when the basic changes that an
  execution is made of do not reach it; then no execution reaches it. The orchestrations, the agents and
  the configuration of the adapters are bystanders.
\<close>

named_theorems frame_simps \<open>what an operation leaves alone\<close>

locale bystander =
  fixes sel :: "kernel \<Rightarrow> 's"
  assumes basic [simp]:
    "sel (k\<lparr>clock := c\<rparr>) = sel k" "sel (k\<lparr>next_audit := n\<rparr>) = sel k" "sel (k\<lparr>next_event := n\<rparr>) = sel k"
    "sel (k\<lparr>next_run := n\<rparr>) = sel k" "sel (k\<lparr>next_task := n\<rparr>) = sel k"
    "sel (k\<lparr>audit_log := l\<rparr>) = sel k" "sel (k\<lparr>run_events := evs\<rparr>) = sel k"
    "sel (k\<lparr>runs := rs\<rparr>) = sel k" "sel (k\<lparr>tasks := ts\<rparr>) = sel k" "sel (k\<lparr>persistent_grants := gs\<rparr>) = sel k"
begin

lemma after_tick [simp]: "tick k = (now, j) \<Longrightarrow> sel j = sel k"
  by (auto simp: tick_def)

lemma after_audit [simp]: "sel (record_audit ty a c tt tg ns res k) = sel k"
  by (simp add: record_audit_def Let_def tick_def)

lemma after_event [simp]: "sel (push_run_event w r kd src k) = sel k"
  by (simp add: push_run_event_def Let_def tick_def)

lemma after_set_status [simp]: "sel (set_status t s now k) = sel k"
  by (simp add: set_status_def)

lemma after_try:
  assumes "sel (snd r) = sel k" "\<And>x j. r = (Inr x, j) \<Longrightarrow> sel (snd (f x j)) = sel j"
  shows "sel (snd (try_k r f)) = sel k"
  using assms by (auto simp: try_k_def split: prod.split sum.split)

lemma after_finish_task [simp]: "sel (snd (finish_task s action res t k)) = sel k"
  by (simp add: finish_task_def audit_task_def tick_def split: option.split)

lemma after_task_ops [simp]: "sel (snd (complete_task t k)) = sel k" "sel (snd (fail_task t k)) = sel k"
  by (simp_all add: complete_task_def fail_task_def)

lemma after_assign [simp]: "sel (snd (assign_task t a k)) = sel k"
  by (simp add: assign_task_def audit_task_def tick_def Let_def split: option.split)

lemma after_create_task [simp]: "sel (snd (create_task title input by ns required k)) = sel k"
  by (simp add: create_task_def create_task_with_parent_def check_parent_def tick_def Let_def)

lemma after_start_run [simp]: "sel (snd (start_run w t k)) = sel k"
  by (simp add: start_run_def tick_def Let_def split: option.split)

lemma after_end_run [simp]: "sel (snd (end_run w r f event action res k)) = sel k"
  by (simp add: end_run_def Let_def split: option.split)

lemma after_run_ops [simp]:
  "sel (snd (complete_run w r summary k)) = sel k" "sel (snd (cancel_run w r reason k)) = sel k"
  "sel (snd (fail_run_classified w r error class k)) = sel k" "sel (snd (fail_run w r error k)) = sel k"
  by (simp_all add: complete_run_def cancel_run_def fail_run_def fail_run_classified_def tick_def Let_def)

lemma after_grant_use [simp]: "sel (record_persistent_grant_use g a ns k) = sel k"
  by (simp add: record_persistent_grant_use_def Let_def tick_def)

lemma after_with_permission:
  assumes "\<And>j. sel (on_denied j) = sel j" "\<And>ns required. sel (snd (body ns required k)) = sel k"
  shows "sel (snd (with_permission ty actor a p tool on_denied body k)) = sel k"
  using assms by (auto simp: with_permission_def audit_tool_def split: sum.split)

lemma after_gated:
  assumes "\<And>kind src j. sel (event kind src j) = sel j"
  shows "sel (snd (gated_execution w a p tool input event ns required k)) = sel k"
  using assms by (auto simp: gated_execution_def audit_tool_def Let_def split: option.splits sum.splits)

lemma after_call_tool [simp]: "sel (snd (call_tool w r a p tool input k)) = sel k"
  unfolding call_tool_def by (intro after_with_permission after_gated) (simp_all add: run_tool_event_def)

lemma after_tool_steps [simp]: "sel (snd (run_tool_steps w r a i n ss k)) = sel k"
proof (induction ss arbitrary: i k)
  case (Cons s ss)
  obtain x j where c: "call_tool w r a (PluginId (tc_plugin s)) (tc_tool s) (tc_args s) k = (x, j)" by fastforce
  have "sel j = sel k" using after_call_tool [of w r a "PluginId (tc_plugin s)" "tc_tool s" "tc_args s" k] by (simp only: c snd_conv)
  with Cons.IH [of "i + 1" j] show ?case by (auto simp: c Let_def split: sum.split prod.split)
qed simp

lemma after_finish_both [simp]: "sel (snd (finish_both w r t summary k)) = sel k"
  unfolding finish_both_def by (intro after_try) simp_all

lemma after_fail_both [simp]: "sel (fail_both w r t reason k) = sel k"
  by (simp add: fail_both_def)

lemma after_refuse [simp]: "sel (snd (refuse_local w r t a k)) = sel k"
  unfolding refuse_local_def by (intro after_try) (simp_all add: tick_def Let_def)

lemma after_execute_local [simp]: "sel (snd (execute_local_run w t k)) = sel k"
proof -
  have "sel j = sel k" if "call_tool w r a p tool input k = (x, j)" for r a p tool input x j
    using after_call_tool [of w r a p tool input k] that by simp
  moreover have "sel j = sel k" if "run_tool_steps w r a i n ss k = (x, j)" for r a i n ss x j
    using after_tool_steps [of w r a i n ss k] that by simp
  ultimately show ?thesis
    unfolding execute_local_run_def
    by (auto split: option.split sum.split prod.split intro!: after_try)
qed

lemma after_fail_cli [simp]: "sel (fail_cli_run w r t ns adapter reason class k) = sel k"
  by (simp add: fail_cli_run_def Let_def)

lemma after_cancel_cli [simp]: "sel (cancel_cli_run w r t ns adapter reason k) = sel k"
  by (simp add: cancel_cli_run_def Let_def)

lemma after_metrics [simp]: "sel (set_run_metrics r ms k) = sel k"
  by (simp add: set_run_metrics_def)

lemma after_session [simp]: "sel (set_run_session r sid kind k) = sel k"
  by (simp add: set_run_session_def split: option.split)

lemma after_prepare_cli [simp]: "sel (snd (prepare_cli_run w t adapter k)) = sel k"
  by (simp add: prepare_cli_run_def Let_def split: option.split)

lemma after_finalize_cli [simp]: "sel (snd (finalize_cli_run w plan outcome k)) = sel k"
  by (auto simp: finalize_cli_run_def Let_def split: sum.split intro!: after_try)

lemma after_execute_cli [simp]: "sel (snd (execute_cli_run w t adapter k)) = sel k"
  unfolding execute_cli_run_def by (intro after_try) simp_all

lemma after_redirect [simp]: "sel (redirect_run w t adapter k) = sel k"
  by (simp add: redirect_run_def split: option.split)

lemma after_dispatch [simp]: "sel (snd (dispatch w a t k)) = sel k"
  by (simp add: dispatch_def Let_def split: prod.split)

lemma after_execute_assigned [simp]: "sel (snd (execute_assigned_run w t k)) = sel k"
  by (auto simp: execute_assigned_run_def split: option.split intro!: after_try)

lemma after_attempt_started [simp]: "sel (snd (attempt_started w t adapter k)) = sel k"
proof -
  have "sel j = sel k" if "execute_assigned_run w t k = (x, j)" for x j
    using after_execute_assigned [of w t k] that by simp
  moreover have "sel j = sel k" if "execute_local_run w t k = (x, j)" for x j
    using after_execute_local [of w t k] that by simp
  moreover have "sel j = sel k" if "prepare_cli_run w t p k = (x, j)" for p x j
    using after_prepare_cli [of w t p k] that by simp
  ultimately show ?thesis
    unfolding attempt_started_def by (auto split: option.split prod.split sum.split)
qed

lemma after_attempt [simp]: "sel (snd (attempt_brief w t a k)) = sel k"
proof -
  have "sel j = sel k" if "start_run w t k = (x, j)" for x j
    using after_start_run [of w t k] that by simp
  then show ?thesis unfolding attempt_brief_def by (auto simp: Let_def split: prod.split sum.split)
qed

end

interpretation orchestrations: bystander orchestrations by unfold_locales simp_all
interpretation agents: bystander agents by unfold_locales simp_all
interpretation adapter_configs: bystander adapter_runtime_configs by unfold_locales simp_all

lemmas [frame_simps] =
  orchestrations.after_attempt orchestrations.after_finalize_cli orchestrations.after_audit
  agents.after_attempt agents.after_finalize_cli agents.after_audit agents.after_create_task agents.after_assign
  adapter_configs.after_attempt adapter_configs.after_finalize_cli adapter_configs.after_audit

end
