(* ===== verification/Relux_Batch_Props.thy ===== *)
theory Relux_Batch_Props
  imports Relux_Frame
begin

text \<open>
  What a batch does to an orchestration: a settled brief is never touched again, a brief is started only
  when all it depends on is completed, what can no longer run is blocked and nothing else, the budget
  holds, and with enough of it nothing stays pending.
\<close>

section \<open>One step after another\<close>

abbreviation pending :: "orchestration_step \<Rightarrow> bool" where
  "pending s \<equiv> st_outcome s = StPending"

definition same_brief :: "orchestration_step \<Rightarrow> orchestration_step \<Rightarrow> bool" where
  "same_brief s s' \<longleftrightarrow> st_task s' = st_task s \<and> st_agent s' = st_agent s \<and> st_role s' = st_role s
     \<and> st_title s' = st_title s \<and> st_depends_on s' = st_depends_on s"

definition step_evolves :: "orchestration_step \<Rightarrow> orchestration_step \<Rightarrow> bool" where
  "step_evolves s s' \<longleftrightarrow> same_brief s s' \<and> (\<not> pending s \<longrightarrow> s' = s)"

abbreviation steps_evolve :: "orchestration_step list \<Rightarrow> orchestration_step list \<Rightarrow> bool" where
  "steps_evolve \<equiv> list_all2 step_evolves"

lemma step_evolves_refl [simp]: "step_evolves s s"
  by (simp add: step_evolves_def same_brief_def)

lemma step_evolves_trans: "step_evolves s t \<Longrightarrow> step_evolves t u \<Longrightarrow> step_evolves s u"
  by (auto simp: step_evolves_def same_brief_def)

lemma steps_evolve_refl [simp]: "steps_evolve ss ss"
  by (simp add: list.rel_refl)

lemma steps_evolve_trans: "steps_evolve a b \<Longrightarrow> steps_evolve b c \<Longrightarrow> steps_evolve a c"
  by (rule list_all2_trans [OF step_evolves_trans])

lemma steps_evolve_nth:
  "steps_evolve ss ss' \<longleftrightarrow> length ss' = length ss \<and> (\<forall>j < length ss. step_evolves (ss ! j) (ss' ! j))"
  by (auto simp: list_all2_conv_all_nth)

lemma steps_evolve_update: "step_evolves (ss ! j) s \<Longrightarrow> steps_evolve ss (ss[j := s])"
  by (cases "j < length ss") (auto simp: steps_evolve_nth nth_list_update)

lemma steps_evolve_settled: "steps_evolve ss ss' \<Longrightarrow> j < length ss \<Longrightarrow> \<not> pending (ss ! j) \<Longrightarrow> ss' ! j = ss ! j"
  by (auto simp: steps_evolve_nth step_evolves_def)

lemma outcome_at_settled:
  "steps_evolve ss ss' \<Longrightarrow> outcome_at ss j = Some r \<Longrightarrow> r \<noteq> StPending \<Longrightarrow> outcome_at ss' j = Some r"
  using steps_evolve_settled [of ss ss' j] by (auto simp: outcome_at_def steps_evolve_nth split: if_splits)

lemma fallen_mono: "steps_evolve ss ss' \<Longrightarrow> fallen ss j \<Longrightarrow> fallen ss' j"
  using outcome_at_settled by (fastforce simp: fallen_def)

section \<open>Blocking\<close>

definition blocked_form :: "orchestration_step \<Rightarrow> orchestration_step \<Rightarrow> bool" where
  "blocked_form s s' \<longleftrightarrow> pending s \<and> (\<exists>r. s' = s\<lparr>st_outcome := StBlocked, st_note := Some r\<rparr>)"

definition has_fallen :: "orchestration_step list \<Rightarrow> orchestration_step \<Rightarrow> bool" where
  "has_fallen ss s \<longleftrightarrow> list_ex (fallen ss) (st_depends_on s)"

lemma has_fallen_mono: "steps_evolve ss ss' \<Longrightarrow> has_fallen ss s \<Longrightarrow> has_fallen ss' s"
  by (auto simp: has_fallen_def list_ex_iff dest: fallen_mono)

lemma found: "List.find P xs = Some x \<Longrightarrow> x \<in> set xs \<and> P x"
  by (auto simp: find_Some_iff)

lemma block_updates_has_fallen: "(j, r) \<in> set (block_updates ss) \<Longrightarrow> has_fallen ss (ss ! j)"
  by (auto simp: in_block_updates block_update_def has_fallen_def list_ex_iff split: if_splits dest: found)

lemma block_updates_none:
  assumes "block_updates ss = []" "j < length ss" "pending (ss ! j)"
  shows "\<not> has_fallen ss (ss ! j)"
proof -
  have "List.find (fallen ss) (st_depends_on (ss ! j)) = None"
  proof (rule ccontr)
    assume "List.find (fallen ss) (st_depends_on (ss ! j)) \<noteq> None"
    then obtain r where "block_update ss j = Some (j, r)" using assms(3) by (auto simp: block_update_def)
    then show False using assms(1,2) in_block_updates [of j r ss] by simp
  qed
  then show ?thesis by (simp add: has_fallen_def list_ex_iff find_None_iff)
qed

lemma blocked_form_evolves: "blocked_form s s' \<Longrightarrow> step_evolves s s'"
  by (auto simp: blocked_form_def step_evolves_def same_brief_def)

text \<open>A change of the steps that only blocks steps of which \<open>P\<close> holds.\<close>

definition blocks :: "(nat \<Rightarrow> bool) \<Rightarrow> orchestration_step list \<Rightarrow> orchestration_step list \<Rightarrow> bool" where
  "blocks P ss ss' \<longleftrightarrow> length ss' = length ss
     \<and> (\<forall>j < length ss. ss' ! j = ss ! j \<or> P j \<and> blocked_form (ss ! j) (ss' ! j))"

lemma blocks_evolve: "blocks P ss ss' \<Longrightarrow> steps_evolve ss ss'"
  unfolding steps_evolve_nth blocks_def using blocked_form_evolves step_evolves_refl by metis

lemma blocks_refl [simp]: "blocks P ss ss"
  by (simp add: blocks_def)

lemma blocks_trans: "blocks P a b \<Longrightarrow> blocks P b c \<Longrightarrow> blocks P a c"
  unfolding blocks_def blocked_form_def by (metis orchestration_step.select_convs(5) orchestration_step.surjective
      orchestration_step.update_convs(5) orchestration_step.update_convs(8) step_outcome.distinct(5))

lemma blocks_mono: "blocks P a b \<Longrightarrow> (\<And>j. j < length a \<Longrightarrow> P j \<Longrightarrow> Q j) \<Longrightarrow> blocks Q a b"
  unfolding blocks_def by blast

lemma block_step_blocks: "block_step (j, r) (n, ss) = (n', ss') \<Longrightarrow> blocks (\<lambda>i. i = j) ss ss'"
  by (auto simp: block_step_def blocks_def blocked_form_def nth_list_update split: if_splits)

lemma block_steps_blocks: "fold block_step us (n, ss) = (n', ss') \<Longrightarrow> blocks (\<lambda>j. j \<in> fst ` set us) ss ss'"
proof (induction us arbitrary: n ss)
  case (Cons u us)
  obtain j r where u: "u = (j, r)" by fastforce
  obtain m rs where b: "block_step (j, r) (n, ss) = (m, rs)" by fastforce
  have "blocks (\<lambda>i. i \<in> fst ` set (u # us)) ss rs"
    by (rule blocks_mono [OF block_step_blocks [OF b]]) (simp add: u)
  moreover have "blocks (\<lambda>i. i \<in> fst ` set (u # us)) rs ss'"
    by (rule blocks_mono [OF Cons.IH]) (use Cons.prems b u in auto)
  ultimately show ?case by (rule blocks_trans)
qed simp


lemma propagate_blocks:
  "propagate n ss = (n', ss') \<Longrightarrow>
    blocks (\<lambda>j. has_fallen ss' (ss' ! j)) ss ss' \<and> block_updates ss' = [] \<and> n' + pending_count ss' = n + pending_count ss"
proof (induction n ss rule: propagate.induct)
  case (1 n ss)
  show ?case
  proof (cases "block_updates ss = []")
    case True
    with "1.prems" show ?thesis by (simp add: propagate.simps [of n ss])
  next
    case False
    obtain m rs where f: "fold block_step (block_updates ss) (0, ss) = (m, rs)" by fastforce
    have p: "propagate (n + m) rs = (n', ss')" using "1.prems" False f by (simp add: propagate.simps [of n ss])
    note ih = "1.IH" [OF False f [symmetric] p]
    have up: "blocks (\<lambda>j. j \<in> fst ` set (block_updates ss)) ss rs" by (rule block_steps_blocks [OF f])
    have ev: "steps_evolve ss rs" "steps_evolve rs ss'" using blocks_evolve [OF up] blocks_evolve ih by blast+
    have "blocks (\<lambda>j. has_fallen ss' (ss' ! j)) ss rs"
    proof (rule blocks_mono [OF up])
      fix j assume j: "j < length ss" "j \<in> fst ` set (block_updates ss)"
      then have "has_fallen ss (ss ! j)" using block_updates_has_fallen by force
      then have "has_fallen ss' (ss ! j)" using has_fallen_mono steps_evolve_trans [OF ev] by blast
      moreover have "st_depends_on (ss' ! j) = st_depends_on (ss ! j)"
        using steps_evolve_trans [OF ev] j(1) by (auto simp: steps_evolve_nth step_evolves_def same_brief_def)
      ultimately show "has_fallen ss' (ss' ! j)" by (simp add: has_fallen_def)
    qed
    moreover have "n' + pending_count ss' = n + pending_count ss"
      using ih block_steps_count [OF f] by simp
    ultimately show ?thesis using ih blocks_trans by blast
  qed
qed

text \<open>Blocking settles: afterwards a brief that was pending is blocked exactly if something it depends on has
  failed or is blocked, otherwise it is as it was; no other brief changes; and what is counted is how many
  briefs are no longer pending.\<close>

theorem propagate_exact:
  assumes "propagate 0 ss = (n, ss')" "j < length ss"
  shows "(if st_outcome (ss ! j) = StPending \<and> list_ex (fallen ss') (st_depends_on (ss ! j))
      then \<exists>r. ss' ! j = (ss ! j)\<lparr>st_outcome := StBlocked, st_note := Some r\<rparr>
      else ss' ! j = ss ! j) \<and> length ss' = length ss \<and> n + pending_count ss' = pending_count ss"
proof -
  note p = propagate_blocks [OF assms(1)]
  then have b: "ss' ! j = ss ! j \<or> has_fallen ss' (ss' ! j) \<and> blocked_form (ss ! j) (ss' ! j)" "length ss' = length ss"
    using assms(2) by (auto simp: blocks_def)
  have "\<not> has_fallen ss' (ss ! j)" if "ss' ! j = ss ! j" "pending (ss ! j)"
    using block_updates_none [of ss' j] p b(2) assms(2) that by simp
  with p b show ?thesis by (auto simp: has_fallen_def blocked_form_def)
qed


section \<open>Attempts\<close>

lemma known_on_steps [simp]: "contains_key (orchestrations (on_steps i f k)) i' = contains_key (orchestrations k) i'"
  by (simp add: on_steps_def)

lemma steps_of_on_steps [simp]: "contains_key (orchestrations k) i \<Longrightarrow> steps_of i (on_steps i f k) = f (steps_of i k)"
  by (auto simp: steps_of_def on_steps_def contains_key_iff)

lemma others_on_steps [simp]: "i' \<noteq> i \<Longrightarrow> get (orchestrations (on_steps i f k)) i' = get (orchestrations k) i'"
  by (simp add: on_steps_def)

lemma steps_of_cong: "orchestrations k' = orchestrations k \<Longrightarrow> steps_of i k' = steps_of i k"
  by (simp add: steps_of_def)

lemma orchestrations_tick [simp]: "tick k = (now, j) \<Longrightarrow> orchestrations j = orchestrations k"
  by (rule orchestrations.after_tick)

lemma orchestrations_attempt: "attempt_brief w t a k = (x, j) \<Longrightarrow> orchestrations j = orchestrations k"
  using orchestrations.after_attempt [of w t a k] by simp

lemma orchestrations_finalize_cli: "finalize_cli_run w p out k = (x, j) \<Longrightarrow> orchestrations j = orchestrations k"
  using orchestrations.after_finalize_cli [of w p out k] by simp

text \<open>Steps \<open>js\<close> have been attempted in round \<open>n\<close>; those at \<open>open\<close> are still pending.\<close>

definition attempted ::
  "nat \<Rightarrow> nat set \<Rightarrow> nat set \<Rightarrow> orchestration_step list \<Rightarrow> orchestration_step list \<Rightarrow> bool" where
  "attempted n js open_js ss ss' \<longleftrightarrow> length ss' = length ss \<and> open_js \<subseteq> js
     \<and> (\<forall>j < length ss. if j \<in> js
          then step_evolves (ss ! j) (ss' ! j) \<and> st_round (ss' ! j) = Some n \<and> (pending (ss' ! j) \<longleftrightarrow> j \<in> open_js)
          else ss' ! j = ss ! j)"

lemma attempted_none [simp]: "attempted n {} {} ss ss"
  by (simp add: attempted_def)

lemma attempted_trans:
  assumes "attempted n js os a b" "attempted n js' os' b c" "js \<inter> js' = {}"
  shows "attempted n (js \<union> js') (os \<union> os') a c"
  unfolding attempted_def
proof (intro conjI allI impI)
  show "length c = length a" "os \<union> os' \<subseteq> js \<union> js'" using assms by (auto simp: attempted_def)
  fix j assume j: "j < length a"
  then have jb: "j < length b" using assms(1) by (simp add: attempted_def)
  have a: "if j \<in> js then step_evolves (a ! j) (b ! j) \<and> st_round (b ! j) = Some n \<and> (pending (b ! j) \<longleftrightarrow> j \<in> os)
      else b ! j = a ! j" "j \<in> os \<longrightarrow> j \<in> js"
    using assms(1) j by (auto simp: attempted_def)
  have b: "if j \<in> js' then step_evolves (b ! j) (c ! j) \<and> st_round (c ! j) = Some n \<and> (pending (c ! j) \<longleftrightarrow> j \<in> os')
      else c ! j = b ! j" "j \<in> os' \<longrightarrow> j \<in> js'"
    using assms(2) jb by (auto simp: attempted_def)
  show "if j \<in> js \<union> js' then step_evolves (a ! j) (c ! j) \<and> st_round (c ! j) = Some n
        \<and> (pending (c ! j) \<longleftrightarrow> j \<in> os \<union> os') else c ! j = a ! j"
    using a b assms(3) by (cases "j \<in> js"; cases "j \<in> js'") auto
qed

lemma attempted_one:
  "j < length ss \<Longrightarrow> step_evolves (ss ! j) s \<Longrightarrow> st_round s = Some n \<Longrightarrow>
    attempted n {j} (if pending s then {j} else {}) ss (ss[j := s])"
  by (auto simp: attempted_def nth_list_update)

lemma attempted_evolve: "attempted n js os ss ss' \<Longrightarrow> steps_evolve ss ss'"
  unfolding steps_evolve_nth attempted_def by (metis step_evolves_refl)

lemma brief_outcome_settles [simp]: "brief_outcome exec \<noteq> StPending"
  by (simp add: brief_outcome_def split: sum.split)

lemma recorded_brief:
  assumes "record_brief_outcome i j n lab t exec started finished res k = (res', k')"
    and "contains_key (orchestrations k) i" "j < length (steps_of i k)" "pending (steps_of i k ! j)"
  shows "attempted n {j} {} (steps_of i k) (steps_of i k') \<and> contains_key (orchestrations k') i
    \<and> (\<forall>i'. i' \<noteq> i \<longrightarrow> get (orchestrations k') i' = get (orchestrations k) i')"
proof -
  obtain s where s: "steps_of i k' = (steps_of i k)[j := s]" "step_evolves (steps_of i k ! j) s" "st_round s = Some n" "\<not> pending s"
    using assms by (auto simp: record_brief_outcome_def adjust_nth_def step_evolves_def same_brief_def)
  from attempted_one [OF assms(3) s(2,3)] s assms show ?thesis
    by (auto simp: record_brief_outcome_def)
qed

lemma prepared_brief:
  assumes p: "prepare_brief w i n (j, t, a) prep res k = (prep', res', k')"
    and k: "contains_key (orchestrations k) i" "j < length (steps_of i k)" "pending (steps_of i k ! j)"
  shows "\<exists>ps. rp_prepared prep' = rp_prepared prep @ ps \<and> (ps = [] \<or> (\<exists>pb. ps = [pb] \<and> pb_index pb = j \<and> pb_round pb = n))
    \<and> attempted n {j} (set (map pb_index ps)) (steps_of i k) (steps_of i k') \<and> contains_key (orchestrations k') i
    \<and> (\<forall>i'. i' \<noteq> i \<longrightarrow> get (orchestrations k') i' = get (orchestrations k) i')"
proof -
  obtain started k1 where t: "tick k = (started, k1)" by fastforce
  obtain r k2 where at: "attempt_brief w t a k1 = (r, k2)" by fastforce
  have o2: "orchestrations k2 = orchestrations k" using orchestrations_attempt [OF at] orchestrations_tick [OF t] by simp
  then have s2: "steps_of i k2 = steps_of i k" by (rule steps_of_cong)
  show ?thesis
  proof (cases r)
    case (Inl exec)
    obtain finished k3 where t3: "tick k2 = (finished, k3)" by fastforce
    have o3: "orchestrations k3 = orchestrations k" using o2 orchestrations_tick [OF t3] by simp
    obtain res2 where rec: "record_brief_outcome i j n (agent_text a) t exec started finished res2 k3 = (res', k')"
      and pr: "rp_prepared prep' = rp_prepared prep"
      using p by (auto simp: prepare_brief_def t at Inl t3 Let_def split: prod.splits)
    have "attempted n {j} {} (steps_of i k3) (steps_of i k') \<and> contains_key (orchestrations k') i
        \<and> (\<forall>i'. i' \<noteq> i \<longrightarrow> get (orchestrations k') i' = get (orchestrations k3) i')"
      by (rule recorded_brief [OF rec]) (use k in \<open>simp_all add: o3 steps_of_cong [OF o3]\<close>)
    with pr show ?thesis by (simp add: o3 steps_of_cong [OF o3])
  next
    case (Inr plan)
    let ?f = "\<lambda>s. s\<lparr>st_run := Some (pl_run plan), st_started_at := Some started, st_round := Some n\<rparr>"
    obtain pb where "rp_prepared prep' = rp_prepared prep @ [pb]" "pb_index pb = j" "pb_round pb = n"
      and k': "k' = on_steps i (adjust_nth j ?f) k2"
      using p by (auto simp: prepare_brief_def t at Inr Let_def)
    moreover have "attempted n {j} {j} (steps_of i k) (steps_of i k')"
      using attempted_one [of j "steps_of i k" "?f (steps_of i k ! j)" n] k
      by (simp add: k' o2 s2 adjust_nth_def step_evolves_def same_brief_def)
    ultimately show ?thesis using k by (intro exI [of _ "[pb]"]) (simp add: o2)
  qed
qed


text \<open>A list of briefs to attempt: distinct steps, all of them pending.\<close>

definition attemptable :: "nat list \<Rightarrow> orchestration_step list \<Rightarrow> bool" where
  "attemptable js ss \<longleftrightarrow> distinct js \<and> (\<forall>j \<in> set js. j < length ss \<and> pending (ss ! j))"

lemma attemptable_after:
  assumes "attempted n {j} os ss ss'" "attemptable (j # js) ss"
  shows "attemptable js ss'"
  unfolding attemptable_def
proof (intro conjI ballI)
  show "distinct js" using assms(2) by (simp add: attemptable_def)
  fix i assume "i \<in> set js"
  then have "i \<noteq> j" "i < length ss" "pending (ss ! i)" using assms(2) by (auto simp: attemptable_def)
  then show "i < length ss'" "pending (ss' ! i)" using assms(1) by (simp_all add: attempted_def)
qed

lemma prepared_briefs:
  assumes "prepare_briefs w i n bs prep res k = (prep', res', k')"
    and "contains_key (orchestrations k) i" "attemptable (map fst bs) (steps_of i k)"
  shows "\<exists>ps. rp_prepared prep' = rp_prepared prep @ ps \<and> distinct (map pb_index ps) \<and> (\<forall>p \<in> set ps. pb_round p = n)
    \<and> attempted n (fst ` set bs) (set (map pb_index ps)) (steps_of i k) (steps_of i k')
    \<and> contains_key (orchestrations k') i
    \<and> (\<forall>i'. i' \<noteq> i \<longrightarrow> get (orchestrations k') i' = get (orchestrations k) i')"
  using assms
proof (induction bs arbitrary: prep res k)
  case (Cons b bs)
  obtain j t a where b: "b = (j, t, a)" by (cases b) auto
  obtain p1 r1 k1 where b1: "prepare_brief w i n (j, t, a) prep res k = (p1, r1, k1)" by (metis surj_pair)
  have rest: "prepare_briefs w i n bs p1 r1 k1 = (prep', res', k')" using Cons.prems(1) b b1 by simp
  have j: "j < length (steps_of i k)" "pending (steps_of i k ! j)" "j \<notin> fst ` set bs"
    using Cons.prems(3) b by (auto simp: attemptable_def)
  obtain ps1 where ps1: "rp_prepared p1 = rp_prepared prep @ ps1"
      "ps1 = [] \<or> (\<exists>pb. ps1 = [pb] \<and> pb_index pb = j \<and> pb_round pb = n)"
      "attempted n {j} (set (map pb_index ps1)) (steps_of i k) (steps_of i k1)" "contains_key (orchestrations k1) i"
      "\<forall>i'. i' \<noteq> i \<longrightarrow> get (orchestrations k1) i' = get (orchestrations k) i'"
    using prepared_brief [OF b1 Cons.prems(2) j(1,2)] by blast
  have "attemptable (map fst bs) (steps_of i k1)"
    by (rule attemptable_after [OF ps1(3)]) (use Cons.prems(3) b in simp)
  from Cons.IH [OF rest ps1(4) this] obtain ps2 where ps2: "rp_prepared prep' = rp_prepared p1 @ ps2"
      "distinct (map pb_index ps2)" "\<forall>p \<in> set ps2. pb_round p = n"
      "attempted n (fst ` set bs) (set (map pb_index ps2)) (steps_of i k1) (steps_of i k')"
      "contains_key (orchestrations k') i" "\<forall>i'. i' \<noteq> i \<longrightarrow> get (orchestrations k') i' = get (orchestrations k1) i'"
    by blast
  have sub: "set (map pb_index ps2) \<subseteq> fst ` set bs" using ps2(4) by (simp add: attempted_def)
  have "attempted n ({j} \<union> fst ` set bs) (set (map pb_index ps1) \<union> set (map pb_index ps2)) (steps_of i k) (steps_of i k')"
    by (rule attempted_trans [OF ps1(3) ps2(4)]) (use j(3) in simp)
  moreover have "j \<notin> set (map pb_index ps2)" using sub j(3) by blast
  then have "distinct (map pb_index (ps1 @ ps2))" using ps1(2) ps2(2) by auto
  moreover have "\<forall>p \<in> set (ps1 @ ps2). pb_round p = n" using ps1(2) ps2(3) by auto
  ultimately show ?case
    using ps1(1,5) ps2(1,5,6) b by (intro exI [of _ "ps1 @ ps2"]) simp
qed simp

lemma finalized_briefs:
  assumes "finalize_briefs w i fs res k = (res', k')"
    and "contains_key (orchestrations k) i" "attemptable (map (pb_index \<circ> fb_brief) fs) (steps_of i k)"
    and "\<forall>f \<in> set fs. pb_round (fb_brief f) = n"
  shows "attempted n (set (map (pb_index \<circ> fb_brief) fs)) {} (steps_of i k) (steps_of i k')
    \<and> contains_key (orchestrations k') i
    \<and> (\<forall>i'. i' \<noteq> i \<longrightarrow> get (orchestrations k') i' = get (orchestrations k) i')"
  using assms
proof (induction fs arbitrary: res k)
  case (Cons f fs)
  let ?p = "fb_brief f"
  let ?j = "pb_index ?p"
  obtain exec k1 where e: "finalize_cli_run w (pb_plan ?p) (fb_outcome f) k = (exec, k1)" by fastforce
  obtain finished k2 where t: "tick k1 = (finished, k2)" by fastforce
  have o2: "orchestrations k2 = orchestrations k" using orchestrations_finalize_cli [OF e] orchestrations_tick [OF t] by simp
  obtain r3 k3 where rec: "record_brief_outcome i ?j n (pb_agent ?p) (pl_task (pb_plan ?p)) exec (pb_started_at ?p)
      finished res k2 = (r3, k3)" by fastforce
  have rest: "finalize_briefs w i fs r3 k3 = (res', k')"
    using Cons.prems(1,4) by (simp add: finalize_prepared_brief_def Let_def e t rec)
  have j: "?j < length (steps_of i k)" "pending (steps_of i k ! ?j)" "?j \<notin> set (map (pb_index \<circ> fb_brief) fs)"
    using Cons.prems(3) by (auto simp: attemptable_def)
  have 1: "attempted n {?j} {} (steps_of i k) (steps_of i k3)" "contains_key (orchestrations k3) i"
      "\<forall>i'. i' \<noteq> i \<longrightarrow> get (orchestrations k3) i' = get (orchestrations k) i'"
    using recorded_brief [OF rec] Cons.prems(2) j(1,2) by (simp_all add: o2 steps_of_cong [OF o2])
  have "attemptable (map (pb_index \<circ> fb_brief) fs) (steps_of i k3)"
    by (rule attemptable_after [OF 1(1)]) (use Cons.prems(3) in \<open>simp add: o_def\<close>)
  note 2 = Cons.IH [OF rest 1(2) this]
  have "attempted n ({?j} \<union> set (map (pb_index \<circ> fb_brief) fs)) ({} \<union> {}) (steps_of i k) (steps_of i k')"
    by (rule attempted_trans [OF 1(1)]) (use 2 Cons.prems(4) j(3) in auto)
  then show ?case using 1(3) 2 Cons.prems(4) by simp
qed simp


section \<open>A round\<close>

lemma attempted_finish:
  assumes "attempted n js os a b" "attempted n js' {} b c" "js' \<subseteq> os"
  shows "attempted n js (os - js') a c"
  unfolding attempted_def
proof (intro conjI allI impI)
  show "length c = length a" "os - js' \<subseteq> js" using assms by (auto simp: attempted_def)
  fix j assume j: "j < length a"
  then have jb: "j < length b" using assms(1) by (simp add: attempted_def)
  have a: "if j \<in> js then step_evolves (a ! j) (b ! j) \<and> st_round (b ! j) = Some n \<and> (pending (b ! j) \<longleftrightarrow> j \<in> os)
      else b ! j = a ! j" "j \<in> os \<longrightarrow> j \<in> js"
    using assms(1) j by (auto simp: attempted_def)
  have b: "if j \<in> js' then step_evolves (b ! j) (c ! j) \<and> st_round (c ! j) = Some n \<and> \<not> pending (c ! j)
      else c ! j = b ! j" "j \<in> js' \<longrightarrow> j \<in> os"
    using assms(2,3) jb by (auto simp: attempted_def)
  show "if j \<in> js then step_evolves (a ! j) (c ! j) \<and> st_round (c ! j) = Some n
        \<and> (pending (c ! j) \<longleftrightarrow> j \<in> os - js') else c ! j = a ! j"
    using a b by (cases "j \<in> js"; cases "j \<in> js'") (auto intro: step_evolves_trans)
qed

lemma prepare_briefs_count:
  "prepare_briefs w i n bs prep res k = (prep', res', k') \<Longrightarrow>
    rp_ran_inline prep' + length (rp_prepared prep') = rp_ran_inline prep + length (rp_prepared prep) + length bs"
proof (induction bs arbitrary: prep res k)
  case (Cons b bs)
  obtain p1 r1 k1 where b: "prepare_brief w i n b prep res k = (p1, r1, k1)" by (metis surj_pair)
  then have "rp_ran_inline p1 + length (rp_prepared p1) = rp_ran_inline prep + length (rp_prepared prep) + 1"
    by (auto simp: prepare_brief_def Let_def split: prod.splits sum.splits)
  with Cons b show ?case by simp
qed simp

text \<open>A round starts from the steps after blocking, and attempts some that are ready: as many as the
  concurrency and the budget allow.\<close>

definition unblocked :: "orchestration_step list \<Rightarrow> orchestration_step list" where
  "unblocked ss = snd (propagate 0 ss)"

lemma fst_ready_briefs [simp]: "map fst (ready_briefs ss) = filter (ready ss) [0..<length ss]"
  by (simp add: ready_briefs_def o_def)

lemma prepared_round:
  assumes p: "prepare_orchestration_round w i mx c n res k = (prep, res', k')"
    and k: "contains_key (orchestrations k) i" and budget: "br_ran res < clamp 1 25 mx"
  defines "js \<equiv> take (min (clamp 1 4 c) (clamp 1 25 mx - br_ran res))
      (filter (ready (unblocked (steps_of i k))) [0..<length (unblocked (steps_of i k))])"
  shows "attempted n (set js) (set (map pb_index (rp_prepared prep))) (unblocked (steps_of i k)) (steps_of i k')
    \<and> distinct (map pb_index (rp_prepared prep)) \<and> (\<forall>q \<in> set (rp_prepared prep). pb_round q = n)
    \<and> contains_key (orchestrations k') i
    \<and> (\<forall>i'. i' \<noteq> i \<longrightarrow> get (orchestrations k') i' = get (orchestrations k) i')
    \<and> (prep_ran prep \<longleftrightarrow> js \<noteq> []) \<and> br_ran res' = br_ran res + length js"
proof -
  let ?ss = "unblocked (steps_of i k)"
  let ?k1 = "on_steps i (\<lambda>ss. snd (propagate 0 ss)) k"
  have s1: "steps_of i ?k1 = ?ss" and c1: "contains_key (orchestrations ?k1) i" using k by (simp_all add: unblocked_def)
  define bs where "bs = take (min (clamp 1 4 c) (clamp 1 25 mx - br_ran res)) (ready_briefs ?ss)"
  obtain res1 where pb: "prepare_briefs w i n bs no_prep res1 ?k1 = (prep, res', k')" "br_ran res1 = br_ran res"
    using p budget k by (force simp: prepare_orchestration_round_def propagate_dependency_blocks_def Let_def s1 bs_def)
  have fb: "map fst bs = js" unfolding bs_def js_def take_map [symmetric] by (simp add: take_map)
  have "attemptable js ?ss"
    by (auto simp: js_def attemptable_def ready_def dest: in_set_takeD)
  then have "attemptable (map fst bs) (steps_of i ?k1)" by (simp only: fb s1)
  from prepared_briefs [OF pb(1) c1 this] obtain ps where ps: "rp_prepared prep = ps" "distinct (map pb_index ps)"
      "\<forall>q \<in> set ps. pb_round q = n" "attempted n (fst ` set bs) (set (map pb_index ps)) ?ss (steps_of i k')"
      "contains_key (orchestrations k') i"
      "\<forall>i'. i' \<noteq> i \<longrightarrow> get (orchestrations k') i' = get (orchestrations k) i'"
    unfolding s1 by (auto simp: no_prep_def)
  have "fst ` set bs = set js" using fb by (metis list.set_map)
  moreover have "prep_ran prep \<longleftrightarrow> bs \<noteq> []"
    using prepare_briefs_count [OF pb(1)] by (auto simp: prep_ran_def no_prep_def)
  moreover have "br_ran res' = br_ran res + length bs" using prepare_briefs_ran [OF pb(1)] pb(2) by simp
  ultimately show ?thesis using ps fb by auto
qed


lemma run_briefs_some:
  assumes "run_briefs_in_parallel w now ps = Some fs"
  shows "\<exists>P. fs = map (run_brief w now) (filter P ps)
    \<and> ((\<forall>q \<in> set ps. \<not> w_panics w now (pb_plan q)) \<longrightarrow> filter P ps = ps)"
proof (cases "length ps \<le> 1")
  case True
  then have "fs = map (run_brief w now) (filter (\<lambda>_. True) ps)"
    using assms by (auto simp: run_briefs_in_parallel_def split: if_splits)
  then show ?thesis by (intro exI [of _ "\<lambda>_. True"]) simp
next
  case False
  then have "fs = map (run_brief w now) (filter (\<lambda>p. \<not> w_panics w now (pb_plan p)) ps)"
    using assms by (simp add: run_briefs_in_parallel_def)
  then show ?thesis by (intro exI [of _ "\<lambda>p. \<not> w_panics w now (pb_plan p)"]) (simp add: filter_id_conv)
qed

text \<open>What one round does to the steps: \<open>js\<close> are attempted, \<open>os\<close> of them stay pending.\<close>

definition round_effect ::
  "nat set \<Rightarrow> nat set \<Rightarrow> nat \<Rightarrow> orchestration_step list \<Rightarrow> orchestration_step list \<Rightarrow> bool" where
  "round_effect js os n ss ss' \<longleftrightarrow> attempted n js os (unblocked ss) ss'
     \<and> (\<forall>j \<in> js. j < length (unblocked ss) \<and> ready (unblocked ss) j)"

lemma attempted_open:
  assumes "attempted n js os a b" "\<forall>j \<in> js. j < length a" "j \<in> os"
  shows "j < length b \<and> pending (b ! j)"
proof -
  have "j \<in> js" "j < length a" using assms by (auto simp: attempted_def)
  with assms(1,3) show ?thesis by (simp add: attempted_def)
qed

lemma finished_round:
  assumes p: "prepare_orchestration_round w i mx c n res k = (prep, res', k')"
    and k: "contains_key (orchestrations k) i" and budget: "br_ran res < clamp 1 25 mx"
    and run: "run_briefs_in_parallel w (clock k') (rp_prepared prep) = Some fs"
    and fin: "finalize_briefs w i fs res' k' = (res'', k'')"
  defines "js \<equiv> take (min (clamp 1 4 c) (clamp 1 25 mx - br_ran res))
      (filter (ready (unblocked (steps_of i k))) [0..<length (unblocked (steps_of i k))])"
  shows "\<exists>os. round_effect (set js) os n (steps_of i k) (steps_of i k'')
    \<and> ((\<forall>now q. \<not> w_panics w now q) \<longrightarrow> os = {})
    \<and> contains_key (orchestrations k'') i
    \<and> (\<forall>i'. i' \<noteq> i \<longrightarrow> get (orchestrations k'') i' = get (orchestrations k) i')"
proof -
  let ?idx = "\<lambda>qs. set (map pb_index qs)"
  note pr = prepared_round [OF p k budget, folded js_def]
  obtain P where P: "fs = map (run_brief w (clock k')) (filter P (rp_prepared prep))"
    "(\<forall>q \<in> set (rp_prepared prep). \<not> w_panics w (clock k') (pb_plan q)) \<longrightarrow> filter P (rp_prepared prep) = rp_prepared prep"
    using run_briefs_some [OF run] by blast
  have idx: "map (pb_index \<circ> fb_brief) fs = map pb_index (filter P (rp_prepared prep))"
    by (simp add: P(1) run_brief_def)
  have js: "\<forall>j \<in> set js. j < length (unblocked (steps_of i k)) \<and> ready (unblocked (steps_of i k)) j"
    by (auto simp: js_def dest!: in_set_takeD)
  then have len: "\<forall>j \<in> set js. j < length (unblocked (steps_of i k))" by blast
  have at: "attempted n (set js) (?idx (rp_prepared prep)) (unblocked (steps_of i k)) (steps_of i k')" using pr by blast
  have "attemptable (map pb_index (rp_prepared prep)) (steps_of i k')"
    using attempted_open [OF at len] pr by (simp add: attemptable_def)
  then have "attemptable (map (pb_index \<circ> fb_brief) fs) (steps_of i k')"
    unfolding idx attemptable_def by (auto simp: distinct_map_filter)
  moreover have "\<forall>f \<in> set fs. pb_round (fb_brief f) = n" using pr by (auto simp: P(1) run_brief_def)
  ultimately have f: "attempted n (?idx (filter P (rp_prepared prep))) {} (steps_of i k') (steps_of i k'')"
      "contains_key (orchestrations k'') i"
      "\<forall>i'. i' \<noteq> i \<longrightarrow> get (orchestrations k'') i' = get (orchestrations k') i'"
    using finalized_briefs [OF fin] pr unfolding idx by blast+
  have "attempted n (set js) (?idx (rp_prepared prep) - ?idx (filter P (rp_prepared prep)))
      (unblocked (steps_of i k)) (steps_of i k'')"
    by (rule attempted_finish [OF at f(1)]) auto
  moreover have "?idx (rp_prepared prep) - ?idx (filter P (rp_prepared prep)) = {}" if "\<forall>now q. \<not> w_panics w now q"
    using P(2) that by simp
  ultimately show ?thesis unfolding round_effect_def using f(2,3) pr js by metis
qed


section \<open>The rounds of a batch\<close>

inductive batch_path :: "orchestration_step list \<Rightarrow> orchestration_step list \<Rightarrow> bool" where
  batch_stop: "batch_path ss ss"
| batch_round: "round_effect js os n ss ss' \<Longrightarrow> batch_path ss' ss'' \<Longrightarrow> batch_path ss ss''"

lemma batch_one: "round_effect js os n ss ss' \<Longrightarrow> batch_path ss ss'"
  by (blast intro: batch_stop batch_round)

lemma batch_path_trans: "batch_path a b \<Longrightarrow> batch_path b c \<Longrightarrow> batch_path a c"
  by (induction rule: batch_path.induct) (auto intro: batch_round)

lemma prepare_no_budget:
  "clamp 1 25 mx \<le> br_ran res \<Longrightarrow> prepare_orchestration_round w i mx c n res k = (no_prep, res, k)"
  by (simp add: prepare_orchestration_round_def Let_def)

lemma not_ran_no_prep [simp]: "\<not> prep_ran no_prep"
  by (simp add: prep_ran_def no_prep_def)

lemma prepared_effect:
  assumes "prepare_orchestration_round w i mx c n res k = (prep, res', k')" "contains_key (orchestrations k) i"
  shows "batch_path (steps_of i k) (steps_of i k') \<and> contains_key (orchestrations k') i
    \<and> (\<forall>i'. i' \<noteq> i \<longrightarrow> get (orchestrations k') i' = get (orchestrations k) i')"
proof (cases "br_ran res < clamp 1 25 mx")
  case True
  note pr = prepared_round [OF assms True]
  have "round_effect (set (take (min (clamp 1 4 c) (clamp 1 25 mx - br_ran res))
      (filter (ready (unblocked (steps_of i k))) [0..<length (unblocked (steps_of i k))])))
      (set (map pb_index (rp_prepared prep))) n (steps_of i k) (steps_of i k')"
    unfolding round_effect_def using pr by (auto dest!: in_set_takeD)
  with pr batch_one show ?thesis by blast
next
  case False
  then show ?thesis using assms prepare_no_budget [of mx res w i c n k] by (simp add: batch_stop)
qed

lemma rounds_path:
  "run_rounds w i mx c n res k = (r, k') \<Longrightarrow> contains_key (orchestrations k) i \<Longrightarrow>
    batch_path (steps_of i k) (steps_of i k') \<and> contains_key (orchestrations k') i
    \<and> (\<forall>i'. i' \<noteq> i \<longrightarrow> get (orchestrations k') i' = get (orchestrations k) i')"
proof (induction w i mx c n res k arbitrary: r k' rule: run_rounds.induct)
  case (1 w i mx c n res k)
  obtain prep res1 k1 where p: "prepare_orchestration_round w i mx c (n + 1) res k = (prep, res1, k1)" by (metis surj_pair)
  note pe = prepared_effect [OF p "1.prems"(2)]
  show ?case
  proof (cases "prep_ran prep")
    case False
    then have "k' = k1" using "1.prems"(1) by (simp add: run_rounds.simps [of w i mx c n res k] p [simplified])
    with pe show ?thesis by blast
  next
    case True
    then have budget: "br_ran res < clamp 1 25 mx"
      using p prepare_no_budget [of mx res w i c "n + 1" k] by (cases "clamp 1 25 mx \<le> br_ran res") auto
    show ?thesis
    proof (cases "run_briefs_in_parallel w (clock k1) (rp_prepared prep)")
      case None
      then have "k' = k1" using "1.prems"(1) True by (simp add: run_rounds.simps [of w i mx c n res k] p [simplified])
      with pe show ?thesis by blast
    next
      case (Some fs)
      obtain res2 k2 where f: "finalize_briefs w i fs res1 k1 = (res2, k2)" by fastforce
      have rest: "run_rounds w i mx c (n + 1) res2 k2 = (r, k')"
        using "1.prems"(1) True Some f by (simp add: run_rounds.simps [of w i mx c n res k] p [simplified])
      obtain os js where e: "round_effect js os (n + 1) (steps_of i k) (steps_of i k2)"
          "contains_key (orchestrations k2) i"
          "\<forall>i'. i' \<noteq> i \<longrightarrow> get (orchestrations k2) i' = get (orchestrations k) i'"
        using finished_round [OF p "1.prems"(2) budget Some f] by blast
      have "batch_path (steps_of i k2) (steps_of i k') \<and> contains_key (orchestrations k') i
          \<and> (\<forall>i'. i' \<noteq> i \<longrightarrow> get (orchestrations k') i' = get (orchestrations k2) i')"
        by (rule "1.IH" [OF p [symmetric] refl _ Some f [symmetric] rest e(2)]) (simp add: True)
      with e show ?thesis by (auto intro: batch_round)
    qed
  qed
qed

end
