(* ===== verification/Relux_Orchestration.thy ===== *)
theory Relux_Orchestration
  imports Relux_Batch_Props
begin

text \<open>
  What holds of a whole batch: settled briefs stay, the order of the dependencies is kept, the budget is
  kept, the report is true, and without panics a budget that covers the pending briefs settles them all.
\<close>

section \<open>Order\<close>

lemma unblocked_blocks: "blocks (\<lambda>j. has_fallen (unblocked ss) (unblocked ss ! j)) ss (unblocked ss)"
  and unblocked_settled: "block_updates (unblocked ss) = []"
  using propagate_blocks [of 0 ss] unfolding unblocked_def by (metis prod.collapse)+

lemma unblocked_evolves: "steps_evolve ss (unblocked ss)"
  by (rule blocks_evolve [OF unblocked_blocks])

lemma length_unblocked [simp]: "length (unblocked ss) = length ss"
  using unblocked_evolves [of ss] by (simp add: steps_evolve_nth)

lemma round_effect_evolves: "round_effect js os n ss ss' \<Longrightarrow> steps_evolve ss ss'"
  unfolding round_effect_def using attempted_evolve unblocked_evolves steps_evolve_trans by blast

lemma batch_path_evolves: "batch_path ss ss' \<Longrightarrow> steps_evolve ss ss'"
  by (induction rule: batch_path.induct) (auto intro: steps_evolve_trans round_effect_evolves)

text \<open>A brief in order: it waits only for earlier ones, was started only with all of these completed, and
  completes or fails only by being started.\<close>

definition deps_done :: "orchestration_step list \<Rightarrow> orchestration_step \<Rightarrow> bool" where
  "deps_done ss s \<longleftrightarrow> list_all (\<lambda>d. outcome_at ss d = None \<or> outcome_at ss d = Some StCompleted) (st_depends_on s)"

definition in_order :: "orchestration_step list \<Rightarrow> nat \<Rightarrow> bool" where
  "in_order ss j \<longleftrightarrow> list_all (\<lambda>d. d < j) (st_depends_on (ss ! j))
     \<and> (st_round (ss ! j) \<noteq> None \<longrightarrow> deps_done ss (ss ! j))
     \<and> (st_outcome (ss ! j) \<in> {StCompleted, StFailed} \<longrightarrow> st_round (ss ! j) \<noteq> None)"

definition all_in_order :: "orchestration_step list \<Rightarrow> bool" where
  "all_in_order ss \<longleftrightarrow> (\<forall>j < length ss. in_order ss j)"

lemma outcome_at_None: "steps_evolve ss ss' \<Longrightarrow> outcome_at ss j = None \<Longrightarrow> outcome_at ss' j = None"
  by (auto simp: outcome_at_def steps_evolve_nth split: if_splits)

lemma deps_done_mono: "steps_evolve ss ss' \<Longrightarrow> deps_done ss s \<Longrightarrow> deps_done ss' s"
  unfolding deps_done_def list_all_iff using outcome_at_settled [of ss ss' _ StCompleted] outcome_at_None by blast

lemma deps_done_same: "st_depends_on s' = st_depends_on s \<Longrightarrow> deps_done ss s' = deps_done ss s"
  by (simp add: deps_done_def)

lemma ready_deps_done: "ready ss j \<Longrightarrow> deps_done ss (ss ! j)"
  by (simp add: ready_def deps_done_def)

lemma in_order_kept:
  assumes "in_order ss j" "steps_evolve ss ss'" "j < length ss"
    and "st_round (ss' ! j) = st_round (ss ! j) \<or> deps_done ss (ss ! j)"
    and "st_outcome (ss' ! j) \<in> {StCompleted, StFailed} \<Longrightarrow> st_outcome (ss ! j) \<in> {StCompleted, StFailed} \<and> st_round (ss' ! j) = st_round (ss ! j) \<or> st_round (ss' ! j) \<noteq> None"
  shows "in_order ss' j"
proof -
  have d: "st_depends_on (ss' ! j) = st_depends_on (ss ! j)"
    using assms(2,3) by (simp add: steps_evolve_nth step_evolves_def same_brief_def)
  show ?thesis
    using assms(1,4,5) deps_done_mono [OF assms(2)] deps_done_same [OF d] d by (auto simp: in_order_def)
qed

lemma unblocked_in_order: "all_in_order ss \<Longrightarrow> all_in_order (unblocked ss)"
  unfolding all_in_order_def length_unblocked
proof (intro allI impI)
  fix j assume "\<forall>j < length ss. in_order ss j" and j: "j < length ss"
  moreover have "unblocked ss ! j = ss ! j \<or> blocked_form (ss ! j) (unblocked ss ! j)"
    using unblocked_blocks [of ss] j by (auto simp: blocks_def)
  ultimately show "in_order (unblocked ss) j"
    by (intro in_order_kept [OF _ unblocked_evolves j]) (auto simp: blocked_form_def)
qed

lemma round_in_order:
  assumes r: "round_effect js os n ss ss'" and ss: "all_in_order ss"
  shows "all_in_order ss'"
  unfolding all_in_order_def
proof (intro allI impI)
  let ?u = "unblocked ss"
  have at: "attempted n js os ?u ss'" and js: "\<forall>j \<in> js. ready ?u j" using r by (auto simp: round_effect_def)
  fix j assume "j < length ss'"
  then have j: "j < length ?u" using at by (simp add: attempted_def)
  have o: "in_order ?u j" using unblocked_in_order [OF ss] j by (simp add: all_in_order_def)
  show "in_order ss' j"
  proof (rule in_order_kept [OF o attempted_evolve [OF at] j])
    show "st_round (ss' ! j) = st_round (?u ! j) \<or> deps_done ?u (?u ! j)"
      using at j js ready_deps_done by (auto simp: attempted_def split: if_splits)
    show "st_outcome (?u ! j) \<in> {StCompleted, StFailed} \<and> st_round (ss' ! j) = st_round (?u ! j) \<or> st_round (ss' ! j) \<noteq> None"
      if "st_outcome (ss' ! j) \<in> {StCompleted, StFailed}"
      using at j that by (auto simp: attempted_def split: if_splits)
  qed
qed

lemma batch_in_order: "batch_path ss ss' \<Longrightarrow> all_in_order ss \<Longrightarrow> all_in_order ss'"
  by (induction rule: batch_path.induct) (auto intro: round_in_order)


section \<open>The whole batch\<close>

lemma round_effect_unblocked: "round_effect {} {} n ss (unblocked ss)"
  by (simp add: round_effect_def)

lemma finalized_batch:
  assumes "finalize_orchestration_batch i res k = (r, k')" "contains_key (orchestrations k) i"
  shows "steps_of i k' = unblocked (steps_of i k) \<and> contains_key (orchestrations k') i
    \<and> (\<forall>i'. i' \<noteq> i \<longrightarrow> get (orchestrations k') i' = get (orchestrations k) i')
    \<and> (\<exists>res'. r = Inr res' \<and> br_status res' = overall_status (steps_of i k')
        \<and> br_pending res' = pending_count (steps_of i k')
        \<and> map_option o_status (get (orchestrations k') i) = Some (br_status res')
        \<and> map_option o_last_batch_summary (get (orchestrations k') i) = Some (Some (br_summary res'))
        \<and> br_ran res' = br_ran res \<and> br_completed res' = br_completed res \<and> br_failed res' = br_failed res
        \<and> br_blocked res' = br_blocked res \<and> br_rounds res' = br_rounds res)"
proof -
  let ?k1 = "on_steps i (\<lambda>ss. snd (propagate 0 ss)) k"
  obtain orch where orch: "get (orchestrations k) i = Some orch" using assms(2) by (auto simp: contains_key_iff)
  have p: "propagate_dependency_blocks i k = (fst (propagate 0 (steps_of i k)), ?k1)"
    using assms(2) by (simp add: propagate_dependency_blocks_def)
  have s1: "steps_of i ?k1 = unblocked (steps_of i k)" using assms(2) by (simp add: unblocked_def)
  obtain now k2 where t: "tick ?k1 = (now, k2)" by fastforce
  have o2: "orchestrations k2 = orchestrations ?k1" using orchestrations_tick [OF t] .
  have g: "get (orchestrations ?k1) i = Some (orch\<lparr>o_steps := unblocked (steps_of i k)\<rparr>)"
    using orch by (simp add: on_steps_def steps_of_def unblocked_def)
  have oth: "\<forall>i'. i' \<noteq> i \<longrightarrow> get (orchestrations ?k1) i' = get (orchestrations k) i'" by simp
  obtain summary where k': "orchestrations k' = adjust i (\<lambda>orch. orch\<lparr>o_status := overall_status (unblocked (steps_of i k)),
      o_updated_at := now, o_last_batch_summary := Some summary\<rparr>) (orchestrations ?k1)"
    and r: "\<exists>res'. r = Inr res' \<and> br_status res' = overall_status (unblocked (steps_of i k)) \<and> br_summary res' = summary
      \<and> br_pending res' = pending_count (unblocked (steps_of i k))
      \<and> br_ran res' = br_ran res \<and> br_completed res' = br_completed res \<and> br_failed res' = br_failed res
      \<and> br_blocked res' = br_blocked res \<and> br_rounds res' = br_rounds res"
    using assms(1) unfolding finalize_orchestration_batch_def orch option.case p prod.case Let_def s1 t
    by (auto simp: orchestrations.after_audit o2)
  have "steps_of i k' = unblocked (steps_of i k)" by (simp add: steps_of_def k' g)
  with r oth show ?thesis by (auto simp: k' g contains_key_iff)
qed

text \<open>Whatever becomes of a batch, its steps are on a path, and no other orchestration is touched.\<close>

lemma batch_ran:
  assumes "run_orchestration w i mx c k = (r, k')"
  shows "batch_path (steps_of i k) (steps_of i k')
    \<and> (\<forall>i'. i' \<noteq> i \<longrightarrow> get (orchestrations k') i' = get (orchestrations k) i')
    \<and> contains_key (orchestrations k') i = contains_key (orchestrations k) i"
proof (cases "contains_key (orchestrations k) i")
  case False
  then have "k' = k" using assms by (simp add: run_orchestration_def new_orchestration_batch_result_def)
  then show ?thesis by (simp add: batch_stop)
next
  case True
  obtain x k1 where rr: "run_rounds w i (clamp 1 25 mx) (clamp 1 4 c) 0 (new_batch_result i (clamp 1 4 (clamp 1 4 c))) k = (x, k1)"
    by fastforce
  note p = rounds_path [OF rr True]
  show ?thesis
  proof (cases x)
    case None
    then have "k' = k1"
      using assms True rr [simplified] by (simp add: run_orchestration_def new_orchestration_batch_result_def)
    with p True show ?thesis by simp
  next
    case (Some y)
    obtain m res where y: "y = (m, res)" by fastforce
    obtain r1 where "finalize_orchestration_batch i (res\<lparr>br_rounds := m\<rparr>) k1 = (r1, k')"
      using assms True rr [simplified] Some y
      by (auto simp: run_orchestration_def new_orchestration_batch_result_def split: prod.splits)
    from finalized_batch [OF this] p have f: "steps_of i k' = unblocked (steps_of i k1)" "contains_key (orchestrations k') i"
        "\<forall>i'. i' \<noteq> i \<longrightarrow> get (orchestrations k') i' = get (orchestrations k1) i'" by blast+
    have "batch_path (steps_of i k1) (steps_of i k')"
      unfolding f(1) by (rule batch_one [OF round_effect_unblocked])
    with p f True show ?thesis by (auto intro: batch_path_trans)
  qed
qed

text \<open>C19. A brief that is not pending is never touched by a batch again, not even a failed or blocked one; the
  briefs keep their task, agent and dependencies; other orchestrations are not touched at all.\<close>

theorem settled_briefs_stay:
  assumes "run_orchestration w i mx c k = (r, k')"
  shows "length (steps_of i k') = length (steps_of i k)
    \<and> (\<forall>j < length (steps_of i k). step_evolves (steps_of i k ! j) (steps_of i k' ! j))
    \<and> (\<forall>i'. i' \<noteq> i \<longrightarrow> get (orchestrations k') i' = get (orchestrations k) i')"
  using batch_ran [OF assms] batch_path_evolves [of "steps_of i k" "steps_of i k'"] by (simp add: steps_evolve_nth)

text \<open>C8. A batch keeps the order: if every brief has been started only with all its dependencies completed, and
  has completed or failed only by being started, then so it is after the batch.\<close>

theorem batch_keeps_order:
  assumes "run_orchestration w i mx c k = (r, k')" "all_in_order (steps_of i k)"
  shows "all_in_order (steps_of i k')"
  using batch_ran [OF assms(1)] batch_in_order assms(2) by blast


section \<open>The budget\<close>

definition judged :: "batch_result \<Rightarrow> nat" where
  "judged res = br_completed res + br_failed res + br_blocked res"

lemma judged_tally [simp]: "judged (tally n a t exec res) = judged res + 1"
  by (auto simp: judged_def tally_def Let_def split: sum.split)

lemma judged_ran [simp]: "judged (res\<lparr>br_ran := x\<rparr>) = judged res" "judged (res\<lparr>br_dependency_blocked := x\<rparr>) = judged res"
  by (simp_all add: judged_def)

lemma prepare_brief_judged:
  "prepare_brief w i n b prep res k = (prep', res', k') \<Longrightarrow>
    judged res' + length (rp_prepared prep') = judged res + length (rp_prepared prep) + 1"
  by (auto simp: prepare_brief_def record_brief_outcome_def Let_def split: prod.splits sum.splits)

lemma prepare_briefs_judged:
  "prepare_briefs w i n bs prep res k = (prep', res', k') \<Longrightarrow>
    judged res' + length (rp_prepared prep') = judged res + length (rp_prepared prep) + length bs"
proof (induction bs arbitrary: prep res k)
  case (Cons b bs)
  obtain p1 r1 k1 where b: "prepare_brief w i n b prep res k = (p1, r1, k1)" by (metis surj_pair)
  with Cons prepare_brief_judged [OF b] show ?case by simp
qed simp

lemma finalize_briefs_judged: "finalize_briefs w i fs res k = (res', k') \<Longrightarrow> judged res' = judged res + length fs"
proof (induction fs arbitrary: res k)
  case (Cons f fs)
  obtain r j where f: "finalize_prepared_brief w i f res k = (r, j)" by fastforce
  then have "judged r = judged res + 1"
    by (auto simp: finalize_prepared_brief_def record_brief_outcome_def Let_def split: prod.splits)
  with f Cons show ?case by simp
qed simp

lemma prepare_round_judged:
  assumes "prepare_orchestration_round w i mx c n res k = (prep, res', k')"
  shows "judged res' + length (rp_prepared prep) + br_ran res = judged res + br_ran res'"
proof (cases "clamp 1 25 mx \<le> br_ran res")
  case True
  with assms prepare_no_budget [of mx res w i c n k] show ?thesis by (simp add: no_prep_def)
next
  case False
  then obtain bs res1 k1 where "prepare_briefs w i n bs no_prep res1 k1 = (prep, res', k')" "br_ran res1 = br_ran res"
      "judged res1 = judged res"
    using assms by (fastforce simp: prepare_orchestration_round_def Let_def split: prod.splits)
  from this(2,3) prepare_briefs_judged [OF this(1)] prepare_briefs_ran [OF this(1)] show ?thesis
    by (simp add: no_prep_def)
qed

lemma run_briefs_fewer: "run_briefs_in_parallel w now ps = Some fs \<Longrightarrow> length fs \<le> length ps"
  using run_briefs_some by fastforce

lemma rounds_bounds:
  "run_rounds w i mx c n res k = (Some (m, res'), k') \<Longrightarrow> br_ran res \<le> clamp 1 25 mx \<Longrightarrow> judged res \<le> br_ran res \<Longrightarrow>
    br_ran res' \<le> clamp 1 25 mx \<and> judged res' \<le> br_ran res' \<and> m + br_ran res \<le> n + br_ran res'"
proof (induction w i mx c n res k arbitrary: m res' k' rule: run_rounds.induct)
  case (1 w i mx c n res k)
  obtain prep res1 k1 where p: "prepare_orchestration_round w i mx c (n + 1) res k = (prep, res1, k1)" by (metis surj_pair)
  note j = prepare_round_judged [OF p]
  show ?case
  proof (cases "prep_ran prep")
    case False
    then have e: "m = n" "res' = res1" using "1.prems"(1) by (simp_all add: run_rounds.simps [of w i mx c n res k] p [simplified])
    show ?thesis
    proof (cases "clamp 1 25 mx \<le> br_ran res")
      case True
      with p prepare_no_budget [of mx res w i c "n + 1" k] "1.prems" e show ?thesis by simp
    next
      case budget: False
      obtain bs res2 k2 where b: "prepare_briefs w i (n + 1) bs no_prep res2 k2 = (prep, res1, k1)" "br_ran res2 = br_ran res"
        using p budget by (fastforce simp: prepare_orchestration_round_def Let_def split: prod.splits)
      have "length bs = 0" using prepare_briefs_count [OF b(1)] False by (simp add: prep_ran_def no_prep_def)
      then have "br_ran res1 = br_ran res" using prepare_briefs_ran [OF b(1)] b(2) by simp
      with "1.prems" e j show ?thesis by simp
    qed
  next
    case True
    note pr = prepare_round_progress [OF p True]
    from "1.prems"(1) True obtain fs where fs: "run_briefs_in_parallel w (clock k1) (rp_prepared prep) = Some fs"
      by (auto simp: run_rounds.simps [of w i mx c n res k] p [simplified] split: option.splits)
    obtain res2 k2 where f: "finalize_briefs w i fs res1 k1 = (res2, k2)" by fastforce
    have rest: "run_rounds w i mx c (n + 1) res2 k2 = (Some (m, res'), k')"
      using "1.prems"(1) True fs f by (simp add: run_rounds.simps [of w i mx c n res k] p [simplified])
    have r2: "br_ran res2 = br_ran res1" by (rule finalize_briefs_ran [OF f])
    have j2: "judged res2 \<le> br_ran res2"
      using finalize_briefs_judged [OF f] run_briefs_fewer [OF fs] j "1.prems"(3) r2 by simp
    have "br_ran res' \<le> clamp 1 25 mx \<and> judged res' \<le> br_ran res' \<and> m + br_ran res2 \<le> n + 1 + br_ran res'"
      by (rule "1.IH" [OF p [symmetric] refl _ fs f [symmetric] rest _ j2]) (use True pr r2 in simp_all)
    then show ?thesis using pr r2 by simp
  qed
qed

lemma overall_Running: "overall_status ss = ORunning \<longleftrightarrow> (\<exists>s \<in> set ss. pending s)"
  by (auto simp: overall_status_def pending_count_def filter_empty_conv)

lemma overall_Completed: "overall_status ss = OCompleted \<longleftrightarrow> (\<forall>s \<in> set ss. st_outcome s = StCompleted)"
proof -
  have "st_outcome s = StCompleted \<longleftrightarrow> \<not> pending s \<and> st_outcome s \<noteq> StBlocked \<and> st_outcome s \<noteq> StFailed" for s
    by (cases "st_outcome s") auto
  then show ?thesis by (auto simp: overall_status_def pending_count_def filter_empty_conv list_ex_iff)
qed

text \<open>C33. A batch that returns has attempted at most as many briefs as its budget, which is never more than 25,
  has taken no more rounds and reached no more verdicts than that, and its report is true of the briefs as
  it leaves them: how many are pending, whether all are completed.\<close>

theorem batch_report_true:
  assumes "run_orchestration w i mx c k = (Some (Inr res), k')"
  shows "br_ran res \<le> clamp 1 25 mx \<and> br_rounds res \<le> br_ran res \<and> judged res \<le> br_ran res
    \<and> br_pending res = pending_count (steps_of i k')
    \<and> (br_status res = OCompleted \<longleftrightarrow> (\<forall>s \<in> set (steps_of i k'). st_outcome s = StCompleted))
    \<and> (br_status res = ORunning \<longleftrightarrow> (\<exists>s \<in> set (steps_of i k'). st_outcome s = StPending))
    \<and> map_option o_status (get (orchestrations k') i) = Some (br_status res)"
proof -
  have known: "contains_key (orchestrations k) i"
    using assms by (auto simp: run_orchestration_def new_orchestration_batch_result_def split: if_splits)
  let ?new = "new_batch_result i (clamp 1 4 (clamp 1 4 c))"
  obtain x k1 where rr: "run_rounds w i (clamp 1 25 mx) (clamp 1 4 c) 0 ?new k = (x, k1)" by fastforce
  then obtain m r1 where x: "x = Some (m, r1)"
    and f: "finalize_orchestration_batch i (r1\<lparr>br_rounds := m\<rparr>) k1 = (Inr res, k')"
    using assms known by (auto simp: run_orchestration_def new_orchestration_batch_result_def split: option.splits prod.splits)
  have b: "br_ran r1 \<le> clamp 1 25 mx \<and> judged r1 \<le> br_ran r1 \<and> m \<le> br_ran r1"
    using rounds_bounds [OF rr [unfolded x]] by (simp add: new_batch_result_def judged_def)
  have "contains_key (orchestrations k1) i" using rounds_path [OF rr known] by simp
  from finalized_batch [OF f this] b show ?thesis
    by (auto simp: judged_def overall_Running overall_Completed)
qed


section \<open>No deadlock\<close>

definition earlier_deps :: "orchestration_step list \<Rightarrow> bool" where
  "earlier_deps ss \<longleftrightarrow> (\<forall>j < length ss. list_all (\<lambda>d. d < j) (st_depends_on (ss ! j)))"

lemma earlier_deps_kept: "steps_evolve ss ss' \<Longrightarrow> earlier_deps ss \<Longrightarrow> earlier_deps ss'"
  by (auto simp: earlier_deps_def steps_evolve_nth step_evolves_def same_brief_def)

text \<open>After blocking, the first pending brief is ready.\<close>

lemma first_pending_ready:
  assumes "earlier_deps ss" "j < length (unblocked ss)" "pending (unblocked ss ! j)"
  shows "\<exists>i < length (unblocked ss). ready (unblocked ss) i"
proof -
  let ?u = "unblocked ss"
  define i where "i = (LEAST i. i < length ?u \<and> pending (?u ! i))"
  have i: "i < length ?u" "pending (?u ! i)"
    using LeastI [of "\<lambda>i. i < length ?u \<and> pending (?u ! i)" j] assms(2,3) by (auto simp: i_def)
  have first: "\<not> pending (?u ! d)" if "d < i" for d
    using not_less_Least [of d "\<lambda>i. i < length ?u \<and> pending (?u ! i)"] that i(1) by (auto simp: i_def)
  have "\<not> has_fallen ?u (?u ! i)" by (rule block_updates_none [OF unblocked_settled i])
  moreover have "list_all (\<lambda>d. d < i) (st_depends_on (?u ! i))"
    using earlier_deps_kept [OF unblocked_evolves assms(1)] i(1) by (simp add: earlier_deps_def)
  moreover have "outcome_at ?u d = Some StCompleted" if "d < i" "\<not> fallen ?u d" for d
    using first [OF that(1)] that i(1) by (cases "st_outcome (?u ! d)") (auto simp: outcome_at_def fallen_def)
  ultimately have "ready ?u i"
    using i(2) by (auto simp: ready_def has_fallen_def list_ex_iff list_all_iff)
  with i(1) show ?thesis by blast
qed

lemma pending_count_card: "pending_count ss = card {j. j < length ss \<and> pending (ss ! j)}"
  by (simp add: pending_count_def length_filter_conv_card)

lemma unblocked_pending_le: "pending_count (unblocked ss) \<le> pending_count ss"
  using propagate_blocks [of 0 ss] unfolding unblocked_def by (metis add_0 le_add2 prod.collapse)

lemma attempted_pending_count:
  assumes "attempted n (set js) {} ss ss'" "distinct js" "\<forall>j \<in> set js. j < length ss \<and> pending (ss ! j)"
  shows "pending_count ss' + length js = pending_count ss"
proof -
  let ?P = "\<lambda>ss. {j. j < length ss \<and> pending (ss ! j)}"
  have "?P ss' = ?P ss - set js" using assms(1) by (auto simp: attempted_def split: if_splits)
  moreover have "set js \<subseteq> ?P ss" using assms(3) by auto
  ultimately have "card (?P ss') = card (?P ss) - card (set js)" "card (set js) \<le> card (?P ss)"
    by (auto intro: card_Diff_subset card_mono)
  then show ?thesis using distinct_card [OF assms(2)] by (simp add: pending_count_card)
qed

lemma attempted_nothing: "attempted n {} os a b \<Longrightarrow> b = a"
  by (auto simp: attempted_def intro: nth_equalityI)

lemma rounds_settle:
  "run_rounds w i mx c n res k = (r, k') \<Longrightarrow> contains_key (orchestrations k) i \<Longrightarrow> \<forall>now q. \<not> w_panics w now q \<Longrightarrow>
    earlier_deps (steps_of i k) \<Longrightarrow> br_ran res + pending_count (steps_of i k) \<le> clamp 1 25 mx \<Longrightarrow>
    r \<noteq> None \<and> pending_count (steps_of i k') = 0"
proof (induction w i mx c n res k arbitrary: r k' rule: run_rounds.induct)
  case (1 w i mx c n res k)
  let ?ss = "steps_of i k"
  obtain prep res1 k1 where p: "prepare_orchestration_round w i mx c (n + 1) res k = (prep, res1, k1)" by (metis surj_pair)
  show ?case
  proof (cases "br_ran res < clamp 1 25 mx")
    case False
    then have "pending_count ?ss = 0" "prep = no_prep" "k1 = k"
      using "1.prems"(5) p prepare_no_budget [of mx res w i c "n + 1" k] by simp_all
    then show ?thesis using "1.prems"(1) by (auto simp: run_rounds.simps [of w i mx c n res k] p [simplified])
  next
    case budget: True
    define js where "js = take (min (clamp 1 4 c) (clamp 1 25 mx - br_ran res)) (filter (ready (unblocked ?ss)) [0..<length (unblocked ?ss)])"
    note pr = prepared_round [OF p "1.prems"(2) budget, folded js_def]
    have one: "1 \<le> min (clamp 1 4 c) (clamp 1 25 mx - br_ran res)" using clamp_in [of 1 4 c] budget by simp
    show ?thesis
    proof (cases "prep_ran prep")
      case False
      then have "js = []" using pr by blast
      then have "filter (ready (unblocked ?ss)) [0..<length (unblocked ?ss)] = []"
        using one by (auto simp: js_def take_eq_Nil)
      then have "\<not> pending (unblocked ?ss ! j)" if "j < length (unblocked ?ss)" for j
        using first_pending_ready [OF "1.prems"(4) that] by (auto simp: filter_empty_conv)
      then have "pending_count (unblocked ?ss) = 0"
        by (auto simp: pending_count_def filter_empty_conv in_set_conv_nth)
      moreover have "steps_of i k1 = unblocked ?ss"
        using pr unfolding \<open>js = []\<close> list.set(1) by (blast intro: attempted_nothing)
      ultimately show ?thesis
        using "1.prems"(1) False by (auto simp: run_rounds.simps [of w i mx c n res k] p [simplified])
    next
      case True
      obtain fs where fs: "run_briefs_in_parallel w (clock k1) (rp_prepared prep) = Some fs"
        using "1.prems"(3) by (auto simp: run_briefs_in_parallel_def list_ex_iff)
      obtain res2 k2 where f: "finalize_briefs w i fs res1 k1 = (res2, k2)" by fastforce
      have rest: "run_rounds w i mx c (n + 1) res2 k2 = (r, k')"
        using "1.prems"(1) True fs f by (simp add: run_rounds.simps [of w i mx c n res k] p [simplified])
      obtain os where e: "round_effect (set js) os (n + 1) ?ss (steps_of i k2)" "os = {}"
          "contains_key (orchestrations k2) i"
        using finished_round [OF p "1.prems"(2) budget fs f, folded js_def] "1.prems"(3) by blast
      have "pending_count (steps_of i k2) + length js = pending_count (unblocked ?ss)"
      proof (rule attempted_pending_count)
        show "attempted (n + 1) (set js) {} (unblocked ?ss) (steps_of i k2)" using e(1,2) by (simp add: round_effect_def)
        show "distinct js" by (simp add: js_def distinct_take)
        show "\<forall>j \<in> set js. j < length (unblocked ?ss) \<and> pending (unblocked ?ss ! j)"
          using e(1) unfolding round_effect_def ready_def by blast
      qed
      moreover have "br_ran res2 = br_ran res + length js" using finalize_briefs_ran [OF f] pr by simp
      ultimately have "br_ran res2 + pending_count (steps_of i k2) \<le> clamp 1 25 mx"
        using unblocked_pending_le [of ?ss] "1.prems"(5) by simp
      moreover have "earlier_deps (steps_of i k2)"
        by (rule earlier_deps_kept [OF round_effect_evolves [OF e(1)] "1.prems"(4)])
      ultimately show ?thesis
        by (intro "1.IH" [OF p [symmetric] refl _ fs f [symmetric] rest e(3) "1.prems"(3)]) (simp_all add: True)
    qed
  qed
qed

lemma batch_returns:
  assumes "contains_key (orchestrations k) i" "\<forall>now q. \<not> w_panics w now q" "earlier_deps (steps_of i k)"
    and "pending_count (steps_of i k) \<le> clamp 1 25 mx" "run_orchestration w i mx c k = (r, k')"
  shows "\<exists>res k1. r = Some (Inr res) \<and> pending_count (steps_of i k1) = 0 \<and> steps_of i k' = unblocked (steps_of i k1)"
proof -
  let ?new = "new_batch_result i (clamp 1 4 (clamp 1 4 c))"
  obtain x k1 where rr: "run_rounds w i (clamp 1 25 mx) (clamp 1 4 c) 0 ?new k = (x, k1)" by fastforce
  have s: "x \<noteq> None \<and> pending_count (steps_of i k1) = 0"
    by (rule rounds_settle [OF rr assms(1-3)]) (use assms(4) in \<open>simp add: new_batch_result_def\<close>)
  then obtain m r1 where x: "x = Some (m, r1)" by (cases x) auto
  obtain r2 where f: "finalize_orchestration_batch i (r1\<lparr>br_rounds := m\<rparr>) k1 = (r2, k')" "r = Some r2"
    using assms(1,5) rr [simplified] x
    by (auto simp: run_orchestration_def new_orchestration_batch_result_def split: prod.splits)
  have "contains_key (orchestrations k1) i" using rounds_path [OF rr assms(1)] by simp
  from finalized_batch [OF f(1) this] s f(2) show ?thesis by auto
qed

text \<open>C18. A batch cannot get stuck: where no process panics and no brief waits for a later one, a budget that
  covers the pending briefs leaves none pending: the batch returns, and each brief is completed, failed or
  blocked.\<close>

theorem batch_settles:
  assumes "contains_key (orchestrations k) i" "\<forall>now q. \<not> w_panics w now q" "earlier_deps (steps_of i k)"
    and "pending_count (steps_of i k) \<le> clamp 1 25 mx" "run_orchestration w i mx c k = (r, k')"
  shows "\<exists>res. r = Some (Inr res) \<and> (\<forall>s \<in> set (steps_of i k'). st_outcome s \<noteq> StPending)"
proof -
  obtain res k1 where r: "r = Some (Inr res)" "pending_count (steps_of i k1) = 0" "steps_of i k' = unblocked (steps_of i k1)"
    using batch_returns [OF assms] by blast
  then have "pending_count (steps_of i k') = 0" using unblocked_pending_le [of "steps_of i k1"] by simp
  then show ?thesis using r(1) by (auto simp: pending_count_def filter_empty_conv)
qed

end
