(* ===== verification/Relux_Jobs_Props.thy ===== *)
theory Relux_Jobs_Props
  imports Relux_Jobs Relux_Reachable Relux_Orchestration
begin

text \<open>
  Background jobs among everything else that happens: a site is a kernel, the registry of jobs and the
  workers that are alive; requests and the steps of workers interleave in any order. What holds of every
  site that is reached, how long a worker can last, and what the registry promises and does not keep.
\<close>

section \<open>Sites\<close>

record site =
  s_kernel :: kernel
  s_jobs :: job_store
  s_workers :: "(ustr, worker) hash_map"

definition put_worker :: "ustr \<Rightarrow> worker option \<Rightarrow> (ustr, worker) hash_map \<Rightarrow> (ustr, worker) hash_map" where
  "put_worker i r ws = (case r of None \<Rightarrow> hremove i ws | Some wk \<Rightarrow> hinsert i wk ws)"

inductive site_step :: "site \<Rightarrow> site \<Rightarrow> bool" where
  site_request: "control_step (s_kernel s) k \<Longrightarrow> site_step s (s\<lparr>s_kernel := k\<rparr>)"
| site_start: "start_orchestration_job i mx c extended (s_kernel s, s_jobs s) = (Inr wk, st) \<Longrightarrow>
    site_step s (s\<lparr>s_jobs := st, s_workers := hinsert (wk_job wk) wk (s_workers s)\<rparr>)"
| site_cancel: "site_step s (s\<lparr>s_jobs := snd (request_cancel i (s_jobs s))\<rparr>)"
| site_work: "get (s_workers s) i = Some wk \<Longrightarrow> worker_step w ms now wk (s_kernel s, s_jobs s) = (r, k, st) \<Longrightarrow>
    site_step s (s\<lparr>s_kernel := k, s_jobs := st, s_workers := put_worker i r (s_workers s)\<rparr>)"

inductive_cases site_stepE: "site_step s s'"

definition site_reachable :: "site \<Rightarrow> bool" where
  "site_reachable s \<longleftrightarrow>
     site_step\<^sup>*\<^sup>* \<lparr>s_kernel = new_kernel, s_jobs = \<lparr>jobs = [], job_counter = 0\<rparr>, s_workers = []\<rparr> s"

section \<open>The registry\<close>

definition active_ids :: "job_store \<Rightarrow> ustr set" where
  "active_ids st = {i. \<exists>j. get (jobs st) i = Some j \<and> active j}"

definition one_active :: "job_store \<Rightarrow> bool" where
  "one_active st \<longleftrightarrow> (\<forall>i j i' j'. get (jobs st) i = Some j \<longrightarrow> get (jobs st) i' = Some j' \<longrightarrow> active j \<longrightarrow> active j'
     \<longrightarrow> j_orchestration j = j_orchestration j' \<longrightarrow> i = i')"

definition store_ok :: "job_store \<Rightarrow> bool" where
  "store_ok st \<longleftrightarrow> wf_map (jobs st) \<and> one_active st \<and> card (active_ids st) \<le> MAX_ACTIVE_JOBS_CEIL
     \<and> (\<forall>i j. get (jobs st) i = Some j \<longrightarrow> j_id j = i \<and> minted ''job_'' (job_counter st) i)"

lemma finite_active [simp]: "finite (active_ids st)"
  by (rule finite_subset [OF _ finite_dom_map_of [of "jobs st"]]) (auto simp: active_ids_def)

lemma active_count: "wf_map (jobs st) \<Longrightarrow> length (filter active (vals (jobs st))) = card (active_ids st)"
proof -
  assume w: "wf_map (jobs st)"
  then have d: "distinct (map fst (filter (active \<circ> snd) (jobs st)))"
    unfolding wf_map_def by (rule distinct_map_filter)
  have "active_ids st = set (map fst (filter (active \<circ> snd) (jobs st)))"
    using w by (force simp: active_ids_def wf_map_def)
  then have "card (active_ids st) = length (map fst (filter (active \<circ> snd) (jobs st)))"
    using distinct_card [OF d] by simp
  then show ?thesis by (simp add: vals_def filter_map)
qed

text \<open>An update of a job that neither revives it nor moves it.\<close>

definition job_evolves :: "job \<Rightarrow> job \<Rightarrow> bool" where
  "job_evolves j j' \<longleftrightarrow> j_id j' = j_id j \<and> j_orchestration j' = j_orchestration j \<and> (active j' \<longrightarrow> active j)"

lemma store_ok_update:
  assumes "store_ok st" "\<And>j. get (jobs st) i = Some j \<Longrightarrow> job_evolves j (f j)"
  shows "store_ok (update_job i f st)"
proof -
  have g: "\<exists>j. get (jobs st) i' = Some j \<and> job_evolves j j'" if "get (jobs (update_job i f st)) i' = Some j'" for i' j'
    using that assms(2) by (auto simp: update_job_def job_evolves_def split: if_splits)
  then have "active_ids (update_job i f st) \<subseteq> active_ids st"
    by (fastforce simp: active_ids_def job_evolves_def)
  then have "card (active_ids (update_job i f st)) \<le> MAX_ACTIVE_JOBS_CEIL"
    using assms(1) card_mono [OF finite_active] unfolding store_ok_def by (meson le_trans)
  moreover have "one_active (update_job i f st)"
    using assms(1) g unfolding store_ok_def one_active_def job_evolves_def by metis
  moreover have "j_id j' = i' \<and> minted ''job_'' (job_counter st) i'"
    if "get (jobs (update_job i f st)) i' = Some j'" for i' j'
    using g [OF that] assms(1) by (auto simp: store_ok_def job_evolves_def)
  moreover have "wf_map (jobs (update_job i f st))" "job_counter (update_job i f st) = job_counter st"
    using assms(1) by (simp_all add: store_ok_def update_job_def)
  ultimately show ?thesis by (simp add: store_ok_def)
qed

lemma store_ok_cancel: "store_ok st \<Longrightarrow> store_ok (snd (request_cancel i st))"
proof (cases "get (jobs st) i")
  case (Some j)
  assume ok: "store_ok st"
  have "snd (request_cancel i st) = (if active j then update_job i (\<lambda>j. j\<lparr>j_cancel_requested := True,
      j_last_event := Some (cps ''cancel requested - will stop after the in-flight round'')\<rparr>) st else st)"
    by (simp add: request_cancel_def Some update_job_def adjust_def Let_def)
  then show ?thesis using ok store_ok_update [OF ok] by (simp add: job_evolves_def active_def)
qed (simp add: request_cancel_def)

lemma started_job:
  assumes "store_ok st" "start_job orch mx c n st = (Inr j, st')" "n \<le> MAX_ACTIVE_JOBS_CEIL"
  shows "store_ok st' \<and> get (jobs st') (j_id j) = Some j \<and> active j \<and> j_orchestration j = orch
    \<and> \<not> contains_key (jobs st) (j_id j) \<and> (\<forall>i. i \<noteq> j_id j \<longrightarrow> get (jobs st') i = get (jobs st) i)"
proof -
  have none: "List.find (\<lambda>j. j_orchestration j = orch \<and> active j) (vals (jobs st)) = None"
    and room: "length (filter active (vals (jobs st))) < n"
    and st': "jobs st' = hinsert (j_id j) j (jobs st)" "job_counter st' = Suc (job_counter st)"
    and j: "j_id j = numbered ''job_'' (Suc (job_counter st))" "active j" "j_orchestration j = orch"
    using assms(2) by (auto simp: start_job_def active_def Let_def split: option.splits if_splits)
  have ok: "wf_map (jobs st)" "one_active st"
      "\<And>i j. get (jobs st) i = Some j \<Longrightarrow> j_id j = i \<and> minted ''job_'' (job_counter st) i"
    using assms(1) by (auto simp: store_ok_def)
  have new: "get (jobs st) (j_id j) = None" using ok(3) [of "j_id j"] by (cases "get (jobs st) (j_id j)") (auto simp: j(1))
  have other: "j_orchestration j' \<noteq> orch" if "get (jobs st) i = Some j'" "active j'" for i j'
    using none get_in_vals [OF that(1)] that(2) by (auto simp: find_None_iff)
  have "active_ids st' \<subseteq> insert (j_id j) (active_ids st)" by (auto simp: active_ids_def st'(1))
  then have "card (active_ids st') \<le> Suc (card (active_ids st))"
    using card_mono [of "insert (j_id j) (active_ids st)" "active_ids st'"]
    by (simp add: card_insert_if split: if_splits)
  then have "card (active_ids st') \<le> MAX_ACTIVE_JOBS_CEIL" using room assms(3) active_count [OF ok(1)] by simp
  moreover have "one_active st'" using ok(2) other unfolding one_active_def st'(1) by (auto simp: j(3)) metis
  moreover have "minted ''job_'' (Suc n) i" if "minted ''job_'' n i" for n i
    using that by (auto simp: minted_def intro: le_SucI)
  ultimately have "store_ok st'"
    using ok by (auto simp: store_ok_def st' j(1))
  then show ?thesis using new j by (simp add: st' contains_key_def)
qed

section \<open>The steps of a worker\<close>

lemma job_evolves_shown [simp]:
  "job_evolves j (f j) \<Longrightarrow> job_evolves j (steps_shown i running k (f j))" for f
  by (simp add: steps_shown_def job_evolves_def active_def split: option.split)

lemma job_evolves_updates [simp]:
  "active j \<Longrightarrow> job_evolves j (begin_job ms j)" "job_evolves j (fail_job ms e j)"
  "job_evolves j (end_job ms c wk k j)" "job_evolves j (show_round wk r k j)" "job_evolves j (show_in_flight wk ps k j)"
  by (auto simp: begin_job_def fail_job_def end_job_def show_round_def show_in_flight_def steps_shown_def
      job_evolves_def active_def Let_def split: option.split)

lemma still_active [simp]:
  "active j \<Longrightarrow> active (begin_job ms j)" "active (show_round wk r k j) = active j" "active (show_in_flight wk ps k j) = active j"
  by (auto simp: begin_job_def show_round_def show_in_flight_def steps_shown_def active_def Let_def split: option.split)

lemma steps_prepare_locked: "steps k0 k \<Longrightarrow> steps k0 (snd (prepare_locked w i b c n k))"
  using steps_prepare_round [of k0 k w i b c n "new_batch_result i (clamp 1 4 c)"]
  by (auto simp: prepare_locked_def new_orchestration_batch_result_def case_prod_beta)

lemma steps_finish_locked: "steps k0 k \<Longrightarrow> steps k0 (snd (finish_locked w i fs res k))"
  using steps_finalize_briefs [of k0 k w i fs res]
  by (auto simp: finish_locked_def case_prod_beta intro: finalize_orchestration_batch.governs_after)

lemma prepare_locked_round:
  assumes "prepare_locked w i b c n k = (Inr (res, ps), k')"
  shows "\<exists>js. attempted n (set js) (set (map pb_index ps)) (unblocked (steps_of i k)) (steps_of i k')
    \<and> distinct (map pb_index ps) \<and> br_ran res = length js \<and> length js \<le> min (clamp 1 4 c) (clamp 1 25 b)
    \<and> (\<forall>j \<in> set js. j < length (unblocked (steps_of i k)) \<and> ready (unblocked (steps_of i k)) j)"
proof -
  define res0 where "res0 = new_batch_result i (clamp 1 4 c)"
  have r0: "br_ran res0 = 0" by (simp add: res0_def new_batch_result_def)
  obtain prep where k: "contains_key (orchestrations k) i"
    and p: "prepare_orchestration_round w i b c n res0 k = (prep, res, k')" and ps: "ps = rp_prepared prep"
    using assms by (auto simp: prepare_locked_def new_orchestration_batch_result_def res0_def
        split: if_splits prod.splits)
  define js where "js = take (min (clamp 1 4 c) (clamp 1 25 b - br_ran res0))
      (filter (ready (unblocked (steps_of i k))) [0..<length (unblocked (steps_of i k))])"
  have "br_ran res0 < clamp 1 25 b" using clamp_in [of 1 25 b] r0 by simp
  note pr = prepared_round [OF p k this, folded js_def ps]
  have "length js \<le> min (clamp 1 4 c) (clamp 1 25 b)" by (auto simp: js_def r0)
  moreover have "\<forall>j \<in> set js. j < length (unblocked (steps_of i k)) \<and> ready (unblocked (steps_of i k)) j"
    by (auto simp: js_def dest!: in_set_takeD)
  ultimately show ?thesis using pr r0 by (intro exI [of _ js]) simp
qed

lemma prepare_locked_within:
  assumes "prepare_locked w i b c n k = (Inr (res, ps), k')" "1 \<le> b" "b \<le> 25"
  shows "br_ran res \<le> b \<and> length ps \<le> clamp 1 4 c"
proof -
  obtain js where js: "attempted n (set js) (set (map pb_index ps)) (unblocked (steps_of i k)) (steps_of i k')"
      "distinct (map pb_index ps)" "br_ran res = length js" "length js \<le> min (clamp 1 4 c) (clamp 1 25 b)"
    using prepare_locked_round [OF assms(1)] by blast
  have "length ps = card (set (map pb_index ps))" using distinct_card [OF js(2)] by simp
  also have "\<dots> \<le> card (set js)" using js(1) by (intro card_mono) (auto simp: attempted_def)
  also have "\<dots> \<le> length js" by (rule card_length)
  finally show ?thesis using js(3,4) assms(2,3) by (simp add: clamp_def [of _ 25])
qed

lemma finish_locked_ran:
  assumes "finish_locked w i fs res k = (Inr res', k')"
  shows "br_ran res' = br_ran res \<and> br_rounds res' = 1"
proof -
  obtain r1 k1 where f: "finalize_briefs w i fs res k = (r1, k1)" by fastforce
  then have e: "finalize_orchestration_batch i (r1\<lparr>br_rounds := 1\<rparr>) k1 = (Inr res', k')"
    using assms by (simp add: finish_locked_def)
  then have "contains_key (orchestrations k1) i"
    by (auto simp: finalize_orchestration_batch_def contains_key_def split: option.splits)
  with finalized_batch [OF e] finalize_briefs_ran [OF f] show ?thesis by auto
qed

text \<open>Within its budget, before a round and with a round in flight.\<close>

definition spent :: "worker \<Rightarrow> nat" where
  "spent wk = wk_total wk + (case wk_phase wk of InFlight res ps \<Rightarrow> br_ran res | _ \<Rightarrow> 0)"

definition in_flight :: "worker \<Rightarrow> prepared_brief list" where
  "in_flight wk = (case wk_phase wk of InFlight res ps \<Rightarrow> ps | _ \<Rightarrow> [])"

definition worker_ok :: "worker \<Rightarrow> bool" where
  "worker_ok wk \<longleftrightarrow> 1 \<le> wk_max wk \<and> wk_max wk \<le> 25 \<and> spent wk \<le> wk_max wk \<and> length (in_flight wk) \<le> 4
     \<and> ja_ran (wk_agg wk) = wk_total wk"

definition steps_left :: "worker \<Rightarrow> nat" where
  "steps_left wk = 2 * (wk_max wk - wk_total wk) + (case wk_phase wk of Spawned \<Rightarrow> 2 | LoopHead \<Rightarrow> 1 | InFlight _ _ \<Rightarrow> 0)"

lemma worker_head_step:
  assumes "worker_ok wk" "wk_phase wk = LoopHead" "worker_head w ms wk (k, st) = (Some wk', k', st')"
  shows "worker_ok wk' \<and> steps_left wk' < steps_left wk \<and> wk_job wk' = wk_job wk \<and> wk_orch wk' = wk_orch wk \<and> wk_max wk' = wk_max wk"
proof -
  have lt: "wk_total wk < wk_max wk" and "\<not> is_cancel_requested (wk_job wk) st"
    using assms(3) by (auto simp: worker_head_def split: if_splits)
  with assms(3) obtain res ps k1 where p: "prepare_locked w (wk_orch wk) (job_budget wk) (wk_concurrency wk) (wk_round wk + 1) k
      = (Inr (res, ps), k1)" and wk': "wk' = wk\<lparr>wk_round := wk_round wk + 1, wk_phase := InFlight res ps\<rparr>"
    by (auto simp: worker_head_def Let_def split: prod.splits sum.splits)
  have b: "1 \<le> job_budget wk" "job_budget wk \<le> wk_max wk - wk_total wk" "job_budget wk \<le> 25"
    using lt assms(1) clamp_in [of 1 4 "wk_concurrency wk"] by (auto simp: job_budget_def worker_ok_def)
  have "br_ran res \<le> job_budget wk" "length ps \<le> 4"
    using prepare_locked_within [OF p b(1,3)] clamp_in [of 1 4 "wk_concurrency wk"] by auto
  then show ?thesis
    using assms(1,2) lt b(2) by (simp add: wk' worker_ok_def spent_def in_flight_def steps_left_def)
qed

lemma worker_finish_step:
  assumes "worker_ok wk" "wk_phase wk = InFlight res ps" "worker_finish w ms now res ps wk (k, st) = (Some wk', k', st')"
  shows "worker_ok wk' \<and> steps_left wk' < steps_left wk \<and> wk_job wk' = wk_job wk \<and> wk_orch wk' = wk_orch wk \<and> wk_max wk' = wk_max wk"
proof -
  obtain fs res' k1 where f: "finish_locked w (wk_orch wk) fs res k = (Inr res', k1)" "br_ran res' \<noteq> 0"
    and wk': "wk' = wk\<lparr>wk_total := wk_total wk + br_ran res', wk_agg := merge_round res' (wk_agg wk), wk_phase := LoopHead\<rparr>"
    using assms(3) by (auto simp: worker_finish_def Let_def split: prod.splits sum.splits option.splits if_splits)
  then show ?thesis
    using assms(1,2) finish_locked_ran [OF f(1)]
    by (auto simp: wk' worker_ok_def spent_def in_flight_def steps_left_def merge_round_def)
qed

lemma worker_step_ok:
  assumes "worker_ok wk" "worker_step w ms now wk s = (Some wk', s')"
  shows "worker_ok wk' \<and> steps_left wk' < steps_left wk \<and> wk_job wk' = wk_job wk \<and> wk_orch wk' = wk_orch wk \<and> wk_max wk' = wk_max wk"
proof (cases "wk_phase wk")
  case Spawned
  then show ?thesis using assms by (auto simp: worker_step_def worker_ok_def spent_def in_flight_def steps_left_def)
next
  case LoopHead
  then show ?thesis using assms worker_head_step [OF assms(1) LoopHead]
    by (cases s; cases s') (simp add: worker_step_def)
next
  case (InFlight res ps)
  then show ?thesis using assms worker_finish_step [OF assms(1) InFlight]
    by (cases s; cases s') (simp add: worker_step_def)
qed

lemma hinsert_twice [simp]: "hinsert i v (hinsert i u m) = hinsert i v m"
  by (induction m) auto

lemma hinsert_same: "get m i = Some v \<Longrightarrow> hinsert i v m = m"
  by (induction m) auto

lemma update_job_same [simp]: "update_job i (\<lambda>j. j) st = st"
  by (simp add: update_job_def adjust_def hinsert_same split: option.split)

lemma update_job_twice: "update_job i f (update_job i g st) = update_job i (f \<circ> g) st"
  by (simp add: update_job_def adjust_def split: option.split)

text \<open>What a step makes of the registry: updates of the worker's own job only, which stay active as long as the
  worker is there.\<close>

lemma worker_step_store:
  assumes "worker_step w ms now wk (k, st) = (r, k', st')"
  shows "(\<exists>f. st' = update_job (wk_job wk) f st
      \<and> (\<forall>j. active j \<longrightarrow> job_evolves j (f j) \<and> (r \<noteq> None \<longrightarrow> active (f j)))) \<and> steps k k'"
proof (cases "wk_phase wk")
  case Spawned
  then show ?thesis using assms by (auto simp: worker_step_def)
next
  case LoopHead
  have "steps k (snd (prepare_locked w (wk_orch wk) (job_budget wk) (wk_concurrency wk) (wk_round wk + 1) k))"
    by (rule steps_prepare_locked [OF steps_refl])
  with LoopHead assms show ?thesis
    by (auto simp: worker_step_def worker_head_def Let_def split: if_splits prod.splits sum.splits)
next
  case (InFlight res ps)
  have f: "steps k k1" if "finish_locked w (wk_orch wk) fs res k = (x, k1)" for fs x k1
    using steps_finish_locked [OF steps_refl, of k w "wk_orch wk" fs res] that by simp
  show ?thesis
  proof (cases "run_briefs_in_parallel w now ps")
    case None
    then have "st' = update_job (wk_job wk) (\<lambda>j. j) st" "r = None" "k' = k"
      using assms InFlight None by (simp_all add: worker_step_def worker_finish_def)
    then show ?thesis by (auto simp: job_evolves_def simp del: update_job_same intro!: exI [of _ "\<lambda>j. j"])
  next
    case (Some fs)
    obtain x k1 where x: "finish_locked w (wk_orch wk) fs res k = (x, k1)" by fastforce
    show ?thesis
    proof (cases x)
      case (Inl e)
      then show ?thesis using assms InFlight Some x f [OF x] by (auto simp: worker_step_def worker_finish_def)
    next
      case (Inr res')
      have "job_evolves j (end_job ms b wk1 k1 (show_round wk res' k1 j))" for j b wk1
        using job_evolves_updates(3) [of "show_round wk res' k1 j"] job_evolves_updates(4) [of j]
        by (simp add: job_evolves_def)
      then show ?thesis
        using assms InFlight Some x f [OF x] Inr
        by (fastforce simp: worker_step_def worker_finish_def Let_def update_job_twice split: if_splits)
    qed
  qed
qed

section \<open>What holds of every site\<close>

definition workers_ok :: "site \<Rightarrow> bool" where
  "workers_ok s \<longleftrightarrow> (\<forall>i wk. get (s_workers s) i = Some wk \<longrightarrow> worker_ok wk \<and> wk_job wk = i
     \<and> (\<exists>j. get (jobs (s_jobs s)) i = Some j \<and> active j \<and> j_orchestration j = orchestration_text (wk_orch wk)))"

definition site_ok :: "site \<Rightarrow> bool" where
  "site_ok s \<longleftrightarrow> wf (s_kernel s) \<and> store_ok (s_jobs s) \<and> workers_ok s"

lemma workers_okD:
  "workers_ok s \<Longrightarrow> get (s_workers s) i = Some wk \<Longrightarrow> worker_ok wk \<and> wk_job wk = i
     \<and> (\<exists>j. get (jobs (s_jobs s)) i = Some j \<and> active j \<and> j_orchestration j = orchestration_text (wk_orch wk))"
  by (simp add: workers_ok_def)

lemma get_put_worker [simp]: "get (put_worker i r ws) i' = (if i' = i then r else get ws i')"
  by (simp add: put_worker_def split: option.split)

lemma cancel_keeps_jobs:
  "get (jobs st) i = Some j \<Longrightarrow> \<exists>j'. get (jobs (snd (request_cancel c st))) i = Some j'
     \<and> active j' = active j \<and> j_orchestration j' = j_orchestration j"
  by (auto simp: request_cancel_def active_def Let_def split: option.split)

lemma site_start_ok:
  assumes ok: "site_ok s" and start: "start_orchestration_job i mx c extended (s_kernel s, s_jobs s) = (Inr wk, st)"
  shows "site_ok (s\<lparr>s_jobs := st, s_workers := hinsert (wk_job wk) wk (s_workers s)\<rparr>)"
proof -
  obtain j where j: "start_job i (clamp 1 25 (given mx 25)) (clamp 1 4 (given c 2))
      (active_jobs (agent_policy (s_kernel s)) extended) (s_jobs s) = (Inr j, st)"
    and wk: "wk = new_worker (j_id j) (OrchestrationId i) (clamp 1 25 (given mx 25)) (clamp 1 4 (given c 2))"
    using start by (auto simp: start_orchestration_job_def Let_def split: if_splits prod.splits sum.splits)
  have "active_jobs (agent_policy (s_kernel s)) extended \<le> MAX_ACTIVE_JOBS_CEIL"
    using limits_within_ceilings by (simp add: active_jobs_def)
  from started_job [OF _ j this] ok have g: "store_ok st" "get (jobs st) (j_id j) = Some j" "active j"
      "j_orchestration j = i" "\<forall>i. i \<noteq> j_id j \<longrightarrow> get (jobs st) i = get (jobs (s_jobs s)) i"
    by (auto simp: site_ok_def)
  have "worker_ok wk" using clamp_in [of 1 25 "given mx 25"]
    by (simp add: wk new_worker_def worker_ok_def spent_def in_flight_def no_aggregate_def)
  with g ok show ?thesis
    by (auto simp: site_ok_def workers_ok_def wk new_worker_def)
qed

lemma site_work_ok:
  assumes ok: "site_ok s" and i: "get (s_workers s) i = Some wk"
    and step: "worker_step w ms now wk (s_kernel s, s_jobs s) = (r, k, st)"
  shows "site_ok (s\<lparr>s_kernel := k, s_jobs := st, s_workers := put_worker i r (s_workers s)\<rparr>)"
proof -
  have wk: "worker_ok wk" "wk_job wk = i"
    and "\<exists>j. get (jobs (s_jobs s)) i = Some j \<and> active j \<and> j_orchestration j = orchestration_text (wk_orch wk)"
    using ok i workers_okD [of s i wk] by (auto simp: site_ok_def)
  then obtain j where j: "get (jobs (s_jobs s)) i = Some j" "active j" "j_orchestration j = orchestration_text (wk_orch wk)"
    by blast
  obtain f where f: "st = update_job i f (s_jobs s)" "job_evolves j (f j)" "r \<noteq> None \<Longrightarrow> active (f j)" "steps (s_kernel s) k"
    using worker_step_store [OF step] j(2) wk(2) by blast
  have "wf k" using f(4) ok by (simp add: steps_def site_ok_def)
  moreover have "store_ok st"
    unfolding f(1) using ok f(2) j(1) by (intro store_ok_update) (auto simp: site_ok_def)
  moreover have "worker_ok wk' \<and> wk_job wk' = i \<and> active (f j) \<and> j_orchestration (f j) = orchestration_text (wk_orch wk')"
    if "r = Some wk'" for wk'
    using worker_step_ok [OF wk(1), of w ms now _ wk'] step that f(2,3) j(3) wk(2) by (force simp: job_evolves_def)
  ultimately show ?thesis
    using ok j(1) by (auto simp: site_ok_def workers_ok_def f(1) update_job_def)
qed

lemma site_step_ok: "site_step s s' \<Longrightarrow> site_ok s \<Longrightarrow> site_ok s'"
proof (induction rule: site_step.induct)
  case (site_request s k)
  then show ?case using control_step_governed by (auto simp: site_ok_def workers_ok_def steps_def)
next
  case (site_start i mx c extended s wk st)
  then show ?case using site_start_ok by blast
next
  case (site_cancel s i)
  then show ?case using store_ok_cancel cancel_keeps_jobs unfolding site_ok_def workers_ok_def by fastforce
next
  case (site_work s i wk w ms now r k st)
  then show ?case using site_work_ok by blast
qed

lemma site_reachable_ok: "site_reachable s \<Longrightarrow> site_ok s"
  unfolding site_reachable_def
proof (induction rule: rtranclp_induct)
  case base
  show ?case using new_kernel_wf
    by (simp add: site_ok_def workers_ok_def store_ok_def one_active_def active_ids_def)
qed (rule site_step_ok)

text \<open>C13. However requests and workers interleave, no orchestration has two active jobs, the jobs that are active are
  never more than the ceiling of the policy, and every worker alive works on an active job of its own, has
  spent at most the budget of at most 25 briefs that the job was given, and has at most four processes in flight.\<close>

theorem jobs_bounded:
  assumes "site_reachable s"
  shows "wf (s_kernel s) \<and> one_active (s_jobs s) \<and> length (filter active (vals (jobs (s_jobs s)))) \<le> MAX_ACTIVE_JOBS_CEIL
    \<and> (\<forall>i wk. get (s_workers s) i = Some wk \<longrightarrow> i \<in> active_ids (s_jobs s) \<and> spent wk \<le> wk_max wk \<and> wk_max wk \<le> 25
        \<and> length (in_flight wk) \<le> 4)"
proof -
  have ok: "site_ok s" by (rule site_reachable_ok [OF assms])
  then have "\<forall>i wk. get (s_workers s) i = Some wk \<longrightarrow> i \<in> active_ids (s_jobs s) \<and> worker_ok wk"
    using workers_okD by (fastforce simp: site_ok_def active_ids_def)
  with ok active_count [of "s_jobs s"] show ?thesis by (auto simp: site_ok_def store_ok_def worker_ok_def)
qed

text \<open>A worker's own steps, with anything at all happening in between.\<close>

definition goes_on :: "worker \<Rightarrow> worker \<Rightarrow> bool" where
  "goes_on wk wk' \<longleftrightarrow> (\<exists>w ms now s s'. worker_step w ms now wk s = (Some wk', s'))"

lemma goes_on_ends: "(goes_on ^^ n) wk wk' \<Longrightarrow> worker_ok wk \<Longrightarrow> worker_ok wk' \<and> n + steps_left wk' \<le> steps_left wk"
proof (induction n arbitrary: wk')
  case (Suc n)
  then obtain u where u: "(goes_on ^^ n) wk u" "goes_on u wk'" by auto
  with Suc have "worker_ok u" "n + steps_left u \<le> steps_left wk" by blast+
  with u(2) show ?case using worker_step_ok [of u] by (fastforce simp: goes_on_def)
qed simp

text \<open>C25. A job ends: whatever else happens between its steps, its worker takes fewer than two steps for each brief
  of its budget and two more to begin, so at most 52, before it is gone.\<close>

theorem worker_ends:
  assumes "start_orchestration_job i mx c extended s = (Inr wk, st)" "(goes_on ^^ n) wk wk'"
  shows "n \<le> 2 * wk_max wk + 2 \<and> wk_max wk \<le> 25"
proof -
  have wk: "wk_total wk = 0" "wk_phase wk = Spawned" "1 \<le> wk_max wk" "wk_max wk \<le> 25" "ja_ran (wk_agg wk) = 0"
    using assms(1) clamp_in [of 1 25 "given mx 25"]
    by (auto simp: start_orchestration_job_def new_worker_def no_aggregate_def Let_def split: if_splits prod.splits sum.splits)
  then have "worker_ok wk" by (simp add: worker_ok_def spent_def in_flight_def)
  from goes_on_ends [OF assms(2) this] wk show ?thesis by (simp add: steps_left_def)
qed

section \<open>What the window between two holds of the lock lets in\<close>

text \<open>A brief whose process is in flight is still ready: whoever prepares a round of the same orchestration before
  the first round is written back finds it among the briefs to be run, and runs it a second time.\<close>

theorem in_flight_stays_ready:
  assumes "prepare_locked w i b c n k = (Inr (res, ps), k')" "p \<in> set ps"
  shows "pb_index p < length (steps_of i k') \<and> ready (steps_of i k') (pb_index p)"
proof -
  let ?u = "unblocked (steps_of i k)"
  let ?j = "pb_index p"
  obtain js where at: "attempted n (set js) (set (map pb_index ps)) ?u (steps_of i k')"
    and js: "\<forall>j \<in> set js. j < length ?u \<and> ready ?u j"
    using prepare_locked_round [OF assms(1)] by blast
  have j: "?j \<in> set (map pb_index ps)" using assms(2) by simp
  then have "?j < length ?u" "ready ?u ?j" "pending (steps_of i k' ! ?j)" "step_evolves (?u ! ?j) (steps_of i k' ! ?j)"
    using at js by (auto simp: attempted_def split: if_splits)
  moreover have "steps_evolve ?u (steps_of i k')" by (rule attempted_evolve [OF at]) 
  ultimately have "deps_done (steps_of i k') (steps_of i k' ! ?j)"
    using deps_done_mono [OF _ ready_deps_done] deps_done_same by (metis step_evolves_def same_brief_def)
  then show ?thesis using \<open>pending (steps_of i k' ! ?j)\<close> \<open>?j < length ?u\<close> at
    by (simp add: ready_def deps_done_def attempted_def)
qed

text \<open>
  Where the last process of a round panics, it takes the worker with it; the job stays active for ever, and
  its orchestration is refused every further job.
\<close>

lemma panicked_job_stays:
  assumes "get (jobs st) (wk_job wk) = Some j" "active j" "wk_phase wk = InFlight res ps"
    "run_briefs_in_parallel w now ps = None"
  shows "worker_step w ms now wk (k, st) = (None, k, st)
    \<and> (\<exists>i. start_job (j_orchestration j) mx c n st = (Inl (Duplicate i), st))"
proof -
  have "List.find (\<lambda>j'. j_orchestration j' = j_orchestration j \<and> active j') (vals (jobs st)) \<noteq> None"
    using get_in_vals [OF assms(1)] assms(2) by (auto simp: find_None_iff)
  then show ?thesis using assms(3,4) by (auto simp: worker_step_def worker_finish_def start_job_def Let_def)
qed

text \<open>The ids of jobs are compared as strings: past the four digits they are padded to, the largest is not the newest.\<close>

lemma numbered_10000: "numbered p 10000 < numbered p 9999"
proof -
  have "cps (pad_zeros 4 10000) < cps (pad_zeros 4 9999)"
    by (simp add: pad_zeros_def show_nat.simps digit_char_def cps_def char_of_def bit_0 Let_def)
  then show ?thesis by (simp add: numbered_def append_less_iff)
qed

lemma latest_is_not_newest:
  assumes "j_id old = numbered ''job_'' 9999" "j_id new = numbered ''job_'' 10000"
    "j_orchestration old = orch" "j_orchestration new = orch"
  shows "latest_for orch \<lparr>jobs = [(j_id old, old), (j_id new, new)], job_counter = 10000\<rparr> = Some old"
  using numbered_10000 [of "''job_''"] assms by (auto simp: latest_for_def vals_def)

end
