(* ===== verification/Relux_Autonomy_Props.thy ===== *)
theory Relux_Autonomy_Props
  imports Relux_Reachable Relux_Frame
begin

text \<open>
  What a tick of the autonomy loop may do: no more of anything than the operator's limit, nothing while
  it is switched off, and no assignment the operator has not allowed.
\<close>

section \<open>What a tick counts\<close>

definition tally_ok :: "tick_result \<Rightarrow> bool" where
  "tally_ok res \<longleftrightarrow> tr_actions_taken res = tr_tasks_run res + tr_tasks_assigned res + tr_transient_retries res"

lemma tick_retries_counts:
  "tick_retries w rs res k = (res', k') \<Longrightarrow> tally_ok res \<Longrightarrow> tally_ok res' \<and> tr_tasks_run res' = tr_tasks_run res
    \<and> tr_tasks_assigned res' = tr_tasks_assigned res \<and> tr_transient_retries res' \<le> tr_transient_retries res + length rs"
proof (induction rs arbitrary: res k)
  case (Cons r rs)
  obtain x j where c: "retry_run w r k = (x, j)" by fastforce
  then show ?case
    using Cons.prems by (cases x) (auto simp: Let_def skipped_def tally_ok_def dest!: Cons.IH)
qed simp

lemma tick_assigns_counts:
  "tick_assigns p mx ts cands res k = (cands', res', k') \<Longrightarrow> tally_ok res \<Longrightarrow> tally_ok res'
    \<and> tr_tasks_run res' = tr_tasks_run res \<and> tr_transient_retries res' = tr_transient_retries res
    \<and> tr_tasks_assigned res' + length cands = tr_tasks_assigned res + length cands'
    \<and> length cands' \<le> max mx (length cands)"
proof (induction ts arbitrary: cands res k)
  case (Cons t ts)
  show ?case
  proof (cases "mx \<le> length cands")
    case False
    obtain x j where c: "assign_task t p k = (x, j)" by fastforce
    with False show ?thesis
      using Cons.prems by (cases x) (auto simp: Let_def skipped_def tally_ok_def dest!: Cons.IH)
  qed (use Cons.prems in auto)
qed simp

lemma tick_task_counts:
  "tick_task w t res k = (res', k') \<Longrightarrow> tally_ok res \<Longrightarrow> tally_ok res' \<and> tr_transient_retries res' = tr_transient_retries res
    \<and> tr_tasks_assigned res' = tr_tasks_assigned res \<and> tr_tasks_run res' \<le> tr_tasks_run res + 1"
  by (auto simp: tick_task_def tick_execute_def skipped_def tally_ok_def Let_def split: if_splits prod.splits sum.splits)

lemma tick_tasks_counts:
  "tick_tasks w ts res k = (res', k') \<Longrightarrow> tally_ok res \<Longrightarrow> tally_ok res' \<and> tr_transient_retries res' = tr_transient_retries res
    \<and> tr_tasks_assigned res' = tr_tasks_assigned res \<and> tr_tasks_run res' \<le> tr_tasks_run res + length ts"
proof (induction ts arbitrary: res k)
  case (Cons t ts)
  obtain r j where t: "tick_task w t res k = (r, j)" by fastforce
  have "tick_tasks w ts r j = (res', k')" using Cons.prems(1) by (simp add: t)
  from Cons.IH [OF this] tick_task_counts [OF t Cons.prems(2)] show ?case by auto
qed simp

lemma tick_skipped:
  assumes "\<not> autonomy_enabled (autonomy_config k) \<or> prime_agent_id k = None"
  shows "\<exists>why. one_autonomy_tick w k = skip_tick why (no_tick (render (clock k))) (advance k)"
proof -
  have p: "prime_agent_id (advance k) = prime_agent_id k" and c: "autonomy_config (advance k) = autonomy_config k"
    by (simp_all add: prime_agent_id_def advance_def)
  show ?thesis
  proof (cases "autonomy_enabled (autonomy_config k)")
    case True
    with assms have n: "prime_agent_id k = None" by simp
    show ?thesis unfolding one_autonomy_tick_def Let_def tick_advance prod.case c p n option.case using True by auto
  next
    case False
    then show ?thesis unfolding one_autonomy_tick_def Let_def tick_advance prod.case c p by auto
  qed
qed

text \<open>The parts of a tick that is not skipped.\<close>

lemma tick_parts:
  assumes "one_autonomy_tick w k = (res, k')" "autonomy_enabled (autonomy_config k)" "prime_agent_id k = Some prime"
  defines "mx \<equiv> max (max_tasks_per_tick (autonomy_config k)) 1"
  obtains rs res1 k1 cands res2 k2 res3 k3 where "length rs \<le> mx"
    and "tick_retries w rs (no_tick (render (clock k))) (advance k) = (res1, k1)"
    and "(if auto_assign_unassigned (autonomy_config k) \<and> length (open_tasks True k1) < mx
      then tick_assigns prime mx (open_tasks False k1) (open_tasks True k1) res1 k1
      else (open_tasks True k1, res1, k1)) = (cands, res2, k2)"
    and "tick_tasks w (take mx cands) res2 k2 = (res3, k3)"
    and "res = res3\<lparr>tr_summary := tick_summary res3\<rparr>" and "k' = finish_tick res k3"
proof -
  have p: "prime_agent_id (advance k) = Some prime" and c: "autonomy_config (advance k) = autonomy_config k"
    using assms(3) by (simp_all add: prime_agent_id_def advance_def)
  define rs where "rs = take mx (transient_retry_ready (w_now w (clock (advance k))) (advance k))"
  obtain res1 k1 where a: "tick_retries w rs (no_tick (render (clock k))) (advance k) = (res1, k1)" by fastforce
  obtain cands res2 k2 where b: "(if auto_assign_unassigned (autonomy_config k) \<and> length (open_tasks True k1) < mx
      then tick_assigns prime mx (open_tasks False k1) (open_tasks True k1) res1 k1
      else (open_tasks True k1, res1, k1)) = (cands, res2, k2)" by (metis surj_pair)
  obtain res3 k3 where d: "tick_tasks w (take mx cands) res2 k2 = (res3, k3)" by fastforce
  let ?r = "res3\<lparr>tr_summary := tick_summary res3\<rparr>"
  have "one_autonomy_tick w k = (?r, finish_tick ?r k3)"
    using assms(2) unfolding one_autonomy_tick_def Let_def tick_advance prod.case c p option.case
      mx_def [symmetric] rs_def [symmetric] a b d by simp
  then have "res = ?r" "k' = finish_tick res k3" using assms(1) by auto
  then show thesis using that [OF _ a b d] by (simp add: rs_def)
qed

text \<open>A tick takes no more than the operator's limit: at most so many retries, so many assignments and so many
  runs, counted as they are made; it assigns nothing unless the operator has allowed it, and does nothing
  at all while it is switched off.\<close>

theorem tick_bounded:
  assumes "one_autonomy_tick w k = (res, k')"
  defines "mx \<equiv> max (max_tasks_per_tick (autonomy_config k)) 1"
  shows "tr_tasks_run res \<le> mx \<and> tr_tasks_assigned res \<le> mx \<and> tr_transient_retries res \<le> mx
    \<and> tr_actions_taken res = tr_tasks_run res + tr_tasks_assigned res + tr_transient_retries res
    \<and> (auto_assign_unassigned (autonomy_config k) \<or> tr_tasks_assigned res = 0)
    \<and> (autonomy_enabled (autonomy_config k) \<or> tr_actions_taken res = 0)"
proof (cases "autonomy_enabled (autonomy_config k) \<and> prime_agent_id k \<noteq> None")
  case False
  then obtain why where "one_autonomy_tick w k = skip_tick why (no_tick (render (clock k))) (advance k)"
    using tick_skipped by blast
  then have "res = (no_tick (render (clock k)))\<lparr>tr_summary := cps why\<rparr>"
    using assms(1) by (simp add: skip_tick_def Let_def)
  then have "tr_tasks_run res = 0 \<and> tr_tasks_assigned res = 0 \<and> tr_transient_retries res = 0 \<and> tr_actions_taken res = 0"
    by (simp add: no_tick_def)
  then show ?thesis by simp
next
  case True
  then obtain prime where "prime_agent_id k = Some prime" by blast
  note parts_of = tick_parts [OF assms(1) _ this, folded mx_def]
  have "autonomy_enabled (autonomy_config k)" using True by simp
  from parts_of [OF this] obtain rs res1 k1 cands res2 k2 res3 k3
    where parts: "length rs \<le> mx" "tick_retries w rs (no_tick (render (clock k))) (advance k) = (res1, k1)"
      "(if auto_assign_unassigned (autonomy_config k) \<and> length (open_tasks True k1) < mx
        then tick_assigns prime mx (open_tasks False k1) (open_tasks True k1) res1 k1
        else (open_tasks True k1, res1, k1)) = (cands, res2, k2)"
      "tick_tasks w (take mx cands) res2 k2 = (res3, k3)" "res = res3\<lparr>tr_summary := tick_summary res3\<rparr>"
      "k' = finish_tick res k3" .
  have n: "tally_ok (no_tick at)" "tr_tasks_run (no_tick at) = 0" "tr_tasks_assigned (no_tick at) = 0"
    "tr_transient_retries (no_tick at) = 0" for at by (simp_all add: no_tick_def tally_ok_def)
  note r1 = tick_retries_counts [OF parts(2) n(1)]
  have r2: "tally_ok res2" "tr_tasks_run res2 = 0" "tr_transient_retries res2 \<le> mx" "tr_tasks_assigned res2 \<le> mx"
    "auto_assign_unassigned (autonomy_config k) \<or> tr_tasks_assigned res2 = 0"
    using parts(1,3) r1 n tick_assigns_counts [of prime mx "open_tasks False k1" "open_tasks True k1" res1 k1 cands res2 k2] by (auto split: if_splits)
  from tick_tasks_counts [OF parts(4) r2(1)] r2 parts(5) True show ?thesis by (auto simp: tally_ok_def)
qed

lemma finish_tick_sel:
  "tasks (finish_tick r k) = tasks k" "runs (finish_tick r k) = runs k" "agents (finish_tick r k) = agents k"
  "approvals (finish_tick r k) = approvals k" "orchestrations (finish_tick r k) = orchestrations k"
  "persistent_grants (finish_tick r k) = persistent_grants k" "run_events (finish_tick r k) = run_events k"
  "audit_log (finish_tick r k) = audit_log k"
  by (simp_all add: finish_tick_def)

lemma audit_appends: "audit_log j = audit_log k \<Longrightarrow>
    map au_result (drop (length (audit_log k)) (audit_log (record_audit ty a c tt tg ns x j))) = [x]"
  by (simp add: record_audit_def Let_def tick_def)

text \<open>While autonomy is switched off, or where there is no Prime, a tick touches nothing but the clock, the journal
  and the record of the last tick.\<close>

theorem tick_off_inert:
  assumes "one_autonomy_tick w k = (res, k')" "\<not> autonomy_enabled (autonomy_config k) \<or> prime_agent_id k = None"
  shows "tasks k' = tasks k \<and> runs k' = runs k \<and> agents k' = agents k \<and> approvals k' = approvals k
    \<and> orchestrations k' = orchestrations k \<and> persistent_grants k' = persistent_grants k \<and> run_events k' = run_events k
    \<and> map au_result (drop (length (audit_log k)) (audit_log k')) = [AuDenied]"
proof -
  obtain why where "one_autonomy_tick w k = skip_tick why (no_tick (render (clock k))) (advance k)"
    using tick_skipped [OF assms(2)] by blast
  with assms(1) have k': "k' = audit_tick ''autonomy:tick_skipped'' None None None AuDenied
      (finish_tick ((no_tick (render (clock k)))\<lparr>tr_summary := cps why\<rparr>) (advance k))"
    by (auto simp: skip_tick_def Let_def)
  show ?thesis unfolding k' audit_tick_def by (simp add: record_audit_sel finish_tick_sel advance_sel audit_appends)
qed

end
