(* ===== verification/Relux_Batch_Demo.thy ===== *)
theory Relux_Batch_Demo
  imports Relux_Demo Relux_Jobs_Props Relux_Autonomy_Props
begin

text \<open>
  An orchestration of two briefs on the demonstration state, the second waiting for the first, and the
  properties of batches, jobs and the autonomy loop applied to it.
\<close>

definition orch1 :: orchestration_id where "orch1 = OrchestrationId (cps ''orch_0001'')"
definition task2 :: task_id where "task2 = TaskId (cps ''task_0002'')"

definition brief :: "task_id \<Rightarrow> nat list \<Rightarrow> orchestration_step" where
  "brief t deps = \<lparr>st_task = t, st_agent = dev, st_role = Research, st_title = [], st_outcome = StPending,
     st_depends_on = deps, st_run = None, st_note = None, st_started_at = None, st_finished_at = None, st_round = None\<rparr>"

definition plan1 :: orchestration where
  "plan1 = \<lparr>o_id = orch1, o_goal = [], o_created_by = cps ''user'', o_namespace = ns0, o_status = OPlanned,
     o_steps = [brief task1 [], brief task2 [0]], o_notes = [], o_created_at = [], o_updated_at = [],
     o_last_batch_summary = None\<rparr>"

definition team :: kernel where
  "team = demo4\<lparr>orchestrations := [(orch1, plan1)]\<rparr>"

lemma team_steps [simp]: "steps_of orch1 team = [brief task1 [], brief task2 [0]]"
  by (simp add: steps_of_def team_def plan1_def)

lemma team_known [simp]: "contains_key (orchestrations team) orch1"
  by (simp add: team_def contains_key_def)

lemma team_in_order: "all_in_order (steps_of orch1 team)"
  by (auto simp: all_in_order_def in_order_def brief_def less_Suc_eq nth_Cons')

lemma team_deps: "earlier_deps (steps_of orch1 team)"
  by (auto simp: earlier_deps_def brief_def less_Suc_eq nth_Cons')

lemma team_pending: "pending_count (steps_of orch1 team) = 2"
  by (simp add: pending_count_def brief_def)

lemma demo_no_panic: "\<forall>now q. \<not> w_panics demo_world now q"
  by (simp add: demo_world_def)

definition ran :: "(kernel_error + batch_result) option \<times> kernel" where
  "ran = run_orchestration demo_world orch1 25 2 team"

lemma ran: "run_orchestration demo_world orch1 25 2 team = (fst ran, snd ran)"
  by (simp add: ran_def)

lemma batch_room: "pending_count (steps_of orch1 team) \<le> clamp 1 25 25"
  using team_pending by (simp add: clamp_def)

lemma settled_briefs_stay_witness: "length (steps_of orch1 (snd ran)) = 2"
  using settled_briefs_stay [OF ran] by simp

lemma batch_keeps_order_witness: "all_in_order (steps_of orch1 (snd ran))"
  by (rule batch_keeps_order [OF ran team_in_order])

lemma batch_settles_witness: "list_all (\<lambda>s. st_outcome s \<noteq> StPending) (steps_of orch1 (snd ran))"
  using batch_settles [OF team_known demo_no_panic team_deps batch_room ran] by (simp add: list_all_iff)

lemma batch_report_true_witness: "\<exists>res. fst ran = Some (Inr res) \<and> br_ran res \<le> 25
    \<and> br_pending res = pending_count (steps_of orch1 (snd ran))"
proof -
  obtain res where res: "fst ran = Some (Inr res)"
    using batch_returns [OF team_known demo_no_panic team_deps batch_room ran] by blast
  from batch_report_true [OF ran [unfolded res]] res clamp_in [of 1 25 "25 :: nat"] show ?thesis by auto
qed

lemma propagate_exact_witness:
  "length (snd (propagate 0 [(brief task1 [])\<lparr>st_outcome := StFailed\<rparr>, brief task2 [0]])) = 2"
  using propagate_exact [OF surjective_pairing [of "propagate 0 [(brief task1 [])\<lparr>st_outcome := StFailed\<rparr>, brief task2 [0]]"],
    where j = 1] by simp

section \<open>A round in flight\<close>

lemma team_unblocked: "block_updates (steps_of orch1 team) = []"
  by (simp add: block_updates_def block_update_def List.map_filter_def fallen_def outcome_at_def brief_def nth_Cons' upt_rec)

lemma team_propagate: "propagate 0 (steps_of orch1 team) = (0, steps_of orch1 team)"
  by (subst propagate.simps) (simp add: team_unblocked [simplified])

lemma team_ready: "ready_briefs (steps_of orch1 team) = [(0, task1, dev)]"
  by (simp add: ready_briefs_def ready_def outcome_at_def brief_def nth_Cons' upt_rec)

text \<open>The first brief is started and its process prepared; whatever is prepared next is the same run again.\<close>

lemma team_prepared:
  "\<exists>res p k'. prepare_locked demo_world orch1 2 2 1 team = (Inr (res, [p]), k') \<and> pb_index p = 0
    \<and> pl_task (pb_plan p) = task1"
proof -
  let ?k1 = "advance (on_steps orch1 (\<lambda>ss. snd (propagate 0 ss)) team)"
  have sel: "agents ?k1 = agents demo4" "tasks ?k1 = tasks demo4" "runs ?k1 = runs demo4"
      "adapter_runtime_configs ?k1 = adapter_runtime_configs demo4"
    by (simp_all add: advance_sel on_steps_def team_def)
  have s1: "steps_of orch1 (on_steps orch1 (\<lambda>ss. snd (propagate 0 ss)) team) = steps_of orch1 team"
    using team_propagate by simp
  have "\<exists>r k'. start_run demo_world task1 ?k1 = (Inr r, k')"
    by (rule start_run_starts [of _ _ "snd (hd (tasks demo4))" dev "snd (agents demo4 ! 1)"])
      (simp_all add: sel demo_simps holds_def authorizes_def)
  then obtain r k2 where r: "start_run demo_world task1 ?k1 = (Inr r, k2)" by blast
  have wf: "wf ?k1"
  proof -
    have "steps demo4 ?k1" unfolding on_steps_def team_def by (intro steps_intros) simp
    then show ?thesis using reachable_is_wf [OF demo_reachable(5)] by (simp add: steps_def)
  qed
  note eff = start_run_effect [OF r]
  have k2: "agents k2 = agents demo2" "contains_key (tasks k2) task1"
      "adapter_runtime_configs k2 = adapter_runtime_configs demo0"
    using start_run_rest [OF r] adapter_configs.after_start_run [of demo_world task1 ?k1] r
    by (simp_all add: sel demo_simps contains_key_def)
  obtain rn where rn: "get (runs k2) r = Some rn" "r_agent rn = dev"
    using eff(3) by (auto simp: sel demo_simps new_run_def)
  have "clock ?k1 < 86400" by (simp add: clock_sel on_steps_def team_def demo_simps)
  from demo_prepare [OF started_is_active [OF wf r this] k2(3) rn k2(1,2)] obtain plan k3
    where plan: "prepare_cli_run demo_world task1 claude k2 = (Inr plan, k3)" "pl_task plan = task1"
    by (auto simp: planned_def)
  have ad: "map_option ag_adapter (get (agents ?k1) dev) = Some claude" by (simp add: sel demo_simps)
  have ns: "needs_start task1 ?k1" by (simp add: needs_start_def sel demo_simps)
  have kind: "recognize_adapter_kind claude \<noteq> Some LocalPrime"
    by (simp add: recognize_adapter_kind_def claude_def CLAUDE_CLI_ADAPTER_ID_def LOCAL_PRIME_ADAPTER_ID_def cps_def)
  have at: "attempt_brief demo_world task1 dev ?k1 = (Inr plan, k3)"
    unfolding attempt_brief_def ad Let_def using ns r kind plan(1) by (simp add: attempt_started_def)
  have tk: "tick (on_steps orch1 (\<lambda>ss. snd (propagate 0 ss)) team) = (render (clock team), ?k1)"
    by (simp add: tick_advance on_steps_def)
  have rb: "ready_briefs (steps_of orch1 (on_steps orch1 (\<lambda>ss. snd (propagate 0 ss)) team)) = [(0, task1, dev)]"
    unfolding s1 by (rule team_ready)
  show ?thesis
    unfolding prepare_locked_def new_orchestration_batch_result_def if_P [OF team_known] sum.case
      prepare_orchestration_round_def Let_def propagate_dependency_blocks_def prod.case rb
    by (simp add: new_batch_result_def clamp_def prepare_brief_def tk at no_prep_def plan(2))
qed

lemma in_flight_stays_ready_witness:
  "\<exists>res p k'. prepare_locked demo_world orch1 2 2 1 team = (Inr (res, [p]), k') \<and> ready (steps_of orch1 k') (pb_index p)"
proof -
  obtain res p k' where p: "prepare_locked demo_world orch1 2 2 1 team = (Inr (res, [p]), k')"
    using team_prepared by blast
  from in_flight_stays_ready [OF p, of p] p show ?thesis by auto
qed

section \<open>A job\<close>

definition quiet_site :: "kernel \<Rightarrow> site" where
  "quiet_site k = \<lparr>s_kernel = k, s_jobs = \<lparr>jobs = [], job_counter = 0\<rparr>, s_workers = []\<rparr>"

lemma quiet_site_reachable: "reachable k \<Longrightarrow> site_reachable (quiet_site k)"
  unfolding reachable_def
proof (induction rule: rtranclp_induct)
  case (step j k)
  have "site_step (quiet_site j) (quiet_site j\<lparr>s_kernel := k\<rparr>)" by (rule site_request) (simp add: quiet_site_def step.hyps)
  then have "site_step (quiet_site j) (quiet_site k)" by (simp add: quiet_site_def)
  with step.IH show ?case unfolding site_reachable_def by (rule rtranclp.rtrancl_into_rtrancl)
qed (simp add: site_reachable_def quiet_site_def)

lemma jobs_bounded_witness: "wf demo5 \<and> one_active (s_jobs (quiet_site demo5))"
  using jobs_bounded [OF quiet_site_reachable [OF demo_reachable(6)]] by (simp add: quiet_site_def)

definition demo_worker :: worker where
  "demo_worker = new_worker (numbered ''job_'' 1) orch1 25 2"

lemma demo_job: "\<exists>st. start_orchestration_job (cps ''orch_0001'') None None False (team, \<lparr>jobs = [], job_counter = 0\<rparr>)
    = (Inr demo_worker, st)"
proof -
  have "0 < active_jobs (agent_policy team) False"
    using limits_within_ceilings [of "agent_policy team" False] by (simp add: active_jobs_def)
  then show ?thesis
    using team_known
    by (auto simp: start_orchestration_job_def start_job_def vals_def given_def clamp_def demo_worker_def orch1_def Let_def)
qed

lemma worker_ends_witness: "\<exists>wk'. (goes_on ^^ 1) demo_worker wk' \<and> 1 \<le> 2 * wk_max demo_worker + 2"
proof -
  obtain st where st: "start_orchestration_job (cps ''orch_0001'') None None False (team, \<lparr>jobs = [], job_counter = 0\<rparr>)
      = (Inr demo_worker, st)" using demo_job by blast
  have "goes_on demo_worker (demo_worker\<lparr>wk_phase := LoopHead\<rparr>)"
    unfolding goes_on_def by (rule exI, rule exI, rule exI, rule exI [of _ "(team, st)"])
      (simp add: worker_step_def demo_worker_def new_worker_def)
  then have "(goes_on ^^ 1) demo_worker (demo_worker\<lparr>wk_phase := LoopHead\<rparr>)" by (simp only: relpowp_1)
  with worker_ends [OF st this] show ?thesis by blast
qed

section \<open>A tick\<close>

lemma tick_bounded_witness: "tr_tasks_run (fst (one_autonomy_tick demo_world demo4)) \<le> max (max_tasks_per_tick (autonomy_config demo4)) 1"
  using tick_bounded [OF surjective_pairing [of "one_autonomy_tick demo_world demo4"]] by blast

lemma tick_off_inert_witness: "tasks (snd (one_autonomy_tick demo_world demo3)) = tasks demo3"
proof -
  have "prime_agent_id demo3 = None"
    by (simp add: prime_agent_id_def demo_simps vals_def lead_def dev_def cps_def)
  with tick_off_inert [OF surjective_pairing [of "one_autonomy_tick demo_world demo3"]] show ?thesis by blast
qed

end
