(* ===== verification/Relix_Policy.thy ===== *)
theory Relix_Policy
  imports Rust_Pattern
begin

text \<open>
  The allowlist policy engine (\<open>relix-core/src/policy.rs\<close>) and the resolver that gives each tenant its
  own engine. The text of a denial is a value of \<open>deny_reason\<close>. The file system with the TOML parser
  (\<open>load\<close>) and the third-party LRU cache (\<open>get\<close>, \<open>put\<close>) are arguments of the definitions; what is used
  of the cache is the predicate \<open>lru_laws\<close>. A call is one instant, \<open>now\<close>, and its mutex is not poisoned.
\<close>

section \<open>The engine\<close>

record verified_identity =
  name :: ustr
  groups :: "ustr list"

definition has_any_group :: "verified_identity \<Rightarrow> ustr list \<Rightarrow> bool" where
  "has_any_group caller required_groups \<longleftrightarrow> list_ex (\<lambda>g. g \<in> set (groups caller)) required_groups"

datatype deny_reason =
    NotAdmitted ustr | NoAllowRule ustr ustr "ustr list" | TenantRequired

datatype decision = Allow ustr | Deny deny_reason "ustr option"

record rule =
  rule_name :: ustr
  rule_method :: ustr
  allow_groups :: "ustr list"

record policy_file =
  admit_groups :: "ustr list"
  rules :: "rule list"

datatype policy_engine = PolicyEngine (policy: policy_file)

definition permissive :: policy_engine where
  "permissive = PolicyEngine \<lparr>admit_groups = [], rules = []\<rparr>"

text \<open>The loop over the rules: the first that applies.\<close>

fun find_rule :: "rule list \<Rightarrow> verified_identity \<Rightarrow> ustr \<Rightarrow> rule option" where
  "find_rule [] caller mthd = None"
| "find_rule (r # rs) caller mthd =
     (if rule_method r = mthd \<and> (allow_groups r = [] \<or> has_any_group caller (allow_groups r)) then Some r
      else find_rule rs caller mthd)"

definition evaluate :: "policy_engine \<Rightarrow> verified_identity \<Rightarrow> ustr \<Rightarrow> decision" where
  "evaluate engine caller mthd =
     (if admit_groups (policy engine) \<noteq> [] \<and> \<not> has_any_group caller (admit_groups (policy engine))
      then Deny (NotAdmitted (name caller)) None
      else case find_rule (rules (policy engine)) caller mthd of
             Some r \<Rightarrow> Allow (rule_name r)
           | None \<Rightarrow> Deny (NoAllowRule mthd (name caller) (groups caller)) None)"

definition is_permissive :: "policy_engine \<Rightarrow> bool" where
  "is_permissive engine \<longleftrightarrow> admit_groups (policy engine) = [] \<and> rules (policy engine) = []"

section \<open>The tenant resolver\<close>

record 'c resolver =
  global_engine :: policy_engine
  policy_dir :: "ustr option"
  ttl :: nat
  tenant_isolation_enabled :: bool
  cache :: 'c

definition resolver_new :: "'c \<Rightarrow> policy_engine \<Rightarrow> ustr option \<Rightarrow> nat \<Rightarrow> 'c resolver" where
  "resolver_new no_entries global dir ttl_secs =
     \<lparr>global_engine = global, policy_dir = dir, ttl = ttl_secs, tenant_isolation_enabled = False, cache = no_entries\<rparr>"

definition with_tenant_isolation :: "bool \<Rightarrow> 'c resolver \<Rightarrow> 'c resolver" where
  "with_tenant_isolation enabled r = r\<lparr>tenant_isolation_enabled := enabled\<rparr>"

definition sanitise_tenant_id :: "ustr option \<Rightarrow> ustr" where
  "sanitise_tenant_id raw =
     (let s = (case raw of None \<Rightarrow> cps ''default'' | Some t \<Rightarrow> t)
      in if s = [] then cps ''default''
         else map (\<lambda>c. if is_ascii_alphanumeric c \<or> c = 95 then c else 95) s)"

text \<open>A path is the directory and the name of the file in it.\<close>

definition tenant_path :: "'c resolver \<Rightarrow> ustr option \<Rightarrow> (ustr \<times> ustr) option" where
  "tenant_path r tenant =
     (case policy_dir r of
        None \<Rightarrow> None
      | Some dir \<Rightarrow> Some (dir, sanitise_tenant_id tenant @ cps ''.policy.toml''))"

type_synonym path = "ustr \<times> ustr"

type_synonym cached = "nat \<times> policy_engine option"

definition engine_for_tenant ::
  "('c \<Rightarrow> path \<Rightarrow> cached option \<times> 'c) \<Rightarrow> ('c \<Rightarrow> path \<Rightarrow> cached \<Rightarrow> 'c) \<Rightarrow> (path \<Rightarrow> policy_engine option) \<Rightarrow> nat
    \<Rightarrow> 'c resolver \<Rightarrow> ustr option \<Rightarrow> policy_engine option \<times> 'c resolver" where
  "engine_for_tenant get put load now r tenant =
     (case tenant_path r tenant of
        None \<Rightarrow> (None, r)
      | Some key \<Rightarrow>
          (let (hit, r1) = (if ttl r \<noteq> 0 then (case get (cache r) key of (v, c) \<Rightarrow> (v, r\<lparr>cache := c\<rparr>)) else (None, r));
               reload = (\<lambda>_ :: unit. (load key, if ttl r1 \<noteq> 0 then r1\<lparr>cache := put (cache r1) key (now, load key)\<rparr> else r1))
           in case hit of
                Some (at, entry) \<Rightarrow> if now - at < ttl r1 then (entry, r1) else reload ()
              | None \<Rightarrow> reload ()))"

definition evaluate_tenant ::
  "('c \<Rightarrow> path \<Rightarrow> cached option \<times> 'c) \<Rightarrow> ('c \<Rightarrow> path \<Rightarrow> cached \<Rightarrow> 'c) \<Rightarrow> (path \<Rightarrow> policy_engine option) \<Rightarrow> nat
    \<Rightarrow> 'c resolver \<Rightarrow> verified_identity \<Rightarrow> ustr \<Rightarrow> ustr option \<Rightarrow> decision \<times> 'c resolver" where
  "evaluate_tenant get put load now r caller mthd tenant =
     (if tenant_isolation_enabled r \<and> (case tenant of None \<Rightarrow> True | Some s \<Rightarrow> trim s = [])
      then (Deny TenantRequired None, r)
      else case engine_for_tenant get put load now r tenant of
             (Some engine, r') \<Rightarrow> (evaluate engine caller mthd, r')
           | (None, r') \<Rightarrow> (evaluate (global_engine r') caller mthd, r'))"

section \<open>What is used of the cache\<close>

text \<open>
  \<open>view\<close> is what the cache holds. Documented of the crate: a lookup returns what is held and forgets
  nothing, an insertion holds the new entry and leaves or evicts the others.
\<close>

definition lru_laws ::
  "('c \<Rightarrow> path \<Rightarrow> cached option \<times> 'c) \<Rightarrow> ('c \<Rightarrow> path \<Rightarrow> cached \<Rightarrow> 'c) \<Rightarrow> ('c \<Rightarrow> path \<rightharpoonup> cached) \<Rightarrow> bool" where
  "lru_laws get put view \<longleftrightarrow>
     (\<forall>c k. fst (get c k) = view c k \<and> view (snd (get c k)) = view c)
     \<and> (\<forall>c k v. view (put c k v) k = Some v \<and> (\<forall>k'. k' \<noteq> k \<longrightarrow> view (put c k v) k' \<in> {None, view c k'}))"

text \<open>Every entry held is what was on disk when it was made.\<close>

definition cache_true :: "('c \<Rightarrow> path \<rightharpoonup> cached) \<Rightarrow> (nat \<Rightarrow> path \<Rightarrow> policy_engine option) \<Rightarrow> nat \<Rightarrow> 'c \<Rightarrow> bool" where
  "cache_true view disk now c \<longleftrightarrow> (\<forall>k at e. view c k = Some (at, e) \<longrightarrow> at \<le> now \<and> e = disk at k)"

lemma cache_trueD:
  "cache_true view disk now c \<Longrightarrow> view c k = Some (at, e) \<Longrightarrow> at \<le> now \<and> e = disk at k"
  unfolding cache_true_def by blast

lemma lru_get: "lru_laws get put view \<Longrightarrow> get c k = (v, c') \<Longrightarrow> v = view c k \<and> view c' = view c"
  unfolding lru_laws_def by (metis fst_conv snd_conv)

lemma lru_put_same: "lru_laws get put view \<Longrightarrow> view (put c k v) k = Some v"
  unfolding lru_laws_def by blast

lemma lru_put_other: "lru_laws get put view \<Longrightarrow> k' \<noteq> k \<Longrightarrow> view (put c k v) k' = Some w \<Longrightarrow> view c k' = Some w"
  unfolding lru_laws_def by (metis insertE option.distinct(1) singletonD)

lemma cache_true_put:
  assumes lru: "lru_laws get put view" and "cache_true view disk now c"
  shows "cache_true view disk now (put c k (now, disk now k))"
  unfolding cache_true_def
proof (intro allI impI)
  fix k' at e
  assume v: "view (put c k (now, disk now k)) k' = Some (at, e)"
  show "at \<le> now \<and> e = disk at k'"
  proof (cases "k' = k")
    case True
    then show ?thesis using v lru_put_same [OF lru, of c k] by auto
  next
    case False
    then show ?thesis using lru_put_other [OF lru False v] cache_trueD [OF assms(2)] by blast
  qed
qed

lemma engine_fresh:
  assumes "lru_laws get put view" "cache_true view disk now (cache r)" "tenant_path r tenant = Some key"
    and "engine_for_tenant get put (disk now) now r tenant = (engine, r')"
  shows "cache_true view disk now (cache r') \<and> global_engine r' = global_engine r
    \<and> (\<exists>at \<le> now. engine = disk at key \<and> (at = now \<or> now - at < ttl r))"
proof (cases "ttl r = 0")
  case True
  then show ?thesis using assms by (auto simp: engine_for_tenant_def Let_def)
next
  case False
  obtain v c where g: "get (cache r) key = (v, c)" by (cases "get (cache r) key") auto
  then have v: "v = view (cache r) key" and true: "cache_true view disk now c"
    using lru_get [OF assms(1) g] assms(2) by (simp_all add: cache_true_def)
  show ?thesis
  proof (cases "\<exists>at e. v = Some (at, e) \<and> now - at < ttl r")
    case True
    then obtain at e where hit: "v = Some (at, e)" "now - at < ttl r" by blast
    then have "at \<le> now" "e = disk at key" using cache_trueD [OF assms(2), of key at e] v by auto
    then show ?thesis using assms(3,4) False g hit true by (auto simp: engine_for_tenant_def)
  next
    case miss: False
    then have "engine = disk now key" "r' = r\<lparr>cache := put c key (now, disk now key)\<rparr>"
      using assms(3,4) False g by (auto simp: engine_for_tenant_def Let_def split: option.splits if_splits prod.splits)
    then show ?thesis using cache_true_put [OF assms(1) true, of key] by auto
  qed
qed

lemma engine_same_path:
  "tenant_path r s = tenant_path r t \<Longrightarrow> engine_for_tenant get put load now r s = engine_for_tenant get put load now r t"
  by (simp add: engine_for_tenant_def)

section \<open>Properties\<close>

lemma find_rule_Some:
  "(\<exists>r. find_rule rs caller mthd = Some r) \<longleftrightarrow>
    (\<exists>r \<in> set rs. rule_method r = mthd \<and> (allow_groups r = [] \<or> has_any_group caller (allow_groups r)))"
  by (induction rs) auto

text \<open>Default deny: a call is allowed exactly if the caller is admitted to the node and some rule is
  about the method and names no groups or one of the caller's.\<close>

lemma evaluate_allows_iff:
  "(\<exists>r. evaluate engine caller mthd = Allow r) \<longleftrightarrow>
    (admit_groups (policy engine) = []
      \<or> (\<exists>g. g \<in> set (groups caller) \<and> g \<in> set (admit_groups (policy engine))))
    \<and> (\<exists>r. r \<in> set (rules (policy engine)) \<and> rule_method r = mthd
        \<and> (allow_groups r = [] \<or> (\<exists>g. g \<in> set (groups caller) \<and> g \<in> set (allow_groups r))))"
proof -
  have g: "has_any_group caller gs \<longleftrightarrow> (\<exists>g. g \<in> set (groups caller) \<and> g \<in> set gs)" for gs
    by (auto simp: has_any_group_def list_ex_iff)
  show ?thesis
    using find_rule_Some [of "rules (policy engine)" caller mthd] by (auto simp: evaluate_def g split: option.split)
qed

text \<open>C39. What decides a tenant's call: the policy of its file as it was on disk now or less than the ttl
  ago, or the global policy if there was none that could be read; nothing older is ever used, and the
  cache stays true to the disk.\<close>

lemma tenant_decision_fresh:
  assumes "lru_laws get put view" "cache_true view disk now (cache r)" "policy_dir r = Some dir"
    and "\<not> tenant_isolation_enabled r \<or> trim tenant \<noteq> []"
    and "evaluate_tenant get put (disk now) now r caller mthd (Some tenant) = (d, r')"
  shows "cache_true view disk now (cache r')
    \<and> (\<exists>at \<le> now. (at = now \<or> now - at < ttl r)
        \<and> d = evaluate (case disk at (dir, sanitise_tenant_id (Some tenant) @ cps ''.policy.toml'') of
            Some engine \<Rightarrow> engine | None \<Rightarrow> global_engine r) caller mthd)"
proof -
  let ?key = "(dir, sanitise_tenant_id (Some tenant) @ cps ''.policy.toml'')"
  obtain engine r1 where e: "engine_for_tenant get put (disk now) now r (Some tenant) = (engine, r1)" by fastforce
  have "tenant_path r (Some tenant) = Some ?key" using assms(3) by (simp add: tenant_path_def)
  from engine_fresh [OF assms(1,2) this e] obtain at where at: "cache_true view disk now (cache r1)"
    "global_engine r1 = global_engine r" "at \<le> now" "engine = disk at ?key" "at = now \<or> now - at < ttl r"
    by (elim conjE exE) simp
  have d: "d = evaluate (case engine of Some e \<Rightarrow> e | None \<Rightarrow> global_engine r) caller mthd \<and> r' = r1"
    using assms(4,5) e at(2) by (cases engine) (auto simp: evaluate_tenant_def)
  show ?thesis
    by (intro conjI exI [of _ at]) (use at d in simp_all)
qed

definition closed_engine :: policy_engine where
  "closed_engine = PolicyEngine \<lparr>admit_groups = [cps ''ops''], rules = []\<rparr>"

definition chatty :: verified_identity where
  "chatty = \<lparr>name = cps ''bot'', groups = [cps ''chat'']\<rparr>"

text \<open>A file that appears at time 5, and a cache that never evicts.\<close>

definition appears :: "nat \<Rightarrow> path \<Rightarrow> policy_engine option" where
  "appears t p = (if t < 5 then None else Some closed_engine)"

definition map_get :: "(path \<rightharpoonup> cached) \<Rightarrow> path \<Rightarrow> cached option \<times> (path \<rightharpoonup> cached)" where
  "map_get c k = (c k, c)"

definition map_put :: "(path \<rightharpoonup> cached) \<Rightarrow> path \<Rightarrow> cached \<Rightarrow> (path \<rightharpoonup> cached)" where
  "map_put c k v = c(k \<mapsto> v)"

definition tenants :: "(path \<rightharpoonup> cached) resolver" where
  "tenants = with_tenant_isolation True (resolver_new Map.empty permissive (Some (cps ''/etc/relix'')) 60)"

lemma tenant_decision_fresh_witness:
  "\<exists>d r'. evaluate_tenant map_get map_put (appears 9) 9 tenants chatty (cps ''ai.chat'') (Some (cps ''acme'')) = (d, r')
    \<and> cache_true id appears 9 (cache r')"
proof -
  obtain d r' where e: "evaluate_tenant map_get map_put (appears 9) 9 tenants chatty (cps ''ai.chat'') (Some (cps ''acme'')) = (d, r')"
    by fastforce
  have "lru_laws map_get map_put id" by (simp add: lru_laws_def map_get_def map_put_def)
  moreover have "cache_true id appears 9 (cache tenants)"
    by (simp add: cache_true_def tenants_def with_tenant_isolation_def resolver_new_def)
  moreover have "policy_dir tenants = Some (cps ''/etc/relix'')"
    by (simp add: tenants_def with_tenant_isolation_def resolver_new_def)
  moreover have "trim (cps ''acme'') \<noteq> []" by (simp add: ascii_simps trim_def trim_start_def)
  ultimately have "cache_true id appears 9 (cache r')"
    using tenant_decision_fresh [of map_get map_put id appears 9 tenants] e by blast
  then show ?thesis using e by blast
qed

text \<open>The name of a tenant's file never leaves the directory: whatever the id, it is non-empty and has
  only letters, digits and underscores before the suffix. But two ids that differ only in other
  characters have the same file, so one tenant is judged by the policy of the other.\<close>

lemma tenant_file_confined:
  "sanitise_tenant_id t \<noteq> [] \<and> list_all (\<lambda>c. is_ascii_alphanumeric c \<or> c = 95) (sanitise_tenant_id t)
    \<and> evaluate_tenant get put load now r caller mthd (Some (cps ''acme-eu''))
      = evaluate_tenant get put load now r caller mthd (Some (cps ''acme_eu''))"
proof -
  have def: "cps ''default'' \<noteq> []" "list_all (\<lambda>c. is_ascii_alphanumeric c \<or> c = 95) (cps ''default'')"
    by (simp_all add: ascii_simps)
  have "sanitise_tenant_id t \<noteq> [] \<and> list_all (\<lambda>c. is_ascii_alphanumeric c \<or> c = 95) (sanitise_tenant_id t)"
    using def by (auto simp: sanitise_tenant_id_def Let_def list_all_iff split: option.split)
  moreover have same: "sanitise_tenant_id (Some (cps ''acme-eu'')) = sanitise_tenant_id (Some (cps ''acme_eu''))"
    and "trim (cps ''acme-eu'') \<noteq> []" "trim (cps ''acme_eu'') \<noteq> []"
    by (simp_all add: ascii_simps sanitise_tenant_id_def trim_def trim_start_def)
  moreover have "engine_for_tenant get put load now r (Some (cps ''acme-eu''))
      = engine_for_tenant get put load now r (Some (cps ''acme_eu''))"
    by (rule engine_same_path) (simp add: tenant_path_def same split: option.split)
  ultimately show ?thesis by (simp add: evaluate_tenant_def)
qed

end
