(* ===== verification/Relix_Log.thy ===== *)
theory Relix_Log
  imports Rust_Str
begin

text \<open>
  The signed, hash-chained logs of \<open>relix-core\<close>: the event log of a flow (\<open>eventlog.rs\<close>) and the audit log
  of a responder (\<open>audit.rs\<close>), byte for byte. A log on disk is a sequence of frames, each the length of a
  record in four bytes and the record in CBOR. The CBOR codec, BLAKE3 and Ed25519 are third-party code
  and arguments of the definitions (\<open>record_codec\<close>, \<open>crypto\<close>). A write that fails, or a crash, leaves some
  beginning of the frame behind. The errors of opening a file and of creating its directory are left out.
\<close>

section \<open>Bytes\<close>

type_synonym bytes = "8 word list"

definition to_be_bytes :: "nat \<Rightarrow> bytes" where
  "to_be_bytes n = [word_of_nat (n div 2 ^ 24), word_of_nat (n div 2 ^ 16), word_of_nat (n div 2 ^ 8), word_of_nat n]"

definition from_be_bytes :: "bytes \<Rightarrow> nat" where
  "from_be_bytes bs = foldl (\<lambda>n b. 256 * n + unat b) 0 bs"

lemma length_to_be_bytes [simp]: "length (to_be_bytes n) = 4"
  by (simp add: to_be_bytes_def)

lemma from_to_be_bytes: "n < 2 ^ 32 \<Longrightarrow> from_be_bytes (to_be_bytes n) = n"
proof -
  assume n: "n < 2 ^ 32"
  have u: "unat (word_of_nat x :: 8 word) = x mod 256" for x :: nat by (simp add: unat_of_nat take_bit_eq_mod)
  have top: "n div 2 ^ 24 mod 256 = n div 2 ^ 24" using n by simp
  have "n div 2 ^ 24 = n div 2 ^ 16 div 256" "n div 2 ^ 16 = n div 2 ^ 8 div 256" "n div 2 ^ 8 = n div 256"
    by (simp_all add: div_mult2_eq [symmetric])
  then have "256 * (256 * (256 * (n div 2 ^ 24) + n div 2 ^ 16 mod 256) + n div 2 ^ 8 mod 256) + n mod 256 = n"
    by (metis mult_div_mod_eq)
  then show ?thesis using top by (simp add: from_be_bytes_def to_be_bytes_def u)
qed

section \<open>What is outside\<close>

record crypto =
  cr_hash :: "bytes \<Rightarrow> bytes"
  cr_public :: "bytes \<Rightarrow> bytes"
  cr_sign :: "bytes \<Rightarrow> bytes \<Rightarrow> bytes"
  cr_verify :: "bytes \<Rightarrow> bytes \<Rightarrow> bytes \<Rightarrow> bool"

record ('u, 'r) record_codec =
  enc_unsigned :: "'u \<Rightarrow> bytes option"
  enc_record :: "'r \<Rightarrow> bytes option"
  dec_record :: "bytes \<Rightarrow> 'r option"

definition node_id_from_pubkey :: "crypto \<Rightarrow> bytes \<Rightarrow> bytes" where
  "node_id_from_pubkey cr pk = cr_hash cr pk"

datatype integrity = WrongSeq nat | ChainBreak | BadSignature

datatype log_error =
    LIo | LCodec | LTooLarge | LTornWrite nat | LDecode nat | LIntegrity integrity nat | LSequenceOverflow
  | LTooManyRecords nat | LRecordTooLarge nat nat

section \<open>Frames\<close>

definition U32_MAX :: nat where "U32_MAX = 2 ^ 32 - 1"

definition frame_of :: "bytes \<Rightarrow> bytes" where
  "frame_of bs = to_be_bytes (length bs) @ bs"

text \<open>
  Reading the frames, with a limit on their number and one on their size where there is one. Less than four
  bytes are the end of the file for \<open>read_exact\<close>.
\<close>

definition too_many :: "(nat \<times> nat) option \<Rightarrow> nat \<Rightarrow> bool" where
  "too_many lim n \<longleftrightarrow> (case lim of None \<Rightarrow> False | Some (mx, big) \<Rightarrow> mx \<le> n)"

definition too_large :: "(nat \<times> nat) option \<Rightarrow> nat \<Rightarrow> bool" where
  "too_large lim len \<longleftrightarrow> (case lim of None \<Rightarrow> False | Some (mx, big) \<Rightarrow> big < len)"

function read_frames ::
  "(nat \<times> nat) option \<Rightarrow> (bytes \<Rightarrow> 'r option) \<Rightarrow> nat \<Rightarrow> bytes \<Rightarrow> log_error + 'r list" where
  "read_frames lim dec n bs =
     (if too_many lim n then Inl (LTooManyRecords (fst (the lim)))
      else if length bs < 4 then Inr []
      else
        let len = from_be_bytes (take 4 bs); rest = drop 4 bs in
        if too_large lim len then Inl (LRecordTooLarge len (snd (the lim)))
        else if length rest < len then Inl (LTornWrite n)
        else case dec (take len rest) of None \<Rightarrow> Inl (LDecode n)
        | Some r \<Rightarrow>
            (case read_frames lim dec (n + 1) (drop len rest) of Inl e \<Rightarrow> Inl e | Inr rs \<Rightarrow> Inr (r # rs)))"
  by pat_completeness auto
termination
  by (relation "measure (\<lambda>(lim, dec, n, bs). length bs)") auto

declare read_frames.simps [simp del]

section \<open>Chains\<close>

text \<open>What verifying a chain looks at in a record; only the events of a flow are numbered.\<close>

record 'r chain =
  ch_seq :: "'r \<Rightarrow> nat option"
  ch_prev :: "'r \<Rightarrow> bytes"
  ch_message :: "'r \<Rightarrow> bytes option"
  ch_signature :: "'r \<Rightarrow> bytes"
  ch_encode :: "'r \<Rightarrow> bytes option"

definition zero_hash :: bytes where
  "zero_hash = replicate 32 0"

fun verify_links :: "crypto \<Rightarrow> 'r chain \<Rightarrow> bytes \<Rightarrow> nat \<Rightarrow> bytes \<Rightarrow> 'r list \<Rightarrow> log_error + nat \<times> bytes" where
  "verify_links cr ch pk n prev [] = Inr (n, prev)"
| "verify_links cr ch pk n prev (r # rs) =
     (if ch_seq ch r \<noteq> None \<and> ch_seq ch r \<noteq> Some n then Inl (LIntegrity (WrongSeq (the (ch_seq ch r))) n)
      else if ch_prev ch r \<noteq> prev then Inl (LIntegrity ChainBreak n)
      else case ch_message ch r of None \<Rightarrow> Inl LCodec
      | Some m \<Rightarrow>
          if \<not> cr_verify cr pk m (ch_signature ch r) then Inl (LIntegrity BadSignature n)
          else case ch_encode ch r of None \<Rightarrow> Inl LCodec
          | Some bs \<Rightarrow> verify_links cr ch pk (n + 1) (cr_hash cr bs) rs)"

section \<open>The event log of a flow\<close>

datatype event_type =
  FlowStarted | RemoteCallIssued | RemoteCallCompleted | RemoteCallFailed | StreamChunkReceived | FlowCompleted | FlowFailed

record unsigned_event =
  ue_flow :: bytes
  ue_seq :: nat
  ue_ts :: int
  ue_kind :: event_type
  ue_payload :: bytes
  ue_prev_hash :: bytes

record event_record = unsigned_event +
  ue_signature :: bytes

type_synonym event_codec = "(unsigned_event, event_record) record_codec"

definition MAX_RECORDS_PER_READ :: nat where "MAX_RECORDS_PER_READ = 100000"
definition MAX_RECORD_SIZE :: nat where "MAX_RECORD_SIZE = 10 * 1024 * 1024"

definition read_records :: "event_codec \<Rightarrow> bytes \<Rightarrow> log_error + event_record list" where
  "read_records cd = read_frames (Some (MAX_RECORDS_PER_READ, MAX_RECORD_SIZE)) (dec_record cd) 0"

definition event_chain :: "event_codec \<Rightarrow> event_record chain" where
  "event_chain cd = \<lparr>ch_seq = (\<lambda>r. Some (ue_seq r)), ch_prev = ue_prev_hash,
     ch_message = (\<lambda>r. enc_unsigned cd (unsigned_event.truncate r)), ch_signature = ue_signature,
     ch_encode = enc_record cd\<rparr>"

definition verify_chain :: "crypto \<Rightarrow> event_codec \<Rightarrow> bytes \<Rightarrow> bytes \<Rightarrow> log_error + nat \<times> bytes" where
  "verify_chain cr cd pk bs =
     (case read_records cd bs of Inl e \<Rightarrow> Inl e | Inr rs \<Rightarrow> verify_links cr (event_chain cd) pk 0 zero_hash rs)"

record event_log =
  el_flow :: bytes
  el_file :: bytes
  el_key :: bytes
  el_next_seq :: nat
  el_last_hash :: bytes
  el_owner :: bytes

definition open_event_log ::
  "crypto \<Rightarrow> event_codec \<Rightarrow> bytes option \<Rightarrow> bytes \<Rightarrow> bytes \<Rightarrow> log_error + event_log" where
  "open_event_log cr cd disk flow key =
     (let log = (\<lambda>bs n prev. \<lparr>el_flow = flow, el_file = bs, el_key = key, el_next_seq = n, el_last_hash = prev,
            el_owner = node_id_from_pubkey cr (cr_public cr key)\<rparr>) in
      case disk of None \<Rightarrow> Inr (log [] 0 zero_hash)
      | Some bs \<Rightarrow> (case verify_chain cr cd (cr_public cr key) bs of Inl e \<Rightarrow> Inl e | Inr (n, prev) \<Rightarrow> Inr (log bs n prev)))"

text \<open>\<open>io\<close>: the write or the sync of the frame fails after so many bytes; \<open>None\<close>, it does not fail.\<close>

definition next_event_record :: "crypto \<Rightarrow> event_codec \<Rightarrow> int \<Rightarrow> event_type \<Rightarrow> bytes \<Rightarrow> event_log \<Rightarrow> event_record option" where
  "next_event_record cr cd ts kind payload log =
     (let u = \<lparr>ue_flow = el_flow log, ue_seq = el_next_seq log, ue_ts = ts, ue_kind = kind, ue_payload = payload,
            ue_prev_hash = el_last_hash log\<rparr> in
      case enc_unsigned cd u of None \<Rightarrow> None
      | Some m \<Rightarrow> Some (unsigned_event.extend u (event_record.fields (cr_sign cr (el_key log) m))))"

definition append_event ::
  "crypto \<Rightarrow> event_codec \<Rightarrow> nat option \<Rightarrow> int \<Rightarrow> event_type \<Rightarrow> bytes \<Rightarrow> event_log \<Rightarrow> (log_error + nat) \<times> event_log" where
  "append_event cr cd io ts kind payload log =
     (case next_event_record cr cd ts kind payload log of None \<Rightarrow> (Inl LCodec, log)
      | Some r \<Rightarrow>
        (case enc_record cd r of None \<Rightarrow> (Inl LCodec, log)
         | Some bs \<Rightarrow>
            if U32_MAX < length bs then (Inl LTooLarge, log)
            else case io of
              Some n \<Rightarrow> (Inl LIo, log\<lparr>el_file := el_file log @ take n (frame_of bs)\<rparr>)
            | None \<Rightarrow>
                let log = log\<lparr>el_file := el_file log @ frame_of bs, el_last_hash := cr_hash cr bs\<rparr> in
                if el_next_seq log = 2 ^ 64 - 1 then (Inl LSequenceOverflow, log)
                else (Inr (el_next_seq log), log\<lparr>el_next_seq := el_next_seq log + 1\<rparr>)))"

section \<open>The audit log of a responder\<close>

record unsigned_audit =
  ua_ts :: int
  ua_request :: bytes
  ua_trace :: bytes
  ua_caller_node :: bytes
  ua_caller_name :: ustr
  ua_caller_groups :: "ustr list"
  ua_responder :: bytes
  ua_method :: ustr
  ua_decision :: ustr
  ua_status :: ustr
  ua_flow :: "bytes option"
  ua_error_kind :: "nat option"
  ua_latency_ms :: nat
  ua_prev_hash :: bytes

record audit_record = unsigned_audit +
  ua_signature :: bytes

type_synonym audit_codec = "(unsigned_audit, audit_record) record_codec"

record audit_draft =
  ad_request :: bytes
  ad_trace :: bytes
  ad_caller_node :: bytes
  ad_caller_name :: ustr
  ad_caller_groups :: "ustr list"
  ad_method :: ustr
  ad_flow :: "bytes option"

datatype audit_status = AsOk | AsDenied | AsError

fun audit_status_text :: "audit_status \<Rightarrow> ustr" where
  "audit_status_text AsOk = cps ''ok''"
| "audit_status_text AsDenied = cps ''denied''"
| "audit_status_text AsError = cps ''error''"

record audit_log_file =
  al_file :: bytes
  al_key :: bytes
  al_last_hash :: bytes
  al_responder :: bytes

definition read_audit_records :: "audit_codec \<Rightarrow> bytes \<Rightarrow> log_error + audit_record list" where
  "read_audit_records cd = read_frames None (dec_record cd) 0"

definition audit_chain :: "audit_codec \<Rightarrow> audit_record chain" where
  "audit_chain cd = \<lparr>ch_seq = (\<lambda>_. None), ch_prev = ua_prev_hash,
     ch_message = (\<lambda>r. enc_unsigned cd (unsigned_audit.truncate r)), ch_signature = ua_signature,
     ch_encode = enc_record cd\<rparr>"

definition verify_audit_chain :: "crypto \<Rightarrow> audit_codec \<Rightarrow> bytes \<Rightarrow> bytes \<Rightarrow> log_error + bytes" where
  "verify_audit_chain cr cd pk bs =
     (case read_audit_records cd bs of Inl e \<Rightarrow> Inl e
      | Inr rs \<Rightarrow> (case verify_links cr (audit_chain cd) pk 0 zero_hash rs of Inl e \<Rightarrow> Inl e | Inr (n, prev) \<Rightarrow> Inr prev))"

fun first_fault :: "crypto \<Rightarrow> audit_codec \<Rightarrow> bytes \<Rightarrow> bytes \<Rightarrow> audit_record list \<Rightarrow> log_error + bytes option" where
  "first_fault cr cd pk prev [] = Inr None"
| "first_fault cr cd pk prev (r # rs) =
     (if ua_prev_hash r \<noteq> prev then Inr (Some (ua_responder r))
      else case enc_unsigned cd (unsigned_audit.truncate r) of None \<Rightarrow> Inl LCodec
      | Some m \<Rightarrow>
          if \<not> cr_verify cr pk m (ua_signature r) then Inr (Some (ua_responder r))
          else case enc_record cd r of None \<Rightarrow> Inl LCodec
          | Some bs \<Rightarrow> first_fault cr cd pk (cr_hash cr bs) rs)"

definition first_fault_responder :: "crypto \<Rightarrow> audit_codec \<Rightarrow> bytes \<Rightarrow> bytes \<Rightarrow> log_error + bytes option" where
  "first_fault_responder cr cd pk bs =
     (case read_audit_records cd bs of Inl e \<Rightarrow> Inl e | Inr rs \<Rightarrow> first_fault cr cd pk zero_hash rs)"

text \<open>The log, and the bytes that were put aside, if any.\<close>

definition open_audit_log :: "crypto \<Rightarrow> audit_codec \<Rightarrow> bytes option \<Rightarrow> bytes \<Rightarrow> log_error + audit_log_file \<times> bytes option" where
  "open_audit_log cr cd disk key =
     (let responder = node_id_from_pubkey cr (cr_public cr key);
          log = (\<lambda>bs prev. \<lparr>al_file = bs, al_key = key, al_last_hash = prev, al_responder = responder\<rparr>) in
      case disk of None \<Rightarrow> Inr (log [] zero_hash, None)
      | Some bs \<Rightarrow>
        (case verify_audit_chain cr cd (cr_public cr key) bs of
           Inr prev \<Rightarrow> Inr (log bs prev, None)
         | Inl (LIntegrity reason n) \<Rightarrow>
            (case first_fault_responder cr cd (cr_public cr key) bs of Inl e \<Rightarrow> Inl e
             | Inr None \<Rightarrow> Inl (LIntegrity reason n)
             | Inr (Some claimed) \<Rightarrow>
                 if claimed \<noteq> responder then Inr (log [] zero_hash, Some bs) else Inl (LIntegrity reason n))
         | Inl e \<Rightarrow> Inl e))"

definition next_audit_record ::
  "crypto \<Rightarrow> audit_codec \<Rightarrow> int \<Rightarrow> nat \<Rightarrow> audit_draft \<Rightarrow> ustr \<Rightarrow> audit_status \<Rightarrow> nat option \<Rightarrow> audit_log_file \<Rightarrow> audit_record option" where
  "next_audit_record cr cd ts elapsed_ms d decision st error_kind log =
     (let u = \<lparr>ua_ts = ts, ua_request = ad_request d, ua_trace = ad_trace d, ua_caller_node = ad_caller_node d,
            ua_caller_name = ad_caller_name d, ua_caller_groups = ad_caller_groups d, ua_responder = al_responder log,
            ua_method = ad_method d, ua_decision = decision, ua_status = audit_status_text st, ua_flow = ad_flow d,
            ua_error_kind = error_kind, ua_latency_ms = min elapsed_ms (2 ^ 64 - 1), ua_prev_hash = al_last_hash log\<rparr> in
      case enc_unsigned cd u of None \<Rightarrow> None
      | Some m \<Rightarrow> Some (unsigned_audit.extend u (audit_record.fields (cr_sign cr (al_key log) m))))"

definition finalize_audit ::
  "crypto \<Rightarrow> audit_codec \<Rightarrow> nat option \<Rightarrow> int \<Rightarrow> nat \<Rightarrow> audit_draft \<Rightarrow> ustr \<Rightarrow> audit_status \<Rightarrow> nat option \<Rightarrow> audit_log_file
    \<Rightarrow> (log_error + unit) \<times> audit_log_file" where
  "finalize_audit cr cd io ts elapsed_ms d decision st error_kind log =
     (case next_audit_record cr cd ts elapsed_ms d decision st error_kind log of None \<Rightarrow> (Inl LCodec, log)
      | Some r \<Rightarrow>
        (case enc_record cd r of None \<Rightarrow> (Inl LCodec, log)
         | Some bs \<Rightarrow>
            if U32_MAX < length bs then (Inl LTooLarge, log)
            else case io of
              Some n \<Rightarrow> (Inl LIo, log\<lparr>al_file := al_file log @ take n (frame_of bs)\<rparr>)
            | None \<Rightarrow> (Inr (), log\<lparr>al_file := al_file log @ frame_of bs, al_last_hash := cr_hash cr bs\<rparr>)))"

end
