(* ===== verification/Relix_Log_Props.thy ===== *)
theory Relix_Log_Props
  imports Relix_Log
begin

text \<open>
  What the signed logs promise: what was appended is read back and verifies after a restart, a crash in
  the middle of an append leaves one of three outcomes, a chain is determined by its last hash, and
  when a log that does not verify is put aside. The laws assumed of the codec and of the signatures are
  \<open>codec_ok\<close> and \<open>crypto_ok\<close>; that hashes do not collide is assumed of the records at hand only.
\<close>

definition codec_ok :: "('u, 'r) record_codec \<Rightarrow> bool" where
  "codec_ok cd \<longleftrightarrow> (\<forall>r bs. enc_record cd r = Some bs \<longrightarrow> dec_record cd bs = Some r)"

definition crypto_ok :: "crypto \<Rightarrow> bool" where
  "crypto_ok cr \<longleftrightarrow> (\<forall>k m. cr_verify cr (cr_public cr k) m (cr_sign cr k m))"

section \<open>Frames\<close>

definition frames :: "bytes list \<Rightarrow> bytes" where
  "frames bss = concat (map frame_of bss)"

lemma frames_simps [simp]: "frames [] = []" "frames (b # bss) = frame_of b @ frames bss"
    "frames (xs @ ys) = frames xs @ frames ys"
  by (simp_all add: frames_def)

lemma length_frame [simp]: "length (frame_of bs) = length bs + 4"
  by (simp add: frame_of_def)

definition fits :: "(nat \<times> nat) option \<Rightarrow> bytes \<Rightarrow> bool" where
  "fits lim bs \<longleftrightarrow> length bs < 2 ^ 32 \<and> \<not> too_large lim (length bs)"

lemma frame_parts: "take 4 (frame_of bs) = to_be_bytes (length bs)" "drop 4 (frame_of bs) = bs"
  by (simp_all add: frame_of_def)

lemma read_frame_Cons:
  assumes "\<not> too_many lim n" "fits lim bs" "dec bs = Some r"
  shows "read_frames lim dec n (frame_of bs @ rest)
    = (case read_frames lim dec (n + 1) rest of Inl e \<Rightarrow> Inl e | Inr rs \<Rightarrow> Inr (r # rs))"
  using assms from_to_be_bytes [of "length bs"]
  by (subst read_frames.simps) (simp add: fits_def frame_parts Let_def)

lemma too_many_mono: "\<not> too_many lim (n + m) \<Longrightarrow> \<not> too_many lim n"
  by (auto simp: too_many_def split: option.splits)

lemma read_frames_append:
  assumes "list_all2 (\<lambda>bs r. fits lim bs \<and> dec bs = Some r) bss rs" "\<not> too_many lim (n + length bss)"
  shows "read_frames lim dec n (frames bss @ rest)
    = (case read_frames lim dec (n + length bss) rest of Inl e \<Rightarrow> Inl e | Inr rs' \<Rightarrow> Inr (rs @ rs'))"
  using assms
proof (induction arbitrary: n rule: list_all2_induct)
  case (Cons bs bss r rs)
  have "\<not> too_many lim n" by (rule too_many_mono [OF Cons.prems])
  then show ?case
    using Cons.IH [of "n + 1"] Cons.prems Cons.hyps(1)
    by (auto simp: read_frame_Cons split: sum.splits)
qed (simp split: sum.split)

lemma read_frames_short: "\<not> too_many lim n \<Longrightarrow> length bs < 4 \<Longrightarrow> read_frames lim dec n bs = Inr []"
  by (subst read_frames.simps) simp

lemma read_frames_torn:
  assumes "\<not> too_many lim n" "fits lim bs" "4 \<le> m" "m < length (frame_of bs)"
  shows "read_frames lim dec n (take m (frame_of bs)) = Inl (LTornWrite n)"
proof -
  have "take 4 (take m (frame_of bs)) = to_be_bytes (length bs)" using assms(3) by (simp add: frame_parts)
  moreover have "m - 4 < length bs" using assms(3,4) by (simp add: less_diff_conv2)
  ultimately show ?thesis
    using assms from_to_be_bytes [of "length bs"] by (subst read_frames.simps) (simp add: fits_def Let_def)
qed

lemma encoded_fits:
  assumes "codec_ok cd" "map (enc_record cd) rs = map Some bss" "list_all (fits lim) bss"
  shows "list_all2 (\<lambda>bs r. fits lim bs \<and> dec_record cd bs = Some r) bss rs"
  unfolding list_all2_conv_all_nth
proof (intro conjI allI impI)
  show "length bss = length rs" using map_eq_imp_length_eq [OF assms(2)] by simp
  fix i assume "i < length bss"
  then have "enc_record cd (rs ! i) = Some (bss ! i)" "fits lim (bss ! i)"
    using assms(2,3) map_eq_imp_length_eq [OF assms(2)] nth_map by (metis, simp add: list_all_length)
  then show "fits lim (bss ! i)" "dec_record cd (bss ! i) = Some (rs ! i)"
    using assms(1) by (auto simp: codec_ok_def)
qed

lemma read_whole_frames:
  assumes "codec_ok cd" "map (enc_record cd) rs = map Some bss" "list_all (fits lim) bss" "\<not> too_many lim (length rs)"
  shows "read_frames lim (dec_record cd) 0 (frames bss @ rest)
    = (case read_frames lim (dec_record cd) (length rs) rest of Inl e \<Rightarrow> Inl e | Inr rs' \<Rightarrow> Inr (rs @ rs'))"
proof -
  have "length bss = length rs" using map_eq_imp_length_eq [OF assms(2)] by simp
  then show ?thesis using read_frames_append [OF encoded_fits [OF assms(1-3)], of 0 rest] assms(4) by simp
qed

section \<open>Chains\<close>

lemma verify_links_append:
  "verify_links cr ch pk n prev (xs @ ys)
    = (case verify_links cr ch pk n prev xs of Inl e \<Rightarrow> Inl e | Inr (m, h) \<Rightarrow> verify_links cr ch pk m h ys)"
  by (induction xs arbitrary: n prev) (auto split: option.split)

lemma verify_links_count: "verify_links cr ch pk n prev rs = Inr (m, h) \<Longrightarrow> m = n + length rs"
  by (induction rs arbitrary: n prev) (fastforce split: if_splits option.splits)+

lemma verify_links_snoc:
  assumes "verify_links cr ch pk n prev (xs @ [x]) = Inr (m, h)"
  shows "\<exists>h' bs. verify_links cr ch pk n prev xs = Inr (n + length xs, h') \<and> ch_prev ch x = h'
    \<and> ch_encode ch x = Some bs \<and> h = cr_hash cr bs"
proof -
  obtain k h' where p: "verify_links cr ch pk n prev xs = Inr (k, h')" "verify_links cr ch pk k h' [x] = Inr (m, h)"
    using assms by (auto simp: verify_links_append split: sum.splits)
  then show ?thesis using verify_links_count [OF p(1)] by (auto split: if_splits option.splits)
qed

lemma chain_unique:
  assumes "verify_links cr ch pk n prev rs = Inr (m, h)" "verify_links cr ch pk' n prev rs' = Inr (m, h)"
    and "inj_on (cr_hash cr) {bs. \<exists>r \<in> set rs \<union> set rs'. ch_encode ch r = Some bs}"
    and inj: "\<And>r r' bs. ch_encode ch r = Some bs \<Longrightarrow> ch_encode ch r' = Some bs \<Longrightarrow> r = r'"
  shows "rs = rs'"
  using assms(1-3)
proof (induction rs arbitrary: rs' m h rule: rev_induct)
  case Nil
  then show ?case using verify_links_count [OF Nil(2)] by simp
next
  case (snoc x xs)
  have l: "length rs' = Suc (length xs)"
    using verify_links_count [OF snoc.prems(1)] verify_links_count [OF snoc.prems(2)] by simp
  then obtain ys y where rs': "rs' = ys @ [y]" by (cases rs' rule: rev_cases) auto
  obtain h1 b1 where 1: "verify_links cr ch pk n prev xs = Inr (n + length xs, h1)" "ch_prev ch x = h1"
      "ch_encode ch x = Some b1" "h = cr_hash cr b1"
    using verify_links_snoc [OF snoc.prems(1)] by blast
  obtain h2 b2 where 2: "verify_links cr ch pk' n prev ys = Inr (n + length ys, h2)" "ch_prev ch y = h2"
      "ch_encode ch y = Some b2" "h = cr_hash cr b2"
    using verify_links_snoc [OF snoc.prems(2) [unfolded rs']] by blast
  have mem: "b1 \<in> {bs. \<exists>r \<in> set (xs @ [x]) \<union> set rs'. ch_encode ch r = Some bs}"
      "b2 \<in> {bs. \<exists>r \<in> set (xs @ [x]) \<union> set rs'. ch_encode ch r = Some bs}"
    using 1(3) 2(3) by (fastforce simp: rs')+
  have "b1 = b2" by (rule inj_onD [OF snoc.prems(3) _ mem]) (simp add: 1(4)[symmetric] 2(4)[symmetric])
  then have xy: "x = y" using inj [OF 1(3)] 2(3) by simp
  have "inj_on (cr_hash cr) {bs. \<exists>r \<in> set xs \<union> set ys. ch_encode ch r = Some bs}"
    by (rule inj_on_subset [OF snoc.prems(3)]) (auto simp: rs')
  moreover have "length ys = length xs" using l rs' by simp
  then have "verify_links cr ch pk' n prev ys = Inr (n + length xs, h1)" using 1(2) 2(1,2) xy by simp
  ultimately have "xs = ys" by (intro snoc.IH [OF 1(1)])
  then show ?case by (simp add: xy rs')
qed

section \<open>The event log\<close>

abbreviation event_limits :: "(nat \<times> nat) option" where
  "event_limits \<equiv> Some (MAX_RECORDS_PER_READ, MAX_RECORD_SIZE)"

lemma event_fits: "length bs \<le> MAX_RECORD_SIZE \<Longrightarrow> fits event_limits bs"
  by (simp add: fits_def too_large_def MAX_RECORD_SIZE_def)

text \<open>A log that holds \<open>rs\<close>: whole frames of their encodings, within the limits of the reader, in a chain that ends
  where the log goes on.\<close>

definition holds_records :: "crypto \<Rightarrow> event_codec \<Rightarrow> event_log \<Rightarrow> event_record list \<Rightarrow> bool" where
  "holds_records cr cd log rs \<longleftrightarrow>
     (\<exists>bss. el_file log = frames bss \<and> map (enc_record cd) rs = map Some bss
        \<and> list_all (fits event_limits) bss)
     \<and> length rs < MAX_RECORDS_PER_READ
     \<and> verify_links cr (event_chain cd) (cr_public cr (el_key log)) 0 zero_hash rs = Inr (el_next_seq log, el_last_hash log)
     \<and> el_owner log = node_id_from_pubkey cr (cr_public cr (el_key log))"

lemma read_held:
  assumes "codec_ok cd" "holds_records cr cd log rs"
  shows "read_records cd (el_file log @ rest)
    = (case read_frames event_limits (dec_record cd) (length rs) rest of Inl e \<Rightarrow> Inl e | Inr rs' \<Rightarrow> Inr (rs @ rs'))"
  using assms read_whole_frames [OF assms(1), of rs _ event_limits rest]
  by (auto simp: holds_records_def read_records_def too_many_def)

lemma held_count: "holds_records cr cd log rs \<Longrightarrow> el_next_seq log = length rs"
  using verify_links_count by (fastforce simp: holds_records_def)

lemma room: "holds_records cr cd log rs \<Longrightarrow> \<not> too_many event_limits (length rs)"
  by (simp add: holds_records_def too_many_def)

lemma reopened:
  assumes "codec_ok cd" "holds_records cr cd log rs" "length rest < 4"
  shows "open_event_log cr cd (Some (el_file log @ rest)) (el_flow log) (el_key log)
    = Inr (log\<lparr>el_file := el_file log @ rest\<rparr>)"
proof -
  have "read_records cd (el_file log @ rest) = Inr rs"
    using read_held [OF assms(1,2), of rest] read_frames_short [OF room [OF assms(2)] assms(3), of "dec_record cd"] by simp
  then show ?thesis
    using assms(2) by (simp add: open_event_log_def verify_chain_def holds_records_def Let_def)
qed

lemma new_log_holds: "open_event_log cr cd None flow key = Inr log \<Longrightarrow> holds_records cr cd log []"
  by (auto simp: open_event_log_def holds_records_def MAX_RECORDS_PER_READ_def Let_def)

lemma next_record:
  assumes "next_event_record cr cd ts kind payload log = Some r"
  shows "ue_flow r = el_flow log \<and> ue_seq r = el_next_seq log \<and> ue_kind r = kind \<and> ue_payload r = payload
    \<and> ue_prev_hash r = el_last_hash log
    \<and> (\<exists>m. enc_unsigned cd (unsigned_event.truncate r) = Some m \<and> ue_signature r = cr_sign cr (el_key log) m)"
  using assms by (auto simp: next_event_record_def unsigned_event.defs event_record.defs Let_def split: option.splits)

lemma appended:
  assumes "append_event cr cd None ts kind payload log = (Inr seq, log')"
  shows "\<exists>r bs. next_event_record cr cd ts kind payload log = Some r \<and> enc_record cd r = Some bs \<and> length bs < 2 ^ 32
    \<and> seq = el_next_seq log \<and> log' = log\<lparr>el_file := el_file log @ frame_of bs, el_last_hash := cr_hash cr bs,
        el_next_seq := el_next_seq log + 1\<rparr>"
  using assms by (auto simp: append_event_def U32_MAX_def Let_def split: option.splits if_splits)

lemma append_holds:
  assumes ok: "codec_ok cd" "crypto_ok cr" "holds_records cr cd log rs"
    and a: "append_event cr cd None ts kind payload log = (Inr seq, log')"
    and r: "next_event_record cr cd ts kind payload log = Some r" "enc_record cd r = Some bs"
    and small: "length bs \<le> MAX_RECORD_SIZE" "length rs + 1 < MAX_RECORDS_PER_READ"
  shows "holds_records cr cd log' (rs @ [r])"
proof -
  have log': "log' = log\<lparr>el_file := el_file log @ frame_of bs, el_last_hash := cr_hash cr bs, el_next_seq := el_next_seq log + 1\<rparr>"
    using appended [OF a] r by auto
  obtain bss where b: "el_file log = frames bss" "map (enc_record cd) rs = map Some bss"
      "list_all (fits event_limits) bss"
    and v: "verify_links cr (event_chain cd) (cr_public cr (el_key log)) 0 zero_hash rs = Inr (el_next_seq log, el_last_hash log)"
    and own: "el_owner log = node_id_from_pubkey cr (cr_public cr (el_key log))"
    using ok(3) by (auto simp: holds_records_def)
  have "verify_links cr (event_chain cd) (cr_public cr (el_key log)) (el_next_seq log) (el_last_hash log) [r]
      = Inr (el_next_seq log + 1, cr_hash cr bs)"
    using next_record [OF r(1)] r(2) ok(2) by (auto simp: event_chain_def crypto_ok_def)
  then have "verify_links cr (event_chain cd) (cr_public cr (el_key log)) 0 zero_hash (rs @ [r])
      = Inr (el_next_seq log + 1, cr_hash cr bs)"
    by (simp add: verify_links_append v del: verify_links.simps)
  moreover have "el_file log' = frames (bss @ [bs])" "map (enc_record cd) (rs @ [r]) = map Some (bss @ [bs])"
      "list_all (fits event_limits) (bss @ [bs])"
    using b r(2) event_fits [OF small(1)] by (simp_all add: log')
  ultimately show ?thesis
    using small(2) own unfolding holds_records_def by (intro conjI exI [of _ "bss @ [bs]"]) (simp_all add: log')
qed

text \<open>What is appended is read back: the reader finds the records that were there and the new one after them,
  with the number the append returned, the kind and the payload it was given and the flow of the log.\<close>

theorem append_read_back:
  assumes "codec_ok cd" "crypto_ok cr" "holds_records cr cd log rs"
    and "append_event cr cd None ts kind payload log = (Inr seq, log')"
    and "length (el_file log') \<le> length (el_file log) + 4 + MAX_RECORD_SIZE" "length rs + 1 < MAX_RECORDS_PER_READ"
  shows "\<exists>r. read_records cd (el_file log') = Inr (rs @ [r]) \<and> ue_seq r = seq \<and> seq = length rs
    \<and> ue_kind r = kind \<and> ue_payload r = payload \<and> ue_flow r = el_flow log"
proof -
  obtain r bs where r: "next_event_record cr cd ts kind payload log = Some r" "enc_record cd r = Some bs"
    and seq: "seq = el_next_seq log" and log': "log' = log\<lparr>el_file := el_file log @ frame_of bs,
        el_last_hash := cr_hash cr bs, el_next_seq := el_next_seq log + 1\<rparr>"
    using appended [OF assms(4)] by blast
  have "length bs \<le> MAX_RECORD_SIZE" using assms(5) by (simp add: log')
  note h = append_holds [OF assms(1-4) r this assms(6)]
  have "read_records cd (el_file log') = Inr (rs @ [r])"
    using read_held [OF assms(1) h, of "[]"] read_frames_short [OF room [OF h], of "[]" "dec_record cd"] by simp
  moreover have "seq = length rs" using held_count [OF assms(3)] by (simp add: seq)
  ultimately show ?thesis using next_record [OF r(1)] seq by (intro exI [of _ r]) simp
qed

text \<open>C14. A crash in the middle of an append, after any number of bytes, has one of three outcomes at the next start:
  within the length the log is as before the append, with the rest of the length at its end; within the
  record the log is refused as torn; and at the end of the record the append has happened.\<close>

theorem crash_outcomes:
  assumes "codec_ok cd" "crypto_ok cr" "holds_records cr cd log rs"
    and "append_event cr cd None ts kind payload log = (Inr seq, log')"
    and "length (el_file log') \<le> length (el_file log) + 4 + MAX_RECORD_SIZE" "length rs + 1 < MAX_RECORDS_PER_READ"
    and "append_event cr cd (Some n) ts kind payload log = (Inl LIo, torn)"
  shows "open_event_log cr cd (Some (el_file torn)) (el_flow log) (el_key log) =
    (if n < 4 then Inr torn
     else if length (el_file log) + n < length (el_file log') then Inl (LTornWrite (length rs))
     else Inr log')"
proof -
  obtain r bs where r: "next_event_record cr cd ts kind payload log = Some r" "enc_record cd r = Some bs" "length bs < 2 ^ 32"
    and log': "log' = log\<lparr>el_file := el_file log @ frame_of bs, el_last_hash := cr_hash cr bs, el_next_seq := el_next_seq log + 1\<rparr>"
    using appended [OF assms(4)] by blast
  have torn: "torn = log\<lparr>el_file := el_file log @ take n (frame_of bs)\<rparr>"
    using assms(7) r by (simp add: append_event_def U32_MAX_def split: if_splits)
  have small: "length bs \<le> MAX_RECORD_SIZE" using assms(5) by (simp add: log')
  note h = append_holds [OF assms(1-4) r(1,2) small assms(6)]
  consider "n < 4" | "4 \<le> n" "n < length (frame_of bs)" | "length (frame_of bs) \<le> n" by linarith
  then show ?thesis
  proof cases
    case 1
    then show ?thesis using reopened [OF assms(1,3), of "take n (frame_of bs)"] by (simp add: torn)
  next
    case 2
    have "read_frames event_limits (dec_record cd) (length rs) (take n (frame_of bs)) = Inl (LTornWrite (length rs))"
      by (rule read_frames_torn [OF room [OF assms(3)] event_fits [OF small] 2])
    then show ?thesis using read_held [OF assms(1,3), of "take n (frame_of bs)"] 2
      by (simp add: open_event_log_def verify_chain_def torn log')
  next
    case 3
    then show ?thesis using reopened [OF assms(1) h, of "[]"] by (simp add: torn log')
  qed
qed

text \<open>C27. The last hash and the number of events determine the log: two logs that verify with the same, whatever their
  keys, hold the same records, unless two encodings among them collide.\<close>

theorem same_head_same_log:
  assumes "verify_chain cr cd pk f = Inr (n, h)" "verify_chain cr cd pk' f' = Inr (n, h)"
    and "read_records cd f = Inr rs" "read_records cd f' = Inr rs'" "codec_ok cd"
    and "inj_on (cr_hash cr) {bs. \<exists>r \<in> set rs \<union> set rs'. enc_record cd r = Some bs}"
  shows "rs = rs'"
proof (rule chain_unique)
  show "verify_links cr (event_chain cd) pk 0 zero_hash rs = Inr (n, h)"
    "verify_links cr (event_chain cd) pk' 0 zero_hash rs' = Inr (n, h)"
    using assms(1-4) by (simp_all add: verify_chain_def)
  show "inj_on (cr_hash cr) {bs. \<exists>r \<in> set rs \<union> set rs'. ch_encode (event_chain cd) r = Some bs}"
    using assms(6) by (simp add: event_chain_def)
  show "r = r'" if "ch_encode (event_chain cd) r = Some bs" "ch_encode (event_chain cd) r' = Some bs" for r r' bs
    using that assms(5) unfolding event_chain_def codec_ok_def by (metis chain.select_convs(5) option.inject)
qed

end
