(* ===== verification/Relix_Log_Limits.thy ===== *)
theory Relix_Log_Limits
  imports Relix_Log_Props
begin

text \<open>
  Where the event log stops short of its promise: events it takes and can not read back, a retry after an
  append that failed too late, a log of another flow, and a log cut at the end of a record.
\<close>

lemma open_error: "verify_chain cr cd (cr_public cr key) bs = Inl e \<Longrightarrow> open_event_log cr cd (Some bs) flow key = Inl e"
  by (simp add: open_event_log_def Let_def)

lemma read_too_large:
  assumes "\<not> too_many lim n" "length bs < 2 ^ 32" "lim = Some (mx, big)" "big < length bs"
  shows "read_frames lim dec n (frame_of bs @ rest) = Inl (LRecordTooLarge (length bs) big)"
  using assms from_to_be_bytes [of "length bs"]
  by (subst read_frames.simps) (simp add: frame_parts too_large_def Let_def)

text \<open>An event larger than the reader allows is written and acknowledged, and from then on the log can not be opened.\<close>

theorem large_event_bricks:
  assumes "codec_ok cd" "holds_records cr cd log rs" "append_event cr cd None ts kind payload log = (Inr seq, log')"
    and "length (el_file log) + 4 + MAX_RECORD_SIZE < length (el_file log')"
  shows "open_event_log cr cd (Some (el_file log')) (el_flow log) (el_key log) =
    Inl (LRecordTooLarge (length (el_file log') - length (el_file log) - 4) MAX_RECORD_SIZE)"
proof -
  obtain r bs where r: "enc_record cd r = Some bs" "length bs < 2 ^ 32"
    and log': "log' = log\<lparr>el_file := el_file log @ frame_of bs, el_last_hash := cr_hash cr bs, el_next_seq := el_next_seq log + 1\<rparr>"
    using appended [OF assms(3)] by blast
  have "MAX_RECORD_SIZE < length bs" using assms(4) by (simp add: log')
  then show ?thesis
    using read_held [OF assms(1,2), of "frame_of bs"] read_too_large [OF room [OF assms(2)] r(2) refl, of "dec_record cd" "[]"]
    by (intro open_error) (simp add: verify_chain_def log')
qed

lemma read_full:
  assumes "codec_ok cd" "map (enc_record cd) rs = map Some bss" "list_all (fits event_limits) bss"
    and "length rs = MAX_RECORDS_PER_READ"
  shows "read_records cd (frames bss) = Inl (LTooManyRecords MAX_RECORDS_PER_READ)"
proof -
  obtain b bs r rs' where c: "bss = bs @ [b]" "rs = rs' @ [r]"
    using assms(2,4) by (cases bss rule: rev_cases; cases rs rule: rev_cases) (auto simp: MAX_RECORDS_PER_READ_def)
  have l: "length rs' = MAX_RECORDS_PER_READ - 1" "length bs = MAX_RECORDS_PER_READ - 1"
    using assms(4) map_eq_imp_length_eq [OF assms(2)] by (simp_all add: c)
  have fit: "list_all2 (\<lambda>bs r. fits event_limits bs \<and> dec_record cd bs = Some r) bs rs'"
      "fits event_limits b" "dec_record cd b = Some r"
    using encoded_fits [OF assms(1-3)] l by (simp_all add: c list_all2_append)
  have all: "read_frames event_limits (dec_record cd) MAX_RECORDS_PER_READ [] = Inl (LTooManyRecords MAX_RECORDS_PER_READ)"
    by (subst read_frames.simps) (simp add: too_many_def)
  have one: "read_frames event_limits (dec_record cd) (MAX_RECORDS_PER_READ - 1) (frame_of b)
      = Inl (LTooManyRecords MAX_RECORDS_PER_READ)"
    using read_frame_Cons [of event_limits "MAX_RECORDS_PER_READ - 1" b "dec_record cd" r "[]"] fit(2,3) all
    by (simp add: too_many_def MAX_RECORDS_PER_READ_def)
  show ?thesis
    using read_frames_append [OF fit(1), of 0 "frame_of b"] one l(2)
    by (simp add: read_records_def c too_many_def MAX_RECORDS_PER_READ_def)
qed

text \<open>The event that fills the log up to the number the reader allows is written, and the log can not be opened again.\<close>

lemma full_log_refused:
  assumes "codec_ok cd" "crypto_ok cr" "holds_records cr cd log rs"
    and "append_event cr cd None ts kind payload log = (Inr seq, log')"
    and "length (el_file log') \<le> length (el_file log) + 4 + MAX_RECORD_SIZE" "length rs + 1 = MAX_RECORDS_PER_READ"
  shows "open_event_log cr cd (Some (el_file log')) (el_flow log) (el_key log) = Inl (LTooManyRecords MAX_RECORDS_PER_READ)"
proof -
  obtain r bs where r: "enc_record cd r = Some bs"
    and log': "log' = log\<lparr>el_file := el_file log @ frame_of bs, el_last_hash := cr_hash cr bs, el_next_seq := el_next_seq log + 1\<rparr>"
    using appended [OF assms(4)] by blast
  obtain bss where b: "el_file log = frames bss" "map (enc_record cd) rs = map Some bss"
      "list_all (fits event_limits) bss"
    using assms(3) by (auto simp: holds_records_def)
  have "read_records cd (frames (bss @ [bs])) = Inl (LTooManyRecords MAX_RECORDS_PER_READ)"
    using assms(5,6) b r event_fits [of bs] by (intro read_full [OF assms(1), of "rs @ [r]"]) (simp_all add: log')
  then show ?thesis by (intro open_error) (simp add: verify_chain_def log' b(1))
qed

text \<open>An append that wrote the whole record and failed to sync it leaves the number and the hash where they were. The
  next append writes a second event with the same number, is acknowledged, and the log can not be opened again.\<close>

theorem retry_after_failed_sync:
  assumes "codec_ok cd" "crypto_ok cr" "holds_records cr cd log rs" "length rs + 2 < MAX_RECORDS_PER_READ"
    and "append_event cr cd None ts kind payload log = (Inr seq, synced)"
    and "append_event cr cd (Some (length (el_file synced))) ts kind payload log = (Inl LIo, log1)"
    and "append_event cr cd None ts2 kind2 payload2 log1 = (Inr seq2, log2)"
    and "length (el_file synced) \<le> length (el_file log) + 4 + MAX_RECORD_SIZE"
      "length (el_file log2) \<le> length (el_file log1) + 4 + MAX_RECORD_SIZE"
  shows "open_event_log cr cd (Some (el_file log2)) (el_flow log) (el_key log) =
    Inl (LIntegrity (WrongSeq (length rs)) (length rs + 1))"
proof -
  obtain r bs where r: "next_event_record cr cd ts kind payload log = Some r" "enc_record cd r = Some bs" "length bs < 2 ^ 32"
    and synced: "synced = log\<lparr>el_file := el_file log @ frame_of bs, el_last_hash := cr_hash cr bs, el_next_seq := el_next_seq log + 1\<rparr>"
    using appended [OF assms(5)] by blast
  have log1: "log1 = log\<lparr>el_file := el_file log @ frame_of bs\<rparr>"
    using assms(6) r by (simp add: append_event_def U32_MAX_def synced split: if_splits)
  obtain r2 bs2 where r2: "next_event_record cr cd ts2 kind2 payload2 log1 = Some r2" "enc_record cd r2 = Some bs2"
    and log2: "el_file log2 = el_file log1 @ frame_of bs2"
    using appended [OF assms(7)] by auto
  have small: "length bs \<le> MAX_RECORD_SIZE" "length bs2 \<le> MAX_RECORD_SIZE" using assms(8,9) by (simp_all add: synced log2)
  have h: "holds_records cr cd synced (rs @ [r])"
    using append_holds [OF assms(1-3) assms(5) r(1,2) small(1)] assms(4) by simp
  have d2: "dec_record cd bs2 = Some r2" using assms(1) r2(2) by (simp add: codec_ok_def)
  have "\<not> too_many event_limits (length (rs @ [r]) + 1)" using assms(4) by (simp add: too_many_def)
  then have "read_frames event_limits (dec_record cd) (length (rs @ [r]) + 1) [] = Inr []" by (simp add: read_frames_short)
  then have "read_frames event_limits (dec_record cd) (length (rs @ [r])) (frame_of bs2) = Inr [r2]"
    using read_frame_Cons [of event_limits "length (rs @ [r])" bs2 "dec_record cd" r2 "[]", OF room [OF h] event_fits [OF small(2)] d2]
    by simp
  then have read: "read_records cd (el_file log2) = Inr ((rs @ [r]) @ [r2])"
    using read_held [OF assms(1) h, of "frame_of bs2"] by (simp add: log2 log1 synced)
  have v: "verify_links cr (event_chain cd) (cr_public cr (el_key log)) 0 zero_hash (rs @ [r])
      = Inr (el_next_seq synced, el_last_hash synced)"
    using h by (simp add: holds_records_def synced)
  have n: "el_next_seq log = length rs" "ue_seq r2 = length rs"
    using held_count [OF assms(3)] next_record [OF r2(1)] by (simp_all add: log1)
  have "verify_links cr (event_chain cd) (cr_public cr (el_key log)) (el_next_seq synced) (el_last_hash synced) [r2]
      = Inl (LIntegrity (WrongSeq (length rs)) (length rs + 1))"
    using n by (simp add: event_chain_def synced)
  then have "verify_chain cr cd (cr_public cr (el_key log)) (el_file log2) = Inl (LIntegrity (WrongSeq (length rs)) (length rs + 1))"
    using read v by (simp add: verify_chain_def verify_links_append del: verify_links.simps append_assoc)
  then show ?thesis by (rule open_error)
qed

text \<open>Opening does not look at the flow the events are of: the log of one flow opens as that of any other.\<close>

lemma other_flow_accepted:
  "open_event_log cr cd (Some bs) flow key = Inr log \<Longrightarrow>
   open_event_log cr cd (Some bs) flow' key = Inr (log\<lparr>el_flow := flow'\<rparr>)"
  by (auto simp: open_event_log_def Let_def split: sum.splits)

text \<open>A log cut at the end of a record verifies: the events that were lost are not missed.\<close>

lemma cut_log_verifies:
  assumes "codec_ok cd" "holds_records cr cd log (rs @ lost)"
  shows "\<exists>f log'. (\<exists>rest. el_file log = f @ rest) \<and> open_event_log cr cd (Some f) (el_flow log) (el_key log) = Inr log'
    \<and> holds_records cr cd log' rs"
proof -
  obtain bss where b: "el_file log = frames bss" "map (enc_record cd) (rs @ lost) = map Some bss"
      "list_all (fits event_limits) bss"
    and n: "length rs + length lost < MAX_RECORDS_PER_READ"
    and v: "verify_links cr (event_chain cd) (cr_public cr (el_key log)) 0 zero_hash (rs @ lost) = Inr (el_next_seq log, el_last_hash log)"
    and own: "el_owner log = node_id_from_pubkey cr (cr_public cr (el_key log))"
    using assms(2) by (auto simp: holds_records_def)
  obtain m h where p: "verify_links cr (event_chain cd) (cr_public cr (el_key log)) 0 zero_hash rs = Inr (m, h)"
    using v by (auto simp: verify_links_append split: sum.splits)
  let ?k = "take (length rs) bss"
  let ?log = "log\<lparr>el_file := frames ?k, el_next_seq := m, el_last_hash := h\<rparr>"
  have "map (enc_record cd) rs = map Some ?k"
    using arg_cong [OF b(2), of "take (length rs)"] by (simp add: take_map)
  moreover have "list_all (fits event_limits) ?k"
    using b(3) by (auto simp: list_all_iff dest: in_set_takeD)
  ultimately have held: "holds_records cr cd ?log rs"
    using n p own unfolding holds_records_def by (intro conjI exI [of _ ?k]) simp_all
  have "el_file log = frames ?k @ frames (drop (length rs) bss)"
    unfolding b(1) by (metis append_take_drop_id frames_simps(3))
  moreover have "open_event_log cr cd (Some (frames ?k)) (el_flow log) (el_key log) = Inr ?log"
    using reopened [OF assms(1) held, of "[]"] by simp
  ultimately show ?thesis using held by blast
qed

end
