(* ===== verification/Relix_Audit_Props.thy ===== *)
theory Relix_Audit_Props
  imports Relix_Log_Props
begin

text \<open>
  The audit log of a responder across restarts, when it is put aside, and the limits of what both logs
  detect: what the writer accepts and the reader refuses, a retry after a failed sync, a log of another
  flow, a log cut at the end of a record.
\<close>

section \<open>Audit records across restarts\<close>

definition audit_holds :: "crypto \<Rightarrow> audit_codec \<Rightarrow> audit_log_file \<Rightarrow> audit_record list \<Rightarrow> bool" where
  "audit_holds cr cd log rs \<longleftrightarrow>
     (\<exists>bss. al_file log = frames bss \<and> map (enc_record cd) rs = map Some bss \<and> list_all (fits None) bss)
     \<and> verify_links cr (audit_chain cd) (cr_public cr (al_key log)) 0 zero_hash rs = Inr (length rs, al_last_hash log)
     \<and> al_responder log = node_id_from_pubkey cr (cr_public cr (al_key log))"

lemma audit_read_held:
  assumes "codec_ok cd" "audit_holds cr cd log rs"
  shows "read_audit_records cd (al_file log @ rest)
    = (case read_frames None (dec_record cd) (length rs) rest of Inl e \<Rightarrow> Inl e | Inr rs' \<Rightarrow> Inr (rs @ rs'))"
  using assms read_whole_frames [OF assms(1), of rs _ None rest]
  by (auto simp: audit_holds_def read_audit_records_def too_many_def)

lemma audit_reopened:
  assumes "codec_ok cd" "audit_holds cr cd log rs" "length rest < 4"
  shows "open_audit_log cr cd (Some (al_file log @ rest)) (al_key log) = Inr (log\<lparr>al_file := al_file log @ rest\<rparr>, None)"
proof -
  have "read_audit_records cd (al_file log @ rest) = Inr rs"
    using audit_read_held [OF assms(1,2), of rest] read_frames_short [of None "length rs" rest "dec_record cd"] assms(3)
    by (simp add: too_many_def)
  then show ?thesis
    using assms(2) by (simp add: open_audit_log_def verify_audit_chain_def audit_holds_def Let_def)
qed

lemma next_audit:
  assumes "next_audit_record cr cd ts ms d decision st ek log = Some r"
  shows "ua_prev_hash r = al_last_hash log \<and> ua_responder r = al_responder log \<and> ua_decision r = decision
    \<and> ua_status r = audit_status_text st \<and> ua_request r = ad_request d
    \<and> (\<exists>m. enc_unsigned cd (unsigned_audit.truncate r) = Some m \<and> ua_signature r = cr_sign cr (al_key log) m)"
  using assms by (auto simp: next_audit_record_def unsigned_audit.defs audit_record.defs Let_def split: option.splits)

lemma finalized:
  assumes "finalize_audit cr cd None ts ms d decision st ek log = (Inr (), log')"
  shows "\<exists>r bs. next_audit_record cr cd ts ms d decision st ek log = Some r \<and> enc_record cd r = Some bs
    \<and> fits None bs \<and> log' = log\<lparr>al_file := al_file log @ frame_of bs, al_last_hash := cr_hash cr bs\<rparr>"
  using assms
  by (auto simp: finalize_audit_def U32_MAX_def fits_def too_large_def split: option.splits if_splits)

lemma finalize_holds:
  assumes ok: "codec_ok cd" "crypto_ok cr" "audit_holds cr cd log rs"
    and r: "next_audit_record cr cd ts ms d decision st ek log = Some r" "enc_record cd r = Some bs" "fits None bs"
    and log': "log' = log\<lparr>al_file := al_file log @ frame_of bs, al_last_hash := cr_hash cr bs\<rparr>"
  shows "audit_holds cr cd log' (rs @ [r])"
proof -
  obtain bss where b: "al_file log = frames bss" "map (enc_record cd) rs = map Some bss" "list_all (fits None) bss"
    and v: "verify_links cr (audit_chain cd) (cr_public cr (al_key log)) 0 zero_hash rs = Inr (length rs, al_last_hash log)"
    and own: "al_responder log = node_id_from_pubkey cr (cr_public cr (al_key log))"
    using ok(3) by (auto simp: audit_holds_def)
  have "verify_links cr (audit_chain cd) (cr_public cr (al_key log)) (length rs) (al_last_hash log) [r]
      = Inr (length rs + 1, cr_hash cr bs)"
    using next_audit [OF r(1)] r(2) ok(2) by (auto simp: audit_chain_def crypto_ok_def)
  then have "verify_links cr (audit_chain cd) (cr_public cr (al_key log)) 0 zero_hash (rs @ [r])
      = Inr (length rs + 1, cr_hash cr bs)"
    by (simp add: verify_links_append v del: verify_links.simps)
  then show ?thesis
    using own b r(2,3) unfolding audit_holds_def by (intro conjI exI [of _ "bss @ [bs]"]) (simp_all add: log')
qed

text \<open>A request that was audited stays audited: after a finalize that succeeded the log opens again under the same
  key, with nothing put aside, at the hash where it was left.\<close>

theorem audited_survives_restart:
  assumes "codec_ok cd" "crypto_ok cr" "audit_holds cr cd log rs"
    and "finalize_audit cr cd None ts ms d decision st ek log = (Inr (), log')"
  shows "open_audit_log cr cd (Some (al_file log')) (al_key log') = Inr (log', None)"
proof -
  obtain r bs where r: "next_audit_record cr cd ts ms d decision st ek log = Some r" "enc_record cd r = Some bs" "fits None bs"
    and log': "log' = log\<lparr>al_file := al_file log @ frame_of bs, al_last_hash := cr_hash cr bs\<rparr>"
    using finalized [OF assms(4)] by blast
  show ?thesis using audit_reopened [OF assms(1) finalize_holds [OF assms(1-3) r log'], of "[]"] by simp
qed

section \<open>Which record is at fault\<close>

lemma first_fault_verify:
  "first_fault cr cd pk prev rs =
    (case verify_links cr (audit_chain cd) pk n prev rs of
       Inr _ \<Rightarrow> Inr None
     | Inl (LIntegrity reason k) \<Rightarrow> Inr (Some (ua_responder (rs ! (k - n))))
     | Inl e \<Rightarrow> Inl e) \<and>
   (case verify_links cr (audit_chain cd) pk n prev rs of Inl (LIntegrity reason k) \<Rightarrow> n \<le> k \<and> k < n + length rs | _ \<Rightarrow> True)"
proof (induction rs arbitrary: n prev)
  case (Cons r rs)
  have at: "n < k \<Longrightarrow> (r # rs) ! (k - n) = rs ! (k - Suc n)" for k
    by (metis Suc_diff_Suc nth_Cons_Suc)
  show ?case
  proof (cases "ua_prev_hash r = prev \<and> (\<exists>m bs. enc_unsigned cd (unsigned_audit.truncate r) = Some m
      \<and> cr_verify cr pk m (ua_signature r) \<and> enc_record cd r = Some bs)")
    case True
    then obtain m bs where s: "ua_prev_hash r = prev" "enc_unsigned cd (unsigned_audit.truncate r) = Some m"
        "cr_verify cr pk m (ua_signature r)" "enc_record cd r = Some bs" by blast
    then show ?thesis
      using Cons.IH [of "cr_hash cr bs" "Suc n"] at by (auto simp: audit_chain_def split: sum.splits log_error.splits)
  next
    case False
    then show ?thesis by (auto simp: audit_chain_def split: option.splits)
  qed
qed simp

text \<open>C30. The two scans of an audit log agree: the one that names the responder at fault finds nothing exactly when
  the log verifies, and otherwise names the responder of the record where the verification broke off.\<close>

theorem scans_agree:
  "first_fault_responder cr cd pk bs =
    (case read_audit_records cd bs of Inl e \<Rightarrow> Inl e
     | Inr rs \<Rightarrow>
        (case verify_audit_chain cr cd pk bs of
           Inr _ \<Rightarrow> Inr None
         | Inl (LIntegrity reason n) \<Rightarrow> Inr (Some (ua_responder (rs ! n)))
         | Inl e \<Rightarrow> Inl e))"
  by (auto simp: first_fault_responder_def verify_audit_chain_def first_fault_verify [where n = 0]
      split: sum.splits log_error.splits)

lemma fault_named:
  assumes "read_audit_records cd bs = Inr rs" "verify_audit_chain cr cd pk bs = Inl (LIntegrity reason n)"
  shows "first_fault_responder cr cd pk bs = Inr (Some (ua_responder (rs ! n)))"
  using assms first_fault_verify [of cr cd pk zero_hash rs 0]
  by (auto simp: first_fault_responder_def verify_audit_chain_def split: sum.splits)

lemma integrity_was_read:
  assumes "verify_audit_chain cr cd pk bs = Inl (LIntegrity reason n)" "read_audit_records cd bs = Inr rs"
  shows "n < length rs"
  using assms first_fault_verify [of cr cd pk zero_hash rs 0] by (auto simp: verify_audit_chain_def split: sum.splits)

text \<open>A log whose first bad record names this responder is refused, and its bytes are not put aside.\<close>

theorem own_fault_refused:
  assumes "read_audit_records cd bs = Inr rs" "verify_audit_chain cr cd (cr_public cr key) bs = Inl (LIntegrity reason n)"
    and "ua_responder (rs ! n) = node_id_from_pubkey cr (cr_public cr key)"
  shows "open_audit_log cr cd (Some bs) key = Inl (LIntegrity reason n)"
  using assms fault_named [OF assms(1,2)] by (simp add: open_audit_log_def Let_def)

lemma put_aside:
  assumes "read_audit_records cd bs = Inr rs" "verify_audit_chain cr cd (cr_public cr key) bs = Inl (LIntegrity reason n)"
    and "ua_responder (rs ! n) \<noteq> node_id_from_pubkey cr (cr_public cr key)"
  shows "open_audit_log cr cd (Some bs) key =
    Inr (\<lparr>al_file = [], al_key = key, al_last_hash = zero_hash,
      al_responder = node_id_from_pubkey cr (cr_public cr key)\<rparr>, Some bs)"
  using assms fault_named [OF assms(1,2)] by (simp add: open_audit_log_def Let_def)

lemma put_aside_only:
  assumes "open_audit_log cr cd (Some bs) key = Inr (log, Some old)"
  shows "\<exists>rs reason n. read_audit_records cd bs = Inr rs
    \<and> verify_audit_chain cr cd (cr_public cr key) bs = Inl (LIntegrity reason n)
    \<and> ua_responder (rs ! n) \<noteq> node_id_from_pubkey cr (cr_public cr key)"
proof -
  obtain reason n where v: "verify_audit_chain cr cd (cr_public cr key) bs = Inl (LIntegrity reason n)"
    using assms by (auto simp: open_audit_log_def Let_def split: sum.splits log_error.splits)
  obtain rs where rs: "read_audit_records cd bs = Inr rs"
    using assms v by (auto simp: open_audit_log_def first_fault_responder_def Let_def split: sum.splits)
  have "ua_responder (rs ! n) \<noteq> node_id_from_pubkey cr (cr_public cr key)"
    using assms v fault_named [OF rs v] by (auto simp: open_audit_log_def Let_def split: if_splits)
  with rs v show ?thesis by blast
qed

text \<open>C26. When a log is put aside, exactly: it could be read, it did not verify, and the record where it broke names
  another responder. What that record says is all that counts, whoever wrote it.\<close>

theorem put_aside_exactly:
  "(\<exists>log old. open_audit_log cr cd (Some bs) key = Inr (log, Some old)) \<longleftrightarrow>
   (\<exists>rs reason n. read_audit_records cd bs = Inr rs
      \<and> verify_audit_chain cr cd (cr_public cr key) bs = Inl (LIntegrity reason n)
      \<and> ua_responder (rs ! n) \<noteq> node_id_from_pubkey cr (cr_public cr key))"
  using put_aside put_aside_only by blast

text \<open>Nothing is destroyed by opening: what is put aside is the old file byte for byte, and the log that takes its place is empty.\<close>

theorem aside_is_old_file:
  assumes "open_audit_log cr cd (Some bs) key = Inr (log, Some old)"
  shows "old = bs \<and> al_file log = [] \<and> al_last_hash log = zero_hash"
proof -
  obtain rs reason n where "read_audit_records cd bs = Inr rs"
      "verify_audit_chain cr cd (cr_public cr key) bs = Inl (LIntegrity reason n)"
      "ua_responder (rs ! n) \<noteq> node_id_from_pubkey cr (cr_public cr key)"
    using put_aside_only [OF assms] by blast
  from put_aside [OF this] assms show ?thesis by auto
qed

text \<open>The tampering this lets through. Of a log that verifies, rewrite one record: change what it records and name
  another responder. Its old signature does not fit, and the whole log is put aside, as after a change
  of key, although all of its records were this responder's.\<close>

lemma edited_log_put_aside:
  assumes "codec_ok cd" "audit_holds cr cd log rs" "map (enc_record cd) (rs @ forged # later) = map Some (bss @ new # bss')"
      "length bss = length rs" "list_all (fits None) (bss @ new # bss')"
    and forged: "ua_prev_hash forged = al_last_hash log" "enc_unsigned cd (unsigned_audit.truncate forged) = Some m"
      "\<not> cr_verify cr (cr_public cr (al_key log)) m (ua_signature forged)" "ua_responder forged \<noteq> al_responder log"
  shows "open_audit_log cr cd (Some (frames (bss @ new # bss'))) (al_key log) =
    Inr (log\<lparr>al_file := [], al_last_hash := zero_hash\<rparr>, Some (frames (bss @ new # bss')))"
proof -
  let ?f = "frames (bss @ new # bss')"
  have v: "verify_links cr (audit_chain cd) (cr_public cr (al_key log)) 0 zero_hash rs = Inr (length rs, al_last_hash log)"
    and own: "al_responder log = node_id_from_pubkey cr (cr_public cr (al_key log))"
    using assms(2) by (auto simp: audit_holds_def)
  have r: "read_audit_records cd ?f = Inr (rs @ forged # later)"
    using read_whole_frames [OF assms(1,3,5), of "[]"]
      read_frames_short [of None "length (rs @ forged # later)" "[]" "dec_record cd"]
    by (simp add: read_audit_records_def too_many_def del: frames_simps)
  have "verify_links cr (audit_chain cd) (cr_public cr (al_key log)) (length rs) (al_last_hash log) (forged # later)
      = Inl (LIntegrity BadSignature (length rs))"
    using forged by (simp add: audit_chain_def)
  then have "verify_audit_chain cr cd (cr_public cr (al_key log)) ?f = Inl (LIntegrity BadSignature (length rs))"
    using r by (simp add: verify_audit_chain_def verify_links_append v del: verify_links.simps)
  from put_aside [OF r this] show ?thesis using forged(4) own by simp
qed

end
