(* ===== verification/Relix_Log_Demo.thy ===== *)
theory Relix_Log_Demo
  imports Relix_Log_Limits Relix_Audit_Props
begin

text \<open>
  The signed logs at work on small instances: a codec that knows two records, a hash without collisions and
  signatures that are the key and the message.
\<close>

definition toy_crypto :: crypto where
  "toy_crypto = \<lparr>cr_hash = (\<lambda>bs. 1 # bs), cr_public = (\<lambda>k. k), cr_sign = (\<lambda>k m. k @ m),
     cr_verify = (\<lambda>pk m s. s = pk @ m)\<rparr>"

lemma toy_crypto [simp]:
  "cr_hash toy_crypto bs = 1 # bs" "cr_public toy_crypto k = k" "cr_sign toy_crypto k m = k @ m"
  "cr_verify toy_crypto k m s \<longleftrightarrow> s = k @ m" "crypto_ok toy_crypto"
  by (simp_all add: toy_crypto_def crypto_ok_def)

section \<open>Events\<close>

definition new_event_log :: event_log where
  "new_event_log = \<lparr>el_flow = [7], el_file = [], el_key = [9], el_next_seq = 0, el_last_hash = zero_hash, el_owner = [1, 9]\<rparr>"

definition event0 :: event_record where
  "event0 = \<lparr>ue_flow = [7], ue_seq = 0, ue_ts = 10, ue_kind = FlowStarted, ue_payload = [5], ue_prev_hash = zero_hash, ue_signature = [9, 0]\<rparr>"

definition event1 :: event_record where
  "event1 = event0\<lparr>ue_seq := 1, ue_kind := FlowCompleted, ue_prev_hash := [1, 3, 3], ue_signature := [9, 1]\<rparr>"

text \<open>The second record for a retry after a failed sync has the number of the first.\<close>

definition event0_again :: event_record where
  "event0_again = event0\<lparr>ue_kind := FlowFailed\<rparr>"

definition toy_events :: "bytes \<Rightarrow> event_record \<Rightarrow> event_codec" where
  "toy_events first second = \<lparr>enc_unsigned = (\<lambda>u. Some [word_of_nat (ue_seq u)]),
     enc_record = (\<lambda>r. if r = event0 then Some first else if r = second then Some [4, 4] else None),
     dec_record = (\<lambda>bs. if bs = first then Some event0 else if bs = [4, 4] then Some second else None)\<rparr>"

lemma toy_events_ok: "first \<noteq> [4, 4] \<Longrightarrow> codec_ok (toy_events first second)"
  by (auto simp: codec_ok_def toy_events_def split: if_splits)

lemma new_holds: "holds_records toy_crypto cd new_event_log []"
  by (simp add: holds_records_def new_event_log_def MAX_RECORDS_PER_READ_def node_id_from_pubkey_def)

lemma next0: "next_event_record toy_crypto (toy_events first second) 10 FlowStarted [5] (new_event_log\<lparr>el_file := f\<rparr>) = Some event0"
  by (simp add: next_event_record_def toy_events_def new_event_log_def event0_def unsigned_event.defs event_record.defs)

definition one_event :: "bytes \<Rightarrow> event_log" where
  "one_event first = new_event_log\<lparr>el_file := frame_of first, el_last_hash := 1 # first, el_next_seq := 1\<rparr>"

lemma new_file: "new_event_log\<lparr>el_file := []\<rparr> = new_event_log"
  by (simp add: new_event_log_def)

lemma append0:
  assumes "length first \<le> U32_MAX"
  shows "append_event toy_crypto (toy_events first second) None 10 FlowStarted [5] new_event_log = (Inr 0, one_event first)"
    "append_event toy_crypto (toy_events first second) (Some n) 10 FlowStarted [5] new_event_log
      = (Inl LIo, new_event_log\<lparr>el_file := take n (frame_of first)\<rparr>)"
  using assms
  by (simp_all add: append_event_def next0 [of _ _ "[]", unfolded new_file] Let_def one_event_def)
    (simp_all add: toy_events_def new_event_log_def)

theorem append_read_back_witness:
  "\<exists>r. read_records (toy_events [3, 3] event1) (el_file (one_event [3, 3])) = Inr ([] @ [r])
    \<and> ue_seq r = 0 \<and> 0 = length ([] :: event_record list) \<and> ue_kind r = FlowStarted \<and> ue_payload r = [5]
    \<and> ue_flow r = el_flow new_event_log"
  by (rule append_read_back [OF toy_events_ok _ new_holds append0(1)])
    (simp_all add: U32_MAX_def one_event_def new_event_log_def MAX_RECORDS_PER_READ_def MAX_RECORD_SIZE_def)

theorem crash_outcomes_witness:
  "open_event_log toy_crypto (toy_events [3, 3] event1) (Some [0, 0, 0, 2, 3]) [7] [9] = Inl (LTornWrite 0)"
  using crash_outcomes [OF toy_events_ok [of "[3, 3]" event1] _ new_holds append0(1) _ _ append0(2) [where n = 5]]
  by (simp add: U32_MAX_def one_event_def new_event_log_def MAX_RECORDS_PER_READ_def MAX_RECORD_SIZE_def
      frame_of_def to_be_bytes_def)

lemma one_reads: "read_records (toy_events [3, 3] event1) [0, 0, 0, 2, 3, 3] = Inr [event0]"
  by (simp add: read_records_def read_frames.simps too_many_def too_large_def MAX_RECORDS_PER_READ_def
      MAX_RECORD_SIZE_def from_be_bytes_def toy_events_def)

lemma one_verifies: "verify_chain toy_crypto (toy_events [3, 3] event1) [9] [0, 0, 0, 2, 3, 3] = Inr (1, [1, 3, 3])"
  unfolding verify_chain_def one_reads
  by (simp add: event_chain_def) (simp add: toy_events_def event0_def unsigned_event.defs)

theorem same_head_same_log_witness: "[event0] = [event0]"
  by (rule same_head_same_log [OF one_verifies one_verifies one_reads one_reads toy_events_ok]) (simp_all add: inj_on_def)

text \<open>An event of more than 10 MiB.\<close>

definition big_event :: bytes where
  "big_event = replicate (MAX_RECORD_SIZE + 1) 0"

lemma big_event: "length big_event = MAX_RECORD_SIZE + 1" "big_event \<noteq> [4, 4]"
  by (auto simp: big_event_def MAX_RECORD_SIZE_def dest: arg_cong [where f = length])

lemma large_event_demo:
  "open_event_log toy_crypto (toy_events big_event event1) (Some (el_file (one_event big_event))) [7] [9] =
    Inl (LRecordTooLarge (MAX_RECORD_SIZE + 1) MAX_RECORD_SIZE)"
  using large_event_bricks [OF toy_events_ok [OF big_event(2)] new_holds append0(1) [of big_event event1]]
  by (simp add: big_event(1) U32_MAX_def MAX_RECORD_SIZE_def one_event_def new_event_log_def)

text \<open>A crash inside the length of a record leaves bytes that the next start accepts; they shift everything
  appended after them, and the event that was acknowledged then is lost with the log.\<close>

definition torn_log :: event_log where
  "torn_log = new_event_log\<lparr>el_file := [0]\<rparr>"

lemma torn_length:
  "append_event toy_crypto (toy_events [3, 3] event1) (Some 1) 10 FlowStarted [5] new_event_log = (Inl LIo, torn_log)"
  "open_event_log toy_crypto (toy_events [3, 3] event1) (Some (el_file torn_log)) [7] [9] = Inr torn_log"
  "append_event toy_crypto (toy_events [3, 3] event1) None 10 FlowStarted [5] torn_log
    = (Inr 0, torn_log\<lparr>el_file := [0, 0, 0, 0, 2, 3, 3], el_last_hash := [1, 3, 3], el_next_seq := 1\<rparr>)"
proof -
  show "append_event toy_crypto (toy_events [3, 3] event1) (Some 1) 10 FlowStarted [5] new_event_log = (Inl LIo, torn_log)"
    using append0(2) [of "[3, 3]" event1 1] by (simp add: U32_MAX_def frame_of_def to_be_bytes_def torn_log_def)
  show "open_event_log toy_crypto (toy_events [3, 3] event1) (Some (el_file torn_log)) [7] [9] = Inr torn_log"
    using reopened [OF toy_events_ok new_holds, of "[3, 3]" "[0]" event1] by (simp add: new_event_log_def torn_log_def)
  show "append_event toy_crypto (toy_events [3, 3] event1) None 10 FlowStarted [5] torn_log
      = (Inr 0, torn_log\<lparr>el_file := [0, 0, 0, 0, 2, 3, 3], el_last_hash := [1, 3, 3], el_next_seq := 1\<rparr>)"
    by (simp add: append_event_def next0 Let_def torn_log_def)
      (simp add: toy_events_def new_event_log_def U32_MAX_def frame_of_def to_be_bytes_def)
qed

lemma torn_length_buries:
  "open_event_log toy_crypto (toy_events [3, 3] event1) (Some [0, 0, 0, 0, 2, 3, 3]) [7] [9] = Inl (LDecode 0)"
proof -
  have "read_records (toy_events [3, 3] event1) [0, 0, 0, 0, 2, 3, 3] = Inl (LDecode 0)"
    by (simp add: read_records_def read_frames.simps too_many_def too_large_def MAX_RECORDS_PER_READ_def
        from_be_bytes_def toy_events_def)
  then show ?thesis by (intro open_error) (simp add: verify_chain_def)
qed

lemma failed_sync_demo:
  "open_event_log toy_crypto (toy_events [3, 3] event0_again) (Some [0, 0, 0, 2, 3, 3, 0, 0, 0, 2, 4, 4]) [7] [9] =
    Inl (LIntegrity (WrongSeq 0) 1)"
proof -
  let ?cd = "toy_events [3, 3] event0_again"
    and ?log1 = "new_event_log\<lparr>el_file := [0, 0, 0, 2, 3, 3]\<rparr>"
  have r2: "next_event_record toy_crypto ?cd 10 FlowFailed [5] ?log1 = Some event0_again"
    by (simp add: next_event_record_def toy_events_def new_event_log_def event0_again_def event0_def
        unsigned_event.defs event_record.defs)
  have a2: "append_event toy_crypto ?cd None 10 FlowFailed [5] ?log1
      = (Inr 0, ?log1\<lparr>el_file := [0, 0, 0, 2, 3, 3, 0, 0, 0, 2, 4, 4], el_last_hash := [1, 4, 4], el_next_seq := 1\<rparr>)"
    by (simp add: append_event_def r2 Let_def)
      (simp add: toy_events_def new_event_log_def U32_MAX_def frame_of_def to_be_bytes_def event0_again_def event0_def)
  have f: "frame_of [3, 3] = [0, 0, 0, 2, 3, 3]" by (simp add: frame_of_def to_be_bytes_def)
  have a1: "append_event toy_crypto ?cd (Some (length (el_file (one_event [3, 3])))) 10 FlowStarted [5] new_event_log = (Inl LIo, ?log1)"
    by (simp add: append0(2) U32_MAX_def one_event_def f)
  show ?thesis
    using retry_after_failed_sync [OF toy_events_ok _ new_holds _ append0(1) a1 a2]
    by (simp add: one_event_def new_event_log_def U32_MAX_def MAX_RECORDS_PER_READ_def MAX_RECORD_SIZE_def f)
qed

section \<open>Audit records\<close>

definition new_audit_log :: audit_log_file where
  "new_audit_log = \<lparr>al_file = [], al_key = [9], al_last_hash = zero_hash, al_responder = [1, 9]\<rparr>"

definition draft :: audit_draft where
  "draft = \<lparr>ad_request = [2], ad_trace = [3], ad_caller_node = [4], ad_caller_name = cps ''alice'', ad_caller_groups = [],
     ad_method = cps ''ai.chat'', ad_flow = None\<rparr>"

definition audited :: audit_record where
  "audited = \<lparr>ua_ts = 10, ua_request = [2], ua_trace = [3], ua_caller_node = [4], ua_caller_name = cps ''alice'',
     ua_caller_groups = [], ua_responder = [1, 9], ua_method = cps ''ai.chat'', ua_decision = cps ''deny:x'',
     ua_status = cps ''denied'', ua_flow = None, ua_error_kind = None, ua_latency_ms = 5, ua_prev_hash = zero_hash,
     ua_signature = [9, 2, 1, 9]\<rparr>"

text \<open>The same record, with another responder and the denial taken back.\<close>

definition forged :: audit_record where
  "forged = audited\<lparr>ua_responder := [1, 8], ua_decision := cps ''allow:x'', ua_status := cps ''ok''\<rparr>"

definition toy_audits :: audit_codec where
  "toy_audits = \<lparr>enc_unsigned = (\<lambda>u. Some (ua_request u @ ua_responder u)),
     enc_record = (\<lambda>r. if r = audited then Some [3, 3] else if r = forged then Some [4] else None),
     dec_record = (\<lambda>bs. if bs = [3, 3] then Some audited else if bs = [4] then Some forged else None)\<rparr>"

lemma toy_audits_ok: "codec_ok toy_audits"
  by (auto simp: codec_ok_def toy_audits_def split: if_splits)

lemma forged_differs: "forged \<noteq> audited"
  by (simp add: forged_def audited_def)

lemma new_audit_holds: "audit_holds toy_crypto cd new_audit_log []"
  by (simp add: audit_holds_def new_audit_log_def node_id_from_pubkey_def)

lemma audit_demo:
  "finalize_audit toy_crypto toy_audits None 10 5 draft (cps ''deny:x'') AsDenied None new_audit_log
    = (Inr (), new_audit_log\<lparr>al_file := frame_of [3, 3], al_last_hash := [1, 3, 3]\<rparr>)"
proof -
  have "next_audit_record toy_crypto toy_audits 10 5 draft (cps ''deny:x'') AsDenied None new_audit_log = Some audited"
    by (simp add: next_audit_record_def toy_audits_def draft_def new_audit_log_def audited_def unsigned_audit.defs audit_record.defs)
  then show ?thesis
    by (simp add: finalize_audit_def Let_def) (simp add: toy_audits_def new_audit_log_def U32_MAX_def)
qed

theorem audited_survives_restart_witness:
  "open_audit_log toy_crypto toy_audits (Some (frame_of [3, 3])) [9]
    = Inr (new_audit_log\<lparr>al_file := frame_of [3, 3], al_last_hash := [1, 3, 3]\<rparr>, None)"
  using audited_survives_restart [OF toy_audits_ok _ new_audit_holds audit_demo] by (simp add: new_audit_log_def)

text \<open>The forged record is the only one of the file, and the log opens empty.\<close>

lemma forged_demo:
  "open_audit_log toy_crypto toy_audits (Some (frame_of [4])) [9] = Inr (new_audit_log, Some (frame_of [4]))"
  using edited_log_put_aside [of toy_audits toy_crypto new_audit_log "[]" forged "[]" "[]" "[4]" "[]" "[2, 1, 8]"]
    toy_audits_ok new_audit_holds forged_differs
  by (simp add: toy_audits_def new_audit_log_def forged_def audited_def fits_def too_large_def unsigned_audit.defs)

theorem own_fault_refused_witness:
  "open_audit_log toy_crypto toy_audits (Some (frame_of [3, 3] @ frame_of [3, 3])) [9] = Inl (LIntegrity ChainBreak 1)"
proof (rule own_fault_refused)
  show r: "read_audit_records toy_audits (frame_of [3, 3] @ frame_of [3, 3]) = Inr [audited, audited]"
    by (simp add: read_audit_records_def frame_of_def to_be_bytes_def read_frames.simps too_many_def too_large_def
        from_be_bytes_def toy_audits_def)
  have "zero_hash \<noteq> [1, 3, 3]" by (auto simp: zero_hash_def dest: arg_cong [where f = length])
  then have "verify_links toy_crypto (audit_chain toy_audits) [9] 0 zero_hash [audited, audited] = Inl (LIntegrity ChainBreak 1)"
    by (simp add: audit_chain_def) (simp add: toy_audits_def audited_def unsigned_audit.defs)
  then show "verify_audit_chain toy_crypto toy_audits (cr_public toy_crypto [9]) (frame_of [3, 3] @ frame_of [3, 3])
      = Inl (LIntegrity ChainBreak 1)"
    by (simp add: verify_audit_chain_def r)
  show "ua_responder ([audited, audited] ! 1) = node_id_from_pubkey toy_crypto (cr_public toy_crypto [9])"
    by (simp add: audited_def node_id_from_pubkey_def)
qed

end
