(* ===== verification/Relix_Workflow.thy ===== *)
theory Relix_Workflow
  imports Rust_Str Rust_Pattern "HOL-Library.List_Lexorder"
begin

text \<open>
  Multi-agent workflows (\<open>workflow/ast.rs\<close>, \<open>validator.rs\<close>, and the interpolation of \<open>executor.rs\<close>): the graph of
  agent steps, the variables in their inputs, and the validation of a workflow before it is run. The
  scanners of the code work on bytes; braces are ASCII, so on scalar values they find the same markers.
  Maps of the code that are ordered by key (\<open>BTreeMap\<close>) are lists sorted by key.
\<close>

section \<open>Workflows\<close>

datatype edge_condition = OnSuccess | OnFailure | Always | InParallel

record agent_spec =
  sp_peer :: ustr
  sp_capability :: ustr
  sp_input :: ustr
  sp_output :: ustr

record edge =
  ed_from :: ustr
  ed_to :: ustr
  ed_condition :: edge_condition

record workflow =
  wo_name :: ustr
  wo_version :: nat
  wo_description :: ustr
  wo_agents :: "(ustr \<times> agent_spec) list"
  wo_start :: ustr
  wo_edges :: "edge list"
  wo_result :: "ustr option"

fun parse_condition :: "ustr \<Rightarrow> edge_condition option" where
  "parse_condition s =
     (if s = cps ''success'' then Some OnSuccess else if s = cps ''failure'' then Some OnFailure
      else if s = cps ''always'' then Some Always else if s = cps ''parallel'' then Some InParallel else None)"

fun condition_str :: "edge_condition \<Rightarrow> ustr" where
  "condition_str OnSuccess = cps ''success''"
| "condition_str OnFailure = cps ''failure''"
| "condition_str Always = cps ''always''"
| "condition_str InParallel = cps ''parallel''"

abbreviation spec_of :: "workflow \<Rightarrow> ustr \<Rightarrow> agent_spec option" where
  "spec_of w \<equiv> map_of (wo_agents w)"

section \<open>Variables in templates\<close>

fun closing :: "ustr \<Rightarrow> (ustr \<times> ustr) option" where
  "closing (c # d # r) =
     (if c = 125 \<and> d = 125 then Some ([], r)
      else case closing (d # r) of None \<Rightarrow> None | Some (a, b) \<Rightarrow> Some (c # a, b))"
| "closing _ = None"

lemma closing_split: "closing s = Some (a, b) \<Longrightarrow> s = a @ [125, 125] @ b"
  by (induction s arbitrary: a b rule: closing.induct) (auto split: if_splits option.splits)

lemma closing_shorter: "closing s = Some (a, b) \<Longrightarrow> length b < length s"
  using closing_split by fastforce

definition is_variable :: "ucd \<Rightarrow> ustr \<Rightarrow> bool" where
  "is_variable u n \<longleftrightarrow> n \<noteq> [] \<and> list_all (\<lambda>c. is_alphanumeric u c \<or> c = 95 \<or> c = 46) n"

function extract_vars :: "ucd \<Rightarrow> ustr \<Rightarrow> ustr list" where
  "extract_vars u s =
     (case s of c # d # r \<Rightarrow>
        if c = 123 \<and> d = 123 then
          (case closing r of None \<Rightarrow> []
           | Some (raw, rest) \<Rightarrow> (if is_variable u (trim raw) then [trim raw] else []) @ extract_vars u rest)
        else extract_vars u (d # r)
      | _ \<Rightarrow> [])"
  by pat_completeness auto
termination
  by (relation "measure (\<lambda>(u, s). length s)") (auto dest: closing_shorter)

declare extract_vars.simps [simp del]

text \<open>The name of the first variable without a binding, or the text.\<close>

function interpolate :: "ucd \<Rightarrow> (ustr \<Rightarrow> ustr option) \<Rightarrow> ustr \<Rightarrow> ustr + ustr" where
  "interpolate u b s =
     (case s of [] \<Rightarrow> Inr [] | [c] \<Rightarrow> Inr [c]
      | c # d # r \<Rightarrow>
          if c = 123 \<and> d = 123 then
            (case closing r of None \<Rightarrow> Inr s
             | Some (raw, rest) \<Rightarrow>
                 if \<not> is_variable u (trim raw) then
                   (case interpolate u b rest of Inl v \<Rightarrow> Inl v | Inr t \<Rightarrow> Inr ([123, 123] @ raw @ [125, 125] @ t))
                 else case b (trim raw) of None \<Rightarrow> Inl (trim raw)
                 | Some x \<Rightarrow> (case interpolate u b rest of Inl v \<Rightarrow> Inl v | Inr t \<Rightarrow> Inr (x @ t)))
          else case interpolate u b (d # r) of Inl v \<Rightarrow> Inl v | Inr t \<Rightarrow> Inr (c # t))"
  by pat_completeness auto
termination
  by (relation "measure (\<lambda>(u, b, s). length s)") (auto dest: closing_shorter)

declare interpolate.simps [simp del]

section \<open>Validation\<close>

datatype validation_error =
    StartAgentMissing ustr | EdgeFromMissing nat ustr | EdgeToMissing nat ustr | CycleDetected "ustr list"
  | UndefinedVariable ustr ustr | ResultUndefinedVariable ustr | UnknownPeer ustr ustr | DuplicateOutput ustr ustr

definition workflow_input :: ustr where
  "workflow_input = cps ''workflow.input''"

fun check_edges :: "workflow \<Rightarrow> nat \<Rightarrow> edge list \<Rightarrow> validation_error option" where
  "check_edges w i [] = None"
| "check_edges w i (e # es) =
     (if spec_of w (ed_from e) = None then Some (EdgeFromMissing i (ed_from e))
      else if spec_of w (ed_to e) = None then Some (EdgeToMissing i (ed_to e))
      else check_edges w (i + 1) es)"

fun check_peers :: "ustr list option \<Rightarrow> (ustr \<times> agent_spec) list \<Rightarrow> validation_error option" where
  "check_peers None as = None"
| "check_peers (Some peers) [] = None"
| "check_peers (Some peers) ((n, sp) # as) =
     (if sp_peer sp \<notin> set peers then Some (UnknownPeer n (sp_peer sp)) else check_peers (Some peers) as)"

fun check_outputs :: "ustr set \<Rightarrow> (ustr \<times> agent_spec) list \<Rightarrow> validation_error option" where
  "check_outputs seen [] = None"
| "check_outputs seen ((n, sp) # as) =
     (if sp_output sp \<in> seen then Some (DuplicateOutput n (sp_output sp))
      else check_outputs (insert (sp_output sp) seen) as)"

text \<open>
  Which outputs a step may read: a queue of steps whose set has grown. The two loops of the code take the
  edges of a step in two passes, those for failures last; both do the same.
\<close>

type_synonym visibility = "ustr \<Rightarrow> ustr set option"

definition is_forward :: "edge \<Rightarrow> bool" where
  "is_forward e \<longleftrightarrow> ed_condition e \<noteq> OnFailure"

definition edges_from :: "workflow \<Rightarrow> ustr \<Rightarrow> edge list" where
  "edges_from w n = filter (\<lambda>e. ed_from e = n) (wo_edges w)"

fun propagate_edges :: "ustr set \<Rightarrow> edge list \<Rightarrow> visibility \<times> ustr list \<Rightarrow> visibility \<times> ustr list" where
  "propagate_edges child [] vq = vq"
| "propagate_edges child (e # es) (vis, q) =
     (let old = (case vis (ed_to e) of None \<Rightarrow> {} | Some s \<Rightarrow> s) in
      propagate_edges child es
        (vis(ed_to e \<mapsto> old \<union> child), if child \<subseteq> old then q else q @ [ed_to e]))"

definition visit_step :: "workflow \<Rightarrow> ustr \<Rightarrow> visibility \<times> ustr list \<Rightarrow> visibility \<times> ustr list" where
  "visit_step w n vq =
     (let seen = (case fst vq n of None \<Rightarrow> {} | Some s \<Rightarrow> s);
          child = (case spec_of w n of None \<Rightarrow> seen | Some sp \<Rightarrow> insert (sp_output sp) seen);
          out = edges_from w n in
      propagate_edges child (filter is_forward out @ filter (\<lambda>e. \<not> is_forward e) out) vq)"

partial_function (option) visibility_loop :: "workflow \<Rightarrow> visibility \<times> ustr list \<Rightarrow> visibility option" where
  "visibility_loop w vq =
     (case snd vq of [] \<Rightarrow> Some (fst vq) | n # q \<Rightarrow> visibility_loop w (visit_step w n (fst vq, q)))"

declare visibility_loop.simps [code]

definition compute_visibility :: "workflow \<Rightarrow> visibility option" where
  "compute_visibility w = visibility_loop w (Map.empty(wo_start w \<mapsto> {}), [wo_start w])"

definition output_suffix :: ustr where
  "output_suffix = cps ''.output''"

definition stripped_var :: "ustr \<Rightarrow> ustr" where
  "stripped_var v = (case strip_suffix output_suffix v of None \<Rightarrow> v | Some n \<Rightarrow> n)"

definition is_var_visible :: "workflow \<Rightarrow> ustr \<Rightarrow> ustr set \<Rightarrow> ustr \<Rightarrow> bool" where
  "is_var_visible w own reachable v \<longleftrightarrow>
     v = workflow_input \<or>
     ((case spec_of w own of None \<Rightarrow> True | Some sp \<Rightarrow> sp_output sp \<noteq> stripped_var v) \<and> stripped_var v \<in> reachable)"

definition is_var_visible_result :: "ustr set \<Rightarrow> ustr \<Rightarrow> bool" where
  "is_var_visible_result outputs v \<longleftrightarrow> v = workflow_input \<or> stripped_var v \<in> outputs"

fun check_inputs :: "ucd \<Rightarrow> workflow \<Rightarrow> visibility \<Rightarrow> (ustr \<times> agent_spec) list \<Rightarrow> validation_error option" where
  "check_inputs u w vis [] = None"
| "check_inputs u w vis ((n, sp) # as) =
     (let reachable = (case vis n of None \<Rightarrow> {} | Some s \<Rightarrow> s) in
      case List.find (\<lambda>v. \<not> is_var_visible w n reachable v) (extract_vars u (sp_input sp)) of
        Some v \<Rightarrow> Some (UndefinedVariable n v)
      | None \<Rightarrow> check_inputs u w vis as)"

definition check_result :: "ucd \<Rightarrow> workflow \<Rightarrow> validation_error option" where
  "check_result u w =
     (case wo_result w of None \<Rightarrow> None
      | Some t \<Rightarrow> map_option ResultUndefinedVariable
          (List.find (\<lambda>v. \<not> is_var_visible_result (sp_output ` snd ` set (wo_agents w)) v) (extract_vars u t)))"

text \<open>
  The search for a cycle, with the names on the stack as the path and a unit of fuel per call; a call at
  depth \<open>n\<close> has \<open>n\<close> different steps on its stack.
\<close>

fun dfs_cycle :: "nat \<Rightarrow> workflow \<Rightarrow> ustr list \<Rightarrow> ustr set \<Rightarrow> ustr \<Rightarrow> (ustr list + ustr set) option"
and dfs_edges :: "nat \<Rightarrow> workflow \<Rightarrow> ustr list \<Rightarrow> ustr set \<Rightarrow> edge list \<Rightarrow> (ustr list + ustr set) option" where
  "dfs_cycle 0 w path visited n = None"
| "dfs_cycle (Suc k) w path visited n =
     (if n \<in> set path then Some (Inl (dropWhile (\<lambda>m. m \<noteq> n) path @ [n]))
      else if n \<in> visited then Some (Inr visited)
      else case dfs_edges k w (path @ [n]) visited (filter is_forward (edges_from w n)) of
        None \<Rightarrow> None
      | Some (Inl cycle) \<Rightarrow> Some (Inl cycle)
      | Some (Inr visited) \<Rightarrow> Some (Inr (insert n visited)))"
| "dfs_edges k w path visited [] = Some (Inr visited)"
| "dfs_edges k w path visited (e # es) =
     (case dfs_cycle k w path visited (ed_to e) of None \<Rightarrow> None
      | Some (Inl cycle) \<Rightarrow> Some (Inl cycle)
      | Some (Inr visited) \<Rightarrow> dfs_edges k w path visited es)"

definition detect_success_cycle :: "workflow \<Rightarrow> (ustr list + unit) option" where
  "detect_success_cycle w =
     (case dfs_cycle (length (wo_edges w) + 2) w [] {} (wo_start w) of None \<Rightarrow> None
      | Some (Inl cycle) \<Rightarrow> Some (Inl cycle) | Some (Inr visited) \<Rightarrow> Some (Inr ()))"

definition validate :: "ucd \<Rightarrow> workflow \<Rightarrow> ustr list option \<Rightarrow> (validation_error + unit) option" where
  "validate u w peers =
     (if spec_of w (wo_start w) = None then Some (Inl (StartAgentMissing (wo_start w)))
      else case check_edges w 0 (wo_edges w) of Some e \<Rightarrow> Some (Inl e) | None \<Rightarrow>
        (case check_peers peers (wo_agents w) of Some e \<Rightarrow> Some (Inl e) | None \<Rightarrow>
        (case check_outputs {} (wo_agents w) of Some e \<Rightarrow> Some (Inl e) | None \<Rightarrow>
        (case compute_visibility w of None \<Rightarrow> None | Some vis \<Rightarrow>
        (case check_inputs u w vis (wo_agents w) of Some e \<Rightarrow> Some (Inl e) | None \<Rightarrow>
        (case check_result u w of Some e \<Rightarrow> Some (Inl e) | None \<Rightarrow>
        (case detect_success_cycle w of None \<Rightarrow> None
         | Some (Inl cycle) \<Rightarrow> Some (Inl (CycleDetected cycle)) | Some (Inr _) \<Rightarrow> Some (Inr ()))))))))"

end
