(* ===== verification/Relix_Workflow_Run.thy ===== *)
theory Relix_Workflow_Run
  imports Relix_Workflow
begin

text \<open>
  Running a workflow (\<open>workflow/executor.rs\<close>). The peers that are called and the cancellation flag are the
  parameter \<open>mesh\<close>: functions of a clock that advances with every look at the flag, about which nothing is
  assumed. The steps of a fan-out run one after another here; since their answers are arbitrary and each
  of them works on a copy of the state, this gives every result that running them at once can give. Only
  the events of different steps, which go to one channel, can mix in the code as they do not here.
  A message that the code formats is a value of \<open>run_error\<close>; \<open>run_error_text\<close> is its text.
\<close>

section \<open>The parts\<close>

function lossy :: "nat list \<Rightarrow> ustr" where
  "lossy [] = []"
| "lossy (b # bs) =
     (case utf8_step b bs of Inr (c, r) \<Rightarrow> c # lossy r
      | Inl None \<Rightarrow> [0xFFFD]
      | Inl (Some k) \<Rightarrow> 0xFFFD # lossy (drop (k - 1) bs))"
  by pat_completeness auto
termination
  by (relation "measure length") (auto dest: utf8_step_shorter)

definition btree_insert :: "ustr \<Rightarrow> 'v \<Rightarrow> (ustr \<times> 'v) list \<Rightarrow> (ustr \<times> 'v) list" where
  "btree_insert k v m = takeWhile (\<lambda>p. fst p < k) m @ [(k, v)] @ dropWhile (\<lambda>p. fst p \<le> k) m"

record dispatch_error =
  de_peer :: ustr
  de_method :: ustr
  de_cause :: ustr

record mesh =
  me_dispatch :: "nat \<Rightarrow> ustr \<Rightarrow> ustr \<Rightarrow> ustr \<Rightarrow> dispatch_error + nat list"
  me_cancelled :: "nat \<Rightarrow> bool"
  me_reason :: "nat \<Rightarrow> ustr option"
  me_millis :: "nat \<Rightarrow> nat"

datatype execution_status = Success | PartiallyFailed | Failed | Cancelled

fun status_str :: "execution_status \<Rightarrow> ustr" where
  "status_str Success = cps ''success''"
| "status_str PartiallyFailed = cps ''partially_failed''"
| "status_str Failed = cps ''failed''"
| "status_str Cancelled = cps ''cancelled''"

record execution_step =
  xs_agent :: ustr
  xs_peer :: ustr
  xs_capability :: ustr
  xs_input :: ustr
  xs_output :: ustr
  xs_latency_ms :: nat
  xs_outcome :: "ustr + unit"

datatype run_error =
    CancelledBy ustr | UndefinedAgent ustr | UndefinedInput ustr ustr | Unhandled ustr dispatch_error

definition dispatch_error_text :: "dispatch_error \<Rightarrow> ustr" where
  "dispatch_error_text e = cps ''workflow dispatch to peer `'' @ de_peer e @ cps ''` method `'' @ de_method e
     @ cps ''` failed: '' @ de_cause e"

fun run_error_text :: "run_error \<Rightarrow> ustr" where
  "run_error_text (CancelledBy reason) = reason"
| "run_error_text (UndefinedAgent n) = cps ''workflow references undefined agent `'' @ n @ cps ''`''"
| "run_error_text (UndefinedInput n v) =
     cps ''agent `'' @ n @ cps ''` input references undefined variable `'' @ v @ cps ''`''"
| "run_error_text (Unhandled n e) =
     cps ''workflow step `'' @ n @ cps ''` failed with no failure handler: '' @ dispatch_error_text e"

record workflow_result =
  wr_steps :: "execution_step list"
  wr_status :: execution_status
  wr_result :: ustr

datatype workflow_event =
    EvStarted | EvStepStarted ustr ustr ustr ustr | EvStepCompleted ustr ustr ustr nat ustr
  | EvStepFailed ustr ustr ustr nat ustr | EvFinished workflow_result | EvCancelled ustr ustr

text \<open>\<open>xc_calls\<close> is what the peers have seen: when, which step, and the call.\<close>

record execution =
  xc_bindings :: "(ustr \<times> ustr) list"
  xc_visited :: "ustr set"
  xc_events :: "workflow_event list"
  xc_trace :: "execution_step list"
  xc_clock :: nat
  xc_calls :: "(nat \<times> ustr \<times> ustr \<times> ustr \<times> ustr) list"

definition emit_event :: "workflow_event \<Rightarrow> execution \<Rightarrow> execution" where
  "emit_event ev st = st\<lparr>xc_events := xc_events st @ [ev]\<rparr>"

definition bind_output :: "ustr \<Rightarrow> ustr \<Rightarrow> execution \<Rightarrow> execution" where
  "bind_output out v st = st\<lparr>xc_bindings := btree_insert (out @ output_suffix) v (xc_bindings st)\<rparr>"

definition new_execution :: "ustr \<Rightarrow> execution" where
  "new_execution input = \<lparr>xc_bindings = [(workflow_input, input)], xc_visited = {}, xc_events = [], xc_trace = [],
     xc_clock = 0, xc_calls = []\<rparr>"

section \<open>One step\<close>

datatype workflow_outcome = StepSuccess | StepFailed dispatch_error

datatype step_run_result = Skipped | Ran workflow_outcome | Aborted run_error

definition cancel_reason :: "mesh \<Rightarrow> nat \<Rightarrow> ustr" where
  "cancel_reason M t = (case me_reason M t of None \<Rightarrow> cps ''workflow cancelled'' | Some r \<Rightarrow> r)"

definition call_step :: "mesh \<Rightarrow> ustr \<Rightarrow> agent_spec \<Rightarrow> ustr \<Rightarrow> nat \<Rightarrow> execution \<Rightarrow> step_run_result \<times> execution" where
  "call_step M n sp input t st =
     (let ms = me_millis M t mod 2 ^ 64;
          st = emit_event (EvStepStarted n (sp_peer sp) (sp_capability sp) input) st;
          st = st\<lparr>xc_calls := xc_calls st @ [(t, n, sp_peer sp, sp_capability sp, input)]\<rparr>;
          step = (\<lambda>out res. \<lparr>xs_agent = n, xs_peer = sp_peer sp, xs_capability = sp_capability sp, xs_input = input,
            xs_output = out, xs_latency_ms = ms, xs_outcome = res\<rparr>) in
      case me_dispatch M t (sp_peer sp) (sp_capability sp) input of
        Inr body \<Rightarrow>
          let st = bind_output (sp_output sp) (lossy body) st;
              st = emit_event (EvStepCompleted n (sp_peer sp) (sp_capability sp) ms (lossy body)) st in
          (Ran StepSuccess, st\<lparr>xc_trace := xc_trace st @ [step (lossy body) (Inr ())]\<rparr>)
      | Inl e \<Rightarrow>
          let st = bind_output (sp_output sp) (de_cause e) st;
              st = emit_event (EvStepFailed n (sp_peer sp) (sp_capability sp) ms (de_cause e)) st in
          (Ran (StepFailed e), st\<lparr>xc_trace := xc_trace st @ [step (de_cause e) (Inl (de_cause e))]\<rparr>))"

definition run_step_only :: "ucd \<Rightarrow> mesh \<Rightarrow> workflow \<Rightarrow> ustr \<Rightarrow> execution \<Rightarrow> step_run_result \<times> execution" where
  "run_step_only u M w n st =
     (if n \<in> xc_visited st then (Skipped, st)
      else
        let t = xc_clock st; st = st\<lparr>xc_clock := t + 1\<rparr> in
        if me_cancelled M t then (Aborted (CancelledBy (cancel_reason M t)), emit_event (EvCancelled n (cancel_reason M t)) st)
        else
          let st = st\<lparr>xc_visited := insert n (xc_visited st)\<rparr> in
          case spec_of w n of None \<Rightarrow> (Aborted (UndefinedAgent n), st)
          | Some sp \<Rightarrow>
              (case interpolate u (map_of (xc_bindings st)) (sp_input sp) of
                 Inl v \<Rightarrow> (Aborted (UndefinedInput n v), st)
               | Inr input \<Rightarrow> call_step M n sp input t st))"

section \<open>Following the edges\<close>

fun matches_outcome :: "edge_condition \<Rightarrow> workflow_outcome \<Rightarrow> bool" where
  "matches_outcome OnSuccess StepSuccess = True"
| "matches_outcome OnFailure (StepFailed e) = True"
| "matches_outcome Always oc = True"
| "matches_outcome InParallel StepSuccess = True"
| "matches_outcome c oc = False"

type_synonym 'a run = "((run_error + 'a) \<times> execution) option"

text \<open>A loop that stops at the first error; \<open>None\<close> is a recursion that ran out of fuel.\<close>

fun each :: "('a \<Rightarrow> execution \<Rightarrow> unit run) \<Rightarrow> 'a list \<Rightarrow> execution \<Rightarrow> unit run" where
  "each f [] st = Some (Inr (), st)"
| "each f (x # xs) st =
     (case f x st of None \<Rightarrow> None
      | Some (Inl e, st) \<Rightarrow> Some (Inl e, st)
      | Some (Inr _, st) \<Rightarrow> each f xs st)"

text \<open>
  The siblings of a fan-out: each runs on a copy of the bindings and the steps visited, and has a trace of
  its own; the channel, the clock and the calls are shared. What they found is merged in their order.
\<close>

fun fan_out ::
  "ucd \<Rightarrow> mesh \<Rightarrow> workflow \<Rightarrow> (ustr \<times> ustr) list \<Rightarrow> ustr set \<Rightarrow> ustr list \<Rightarrow> execution
    \<Rightarrow> (ustr \<times> step_run_result \<times> execution) list \<times> execution" where
  "fan_out u M w bs vs [] st = ([], st)"
| "fan_out u M w bs vs (n # ns) st =
     (case run_step_only u M w n (st\<lparr>xc_bindings := bs, xc_visited := vs, xc_trace := []\<rparr>) of (r, own) \<Rightarrow>
      case fan_out u M w bs vs ns
          (st\<lparr>xc_events := xc_events own, xc_clock := xc_clock own, xc_calls := xc_calls own\<rparr>) of
        (rs, st) \<Rightarrow> ((n, r, own) # rs, st))"

definition merge_bindings :: "(ustr \<times> ustr) list \<Rightarrow> (ustr \<times> ustr) list \<Rightarrow> (ustr \<times> ustr) list" where
  "merge_bindings own bs = foldl (\<lambda>m (k, v). if map_of m k = None then btree_insert k v m else m) bs own"

fun merge_siblings :: "(ustr \<times> step_run_result \<times> execution) list \<Rightarrow> execution \<Rightarrow> execution" where
  "merge_siblings [] st = st"
| "merge_siblings ((n, r, own) # rs) st =
     merge_siblings rs (st\<lparr>xc_trace := xc_trace st @ xc_trace own,
       xc_bindings := merge_bindings (xc_bindings own) (xc_bindings st),
       xc_visited := xc_visited st \<union> xc_visited own\<rparr>)"

fun completed :: "(ustr \<times> step_run_result \<times> execution) list \<Rightarrow> (ustr \<times> workflow_outcome) list" where
  "completed [] = []"
| "completed ((n, r, own) # rs) = (case r of Ran oc \<Rightarrow> (n, oc) # completed rs | _ \<Rightarrow> completed rs)"

fun first_error :: "(ustr \<times> step_run_result \<times> execution) list \<Rightarrow> run_error option" where
  "first_error [] = None"
| "first_error ((n, r, own) # rs) = (case r of Aborted e \<Rightarrow> Some e | _ \<Rightarrow> first_error rs)"

definition run_and_follow :: "(ustr \<times> workflow_outcome \<Rightarrow> execution \<Rightarrow> unit run) \<Rightarrow> ucd \<Rightarrow> mesh \<Rightarrow> workflow \<Rightarrow> ustr \<Rightarrow> execution \<Rightarrow> unit run" where
  "run_and_follow follow u M w n st =
     (case run_step_only u M w n st of
        (Skipped, st) \<Rightarrow> Some (Inr (), st)
      | (Ran oc, st) \<Rightarrow> follow (n, oc) st
      | (Aborted e, st) \<Rightarrow> Some (Inl e, st))"

definition run_parallel ::
  "(ustr \<times> workflow_outcome \<Rightarrow> execution \<Rightarrow> unit run) \<Rightarrow> ucd \<Rightarrow> mesh \<Rightarrow> workflow \<Rightarrow> ustr list \<Rightarrow> execution \<Rightarrow> unit run" where
  "run_parallel follow u M w ns st =
     (case fan_out u M w (xc_bindings st) (xc_visited st) ns st of (rs, st) \<Rightarrow>
      case each follow (completed rs) (merge_siblings rs st) of None \<Rightarrow> None
      | Some (Inl e, st) \<Rightarrow> Some (Inl e, st)
      | Some (Inr _, st) \<Rightarrow> (case first_error rs of None \<Rightarrow> Some (Inr (), st) | Some e \<Rightarrow> Some (Inl e, st)))"

definition matching_edges :: "workflow \<Rightarrow> ustr \<Rightarrow> workflow_outcome \<Rightarrow> edge list" where
  "matching_edges w n oc = filter (\<lambda>e. matches_outcome (ed_condition e) oc) (edges_from w n)"

definition is_parallel :: "edge \<Rightarrow> bool" where
  "is_parallel e \<longleftrightarrow> ed_condition e = InParallel"

primrec follow_edges :: "nat \<Rightarrow> ucd \<Rightarrow> mesh \<Rightarrow> workflow \<Rightarrow> ustr \<times> workflow_outcome \<Rightarrow> execution \<Rightarrow> unit run" where
  "follow_edges 0 u M w from st = None"
| "follow_edges (Suc k) u M w from st =
     (let matching = matching_edges w (fst from) (snd from);
          par = map ed_to (filter is_parallel matching);
          seq = map ed_to (filter (\<lambda>e. \<not> is_parallel e) matching);
          follow = follow_edges k u M w in
      case each (run_and_follow follow u M w) seq st of None \<Rightarrow> None
      | Some (Inl e, st) \<Rightarrow> Some (Inl e, st)
      | Some (Inr _, st) \<Rightarrow>
          (case if par = [] then Some (Inr (), st) else run_parallel follow u M w par st of None \<Rightarrow> None
           | Some (Inl e, st) \<Rightarrow> Some (Inl e, st)
           | Some (Inr _, st) \<Rightarrow>
               (case snd from of
                  StepFailed e \<Rightarrow> if matching = [] then Some (Inl (Unhandled (fst from) e), st) else Some (Inr (), st)
                | StepSuccess \<Rightarrow> Some (Inr (), st))))"

definition run_from :: "nat \<Rightarrow> ucd \<Rightarrow> mesh \<Rightarrow> workflow \<Rightarrow> ustr \<Rightarrow> execution \<Rightarrow> unit run" where
  "run_from k u M w n st = run_and_follow (follow_edges k u M w) u M w n st"

section \<open>The whole run\<close>

definition render_final_result :: "ucd \<Rightarrow> workflow \<Rightarrow> execution \<Rightarrow> ustr" where
  "render_final_result u w st =
     (case wo_result w of
        Some t \<Rightarrow>
          (case interpolate u (map_of (xc_bindings st)) t of Inr s \<Rightarrow> s
           | Inl v \<Rightarrow> cps ''<unresolved variable `'' @ v @ cps ''` in flow.result>'')
      | None \<Rightarrow> (case List.find (\<lambda>p. fst p \<noteq> workflow_input) (rev (xc_bindings st)) of None \<Rightarrow> [] | Some (k, v) \<Rightarrow> v))"

text \<open>A recursion visits a new step before it goes deeper, so the number of edges bounds its depth.\<close>

definition execution_fuel :: "workflow \<Rightarrow> nat" where
  "execution_fuel w = length (wo_edges w) + 1"

definition execute_inner :: "ucd \<Rightarrow> mesh \<Rightarrow> workflow \<Rightarrow> ustr \<Rightarrow> (workflow_result \<times> execution) option" where
  "execute_inner u M w input =
     (case run_from (execution_fuel w) u M w (wo_start w) (emit_event EvStarted (new_execution input)) of None \<Rightarrow> None
      | Some (outcome, st) \<Rightarrow>
          let res = (\<lambda>status text. \<lparr>wr_steps = xc_trace st, wr_status = status, wr_result = text\<rparr>);
              t = xc_clock st;
              r = (if me_cancelled M t then res Cancelled (cancel_reason M t)
                   else case outcome of
                     Inr _ \<Rightarrow> res (if list_ex (\<lambda>s. xs_outcome s \<noteq> Inr ()) (xc_trace st) then PartiallyFailed else Success)
                       (render_final_result u w st)
                   | Inl e \<Rightarrow> res Failed (run_error_text e)) in
          Some (r, emit_event (EvFinished r) st))"

end
