(* ===== verification/Relix_Workflow_Props.thy ===== *)
theory Relix_Workflow_Props
  imports Relix_Workflow_Run
begin

text \<open>
  What a run of a workflow promises. The locale \<open>run_keeps\<close> is the contract of a relation between the
  states before and after any part of a run: it holds for one step and for a merged fan-out, and so for
  everything that is made of them. Its interpretations are what the properties rest on.
\<close>

section \<open>Parts of a run\<close>

definition parallel_targets :: "workflow \<Rightarrow> ustr \<times> workflow_outcome \<Rightarrow> ustr list" where
  "parallel_targets w from = map ed_to (filter is_parallel (matching_edges w (fst from) (snd from)))"

definition sequential_targets :: "workflow \<Rightarrow> ustr \<times> workflow_outcome \<Rightarrow> ustr list" where
  "sequential_targets w from = map ed_to (filter (\<lambda>e. \<not> is_parallel e) (matching_edges w (fst from) (snd from)))"

lemma follow_edges_cases:
  assumes "follow_edges (Suc k) u M w from st = Some (r, st')"
  obtains e where "each (run_and_follow (follow_edges k u M w) u M w) (sequential_targets w from) st = Some (Inl e, st')" "r = Inl e"
  | st1 where "each (run_and_follow (follow_edges k u M w) u M w) (sequential_targets w from) st = Some (Inr (), st1)"
      "parallel_targets w from = []" "st' = st1"
      "r = (case snd from of StepFailed e \<Rightarrow> if matching_edges w (fst from) (snd from) = [] then Inl (Unhandled (fst from) e) else Inr ()
            | StepSuccess \<Rightarrow> Inr ())"
  | st1 where "each (run_and_follow (follow_edges k u M w) u M w) (sequential_targets w from) st = Some (Inr (), st1)"
      "parallel_targets w from \<noteq> []"
      "run_parallel (follow_edges k u M w) u M w (parallel_targets w from) st1 = Some (r, st')"
  using assms
  by (auto simp: Let_def parallel_targets_def [symmetric] sequential_targets_def [symmetric] parallel_targets_def [of _ "(_, _)"]
      split: option.splits sum.splits if_splits workflow_outcome.splits) (simp add: parallel_targets_def)

lemma each_rel:
  assumes "each f xs st = Some (r, st')" "\<And>st. R st st" "\<And>a b c. R a b \<Longrightarrow> R b c \<Longrightarrow> R a c"
    and "\<And>x st r st'. x \<in> set xs \<Longrightarrow> f x st = Some (r, st') \<Longrightarrow> R st st'"
  shows "R st st'"
  using assms(1,4)
proof (induction xs arbitrary: st)
  case (Cons x xs)
  obtain r1 st1 where f: "f x st = Some (r1, st1)" using Cons.prems(1) by (auto split: option.splits)
  have "R st st1" using Cons.prems(2) [OF _ f] by simp
  moreover have "R st1 st'" if "r1 = Inr ()" using Cons.IH [of st1] Cons.prems f that by auto
  ultimately show ?case using Cons.prems(1) f assms(3) by (cases r1) (auto split: option.splits sum.splits)
qed (simp add: assms(2))

text \<open>What is told of a call under a condition on the state, where the condition is kept.\<close>

lemma each_done:
  assumes "each f xs st = Some (Inr (), st')" "I st"
    and "\<And>x st r st'. x \<in> set xs \<Longrightarrow> I st \<Longrightarrow> f x st = Some (r, st') \<Longrightarrow> I st' \<and> (r = Inr () \<longrightarrow> P x)"
  shows "I st' \<and> (\<forall>x \<in> set xs. P x)"
  using assms
proof (induction xs arbitrary: st)
  case (Cons x xs)
  obtain st1 where f: "f x st = Some (Inr (), st1)" "each f xs st1 = Some (Inr (), st')"
    using Cons.prems(1) by (auto split: option.splits sum.splits)
  have "I st1 \<and> P x" using Cons.prems(3) [OF _ Cons.prems(2) f(1)] by simp
  moreover have "I st' \<and> (\<forall>x \<in> set xs. P x)"
    by (rule Cons.IH [OF f(2)]) (use calculation Cons.prems(3) in auto)
  ultimately show ?case by simp
qed simp

lemma step_cases [consumes 1, case_names Skipped Aborted Ran]:
  assumes "run_step_only u M w n st = (r, st')"
  obtains "r = Skipped" "st' = st" "n \<in> xc_visited st"
  | e where "r = Aborted e" "n \<notin> xc_visited st" "xc_visited st' = xc_visited st \<or> xc_visited st' = insert n (xc_visited st)"
      "xc_trace st' = xc_trace st" "xc_calls st' = xc_calls st" "xc_bindings st' = xc_bindings st" "xc_clock st' = xc_clock st + 1"
      "case e of UndefinedInput m v \<Rightarrow> m = n | UndefinedAgent m \<Rightarrow> m = n \<and> spec_of w n = None | CancelledBy reason \<Rightarrow> True
         | Unhandled m d \<Rightarrow> False"
  | oc sp input s where "r = Ran oc" "n \<notin> xc_visited st" "xc_visited st' = insert n (xc_visited st)"
      "spec_of w n = Some sp" "interpolate u (map_of (xc_bindings st)) (sp_input sp) = Inr input"
      "\<not> me_cancelled M (xc_clock st)" "xc_clock st' = xc_clock st + 1"
      "xc_calls st' = xc_calls st @ [(xc_clock st, n, sp_peer sp, sp_capability sp, input)]"
      "xc_trace st' = xc_trace st @ [s]" "xs_agent s = n" "xs_peer s = sp_peer sp" "xs_capability s = sp_capability sp"
      "xs_input s = input" "xs_outcome s = (case oc of StepSuccess \<Rightarrow> Inr () | StepFailed d \<Rightarrow> Inl (de_cause d))"
      "xc_bindings st' = btree_insert (sp_output sp @ output_suffix) (xs_output s) (xc_bindings st)"
  using assms
  by (fastforce simp: run_step_only_def call_step_def emit_event_def bind_output_def Let_def
      split: if_splits option.splits sum.splits)

text \<open>A fan-out is its siblings one by one, each merged as it is done.\<close>

definition merged :: "execution \<Rightarrow> execution \<Rightarrow> execution" where
  "merged own st = st\<lparr>xc_trace := xc_trace st @ xc_trace own, xc_bindings := merge_bindings (xc_bindings own) (xc_bindings st),
     xc_visited := xc_visited st \<union> xc_visited own\<rparr>"

definition shared :: "execution \<Rightarrow> execution \<Rightarrow> execution" where
  "shared own st = st\<lparr>xc_events := xc_events own, xc_clock := xc_clock own, xc_calls := xc_calls own\<rparr>"

abbreviation fresh_copy :: "(ustr \<times> ustr) list \<Rightarrow> ustr set \<Rightarrow> execution \<Rightarrow> execution" where
  "fresh_copy bs vs st \<equiv> st\<lparr>xc_bindings := bs, xc_visited := vs, xc_trace := []\<rparr>"

lemma shared_merged: "shared x (merged y st) = merged y (shared x st)" "fresh_copy bs vs (merged y st) = fresh_copy bs vs st"
  by (rule execution.equality; simp add: shared_def merged_def)+

lemma fan_out_Cons:
  "fan_out u M w bs vs (n # ns) st =
    (case run_step_only u M w n (fresh_copy bs vs st) of (r, own) \<Rightarrow>
     case fan_out u M w bs vs ns (shared own st) of (rs, st) \<Rightarrow> ((n, r, own) # rs, st))"
  by (simp add: shared_def)

lemma merge_siblings_Cons: "merge_siblings ((n, r, own) # rs) st = merge_siblings rs (merged own st)"
  by (simp add: merged_def)

lemma fan_frame:
  "fan_out u M w bs vs ns (merged y st) = (case fan_out u M w bs vs ns st of (rs, st') \<Rightarrow> (rs, merged y st'))"
proof (induction ns arbitrary: st)
  case (Cons n ns)
  then show ?case by (simp only: fan_out_Cons shared_merged) (simp split: prod.splits)
qed simp

lemma fan_induct [consumes 1, case_names none one]:
  assumes "fan_out u M w bs vs ns st = (rs, st')" "P [] st"
    and "\<And>before n after s r own. ns = map fst before @ n # after \<Longrightarrow> P before s \<Longrightarrow>
      run_step_only u M w n (fresh_copy bs vs s) = (r, own) \<Longrightarrow>
      P (before @ [(n, r)]) (merged own (shared own s))"
  shows "P (map (\<lambda>(n, r, own). (n, r)) rs) (merge_siblings rs st')"
proof -
  have "P (before @ map (\<lambda>(n, r, own). (n, r)) rs) (merge_siblings rs st')"
    if "fan_out u M w bs vs rest st = (rs, st')" "ns = map fst before @ rest" "P before st" for before rest st
    using that
  proof (induction rest arbitrary: before st rs st')
    case (Cons n rest)
    obtain r own where o: "run_step_only u M w n (fresh_copy bs vs st) = (r, own)"
      by fastforce
    obtain rs1 st1 where f: "fan_out u M w bs vs rest (shared own st) = (rs1, st1)" by fastforce
    have st': "rs = (n, r, own) # rs1" "st1 = st'"
      using Cons.prems(1) o f by (simp_all add: fan_out_Cons del: fan_out.simps)
    have f2: "fan_out u M w bs vs rest (merged own (shared own st)) = (rs1, merged own st')" using f st'(2) by (simp add: fan_frame)
    have "P (before @ [(n, r)]) (merged own (shared own st))"
      by (rule assms(3) [OF _ Cons.prems(3) o]) (use Cons.prems(2) in simp)
    then have "P ((before @ [(n, r)]) @ map (\<lambda>(n, r, own). (n, r)) rs1) (merge_siblings rs1 (merged own st'))"
      by (intro Cons.IH [OF f2]) (use Cons.prems(2) in simp)
    then show ?case by (simp add: st'(1) merge_siblings_Cons del: merge_siblings.simps)
  qed simp
  from this [OF assms(1), of "[]"] assms(2) show ?thesis by simp
qed

section \<open>Relations kept by a run\<close>

locale run_keeps =
  fixes u :: ucd and M :: mesh and w :: workflow and R :: "execution \<Rightarrow> execution \<Rightarrow> bool"
  assumes refl: "R st st"
    and trans: "R a b \<Longrightarrow> R b c \<Longrightarrow> R a c"
    and one: "run_step_only u M w n st = (r, st') \<Longrightarrow> R st st'"
    and fan: "fan_out u M w (xc_bindings st) (xc_visited st) (parallel_targets w from) st = (rs, st') \<Longrightarrow> R st (merge_siblings rs st')"
begin

lemma kept_then:
  assumes "run_and_follow f u M w n st = Some (r, st')" "\<And>from st r st'. f from st = Some (r, st') \<Longrightarrow> R st st'"
  shows "R st st'"
  using assms one [of n st] trans by (auto simp: run_and_follow_def split: prod.splits step_run_result.splits)

lemma kept_parallel:
  assumes "run_parallel f u M w (parallel_targets w from) st = Some (r, st')"
    and "\<And>from st r st'. f from st = Some (r, st') \<Longrightarrow> R st st'"
  shows "R st st'"
proof -
  obtain rs st1 where f: "fan_out u M w (xc_bindings st) (xc_visited st) (parallel_targets w from) st = (rs, st1)"
    by fastforce
  obtain r2 where e: "each f (completed rs) (merge_siblings rs st1) = Some (r2, st')"
    using assms(1) f by (auto simp: run_parallel_def split: option.splits sum.splits)
  have "R (merge_siblings rs st1) st'" by (rule each_rel [OF e refl trans]) (use assms(2) in auto)
  then show ?thesis using fan [OF f] trans by blast
qed

lemma kept: "follow_edges k u M w from st = Some (r, st') \<Longrightarrow> R st st'"
proof (induction k arbitrary: "from" st r st')
  case (Suc k)
  have t: "run_and_follow (follow_edges k u M w) u M w n a = Some (r', b) \<Longrightarrow> R a b" for n a r' b
    by (rule kept_then) (use Suc.IH in auto)
  have s: "each (run_and_follow (follow_edges k u M w) u M w) xs a = Some (r', b) \<Longrightarrow> R a b" for xs a r' b
    by (rule each_rel [OF _ refl trans t])
  from Suc.prems show ?case
  proof (cases rule: follow_edges_cases)
    case (3 st1)
    have "R st1 st'" by (rule kept_parallel [OF 3(3)]) (use Suc.IH in auto)
    then show ?thesis using s [OF 3(1)] trans by blast
  qed (use s in auto)
qed simp

lemma kept_run: "run_from k u M w n st = Some (r, st') \<Longrightarrow> R st st'"
  unfolding run_from_def by (rule kept_then [OF _ kept])

end

section \<open>Progress\<close>

text \<open>A call and its step in the trace: the call of the specification, made while the flag was not set.\<close>

definition made :: "mesh \<Rightarrow> workflow \<Rightarrow> execution_step \<Rightarrow> nat \<times> ustr \<times> ustr \<times> ustr \<times> ustr \<Rightarrow> bool" where
  "made M w s c \<longleftrightarrow> (case c of (t, n, p, m, i) \<Rightarrow>
     \<not> me_cancelled M t \<and> n = xs_agent s \<and> p = xs_peer s \<and> m = xs_capability s \<and> i = xs_input s
     \<and> (\<exists>sp. spec_of w n = Some sp \<and> p = sp_peer sp \<and> m = sp_capability sp))"

definition between :: "execution \<Rightarrow> execution \<Rightarrow> nat \<times> ustr \<times> ustr \<times> ustr \<times> ustr \<Rightarrow> bool" where
  "between st st' c \<longleftrightarrow> xc_clock st \<le> fst c \<and> fst c < xc_clock st' \<and> fst (snd c) \<notin> xc_visited st \<and> fst (snd c) \<in> xc_visited st'"

definition progress :: "mesh \<Rightarrow> workflow \<Rightarrow> execution \<Rightarrow> execution \<Rightarrow> bool" where
  "progress M w st st' \<longleftrightarrow> xc_visited st \<subseteq> xc_visited st' \<and> xc_clock st \<le> xc_clock st'
     \<and> (\<exists>new cs. xc_trace st' = xc_trace st @ new \<and> xc_calls st' = xc_calls st @ cs
          \<and> list_all2 (made M w) new cs \<and> list_all (between st st') cs)"

lemma progressI:
  assumes "xc_visited st \<subseteq> xc_visited st'" "xc_clock st \<le> xc_clock st'" "xc_trace st' = xc_trace st @ new"
    "xc_calls st' = xc_calls st @ cs" "list_all2 (made M w) new cs" "list_all (between st st') cs"
  shows "progress M w st st'"
  using assms by (auto simp: progress_def)

lemma progress_refl: "progress M w st st"
  by (rule progressI [of _ _ "[]" "[]"]) simp_all

lemma between_mono:
  assumes "list_all (between a b) cs" "xc_visited a0 \<subseteq> xc_visited a" "xc_visited b \<subseteq> xc_visited b0"
    "xc_clock a0 \<le> xc_clock a" "xc_clock b \<le> xc_clock b0"
  shows "list_all (between a0 b0) cs"
  using assms by (auto simp: list_all_iff between_def)

lemma progress_trans:
  assumes "progress M w a b" "progress M w b c"
  shows "progress M w a c"
proof -
  obtain n1 c1 n2 c2 where 1: "xc_trace b = xc_trace a @ n1" "xc_calls b = xc_calls a @ c1" "list_all2 (made M w) n1 c1"
      "list_all (between a b) c1"
    and 2: "xc_trace c = xc_trace b @ n2" "xc_calls c = xc_calls b @ c2" "list_all2 (made M w) n2 c2" "list_all (between b c) c2"
    using assms by (auto simp: progress_def)
  have m: "xc_visited a \<subseteq> xc_visited b" "xc_visited b \<subseteq> xc_visited c" "xc_clock a \<le> xc_clock b" "xc_clock b \<le> xc_clock c"
    using assms by (auto simp: progress_def)
  show ?thesis
  proof (rule progressI)
    show "xc_trace c = xc_trace a @ n1 @ n2" "xc_calls c = xc_calls a @ c1 @ c2" using 1 2 by simp_all
    show "list_all2 (made M w) (n1 @ n2) (c1 @ c2)" using 1(3) 2(3) by (rule list_all2_appendI)
    show "list_all (between a c) (c1 @ c2)"
      using between_mono [OF 1(4) _ m(2) _ m(4)] between_mono [OF 2(4) m(1) _ m(3)] by simp
    show "xc_visited a \<subseteq> xc_visited c" by (rule subset_trans [OF m(1,2)])
    show "xc_clock a \<le> xc_clock c" by (rule le_trans [OF m(3,4)])
  qed
qed

lemma step_progress:
  assumes "run_step_only u M w n st = (r, st')"
  shows "progress M w st st'"
  using assms
proof (cases rule: step_cases)
  case (Ran oc sp input s)
  show ?thesis
  proof (rule progressI)
    show "xc_trace st' = xc_trace st @ [s]" by (rule Ran(9))
    show "xc_calls st' = xc_calls st @ [(xc_clock st, n, sp_peer sp, sp_capability sp, input)]" by (rule Ran(8))
    show "list_all2 (made M w) [s] [(xc_clock st, n, sp_peer sp, sp_capability sp, input)]"
      using Ran(4,6,10-13) by (simp add: made_def)
    show "list_all (between st st') [(xc_clock st, n, sp_peer sp, sp_capability sp, input)]"
      using Ran(2,3,7) by (simp add: between_def)
  qed (simp_all add: Ran(3,7) subset_insertI)
next
  case (Aborted e)
  have "xc_visited st \<subseteq> xc_visited st'" using Aborted(3) by blast
  then show ?thesis using Aborted(4,5,7) by (intro progressI [where new = "[]" and cs = "[]"]) simp_all
qed (simp add: progress_refl)

text \<open>A sibling, seen from where the fan-out started and from the siblings merged before it.\<close>

lemma sibling_progress:
  assumes "progress M w st s" "run_step_only u M w n (fresh_copy bs (xc_visited st) s) = (r, own)"
  shows "progress M w st (merged own (shared own s))"
proof -
  obtain n1 c1 where 1: "xc_trace s = xc_trace st @ n1" "xc_calls s = xc_calls st @ c1" "list_all2 (made M w) n1 c1"
      "list_all (between st s) c1" and m: "xc_visited st \<subseteq> xc_visited s" "xc_clock st \<le> xc_clock s"
    using assms(1) by (auto simp: progress_def)
  obtain n2 c2 where 2: "xc_trace own = n2" "xc_calls own = xc_calls s @ c2" "list_all2 (made M w) n2 c2"
      "list_all (between (fresh_copy bs (xc_visited st) s) own) c2" "xc_visited st \<subseteq> xc_visited own" "xc_clock s \<le> xc_clock own"
    using step_progress [OF assms(2)] by (auto simp: progress_def)
  show ?thesis
  proof (rule progressI)
    show "xc_trace (merged own (shared own s)) = xc_trace st @ n1 @ n2" "xc_calls (merged own (shared own s)) = xc_calls st @ c1 @ c2"
      using 1 2 by (simp_all add: merged_def shared_def)
    show "list_all2 (made M w) (n1 @ n2) (c1 @ c2)" using 1(3) 2(3) by (rule list_all2_appendI)
    show "list_all (between st (merged own (shared own s))) (c1 @ c2)"
      using between_mono [OF 1(4), of st "merged own (shared own s)"] between_mono [OF 2(4), of st "merged own (shared own s)"] m 2(5,6)
      by (simp add: merged_def shared_def)
  qed (use m 2(5,6) in \<open>auto simp: merged_def shared_def\<close>)
qed

lemma fan_progress:
  assumes "fan_out u M w (xc_bindings st) (xc_visited st) ns st = (rs, st')"
  shows "progress M w st (merge_siblings rs st')"
  using assms by (induction rule: fan_induct) (auto intro: progress_refl sibling_progress)

interpretation progress: run_keeps u M w "progress M w" for u M w
  by unfold_locales (blast intro: progress_refl progress_trans step_progress fan_progress)+

section \<open>Each step at most once\<close>

definition call_names :: "execution \<Rightarrow> ustr list" where
  "call_names st = map (fst \<circ> snd) (xc_calls st)"

text \<open>No step starts two parallel edges to the same target.\<close>

definition parallel_distinct :: "workflow \<Rightarrow> bool" where
  "parallel_distinct w \<longleftrightarrow> distinct (map (\<lambda>e. (ed_from e, ed_to e)) (filter is_parallel (wo_edges w)))"

lemma distinct_targets: "parallel_distinct w \<Longrightarrow> distinct (parallel_targets w from)"
proof -
  assume d: "parallel_distinct w"
  have f: "filter is_parallel (matching_edges w (fst from) (snd from))
      = filter (\<lambda>e. ed_from e = fst from \<and> matches_outcome (ed_condition e) (snd from)) (filter is_parallel (wo_edges w))"
    by (simp add: matching_edges_def edges_from_def conj_ac)
  have "distinct (map (\<lambda>e. (ed_from e, ed_to e)) (filter is_parallel (matching_edges w (fst from) (snd from))))"
    unfolding f by (rule distinct_map_filter [OF d [unfolded parallel_distinct_def]])
  moreover have "map (\<lambda>e. (ed_from e, ed_to e)) (filter is_parallel (matching_edges w (fst from) (snd from)))
      = map (Pair (fst from)) (parallel_targets w from)"
    by (simp add: parallel_targets_def matching_edges_def edges_from_def)
  ultimately show ?thesis by (simp add: distinct_map)
qed

definition once :: "mesh \<Rightarrow> workflow \<Rightarrow> execution \<Rightarrow> execution \<Rightarrow> bool" where
  "once M w st st' \<longleftrightarrow> progress M w st st' \<and> (parallel_distinct w \<longrightarrow>
     (\<exists>ns. call_names st' = call_names st @ ns \<and> distinct ns \<and> set ns \<inter> xc_visited st = {} \<and> set ns \<subseteq> xc_visited st'))"

lemma step_call_names:
  assumes "run_step_only u M w n st = (r, st')"
  shows "\<exists>ns. call_names st' = call_names st @ ns \<and> (ns = [] \<or> ns = [n] \<and> n \<notin> xc_visited st \<and> n \<in> xc_visited st')"
  using assms
proof (cases rule: step_cases)
  case (Ran oc sp input s)
  then show ?thesis by (intro exI [of _ "[n]"]) (simp add: call_names_def)
qed (simp_all add: call_names_def)

lemma once_refl: "once M w st st"
  by (simp add: once_def progress_refl)

lemma once_trans:
  assumes "once M w a b" "once M w b c"
  shows "once M w a c"
proof -
  have p: "progress M w a b" "progress M w b c" using assms by (simp_all add: once_def)
  have sub: "xc_visited a \<subseteq> xc_visited b" "xc_visited b \<subseteq> xc_visited c" using p by (auto simp: progress_def)
  have "\<exists>ns. call_names c = call_names a @ ns \<and> distinct ns \<and> set ns \<inter> xc_visited a = {} \<and> set ns \<subseteq> xc_visited c"
    if d: "parallel_distinct w"
  proof -
    obtain n1 n2 where "call_names b = call_names a @ n1" "distinct n1" "set n1 \<inter> xc_visited a = {}" "set n1 \<subseteq> xc_visited b"
        "call_names c = call_names b @ n2" "distinct n2" "set n2 \<inter> xc_visited b = {}" "set n2 \<subseteq> xc_visited c"
      using assms d unfolding once_def by blast
    then show ?thesis using sub by (intro exI [of _ "n1 @ n2"]) auto
  qed
  then show ?thesis using progress_trans [OF p] by (simp add: once_def)
qed

lemma step_once:
  assumes "run_step_only u M w n st = (r, st')"
  shows "once M w st st'"
  using step_progress [OF assms] step_call_names [OF assms] unfolding once_def by fastforce

lemma fan_once:
  assumes "fan_out u M w (xc_bindings st) (xc_visited st) (parallel_targets w from) st = (rs, st')"
  shows "once M w st (merge_siblings rs st')"
proof (cases "parallel_distinct w")
  case False
  then show ?thesis using fan_progress [OF assms] by (simp add: once_def)
next
  case True
  from assms have "\<exists>ns. call_names (merge_siblings rs st') = call_names st @ ns \<and> distinct ns
      \<and> set ns \<subseteq> set (map fst (map (\<lambda>(n, r, own). (n, r)) rs)) - xc_visited st \<and> set ns \<subseteq> xc_visited (merge_siblings rs st')"
  proof (induction rule: fan_induct)
    case (one before n after s r own)
    obtain ns where ns: "call_names s = call_names st @ ns" "distinct ns" "set ns \<subseteq> set (map fst before) - xc_visited st"
        "set ns \<subseteq> xc_visited s" using one(3) by blast
    have "n \<notin> set (map fst before)" using distinct_targets [OF True, of "from"] by (simp add: one(1))
    moreover obtain ms where "call_names own = call_names s @ ms" "ms = [] \<or> ms = [n] \<and> n \<notin> xc_visited st \<and> n \<in> xc_visited own"
      using step_call_names [OF one(2)] by (auto simp: call_names_def)
    ultimately show ?case using ns by (intro exI [of _ "ns @ ms"]) (auto simp: call_names_def merged_def shared_def)
  qed simp
  then show ?thesis using fan_progress [OF assms] unfolding once_def by blast
qed

interpretation once: run_keeps u M w "once M w" for u M w
  by unfold_locales (blast intro: once_refl once_trans step_once fan_once)+

end
