(* ===== verification/Relix_Workflow_Routing.thy ===== *)
theory Relix_Workflow_Routing
  imports Relix_Workflow_Props
begin

text \<open>
  How a run of a workflow gets from step to step: it always comes to an end, every step is triggered by
  an edge from one that ended that way before, a run that succeeds has a handler for every failure, and
  what a step is given comes from the steps before it.
\<close>

lemma each_ok:
  assumes "each f xs st = Some (Inr (), st')" "\<And>st. R st st" "\<And>a b c. R a b \<Longrightarrow> R b c \<Longrightarrow> R a c"
    and "\<And>x st st'. x \<in> set xs \<Longrightarrow> f x st = Some (Inr (), st') \<Longrightarrow> Q x \<and> R st st'"
  shows "R st st' \<and> (\<forall>x \<in> set xs. Q x)"
  using assms(1,4)
proof (induction xs arbitrary: st)
  case (Cons x xs)
  obtain st1 where f: "f x st = Some (Inr (), st1)" "each f xs st1 = Some (Inr (), st')"
    using Cons.prems(1) by (auto split: option.splits sum.splits)
  have "Q x \<and> R st st1" using Cons.prems(2) [OF _ f(1)] by simp
  moreover have "R st1 st' \<and> (\<forall>x \<in> set xs. Q x)" by (rule Cons.IH [OF f(2)]) (use Cons.prems(2) in auto)
  ultimately show ?case using assms(3) by auto
qed (simp add: assms(2))

lemma completed_iff: "(n, oc) \<in> set (completed rs) \<longleftrightarrow> (n, Ran oc) \<in> set (map (\<lambda>(n, r, own). (n, r)) rs)"
  by (induction rs rule: completed.induct) (auto split: step_run_result.splits)

lemma run_then_cases:
  assumes "run_and_follow f u M w n st = Some (r, st')"
  obtains "r = Inr ()" "st' = st"
  | st1 e where "run_step_only u M w n st = (Aborted e, st1)" "r = Inl e" "st' = st1"
  | st1 oc where "run_step_only u M w n st = (Ran oc, st1)" "f (n, oc) st1 = Some (r, st')"
proof -
  obtain r1 st1 where o: "run_step_only u M w n st = (r1, st1)" by fastforce
  have "st1 = st" if "r1 = Skipped" using o that by (cases rule: step_cases) simp_all
  with assms o that show ?thesis by (cases r1) (auto simp: run_and_follow_def)
qed

lemma run_parallel_cases:
  assumes "run_parallel f u M w ns st = Some (r, st')"
  obtains rs st1 where "fan_out u M w (xc_bindings st) (xc_visited st) ns st = (rs, st1)"
      "each f (completed rs) (merge_siblings rs st1) = Some (Inr (), st')"
      "r = (case first_error rs of None \<Rightarrow> Inr () | Some e \<Rightarrow> Inl e)"
  | rs st1 e where "fan_out u M w (xc_bindings st) (xc_visited st) ns st = (rs, st1)"
      "each f (completed rs) (merge_siblings rs st1) = Some (Inl e, st')" "r = Inl e"
  using assms by (auto simp: run_parallel_def split: prod.splits option.splits sum.splits)

section \<open>Failures and their handlers\<close>

definition handled :: "workflow \<Rightarrow> ustr \<Rightarrow> bool" where
  "handled w n \<longleftrightarrow> list_ex (\<lambda>e. ed_from e = n \<and> (ed_condition e = OnFailure \<or> ed_condition e = Always)) (wo_edges w)"

definition unhandled :: "workflow \<Rightarrow> execution \<Rightarrow> ustr set" where
  "unhandled w st = {xs_agent s |s. s \<in> set (xc_trace st) \<and> xs_outcome s \<noteq> Inr ()} - Collect (handled w)"

lemma not_unhandled: "handled w n \<Longrightarrow> n \<notin> unhandled w st"
  by (simp add: unhandled_def)

lemma matching_failure:
  assumes "matching_edges w n (StepFailed d) \<noteq> []"
  shows "handled w n"
proof -
  obtain e where "e \<in> set (matching_edges w n (StepFailed d))" using assms by (cases "matching_edges w n (StepFailed d)") auto
  then show ?thesis
    by (cases "ed_condition e") (auto simp: matching_edges_def edges_from_def handled_def list_ex_iff)
qed

lemma step_unhandled:
  assumes "run_step_only u M w n st = (r, st')"
  shows "unhandled w st' \<subseteq> unhandled w st \<union> {m. m = n \<and> (\<exists>d. r = Ran (StepFailed d))}"
  using assms
proof (cases rule: step_cases)
  case (Ran oc sp input s)
  then show ?thesis by (cases oc) (auto simp: unhandled_def)
qed (auto simp: unhandled_def)

lemma fan_unhandled:
  assumes "fan_out u M w bs vs ns st = (rs, st')"
  shows "unhandled w (merge_siblings rs st') \<subseteq> unhandled w st \<union> {n. \<exists>d. (n, StepFailed d) \<in> set (completed rs)}"
proof -
  from assms have "unhandled w (merge_siblings rs st') \<subseteq> unhandled w st
      \<union> {n. \<exists>d. (n, Ran (StepFailed d)) \<in> set (map (\<lambda>(n, r, own). (n, r)) rs)}"
  proof (induction rule: fan_induct)
    case (one before n after s r own)
    have "unhandled w (merged own (shared own s)) = unhandled w s \<union> unhandled w own"
      by (auto simp: unhandled_def merged_def shared_def)
    moreover have "unhandled w own \<subseteq> {m. m = n \<and> (\<exists>d. r = Ran (StepFailed d))}"
      using step_unhandled [OF one(2)] by (simp add: unhandled_def)
    ultimately show ?case using one(3) by auto
  qed simp
  then show ?thesis by (simp add: completed_iff)
qed

lemma follow_handled:
  "follow_edges k u M w from st = Some (Inr (), st') \<Longrightarrow>
    ((\<exists>d. snd from = StepFailed d) \<longrightarrow> handled w (fst from)) \<and> unhandled w st' \<subseteq> unhandled w st"
proof (induction k arbitrary: "from" st st')
  case (Suc k)
  have t: "unhandled w b \<subseteq> unhandled w a" if "run_and_follow (follow_edges k u M w) u M w n a = Some (Inr (), b)" for n a b
    using that
  proof (cases rule: run_then_cases)
    case (3 st1 oc)
    show ?thesis using step_unhandled [OF 3(1)] Suc.IH [OF 3(2)] not_unhandled [of w n b] by auto
  qed simp_all
  have s: "unhandled w b \<subseteq> unhandled w a" if "each (run_and_follow (follow_edges k u M w) u M w) xs a = Some (Inr (), b)" for xs a b
    using each_ok [OF that, of "\<lambda>a b. unhandled w b \<subseteq> unhandled w a" "\<lambda>_. True"] t by auto
  have h: "handled w (fst from)" if "snd from = StepFailed d" "matching_edges w (fst from) (snd from) \<noteq> []" for d
    using matching_failure that by simp
  from Suc.prems show ?case
  proof (cases rule: follow_edges_cases)
    case (2 st1)
    then show ?thesis using s [OF 2(1)] h by (auto split: workflow_outcome.splits if_splits)
  next
    case (3 st1)
    have m: "matching_edges w (fst from) (snd from) \<noteq> []" using 3(2) by (auto simp: parallel_targets_def)
    from 3(3) have "unhandled w st' \<subseteq> unhandled w st1"
    proof (cases rule: run_parallel_cases)
      case (1 rs st2)
      have "unhandled w st' \<subseteq> unhandled w (merge_siblings rs st2) \<and>
          (\<forall>x \<in> set (completed rs). (\<exists>d. snd x = StepFailed d) \<longrightarrow> handled w (fst x))"
        by (rule each_ok [OF 1(2), where R = "\<lambda>a b. unhandled w b \<subseteq> unhandled w a"]) (use Suc.IH in auto)
      then show ?thesis using fan_unhandled [OF 1(1)] not_unhandled [of w _ st'] by fastforce
    qed simp
    then show ?thesis using s [OF 3(1)] h m by auto
  qed simp
qed simp

lemma run_handled:
  assumes "run_from k u M w n st = Some (Inr (), st')"
  shows "unhandled w st' \<subseteq> unhandled w st"
  using assms unfolding run_from_def
proof (cases rule: run_then_cases)
  case (3 st1 oc)
  show ?thesis using step_unhandled [OF 3(1)] follow_handled [OF 3(2)] not_unhandled [of w n st'] by auto
qed simp_all

section \<open>What triggers a step\<close>

definition triggers :: "workflow \<Rightarrow> execution_step \<Rightarrow> ustr \<Rightarrow> bool" where
  "triggers w s n \<longleftrightarrow> list_ex (\<lambda>e. ed_from e = xs_agent s \<and> ed_to e = n \<and>
     (case ed_condition e of OnSuccess \<Rightarrow> xs_outcome s = Inr () | InParallel \<Rightarrow> xs_outcome s = Inr ()
      | OnFailure \<Rightarrow> xs_outcome s \<noteq> Inr () | Always \<Rightarrow> True)) (wo_edges w)"

definition due :: "workflow \<Rightarrow> execution_step list \<Rightarrow> ustr \<Rightarrow> bool" where
  "due w tr n \<longleftrightarrow> n = wo_start w \<or> list_ex (\<lambda>s. triggers w s n) tr"

fun triggered :: "workflow \<Rightarrow> execution_step list \<Rightarrow> execution_step list \<Rightarrow> bool" where
  "triggered w seen [] \<longleftrightarrow> True"
| "triggered w seen (s # tr) \<longleftrightarrow> due w seen (xs_agent s) \<and> triggered w (seen @ [s]) tr"

lemma triggered_append: "triggered w seen (xs @ ys) \<longleftrightarrow> triggered w seen xs \<and> triggered w (seen @ xs) ys"
  by (induction xs arbitrary: seen) auto

lemma due_append: "due w tr n \<Longrightarrow> due w (tr @ tr') n"
  by (auto simp: due_def)

definition has_run :: "ustr \<times> workflow_outcome \<Rightarrow> execution_step list \<Rightarrow> bool" where
  "has_run from tr \<longleftrightarrow> list_ex (\<lambda>s. xs_agent s = fst from \<and>
     xs_outcome s = (case snd from of StepSuccess \<Rightarrow> Inr () | StepFailed d \<Rightarrow> Inl (de_cause d))) tr"

lemma has_run_append: "has_run from tr \<Longrightarrow> has_run from (tr @ tr')"
  by (auto simp: has_run_def)

lemma progress_trace: "progress M w a b \<Longrightarrow> \<exists>new. xc_trace b = xc_trace a @ new"
  by (auto simp: progress_def)

lemma target_due:
  assumes "has_run from tr" "n \<in> set (parallel_targets w from) \<union> set (sequential_targets w from)"
  shows "due w tr n"
proof -
  obtain e where e: "e \<in> set (wo_edges w)" "ed_from e = fst from" "ed_to e = n" "matches_outcome (ed_condition e) (snd from)"
    using assms(2) by (auto simp: parallel_targets_def sequential_targets_def matching_edges_def edges_from_def)
  obtain s where s: "s \<in> set tr" "xs_agent s = fst from"
      "xs_outcome s = (case snd from of StepSuccess \<Rightarrow> Inr () | StepFailed d \<Rightarrow> Inl (de_cause d))"
    using assms(1) by (auto simp: has_run_def list_ex_iff)
  have "triggers w s n"
    unfolding triggers_def list_ex_iff
    by (rule bexI [OF _ e(1)], cases "ed_condition e"; cases "snd from") (use e s in auto)
  then show ?thesis using s(1) by (auto simp: due_def list_ex_iff)
qed

lemma step_triggered:
  assumes "run_step_only u M w n st = (r, st')" "due w (seen @ xc_trace st) n" "triggered w seen (xc_trace st)"
  shows "triggered w seen (xc_trace st') \<and> (\<forall>oc. r = Ran oc \<longrightarrow> has_run (n, oc) (xc_trace st'))"
  using assms(1)
proof (cases rule: step_cases)
  case (Ran oc sp input s)
  have "due w (seen @ xc_trace st) (xs_agent s)" using assms(2) Ran(10) by simp
  then show ?thesis using assms(3) Ran(1,9,10,14) by (simp add: triggered_append has_run_def)
qed (use assms(3) in simp_all)

lemma fan_triggered:
  assumes "fan_out u M w bs vs ns st = (rs, st')" "\<And>n. n \<in> set ns \<Longrightarrow> due w (xc_trace st) n" "triggered w [] (xc_trace st)"
  shows "triggered w [] (xc_trace (merge_siblings rs st'))
    \<and> (\<forall>x \<in> set (completed rs). has_run x (xc_trace (merge_siblings rs st')))"
proof -
  from assms(1) have "triggered w [] (xc_trace (merge_siblings rs st'))
    \<and> (\<exists>new. xc_trace (merge_siblings rs st') = xc_trace st @ new)
    \<and> (\<forall>(n, r) \<in> set (map (\<lambda>(n, r, own). (n, r)) rs). \<forall>oc. r = Ran oc \<longrightarrow> has_run (n, oc) (xc_trace (merge_siblings rs st')))"
  proof (induction rule: fan_induct)
    case (one before n after s r own)
    obtain new where new: "xc_trace s = xc_trace st @ new" using one(3) by blast
    have "due w (xc_trace s) n" using due_append [OF assms(2)] one(1) by (simp add: new)
    then have "triggered w (xc_trace s) (xc_trace own) \<and> (\<forall>oc. r = Ran oc \<longrightarrow> has_run (n, oc) (xc_trace own))"
      using step_triggered [OF one(2), of "xc_trace s"] by simp
    moreover have "has_run x (t' @ t)" if "has_run x t" for x t t' using that by (auto simp: has_run_def)
    moreover have m: "xc_trace (merged own (shared own s)) = xc_trace s @ xc_trace own" by (simp add: merged_def shared_def)
    ultimately show ?case
      using one(3) has_run_append [of _ "xc_trace s"] unfolding m triggered_append by (fastforce simp: new)
  qed (use assms(3) in simp)
  then show ?thesis by (fastforce simp: completed_iff)
qed

definition routed :: "workflow \<Rightarrow> execution \<Rightarrow> bool" where
  "routed w st \<longleftrightarrow> triggered w [] (xc_trace st)"

lemma follow_routed:
  "follow_edges k u M w from st = Some (r, st') \<Longrightarrow> has_run from (xc_trace st) \<Longrightarrow> routed w st \<Longrightarrow> routed w st'"
proof (induction k arbitrary: "from" st r st')
  case (Suc k)
  let ?f = "follow_edges k u M w"
  have keeps: "has_run x (xc_trace b)" if "has_run x (xc_trace a)" "progress M w a b" for x a b
    using progress_trace [OF that(2)] has_run_append [OF that(1)] by auto
  have t: "routed w b \<and> has_run from (xc_trace b)"
    if "run_and_follow ?f u M w n a = Some (r', b)" "n \<in> set (sequential_targets w from)" "routed w a \<and> has_run from (xc_trace a)" for n a r' b
  proof -
    have p: "progress M w a b" by (rule progress.kept_then [OF that(1)]) (rule progress.kept)
    have d: "due w (xc_trace a) n" using target_due that(2,3) by blast
    from that(1) have "routed w b"
    proof (cases rule: run_then_cases)
      case (2 st1 e)
      then show ?thesis using step_triggered [OF 2(1), of "[]"] d that(3) by (simp add: routed_def)
    next
      case (3 st1 oc)
      show ?thesis by (rule Suc.IH [OF 3(2)]) (use step_triggered [OF 3(1), of "[]"] d that(3) in \<open>simp_all add: routed_def\<close>)
    qed (use that(3) in simp)
    then show ?thesis using keeps [OF _ p] that(3) by blast
  qed
  have s: "routed w b \<and> has_run from (xc_trace b)"
    if "each (run_and_follow ?f u M w) xs a = Some (r', b)" "set xs \<subseteq> set (sequential_targets w from)" "routed w a \<and> has_run from (xc_trace a)" for xs a r' b
    using each_rel [OF that(1), of "\<lambda>a b. routed w a \<and> has_run from (xc_trace a) \<longrightarrow> routed w b \<and> has_run from (xc_trace b)"] t that(2,3)
    by blast
  from Suc.prems(1) show ?case
  proof (cases rule: follow_edges_cases)
    case (3 st1)
    have st1: "routed w st1 \<and> has_run from (xc_trace st1)" using s [OF 3(1)] Suc.prems(2,3) by simp
    have fan: "routed w (merge_siblings rs st2) \<and> (\<forall>x \<in> set (completed rs). has_run x (xc_trace (merge_siblings rs st2)))"
      if "fan_out u M w (xc_bindings st1) (xc_visited st1) (parallel_targets w from) st1 = (rs, st2)" for rs st2
    proof -
      have "due w (xc_trace st1) n" if "n \<in> set (parallel_targets w from)" for n using target_due st1 that by blast
      from fan_triggered [OF that this] show ?thesis using st1 by (simp add: routed_def)
    qed
    have e: "routed w b" if "each ?f xs a = Some (r', b)" "routed w a" "\<forall>x \<in> set xs. has_run x (xc_trace a)" for xs a r' b
      using each_rel [OF that(1), of "\<lambda>a b. routed w a \<and> (\<forall>x \<in> set xs. has_run x (xc_trace a)) \<longrightarrow>
          routed w b \<and> (\<forall>x \<in> set xs. has_run x (xc_trace b))"] Suc.IH keeps [OF _ progress.kept] that(2,3)
      by blast
    from 3(3) show ?thesis
      by (cases rule: run_parallel_cases) (use fan e in blast)+
  qed (use s Suc.prems(2,3) in auto)
qed simp

lemma run_routed:
  assumes "run_from k u M w (wo_start w) st = Some (r, st')" "routed w st"
  shows "routed w st'"
  using assms(1) unfolding run_from_def
proof (cases rule: run_then_cases)
  case (2 st1 e)
  then show ?thesis using step_triggered [OF 2(1), of "[]"] assms(2) by (simp add: routed_def due_def)
next
  case (3 st1 oc)
  show ?thesis
    by (rule follow_routed [OF 3(2)]) (use step_triggered [OF 3(1), of "[]"] assms(2) in \<open>simp_all add: routed_def due_def\<close>)
qed (use assms(2) in simp)

section \<open>What a step is given\<close>

definition known_value :: "workflow \<Rightarrow> ustr \<Rightarrow> execution_step list \<Rightarrow> ustr \<times> ustr \<Rightarrow> bool" where
  "known_value w input tr kv \<longleftrightarrow> kv = (workflow_input, input) \<or>
     (\<exists>s \<in> set tr. \<exists>sp. spec_of w (xs_agent s) = Some sp \<and> kv = (sp_output sp @ output_suffix, xs_output s))"

fun fed :: "ucd \<Rightarrow> workflow \<Rightarrow> ustr \<Rightarrow> execution_step list \<Rightarrow> execution_step list \<Rightarrow> bool" where
  "fed u w input seen [] \<longleftrightarrow> True"
| "fed u w input seen (s # tr) \<longleftrightarrow>
     (\<exists>sp b. spec_of w (xs_agent s) = Some sp \<and> list_all (known_value w input seen) b
        \<and> interpolate u (map_of b) (sp_input sp) = Inr (xs_input s))
     \<and> fed u w input (seen @ [s]) tr"

lemma fed_append: "fed u w input seen (xs @ ys) \<longleftrightarrow> fed u w input seen xs \<and> fed u w input (seen @ xs) ys"
  by (induction xs arbitrary: seen) auto

lemma known_mono: "known_value w input tr kv \<Longrightarrow> set tr \<subseteq> set tr' \<Longrightarrow> known_value w input tr' kv"
  by (auto simp: known_value_def)

lemma list_known_mono: "list_all (known_value w input tr) b \<Longrightarrow> set tr \<subseteq> set tr' \<Longrightarrow> list_all (known_value w input tr') b"
  using known_mono by (fastforce simp: list_all_iff)

lemma fed_mono: "fed u w input seen tr \<Longrightarrow> set seen \<subseteq> set seen' \<Longrightarrow> fed u w input seen' tr"
proof (induction tr arbitrary: seen seen')
  case (Cons s tr)
  have "fed u w input (seen' @ [s]) tr" by (rule Cons.IH [of "seen @ [s]"]) (use Cons.prems in auto)
  then show ?case using Cons.prems list_known_mono [OF _ Cons.prems(2)] by (fastforce)
qed simp

lemma set_btree_insert: "set (btree_insert k v m) \<subseteq> insert (k, v) (set m)"
  by (auto simp: btree_insert_def dest: set_takeWhileD set_dropWhileD)

lemma set_merge_bindings: "set (merge_bindings own bs) \<subseteq> set own \<union> set bs"
proof (induction own arbitrary: bs)
  case (Cons kv own)
  obtain k v where kv: "kv = (k, v)" by (cases kv)
  let ?bs = "if map_of bs k = None then btree_insert k v bs else bs"
  have "set ?bs \<subseteq> insert (k, v) (set bs)" using set_btree_insert [of k v bs] by auto
  moreover have "merge_bindings (kv # own) bs = merge_bindings own ?bs" by (simp add: merge_bindings_def kv)
  ultimately show ?case using Cons.IH [of ?bs] by (auto simp: kv)
qed (simp add: merge_bindings_def)

definition well_fed :: "ucd \<Rightarrow> workflow \<Rightarrow> ustr \<Rightarrow> execution \<Rightarrow> bool" where
  "well_fed u w input st \<longleftrightarrow> list_all (known_value w input (xc_trace st)) (xc_bindings st) \<and> fed u w input [] (xc_trace st)"

lemma step_fed:
  assumes "run_step_only u M w n st = (r, st')" "list_all (known_value w input (seen @ xc_trace st)) (xc_bindings st)"
    "fed u w input seen (xc_trace st)"
  shows "list_all (known_value w input (seen @ xc_trace st')) (xc_bindings st') \<and> fed u w input seen (xc_trace st')"
  using assms(1)
proof (cases rule: step_cases)
  case (Ran oc sp inp s)
  have "fed u w input (seen @ xc_trace st) [s]" using assms(2) Ran(4,5,10,13) by auto
  moreover have "list_all (known_value w input (seen @ xc_trace st @ [s])) (xc_bindings st)"
    by (rule list_known_mono [OF assms(2)]) auto
  moreover have "known_value w input (seen @ xc_trace st @ [s]) (sp_output sp @ output_suffix, xs_output s)"
    using Ran(4,10) by (auto simp: known_value_def)
  ultimately show ?thesis
    using assms(3) set_btree_insert [of "sp_output sp @ output_suffix" "xs_output s" "xc_bindings st"]
    unfolding Ran(9,15) by (auto simp: fed_append list_all_iff)
qed (use assms(2,3) in simp_all)

definition feeds :: "ucd \<Rightarrow> workflow \<Rightarrow> ustr \<Rightarrow> execution \<Rightarrow> execution \<Rightarrow> bool" where
  "feeds u w input st st' \<longleftrightarrow> well_fed u w input st \<longrightarrow> well_fed u w input st'"

lemma fan_fed:
  assumes "fan_out u M w (xc_bindings st) vs ns st = (rs, st')" "well_fed u w input st"
  shows "well_fed u w input (merge_siblings rs st')"
proof -
  from assms(1) have "well_fed u w input (merge_siblings rs st') \<and> (\<exists>new. xc_trace (merge_siblings rs st') = xc_trace st @ new)"
  proof (induction rule: fan_induct)
    case (one before n after s r own)
    have s: "list_all (known_value w input (xc_trace s)) (xc_bindings s)" "fed u w input [] (xc_trace s)"
      and sub: "set (xc_trace st) \<subseteq> set (xc_trace s)" and new: "\<exists>new. xc_trace s = xc_trace st @ new"
      using one(3) by (auto simp: well_fed_def)
    have "list_all (known_value w input (xc_trace s)) (xc_bindings st)"
      by (rule list_known_mono [OF _ sub]) (use assms(2) in \<open>simp add: well_fed_def\<close>)
    then have own: "list_all (known_value w input (xc_trace s @ xc_trace own)) (xc_bindings own)"
        "fed u w input (xc_trace s) (xc_trace own)"
      using step_fed [OF one(2), of input "xc_trace s"] by simp_all
    have m: "xc_trace (merged own (shared own s)) = xc_trace s @ xc_trace own"
        "xc_bindings (merged own (shared own s)) = merge_bindings (xc_bindings own) (xc_bindings s)"
      by (simp_all add: merged_def shared_def)
    have "list_all (known_value w input (xc_trace s @ xc_trace own)) (xc_bindings s)"
      by (rule list_known_mono [OF s(1)]) auto
    then have "list_all (known_value w input (xc_trace s @ xc_trace own)) (merge_bindings (xc_bindings own) (xc_bindings s))"
      using own(1) set_merge_bindings [of "xc_bindings own" "xc_bindings s"] by (auto simp: list_all_iff)
    then show ?case using s(2) own(2) new by (auto simp: well_fed_def m fed_append)
  qed (use assms(2) in simp)
  then show ?thesis by blast
qed

interpretation feeds: run_keeps u M w "feeds u w input" for u M w input
proof
  show "feeds u w input st st'" if "run_step_only u M w n st = (r, st')" for n st r st'
    using step_fed [OF that, of input "[]"] by (simp add: feeds_def well_fed_def)
qed (auto simp: feeds_def intro: fan_fed)

section \<open>Coming to an end\<close>

definition open_steps :: "workflow \<Rightarrow> execution \<Rightarrow> nat" where
  "open_steps w st = card (ed_to ` set (wo_edges w) - xc_visited st)"

lemma open_steps_mono: "xc_visited st \<subseteq> xc_visited st' \<Longrightarrow> open_steps w st' \<le> open_steps w st"
  unfolding open_steps_def by (rule card_mono) auto

lemma open_steps_less:
  assumes "xc_visited st \<subseteq> xc_visited st'" "n \<in> ed_to ` set (wo_edges w)" "n \<notin> xc_visited st" "n \<in> xc_visited st'"
  shows "open_steps w st' < open_steps w st"
  unfolding open_steps_def by (rule psubset_card_mono) (use assms in auto)

lemma each_returns:
  assumes "I st" "\<And>x st. x \<in> set xs \<Longrightarrow> I st \<Longrightarrow> \<exists>r st'. f x st = Some (r, st') \<and> I st'"
  shows "\<exists>r st'. each f xs st = Some (r, st') \<and> I st'"
  using assms
proof (induction xs arbitrary: st)
  case (Cons x xs)
  obtain r st1 where f: "f x st = Some (r, st1)" "I st1" using Cons.prems(2) [of x st] Cons.prems(1) by fastforce
  have "\<exists>r st'. each f xs st1 = Some (r, st') \<and> I st'" by (rule Cons.IH [OF f(2)]) (use Cons.prems(2) in auto)
  then show ?case using f by (cases r) auto
qed auto

lemma target_of_edge: "n \<in> set (parallel_targets w from) \<union> set (sequential_targets w from) \<Longrightarrow> n \<in> ed_to ` set (wo_edges w)"
  by (auto simp: parallel_targets_def sequential_targets_def matching_edges_def edges_from_def)

lemma fan_visited:
  assumes "fan_out u M w bs vs ns st = (rs, st')" "vs \<subseteq> xc_visited st"
  shows "xc_visited st \<subseteq> xc_visited (merge_siblings rs st')
    \<and> (\<forall>(n, oc) \<in> set (completed rs). n \<in> set ns \<and> n \<notin> vs \<and> n \<in> xc_visited (merge_siblings rs st'))"
proof -
  from assms(1) have "xc_visited st \<subseteq> xc_visited (merge_siblings rs st')
    \<and> (\<forall>(n, r) \<in> set (map (\<lambda>(n, r, own). (n, r)) rs). n \<in> set ns \<and> (\<forall>oc. r = Ran oc \<longrightarrow> n \<notin> vs \<and> n \<in> xc_visited (merge_siblings rs st')))"
  proof (induction rule: fan_induct)
    case (one before n after s r own)
    have "n \<notin> vs \<and> n \<in> xc_visited own" if "r = Ran oc" for oc
      using one(2) that by (cases rule: step_cases) simp_all
    moreover have "xc_visited (merged own (shared own s)) = xc_visited s \<union> xc_visited own" by (simp add: merged_def shared_def)
    ultimately show ?case using one(1,3) by fastforce
  qed simp
  then show ?thesis by (fastforce simp: completed_iff)
qed

lemma follow_returns: "open_steps w st < k \<Longrightarrow> \<exists>r st'. follow_edges k u M w from st = Some (r, st')"
proof (induction k arbitrary: "from" st)
  case (Suc k)
  let ?f = "follow_edges k u M w" and ?I = "\<lambda>a. open_steps w a \<le> open_steps w st"
  have vis: "xc_visited a \<subseteq> xc_visited b" if "?f x a = Some (r, b)" for x a r b
    using progress.kept [OF that] by (simp add: progress_def)
  have t: "\<exists>r b. run_and_follow ?f u M w n a = Some (r, b) \<and> ?I b" if "n \<in> ed_to ` set (wo_edges w)" "?I a" for n a
  proof -
    obtain r b where o: "run_step_only u M w n a = (r, b)" by fastforce
    have ab: "xc_visited a \<subseteq> xc_visited b" using step_progress [OF o] by (simp add: progress_def)
    show ?thesis
    proof (cases r)
      case (Ran oc)
      have "n \<notin> xc_visited a \<and> n \<in> xc_visited b" using o Ran by (cases rule: step_cases) simp_all
      then have "open_steps w b < k" using open_steps_less [OF ab that(1)] that(2) Suc.prems by simp
      then obtain r' c where c: "?f (n, oc) b = Some (r', c)" using Suc.IH by blast
      then show ?thesis using o Ran open_steps_mono [of a c w] ab vis [OF c] that(2) by (fastforce simp: run_and_follow_def)
    qed (use o that(2) open_steps_mono [OF ab, of w] in \<open>auto simp: run_and_follow_def\<close>)
  qed
  have "\<exists>r st'. each (run_and_follow ?f u M w) (sequential_targets w from) st = Some (r, st') \<and> ?I st'"
  proof (rule each_returns)
    fix n a assume "n \<in> set (sequential_targets w from)" "?I a"
    then show "\<exists>r b. run_and_follow ?f u M w n a = Some (r, b) \<and> ?I b" using t target_of_edge [of n w "from"] by blast
  qed simp
  then obtain r1 st1 where s: "each (run_and_follow ?f u M w) (sequential_targets w from) st = Some (r1, st1)" "?I st1" by blast
  have p: "\<exists>r st'. run_parallel ?f u M w (parallel_targets w from) st1 = Some (r, st')"
  proof -
    obtain rs st2 where f: "fan_out u M w (xc_bindings st1) (xc_visited st1) (parallel_targets w from) st1 = (rs, st2)" by fastforce
    let ?m = "merge_siblings rs st2"
    have v: "xc_visited st1 \<subseteq> xc_visited ?m" "\<And>n oc. (n, oc) \<in> set (completed rs) \<Longrightarrow>
        n \<in> ed_to ` set (wo_edges w) \<and> n \<notin> xc_visited st1 \<and> n \<in> xc_visited ?m"
      using fan_visited [OF f] target_of_edge [of _ w "from"] by auto
    have "\<exists>r st'. each ?f (completed rs) ?m = Some (r, st') \<and> open_steps w st' \<le> open_steps w ?m"
    proof (rule each_returns)
      fix x a assume x: "x \<in> set (completed rs)" and a: "open_steps w a \<le> open_steps w ?m"
      have "open_steps w ?m < open_steps w st1" using open_steps_less [OF v(1)] v(2) x by (cases x) blast
      then have "open_steps w a < k" using a s(2) Suc.prems by simp
      then obtain r b where b: "?f x a = Some (r, b)" using Suc.IH by blast
      then show "\<exists>r st'. ?f x a = Some (r, st') \<and> open_steps w st' \<le> open_steps w ?m"
        using open_steps_mono [OF vis [OF b], of w] a by auto
    qed simp
    then obtain r3 st3 where "each ?f (completed rs) ?m = Some (r3, st3)" by blast
    then show ?thesis using f by (cases r3; cases "first_error rs") (auto simp: run_parallel_def)
  qed
  then obtain r2 st2 where p2: "run_parallel ?f u M w (parallel_targets w from) st1 = Some (r2, st2)" by blast
  show ?case
    using s(1) p2
    by (cases r1; cases r2) (auto simp: Let_def parallel_targets_def sequential_targets_def split: workflow_outcome.split)
qed simp

lemma run_from_returns: "\<exists>r st'. run_from (execution_fuel w) u M w n st = Some (r, st')"
proof -
  obtain r st1 where o: "run_step_only u M w n st = (r, st1)" by fastforce
  have "open_steps w st1 \<le> card (ed_to ` set (wo_edges w))" unfolding open_steps_def by (rule card_mono) auto
  also have "\<dots> \<le> length (wo_edges w)" by (metis card_image_le card_length finite_set le_trans)
  finally have "\<exists>r st'. follow_edges (execution_fuel w) u M w x st1 = Some (r, st')" for x
    by (intro follow_returns) (simp add: execution_fuel_def)
  then show ?thesis using o by (cases r) (simp_all add: run_from_def run_and_follow_def)
qed

section \<open>Whole runs\<close>

abbreviation started :: "ustr \<Rightarrow> execution" where
  "started input \<equiv> emit_event EvStarted (new_execution input)"

lemma started_sel [simp]:
  "xc_trace (started input) = []" "xc_calls (started input) = []" "xc_visited (started input) = {}" "xc_clock (started input) = 0"
  "xc_bindings (started input) = [(workflow_input, input)]"
  by (simp_all add: emit_event_def new_execution_def)

lemma executed:
  assumes "execute_inner u M w input = Some (r, st)"
  obtains outcome st1 where "run_from (execution_fuel w) u M w (wo_start w) (started input) = Some (outcome, st1)"
    "wr_steps r = xc_trace st1" "xc_calls st = xc_calls st1"
    "wr_status r = Success \<or> wr_status r = PartiallyFailed \<Longrightarrow> outcome = Inr ()"
  using assms
  by (fastforce simp: execute_inner_def Let_def emit_event_def split: option.splits if_splits sum.splits)

text \<open>C32. Running a workflow comes to an end, whatever the graph (cycles included) and whatever the peers answer.\<close>

theorem workflow_returns: "\<exists>r st. execute_inner u M w input = Some (r, st)"
proof -
  obtain outcome st1 where "run_from (execution_fuel w) u M w (wo_start w) (started input) = Some (outcome, st1)"
    using run_from_returns by blast
  then show ?thesis by (simp add: execute_inner_def Let_def)
qed

text \<open>C9. A step is called at most once in a run, where no step has two parallel edges to the same step.\<close>

theorem step_called_once:
  assumes "execute_inner u M w input = Some (r, st)" "parallel_distinct w"
  shows "distinct (call_names st)"
  using assms(1)
proof (rule executed)
  fix outcome st1 assume e: "run_from (execution_fuel w) u M w (wo_start w) (started input) = Some (outcome, st1)" "xc_calls st = xc_calls st1"
  show ?thesis using once.kept_run [OF e(1)] assms(2) e(2) by (auto simp: once_def call_names_def)
qed

text \<open>The trace is what the peers saw: a step for every call, in the order of the calls, each the call that the
  workflow specifies for the step.\<close>

theorem trace_is_true:
  assumes "execute_inner u M w input = Some (r, st)"
  shows "list_all2 (made M w) (wr_steps r) (xc_calls st)"
  using assms
proof (rule executed)
  fix outcome st1 assume e: "run_from (execution_fuel w) u M w (wo_start w) (started input) = Some (outcome, st1)"
      "wr_steps r = xc_trace st1" "xc_calls st = xc_calls st1"
  show ?thesis using progress.kept_run [OF e(1)] e(2,3) by (auto simp: progress_def)
qed

lemma calls_not_cancelled: "list_all2 (made M w) new cs \<Longrightarrow> list_all (\<lambda>c. \<not> me_cancelled M (fst c)) cs"
  by (induction rule: list_all2_induct) (auto simp: made_def)

text \<open>C23. Once the flag is set, and as long as it stays set, no peer is called any more.\<close>

theorem cancel_stops_calls:
  assumes "execute_inner u M w input = Some (r, st)" "\<And>t. T \<le> t \<Longrightarrow> me_cancelled M t"
  shows "list_all (\<lambda>c. fst c < T) (xc_calls st)"
  using assms(1)
proof (rule executed)
  fix outcome st1 assume e: "run_from (execution_fuel w) u M w (wo_start w) (started input) = Some (outcome, st1)" "xc_calls st = xc_calls st1"
  obtain new where "list_all2 (made M w) new (xc_calls st1)" using progress.kept_run [OF e(1)] by (auto simp: progress_def)
  from calls_not_cancelled [OF this] show ?thesis
    unfolding e(2) by (rule list.pred_mono_strong) (use assms(2) linorder_not_less in blast)
qed

text \<open>C10. A run that reports success, partial or not, has no failure without a handler: every step that failed has an edge
  for failures or for every outcome.\<close>

theorem failures_handled:
  assumes "execute_inner u M w input = Some (r, st)" "wr_status r = Success \<or> wr_status r = PartiallyFailed"
    and "s \<in> set (wr_steps r)" "xs_outcome s \<noteq> Inr ()"
  shows "handled w (xs_agent s)"
  using assms(1)
proof (rule executed)
  fix outcome st1 assume e: "run_from (execution_fuel w) u M w (wo_start w) (started input) = Some (outcome, st1)"
      "wr_steps r = xc_trace st1" "wr_status r = Success \<or> wr_status r = PartiallyFailed \<Longrightarrow> outcome = Inr ()"
  have "unhandled w st1 \<subseteq> unhandled w (started input)" by (rule run_handled) (use e(1,3) assms(2) in simp)
  then show ?thesis using assms(3,4) e(2) by (auto simp: unhandled_def)
qed

text \<open>C21. Nothing runs untriggered: a step is the start of the workflow or the target of an edge from a step earlier in the
  trace that ended the way the edge asks for.\<close>

theorem steps_are_triggered:
  assumes "execute_inner u M w input = Some (r, st)"
  shows "triggered w [] (wr_steps r)"
  using assms
proof (rule executed)
  fix outcome st1 assume e: "run_from (execution_fuel w) u M w (wo_start w) (started input) = Some (outcome, st1)" "wr_steps r = xc_trace st1"
  show ?thesis using run_routed [OF e(1)] e(2) by (simp add: routed_def)
qed

text \<open>C15. What a peer is given is the template of its step with values for its variables: the input of the workflow, and the
  answers of steps earlier in the trace under the names of their outputs.\<close>

theorem inputs_from_earlier:
  assumes "execute_inner u M w input = Some (r, st)"
  shows "fed u w input [] (wr_steps r)"
  using assms
proof (rule executed)
  fix outcome st1 assume e: "run_from (execution_fuel w) u M w (wo_start w) (started input) = Some (outcome, st1)" "wr_steps r = xc_trace st1"
  show ?thesis using feeds.kept_run [OF e(1), of input] e(2) by (simp add: feeds_def well_fed_def known_value_def)
qed

end
