(* ===== verification/Relix_Workflow_Valid.thy ===== *)
theory Relix_Workflow_Valid
  imports Relix_Workflow
begin

text \<open>
  What the validation of a workflow establishes: the two scanners of templates agree, the search for a cycle
  is exact and always ends, and so is the computation of what a step may read.
\<close>

section \<open>Templates\<close>

lemma find_append: "List.find P (xs @ ys) = (case List.find P xs of None \<Rightarrow> List.find P ys | Some x \<Rightarrow> Some x)"
  by (induction xs) auto

text \<open>C31. The interpolation and the scanner of the validator see the same variables: a template fails on exactly the
  first of its variables that has no value, and is rendered when there is none.\<close>

theorem interpolate_exact:
  "(case interpolate u b s of Inl v \<Rightarrow> Some v | Inr t \<Rightarrow> None) = List.find (\<lambda>v. b v = None) (extract_vars u s)"
proof (induction "length s" arbitrary: s rule: less_induct)
  case less
  note unfolds = interpolate.simps [of u b s] extract_vars.simps [of u s]
  consider "s = []" | c where "s = [c]" | c d r where "s = c # d # r" "c = 123 \<and> d = 123"
    | c d r where "s = c # d # r" "\<not> (c = 123 \<and> d = 123)"
    by (cases s; cases "tl s") auto
  then show ?case
  proof cases
    case 1
    show ?thesis by (subst unfolds(1), subst unfolds(2)) (simp add: 1)
  next
    case (2 c)
    show ?thesis by (subst unfolds(1), subst unfolds(2)) (simp add: 2)
  next
    case (3 c d r)
    have ih: "(case interpolate u b rest of Inl v \<Rightarrow> Some v | Inr t \<Rightarrow> None) = List.find (\<lambda>v. b v = None) (extract_vars u rest)"
      if "closing r = Some (raw, rest)" for raw rest
      by (rule less) (use closing_shorter [OF that] 3(1) in simp)
    show ?thesis
      using ih by (subst unfolds(1), subst unfolds(2)) (auto simp: 3 find_append split: option.split sum.splits)
  next
    case (4 c d r)
    have "(case interpolate u b (d # r) of Inl v \<Rightarrow> Some v | Inr t \<Rightarrow> None) = List.find (\<lambda>v. b v = None) (extract_vars u (d # r))"
      by (rule less) (simp add: 4)
    then show ?thesis by (subst unfolds(1), subst unfolds(2)) (use 4 in \<open>auto split: sum.splits\<close>)
  qed
qed

section \<open>Cycles\<close>

definition forward :: "workflow \<Rightarrow> (ustr \<times> ustr) set" where
  "forward w = (\<lambda>e. (ed_from e, ed_to e)) ` {e \<in> set (wo_edges w). is_forward e}"

fun chain_of :: "('a \<times> 'a) set \<Rightarrow> 'a list \<Rightarrow> bool" where
  "chain_of r (a # b # xs) \<longleftrightarrow> (a, b) \<in> r \<and> chain_of r (b # xs)"
| "chain_of r _ \<longleftrightarrow> True"

definition real_cycle :: "('a \<times> 'a) set \<Rightarrow> 'a list \<Rightarrow> bool" where
  "real_cycle r c \<longleftrightarrow> 1 < length c \<and> hd c = List.last c \<and> chain_of r c"

lemma chain_snoc: "chain_of r (xs @ [a, b]) \<longleftrightarrow> chain_of r (xs @ [a]) \<and> (a, b) \<in> r"
  by (induction xs rule: chain_of.induct [where P = "\<lambda>_ xs. chain_of r (xs @ [a, b]) \<longleftrightarrow> chain_of r (xs @ [a]) \<and> (a, b) \<in> r"]) auto

lemma chain_dropWhile: "chain_of r xs \<Longrightarrow> chain_of r (dropWhile P xs)"
  by (induction r xs rule: chain_of.induct) auto

lemma chain_trancl: "chain_of r (a # xs) \<Longrightarrow> xs \<noteq> [] \<Longrightarrow> (a, List.last xs) \<in> r\<^sup>+"
proof (induction xs arbitrary: a)
  case (Cons b xs)
  show ?case
  proof (cases "xs = []")
    case False
    have "(b, List.last xs) \<in> r\<^sup>+" using Cons False by simp
    then show ?thesis using Cons.prems False by (auto intro: trancl_into_trancl2)
  qed (use Cons.prems in auto)
qed simp

lemma cycle_trancl: "real_cycle r c \<Longrightarrow> (hd c, hd c) \<in> r\<^sup>+"
proof -
  assume c: "real_cycle r c"
  then obtain a xs where a: "c = a # xs" "xs \<noteq> []" by (cases c) (auto simp: real_cycle_def)
  have "chain_of r (a # xs)" using c a(1) unfolding real_cycle_def by blast
  then have "(a, List.last xs) \<in> r\<^sup>+" using a(2) by (rule chain_trancl)
  moreover have "List.last xs = a" using a c by (simp add: real_cycle_def)
  ultimately show ?thesis by (simp add: a)
qed

text \<open>What the search has finished with: closed under the edges, without a cycle, and off the stack.\<close>

definition settled :: "workflow \<Rightarrow> ustr list \<Rightarrow> ustr set \<Rightarrow> bool" where
  "settled w path V \<longleftrightarrow> (\<forall>(a, b) \<in> forward w. a \<in> V \<longrightarrow> b \<in> V) \<and> (\<forall>a \<in> V. (a, a) \<notin> (forward w)\<^sup>+) \<and> V \<inter> set path = {}"

lemma settled_reach: "(a, b) \<in> (forward w)\<^sup>* \<Longrightarrow> settled w path V \<Longrightarrow> a \<in> V \<Longrightarrow> b \<in> V"
  by (induction rule: rtrancl_induct) (auto simp: settled_def)

lemma settled_insert:
  assumes "settled w (path @ [n]) V" "\<And>b. (n, b) \<in> forward w \<Longrightarrow> b \<in> V" "n \<notin> set path"
  shows "settled w path (insert n V)"
proof -
  have n: "n \<notin> V" using assms(1) by (auto simp: settled_def)
  have "(n, n) \<notin> (forward w)\<^sup>+"
  proof
    assume "(n, n) \<in> (forward w)\<^sup>+"
    then obtain b where "(n, b) \<in> forward w" "(b, n) \<in> (forward w)\<^sup>*" by (auto dest: tranclD)
    then show False using assms(2) settled_reach [OF _ assms(1)] n by blast
  qed
  then show ?thesis using assms by (auto simp: settled_def)
qed

lemma edges_forward: "(n, b) \<in> forward w \<longleftrightarrow> b \<in> ed_to ` set (filter is_forward (edges_from w n))"
  by (auto simp: forward_def edges_from_def)

lemma dfs_correct:
  "dfs_cycle k w path V n = Some res \<Longrightarrow> settled w path V \<Longrightarrow> chain_of (forward w) (path @ [n]) \<Longrightarrow>
    case res of Inl c \<Rightarrow> real_cycle (forward w) c \<and> hd c \<in> insert n (set path) \<union> {m. (n, m) \<in> (forward w)\<^sup>*}
    | Inr V' \<Rightarrow> settled w path V' \<and> n \<in> V' \<and> V \<subseteq> V'"
  "dfs_edges k w path V es = Some res \<Longrightarrow> settled w path V \<Longrightarrow> path \<noteq> [] \<Longrightarrow> chain_of (forward w) path \<Longrightarrow>
    (\<forall>e \<in> set es. (List.last path, ed_to e) \<in> forward w) \<Longrightarrow>
    case res of Inl c \<Rightarrow> real_cycle (forward w) c \<and> hd c \<in> set path \<union> {m. (List.last path, m) \<in> (forward w)\<^sup>*}
    | Inr V' \<Rightarrow> settled w path V' \<and> ed_to ` set es \<subseteq> V' \<and> V \<subseteq> V'"
proof (induction k w path V n and k w path V es arbitrary: res and res rule: dfs_cycle_dfs_edges.induct)
  case (2 k w path V n)
  consider "n \<in> set path" | "n \<notin> set path" "n \<in> V" | "n \<notin> set path" "n \<notin> V" by blast
  then show ?case
  proof cases
    case 1
    then have res: "res = Inl (dropWhile (\<lambda>m. m \<noteq> n) (path @ [n]))" using 2(2) by (auto simp: dropWhile_append1)
    have "hd (dropWhile (\<lambda>m. m \<noteq> n) path @ [n]) = n" using 1 hd_dropWhile [of "\<lambda>m. m \<noteq> n" path]
      by (cases "dropWhile (\<lambda>m. m \<noteq> n) path") (auto simp: dropWhile_eq_Nil_conv)
    moreover have "dropWhile (\<lambda>m. m \<noteq> n) path \<noteq> []" using 1 by (auto simp: dropWhile_eq_Nil_conv)
    moreover have d: "dropWhile (\<lambda>m. m \<noteq> n) (path @ [n]) = dropWhile (\<lambda>m. m \<noteq> n) path @ [n]"
      by (rule dropWhile_append1 [of n]) (use 1 in auto)
    ultimately show ?thesis
      using chain_dropWhile [OF 2(4), of "\<lambda>m. m \<noteq> n"] 1 by (simp add: res real_cycle_def)
  next
    case visited: 2
    then have "res = Inr V" using 2(2) by simp
    then show ?thesis using 2(3) visited by simp
  next
    case fresh: 3
    let ?es = "filter is_forward (edges_from w n)"
    obtain r where r: "dfs_edges k w (path @ [n]) V ?es = Some r"
        "res = (case r of Inl c \<Rightarrow> Inl c | Inr V' \<Rightarrow> Inr (insert n V'))"
      using 2(2) fresh by (auto split: option.splits sum.splits)
    have V: "settled w (path @ [n]) V" using 2(3) fresh by (simp add: settled_def)
    have e: "\<forall>e \<in> set ?es. (List.last (path @ [n]), ed_to e) \<in> forward w" by (auto simp: edges_forward)
    have ih: "case r of Inl c \<Rightarrow> real_cycle (forward w) c \<and> hd c \<in> set (path @ [n]) \<union> {m. (List.last (path @ [n]), m) \<in> (forward w)\<^sup>*}
        | Inr V' \<Rightarrow> settled w (path @ [n]) V' \<and> ed_to ` set ?es \<subseteq> V' \<and> V \<subseteq> V'"
      by (rule 2(1) [OF fresh r(1) V _ 2(4) e]) simp
    show ?thesis
    proof (cases r)
      case (Inl c)
      then show ?thesis using ih r(2) by auto
    next
      case (Inr V')
      have "settled w path (insert n V')"
        by (rule settled_insert) (use ih Inr fresh in \<open>auto simp: edges_forward\<close>)
      then show ?thesis using ih r(2) Inr by auto
    qed
  qed
next
  case (4 k w path V e es)
  obtain r where r: "dfs_cycle k w path V (ed_to e) = Some r"
      "case r of Inl c \<Rightarrow> res = Inl c | Inr V' \<Rightarrow> dfs_edges k w path V' es = Some res"
    using 4(3) by (auto split: option.splits sum.splits)
  obtain ps a where path: "path = ps @ [a]" using 4(5) by (cases path rule: rev_cases) auto
  have ae: "(a, ed_to e) \<in> forward w" using 4(7) by (simp add: path)
  have "chain_of (forward w) (path @ [ed_to e])" using 4(6) ae by (simp add: path chain_snoc)
  note ih = 4(1) [OF r(1) 4(4) this]
  show ?case
  proof (cases r)
    case (Inl c)
    then show ?thesis using ih r(2) ae by (auto simp: path intro: converse_rtrancl_into_rtrancl)
  next
    case (Inr V')
    have rest: "case res of Inl c \<Rightarrow> real_cycle (forward w) c \<and> hd c \<in> set path \<union> {m. (List.last path, m) \<in> (forward w)\<^sup>*}
        | Inr V'' \<Rightarrow> settled w path V'' \<and> ed_to ` set es \<subseteq> V'' \<and> V' \<subseteq> V''"
      by (rule 4(2) [OF r(1) Inr _ _ 4(5,6)]) (use ih r(2) Inr 4(7) in auto)
    then show ?thesis using ih Inr by (auto split: sum.splits)
  qed
qed simp_all

lemma dfs_total:
  "card N < k + length path \<Longrightarrow> distinct path \<Longrightarrow> set path \<subseteq> N \<Longrightarrow> n \<in> N \<Longrightarrow> ed_to ` set (wo_edges w) \<subseteq> N \<Longrightarrow> finite N \<Longrightarrow>
    \<exists>res. dfs_cycle k w path V n = Some res"
  "card N < k + length path \<Longrightarrow> distinct path \<Longrightarrow> set path \<subseteq> N \<Longrightarrow> ed_to ` set es \<subseteq> N \<Longrightarrow> ed_to ` set (wo_edges w) \<subseteq> N \<Longrightarrow> finite N \<Longrightarrow>
    \<exists>res. dfs_edges k w path V es = Some res"
proof (induction k w path V n and k w path V es rule: dfs_cycle_dfs_edges.induct)
  case (1 w path V n)
  then have "length path \<le> card N" by (metis card_mono distinct_card)
  then show ?case using 1(1) by simp
next
  case (2 k w path V n)
  show ?case
  proof (cases "n \<in> set path \<or> n \<in> V")
    case False
    have "ed_to ` set (filter is_forward (edges_from w n)) \<subseteq> N" using 2(6) by (auto simp: edges_from_def)
    then have "\<exists>res. dfs_edges k w (path @ [n]) V (filter is_forward (edges_from w n)) = Some res"
      by (intro 2(1)) (use False 2 in auto)
    then show ?thesis using False by (auto split: sum.split)
  qed auto
next
  case (4 k w path V e es)
  obtain r where r: "dfs_cycle k w path V (ed_to e) = Some r" using 4(1) 4(3-8) by auto
  show ?case
  proof (cases r)
    case (Inr V')
    have "\<exists>res. dfs_edges k w path V' es = Some res" by (rule 4(2) [OF r Inr]) (use 4(3-8) in auto)
    then show ?thesis using r Inr by simp
  qed (use r in simp)
qed simp

definition steps_of_flow :: "workflow \<Rightarrow> ustr set" where
  "steps_of_flow w = insert (wo_start w) (ed_to ` set (wo_edges w))"

lemma card_steps: "card (steps_of_flow w) \<le> length (wo_edges w) + 1"
proof -
  have "card (ed_to ` set (wo_edges w)) \<le> length (wo_edges w)" by (metis card_image_le card_length finite_set le_trans)
  then show ?thesis unfolding steps_of_flow_def by (metis Suc_eq_plus1 card_insert_le_m1 card_insert_if finite_imageI finite_set le_SucI not_less_eq_eq)
qed

lemma detect_total: "\<exists>res. dfs_cycle (length (wo_edges w) + 2) w [] {} (wo_start w) = Some res"
  by (rule dfs_total(1) [where N = "steps_of_flow w"]) (use card_steps [of w] in \<open>auto simp: steps_of_flow_def\<close>)

lemma detect_result:
  "detect_success_cycle w = Some (Inr ()) \<and> (\<forall>n. (wo_start w, n) \<in> (forward w)\<^sup>* \<longrightarrow> (n, n) \<notin> (forward w)\<^sup>+)
   \<or> (\<exists>c. detect_success_cycle w = Some (Inl c) \<and> real_cycle (forward w) c \<and> (wo_start w, hd c) \<in> (forward w)\<^sup>*)"
proof -
  obtain res where r: "dfs_cycle (length (wo_edges w) + 2) w [] {} (wo_start w) = Some res" using detect_total by blast
  have c: "case res of Inl c \<Rightarrow> real_cycle (forward w) c \<and> hd c \<in> insert (wo_start w) (set []) \<union> {m. (wo_start w, m) \<in> (forward w)\<^sup>*}
      | Inr V' \<Rightarrow> settled w [] V' \<and> wo_start w \<in> V' \<and> {} \<subseteq> V'"
    by (rule dfs_correct(1) [OF r]) (simp_all add: settled_def)
  show ?thesis
  proof (cases res)
    case (Inl c)
    then show ?thesis using c r by (auto simp: detect_success_cycle_def)
  next
    case (Inr V)
    then have V: "settled w [] V" "wo_start w \<in> V" using c by simp_all
    have "(n, n) \<notin> (forward w)\<^sup>+" if "(wo_start w, n) \<in> (forward w)\<^sup>*" for n
      using settled_reach [OF that V] V(1) unfolding settled_def by blast
    moreover have "detect_success_cycle w = Some (Inr ())" using r Inr by (simp add: detect_success_cycle_def)
    ultimately show ?thesis by blast
  qed
qed

text \<open>C16. The search for cycles is exact: a workflow passes when, along edges that are not for failures, no cycle can be
  reached from its start.\<close>

theorem cycle_check_exact:
  "detect_success_cycle w = Some (Inr ()) \<longleftrightarrow>
    \<not> (\<exists>n. (wo_start w, n) \<in> (forward w)\<^sup>* \<and> (n, n) \<in> (forward w)\<^sup>+)"
proof (rule iffI)
  assume "detect_success_cycle w = Some (Inr ())"
  then show "\<not> (\<exists>n. (wo_start w, n) \<in> (forward w)\<^sup>* \<and> (n, n) \<in> (forward w)\<^sup>+)" using detect_result [of w] by auto
next
  assume "\<not> (\<exists>n. (wo_start w, n) \<in> (forward w)\<^sup>* \<and> (n, n) \<in> (forward w)\<^sup>+)"
  then show "detect_success_cycle w = Some (Inr ())" using detect_result [of w] cycle_trancl by blast
qed

text \<open>What it reports otherwise is a cycle of the workflow: a way along its edges that ends where it began.\<close>

theorem reported_cycle_real:
  assumes "detect_success_cycle w = Some (Inl c)"
  shows "1 < length c \<and> hd c = List.last c \<and> chain_of (forward w) c"
  using detect_result [of w] assms by (auto simp: real_cycle_def)

section \<open>What a step may read\<close>

definition links :: "workflow \<Rightarrow> (ustr \<times> ustr) set" where
  "links w = (\<lambda>e. (ed_from e, ed_to e)) ` set (wo_edges w)"

definition declared :: "workflow \<Rightarrow> bool" where
  "declared w \<longleftrightarrow> spec_of w (wo_start w) \<noteq> None
     \<and> list_all (\<lambda>e. spec_of w (ed_from e) \<noteq> None \<and> spec_of w (ed_to e) \<noteq> None) (wo_edges w)"

text \<open>The outputs of the steps upstream of a step.\<close>

definition upstream :: "workflow \<Rightarrow> ustr \<Rightarrow> ustr set" where
  "upstream w n = {sp_output sp |m sp. (wo_start w, m) \<in> (links w)\<^sup>* \<and> (m, n) \<in> (links w)\<^sup>+ \<and> spec_of w m = Some sp}"

abbreviation seen_by :: "visibility \<Rightarrow> ustr \<Rightarrow> ustr set" where
  "seen_by vis n \<equiv> (case vis n of None \<Rightarrow> {} | Some s \<Rightarrow> s)"

definition passes_on :: "workflow \<Rightarrow> visibility \<Rightarrow> ustr \<Rightarrow> ustr set" where
  "passes_on w vis n = (case spec_of w n of None \<Rightarrow> seen_by vis n | Some sp \<Rightarrow> insert (sp_output sp) (seen_by vis n))"

definition merged_view :: "ustr set \<Rightarrow> ustr set \<Rightarrow> visibility \<Rightarrow> visibility" where
  "merged_view child T vis = (\<lambda>m. if m \<in> T then Some (seen_by vis m \<union> child) else vis m)"

lemma merged_view_insert: "merged_view child T (vis(t \<mapsto> seen_by vis t \<union> child)) = merged_view child (insert t T) vis"
  by (rule ext) (simp add: merged_view_def)

lemma propagate_spec:
  "\<exists>add. propagate_edges child es (vis, q) = (merged_view child (ed_to ` set es) vis, q @ add)
    \<and> set add = {m \<in> ed_to ` set es. \<not> child \<subseteq> seen_by vis m}"
proof (induction es arbitrary: vis q)
  case (Cons e es)
  let ?vis = "vis(ed_to e \<mapsto> seen_by vis (ed_to e) \<union> child)"
  let ?q = "if child \<subseteq> seen_by vis (ed_to e) then q else q @ [ed_to e]"
  obtain add where add: "propagate_edges child es (?vis, ?q) = (merged_view child (ed_to ` set es) ?vis, ?q @ add)"
      "set add = {m \<in> ed_to ` set es. \<not> child \<subseteq> seen_by ?vis m}" using Cons.IH [of ?vis ?q] by blast
  show ?case
  proof (intro exI conjI)
    show "propagate_edges child (e # es) (vis, q) = (merged_view child (ed_to ` set (e # es)) vis,
        q @ (if child \<subseteq> seen_by vis (ed_to e) then [] else [ed_to e]) @ add)"
      using add(1) by (simp add: Let_def merged_view_insert)
    show "set ((if child \<subseteq> seen_by vis (ed_to e) then [] else [ed_to e]) @ add)
        = {m \<in> ed_to ` set (e # es). \<not> child \<subseteq> seen_by vis m}"
      using add(2) by (auto split: if_splits)
  qed
qed (simp add: merged_view_def fun_eq_iff)

lemma visit_spec:
  "\<exists>add. visit_step w n (vis, q) = (merged_view (passes_on w vis n) {m. (n, m) \<in> links w} vis, q @ add)
    \<and> set add = {m. (n, m) \<in> links w \<and> \<not> passes_on w vis n \<subseteq> seen_by vis m}"
proof -
  let ?out = "edges_from w n"
  have "ed_to ` set (filter is_forward ?out @ filter (\<lambda>e. \<not> is_forward e) ?out) = {m. (n, m) \<in> links w}"
    by (auto simp: edges_from_def links_def)
  then show ?thesis
    using propagate_spec [of "passes_on w vis n" "filter is_forward ?out @ filter (\<lambda>e. \<not> is_forward e) ?out" vis q]
    by (simp add: visit_step_def passes_on_def Let_def)
qed

text \<open>The invariant of the queue: a step that is known and not waiting has passed on what it sees.\<close>

definition view_inv :: "workflow \<Rightarrow> visibility \<times> ustr list \<Rightarrow> bool" where
  "view_inv w vq \<longleftrightarrow> (case vq of (vis, q) \<Rightarrow>
     (\<forall>n S. vis n = Some S \<longrightarrow> (wo_start w, n) \<in> (links w)\<^sup>* \<and> S \<subseteq> upstream w n)
     \<and> (\<forall>n \<in> set q. vis n \<noteq> None)
     \<and> (\<forall>n m. vis n \<noteq> None \<longrightarrow> n \<notin> set q \<longrightarrow> (n, m) \<in> links w \<longrightarrow> vis m \<noteq> None \<and> passes_on w vis n \<subseteq> seen_by vis m)
     \<and> vis (wo_start w) \<noteq> None)"

lemma passes_upstream:
  assumes "(wo_start w, n) \<in> (links w)\<^sup>*" "seen_by vis n \<subseteq> upstream w n" "(n, m) \<in> links w"
  shows "passes_on w vis n \<subseteq> upstream w m"
proof -
  have "upstream w n \<subseteq> upstream w m" using assms(3) by (fastforce simp: upstream_def intro: trancl_into_trancl)
  moreover have "sp_output sp \<in> upstream w m" if "spec_of w n = Some sp" for sp
    using assms(1,3) that by (auto simp: upstream_def)
  ultimately show ?thesis using assms(2) by (auto simp: passes_on_def split: option.splits)
qed

lemma view_inv_visit:
  assumes "view_inv w (vis, n # q)" "declared w"
  shows "view_inv w (visit_step w n (vis, q))"
proof -
  let ?c = "passes_on w vis n" and ?T = "{m. (n, m) \<in> links w}"
  let ?vis = "merged_view ?c ?T vis"
  obtain add where add: "visit_step w n (vis, q) = (?vis, q @ add)" "set add = {m. (n, m) \<in> links w \<and> \<not> ?c \<subseteq> seen_by vis m}"
    using visit_spec by blast
  have reach: "\<And>m S. vis m = Some S \<Longrightarrow> (wo_start w, m) \<in> (links w)\<^sup>* \<and> S \<subseteq> upstream w m"
    and known: "vis n \<noteq> None" "\<And>m. m \<in> set q \<Longrightarrow> vis m \<noteq> None" "vis (wo_start w) \<noteq> None"
    and passed: "\<And>x m. vis x \<noteq> None \<Longrightarrow> x \<noteq> n \<Longrightarrow> x \<notin> set q \<Longrightarrow> (x, m) \<in> links w \<Longrightarrow> vis m \<noteq> None \<and> passes_on w vis x \<subseteq> seen_by vis m"
    using assms(1) unfolding view_inv_def by auto
  obtain S where S: "vis n = Some S" using known(1) by blast
  have grow: "seen_by vis m \<subseteq> seen_by ?vis m" "vis m \<noteq> None \<Longrightarrow> ?vis m \<noteq> None" for m by (auto simp: merged_view_def)
  have target: "?vis m \<noteq> None \<and> ?c \<subseteq> seen_by ?vis m" if "(n, m) \<in> links w" for m using that by (simp add: merged_view_def)
  have kept: "vis x \<noteq> None \<and> passes_on w ?vis x = passes_on w vis x" if "?vis x \<noteq> None" "x \<notin> set add" for x
  proof (cases "(n, x) \<in> links w")
    case True
    have "?c \<noteq> {}" using True assms(2) by (fastforce simp: links_def declared_def list_all_iff passes_on_def split: option.splits)
    moreover have "?c \<subseteq> seen_by vis x" using that(2) True by (simp add: add(2))
    ultimately show ?thesis using True by (auto simp: merged_view_def passes_on_def sup_absorb1 split: option.splits)
  qed (use that(1) in \<open>simp add: merged_view_def passes_on_def\<close>)
  have "(wo_start w, m) \<in> (links w)\<^sup>* \<and> S' \<subseteq> upstream w m" if "?vis m = Some S'" for m S'
  proof (cases "(n, m) \<in> links w")
    case True
    have "?c \<subseteq> upstream w m" by (rule passes_upstream [OF _ _ True]) (use reach [OF S] S in simp_all)
    moreover have "seen_by vis m \<subseteq> upstream w m" using reach [of m] by (auto split: option.splits)
    ultimately show ?thesis
      using that True reach [OF S] rtrancl_into_rtrancl [of "wo_start w" n "links w" m] by (auto simp: merged_view_def)
  qed (use that reach in \<open>simp add: merged_view_def\<close>)
  moreover have "?vis x \<noteq> None" if "x \<in> set (q @ add)" for x
    using that known(2) grow(2) target by (auto simp: add(2))
  moreover have "?vis m \<noteq> None \<and> passes_on w ?vis x \<subseteq> seen_by ?vis m"
    if "?vis x \<noteq> None" "x \<notin> set (q @ add)" "(x, m) \<in> links w" for x m
  proof (cases "x = n")
    case True
    then show ?thesis using kept [of x] that target by simp
  next
    case False
    then show ?thesis using kept [of x] that passed [of x m] grow [of m] by auto
  qed
  ultimately show ?thesis using grow(2) [OF known(3)] unfolding view_inv_def add(1) by auto
qed

definition unseen :: "workflow \<Rightarrow> visibility \<Rightarrow> (ustr \<times> ustr) set" where
  "unseen w vis = {(m, out). m \<in> ed_to ` set (wo_edges w) \<and> out \<in> sp_output ` snd ` set (wo_agents w) \<and> out \<notin> seen_by vis m}"

lemma finite_unseen: "finite (unseen w vis)"
  by (rule finite_subset [of _ "ed_to ` set (wo_edges w) \<times> sp_output ` snd ` set (wo_agents w)"]) (auto simp: unseen_def)

lemma upstream_outputs: "upstream w n \<subseteq> sp_output ` snd ` set (wo_agents w)"
  by (force simp: upstream_def dest: map_of_SomeD)

lemma visit_measure:
  assumes "view_inv w (vis, n # q)"
  shows "unseen w (fst (visit_step w n (vis, q))) \<subseteq> unseen w vis
    \<and> (snd (visit_step w n (vis, q)) = q \<or> unseen w (fst (visit_step w n (vis, q))) \<subset> unseen w vis)"
proof -
  let ?c = "passes_on w vis n" and ?T = "{m. (n, m) \<in> links w}"
  let ?vis = "merged_view ?c ?T vis"
  obtain add where add: "visit_step w n (vis, q) = (?vis, q @ add)" "set add = {m. (n, m) \<in> links w \<and> \<not> ?c \<subseteq> seen_by vis m}"
    using visit_spec by blast
  have sub: "unseen w ?vis \<subseteq> unseen w vis" by (auto simp: unseen_def merged_view_def split: if_splits)
  have "unseen w ?vis \<subset> unseen w vis" if ne: "add \<noteq> []"
  proof -
    obtain m where "m \<in> set add" using ne by (cases add) auto
    then have m: "(n, m) \<in> links w" "\<not> ?c \<subseteq> seen_by vis m" by (simp_all add: add(2))
    then obtain out where out: "out \<in> ?c" "out \<notin> seen_by vis m" by blast
    have n: "(wo_start w, n) \<in> (links w)\<^sup>*" "seen_by vis n \<subseteq> upstream w n" using assms by (auto simp: view_inv_def split: option.splits)
    have "?c \<subseteq> upstream w m" by (rule passes_upstream) (use n m(1) in auto)
    then have "out \<in> sp_output ` snd ` set (wo_agents w)" using upstream_outputs out(1) by blast
    then have "(m, out) \<in> unseen w vis - unseen w ?vis" using m(1) out by (auto simp: unseen_def links_def merged_view_def)
    then show ?thesis using sub by blast
  qed
  then show ?thesis using sub by (cases "add = []") (simp_all add: add(1))
qed

lemma visibility_loop_exact:
  assumes "view_inv w vq" "declared w"
  shows "\<exists>vis. visibility_loop w vq = Some vis \<and> view_inv w (vis, [])"
  using assms(1)
proof (induction "(card (unseen w (fst vq)), length (snd vq))" arbitrary: vq rule: wf_induct_rule [OF wf_lex_prod [OF wf_less_than wf_less_than]])
  case (1 vq)
  obtain vis q where vq: "vq = (vis, q)" by (cases vq)
  show ?case
  proof (cases q)
    case (Cons n q')
    let ?next = "visit_step w n (vis, q')"
    have inv: "view_inv w (vis, n # q')" using 1(2) by (simp add: vq Cons)
    have "((card (unseen w (fst ?next)), length (snd ?next)), (card (unseen w (fst vq)), length (snd vq))) \<in> less_than <*lex*> less_than"
      using visit_measure [OF inv] psubset_card_mono [OF finite_unseen, of "unseen w (fst ?next)" w vis] card_mono [OF finite_unseen, of "unseen w (fst ?next)" w vis]
      by (auto simp: vq Cons order_le_less)
    then have "\<exists>vis. visibility_loop w ?next = Some vis \<and> view_inv w (vis, [])"
      using 1(1) view_inv_visit [OF inv assms(2)] by blast
    then show ?thesis by (subst visibility_loop.simps) (simp add: vq Cons)
  qed (use 1(2) in \<open>subst visibility_loop.simps, simp add: vq\<close>)
qed

text \<open>C22. The computation of what steps may read ends and is exact: it knows the steps that can be reached from the start,
  and for each of them the outputs of all the steps upstream of it.\<close>

theorem visibility_exact:
  assumes "declared w"
  shows "compute_visibility w = Some (\<lambda>n. if (wo_start w, n) \<in> (links w)\<^sup>* then Some (upstream w n) else None)"
proof -
  have "view_inv w (Map.empty(wo_start w \<mapsto> {}), [wo_start w])" by (auto simp: view_inv_def)
  from visibility_loop_exact [OF this assms] obtain vis
    where vis: "compute_visibility w = Some vis" and inv: "view_inv w (vis, [])" by (auto simp: compute_visibility_def)
  have pass: "vis m \<noteq> None \<and> passes_on w vis n \<subseteq> seen_by vis m" if "vis n \<noteq> None" "(n, m) \<in> links w" for n m
    using inv that by (simp add: view_inv_def)
  have known: "vis n \<noteq> None" if "(wo_start w, n) \<in> (links w)\<^sup>*" for n
    using that
  proof (induction rule: rtrancl_induct)
    case base
    then show ?case using inv by (simp add: view_inv_def)
  next
    case (step a b)
    then show ?case using pass by blast
  qed
  have out: "sp_output sp \<in> seen_by vis n" if m: "vis m \<noteq> None" "spec_of w m = Some sp" and mn: "(m, n) \<in> (links w)\<^sup>+" for m n sp
    using mn
  proof (induction rule: trancl_induct)
    case (base y)
    then show ?case using pass [OF m(1) base] m(2) by (auto simp: passes_on_def)
  next
    case (step y z)
    have "vis y \<noteq> None" using step.IH by (cases "vis y") auto
    from pass [OF this step.hyps(2)] show ?case using step.IH by (auto simp: passes_on_def split: option.splits)
  qed
  have "upstream w n \<subseteq> seen_by vis n" for n unfolding upstream_def using out known by blast
  moreover have "vis n = Some S \<Longrightarrow> (wo_start w, n) \<in> (links w)\<^sup>* \<and> S \<subseteq> upstream w n" for n S
    using inv by (simp add: view_inv_def)
  ultimately have "vis n = (if (wo_start w, n) \<in> (links w)\<^sup>* then Some (upstream w n) else None)" for n
    using known [of n] by (cases "vis n") fastforce+
  then show ?thesis using vis by (simp add: fun_eq_iff)
qed

section \<open>Validated workflows\<close>

lemma check_edges_None: "check_edges w i es = None \<longleftrightarrow> list_all (\<lambda>e. spec_of w (ed_from e) \<noteq> None \<and> spec_of w (ed_to e) \<noteq> None) es"
  by (induction w i es rule: check_edges.induct) simp_all

lemma check_inputs_None:
  assumes "check_inputs u w vis as = None" "(n, sp) \<in> set as" "v \<in> set (extract_vars u (sp_input sp))"
  shows "is_var_visible w n (seen_by vis n) v"
  using assms(1,2)
proof (induction as)
  case (Cons a as)
  then show ?case using assms(3) by (cases a) (auto simp: Let_def find_None_iff split: option.splits)
qed simp

lemma validated:
  assumes "validate u w peers = Some (Inr ())"
  shows "declared w" "check_inputs u w (\<lambda>n. if (wo_start w, n) \<in> (links w)\<^sup>* then Some (upstream w n) else None) (wo_agents w) = None"
    "detect_success_cycle w = Some (Inr ())"
proof -
  show d: "declared w" using assms by (auto simp: validate_def declared_def check_edges_None split: if_splits option.splits)
  show "check_inputs u w (\<lambda>n. if (wo_start w, n) \<in> (links w)\<^sup>* then Some (upstream w n) else None) (wo_agents w) = None"
    using assms unfolding validate_def visibility_exact [OF d] by (simp split: if_splits option.splits)
  show "detect_success_cycle w = Some (Inr ())"
    using assms by (auto simp: validate_def split: if_splits option.splits sum.splits)
qed

text \<open>Validation ends on every workflow, with an error or without.\<close>

theorem validate_returns: "\<exists>r. validate u w peers = Some r"
proof (cases "declared w")
  case True
  obtain d where "detect_success_cycle w = Some d" using detect_result [of w] by blast
  then show ?thesis
    unfolding validate_def visibility_exact [OF True] by (cases d) (simp_all split: option.split)
next
  case False
  then have "spec_of w (wo_start w) = None \<or> (\<exists>e. check_edges w 0 (wo_edges w) = Some e)"
    using check_edges_None [of w 0 "wo_edges w"] by (cases "check_edges w 0 (wo_edges w)") (auto simp: declared_def)
  then show ?thesis by (auto simp: validate_def)
qed

text \<open>In a workflow that passes, every variable in the input of a step is the input of the workflow or the output of
  a step upstream of it.\<close>

theorem validated_reads_upstream:
  assumes "validate u w peers = Some (Inr ())" "(n, sp) \<in> set (wo_agents w)" "v \<in> set (extract_vars u (sp_input sp))"
  shows "v = workflow_input \<or> stripped_var v \<in> upstream w n"
  using check_inputs_None [OF validated(2) [OF assms(1)] assms(2,3)]
  by (auto simp: is_var_visible_def split: if_splits option.splits)

end
