(* ===== verification/Relix_Workflow_Demo.thy ===== *)
theory Relix_Workflow_Demo
  imports Relix_Workflow_Routing Relix_Workflow_Valid
begin

text \<open>
  Small workflows: the properties applied, and what the engine does on graphs its checks let through.
\<close>

definition no_tables :: ucd where
  "no_tables = \<lparr>u_alphabetic = (\<lambda>_. False), u_numeric = (\<lambda>_. False)\<rparr>"

definition step_of :: "string \<Rightarrow> string \<Rightarrow> ustr \<times> agent_spec" where
  "step_of n inp = (cps n, \<lparr>sp_peer = cps ''ai'', sp_capability = cps ''chat'', sp_input = cps inp, sp_output = cps n\<rparr>)"

definition edge_of :: "string \<Rightarrow> edge_condition \<Rightarrow> string \<Rightarrow> edge" where
  "edge_of a c b = \<lparr>ed_from = cps a, ed_to = cps b, ed_condition = c\<rparr>"

definition flow_of :: "(ustr \<times> agent_spec) list \<Rightarrow> edge list \<Rightarrow> workflow" where
  "flow_of agents edges = \<lparr>wo_name = cps ''demo'', wo_version = 1, wo_description = [], wo_agents = agents,
     wo_start = cps ''s'', wo_edges = edges, wo_result = None\<rparr>"

definition answers :: "(ustr \<Rightarrow> dispatch_error + nat list) \<Rightarrow> mesh" where
  "answers f = \<lparr>me_dispatch = (\<lambda>t p m i. f i), me_cancelled = (\<lambda>_. False), me_reason = (\<lambda>_. None), me_millis = (\<lambda>_. 0)\<rparr>"

lemmas flow_simps = flow_of_def edge_of_def step_of_def cps_def

section \<open>Running small flows\<close>

lemma interpolate_plain: "list_all (\<lambda>c. c \<noteq> 123) s \<Longrightarrow> interpolate u b s = Inr s"
proof (induction s)
  case (Cons c s)
  then show ?case by (cases s) (subst interpolate.simps, simp)+
qed (simp add: interpolate.simps)

lemma closing_first: "list_all (\<lambda>c. c \<noteq> 125) x \<Longrightarrow> closing (x @ [125, 125]) = Some (x, [])"
proof (induction x)
  case (Cons c x)
  then show ?case by (cases "x @ [125, 125]") simp_all
qed simp

lemma interpolate_braces:
  assumes "list_all (\<lambda>c. c \<noteq> 125) x" "is_variable u (trim x)"
  shows "interpolate u b (123 # 123 # x @ [125, 125]) = (case b (trim x) of None \<Rightarrow> Inl (trim x) | Some v \<Rightarrow> Inr v)"
  by (subst interpolate.simps) (simp add: closing_first assms interpolate.simps [of u b "[]"] split: option.split)

lemma interpolate_variable:
  assumes "list_all (\<lambda>c. c \<noteq> 125) x" "trim x = y" "is_variable u y"
  shows "interpolate u b (123 # 123 # x @ [125, 125]) = (case b y of None \<Rightarrow> Inl y | Some v \<Rightarrow> Inr v)"
  using interpolate_braces [OF assms(1), of u b] assms(3) by (simp only: assms(2) simp_thms)


lemma variable_names:
  "trim (cps ''s.output'') = cps ''s.output''" "is_variable no_tables (cps ''s.output'')"
  "trim (cps ''b.output'') = cps ''b.output''" "is_variable no_tables (cps ''b.output'')"
  "trim (cps ''s'') = cps ''s''" "is_variable no_tables (cps ''s'')"
  by (simp_all add: cps_def trim_def trim_start_def is_whitespace_def is_variable_def is_alphanumeric_def is_alphabetic_def
      is_ascii_alpha_def)

lemma variable_inputs:
  "interpolate no_tables b (cps ''{{s.output}}'') = (case b (cps ''s.output'') of None \<Rightarrow> Inl (cps ''s.output'') | Some v \<Rightarrow> Inr v)"
  "interpolate no_tables b (cps ''{{b.output}}'') = (case b (cps ''b.output'') of None \<Rightarrow> Inl (cps ''b.output'') | Some v \<Rightarrow> Inr v)"
  "interpolate no_tables b (cps ''{{s}}'') = (case b (cps ''s'') of None \<Rightarrow> Inl (cps ''s'') | Some v \<Rightarrow> Inr v)"
proof -
  have t: "cps ''{{s.output}}'' = 123 # 123 # cps ''s.output'' @ [125, 125]" "cps ''{{b.output}}'' = 123 # 123 # cps ''b.output'' @ [125, 125]"
      "cps ''{{s}}'' = 123 # 123 # cps ''s'' @ [125, 125]" by (simp_all add: cps_def)
  have c: "list_all (\<lambda>c. c \<noteq> 125) (cps ''s.output'')" "list_all (\<lambda>c. c \<noteq> 125) (cps ''b.output'')" "list_all (\<lambda>c. c \<noteq> 125) (cps ''s'')"
    by (simp_all add: cps_def)
  show "interpolate no_tables b (cps ''{{s.output}}'') = (case b (cps ''s.output'') of None \<Rightarrow> Inl (cps ''s.output'') | Some v \<Rightarrow> Inr v)"
    "interpolate no_tables b (cps ''{{b.output}}'') = (case b (cps ''b.output'') of None \<Rightarrow> Inl (cps ''b.output'') | Some v \<Rightarrow> Inr v)"
    "interpolate no_tables b (cps ''{{s}}'') = (case b (cps ''s'') of None \<Rightarrow> Inl (cps ''s'') | Some v \<Rightarrow> Inr v)"
    unfolding t by (rule interpolate_variable [OF c(1) variable_names(1,2)] interpolate_variable [OF c(2) variable_names(3,4)]
        interpolate_variable [OF c(3) variable_names(5,6)])+
qed

definition stepped :: "ustr \<Rightarrow> agent_spec \<Rightarrow> ustr \<Rightarrow> dispatch_error + nat list \<Rightarrow> execution \<Rightarrow> execution" where
  "stepped n sp i res st = snd (call_step (answers (\<lambda>_. res)) n sp i (xc_clock st)
     (st\<lparr>xc_clock := xc_clock st + 1, xc_visited := insert n (xc_visited st)\<rparr>))"

definition trace_step :: "ustr \<Rightarrow> agent_spec \<Rightarrow> ustr \<Rightarrow> dispatch_error + nat list \<Rightarrow> execution_step" where
  "trace_step n sp i res = \<lparr>xs_agent = n, xs_peer = sp_peer sp, xs_capability = sp_capability sp, xs_input = i,
     xs_output = (case res of Inr body \<Rightarrow> lossy body | Inl e \<Rightarrow> de_cause e), xs_latency_ms = 0,
     xs_outcome = (case res of Inr body \<Rightarrow> Inr () | Inl e \<Rightarrow> Inl (de_cause e))\<rparr>"

lemma stepped_sel [simp]:
  "xc_visited (stepped n sp i res st) = insert n (xc_visited st)"
  "xc_clock (stepped n sp i res st) = xc_clock st + 1"
  "xc_trace (stepped n sp i res st) = xc_trace st @ [trace_step n sp i res]"
  "xc_bindings (stepped n sp i res st) = btree_insert (sp_output sp @ output_suffix) (xs_output (trace_step n sp i res)) (xc_bindings st)"
  "xc_calls (stepped n sp i res st) = xc_calls st @ [(xc_clock st, n, sp_peer sp, sp_capability sp, i)]"
  by (simp_all add: stepped_def call_step_def trace_step_def answers_def emit_event_def bind_output_def Let_def split: sum.split)

lemma run_stepped:
  assumes "n \<notin> xc_visited st" "spec_of w n = Some sp" "interpolate u (map_of (xc_bindings st)) (sp_input sp) = Inr i"
  shows "run_step_only u (answers f) w n st =
    (Ran (case f i of Inr body \<Rightarrow> StepSuccess | Inl e \<Rightarrow> StepFailed e), stepped n sp i (f i) st)"
  using assms
  by (simp add: run_step_only_def call_step_def stepped_def answers_def Let_def split: sum.split)

lemma run_missing:
  assumes "n \<notin> xc_visited st" "spec_of w n = Some sp" "interpolate u (map_of (xc_bindings st)) (sp_input sp) = Inl v"
  shows "run_step_only u (answers f) w n st =
    (Aborted (UndefinedInput n v), st\<lparr>xc_clock := xc_clock st + 1, xc_visited := insert n (xc_visited st)\<rparr>)"
  using assms by (simp add: run_step_only_def answers_def Let_def)

lemma run_skipped: "n \<in> xc_visited st \<Longrightarrow> run_step_only u M w n st = (Skipped, st)"
  by (simp add: run_step_only_def)

text \<open>The same with the flag set from some time on.\<close>

lemma run_until:
  assumes "n \<notin> xc_visited st" "spec_of w n = Some sp" "interpolate u (map_of (xc_bindings st)) (sp_input sp) = Inr i" "\<not> c (xc_clock st)"
  shows "run_step_only u (answers f\<lparr>me_cancelled := c\<rparr>) w n st =
    (Ran (case f i of Inr body \<Rightarrow> StepSuccess | Inl e \<Rightarrow> StepFailed e), stepped n sp i (f i) st)"
  using assms
  by (simp add: run_step_only_def call_step_def stepped_def answers_def Let_def split: sum.split)

lemma run_cancelled:
  assumes "n \<notin> xc_visited st" "c (xc_clock st)"
  shows "\<exists>ev. run_step_only u (answers f\<lparr>me_cancelled := c\<rparr>) w n st =
    (Aborted (CancelledBy (cps ''workflow cancelled'')), emit_event ev (st\<lparr>xc_clock := xc_clock st + 1\<rparr>))"
  using assms by (auto simp: run_step_only_def answers_def Let_def cancel_reason_def)

lemmas run_simps = run_and_follow_def run_stepped run_missing run_skipped matching_edges_def edges_from_def is_parallel_def
  btree_insert_def output_suffix_def workflow_input_def

section \<open>A failure with a handler\<close>

definition unreachable :: dispatch_error where
  "unreachable = \<lparr>de_peer = cps ''ai'', de_method = cps ''chat'', de_cause = cps ''down''\<rparr>"

definition fallback :: workflow where
  "fallback = flow_of [step_of ''a'' ''1'', step_of ''h'' ''{{s.output}}'', step_of ''s'' ''0'']
     [edge_of ''s'' OnSuccess ''a'', edge_of ''s'' OnFailure ''h'']"

definition flaky :: mesh where
  "flaky = answers (\<lambda>i. if i = cps ''0'' then Inl unreachable else Inr [111, 107])"

definition fallback_end :: execution where
  "fallback_end = stepped (cps ''h'') (snd (step_of ''h'' ''{{s.output}}'')) (cps ''down'') (Inr [111, 107])
     (stepped (cps ''s'') (snd (step_of ''s'' ''0'')) (cps ''0'') (Inl unreachable) (started []))"

lemma fallback_runs:
  "run_from (execution_fuel fallback) no_tables flaky fallback (wo_start fallback) (started []) = Some (Inr (), fallback_end)"
  using variable_inputs(1)
  by (simp add: run_from_def execution_fuel_def fallback_def flow_simps flaky_def run_simps interpolate_plain trace_step_def
      unreachable_def fallback_end_def)

definition fallback_result :: workflow_result where
  "fallback_result = \<lparr>wr_steps = xc_trace fallback_end, wr_status = PartiallyFailed,
     wr_result = render_final_result no_tables fallback fallback_end\<rparr>"

lemma fallback_executes: "execute_inner no_tables flaky fallback [] = Some (fallback_result, emit_event (EvFinished fallback_result) fallback_end)"
  by (simp add: execute_inner_def fallback_runs fallback_result_def Let_def)
    (simp add: flaky_def answers_def fallback_end_def trace_step_def)

lemma fallback_names: "call_names (emit_event ev fallback_end) = [cps ''s'', cps ''h'']"
  by (simp add: call_names_def emit_event_def fallback_end_def new_execution_def)

theorem step_called_once_witness: "distinct [cps ''s'', cps ''h'']"
  using step_called_once [OF fallback_executes] by (simp add: fallback_names parallel_distinct_def fallback_def flow_simps is_parallel_def)

theorem trace_is_true_witness: "list_all2 (made flaky fallback) (xc_trace fallback_end) (xc_calls fallback_end)"
  using trace_is_true [OF fallback_executes] by (simp add: fallback_result_def emit_event_def)

definition cancelled_flaky :: mesh where
  "cancelled_flaky = flaky\<lparr>me_cancelled := (\<lambda>t. 1 \<le> t)\<rparr>"

lemma cancelled_executes:
  "\<exists>r st. execute_inner no_tables cancelled_flaky fallback [] = Some (r, st) \<and>
    xc_calls st = [(0, cps ''s'', cps ''ai'', cps ''chat'', cps ''0'')]"
proof -
  let ?M = "answers (\<lambda>i. if i = cps ''0'' then Inl unreachable else Inr [111, 107])\<lparr>me_cancelled := (\<lambda>t. 1 \<le> t)\<rparr>"
  let ?st = "stepped (cps ''s'') (snd (step_of ''s'' ''0'')) (cps ''0'') (Inl unreachable) (started [])"
  obtain ev where c: "run_step_only no_tables ?M fallback (cps ''h'') ?st =
      (Aborted (CancelledBy (cps ''workflow cancelled'')), emit_event ev (?st\<lparr>xc_clock := xc_clock ?st + 1\<rparr>))"
    using run_cancelled [of "cps ''h''" ?st "\<lambda>t. 1 \<le> t"] by (fastforce simp: cps_def)
  have s: "run_step_only no_tables ?M fallback (cps ''s'') (started []) = (Ran (StepFailed unreachable), ?st)"
    using run_until [of "cps ''s''" "started []" fallback "snd (step_of ''s'' ''0'')" no_tables "cps ''0''" "\<lambda>t. 1 \<le> t"]
    by (simp add: fallback_def flow_simps interpolate_plain)
  have m: "matching_edges fallback (cps ''s'') (StepFailed unreachable) = [edge_of ''s'' OnFailure ''h'']"
    by (simp add: fallback_def flow_simps matching_edges_def edges_from_def)
  have "run_from (execution_fuel fallback) no_tables ?M fallback (cps ''s'') (started [])
      = Some (Inl (CancelledBy (cps ''workflow cancelled'')), emit_event ev (?st\<lparr>xc_clock := xc_clock ?st + 1\<rparr>))"
    using c s m by (simp add: run_from_def run_and_follow_def execution_fuel_def fallback_def [of] flow_of_def is_parallel_def edge_of_def)
  then show ?thesis
    by (auto simp: execute_inner_def cancelled_flaky_def flaky_def fallback_def flow_of_def Let_def emit_event_def step_of_def new_execution_def)
qed

theorem cancel_stops_calls_witness: "list_all (\<lambda>c. fst c < 1) [(0 :: nat, cps ''s'', cps ''ai'', cps ''chat'', cps ''0'')]"
proof -
  obtain r st where e: "execute_inner no_tables cancelled_flaky fallback [] = Some (r, st)"
      "xc_calls st = [(0, cps ''s'', cps ''ai'', cps ''chat'', cps ''0'')]" using cancelled_executes by blast
  have "me_cancelled cancelled_flaky t" if "1 \<le> t" for t using that by (simp add: cancelled_flaky_def)
  from cancel_stops_calls [OF e(1) this] show ?thesis by (simp add: e(2))
qed

theorem failures_handled_witness: "handled fallback (cps ''s'')"
  using failures_handled [OF fallback_executes, of "trace_step (cps ''s'') (snd (step_of ''s'' ''0'')) (cps ''0'') (Inl unreachable)"]
  by (simp add: fallback_result_def fallback_end_def trace_step_def)

theorem steps_are_triggered_witness: "triggered fallback [] (xc_trace fallback_end)"
  using steps_are_triggered [OF fallback_executes] by (simp add: fallback_result_def)

theorem inputs_from_earlier_witness: "fed no_tables fallback [] [] (xc_trace fallback_end)"
  using inputs_from_earlier [OF fallback_executes] by (simp add: fallback_result_def)

section \<open>Validating small flows\<close>

lemma visibility_rules:
  "visibility_loop w (vis, []) = Some vis"
  "visibility_loop w (vis, n # q) = visibility_loop w (visit_step w n (vis, q))"
  by (subst visibility_loop.simps, simp)+

lemma extract_plain: "list_all (\<lambda>c. c \<noteq> 123) s \<Longrightarrow> extract_vars u s = []"
proof (induction s)
  case (Cons c s)
  then show ?case by (cases s) (subst extract_vars.simps, simp)+
qed (simp add: extract_vars.simps)

lemma extract_variable:
  assumes "list_all (\<lambda>c. c \<noteq> 125) x" "trim x = y" "is_variable u y"
  shows "extract_vars u (123 # 123 # x @ [125, 125]) = [y]"
  by (subst extract_vars.simps) (simp add: closing_first [OF assms(1)] assms(2,3) extract_vars.simps [of u "[]"])

lemma extracted:
  "extract_vars no_tables (cps ''{{b.output}}'') = [cps ''b.output'']" "extract_vars no_tables (cps ''{{s}}'') = [cps ''s'']"
  using extract_variable [OF _ variable_names(3,4)] extract_variable [OF _ variable_names(5,6)] by (simp_all add: cps_def)

lemma stripped:
  "stripped_var (cps ''b.output'') = cps ''b''" "stripped_var (cps ''s'') = cps ''s''"
  by (simp_all add: stripped_var_def output_suffix_def strip_suffix_def strip_prefix_def is_prefix_def cps_def)

lemma dfs_numeral:
  "dfs_cycle (numeral k) w path visited n =
     (if n \<in> set path then Some (Inl (dropWhile (\<lambda>m. m \<noteq> n) path @ [n]))
      else if n \<in> visited then Some (Inr visited)
      else case dfs_edges (pred_numeral k) w (path @ [n]) visited (filter is_forward (edges_from w n)) of
        None \<Rightarrow> None
      | Some (Inl cycle) \<Rightarrow> Some (Inl cycle)
      | Some (Inr visited) \<Rightarrow> Some (Inr (insert n visited)))"
  by (simp add: numeral_eq_Suc)

lemmas valid_simps = validate_def compute_visibility_def visibility_rules visit_step_def edges_from_def is_forward_def
  extract_plain is_var_visible_def workflow_input_def check_result_def detect_success_cycle_def dfs_numeral Let_def

section \<open>A diamond that validates and fails\<close>

text \<open>
  \<open>c\<close> is reached from \<open>a\<close> and from \<open>b\<close>, and reads the output of \<open>b\<close>. The run goes to the end of the first edge
  before it takes the second, so \<open>c\<close> is due before \<open>b\<close> has run.
\<close>

definition diamond :: workflow where
  "diamond = flow_of [step_of ''a'' ''1'', step_of ''b'' ''2'', step_of ''c'' ''{{b.output}}'', step_of ''s'' ''0'']
     [edge_of ''s'' OnSuccess ''a'', edge_of ''s'' OnSuccess ''b'', edge_of ''a'' OnSuccess ''c'', edge_of ''b'' OnSuccess ''c'']"

lemma diamond_validates: "validate no_tables diamond None = Some (Inr ())"
  using extracted(1) stripped(1) by (simp add: diamond_def flow_simps valid_simps)

lemma diamond_fails:
  "\<exists>st. run_from (execution_fuel diamond) no_tables (answers (\<lambda>_. Inr [])) diamond (wo_start diamond) (started [])
    = Some (Inl (UndefinedInput (cps ''c'') (cps ''b.output'')), st)"
  using variable_inputs(2)
  by (simp add: run_from_def execution_fuel_def diamond_def flow_simps run_simps interpolate_plain trace_step_def)

section \<open>Two parallel edges to one step\<close>

definition twins :: workflow where
  "twins = flow_of [step_of ''a'' ''1'', step_of ''s'' ''0''] [edge_of ''s'' InParallel ''a'', edge_of ''s'' InParallel ''a'']"

lemma twins_validate: "validate no_tables twins None = Some (Inr ())"
  by (simp add: twins_def flow_simps valid_simps)

lemma follow_ends:
  "matching_edges w n StepSuccess = [] \<Longrightarrow> follow_edges (Suc k) u M w (n, StepSuccess) st = Some (Inr (), st)"
  by simp

lemma fan_out_copies:
  assumes "n \<notin> vs" "spec_of w n = Some sp" "interpolate u (map_of bs) (sp_input sp) = Inr i" "f i = Inr body"
    and "fan_out u (answers f) w bs vs (replicate k n) st = (rs, st')"
  shows "completed rs = replicate k (n, StepSuccess) \<and> first_error rs = None \<and> call_names st' = call_names st @ replicate k n"
  using assms(5)
proof (induction k arbitrary: st rs)
  case (Suc k)
  let ?own = "stepped n sp i (f i) (st\<lparr>xc_bindings := bs, xc_visited := vs, xc_trace := []\<rparr>)"
  obtain rs1 where rest: "fan_out u (answers f) w bs vs (replicate k n)
      (st\<lparr>xc_events := xc_events ?own, xc_clock := xc_clock ?own, xc_calls := xc_calls ?own\<rparr>) = (rs1, st')"
    and rs: "rs = (n, Ran StepSuccess, ?own) # rs1"
    using Suc.prems by (simp add: run_stepped assms(1-4) split: prod.splits)
  show ?case using Suc.IH [OF rest] by (simp add: rs call_names_def)
qed simp

lemma merge_siblings_calls: "call_names (merge_siblings rs st) = call_names st"
  by (induction rs st rule: merge_siblings.induct) (simp_all add: call_names_def)

lemma twins_called_twice:
  "\<exists>r st. run_from (execution_fuel twins) no_tables (answers (\<lambda>_. Inr [])) twins (wo_start twins) (started []) = Some (r, st)
    \<and> call_names st = [cps ''s'', cps ''a'', cps ''a'']"
proof -
  let ?a = "snd (step_of ''a'' ''1'')" and ?s = "snd (step_of ''s'' ''0'')" and ?M = "answers (\<lambda>_. Inr [])"
  let ?st = "stepped (cps ''s'') ?s (cps ''0'') (Inr []) (started [])"
  have agents: "spec_of twins (cps ''s'') = Some ?s" "spec_of twins (cps ''a'') = Some ?a" and start: "wo_start twins = cps ''s''"
    by (simp_all add: twins_def flow_simps)
  have inputs: "interpolate no_tables b (sp_input ?s) = Inr (cps ''0'')" "interpolate no_tables b (sp_input ?a) = Inr (cps ''1'')" for b
    by (simp_all add: flow_simps interpolate_plain)
  have out: "matching_edges twins (cps ''s'') StepSuccess = [edge_of ''s'' InParallel ''a'', edge_of ''s'' InParallel ''a'']"
    "matching_edges twins (cps ''a'') StepSuccess = []" and to: "ed_to (edge_of ''s'' InParallel ''a'') = cps ''a''"
    and par: "is_parallel (edge_of ''s'' InParallel ''a'')" and fuel: "execution_fuel twins = Suc (Suc (Suc 0))"
    by (simp_all add: twins_def flow_simps matching_edges_def edges_from_def is_parallel_def execution_fuel_def numeral_2_eq_2)
  have fresh: "cps ''a'' \<notin> xc_visited ?st" "cps ''s'' \<notin> xc_visited (started [])" by (simp_all add: cps_def)
  obtain rs st where fan: "fan_out no_tables ?M twins (xc_bindings ?st) (xc_visited ?st) (replicate 2 (cps ''a'')) ?st = (rs, st)"
    by (meson surj_pair)
  have ended: "completed rs = replicate 2 (cps ''a'', StepSuccess)" "first_error rs = None" "call_names st = call_names ?st @ replicate 2 (cps ''a'')"
    using fan_out_copies [OF fresh(1) agents(2) inputs(2) refl fan] by simp_all
  have "run_parallel (follow_edges (Suc (Suc 0)) no_tables ?M twins) no_tables ?M twins (replicate 2 (cps ''a'')) ?st
      = Some (Inr (), merge_siblings rs st)"
    by (simp only: run_parallel_def fan ended prod.case) (simp add: ended(1,2) follow_ends [OF out(2)] numeral_2_eq_2 del: follow_edges.simps)
  then have "run_from (execution_fuel twins) no_tables ?M twins (wo_start twins) (started []) = Some (Inr (), merge_siblings rs st)"
    using run_stepped [OF fresh(2) agents(1) inputs(1), of "\<lambda>_. Inr []"] by (simp add: fuel start run_from_def run_and_follow_def out to par numeral_2_eq_2)
  moreover have "call_names (merge_siblings rs st) = [cps ''s'', cps ''a'', cps ''a'']"
    by (simp add: merge_siblings_calls ended(3) numeral_2_eq_2) (simp add: call_names_def)
  ultimately show ?thesis by blast
qed

section \<open>The result of the last step\<close>

text \<open>Without a template the result is the output whose name comes last in the alphabet.\<close>

definition relay :: workflow where
  "relay = flow_of [step_of ''a'' ''1'', step_of ''s'' ''0''] [edge_of ''s'' OnSuccess ''a'']"

lemma relay_result:
  "\<exists>st. run_from (execution_fuel relay) no_tables (answers (\<lambda>i. if i = cps ''0'' then Inr [102] else Inr [108])) relay (wo_start relay) (started [])
      = Some (Inr (), st)
    \<and> map xs_output (xc_trace st) = [[102], [108]] \<and> render_final_result no_tables relay st = [102]"
  by (simp add: run_from_def execution_fuel_def relay_def flow_simps run_simps interpolate_plain trace_step_def render_final_result_def
      utf8_step.simps)

section \<open>A variable without its suffix\<close>

definition bare :: workflow where
  "bare = flow_of [step_of ''a'' ''{{s}}'', step_of ''s'' ''0''] [edge_of ''s'' OnSuccess ''a'']"

lemma bare_validates: "validate no_tables bare None = Some (Inr ())"
  using extracted(2) stripped(2) by (simp add: bare_def flow_simps valid_simps)

lemma bare_fails:
  "\<exists>st. run_from (execution_fuel bare) no_tables (answers (\<lambda>_. Inr [])) bare (wo_start bare) (started [])
    = Some (Inl (UndefinedInput (cps ''a'') (cps ''s'')), st)"
  using variable_inputs(3)
  by (simp add: run_from_def execution_fuel_def bare_def flow_simps run_simps interpolate_plain trace_step_def)

theorem validated_reads_upstream_witness: "cps ''s'' = workflow_input \<or> stripped_var (cps ''s'') \<in> upstream bare (cps ''a'')"
proof (rule validated_reads_upstream [OF bare_validates])
  show "(cps ''a'', snd (step_of ''a'' ''{{s}}'')) \<in> set (wo_agents bare)" by (simp add: bare_def flow_simps)
  show "cps ''s'' \<in> set (extract_vars no_tables (sp_input (snd (step_of ''a'' ''{{s}}''))))"
    using extracted(2) by (simp add: step_of_def)
qed

theorem visibility_exact_witness:
  "compute_visibility bare = Some (\<lambda>n. if (wo_start bare, n) \<in> (links bare)\<^sup>* then Some (upstream bare n) else None)"
  by (rule visibility_exact) (simp add: declared_def bare_def flow_simps)

end
