(* ===== verification/Spec2Isabelle.thy ===== *)
theory Spec2Isabelle
  imports Sol_Heap Sol_Divergences Sol_Flow Relux_Demo Relux_Planner_Props Relux_Batch_Demo Relix_Policy Relix_Log_Demo
    Relix_Workflow_Demo
begin

text \<open>
  The SOL language of Relux and the control plane that governs its agents, modelled and verified.

  Relux runs agent flows written in SOL, a small typed language. A flow is source text; the crate
  \<open>relix-runtime\<close> (directory \<open>src/crates/relix-runtime/src/sol\<close>) lexes, parses, analyses and compiles
  it to bytecode, and runs the bytecode on a stack machine with a step budget. Flows are written by
  operators and by agents, so the machine is the boundary behind which untrusted code runs: it must
  return, stay within its budget and never take the process down.

  The theories, in the order of the pipeline:

  \<^item> \<open>Prelude\<close>, \<open>Rust_Str\<close>, \<open>Float64\<close>: what the code uses of Rust's vectors, machine integers, strings
    (UTF-8 encoding and decoding, trimming, splitting, parsing of numbers) and IEEE double arithmetic.
  \<^item> \<open>Sol_Ast\<close>, \<open>Sol_Inst\<close>, \<open>Sol_Symbol\<close>: tokens, types with \<open>type_eq\<close> (\<open>util.rs\<close>), the syntax tree
    (\<open>parser.rs\<close>), the instructions (\<open>bytecode.rs\<close>) and the symbols (\<open>analyzer.rs\<close>).
  \<^item> \<open>Sol_Directives\<close>: the step directive in front of a source (\<open>mod.rs\<close>).
  \<^item> \<open>Sol_Lexer\<close>: \<open>lexer.rs\<close>, on Unicode scalar values. \<open>lex_all\<close> is a \<open>partial_function\<close>, since the
    loop of the code need not end; \<open>tokens_return\<close> says when it does and \<open>tokens_hang\<close> when not.
  \<^item> \<open>Sol_Render\<close>: tokens written out as text lex back to themselves.
  \<^item> \<open>Sol_Parser\<close>: \<open>parser.rs\<close>, rule by rule, as actions on the record \<open>parser\<close> (the tokens left and
    \<open>can_struct\<close>) that return the node or a \<open>parse_error\<close>. Recursion and loops carry fuel.
    \<open>Sol_Parser_Props\<close>: rules for the predicate \<open>reads\<close> (an action that returns and has consumed so
    many tokens), one per action, and from them that a unit of fuel per token and one more is enough.
    \<open>Sol_Print\<close>, \<open>Sol_Print_Program\<close>: printers for expressions, types, statements and declarations,
    and the round trips.
  \<^item> \<open>Sol_Analyzer\<close>, \<open>Sol_Analyzer_Props\<close>: \<open>Analyzer::check\<close>, node by node, as actions on the record
    \<open>analyzer\<close>; a panic is a value of \<open>analysis_error\<close>. The properties are rules for the predicate
    \<open>keeps\<close>, one per action, and \<open>check_sound\<close> by induction over the traversal.
  \<^item> \<open>Sol_Bytecode\<close>, \<open>Sol_Bytecode_Wf\<close>: \<open>Codegen\<close>, node by node; the state is the record \<open>codegen\<close> with
    the emitted instructions in \<open>insts\<close>. \<open>wf_code\<close> is what every emitter does to the vector.
  \<^item> \<open>Sol_Vm_State\<close>, \<open>Sol_Vm\<close>: the machine of \<open>vm.rs\<close>, one handler per instruction. Words are 64 bits
    wide. The flag \<open>ovf\<close> is whether the build checks arithmetic for overflow: with it an overflowing
    addition is a panic, without it the word wraps. Output, remote calls and streamed chunks are
    appended to \<open>effects\<close>; the dispatcher and the confidence cell are functions of what happened
    before. A panic or a stack overflow of the process is a \<open>crash\<close>.
  \<^item> \<open>Sol_Vm_Frame\<close>, \<open>Machine\<close>, \<open>Sol_Vm_Props\<close>: frame lemmas, the locales \<open>fuelled_machine\<close> and
    \<open>machine_invariant\<close> for a machine that pays for each step, and their interpretations on the
    machine: returning, the exact budget, the absence of panics in release builds.
  \<^item> \<open>Sol_Heap\<close>: lists, maps and remote calls (locales \<open>key_value\<close> and \<open>keyed_store\<close>, interpreted on the
    pair lists of the machine).
  \<^item> \<open>Sol_Pc\<close>: control stays inside compiled code.
  \<^item> \<open>Sol_Expr_Correct\<close>, \<open>Sol_Stmt_Correct\<close>, \<open>Sol_Pipeline\<close>: the correctness of the compiler on a core of
    the language against a big-step semantics, and through the analyzer.
  \<^item> \<open>Sol_Compile\<close>, \<open>Sol_Flow\<close>: the entry points of \<open>mod.rs\<close>, and the theorems from source text to the
    end of a run: compiling returns, whatever compiles returns without panic when run, and the text of a core program
    computes what the program means.
  \<^item> \<open>Sol_Divergences\<close>: behaviours of the pipeline outside that core that differ from what a program
    says.

  The rules around the flows, in the crates \<open>relux-core\<close> and \<open>relix-core\<close>:

  \<^item> \<open>Rust_Pattern\<close>: the pattern methods of \<open>str\<close>.
  \<^item> \<open>Relux_Hierarchy\<close>: the chain of command over agents (\<open>hierarchy.rs\<close>) and the tree of tasks
    (\<open>task.rs\<close>). Both walks are interpretations of the locale \<open>bounded_walk\<close>, in which the check for
    a new edge is proved correct up to the depth; \<open>deep_cycle_missed\<close> is what happens beyond.
  \<^item> \<open>Relux_Permission\<close>: capability strings and what a grant authorizes (\<open>permission.rs\<close>,
    \<open>persistent_grant.rs\<close>).
  \<^item> \<open>Relux_Run_Failure\<close>: which failed runs are retried (\<open>run_failure.rs\<close>), the stall window
    (\<open>run_watchdog.rs\<close>).
  \<^item> \<open>Relix_Policy\<close>: the policy engine and the cached policies of tenants (\<open>policy.rs\<close>). The file
    system and the cache crate are parameters; \<open>lru_laws\<close> is what the code relies on.

  \<^item> \<open>Relix_Log\<close>: the signed, hash-chained logs of \<open>relix-core\<close>, byte for byte: frames, chains, the event
    log of a flow (\<open>eventlog.rs\<close>) and the audit log of a responder (\<open>audit.rs\<close>). The codec, the hash and the
    signatures are third-party code and parameters; \<open>codec_ok\<close> and \<open>crypto_ok\<close> are what the code relies
    on. A write fails, or the process dies, after any number of bytes. \<open>Relix_Log_Props\<close>,
    \<open>Relix_Audit_Props\<close>: reading back, crashes, what the last hash determines, and when a log is put
    aside. \<open>Relix_Log_Limits\<close>: what the logs accept and can not read back, and what they do not notice.
    \<open>Relix_Log_Demo\<close>: small instances.

  Workflows (\<open>relix-runtime/src/workflow\<close>), graphs of agent steps that call peers of the mesh:

  \<^item> \<open>Relix_Workflow\<close>: the graph (\<open>ast.rs\<close>), templates with variables, and the validator
    (\<open>validator.rs\<close>). The loop that computes what a step may read is a \<open>partial_function\<close>; the search for
    cycles has fuel \<open>length (wo_edges w) + 2\<close>, since a call has different steps on its stack and all but
    the first are targets of edges.
  \<^item> \<open>Relix_Workflow_Run\<close>: the executor (\<open>executor.rs\<close>). The peers and the cancellation flag are the
    parameter \<open>mesh\<close>. A recursion visits a new target of an edge before it goes deeper, so
    \<open>execution_fuel\<close>, one more than there are edges, is enough for every run. The steps of a fan-out run one
    after another on copies of the state, as their join leaves it.
  \<^item> \<open>Relix_Workflow_Props\<close>: the locale \<open>run_keeps\<close>, what a relation between the states before and after a
    part of a run must satisfy to hold of the whole; its instances \<open>progress\<close>, \<open>once\<close> and, in
    \<open>Relix_Workflow_Routing\<close>, \<open>feeds\<close>. There also: the end of every run, failures and triggers.
    \<open>Relix_Workflow_Valid\<close>: the validator against the graph, as relations on steps.
    \<open>Relix_Workflow_Demo\<close>: small workflows, and what the engine does on graphs its checks let through.

  The control plane (\<open>KernelState\<close> in the crate \<open>relux-kernel\<close>), which agents and operators share:

  \<^item> \<open>Rust_Map\<close>: hash maps as association lists, whose order is the order of traversal that Rust leaves
    open; \<open>max_by_key\<close>. \<open>Relux_Domain\<close>: the records and enumerations of \<open>relux-core\<close>.
    \<open>Relux_Task_Input\<close>: tool plans in the input of a task, the requests the local adapter refuses
    (\<open>task.rs\<close>), the sessions of providers (\<open>run_session.rs\<close>).
  \<^item> \<open>Relux_State\<close>: the state, its errors, its logical clock, the audit log and the transcript. An
    operation is a function from the state to a result and the new state. What is outside the process
    (the wall clock, the tools' runtimes, the spawned adapters) is the record \<open>world\<close>, a parameter of
    the operations; nothing is assumed of its answers.
  \<^item> \<open>Relux_Agents\<close>, \<open>Relux_Tasks\<close>, \<open>Relux_Runs\<close>, \<open>Relux_Tools\<close>, \<open>Relux_Execute\<close>: the operations of
    \<open>state.rs\<close> on agents and their managers, the tree of tasks, runs and the watchdog, approvals and
    the tool gate, and the execution of a task with retry and resume. An operation that several
    functions of the source spell out alike (how a run ends, what a manager must hold) is one
    definition with what differs as arguments.
  \<^item> \<open>Relux_Catalog\<close>: plugins are registered, installed and removed, adapters configured, MCP servers
    switched, removed and their tools classified; the state of a new process.
  \<^item> \<open>Relux_Ids\<close>: when the texts of numbered names and of time stamps order as their numbers do.
  \<^item> \<open>Relux_Wf\<close>, \<open>Relux_Steps\<close>: the invariant \<open>wf\<close> and the preorder \<open>evolve\<close> of the state, and the basic
    changes that keep both (rules \<open>steps_intros\<close>). \<open>Relux_Governed\<close>, \<open>Relux_Control\<close>: the locale
    \<open>governed\<close>, the contract of an operation, interpreted on every operation.
  \<^item> \<open>Relux_Reachable\<close>: the step relation \<open>control_step\<close> with a clause per operation. The operations of
    \<open>state.rs\<close> outside the model (registration of MCP servers, refresh of the bundled plugins, conversations
    and proposals, edits of a task) are its clauses \<open>cs_other\<close>: they change the catalog in any way, edit what
    a task asks for, tick, and write to either journal, in any order. A state is \<open>reachable\<close> when steps lead
    to it from \<open>new_kernel\<close>, the empty state a process starts with. \<open>Relux_Safety\<close>,
    \<open>Relux_Behaviour\<close>, \<open>Relux_Recovery\<close>: the properties; \<open>Relux_Demo\<close>: a small control plane in which
    each of them is applied.

  Prime, the agent that coordinates the others (\<open>relux-core/src/prime.rs\<close>, \<open>orchestration.rs\<close>, and its
  operations in \<open>state.rs\<close> and \<open>server.rs\<close>):

  \<^item> \<open>Relux_Limits\<close>: the limits the operator sets, with their ceilings. \<open>Relux_Planner\<close>,
    \<open>Relux_Planner_Props\<close>: a goal becomes a plan. The splitter is a loop over byte offsets; a cut inside
    a character is the panic it is in Rust (\<open>None\<close>).
  \<^item> \<open>Relux_Batch\<close>: a plan becomes an orchestration of briefs, and a batch runs them in rounds: prepare
    under the lock, run the processes, write back. Its measure is what is left of the budget.
    A batch as one operation holds the lock throughout, as the synchronous route does.
    \<open>Relux_Frame\<close>: the locale \<open>bystander\<close>, what executing a task leaves alone. \<open>Relux_Batch_Props\<close>: a round
    as a relation between the briefs before and after it (\<open>round_effect\<close>), a batch as a path of rounds.
    \<open>Relux_Orchestration\<close>: order, budget, report and settling of a batch.
  \<^item> \<open>Relux_Coordination\<close>, \<open>Relux_Autonomy\<close>: orchestrations and the autonomy loop as instances of
    \<open>governed\<close>. \<open>Relux_Autonomy_Props\<close>: what one tick may do.
  \<^item> \<open>Relux_Jobs\<close>: the registry of background jobs and the worker that drives one, as a state machine
    whose steps are what it does between two points where others get in. \<open>Relux_Jobs_Props\<close>: kernel,
    registry and workers together (\<open>site_step\<close>); its invariant, the end of every worker, and what
    can happen in the window while processes run without the lock.
  \<^item> \<open>Relux_Batch_Demo\<close>: the properties applied to an orchestration of two briefs.

  Bounds. The budget of a run is between 1 and 10^7 steps, an instruction grows the stack by at most
  2^24 + 1 slots, so the stack stays below 2^63 slots. \<open>heap_display\<close> follows references; the depth
  \<open>length heap + 1\<close> is enough to tell a recursion that ends from one that does not, since a longer
  chain of references visits an object twice. Only \<open>list_join\<close> and \<open>list_contains\<close> display, so only a flow with one
  of them can overflow the native stack; \<open>self_list_overflows\<close> does. The parser gets one unit of fuel more than there are
  tokens; every recursive call and every turn of a loop consumes a token first.

  The splitter of the planner and the rounds of a batch are total functions with their measures; a worker
  takes at most two steps per brief of a budget of at most 25, and two more.

  Of workflows not modelled: the YAML parser, the store and the chronicle, execution ids and latencies of
  whole runs, the lists of available names in two messages, and the mixing of the events of siblings.

  Not modelled: the HTTP routing, the store and the live log buffers around the control plane; the
  conversational turns of Prime and the providers behind them; the coordinator nodes of
  \<open>relix-runtime\<close>, which are SQL and network I/O; the depth of the native stack under the
  recursive-descent parser, the analyzer and a display that ends; the dispatchers behind remote calls and the flow runner, which are network I/O; the text of panic
  messages, which no code reads. Of the standard library above ASCII, \<open>char::is_alphabetic\<close> and
  \<open>char::is_numeric\<close> are the parameter \<open>ucd\<close>. Maps that the code iterates in hash order are association
  lists, whose order is the iteration order of the run.
\<close>

end
